(* ===== verification/Prelude.thy ===== *)
theory Prelude
  imports Complex_Main "HOL-Library.Word" "HOL-Library.Char_ord" "HOL-Library.List_Lexorder"
    "HOL-Library.Product_Lexorder" "HOL-Library.Option_ord"
begin

unbundle bit_operations_syntax

text \<open>
  Shared vocabulary of the development: the C++ integer types as machine words, bytes and
  strings, little and big endian byte runs, the ordered map that models \<open>std::map\<close> and
  \<open>std::set\<close>, exact models of \<open>float\<close> and \<open>double\<close> values, and the lemma collections the
  component theories use.  A \<open>size_t\<close> that only counts elements of a container is a \<open>nat\<close>;
  every other fixed-width integer whose wrap-around is reachable is a word.
\<close>

named_theorems byte_simps \<open>lengths and round trips of byte runs\<close>
named_theorems omap_simps \<open>lookup, size and order facts of ordered maps\<close>
named_theorems inv_intros \<open>preservation of component invariants\<close>

section \<open>C++ scalar types\<close>

type_synonym u8 = "8 word"
type_synonym u16 = "16 word"
type_synonym u32 = "32 word"
type_synonym u64 = "64 word"
type_synonym bytes = "u8 list"

definition byte_of_char :: "char \<Rightarrow> u8" where
  "byte_of_char c = word_of_nat (of_char c)"

definition char_of_byte :: "u8 \<Rightarrow> char" where
  "char_of_byte b = char_of (unat b)"

abbreviation str_bytes :: "string \<Rightarrow> bytes" where
  "str_bytes s \<equiv> map byte_of_char s"

abbreviation bytes_str :: "bytes \<Rightarrow> string" where
  "bytes_str bs \<equiv> map char_of_byte bs"

lemma unat_byte_lt [simp]: "unat (b :: u8) < 256"
proof -
  have "unat b < 2 ^ LENGTH(8)" by (rule unsigned_less)
  then show ?thesis by simp
qed

lemma unat_byte_of_char [simp]: "unat (byte_of_char c) = of_char c"
  by (simp add: byte_of_char_def unat_of_nat take_bit_nat_def)

lemma char_of_byte_of_char [simp]: "char_of_byte (byte_of_char c) = c"
  by (simp add: char_of_byte_def)

lemma byte_of_char_of_byte [simp]: "byte_of_char (char_of_byte b) = b"
proof -
  have "unat b mod 256 = unat b" by simp
  then show ?thesis
    by (simp add: byte_of_char_def char_of_byte_def)
qed

lemma bytes_str_bytes [simp]: "bytes_str (str_bytes s) = s"
  by (induction s) auto

lemma str_bytes_str [simp]: "str_bytes (bytes_str bs) = bs"
  by (induction bs) auto

lemma inj_str_bytes: "str_bytes s = str_bytes t \<Longrightarrow> s = t"
  by (metis bytes_str_bytes)

lemma uint_u32_le: "uint (w :: u32) \<le> 0xFFFFFFFF"
proof -
  have "uint w < 2 ^ LENGTH(32)" by (rule unsigned_less)
  then show ?thesis by simp
qed

lemma uint_u16_le: "uint (w :: u16) \<le> 0xFFFF"
proof -
  have "uint w < 2 ^ LENGTH(16)" by (rule unsigned_less)
  then show ?thesis by simp
qed

lemma uint_pos: "w \<noteq> 0 \<Longrightarrow> 1 \<le> uint w"
  by (simp add: int_one_le_iff_zero_less less_le uint_0_iff)

section \<open>Byte runs\<close>

text \<open>
  \<open>put_le v n\<close> is the loop that appends the low \<open>n\<close> bytes of a \<open>uint64_t\<close>, least significant
  byte first; \<open>get_le\<close> is the loop that reads such a run back.  The big endian pair is used
  by the invite code and by the STUN responder.
\<close>

fun put_le :: "u64 \<Rightarrow> nat \<Rightarrow> bytes" where
  "put_le v 0 = []"
| "put_le v (Suc n) = ucast v # put_le (drop_bit 8 v) n"

fun get_le :: "bytes \<Rightarrow> u64" where
  "get_le [] = 0"
| "get_le (b # bs) = ucast b OR push_bit 8 (get_le bs)"

lemma length_put_le [simp, byte_simps]: "length (put_le v n) = n"
  by (induction n arbitrary: v) auto

lemma get_le_put_le_mask: "get_le (put_le v n) = take_bit (8 * n) v"
proof (induction n arbitrary: v)
  case 0
  then show ?case by simp
next
  case (Suc n)
  show ?case
    by (rule bit_word_eqI)
       (auto simp: Suc bit_simps not_less algebra_simps)
qed

lemma get_le_put_le_8 [simp, byte_simps]: "get_le (put_le v 8) = v"
  by (simp add: get_le_put_le_mask take_bit_word_eq_self)

fun put_be :: "u64 \<Rightarrow> nat \<Rightarrow> bytes" where
  "put_be v 0 = []"
| "put_be v (Suc n) = ucast (drop_bit (8 * n) v) # put_be v n"

definition get_be :: "bytes \<Rightarrow> u64" where
  "get_be bs = foldl (\<lambda>v b. push_bit 8 v OR ucast b) 0 bs"

lemma length_put_be [simp, byte_simps]: "length (put_be v n) = n"
  by (induction n) auto

lemma get_be_foldl_put_be:
  "foldl (\<lambda>v b. push_bit 8 v OR ucast b) a (put_be v n) = push_bit (8 * n) a OR take_bit (8 * n) v"
proof (induction n arbitrary: a)
  case 0
  then show ?case by simp
next
  case (Suc n)
  show ?case
    by (simp only: put_be.simps foldl.simps Suc, rule bit_word_eqI)
       (auto simp: bit_simps not_less algebra_simps)
qed

lemma get_be_put_be_8 [simp, byte_simps]: "get_be (put_be v 8) = v"
  by (simp add: get_be_def get_be_foldl_put_be take_bit_word_eq_self)

text \<open>Subtraction of two \<open>size_t\<close>.\<close>

definition size_sub :: "nat \<Rightarrow> nat \<Rightarrow> nat" where
  "size_sub a b = (if b \<le> a then a - b else 2 ^ 64 + a - b)"

lemma size_sub_le [simp]: "b \<le> a \<Longrightarrow> size_sub a b = a - b"
  by (simp add: size_sub_def)

section \<open>Exceptions\<close>

text \<open>Sequencing and loops over computations that may throw: the error is the left value.\<close>

definition try_bind :: "'e + 'a \<Rightarrow> ('a \<Rightarrow> 'e + 'b) \<Rightarrow> 'e + 'b" where
  "try_bind r f = (case r of Inl e \<Rightarrow> Inl e | Inr a \<Rightarrow> f a)"

lemma try_bind_simps [simp]:
  "try_bind (Inl e) f = Inl e"
  "try_bind (Inr a) f = f a"
  by (simp_all add: try_bind_def)

lemma try_bind_Inr: "try_bind r f = Inr b \<longleftrightarrow> (\<exists>a. r = Inr a \<and> f a = Inr b)"
  by (cases r) auto

fun try_fold :: "('x \<Rightarrow> 'a \<Rightarrow> 'e + 'a) \<Rightarrow> 'x list \<Rightarrow> 'a \<Rightarrow> 'e + 'a" where
  "try_fold f [] a = Inr a"
| "try_fold f (x # xs) a = try_bind (f x a) (try_fold f xs)"

lemma try_fold_inv:
  "try_fold f xs a = Inr b \<Longrightarrow> P a \<Longrightarrow> (\<And>x a a'. f x a = Inr a' \<Longrightarrow> P a \<Longrightarrow> P a') \<Longrightarrow> P b"
  by (induction xs arbitrary: a) (auto simp: try_bind_Inr)

section \<open>Ordered maps and sets\<close>

text \<open>
  \<open>std::map\<close> and \<open>std::set\<close> iterate in key order.  An ordered map is an association list with
  strictly increasing keys; lookup is \<open>map_of\<close>.
\<close>

type_synonym ('k, 'v) omap = "('k \<times> 'v) list"

definition om_ok :: "('k :: linorder, 'v) omap \<Rightarrow> bool" where
  "om_ok m \<longleftrightarrow> sorted_wrt (<) (map fst m)"

fun om_put :: "'k :: linorder \<Rightarrow> 'v \<Rightarrow> ('k, 'v) omap \<Rightarrow> ('k, 'v) omap" where
  "om_put k v [] = [(k, v)]"
| "om_put k v ((a, b) # m) =
     (if k < a then (k, v) # (a, b) # m
      else if k = a then (k, v) # m
      else (a, b) # om_put k v m)"

definition om_erase :: "'k :: linorder \<Rightarrow> ('k, 'v) omap \<Rightarrow> ('k, 'v) omap" where
  "om_erase k m = filter (\<lambda>p. fst p \<noteq> k) m"

abbreviation om_has :: "'k :: linorder \<Rightarrow> ('k, 'v) omap \<Rightarrow> bool" where
  "om_has k m \<equiv> map_of m k \<noteq> None"

definition om_get :: "'v \<Rightarrow> 'k :: linorder \<Rightarrow> ('k, 'v) omap \<Rightarrow> 'v" where
  "om_get d k m = (case map_of m k of None \<Rightarrow> d | Some v \<Rightarrow> v)"

lemma om_ok_Nil [simp, omap_simps]: "om_ok []"
  by (simp add: om_ok_def)

lemma om_ok_Cons [omap_simps]:
  "om_ok ((k, v) # m) \<longleftrightarrow> (\<forall>a \<in> fst ` set m. k < a) \<and> om_ok m"
  by (auto simp: om_ok_def)

lemma om_ok_distinct: "om_ok m \<Longrightarrow> distinct (map fst m)"
  by (induction m) (auto simp: om_ok_def)

lemma om_ok_filter [intro]: "om_ok m \<Longrightarrow> om_ok (filter P m)"
  by (induction m) (auto simp: om_ok_def)

lemma map_of_om_put [simp, omap_simps]: "map_of (om_put k v m) = (map_of m)(k \<mapsto> v)"
  by (induction k v m rule: om_put.induct) auto

lemma fst_set_om_put [simp, omap_simps]: "fst ` set (om_put k v m) = insert k (fst ` set m)"
  by (induction k v m rule: om_put.induct) auto

lemma set_om_put_subset: "set (om_put k v m) \<subseteq> insert (k, v) (set m)"
  by (induction k v m rule: om_put.induct) auto

lemma om_ok_put [simp, intro, omap_simps]: "om_ok m \<Longrightarrow> om_ok (om_put k v m)"
proof (induction k v m rule: om_put.induct)
  case (1 k v)
  then show ?case by (simp add: om_ok_def)
next
  case (2 k v a b m)
  then show ?case
    by (auto simp: om_ok_Cons)
qed

lemma map_of_om_erase [simp, omap_simps]: "map_of (om_erase k m) = (map_of m)(k := None)"
  by (induction m) (auto simp: om_erase_def)

lemma om_ok_erase [simp, intro, omap_simps]: "om_ok m \<Longrightarrow> om_ok (om_erase k m)"
  unfolding om_erase_def by (rule om_ok_filter)

lemma om_has_iff: "om_has k m \<longleftrightarrow> k \<in> fst ` set m"
  by (metis map_of_eq_None_iff)

lemma om_find_in_set: "map_of m k = Some v \<Longrightarrow> (k, v) \<in> set m"
  by (rule map_of_SomeD)

lemma om_find_iff: "om_ok m \<Longrightarrow> map_of m k = Some v \<longleftrightarrow> (k, v) \<in> set m"
  by (meson map_of_SomeD map_of_is_SomeI om_ok_distinct)

lemma length_om_put [omap_simps]:
  "om_ok m \<Longrightarrow> length (om_put k v m) = (if om_has k m then length m else Suc (length m))"
proof (induction k v m rule: om_put.induct)
  case (1 k v)
  then show ?case by simp
next
  case (2 k v a b m)
  show ?case
  proof (cases "k < a")
    case True
    with "2.prems" have "k \<notin> fst ` set m" by (auto simp: om_ok_Cons)
    with True show ?thesis by (auto simp: map_of_eq_None_iff)
  next
    case False
    with 2 show ?thesis by (auto simp: om_ok_Cons)
  qed
qed

lemma length_om_put_le: "length (om_put k v m) \<le> Suc (length m)"
  by (induction k v m rule: om_put.induct) auto

lemma length_om_erase_le [simp]: "length (om_erase k m) \<le> length m"
  by (simp add: om_erase_def)

lemma om_eqI:
  assumes "om_ok m" and "om_ok n" and "map_of m = map_of n"
  shows "m = n"
proof -
  have "distinct m" and "distinct n"
    using assms(1,2) by (auto dest: om_ok_distinct simp: distinct_map)
  have "set m = set n"
    using assms om_find_iff by (metis subrelI subset_antisym)
  moreover have "sorted_wrt (\<lambda>p q. fst p < fst q) m" "sorted_wrt (\<lambda>p q. fst p < fst q) n"
    using assms(1,2) by (auto simp: om_ok_def sorted_wrt_map)
  ultimately show ?thesis
  proof (induction m arbitrary: n)
    case Nil
    then show ?case by simp
  next
    case (Cons x m)
    then obtain y n' where n: "n = y # n'" by (cases n) auto
    have "x = y"
      using Cons.prems n by (metis insert_iff less_asym list.simps(15) sorted_wrt.simps(2))
    moreover have "set m = set n'"
      using Cons.prems n \<open>x = y\<close>
      by (metis insert_ident less_irrefl list.simps(15) sorted_wrt.simps(2))
    ultimately show ?case using Cons n by simp
  qed
qed

text \<open>A \<open>std::set\<close> is an ordered list of its elements.\<close>

fun os_insert :: "'a :: linorder \<Rightarrow> 'a list \<Rightarrow> 'a list" where
  "os_insert x [] = [x]"
| "os_insert x (y # ys) =
     (if x < y then x # y # ys else if x = y then y # ys else y # os_insert x ys)"

definition os_ok :: "'a :: linorder list \<Rightarrow> bool" where
  "os_ok xs \<longleftrightarrow> sorted_wrt (<) xs"

lemma set_os_insert [simp, omap_simps]: "set (os_insert x xs) = insert x (set xs)"
  by (induction x xs rule: os_insert.induct) auto

lemma os_ok_insert [simp, intro, omap_simps]: "os_ok xs \<Longrightarrow> os_ok (os_insert x xs)"
proof (induction x xs rule: os_insert.induct)
  case (1 x)
  then show ?case by (simp add: os_ok_def)
next
  case (2 x y ys)
  then show ?case
    by (auto simp: os_ok_def)
qed

lemma os_ok_Nil [simp]: "os_ok []"
  by (simp add: os_ok_def)

lemma os_ok_distinct: "os_ok xs \<Longrightarrow> distinct xs"
  unfolding os_ok_def by (induction xs) auto

lemma length_os_insert [omap_simps]:
  "os_ok xs \<Longrightarrow> length (os_insert x xs) = (if x \<in> set xs then length xs else Suc (length xs))"
proof -
  assume ok: "os_ok xs"
  have "length (os_insert x xs) = card (insert x (set xs))"
    using os_ok_distinct [OF os_ok_insert [OF ok, of x]]
    by (metis distinct_card set_os_insert)
  then show ?thesis
    using os_ok_distinct [OF ok] by (auto simp: distinct_card card_insert_if)
qed

end
