(* ===== verification/Interfaces.thy ===== *)
theory Interfaces
  imports Prelude
begin

text \<open>
  The contracts several components share, as locales: what a state machine keeps invariant,
  when a receiver admits a numbered message at most once, when merging replicated facts
  converges, and what an encoder and its decoder promise each other.  Each contract is
  interpreted on the model of the code in the theory of the component that provides it.
\<close>

section \<open>Machines with an invariant\<close>

text \<open>A component that consumes a stream of events, one at a time.\<close>

locale invariant_machine =
  fixes step :: "'e \<Rightarrow> 's \<Rightarrow> 's"
    and inv :: "'s \<Rightarrow> bool"
    and start :: 's
  assumes start_inv: "inv start"
    and step_inv: "inv s \<Longrightarrow> inv (step e s)"
begin

lemma run_inv: "inv s \<Longrightarrow> inv (fold step es s)"
  by (induction es arbitrary: s) (auto intro: step_inv)

lemma reachable_inv: "inv (fold step es start)"
  by (rule run_inv [OF start_inv])

end

section \<open>Admission at most once\<close>

text \<open>
  A receiver looks at a message, admits it or not, and changes its state.  \<open>admitted\<close> is the
  sub-sequence of a stream that it admits.
\<close>

fun admitted :: "('m \<Rightarrow> 's \<Rightarrow> bool \<times> 's) \<Rightarrow> 's \<Rightarrow> 'm list \<Rightarrow> 'm list" where
  "admitted admit s [] = []"
| "admitted admit s (m # ms) =
     (case admit m s of (ok, s') \<Rightarrow>
        if ok then m # admitted admit s' ms else admitted admit s' ms)"

locale admission =
  fixes admit :: "'m \<Rightarrow> 's \<Rightarrow> bool \<times> 's"
    and number :: "'m \<Rightarrow> 'n"
    and spent :: "'s \<Rightarrow> 'n set"
    and inv :: "'s \<Rightarrow> bool"
  assumes admit_inv: "inv s \<Longrightarrow> inv (snd (admit m s))"
    and admit_fresh: "inv s \<Longrightarrow> fst (admit m s) \<Longrightarrow> number m \<notin> spent s"
    and admit_spends: "inv s \<Longrightarrow> fst (admit m s) \<Longrightarrow> number m \<in> spent (snd (admit m s))"
    and spent_mono: "inv s \<Longrightarrow> spent s \<subseteq> spent (snd (admit m s))"
begin

lemma admitted_unspent:
  "inv s \<Longrightarrow> m \<in> set (admitted admit s ms) \<Longrightarrow> number m \<notin> spent s"
proof (induction ms arbitrary: s)
  case Nil
  then show ?case by simp
next
  case (Cons x ms)
  obtain ok s' where step: "admit x s = (ok, s')" by fastforce
  have "inv s'" and "spent s \<subseteq> spent s'"
    using admit_inv [of s x] spent_mono [of s x] Cons.prems(1) step by auto
  with Cons step show ?case
    using admit_fresh [of s x] by (auto split: if_splits)
qed

theorem at_most_once: "inv s \<Longrightarrow> distinct (map number (admitted admit s ms))"
proof (induction ms arbitrary: s)
  case Nil
  then show ?case by simp
next
  case (Cons x ms)
  obtain ok s' where step: "admit x s = (ok, s')" by fastforce
  have "inv s'" using admit_inv [of s x] Cons.prems step by auto
  moreover have "ok \<Longrightarrow> number x \<in> spent s'"
    using admit_spends [of s x] Cons.prems step by auto
  ultimately show ?case
    using Cons.IH [of s'] admitted_unspent [of s' _ ms] step by auto
qed

end

text \<open>
  A receiver that tracks a high-water mark per flow also keeps the order: what it admits of one
  flow is strictly increasing.
\<close>

locale monotone_admission = admission admit number spent inv
  for admit :: "'m \<Rightarrow> 's \<Rightarrow> bool \<times> 's"
    and number :: "'m \<Rightarrow> 'f \<times> ('n :: linorder)"
    and spent :: "'s \<Rightarrow> ('f \<times> 'n) set"
    and inv :: "'s \<Rightarrow> bool" +
  assumes spent_down: "inv s \<Longrightarrow> (f, n) \<in> spent s \<Longrightarrow> k \<le> n \<Longrightarrow> (f, k) \<in> spent s"
begin

theorem admitted_increasing:
  "inv s \<Longrightarrow> sorted_wrt (\<lambda>a b. fst (number a) = fst (number b) \<longrightarrow> snd (number a) < snd (number b))
     (admitted admit s ms)"
proof (induction ms arbitrary: s)
  case Nil
  then show ?case by simp
next
  case (Cons x ms)
  obtain good s' where step: "admit x s = (good, s')" by fastforce
  have inv': "inv s'" using admit_inv [of s x] Cons.prems step by auto
  have later: "snd (number x) < snd (number y)"
    if "good" and "y \<in> set (admitted admit s' ms)" and "fst (number x) = fst (number y)" for y
  proof (rule ccontr)
    assume "\<not> ?thesis"
    then have "snd (number y) \<le> snd (number x)" by simp
    moreover have "number x \<in> spent s'"
      using admit_spends [of s x] Cons.prems step that(1) by auto
    ultimately have "number y \<in> spent s'"
      using spent_down [OF inv', of "fst (number x)" "snd (number x)" "snd (number y)"] that(3)
      by (metis prod.collapse)
    with admitted_unspent [OF inv' that(2)] show False by simp
  qed
  show ?case using Cons.IH [OF inv'] later step by auto
qed

end

section \<open>Convergent merges\<close>

text \<open>
  Facts replicated between peers are merged with an idempotent, commutative and associative
  operation, so the order and the multiplicity of deliveries do not matter.
\<close>

locale convergent_merge =
  fixes merge :: "'a \<Rightarrow> 'a \<Rightarrow> 'a"
    and ok :: "'a \<Rightarrow> bool"
  assumes merge_ok: "ok a \<Longrightarrow> ok b \<Longrightarrow> ok (merge a b)"
    and merge_idem: "ok a \<Longrightarrow> merge a a = a"
    and merge_comm: "ok a \<Longrightarrow> ok b \<Longrightarrow> merge a b = merge b a"
    and merge_assoc: "ok a \<Longrightarrow> ok b \<Longrightarrow> ok c \<Longrightarrow> merge (merge a b) c = merge a (merge b c)"
begin

lemma fold_merge_ok: "ok a \<Longrightarrow> \<forall>x \<in> set xs. ok x \<Longrightarrow> ok (fold merge xs a)"
  by (induction xs arbitrary: a) (auto intro: merge_ok)

lemma fold_merge_start:
  "ok a \<Longrightarrow> \<forall>x \<in> set xs. ok x \<Longrightarrow> merge a (fold merge xs a) = fold merge xs a"
proof (induction xs arbitrary: a)
  case Nil
  then show ?case by (simp add: merge_idem)
next
  case (Cons x xs)
  let ?r = "fold merge xs (merge x a)"
  have oks: "ok x" "ok (merge x a)" "ok ?r"
    using Cons.prems by (auto intro: merge_ok fold_merge_ok)
  have r: "merge (merge x a) ?r = ?r" using Cons oks by simp
  have "merge a ?r = merge a (merge (merge x a) ?r)" by (simp add: r)
  also have "\<dots> = merge (merge a (merge x a)) ?r"
    using Cons.prems oks by (simp add: merge_assoc)
  also have "merge a (merge x a) = merge x a"
    using Cons.prems oks by (metis merge_assoc merge_comm merge_idem)
  finally show ?case using r by simp
qed

lemma fold_merge_upper:
  "ok a \<Longrightarrow> \<forall>x \<in> set xs. ok x \<Longrightarrow> y \<in> set xs \<Longrightarrow> merge y (fold merge xs a) = fold merge xs a"
proof (induction xs arbitrary: a)
  case Nil
  then show ?case by simp
next
  case (Cons x xs)
  let ?r = "fold merge xs (merge x a)"
  have oks: "ok x" "ok (merge x a)" "ok ?r"
    using Cons.prems by (auto intro: merge_ok fold_merge_ok)
  show ?case
  proof (cases "y \<in> set xs")
    case True
    with Cons oks show ?thesis by simp
  next
    case False
    with Cons.prems have "y = x" by simp
    have r: "merge (merge x a) ?r = ?r"
      using fold_merge_start [of "merge x a" xs] oks Cons.prems by simp
    have "merge x ?r = merge x (merge (merge x a) ?r)" by (simp add: r)
    also have "\<dots> = merge (merge x (merge x a)) ?r"
      using oks by (simp add: merge_assoc)
    also have "merge x (merge x a) = merge x a"
      using Cons.prems oks by (metis merge_assoc merge_idem)
    finally show ?thesis using r \<open>y = x\<close> by simp
  qed
qed

lemma fold_merge_least:
  "ok a \<Longrightarrow> \<forall>x \<in> set xs. ok x \<Longrightarrow> ok u \<Longrightarrow> merge a u = u \<Longrightarrow>
   \<forall>x \<in> set xs. merge x u = u \<Longrightarrow> merge (fold merge xs a) u = u"
proof (induction xs arbitrary: a)
  case Nil
  then show ?case by simp
next
  case (Cons x xs)
  then have "merge (merge x a) u = u" by (simp add: merge_assoc)
  with Cons show ?case by (simp add: merge_ok)
qed

theorem delivery_order_irrelevant:
  assumes "ok a" and "\<forall>x \<in> set xs. ok x" and "set xs = set ys"
  shows "fold merge xs a = fold merge ys a"
proof -
  let ?x = "fold merge xs a" and ?y = "fold merge ys a"
  have oks: "ok ?x" "ok ?y" using assms by (auto intro: fold_merge_ok)
  have "merge ?x ?y = ?y" and "merge ?y ?x = ?x"
    using assms oks
    by (auto intro!: fold_merge_least simp: fold_merge_start fold_merge_upper)
  then show ?thesis using merge_comm oks by metis
qed

end

section \<open>Encoders and decoders\<close>

locale codec =
  fixes enc :: "'a \<Rightarrow> 'b"
    and dec :: "'b \<Rightarrow> 'a option"
    and wf :: "'a \<Rightarrow> bool"
  assumes dec_enc: "wf x \<Longrightarrow> dec (enc x) = Some x"
begin

lemma enc_inj: "wf x \<Longrightarrow> wf y \<Longrightarrow> enc x = enc y \<Longrightarrow> x = y"
  by (metis dec_enc option.inject)

lemma decode_stream: "\<forall>x \<in> set xs. wf x \<Longrightarrow> map (\<lambda>x. dec (enc x)) xs = map Some xs"
  by (induction xs) (auto simp: dec_enc)

end

text \<open>A decoder that hands only well-formed values to its caller.\<close>

locale checked_codec = codec +
  assumes dec_wf: "dec y = Some x \<Longrightarrow> wf x"
begin

lemma dec_stable: "dec y = Some x \<Longrightarrow> dec (enc x) = Some x"
  by (simp add: dec_enc dec_wf)

end

text \<open>A decoder that accepts a value only in the one form the encoder writes.\<close>

locale canonical_codec = checked_codec +
  assumes enc_dec: "dec y = Some x \<Longrightarrow> enc x = y"
begin

lemma dec_inj: "dec y = Some x \<Longrightarrow> dec z = Some x \<Longrightarrow> y = z"
  by (metis enc_dec)

end

end
