(* ===== verification/Floor_Switch.thy ===== *)
theory Floor_Switch
  imports Interfaces
begin

text \<open>
  Shared pressure on floor switches, \<open>include/dusklight_online/game/floor_switch_sync.hpp\<close>:
  which switches are shared, what a well-formed snapshot is, how a frame's contacts are
  collected, and the ledger that keeps one leased snapshot per peer.
\<close>

section \<open>Identities and pressure\<close>

definition Push :: int where "Push = 0x16"
definition Iron :: int where "Iron = 0x18"
definition Heavy :: int where "Heavy = 0x3D"
definition MaxSwitches :: nat where "MaxSwitches = 64"
definition MaxPeers :: nat where "MaxPeers = 64"
definition LeaseMs :: u64 where "LeaseMs = 2000"

datatype fs_scene = Scene (fs_table: int) (fs_stage: string) (fs_room: int) (fs_layer: int)

datatype fs_key = Key (fs_actor: int) (fs_params: u32) (fs_home: "int \<times> int \<times> int")
  (fs_placementZ: u16)

text \<open>The defaulted three-way comparison orders keys field by field.\<close>

definition fs_key_tuple :: "fs_key \<Rightarrow> int \<times> u32 \<times> (int \<times> int \<times> int) \<times> u16" where
  "fs_key_tuple k = (fs_actor k, fs_params k, fs_home k, fs_placementZ k)"

lemma fs_key_tuple_inj: "fs_key_tuple a = fs_key_tuple b \<Longrightarrow> a = b"
  by (cases a; cases b) (simp add: fs_key_tuple_def)

instantiation fs_key :: linorder
begin

definition less_eq_fs_key :: "fs_key \<Rightarrow> fs_key \<Rightarrow> bool" where
  "less_eq_fs_key a b \<longleftrightarrow> fs_key_tuple a \<le> fs_key_tuple b"

definition less_fs_key :: "fs_key \<Rightarrow> fs_key \<Rightarrow> bool" where
  "less_fs_key a b \<longleftrightarrow> fs_key_tuple a < fs_key_tuple b"

instance
  by standard (auto simp: less_eq_fs_key_def less_fs_key_def fs_key_tuple_inj)

end

record pressure =
  ride :: u8
  heavy :: bool

definition no_pressure :: pressure where
  "no_pressure = \<lparr>ride = 0, heavy = False\<rparr>"

definition pressure_active :: "pressure \<Rightarrow> bool" where
  "pressure_active p \<longleftrightarrow> ride p \<noteq> 0"

definition combine :: "pressure \<Rightarrow> pressure \<Rightarrow> pressure" where
  "combine a b = \<lparr>ride = max (ride a) (ride b), heavy = (heavy a \<or> heavy b)\<rparr>"

definition supported :: "int \<Rightarrow> u32 \<Rightarrow> bool" where
  "supported actor params =
     (if actor = Iron \<or> actor = Heavy then True
      else if actor \<noteq> Push then False
      else let type = drop_bit 24 params AND 7 in type = 0 \<or> type = 1 \<or> type = 4)"

definition output_flag :: "int \<Rightarrow> u32 \<Rightarrow> int" where
  "output_flag actor params =
     (if \<not> supported actor params then -1
      else if actor = Push then uint (drop_bit 8 params AND 0xFF)
      else uint (params AND 0xFF))"

definition momentary :: "int \<Rightarrow> u32 \<Rightarrow> bool" where
  "momentary actor params \<longleftrightarrow>
     actor = Push \<and> supported actor params \<and> drop_bit 24 params AND 7 \<noteq> 0"

definition valid_scene_char :: "char \<Rightarrow> bool" where
  "valid_scene_char c \<longleftrightarrow>
     c = CHR ''_'' \<or> (CHR ''A'' \<le> c \<and> c \<le> CHR ''Z'') \<or> (CHR ''0'' \<le> c \<and> c \<le> CHR ''9'')"

definition valid_scene :: "fs_scene \<Rightarrow> bool" where
  "valid_scene s \<longleftrightarrow>
     \<not> (fs_table s < 0 \<or> fs_table s \<ge> 32 \<or> fs_room s < 0 \<or> fs_room s \<ge> 64 \<or>
        fs_layer s < -1 \<or> fs_layer s > 15 \<or> fs_stage s = [] \<or> length (fs_stage s) > 8) \<and>
     (\<forall>c \<in> set (fs_stage s). valid_scene_char c)"

definition valid_coordinate :: "int \<Rightarrow> bool" where
  "valid_coordinate c \<longleftrightarrow> \<not> (c < -4000000 \<or> c > 4000000)"

definition valid_key :: "fs_key \<Rightarrow> bool" where
  "valid_key k \<longleftrightarrow>
     supported (fs_actor k) (fs_params k) \<and>
     \<not> (fs_actor k \<noteq> Push \<and> fs_placementZ k \<noteq> 0) \<and>
     (case fs_home k of (x, y, z) \<Rightarrow>
        valid_coordinate x \<and> valid_coordinate y \<and> valid_coordinate z)"

type_synonym contacts = "(fs_key, pressure) omap"

record fs_packet =
  pk_sequence :: u64
  pk_scene :: fs_scene
  pk_contacts :: contacts

definition valid_contact :: "fs_key \<times> pressure \<Rightarrow> bool" where
  "valid_contact kp \<longleftrightarrow> (case kp of (key, p) \<Rightarrow>
     \<not> (\<not> valid_key key \<or> ride p < 1 \<or> ride p > 2 \<or> (fs_actor key = Heavy \<and> ride p \<noteq> 1)))"

definition valid_packet :: "fs_packet \<Rightarrow> bool" where
  "valid_packet p \<longleftrightarrow>
     \<not> (pk_sequence p = 0 \<or> \<not> valid_scene (pk_scene p) \<or> length (pk_contacts p) > MaxSwitches) \<and>
     (\<forall>kp \<in> set (pk_contacts p). valid_contact kp)"

section \<open>Collecting a frame\<close>

fun sample_contacts :: "contacts \<Rightarrow> (fs_key \<times> pressure) list \<Rightarrow> contacts" where
  "sample_contacts prev [] = prev"
| "sample_contacts prev ((key, p) # rest) =
     sample_contacts
       (if \<not> pressure_active p then om_erase key prev
        else if om_has key prev \<or> length prev < MaxSwitches then om_put key p prev
        else prev) rest"

definition finish_frame :: "contacts \<Rightarrow> contacts \<Rightarrow> bool \<Rightarrow> contacts" where
  "finish_frame previous sampled paused =
     sample_contacts (if \<not> paused then [] else previous) sampled"

section \<open>The ledger\<close>

datatype fs_result = FsAccepted | FsStale | FsInvalid | FsFull

record fs_peer =
  pr_sequence :: u64
  pr_scene :: fs_scene
  pr_contacts :: contacts
  pr_received :: u64

type_synonym ledger = "(string, fs_peer) omap"

definition ledger_receive :: "string \<Rightarrow> fs_packet \<Rightarrow> u64 \<Rightarrow> ledger \<Rightarrow> fs_result \<times> ledger" where
  "ledger_receive peer packet now peers =
     (if peer = [] \<or> length peer > 128 \<or> \<not> valid_packet packet then (FsInvalid, peers)
      else case map_of peers peer of
        Some st \<Rightarrow>
          if pk_sequence packet \<le> pr_sequence st then (FsStale, peers)
          else (FsAccepted, om_put peer \<lparr>pr_sequence = pk_sequence packet, pr_scene = pk_scene packet,
                 pr_contacts = pk_contacts packet, pr_received = now\<rparr> peers)
      | None \<Rightarrow>
          if length peers \<ge> MaxPeers then (FsFull, peers)
          else (FsAccepted, om_put peer \<lparr>pr_sequence = pk_sequence packet, pr_scene = pk_scene packet,
                 pr_contacts = pk_contacts packet, pr_received = now\<rparr> peers))"

definition lease_live :: "fs_scene \<Rightarrow> u64 \<Rightarrow> fs_peer \<Rightarrow> bool" where
  "lease_live scene now st \<longleftrightarrow>
     \<not> (pr_scene st \<noteq> scene \<or> now < pr_received st \<or> now - pr_received st \<ge> LeaseMs)"

definition ledger_pressure :: "fs_scene \<Rightarrow> fs_key \<Rightarrow> u64 \<Rightarrow> ledger \<Rightarrow> pressure" where
  "ledger_pressure scene key now peers =
     foldl (\<lambda>result (peer, st).
       if \<not> lease_live scene now st then result
       else case map_of (pr_contacts st) key of
         None \<Rightarrow> result
       | Some p \<Rightarrow> combine result p) no_pressure peers"

definition clear_pressure :: "ledger \<Rightarrow> ledger" where
  "clear_pressure peers = map (\<lambda>(peer, st). (peer, st\<lparr>pr_contacts := []\<rparr>)) peers"

definition ledger_forget :: "string \<Rightarrow> ledger \<Rightarrow> ledger" where
  "ledger_forget peer peers = om_erase peer peers"

definition reset_session :: "ledger \<Rightarrow> ledger" where
  "reset_session peers = []"

definition peer_count :: "ledger \<Rightarrow> nat" where
  "peer_count peers = length peers"

section \<open>Pressure merges\<close>

interpretation pressure_merge: convergent_merge combine "\<lambda>_. True"
  by unfold_locales (auto simp: combine_def max.assoc max.commute max.left_commute)

lemma combine_none [simp]: "combine no_pressure p = p" "combine p no_pressure = p"
  by (auto simp: combine_def no_pressure_def max_def)

lemma active_combine: "pressure_active (combine a b) \<longleftrightarrow> pressure_active a \<or> pressure_active b"
  by (auto simp: pressure_active_def combine_def max_def)

section \<open>A frame's contacts\<close>

lemma om_ok_sample: "om_ok prev \<Longrightarrow> om_ok (sample_contacts prev s)"
  by (induction prev s rule: sample_contacts.induct) auto

lemma length_sample:
  "om_ok prev \<Longrightarrow> length prev \<le> MaxSwitches \<Longrightarrow> length (sample_contacts prev s) \<le> MaxSwitches"
proof (induction prev s rule: sample_contacts.induct)
  case (1 prev)
  then show ?case by simp
next
  case (2 prev key p rest)
  have "length (om_erase key prev) \<le> MaxSwitches"
    using "2.prems"(2) length_om_erase_le le_trans by blast
  with 2 show ?case by (auto simp: length_om_put)
qed

lemma sample_absent:
  "key \<notin> fst ` set s \<Longrightarrow> map_of (sample_contacts prev s) key = map_of prev key"
  by (induction prev s rule: sample_contacts.induct) auto

lemma sample_released:
  "om_ok s \<Longrightarrow> map_of s key = Some p \<Longrightarrow> \<not> pressure_active p \<Longrightarrow>
   map_of (sample_contacts prev s) key = None"
proof (induction prev s rule: sample_contacts.induct)
  case (1 prev)
  then show ?case by simp
next
  case (2 prev k q rest)
  show ?case
  proof (cases "k = key")
    case True
    with "2.prems" have "key \<notin> fst ` set rest" and "q = p" by (auto simp: om_ok_Cons)
    with True "2.prems" show ?thesis by (simp add: sample_absent)
  next
    case False
    with 2 show ?thesis by (auto simp: om_ok_Cons)
  qed
qed

lemma sample_pressed:
  "om_ok s \<Longrightarrow> om_ok prev \<Longrightarrow> map_of s key = Some p \<Longrightarrow> pressure_active p \<Longrightarrow>
   length prev + length s \<le> MaxSwitches \<Longrightarrow>
   map_of (sample_contacts prev s) key = Some p"
proof (induction prev s rule: sample_contacts.induct)
  case (1 prev)
  then show ?case by simp
next
  case (2 prev k q rest)
  have e: "length (om_erase k prev) + length rest \<le> MaxSwitches"
    using "2.prems"(5) length_om_erase_le [of k prev] by (simp del: length_om_erase_le)
  have u: "length (om_put k q prev) + length rest \<le> MaxSwitches"
    using "2.prems"(5) length_om_put_le [of k q prev] by simp
  show ?case
  proof (cases "k = key")
    case True
    with "2.prems" have "key \<notin> fst ` set rest" and "q = p" by (auto simp: om_ok_Cons)
    with True "2.prems" show ?thesis by (simp add: sample_absent)
  next
    case False
    with 2 e u show ?thesis by (auto simp: om_ok_Cons)
  qed
qed

text \<open>collecting a frame: while the simulation runs, the contacts published are exactly the
  active samples of this frame (a missing actor is released); while it is paused, an actor that
  was not sampled keeps its last observation.\<close>

theorem finish_frame_contacts:
  assumes "om_ok sampled" and "om_ok previous" and "length sampled + length previous \<le> MaxSwitches"
  shows "map_of (finish_frame previous sampled paused) key =
     (case map_of sampled key of
        Some p \<Rightarrow> if pressure_active p then Some p else None
      | None \<Rightarrow> if paused then map_of previous key else None)"
proof (cases "map_of sampled key")
  case None
  then have "key \<notin> fst ` set sampled" by (simp add: map_of_eq_None_iff)
  then show ?thesis using None by (simp add: finish_frame_def sample_absent)
next
  case (Some p)
  let ?prev = "if \<not> paused then [] else previous"
  have "om_ok ?prev" and "length ?prev + length sampled \<le> MaxSwitches"
    using assms by auto
  then show ?thesis
    using Some assms(1) sample_released [of sampled key p ?prev]
      sample_pressed [of sampled ?prev key p]
    by (auto simp: finish_frame_def)
qed

lemma finish_frame_contacts_witness:
  "map_of (finish_frame [] [(Key Iron 5 (0, 0, 0) 0, \<lparr>ride = 1, heavy = True\<rparr>)] False)
     (Key Iron 5 (0, 0, 0) 0) = Some \<lparr>ride = 1, heavy = True\<rparr>"
  by (subst finish_frame_contacts)
     (simp_all add: om_ok_def MaxSwitches_def pressure_active_def)

section \<open>What the ledger answers\<close>

lemma foldl_pressure_active:
  "pressure_active (foldl (\<lambda>result (peer, st).
       if \<not> lease_live scene now st then result
       else case map_of (pr_contacts st) key of None \<Rightarrow> result | Some p \<Rightarrow> combine result p) r peers)
   \<longleftrightarrow> pressure_active r \<or> (\<exists>(peer, st) \<in> set peers. lease_live scene now st \<and>
         (\<exists>p. map_of (pr_contacts st) key = Some p \<and> pressure_active p))"
  by (induction peers arbitrary: r) (auto simp: active_combine split: option.splits if_splits)

lemma foldl_pressure_heavy:
  "heavy (foldl (\<lambda>result (peer, st).
       if \<not> lease_live scene now st then result
       else case map_of (pr_contacts st) key of None \<Rightarrow> result | Some p \<Rightarrow> combine result p) r peers)
   \<longleftrightarrow> heavy r \<or> (\<exists>(peer, st) \<in> set peers. lease_live scene now st \<and>
         (\<exists>p. map_of (pr_contacts st) key = Some p \<and> heavy p))"
  by (induction peers arbitrary: r) (auto simp: combine_def split: option.splits if_splits)

text \<open>remote pressure on a switch is exactly what the peers with a live lease in that scene
  report: it is active (heavy) if and only if one of them holds an active (heavy) contact.\<close>

theorem ledger_pressure_spec:
  assumes "om_ok peers"
  shows "(pressure_active (ledger_pressure scene key now peers) \<longleftrightarrow>
      (\<exists>peer st p. map_of peers peer = Some st \<and> lease_live scene now st \<and>
         map_of (pr_contacts st) key = Some p \<and> pressure_active p)) \<and>
    (heavy (ledger_pressure scene key now peers) \<longleftrightarrow>
      (\<exists>peer st p. map_of peers peer = Some st \<and> lease_live scene now st \<and>
         map_of (pr_contacts st) key = Some p \<and> heavy p))"
  unfolding ledger_pressure_def foldl_pressure_active foldl_pressure_heavy
  using assms by (fastforce simp: om_find_iff no_pressure_def pressure_active_def)

lemma ledger_pressure_spec_witness:
  "om_ok ([] :: ledger) \<and>
   \<not> pressure_active (ledger_pressure (Scene 16 ''D_MN05'' 0 0) (Key Iron 0 (0, 0, 0) 0) 5 [])"
  using ledger_pressure_spec [of "[]" "Scene 16 ''D_MN05'' 0 0" "Key Iron 0 (0, 0, 0) 0" 5] by simp

section \<open>Sequence high-water marks\<close>

text \<open>
  The messages a ledger is driven by within one session: received snapshots, and the clearing
  of pressure at a save, room or settings change.
\<close>

datatype fs_event = Receive string fs_packet u64 | ClearPressure

fun ledger_event :: "fs_event \<Rightarrow> ledger \<Rightarrow> bool \<times> ledger" where
  "ledger_event (Receive peer packet now) peers =
     (case ledger_receive peer packet now peers of (r, peers') \<Rightarrow> (r = FsAccepted, peers'))"
| "ledger_event ClearPressure peers = (False, clear_pressure peers)"

fun fs_number :: "fs_event \<Rightarrow> string \<times> u64" where
  "fs_number (Receive peer packet now) = (peer, pk_sequence packet)"
| "fs_number ClearPressure = ([], 0)"

definition fs_spent :: "ledger \<Rightarrow> (string \<times> u64) set" where
  "fs_spent peers = {(peer, n). \<exists>st. map_of peers peer = Some st \<and> n \<le> pr_sequence st}"

lemma map_of_clear_pressure:
  "map_of (clear_pressure peers) peer = map_option (\<lambda>st. st\<lparr>pr_contacts := []\<rparr>) (map_of peers peer)"
  by (induction peers) (auto simp: clear_pressure_def)

lemma fst_clear_pressure: "map fst (clear_pressure peers) = map fst peers"
  by (induction peers) (auto simp: clear_pressure_def)

definition ledger_ok :: "ledger \<Rightarrow> bool" where
  "ledger_ok peers \<longleftrightarrow> om_ok peers \<and> length peers \<le> MaxPeers"

lemma ledger_ok_receive: "ledger_ok peers \<Longrightarrow> ledger_ok (snd (ledger_receive peer packet now peers))"
  by (auto simp: ledger_ok_def ledger_receive_def length_om_put split: option.splits)

lemma ledger_ok_event: "ledger_ok peers \<Longrightarrow> ledger_ok (snd (ledger_event e peers))"
proof (cases e)
  case (Receive peer packet now)
  then show "ledger_ok peers \<Longrightarrow> ?thesis"
    using ledger_ok_receive [of peers peer packet now] by (auto split: prod.splits)
next
  case ClearPressure
  have "length (clear_pressure peers) = length peers" by (simp add: clear_pressure_def)
  then show "ledger_ok peers \<Longrightarrow> ?thesis"
    using ClearPressure by (simp add: ledger_ok_def om_ok_def fst_clear_pressure)
qed

interpretation ledger_admission: monotone_admission ledger_event fs_number fs_spent ledger_ok
proof unfold_locales
  fix m s
  assume "ledger_ok s"
  then show "ledger_ok (snd (ledger_event m s))" by (rule ledger_ok_event)
next
  fix m s
  assume "ledger_ok s" and "fst (ledger_event m s)"
  then show "fs_number m \<notin> fs_spent s"
    by (cases m) (auto simp: fs_spent_def ledger_receive_def split: prod.splits option.splits if_splits)
next
  fix m s
  assume "ledger_ok s" and "fst (ledger_event m s)"
  then show "fs_number m \<in> fs_spent (snd (ledger_event m s))"
    by (cases m) (auto simp: fs_spent_def ledger_receive_def split: prod.splits option.splits if_splits)
next
  fix m s
  show "fs_spent s \<subseteq> fs_spent (snd (ledger_event m s))"
    by (cases m)
       (auto simp: fs_spent_def ledger_receive_def map_of_clear_pressure split: option.splits)
next
  fix s f n k
  assume "(f, n) \<in> fs_spent s" and "k \<le> n"
  then show "(f, k) \<in> fs_spent s" by (auto simp: fs_spent_def intro: order_trans)
qed

text \<open>C31: over a whole session the snapshots a ledger applies of one peer have strictly increasing
  sequence numbers, whatever room or save changes clear the contacts in between: a delayed older
  press is never applied after a newer release; forgetting a peer or resetting
  the session starts a new history.\<close>

theorem ledger_applies_in_order:
  "sorted_wrt (\<lambda>a b. fst (fs_number a) = fst (fs_number b) \<longrightarrow> snd (fs_number a) < snd (fs_number b))
     (admitted ledger_event [] es)"
  by (rule ledger_admission.admitted_increasing) (simp add: ledger_ok_def)

lemma ledger_applies_in_order_witness:
  "fs_number (Receive ''client_1'' \<lparr>pk_sequence = 4, pk_scene = Scene 16 ''D_MN05'' 0 0, pk_contacts = []\<rparr> 0)
     = (''client_1'', 4) \<and> (4 :: u64) < 9"
  using ledger_applies_in_order
    [of "[Receive ''client_1'' \<lparr>pk_sequence = 4, pk_scene = Scene 16 ''D_MN05'' 0 0, pk_contacts = []\<rparr> 0,
          ClearPressure,
          Receive ''client_1'' \<lparr>pk_sequence = 9, pk_scene = Scene 16 ''D_MN05'' 0 0, pk_contacts = []\<rparr> 20]"]
  by (simp add: ledger_receive_def valid_packet_def valid_scene_def valid_scene_char_def
      clear_pressure_def MaxSwitches_def MaxPeers_def)

end
