(* ===== verification/Json_Value.thy ===== *)
theory Json_Value
  imports Prelude
begin

text \<open>
  JSON values as the program handles them: nlohmann's six kinds of value, with its distinction
  between signed, unsigned and floating numbers, and the accessors the code calls
  (\<open>find\<close>, \<open>contains\<close>, \<open>at\<close>, \<open>value\<close>, \<open>get\<close>).  An accessor that throws returns the error as
  the left value of a sum.  Parsing and printing text belong to the library, which is not part
  of the repository: a component that calls \<open>parse\<close> or \<open>dump\<close> takes them as parameters.
\<close>

section \<open>Values\<close>

text \<open>Floating-point values up to the sign of zero: no code compares or prints that sign.\<close>

datatype fl = FNaN | FInf bool | Fin rat

datatype json =
    JNull
  | JBool bool
  | JInt int
  | JUInt nat
  | JFloat fl
  | JStr string
  | JArr "json list"
  | JObj "(string \<times> json) list"

datatype json_error = TypeError | OutOfRange | ParseError | UndefinedCast

type_synonym 'a jres = "json_error + 'a"

fun is_object :: "json \<Rightarrow> bool" where
  "is_object (JObj _) = True"
| "is_object _ = False"

fun is_array :: "json \<Rightarrow> bool" where
  "is_array (JArr _) = True"
| "is_array _ = False"

fun is_string :: "json \<Rightarrow> bool" where
  "is_string (JStr _) = True"
| "is_string _ = False"

fun is_boolean :: "json \<Rightarrow> bool" where
  "is_boolean (JBool _) = True"
| "is_boolean _ = False"

fun is_null :: "json \<Rightarrow> bool" where
  "is_null JNull = True"
| "is_null _ = False"

fun is_number_unsigned :: "json \<Rightarrow> bool" where
  "is_number_unsigned (JUInt _) = True"
| "is_number_unsigned _ = False"

fun is_number_integer :: "json \<Rightarrow> bool" where
  "is_number_integer (JInt _) = True"
| "is_number_integer (JUInt _) = True"
| "is_number_integer _ = False"

fun is_number :: "json \<Rightarrow> bool" where
  "is_number (JFloat _) = True"
| "is_number j = is_number_integer j"

text \<open>An object built from an initializer list; the first entry for a key is kept.\<close>

definition j_obj :: "(string \<times> json) list \<Rightarrow> json" where
  "j_obj kvs = JObj (fold (\<lambda>(k, v) m. if om_has k m then m else om_put k v m) kvs [])"

text \<open>\<open>find\<close> and \<open>contains\<close> treat a value that is no object as empty.\<close>

fun j_find :: "string \<Rightarrow> json \<Rightarrow> json option" where
  "j_find k (JObj m) = map_of m k"
| "j_find k _ = None"

definition j_contains :: "string \<Rightarrow> json \<Rightarrow> bool" where
  "j_contains k j \<longleftrightarrow> j_find k j \<noteq> None"

fun j_size :: "json \<Rightarrow> nat" where
  "j_size JNull = 0"
| "j_size (JArr xs) = length xs"
| "j_size (JObj m) = length m"
| "j_size _ = 1"

fun j_elems :: "json \<Rightarrow> json list" where
  "j_elems (JArr xs) = xs"
| "j_elems _ = []"

text \<open>Reading a field after \<open>contains\<close> or \<open>find\<close> has shown that it is there.\<close>

definition j_field :: "string \<Rightarrow> json \<Rightarrow> json" where
  "j_field k j = (case j_find k j of Some v \<Rightarrow> v | None \<Rightarrow> JNull)"

definition j_set :: "string \<Rightarrow> json \<Rightarrow> json \<Rightarrow> json" where
  "j_set k v j = (case j of JObj m \<Rightarrow> JObj (om_put k v m) | _ \<Rightarrow> j)"

definition j_at :: "string \<Rightarrow> json \<Rightarrow> json jres" where
  "j_at k j = (if \<not> is_object j then Inl TypeError
     else case j_find k j of None \<Rightarrow> Inl OutOfRange | Some v \<Rightarrow> Inr v)"

section \<open>Conversions\<close>

definition wrap_int :: "nat \<Rightarrow> int \<Rightarrow> int" where
  "wrap_int w i = (let m = i mod 2 ^ w in if m < 2 ^ (w - 1) then m else m - 2 ^ w)"

definition wrap_nat :: "nat \<Rightarrow> int \<Rightarrow> nat" where
  "wrap_nat w i = nat (i mod 2 ^ w)"

definition rat_trunc :: "rat \<Rightarrow> int" where
  "rat_trunc r = (if r < 0 then - \<lfloor>- r\<rfloor> else \<lfloor>r\<rfloor>)"

fun get_bool :: "json \<Rightarrow> bool jres" where
  "get_bool (JBool b) = Inr b"
| "get_bool _ = Inl TypeError"

fun get_string :: "json \<Rightarrow> string jres" where
  "get_string (JStr s) = Inr s"
| "get_string _ = Inl TypeError"

text \<open>
  \<open>get<int>\<close> and \<open>get<uint32_t>\<close> convert any number, and also a boolean, by a C++ cast; a
  floating value outside the target range makes the cast undefined.
\<close>

fun get_int :: "json \<Rightarrow> int jres" where
  "get_int (JInt i) = Inr (wrap_int 32 i)"
| "get_int (JUInt n) = Inr (wrap_int 32 (int n))"
| "get_int (JBool b) = Inr (if b then 1 else 0)"
| "get_int (JFloat (Fin r)) =
     (if - (2 ^ 31) \<le> rat_trunc r \<and> rat_trunc r < 2 ^ 31 then Inr (rat_trunc r)
      else Inl UndefinedCast)"
| "get_int (JFloat _) = Inl UndefinedCast"
| "get_int _ = Inl TypeError"

fun get_uint32 :: "json \<Rightarrow> u32 jres" where
  "get_uint32 (JInt i) = Inr (word_of_int i)"
| "get_uint32 (JUInt n) = Inr (word_of_nat n)"
| "get_uint32 (JBool b) = Inr (if b then 1 else 0)"
| "get_uint32 (JFloat (Fin r)) =
     (if 0 \<le> rat_trunc r \<and> rat_trunc r < 2 ^ 32 then Inr (word_of_int (rat_trunc r))
      else Inl UndefinedCast)"
| "get_uint32 (JFloat _) = Inl UndefinedCast"
| "get_uint32 _ = Inl TypeError"

text \<open>\<open>value(key, default)\<close> throws on a value that is no object and on a field of the wrong type.\<close>

definition j_value :: "(json \<Rightarrow> 'a jres) \<Rightarrow> string \<Rightarrow> 'a \<Rightarrow> json \<Rightarrow> 'a jres" where
  "j_value get k d j = (if \<not> is_object j then Inl TypeError
     else case j_find k j of None \<Rightarrow> Inr d | Some v \<Rightarrow> get v)"

abbreviation value_string :: "string \<Rightarrow> string \<Rightarrow> json \<Rightarrow> string jres" where
  "value_string \<equiv> j_value get_string"

abbreviation value_bool :: "string \<Rightarrow> bool \<Rightarrow> json \<Rightarrow> bool jres" where
  "value_bool \<equiv> j_value get_bool"

abbreviation value_int :: "string \<Rightarrow> int \<Rightarrow> json \<Rightarrow> int jres" where
  "value_int \<equiv> j_value get_int"

abbreviation value_json :: "string \<Rightarrow> json \<Rightarrow> json \<Rightarrow> json jres" where
  "value_json \<equiv> j_value Inr"

section \<open>Equality\<close>

text \<open>
  Two numbers of different kinds are equal when their values are; a floating number equals an
  integer when the conversion of the integer to \<open>double\<close> gives it, which for the numbers the
  program compares (below \<open>2 ^ 53\<close>) is equality of values.
\<close>

fun fl_eq :: "fl \<Rightarrow> fl \<Rightarrow> bool" where
  "fl_eq (Fin a) (Fin b) = (a = b)"
| "fl_eq (FInf a) (FInf b) = (a = b)"
| "fl_eq _ _ = False"

fun fl_lt :: "fl \<Rightarrow> fl \<Rightarrow> bool" where
  "fl_lt (Fin a) (Fin b) = (a < b)"
| "fl_lt (FInf n) (Fin b) = n"
| "fl_lt (Fin a) (FInf n) = (\<not> n)"
| "fl_lt (FInf m) (FInf n) = (m \<and> \<not> n)"
| "fl_lt _ _ = False"

fun fl_isfinite :: "fl \<Rightarrow> bool" where
  "fl_isfinite (Fin _) = True"
| "fl_isfinite _ = False"

fun j_eq :: "json \<Rightarrow> json \<Rightarrow> bool" and j_eq_list :: "json list \<Rightarrow> json list \<Rightarrow> bool"
  and j_eq_fields :: "(string \<times> json) list \<Rightarrow> (string \<times> json) list \<Rightarrow> bool" where
  "j_eq JNull JNull = True"
| "j_eq (JBool a) (JBool b) = (a = b)"
| "j_eq (JInt a) (JInt b) = (a = b)"
| "j_eq (JUInt a) (JUInt b) = (a = b)"
| "j_eq (JInt a) (JUInt b) = (a = wrap_int 64 (int b))"
| "j_eq (JUInt a) (JInt b) = (wrap_int 64 (int a) = b)"
| "j_eq (JFloat a) (JFloat b) = fl_eq a b"
| "j_eq (JFloat a) (JInt b) = fl_eq a (Fin (of_int b))"
| "j_eq (JInt a) (JFloat b) = fl_eq (Fin (of_int a)) b"
| "j_eq (JFloat a) (JUInt b) = fl_eq a (Fin (of_nat b))"
| "j_eq (JUInt a) (JFloat b) = fl_eq (Fin (of_nat a)) b"
| "j_eq (JStr a) (JStr b) = (a = b)"
| "j_eq (JArr a) (JArr b) = j_eq_list a b"
| "j_eq (JObj a) (JObj b) = j_eq_fields a b"
| "j_eq _ _ = False"
| "j_eq_list [] [] = True"
| "j_eq_list (a # as) (b # bs) = (j_eq a b \<and> j_eq_list as bs)"
| "j_eq_list _ _ = False"
| "j_eq_fields [] [] = True"
| "j_eq_fields ((k, a) # as) ((l, b) # bs) = (k = l \<and> j_eq a b \<and> j_eq_fields as bs)"
| "j_eq_fields _ _ = False"

lemma map_of_j_obj_fold:
  "map_of (fold (\<lambda>(k, v) m. if om_has k m then m else om_put k v m) kvs m) x =
     (case map_of m x of Some v \<Rightarrow> Some v | None \<Rightarrow> map_of kvs x)"
proof (induction kvs arbitrary: m)
  case Nil
  then show ?case by (auto split: option.splits)
next
  case (Cons p kvs)
  show ?case by (cases p) (auto simp del: not_None_eq simp: Cons.IH split: option.splits)
qed

lemma j_find_j_obj: "j_find k (j_obj kvs) = map_of kvs k"
  using map_of_j_obj_fold [of kvs "[]" k] by (simp add: j_obj_def del: not_None_eq)

lemma is_object_j_obj [simp]: "is_object (j_obj kvs)"
  by (simp add: j_obj_def)

lemma j_contains_obj [simp]: "j_contains k (JObj m) \<longleftrightarrow> om_has k m"
  by (simp add: j_contains_def)

lemma j_field_obj [simp]: "map_of m k = Some v \<Longrightarrow> j_field k (JObj m) = v"
  by (simp add: j_field_def)

lemma j_find_contains: "j_find k j = Some v \<Longrightarrow> j_contains k j"
  by (simp add: j_contains_def)

lemma is_array_elems: "is_array j \<longleftrightarrow> (\<exists>xs. j = JArr xs)"
  by (cases j) auto

lemma is_string_iff: "is_string j \<longleftrightarrow> (\<exists>s. j = JStr s)"
  by (cases j) auto

lemma is_object_iff: "is_object j \<longleftrightarrow> (\<exists>m. j = JObj m)"
  by (cases j) auto

lemma is_boolean_iff: "is_boolean j \<longleftrightarrow> (\<exists>b. j = JBool b)"
  by (cases j) auto

lemma wrap_int_id [simp]: "0 < w \<Longrightarrow> - (2 ^ (w - 1)) \<le> i \<Longrightarrow> i < 2 ^ (w - 1) \<Longrightarrow> wrap_int w i = i"
proof -
  assume w: "0 < w" and lo: "- (2 ^ (w - 1)) \<le> i" and hi: "i < 2 ^ (w - 1)"
  have p: "(2::int) ^ w = 2 * 2 ^ (w - 1)" using w by (cases w) auto
  show ?thesis
  proof (cases "0 \<le> i")
    case True
    then have "i mod 2 ^ w = i" using hi p by (intro mod_pos_pos_trivial) auto
    then show ?thesis using hi by (simp add: wrap_int_def)
  next
    case False
    have "i mod 2 ^ w = (i + 2 ^ w) mod 2 ^ w" by simp
    also have "\<dots> = i + 2 ^ w" using False lo p by (intro mod_pos_pos_trivial) auto
    finally show ?thesis using False lo p by (simp add: wrap_int_def)
  qed
qed

end
