(* ===== verification/Floor_Switch_Wire.thy ===== *)
theory Floor_Switch_Wire
  imports Floor_Switch Json_Value
begin

text \<open>
  The wire form of floor-switch snapshots,
  \<open>include/dusklight_online/game/floor_switch_wire.hpp\<close>: the encoder, the range-checked decoder,
  and their round trip.
\<close>

section \<open>Range-checked integers\<close>

definition fs_integer :: "json \<Rightarrow> int \<Rightarrow> int \<Rightarrow> int option" where
  "fs_integer v low high =
     (if \<not> is_number_integer v then None
      else case v of
        JUInt n \<Rightarrow>
          if int n > high mod 2 ^ 64 then None
          else let i = wrap_int 64 (int n) in if i \<ge> low then Some i else None
      | JInt n \<Rightarrow> if n \<ge> low \<and> n \<le> high then Some n else None
      | _ \<Rightarrow> None)"

section \<open>Encoding\<close>

definition fs_encode_contact :: "fs_key \<times> pressure \<Rightarrow> json" where
  "fs_encode_contact kp = (case kp of (key, p) \<Rightarrow> case fs_home key of (x, y, z) \<Rightarrow>
     j_obj [(''actor'', JInt (fs_actor key)), (''params'', JUInt (unat (fs_params key))),
            (''home'', JArr [JInt x, JInt y, JInt z]),
            (''placement_z'', JUInt (unat (fs_placementZ key))),
            (''ride'', JUInt (unat (ride p))), (''heavy'', JBool (heavy p))])"

definition fs_encode :: "fs_packet \<Rightarrow> json" where
  "fs_encode packet =
     j_obj [(''type'', JStr ''floor_switch_state''), (''version'', JInt 1),
            (''sequence'', JUInt (unat (pk_sequence packet))),
            (''stage'', JInt (fs_table (pk_scene packet))),
            (''source_stage'', JStr (fs_stage (pk_scene packet))),
            (''room'', JInt (fs_room (pk_scene packet))),
            (''layer'', JInt (fs_layer (pk_scene packet))),
            (''contacts'', JArr (map fs_encode_contact (pk_contacts packet)))]"

section \<open>Decoding\<close>

definition fs_decode_home :: "json \<Rightarrow> (int \<times> int \<times> int) option" where
  "fs_decode_home home =
     (case j_elems home of
        [a, b, c] \<Rightarrow>
          (case (fs_integer a (-4000000) 4000000, fs_integer b (-4000000) 4000000,
                 fs_integer c (-4000000) 4000000) of
             (Some x, Some y, Some z) \<Rightarrow> Some (x, y, z)
           | _ \<Rightarrow> None)
      | _ \<Rightarrow> None)"

definition fs_decode_entry :: "json \<Rightarrow> (fs_key \<times> pressure) option" where
  "fs_decode_entry entry =
     (if \<not> is_object entry \<or> j_size entry \<noteq> 6 then None
      else if \<exists>field \<in> set [''actor'', ''params'', ''home'', ''placement_z'', ''ride'', ''heavy''].
                \<not> j_contains field entry then None
      else
        case (fs_integer (j_field ''actor'' entry) 0 0x7FFF,
              fs_integer (j_field ''params'' entry) 0 0xFFFFFFFF,
              fs_integer (j_field ''placement_z'' entry) 0 0xFFFF,
              fs_integer (j_field ''ride'' entry) 1 2, j_field ''heavy'' entry) of
          (Some actor, Some params, Some placement, Some rd, JBool hv) \<Rightarrow>
            if \<not> is_array (j_field ''home'' entry) \<or> j_size (j_field ''home'' entry) \<noteq> 3 then None
            else (case fs_decode_home (j_field ''home'' entry) of
                None \<Rightarrow> None
              | Some h \<Rightarrow> Some (Key actor (word_of_int params) h (word_of_int placement),
                              \<lparr>ride = word_of_int rd, heavy = hv\<rparr>))
        | _ \<Rightarrow> None)"

fun fs_decode_contacts :: "json list \<Rightarrow> contacts \<Rightarrow> contacts option" where
  "fs_decode_contacts [] acc = Some acc"
| "fs_decode_contacts (entry # rest) acc =
     (case fs_decode_entry entry of
        None \<Rightarrow> None
      | Some (key, p) \<Rightarrow>
          if om_has key acc then None else fs_decode_contacts rest (om_put key p acc))"

definition fs_decode :: "json \<Rightarrow> fs_packet option" where
  "fs_decode message =
     (if \<not> is_object message then None
      else if \<exists>field \<in> set [''type'', ''version'', ''sequence'', ''stage'', ''source_stage'',
                ''room'', ''layer'', ''contacts'']. \<not> j_contains field message then None
      else if \<not> j_eq (j_field ''type'' message) (JStr ''floor_switch_state'') \<or>
         fs_integer (j_field ''version'' message) 1 1 \<noteq> Some 1 \<or>
         \<not> is_string (j_field ''source_stage'' message) \<or>
         \<not> is_array (j_field ''contacts'' message) \<or>
         j_size (j_field ''contacts'' message) > MaxSwitches then None
      else
        case j_field ''source_stage'' message of
          JStr name \<Rightarrow>
            if name = [] \<or> length name > 8 then None
            else (case (fs_integer (j_field ''sequence'' message) 1 (2 ^ 63 - 1),
                        fs_integer (j_field ''stage'' message) 0 31,
                        fs_integer (j_field ''room'' message) 0 63,
                        fs_integer (j_field ''layer'' message) (-1) 15) of
                (Some sequence, Some stage, Some room, Some layer) \<Rightarrow>
                  (case fs_decode_contacts (j_elems (j_field ''contacts'' message)) [] of
                     None \<Rightarrow> None
                   | Some contacts \<Rightarrow>
                       let result = \<lparr>pk_sequence = word_of_int sequence,
                             pk_scene = Scene stage name room layer, pk_contacts = contacts\<rparr>
                       in if valid_packet result then Some result else None)
              | _ \<Rightarrow> None)
        | _ \<Rightarrow> None)"

text \<open>What an encoded snapshot must satisfy: it is valid, its contacts are a map, and its sequence
  number fits the signed range the decoder reads.\<close>

definition wire_packet :: "fs_packet \<Rightarrow> bool" where
  "wire_packet p \<longleftrightarrow> valid_packet p \<and> om_ok (pk_contacts p) \<and> uint (pk_sequence p) < 2 ^ 63"

section \<open>Round trip\<close>

lemma fs_integer_uint [simp]:
  "int n \<le> high \<Longrightarrow> high < 2 ^ 63 \<Longrightarrow> fs_integer (JUInt n) low high = (if low \<le> int n then Some (int n) else None)"
  by (simp add: fs_integer_def Let_def)

lemma fs_integer_int [simp]:
  "fs_integer (JInt n) low high = (if low \<le> n \<and> n \<le> high then Some n else None)"
  by (simp add: fs_integer_def)

lemma fs_integer_bounds: "fs_integer v low high = Some i \<Longrightarrow> 0 \<le> high \<Longrightarrow> high < 2 ^ 63 \<Longrightarrow> low \<le> i \<and> i \<le> high"
  by (cases v) (auto simp: fs_integer_def Let_def split: if_splits)

lemma valid_actor_range:
  "supported actor params \<Longrightarrow> 0 \<le> actor \<and> actor \<le> 0x7FFF"
  by (auto simp: supported_def Push_def Iron_def Heavy_def split: if_splits)

lemma fs_decode_encode_entry:
  assumes "valid_contact (key, p)"
  shows "fs_decode_entry (fs_encode_contact (key, p)) = Some (key, p)"
proof -
  obtain actor params x y z pz where key: "key = Key actor params (x, y, z) pz"
    by (metis fs_key.exhaust prod_cases3)
  have k: "valid_key key" and r: "ride p \<noteq> 0" "ride p \<le> 2"
    using assms by (auto simp: valid_contact_def not_less)
  have a: "0 \<le> actor" "actor \<le> 0x7FFF"
    using k valid_actor_range [of actor params] by (auto simp: valid_key_def key)
  have c: "-4000000 \<le> x" "x \<le> 4000000" "-4000000 \<le> y" "y \<le> 4000000" "-4000000 \<le> z" "z \<le> 4000000"
    using k by (auto simp: valid_key_def key valid_coordinate_def)
  have rn: "1 \<le> uint (ride p)" "uint (ride p) \<le> 2"
    using r by (auto simp: word_le_def uint_pos)
  have pr: "p = \<lparr>ride = ride p, heavy = heavy p\<rparr>" by simp
  show ?thesis
    using a c rn uint_u32_le [of params] uint_u16_le [of pz]
    by (simp add: fs_encode_contact_def key j_obj_def fs_decode_entry_def fs_decode_home_def
        j_field_def)
qed

lemma fs_decode_encode_contacts:
  assumes "om_ok (acc @ cs)" and "\<forall>kp \<in> set cs. valid_contact kp"
  shows "fs_decode_contacts (map fs_encode_contact cs) acc = Some (acc @ cs)"
  using assms
proof (induction cs arbitrary: acc)
  case Nil
  then show ?case by simp
next
  case (Cons kp cs)
  obtain key p where kp: "kp = (key, p)" by (cases kp) auto
  have fresh: "\<not> om_has key acc" and last: "om_put key p acc = acc @ [(key, p)]"
    using Cons.prems(1) kp
    by (induction acc) (auto simp: om_ok_def map_of_eq_None_iff sorted_wrt_append)
  have "fs_decode_contacts (map fs_encode_contact cs) (acc @ [(key, p)]) = Some ((acc @ [(key, p)]) @ cs)"
    using Cons kp by (intro Cons.IH) auto
  then show ?case
    using Cons.prems(2) kp fresh last by (simp add: fs_decode_encode_entry)
qed

lemma wire_sequence: "uint (w :: u64) < 2 ^ 63 \<Longrightarrow> w \<noteq> 0 \<Longrightarrow> 1 \<le> uint w \<and> uint w \<le> 2 ^ 63 - 1"
  by (simp add: uint_pos)

lemma fs_decode_encode:
  assumes "wire_packet p"
  shows "fs_decode (fs_encode p) = Some p"
proof -
  obtain sq table stage room layer cs where
    p: "p = \<lparr>pk_sequence = sq, pk_scene = Scene table stage room layer, pk_contacts = cs\<rparr>"
    by (metis (full_types) fs_packet.surjective fs_scene.exhaust old.unit.exhaust)
  have v: "valid_packet p" and ok: "om_ok cs" and small: "uint sq < 2 ^ 63"
    using assms by (auto simp: wire_packet_def p)
  have sc: "0 \<le> table" "table \<le> 31" "0 \<le> room" "room \<le> 63" "-1 \<le> layer" "layer \<le> 15"
      "stage \<noteq> []" "length stage \<le> 8" "length cs \<le> MaxSwitches" "sq \<noteq> 0"
    using v by (auto simp: valid_packet_def valid_scene_def p)
  have "fs_decode_contacts (map fs_encode_contact cs) [] = Some cs"
    using fs_decode_encode_contacts [of "[]" cs] ok v by (simp add: valid_packet_def p)
  then show ?thesis
    using sc v wire_sequence [OF small] small
    by (simp add: fs_encode_def fs_decode_def j_obj_def j_field_def p not_less)
qed

lemma om_ok_decode_contacts: "fs_decode_contacts js acc = Some cs \<Longrightarrow> om_ok acc \<Longrightarrow> om_ok cs"
  by (induction js acc rule: fs_decode_contacts.induct) (auto split: option.splits prod.splits if_splits)

lemma fs_decode_wire:
  assumes "fs_decode j = Some p"
  shows "wire_packet p"
proof -
  obtain sq cs acc where
    v: "valid_packet p" and
    sq: "fs_integer (j_field ''sequence'' j) 1 (2 ^ 63 - 1) = Some sq" "pk_sequence p = word_of_int sq" and
    cs: "fs_decode_contacts acc [] = Some cs" "pk_contacts p = cs"
    using assms
    by (auto simp: fs_decode_def Let_def split: if_splits json.splits option.splits)
  have "1 \<le> sq" "sq \<le> 2 ^ 63 - 1" using fs_integer_bounds [OF sq(1)] by auto
  then have "uint (word_of_int sq :: u64) = sq"
    by (simp add: uint_word_of_int)
  then show ?thesis
    using v cs sq \<open>sq \<le> 2 ^ 63 - 1\<close> \<open>1 \<le> sq\<close> om_ok_decode_contacts [OF cs(1)]
    by (simp add: wire_packet_def)
qed

interpretation fs_wire: checked_codec fs_encode fs_decode wire_packet
  by unfold_locales (rule fs_decode_encode fs_decode_wire; assumption)+

text \<open>C32: a snapshot that arrives decodes to a valid packet or to nothing: whatever JSON value
  comes in, the decoder either rejects it as a whole or returns a packet that passes every
  check, whose contacts form a map, and that encodes and decodes to itself.\<close>

theorem fs_decode_total_check:
  "case fs_decode message of None \<Rightarrow> True
   | Some p \<Rightarrow> wire_packet p \<and> fs_decode (fs_encode p) = Some p"
  by (auto split: option.split dest: fs_wire.dec_wf fs_wire.dec_stable)

text \<open>every valid snapshot (with a sequence number below \<open>2 ^ 63\<close>) survives the wire.\<close>

theorem fs_wire_roundtrip:
  assumes "wire_packet p"
  shows "fs_decode (fs_encode p) = Some p"
  using assms by (rule fs_wire.dec_enc)

lemma fs_wire_roundtrip_witness:
  "fs_decode (fs_encode \<lparr>pk_sequence = 7, pk_scene = Scene 16 ''D_MN05'' 3 (-1),
      pk_contacts = [(Key Push 0x01000000 (4, 0, -8) 2, \<lparr>ride = 1, heavy = False\<rparr>)]\<rparr>)
   = Some \<lparr>pk_sequence = 7, pk_scene = Scene 16 ''D_MN05'' 3 (-1),
      pk_contacts = [(Key Push 0x01000000 (4, 0, -8) 2, \<lparr>ride = 1, heavy = False\<rparr>)]\<rparr>"
  by (rule fs_wire_roundtrip)
     (simp add: wire_packet_def valid_packet_def valid_scene_def valid_contact_def valid_key_def
       supported_def valid_coordinate_def valid_scene_char_def om_ok_def MaxSwitches_def Push_def
       Iron_def Heavy_def)

end
