(* ===== verification/Ooccoo.thy ===== *)
theory Ooccoo
  imports Interfaces Json_Value
begin

text \<open>
  The shared progress of the warp companion,
  \<open>include/dusklight_online/game/ooccoo_sync.hpp\<close>: dungeon receipts, return anchors, the merge
  of replicated progress, and the state machine that projects it into the inventory slot.
\<close>

section \<open>Items, dungeons and scenes\<close>

definition Parent :: int where "Parent = 0x25"
definition Junior :: int where "Junior = 0x27"
definition Note :: int where "Note = 0x2D"
definition ParentAgain :: int where "ParentAgain = 0x33"
definition CityParent :: int where "CityParent = 0xEC"
definition NoItem :: int where "NoItem = 0xFF"
definition FirstDungeon :: int where "FirstDungeon = 16"
definition CityDungeon :: int where "CityDungeon = 22"
definition DungeonMask :: u8 where "DungeonMask = 0x7F"
definition CityReceipt :: u16 where "CityReceipt = 0x80"
definition NoteReceipt :: u16 where "NoteReceipt = 0x100"

definition DungeonNames :: "string list" where
  "DungeonNames = [''D_MN05'', ''D_MN04'', ''D_MN01'', ''D_MN10'', ''D_MN11'', ''D_MN06'', ''D_MN07'']"

lemmas oo_item_defs = Parent_def Junior_def Note_def ParentAgain_def CityParent_def NoItem_def
lemmas oo_stage_defs = FirstDungeon_def CityDungeon_def DungeonMask_def

definition is_dungeon :: "int \<Rightarrow> bool" where
  "is_dungeon stage \<longleftrightarrow> stage \<ge> FirstDungeon \<and> stage \<le> CityDungeon"

definition dungeon_bit :: "int \<Rightarrow> u8" where
  "dungeon_bit stage = (if is_dungeon stage then push_bit (nat (stage - FirstDungeon)) 1 else 0)"

definition is_form :: "int \<Rightarrow> bool" where
  "is_form item \<longleftrightarrow> item = Parent \<or> item = Junior \<or> item = Note \<or> item = CityParent"

definition is_grant :: "int \<Rightarrow> bool" where
  "is_grant item \<longleftrightarrow> is_form item \<or> item = ParentAgain"

record oo_scene =
  sc_name :: string
  sc_saveTable :: int
  sc_type :: int
  sc_room :: int

definition scene_dungeon :: "oo_scene \<Rightarrow> bool \<Rightarrow> int" where
  "scene_dungeon scene allowBoss =
     (if \<not> is_dungeon (sc_saveTable scene) \<or> sc_room scene < 0 \<or> sc_room scene > 63 then -1
      else
        let name = DungeonNames ! nat (sc_saveTable scene - FirstDungeon);
            arena = length (sc_name scene) = length name + 1 \<and> take (length name) (sc_name scene) = name;
            boss = arena \<and> last (sc_name scene) = CHR ''A'';
            miniboss = arena \<and> last (sc_name scene) = CHR ''B''
        in if sc_type scene = 1 \<and> (sc_name scene = name \<or> miniboss) then sc_saveTable scene
           else if allowBoss \<and> sc_type scene = 3 \<and> (boss \<or> miniboss) then sc_saveTable scene
           else -1)"

definition city_shop :: "oo_scene \<Rightarrow> bool" where
  "city_shop scene \<longleftrightarrow> scene_dungeon scene False = CityDungeon \<and> sc_room scene = 16"

record return_mark =
  rm_owner :: int
  rm_stageName :: string
  rm_room :: int
  rm_x :: fl
  rm_y :: fl
  rm_z :: fl

definition return_owner :: "return_mark \<Rightarrow> int" where
  "return_owner mark =
     (if \<not> is_dungeon (rm_owner mark) \<or> rm_room mark < 0 \<or> rm_room mark > 63 \<or>
         \<not> fl_isfinite (rm_x mark) \<or> \<not> fl_isfinite (rm_y mark) \<or> \<not> fl_isfinite (rm_z mark) then -1
      else
        let name = DungeonNames ! nat (rm_owner mark - FirstDungeon);
            miniboss = length (rm_stageName mark) = length name + 1 \<and>
              take (length name) (rm_stageName mark) = name \<and> last (rm_stageName mark) = CHR ''B''
        in if rm_stageName mark = name \<or> miniboss then rm_owner mark else -1)"

section \<open>Return anchors\<close>

record anchor =
  an_valid :: bool
  an_variant :: u8
  an_room :: u8
  an_x :: fl
  an_y :: fl
  an_z :: fl
  an_angle :: int

definition no_anchor :: anchor where
  "no_anchor = \<lparr>an_valid = False, an_variant = 0, an_room = 0,
     an_x = Fin 0, an_y = Fin 0, an_z = Fin 0, an_angle = 0\<rparr>"

definition anchor_eq :: "anchor \<Rightarrow> anchor \<Rightarrow> bool" where
  "anchor_eq a b \<longleftrightarrow> an_valid a = an_valid b \<and> an_variant a = an_variant b \<and> an_room a = an_room b \<and>
     fl_eq (an_x a) (an_x b) \<and> fl_eq (an_y a) (an_y b) \<and> fl_eq (an_z a) (an_z b) \<and>
     an_angle a = an_angle b"

fun coordinate_ok :: "fl \<Rightarrow> bool" where
  "coordinate_ok (Fin r) = (\<bar>r\<bar> \<le> 10000000)"
| "coordinate_ok _ = False"

definition valid_anchor :: "int \<Rightarrow> anchor \<Rightarrow> bool" where
  "valid_anchor owner a \<longleftrightarrow>
     is_dungeon owner \<and> an_valid a \<and> an_variant a \<le> 1 \<and> an_room a \<le> 63 \<and>
     fl_isfinite (an_x a) \<and> fl_isfinite (an_y a) \<and> fl_isfinite (an_z a) \<and>
     coordinate_ok (an_x a) \<and> coordinate_ok (an_y a) \<and> coordinate_ok (an_z a)"

definition choose_anchor :: "int \<Rightarrow> anchor \<Rightarrow> anchor \<Rightarrow> anchor" where
  "choose_anchor owner a b =
     (if \<not> valid_anchor owner a then (if valid_anchor owner b then b else no_anchor)
      else if \<not> valid_anchor owner b then a
      else if an_variant a \<noteq> an_variant b then (if an_variant a < an_variant b then a else b)
      else if an_room a \<noteq> an_room b then (if an_room a < an_room b then a else b)
      else if \<not> fl_eq (an_x a) (an_x b) then (if fl_lt (an_x a) (an_x b) then a else b)
      else if \<not> fl_eq (an_y a) (an_y b) then (if fl_lt (an_y a) (an_y b) then a else b)
      else if \<not> fl_eq (an_z a) (an_z b) then (if fl_lt (an_z a) (an_z b) then a else b)
      else if an_angle a \<le> an_angle b then a else b)"

section \<open>Progress\<close>

record progress =
  acquired :: u8
  completed :: u8
  citySpecial :: bool
  unboundNote :: bool
  anchors :: "anchor list"

definition no_progress :: progress where
  "no_progress = \<lparr>acquired = 0, completed = 0, citySpecial = False, unboundNote = False,
     anchors = replicate 7 no_anchor\<rparr>"

definition progress_eq :: "progress \<Rightarrow> progress \<Rightarrow> bool" where
  "progress_eq a b \<longleftrightarrow> acquired a = acquired b \<and> completed a = completed b \<and>
     citySpecial a = citySpecial b \<and> unboundNote a = unboundNote b \<and>
     list_all2 anchor_eq (anchors a) (anchors b)"

definition join :: "progress \<Rightarrow> progress \<Rightarrow> progress" where
  "join a b =
     (let acq = acquired a OR acquired b in
      \<lparr>acquired = acq, completed = completed a OR completed b,
       citySpecial = (citySpecial a \<or> citySpecial b), unboundNote = (unboundNote a \<or> unboundNote b),
       anchors = map (\<lambda>index. let stage = FirstDungeon + int index in
           if acq AND dungeon_bit stage \<noteq> 0
           then choose_anchor stage (anchors a ! index) (anchors b ! index) else no_anchor) [0..<7]\<rparr>)"

definition entitlements :: "progress \<Rightarrow> u16" where
  "entitlements p =
     (let active = acquired p AND NOT (completed p) AND DungeonMask in
      ucast active OR
      (if citySpecial p \<and> completed p AND dungeon_bit CityDungeon = 0 \<and>
          active AND dungeon_bit CityDungeon = 0 then CityReceipt else 0) OR
      (if unboundNote p then NoteReceipt else 0))"

definition receipt_for_grant :: "int \<Rightarrow> oo_scene \<Rightarrow> progress" where
  "receipt_for_grant item scene =
     (if \<not> is_grant item then no_progress
      else let owner = scene_dungeon scene True in
        if (item = Parent \<or> item = ParentAgain) \<and> is_dungeon owner
        then no_progress\<lparr>acquired := dungeon_bit owner\<rparr>
        else if item = CityParent then no_progress\<lparr>citySpecial := True\<rparr>
        else no_progress\<lparr>unboundNote := True\<rparr>)"

section \<open>The projection state machine\<close>

record projection =
  pj_item :: int
  pj_resetReturn :: bool
  pj_applied :: bool
  pj_installReturnStage :: int

record oo_state =
  st_progress :: progress
  st_pending :: u16
  st_managedForm :: bool

definition oo_reset :: oo_state where
  "oo_reset = \<lparr>st_progress = no_progress, st_pending = 0, st_managedForm = False\<rparr>"

definition observe_native_completion :: "u8 \<Rightarrow> oo_state \<Rightarrow> oo_state" where
  "observe_native_completion flags s =
     (let p = (st_progress s)\<lparr>completed := flags AND DungeonMask\<rparr> in
      s\<lparr>st_progress := p, st_pending := st_pending s AND entitlements p\<rparr>)"

definition seed :: "progress \<Rightarrow> oo_state \<Rightarrow> oo_state" where
  "seed facts s =
     (let p = (join (st_progress s) facts)\<lparr>completed := completed (st_progress s)\<rparr> in
      s\<lparr>st_progress := p, st_pending := st_pending s AND entitlements p\<rparr>)"

definition record_local :: "progress \<Rightarrow> oo_state \<Rightarrow> oo_state" where
  "record_local facts s =
     (let s' = seed facts s in
      s'\<lparr>st_pending := st_pending s' AND NOT (entitlements facts),
         st_managedForm := (if entitlements facts \<noteq> 0 then False else st_managedForm s')\<rparr>)"

definition merge_remote :: "progress \<Rightarrow> oo_state \<Rightarrow> bool \<times> oo_state" where
  "merge_remote facts s =
     (let before = st_progress s;
          oldEntitlements = entitlements before;
          p = (join before facts)\<lparr>completed := completed before\<rparr>;
          available = entitlements p
      in (\<not> progress_eq before p,
          s\<lparr>st_progress := p,
            st_pending := (st_pending s OR (available AND NOT oldEntitlements)) AND available\<rparr>))"

definition restore :: "progress \<Rightarrow> u16 \<Rightarrow> bool \<Rightarrow> oo_state \<Rightarrow> oo_state" where
  "restore facts pending managedForm s =
     (let p = facts\<lparr>completed := 0\<rparr> in
      \<lparr>st_progress = p, st_pending = pending AND entitlements p, st_managedForm = managedForm\<rparr>)"

definition active_dungeons :: "progress \<Rightarrow> u8" where
  "active_dungeons p = acquired p AND NOT (completed p) AND DungeonMask"

fun find_anchored :: "progress \<Rightarrow> nat list \<Rightarrow> int" where
  "find_anchored p [] = -1"
| "find_anchored p (i # is) =
     (let stage = FirstDungeon + int i in
      if active_dungeons p AND dungeon_bit stage \<noteq> 0 \<and> valid_anchor stage (anchors p ! i)
      then stage else find_anchored p is)"

definition anchored_stage :: "progress \<Rightarrow> int" where
  "anchored_stage p = find_anchored p [0..<7]"

definition oo_decide :: "oo_scene \<Rightarrow> int \<Rightarrow> int \<Rightarrow> oo_state \<Rightarrow> int \<times> int" where
  "oo_decide scene current localReturnOwner s =
     (let p = st_progress s; pending = st_pending s;
          here = scene_dungeon scene True;
          hereBit = dungeon_bit here;
          completeHere = completed p AND hereBit \<noteq> 0;
          regularHere = acquired p AND hereBit \<noteq> 0 \<and> \<not> completeHere;
          specialHere = here = CityDungeon \<and> citySpecial p \<and> \<not> completeHere;
          activeSpecial = citySpecial p \<and> completed p AND dungeon_bit CityDungeon = 0;
          validReturn = is_dungeon localReturnOwner \<and> completed p AND dungeon_bit localReturnOwner = 0;
          active = active_dungeons p;
          anchoredStage = anchored_stage p;
          remoteProjection = st_managedForm s \<or> pending \<noteq> 0
      in if current = Junior \<and> validReturn \<and> (\<not> regularHere \<or> city_shop scene) then (Junior, -1)
         else if regularHere then (Parent, -1)
         else if specialHere then (CityParent, -1)
         else if current = CityParent \<and> citySpecial p \<and> completed p AND dungeon_bit CityDungeon = 0
         then (CityParent, -1)
         else if remoteProjection \<and> anchoredStage \<ge> 0
         then (Junior, if \<not> validReturn then anchoredStage else -1)
         else if (current = Parent \<or> current = CityParent) \<and> completeHere \<or>
                 current = Junior \<and> is_dungeon localReturnOwner \<and> \<not> validReturn
         then (if pending \<noteq> 0 then Note else NoItem, -1)
         else if active = 0 \<and> \<not> activeSpecial \<and> \<not> unboundNote p \<and> st_managedForm s
         then (NoItem, -1)
         else (Note, -1))"

definition reconcile :: "oo_scene \<Rightarrow> int \<Rightarrow> int \<Rightarrow> bool \<Rightarrow> oo_state \<Rightarrow> projection \<times> oo_state" where
  "reconcile scene current localReturnOwner safe s =
     (if \<not> safe \<or> (current \<noteq> NoItem \<and> \<not> is_form current)
      then (\<lparr>pj_item = current, pj_resetReturn = False, pj_applied = False,
             pj_installReturnStage = -1\<rparr>, s)
      else if current = NoItem \<and> st_pending s = 0
      then (\<lparr>pj_item = NoItem, pj_resetReturn = False, pj_applied = True,
             pj_installReturnStage = -1\<rparr>, s\<lparr>st_managedForm := False\<rparr>)
      else case oo_decide scene current localReturnOwner s of
        (desired, installReturnStage) \<Rightarrow>
          let managed = (if st_pending s \<noteq> 0 \<and> desired \<noteq> NoItem then True else st_managedForm s);
              managed' = (if desired = NoItem then False else managed)
          in (\<lparr>pj_item = desired, pj_resetReturn = (current = Junior \<and> desired \<noteq> Junior),
               pj_applied = True, pj_installReturnStage = installReturnStage\<rparr>,
              s\<lparr>st_managedForm := managed', st_pending := 0\<rparr>))"

section \<open>Anchors converge\<close>

fun fl_val :: "fl \<Rightarrow> rat" where
  "fl_val (Fin r) = r"
| "fl_val _ = 0"

definition anchor_key :: "anchor \<Rightarrow> u8 \<times> u8 \<times> rat \<times> rat \<times> rat \<times> int" where
  "anchor_key a = (an_variant a, an_room a, fl_val (an_x a), fl_val (an_y a), fl_val (an_z a), an_angle a)"

definition anchor_ok :: "int \<Rightarrow> anchor \<Rightarrow> bool" where
  "anchor_ok stage a \<longleftrightarrow> a = no_anchor \<or> valid_anchor stage a"

lemma no_anchor_invalid [simp]: "\<not> valid_anchor stage no_anchor"
  by (simp add: valid_anchor_def no_anchor_def)

lemma no_anchor_ok [simp]: "anchor_ok stage no_anchor"
  by (simp add: anchor_ok_def)

lemma valid_anchor_fin:
  "valid_anchor stage a \<Longrightarrow> an_valid a \<and> an_x a = Fin (fl_val (an_x a)) \<and>
     an_y a = Fin (fl_val (an_y a)) \<and> an_z a = Fin (fl_val (an_z a))"
  by (cases "an_x a"; cases "an_y a"; cases "an_z a") (auto simp: valid_anchor_def)

lemma anchor_key_inj:
  assumes "valid_anchor stage a" and "valid_anchor stage b" and "anchor_key a = anchor_key b"
  shows "a = b"
  using valid_anchor_fin [OF assms(1)] valid_anchor_fin [OF assms(2)] assms(3)
  by (cases a; cases b) (auto simp: anchor_key_def)

lemma choose_anchor_key:
  assumes "valid_anchor stage a" and "valid_anchor stage b"
  shows "choose_anchor stage a b = (if anchor_key a \<le> anchor_key b then a else b)"
proof -
  obtain xa ya za xb yb zb where
    f: "an_x a = Fin xa" "an_y a = Fin ya" "an_z a = Fin za"
       "an_x b = Fin xb" "an_y b = Fin yb" "an_z b = Fin zb"
    using valid_anchor_fin [OF assms(1)] valid_anchor_fin [OF assms(2)] by metis
  show ?thesis
    using assms
    by (auto simp: choose_anchor_def anchor_key_def f less_eq_prod_def)
qed

lemma choose_no_anchor [simp]:
  "anchor_ok stage a \<Longrightarrow> choose_anchor stage no_anchor a = a"
  "anchor_ok stage a \<Longrightarrow> choose_anchor stage a no_anchor = a"
  by (auto simp: choose_anchor_def anchor_ok_def)

lemma anchor_ok_choose [simp]: "anchor_ok stage (choose_anchor stage a b)"
  by (auto simp: choose_anchor_def anchor_ok_def)

interpretation anchor_merge: convergent_merge "choose_anchor stage" "anchor_ok stage" for stage
proof unfold_locales
  fix a b
  show "anchor_ok stage (choose_anchor stage a b)" by simp
next
  fix a
  assume "anchor_ok stage a"
  then show "choose_anchor stage a a = a"
    by (cases "a = no_anchor") (auto simp: anchor_ok_def choose_anchor_key)
next
  fix a b
  assume ab: "anchor_ok stage a" "anchor_ok stage b"
  then show "choose_anchor stage a b = choose_anchor stage b a"
  proof (cases "a = no_anchor \<or> b = no_anchor")
    case False
    with ab have v: "valid_anchor stage a" "valid_anchor stage b" by (auto simp: anchor_ok_def)
    show ?thesis
      using anchor_key_inj [OF v] by (auto simp: choose_anchor_key v)
  qed auto
next
  fix a b c
  assume abc: "anchor_ok stage a" "anchor_ok stage b" "anchor_ok stage c"
  show "choose_anchor stage (choose_anchor stage a b) c = choose_anchor stage a (choose_anchor stage b c)"
  proof (cases "a = no_anchor \<or> b = no_anchor \<or> c = no_anchor")
    case True
    with abc show ?thesis by auto
  next
    case False
    with abc have v: "valid_anchor stage a" "valid_anchor stage b" "valid_anchor stage c"
      by (auto simp: anchor_ok_def)
    then show ?thesis by (auto simp: choose_anchor_key)
  qed
qed

section \<open>Progress converges\<close>

text \<open>
  The progress values the program builds: seven anchors, and an anchor only where the dungeon's
  receipt is held.
\<close>

definition progress_ok :: "progress \<Rightarrow> bool" where
  "progress_ok p \<longleftrightarrow> length (anchors p) = 7 \<and>
     (\<forall>i < 7. anchor_ok (FirstDungeon + int i) (anchors p ! i) \<and>
        (acquired p AND dungeon_bit (FirstDungeon + int i) = 0 \<longrightarrow> anchors p ! i = no_anchor))"

lemma word_and_or_eq_0: "((a :: 'a :: len word) OR b) AND m = 0 \<longleftrightarrow> a AND m = 0 \<and> b AND m = 0"
  by (simp add: bit.conj_disj_distrib2 or_eq_0_iff)

lemma join_simps [simp]:
  "acquired (join a b) = acquired a OR acquired b"
  "completed (join a b) = completed a OR completed b"
  "citySpecial (join a b) = (citySpecial a \<or> citySpecial b)"
  "unboundNote (join a b) = (unboundNote a \<or> unboundNote b)"
  "length (anchors (join a b)) = 7"
  by (simp_all add: join_def Let_def)

lemma join_anchor:
  assumes "progress_ok a" and "progress_ok b" and "i < 7"
  shows "anchors (join a b) ! i =
    choose_anchor (FirstDungeon + int i) (anchors a ! i) (anchors b ! i)"
  using assms by (auto simp: join_def Let_def progress_ok_def word_and_or_eq_0)

lemma progress_ok_join: "progress_ok a \<Longrightarrow> progress_ok b \<Longrightarrow> progress_ok (join a b)"
  by (auto simp: progress_ok_def join_def Let_def word_and_or_eq_0)

lemma progress_eqI:
  assumes "acquired a = acquired b" "completed a = completed b" "citySpecial a = citySpecial b"
    "unboundNote a = unboundNote b" "progress_ok a" "progress_ok b"
    "\<And>i. i < 7 \<Longrightarrow> anchors a ! i = anchors b ! i"
  shows "a = b"
proof -
  have "anchors a = anchors b"
    using assms(5-7) by (intro nth_equalityI) (auto simp: progress_ok_def)
  with assms show ?thesis by (cases a; cases b) auto
qed

lemma progress_anchor_ok: "progress_ok a \<Longrightarrow> i < 7 \<Longrightarrow> anchor_ok (FirstDungeon + int i) (anchors a ! i)"
  by (simp add: progress_ok_def)

interpretation progress_merge: convergent_merge join progress_ok
proof unfold_locales
  fix a b
  assume "progress_ok a" "progress_ok b"
  then show "progress_ok (join a b)" by (rule progress_ok_join)
next
  fix a
  assume "progress_ok a"
  then show "join a a = a"
    by (intro progress_eqI) (auto simp: join_anchor progress_ok_join progress_anchor_ok anchor_merge.merge_idem)
next
  fix a b
  assume "progress_ok a" "progress_ok b"
  then show "join a b = join b a"
    by (intro progress_eqI)
       (auto simp: join_anchor progress_ok_join progress_anchor_ok or.commute
         intro: anchor_merge.merge_comm)
next
  fix a b c
  assume "progress_ok a" "progress_ok b" "progress_ok c"
  then show "join (join a b) c = join a (join b c)"
    by (intro progress_eqI)
       (auto simp: join_anchor progress_ok_join progress_anchor_ok or.assoc
         anchor_merge.merge_assoc)
qed

lemma progress_ok_none [simp]: "progress_ok no_progress"
  by (simp add: progress_ok_def no_progress_def)

lemma progress_ok_completed [simp]: "progress_ok (p\<lparr>completed := c\<rparr>) \<longleftrightarrow> progress_ok p"
  by (simp add: progress_ok_def)

lemma progress_ok_receipt [simp]: "progress_ok (receipt_for_grant item scene)"
  by (auto simp: receipt_for_grant_def Let_def progress_ok_def no_progress_def)

section \<open>Entitlements, bit by bit\<close>

lemma bit_CityReceipt [simp]: "bit CityReceipt n \<longleftrightarrow> n = 7"
proof -
  have eq: "CityReceipt = push_bit 7 1" by (simp add: CityReceipt_def)
  show ?thesis by (simp only: eq bit_push_bit_iff bit_1_iff) auto
qed

lemma bit_NoteReceipt [simp]: "bit NoteReceipt n \<longleftrightarrow> n = 8"
proof -
  have eq: "NoteReceipt = push_bit 8 1" by (simp add: NoteReceipt_def)
  show ?thesis by (simp only: eq bit_push_bit_iff bit_1_iff) auto
qed

lemma bit_DungeonMask [simp]: "bit DungeonMask n \<longleftrightarrow> n < 7"
proof -
  have eq: "DungeonMask = mask 7" by (simp add: DungeonMask_def mask_eq_decr_exp)
  show ?thesis by (simp only: eq bit_mask_iff) auto
qed

lemma and_city_bit: "w AND dungeon_bit CityDungeon = 0 \<longleftrightarrow> \<not> bit w 6"
proof -
  have "dungeon_bit CityDungeon = 2 ^ 6"
    by (simp add: dungeon_bit_def is_dungeon_def FirstDungeon_def CityDungeon_def)
  then show ?thesis by (simp only: and_exp_eq_0_iff_not_bit)
qed

lemma bit_active_dungeons:
  "bit (active_dungeons p) n \<longleftrightarrow> n < 7 \<and> bit (acquired p) n \<and> \<not> bit (completed p) n"
  by (auto simp: active_dungeons_def bit_simps)

lemma bit_entitlements:
  "bit (entitlements p) n \<longleftrightarrow>
     n < 7 \<and> bit (acquired p) n \<and> \<not> bit (completed p) n \<or>
     n = 7 \<and> citySpecial p \<and> \<not> bit (completed p) 6 \<and> \<not> bit (acquired p) 6 \<or>
     n = 8 \<and> unboundNote p"
  by (auto simp: entitlements_def Let_def bit_simps and_city_bit
      simp flip: active_dungeons_def simp: bit_active_dungeons)

text \<open>Along a growing progress with the same completions, a receipt that is present at both ends
  is present in between.\<close>

definition progress_grows :: "progress \<Rightarrow> progress \<Rightarrow> bool" where
  "progress_grows a b \<longleftrightarrow> (\<forall>n. bit (acquired a) n \<longrightarrow> bit (acquired b) n) \<and>
     (citySpecial a \<longrightarrow> citySpecial b) \<and> (unboundNote a \<longrightarrow> unboundNote b) \<and> completed a = completed b"

lemma entitlements_convex:
  "progress_grows a b \<Longrightarrow> progress_grows b c \<Longrightarrow>
   bit (entitlements a) n \<Longrightarrow> bit (entitlements c) n \<Longrightarrow> bit (entitlements b) n"
  by (auto simp: progress_grows_def bit_entitlements)

lemma progress_grows_trans: "progress_grows a b \<Longrightarrow> progress_grows b c \<Longrightarrow> progress_grows a c"
  by (auto simp: progress_grows_def)

section \<open>Merging remote progress\<close>

definition merge_step :: "progress \<Rightarrow> oo_state \<Rightarrow> oo_state" where
  "merge_step facts s = snd (merge_remote facts s)"

lemma merge_step_simps:
  "st_progress (merge_step f s) = (join (st_progress s) f)\<lparr>completed := completed (st_progress s)\<rparr>"
  "st_managedForm (merge_step f s) = st_managedForm s"
  "st_pending (merge_step f s) =
     (st_pending s OR (entitlements (st_progress (merge_step f s)) AND NOT (entitlements (st_progress s))))
       AND entitlements (st_progress (merge_step f s))"
  by (simp_all add: merge_step_def merge_remote_def Let_def)

lemma merge_step_grows: "progress_grows (st_progress s) (st_progress (merge_step f s))"
  by (auto simp: progress_grows_def merge_step_simps bit_simps)

lemma merge_run_grows: "progress_grows (st_progress s) (st_progress (fold merge_step fs s))"
proof (induction fs arbitrary: s)
  case Nil
  then show ?case by (simp add: progress_grows_def)
next
  case (Cons f fs)
  then show ?case
    using merge_step_grows [of s f] progress_grows_trans by fastforce
qed

lemma join_completed: "(join (p\<lparr>completed := c\<rparr>) f)\<lparr>completed := d\<rparr> = (join p f)\<lparr>completed := d\<rparr>"
  by (simp add: join_def Let_def)

lemma merge_run_progress:
  "st_progress (fold merge_step fs s) =
     (fold (\<lambda>f p. join p f) fs (st_progress s))\<lparr>completed := completed (st_progress s)\<rparr>"
proof -
  have "st_progress (fold merge_step fs s) = (fold (\<lambda>f p. join p f) fs q)\<lparr>completed := c\<rparr>"
    if "st_progress s = q\<lparr>completed := c\<rparr>" for q c s
    using that
  proof (induction fs arbitrary: s q)
    case Nil
    then show ?case by simp
  next
    case (Cons f fs)
    have "st_progress (merge_step f s) = (join q f)\<lparr>completed := c\<rparr>"
      by (simp add: merge_step_simps Cons.prems join_completed)
    then show ?case using Cons.IH by simp
  qed
  then show ?thesis by simp
qed

definition pending_entitled :: "oo_state \<Rightarrow> bool" where
  "pending_entitled s \<longleftrightarrow> st_pending s AND NOT (entitlements (st_progress s)) = 0"

lemma pending_entitled_bits:
  "pending_entitled s \<longleftrightarrow> (\<forall>n. bit (st_pending s) n \<longrightarrow> bit (entitlements (st_progress s)) n)"
proof -
  have "bit (st_pending s) n \<Longrightarrow> n < 16" for n
    using bit_imp_le_length [of "st_pending s" n] by simp
  then show ?thesis
    unfolding pending_entitled_def by (auto simp: bit_eq_iff bit_simps)
qed

lemma pending_entitled_and: "st_pending s = w AND entitlements (st_progress s) \<Longrightarrow> pending_entitled s"
  by (auto simp: pending_entitled_bits bit_simps)

lemma merge_step_entitled: "pending_entitled (merge_step f s)"
  by (rule pending_entitled_and) (rule merge_step_simps(3))

lemma merge_run_pending:
  assumes "pending_entitled s"
  shows "st_pending (fold merge_step fs s) =
    entitlements (st_progress (fold merge_step fs s)) AND
      (st_pending s OR NOT (entitlements (st_progress s)))"
  using assms
proof (induction fs arbitrary: s)
  case Nil
  then show ?case
    by (intro bit_word_eqI) (auto simp: pending_entitled_bits bit_simps)
next
  case (Cons f fs)
  let ?s1 = "merge_step f s" and ?sF = "fold merge_step fs (merge_step f s)"
  have ih: "st_pending ?sF = entitlements (st_progress ?sF) AND
      (st_pending ?s1 OR NOT (entitlements (st_progress ?s1)))"
    by (rule Cons.IH [OF merge_step_entitled])
  have convex: "bit (entitlements (st_progress ?s1)) n"
    if "bit (entitlements (st_progress s)) n" "bit (entitlements (st_progress ?sF)) n" for n
    using entitlements_convex [OF merge_step_grows merge_run_grows] that by blast
  have "st_pending ?sF = entitlements (st_progress ?sF) AND
      (st_pending s OR NOT (entitlements (st_progress s)))"
    unfolding ih by (rule bit_word_eqI) (auto simp: bit_simps merge_step_simps(3) dest: convex)
  then show ?case by simp
qed

lemma fold_join_flip:
  "progress_ok p \<Longrightarrow> \<forall>f \<in> set fs. progress_ok f \<Longrightarrow> fold (\<lambda>f p. join p f) fs p = fold join fs p"
proof (induction fs arbitrary: p)
  case Nil
  then show ?case by simp
next
  case (Cons f fs)
  then show ?case
    by (simp add: progress_merge.merge_comm [of p f] progress_merge.merge_ok)
qed

lemma merge_run_managed: "st_managedForm (fold merge_step fs s) = st_managedForm s"
  by (induction fs arbitrary: s) (auto simp: merge_step_simps)

text \<open>C33: peers converge: whatever the order, and however often each fact is delivered, receiving
  the same set of well-formed progress facts leaves a player in the same state: same receipts,
  same return anchors, same pending deliveries.\<close>

theorem oo_merge_converges:
  assumes "progress_ok (st_progress s)" and "pending_entitled s"
    and "\<forall>f \<in> set fs. progress_ok f" and "set fs = set gs"
  shows "fold merge_step fs s = fold merge_step gs s"
proof -
  have "fold join fs (st_progress s) = fold join gs (st_progress s)"
    using assms by (intro progress_merge.delivery_order_irrelevant) auto
  then have p: "st_progress (fold merge_step fs s) = st_progress (fold merge_step gs s)"
    using assms by (simp add: merge_run_progress fold_join_flip)
  then have "st_pending (fold merge_step fs s) = st_pending (fold merge_step gs s)"
    using assms(2) by (simp add: merge_run_pending)
  with p show ?thesis
    by (intro oo_state.equality) (auto simp: merge_run_managed)
qed

lemma oo_merge_converges_witness:
  "fold merge_step [no_progress\<lparr>acquired := 1\<rparr>, no_progress\<lparr>unboundNote := True\<rparr>,
      no_progress\<lparr>acquired := 1\<rparr>] oo_reset =
   fold merge_step [no_progress\<lparr>unboundNote := True\<rparr>, no_progress\<lparr>acquired := 1\<rparr>] oo_reset"
  by (rule oo_merge_converges)
     (auto simp: oo_reset_def pending_entitled_def progress_ok_def no_progress_def nth_Cons')

section \<open>Pending deliveries\<close>

text \<open>Every call a session makes on the state.\<close>

datatype oo_event =
    OoReset
  | ObserveNative u8
  | Seed progress
  | RecordLocal progress
  | MergeRemote progress
  | Restore progress u16 bool
  | Reconcile oo_scene int int bool

fun oo_step :: "oo_event \<Rightarrow> oo_state \<Rightarrow> oo_state" where
  "oo_step OoReset s = oo_reset"
| "oo_step (ObserveNative flags) s = observe_native_completion flags s"
| "oo_step (Seed facts) s = seed facts s"
| "oo_step (RecordLocal facts) s = record_local facts s"
| "oo_step (MergeRemote facts) s = merge_step facts s"
| "oo_step (Restore facts pending managed) s = restore facts pending managed s"
| "oo_step (Reconcile scene current owner safe) s = snd (reconcile scene current owner safe s)"

lemma pending_entitled_zero: "st_pending s = 0 \<Longrightarrow> pending_entitled s"
  by (simp add: pending_entitled_def)

lemma seed_entitled: "pending_entitled (seed facts s)"
  by (rule pending_entitled_and) (simp add: seed_def Let_def)

lemma reconcile_state:
  "pending_entitled s \<Longrightarrow> pending_entitled (snd (reconcile scene current owner safe s)) \<and>
     st_progress (snd (reconcile scene current owner safe s)) = st_progress s"
  by (auto simp: reconcile_def Let_def pending_entitled_def split: prod.splits)

lemma oo_step_entitled: "pending_entitled s \<Longrightarrow> pending_entitled (oo_step e s)"
proof (cases e)
  case OoReset
  then show ?thesis by (simp add: oo_reset_def pending_entitled_def)
next
  case (ObserveNative flags)
  show ?thesis
    unfolding ObserveNative oo_step.simps
    by (rule pending_entitled_and) (simp add: observe_native_completion_def Let_def)
next
  case (Seed facts)
  then show ?thesis by (simp add: seed_entitled)
next
  case (RecordLocal facts)
  then show ?thesis
    using seed_entitled [of facts s]
    by (auto simp: record_local_def Let_def pending_entitled_bits bit_simps)
next
  case (MergeRemote facts)
  then show ?thesis by (simp add: merge_step_entitled)
next
  case (Restore facts pending managed)
  show ?thesis
    unfolding Restore oo_step.simps
    by (rule pending_entitled_and) (simp add: restore_def Let_def)
next
  case (Reconcile scene current owner safe)
  then show "pending_entitled s \<Longrightarrow> ?thesis" by (simp add: reconcile_state)
qed

interpretation oo_machine: invariant_machine oo_step pending_entitled oo_reset
proof unfold_locales
  show "pending_entitled oo_reset" by (simp add: oo_reset_def pending_entitled_def)
next
  fix s e
  assume "pending_entitled s"
  then show "pending_entitled (oo_step e s)" by (rule oo_step_entitled)
qed

text \<open>C34: over any sequence of grants, remote merges, saves, completions and reconciliations, a
  player only ever has a delivery pending that the current progress entitles them to.\<close>

theorem oo_pending_entitled:
  "st_pending (fold oo_step es oo_reset) AND
     NOT (entitlements (st_progress (fold oo_step es oo_reset))) = 0"
  using oo_machine.reachable_inv by (simp add: pending_entitled_def)

lemma anchor_eq_refl: "anchor_ok stage a \<Longrightarrow> anchor_eq a a"
proof -
  assume "anchor_ok stage a"
  then consider "a = no_anchor" | "valid_anchor stage a" by (auto simp: anchor_ok_def)
  then show ?thesis
  proof cases
    case 1
    then show ?thesis by (simp add: anchor_eq_def no_anchor_def)
  next
    case 2
    then obtain x y z where "an_x a = Fin x" "an_y a = Fin y" "an_z a = Fin z"
      using valid_anchor_fin by blast
    then show ?thesis by (simp add: anchor_eq_def)
  qed
qed

lemma progress_eq_refl: "progress_ok p \<Longrightarrow> progress_eq p p"
  unfolding progress_eq_def
  by (auto simp: list_all2_conv_all_nth progress_ok_def intro: anchor_eq_refl)

lemma merge_absorbed:
  assumes "progress_ok (st_progress s)" and "pending_entitled s"
    and "(join (st_progress s) f)\<lparr>completed := completed (st_progress s)\<rparr> = st_progress s"
  shows "merge_remote f s = (False, s)"
proof -
  have "st_pending s AND entitlements (st_progress s) = st_pending s"
    using assms(2) by (intro bit_word_eqI) (auto simp: pending_entitled_bits bit_simps)
  then show ?thesis
    using assms(1) by (simp add: merge_remote_def Let_def assms(3) progress_eq_refl)
qed

text \<open>a receipt is delivered once: after remote facts were merged and projected into the
  inventory, receiving the same facts again reports no change and makes nothing pending, so an
  old receipt cannot bring the companion back.\<close>

theorem oo_redelivery_silent:
  assumes "progress_ok (st_progress s)" and "progress_ok f"
    and t: "t = snd (reconcile scene current owner safe (merge_step f s))"
  shows "merge_remote f t = (False, t)"
proof -
  have t_p: "st_progress t = (join (st_progress s) f)\<lparr>completed := completed (st_progress s)\<rparr>"
    and ent: "pending_entitled t"
    using reconcile_state [OF merge_step_entitled] by (auto simp: t merge_step_simps)
  have "join (join (st_progress s) f) f = join (st_progress s) f"
    using assms by (metis progress_merge.merge_assoc progress_merge.merge_idem)
  then have "(join (st_progress t) f)\<lparr>completed := completed (st_progress t)\<rparr> = st_progress t"
    by (simp add: t_p join_completed)
  moreover have "progress_ok (st_progress t)"
    unfolding t_p progress_ok_completed using assms(1,2) by (rule progress_ok_join)
  ultimately show ?thesis using ent by (intro merge_absorbed)
qed

lemma oo_redelivery_silent_witness:
  "merge_remote (no_progress\<lparr>unboundNote := True\<rparr>)
     (snd (reconcile \<lparr>sc_name = ''F_SP103'', sc_saveTable = 0, sc_type = 0, sc_room = 0\<rparr> NoItem (-1) True
        (merge_step (no_progress\<lparr>unboundNote := True\<rparr>) oo_reset))) =
   (False, snd (reconcile \<lparr>sc_name = ''F_SP103'', sc_saveTable = 0, sc_type = 0, sc_room = 0\<rparr> NoItem (-1) True
        (merge_step (no_progress\<lparr>unboundNote := True\<rparr>) oo_reset)))"
  by (rule oo_redelivery_silent [where s = oo_reset, OF _ _ refl])
     (auto simp: oo_reset_def progress_ok_def no_progress_def)

section \<open>What is projected\<close>

lemma find_anchored_spec:
  "find_anchored p is = -1 \<or>
   (\<exists>i \<in> set is. find_anchored p is = FirstDungeon + int i \<and>
      active_dungeons p AND dungeon_bit (FirstDungeon + int i) \<noteq> 0 \<and>
      valid_anchor (FirstDungeon + int i) (anchors p ! i))"
  by (induction "is") (auto simp: Let_def)

lemma anchored_stage_spec:
  "anchored_stage p \<ge> 0 \<Longrightarrow>
   \<exists>i < 7. anchored_stage p = FirstDungeon + int i \<and>
      active_dungeons p AND dungeon_bit (anchored_stage p) \<noteq> 0 \<and>
      valid_anchor (anchored_stage p) (anchors p ! i)"
  using find_anchored_spec [of p "[0..<7]"] by (auto simp: anchored_stage_def)

lemma oo_items_distinct [simp]:
  "NoItem \<noteq> Parent" "NoItem \<noteq> Junior" "NoItem \<noteq> CityParent" "NoItem \<noteq> Note"
  "Parent \<noteq> NoItem" "Junior \<noteq> NoItem" "CityParent \<noteq> NoItem" "Note \<noteq> NoItem"
  "Parent \<noteq> Junior" "Parent \<noteq> CityParent" "Parent \<noteq> Note" "Junior \<noteq> Parent"
  "Junior \<noteq> CityParent" "Junior \<noteq> Note" "CityParent \<noteq> Parent" "CityParent \<noteq> Junior"
  "CityParent \<noteq> Note" "Note \<noteq> Parent" "Note \<noteq> Junior" "Note \<noteq> CityParent"
  by (simp_all add: oo_item_defs)

lemma oo_forms [simp]: "is_form Parent" "is_form Junior" "is_form Note" "is_form CityParent"
  by (simp_all add: is_form_def)

lemma decide_form: "oo_decide scene current owner s = (d, st) \<Longrightarrow> d = NoItem \<or> is_form d"
  by (auto simp: oo_decide_def Let_def split: if_splits)

lemma decide_parent:
  "oo_decide scene current owner s = (Parent, st) \<Longrightarrow>
     acquired (st_progress s) AND dungeon_bit (scene_dungeon scene True) \<noteq> 0 \<and>
     completed (st_progress s) AND dungeon_bit (scene_dungeon scene True) = 0"
  by (simp add: oo_decide_def Let_def split: if_splits)

lemma decide_city_parent:
  "oo_decide scene current owner s = (CityParent, st) \<Longrightarrow>
     citySpecial (st_progress s) \<and> completed (st_progress s) AND dungeon_bit CityDungeon = 0"
  by (auto simp: oo_decide_def Let_def split: if_splits)

lemma decide_junior:
  "oo_decide scene current owner s = (Junior, st) \<Longrightarrow>
     current = Junior \<and> is_dungeon owner \<and> completed (st_progress s) AND dungeon_bit owner = 0 \<or>
     anchored_stage (st_progress s) \<ge> 0"
  by (auto simp: oo_decide_def Let_def split: if_splits)

lemma decide_install:
  "oo_decide scene current owner s = (d, st) \<Longrightarrow> st \<noteq> -1 \<Longrightarrow>
     d = Junior \<and> st = anchored_stage (st_progress s) \<and> st \<ge> 0"
  by (auto simp: oo_decide_def Let_def split: if_splits)

lemma reconcile_decided:
  assumes "current = NoItem \<or> is_form current" and "\<not> (current = NoItem \<and> st_pending s = 0)"
    and "reconcile scene current owner True s = (pj, s')"
    and "oo_decide scene current owner s = (d, st)"
  shows "pj_item pj = d \<and> pj_installReturnStage pj = st \<and> pj_applied pj \<and>
    (pj_resetReturn pj \<longleftrightarrow> current = Junior \<and> d \<noteq> Junior) \<and> st_pending s' = 0 \<and>
    st_progress s' = st_progress s"
  using assms by (auto simp: reconcile_def Let_def)

definition justified :: "oo_scene \<Rightarrow> int \<Rightarrow> int \<Rightarrow> progress \<Rightarrow> projection \<Rightarrow> bool" where
  "justified scene current owner p pj \<longleftrightarrow>
     (pj_item pj = NoItem \<or> is_form (pj_item pj)) \<and>
     (pj_item pj = Parent \<longrightarrow>
        acquired p AND dungeon_bit (scene_dungeon scene True) \<noteq> 0 \<and>
        completed p AND dungeon_bit (scene_dungeon scene True) = 0) \<and>
     (pj_item pj = CityParent \<longrightarrow> citySpecial p \<and> completed p AND dungeon_bit CityDungeon = 0) \<and>
     (pj_item pj = Junior \<longrightarrow>
        current = Junior \<and> is_dungeon owner \<and> completed p AND dungeon_bit owner = 0 \<or>
        (\<exists>i < 7. active_dungeons p AND dungeon_bit (FirstDungeon + int i) \<noteq> 0 \<and>
           valid_anchor (FirstDungeon + int i) (anchors p ! i))) \<and>
     (pj_installReturnStage pj \<noteq> -1 \<longrightarrow> pj_item pj = Junior \<and>
        (\<exists>i < 7. pj_installReturnStage pj = FirstDungeon + int i \<and>
           valid_anchor (FirstDungeon + int i) (anchors p ! i))) \<and>
     (pj_resetReturn pj \<longleftrightarrow> current = Junior \<and> pj_item pj \<noteq> Junior)"

text \<open>what the reconciliation writes into the slot is always justified: the parent form only in
  a dungeon whose receipt is held and whose boss flag is clear, the city form only with the city
  receipt and an uncleared city, the junior form only with a usable return point of the player's
  own or a valid shared anchor of an active dungeon; a return point is installed only together
  with the junior form, from such an anchor; and the own return point is dropped exactly when
  the junior form is replaced.\<close>

theorem reconcile_justified:
  assumes "current = NoItem \<or> is_form current"
    and "reconcile scene current owner True s = (pj, s')"
  shows "pj_applied pj \<and> st_pending s' = 0 \<and> st_progress s' = st_progress s \<and>
    justified scene current owner (st_progress s) pj"
proof (cases "current = NoItem \<and> st_pending s = 0")
  case True
  with assms show ?thesis by (auto simp: reconcile_def justified_def)
next
  case False
  obtain d st where dec: "oo_decide scene current owner s = (d, st)" by fastforce
  note pj = reconcile_decided [OF assms(1) False assms(2) dec]
  have junior: "d = Junior \<Longrightarrow> current = Junior \<and> is_dungeon owner \<and>
        completed (st_progress s) AND dungeon_bit owner = 0 \<or>
      (\<exists>i < 7. active_dungeons (st_progress s) AND dungeon_bit (FirstDungeon + int i) \<noteq> 0 \<and>
         valid_anchor (FirstDungeon + int i) (anchors (st_progress s) ! i))"
    using decide_junior dec anchored_stage_spec by metis
  have install: "st \<noteq> -1 \<Longrightarrow> d = Junior \<and>
      (\<exists>i < 7. st = FirstDungeon + int i \<and>
         valid_anchor (FirstDungeon + int i) (anchors (st_progress s) ! i))"
    using decide_install [OF dec] anchored_stage_spec by metis
  have parent: "d = Parent \<Longrightarrow>
      acquired (st_progress s) AND dungeon_bit (scene_dungeon scene True) \<noteq> 0 \<and>
      completed (st_progress s) AND dungeon_bit (scene_dungeon scene True) = 0"
    using decide_parent dec by blast
  have city: "d = CityParent \<Longrightarrow>
      citySpecial (st_progress s) \<and> completed (st_progress s) AND dungeon_bit CityDungeon = 0"
    using decide_city_parent dec by blast
  from pj have eqs: "pj_item pj = d" "pj_installReturnStage pj = st"
    "pj_resetReturn pj \<longleftrightarrow> current = Junior \<and> d \<noteq> Junior"
    and rest: "pj_applied pj" "st_pending s' = 0" "st_progress s' = st_progress s"
    by blast+
  show ?thesis
    unfolding justified_def eqs using rest decide_form [OF dec] parent city junior install by blast
qed

lemma reconcile_justified_witness:
  "\<exists>pj s'. reconcile \<lparr>sc_name = ''D_MN05'', sc_saveTable = 16, sc_type = 1, sc_room = 3\<rparr> Note (-1) True
      (oo_reset\<lparr>st_progress := no_progress\<lparr>acquired := 1\<rparr>, st_pending := 1\<rparr>) = (pj, s') \<and>
      pj_item pj = Parent \<and> st_pending s' = 0"
proof -
  let ?scene = "\<lparr>sc_name = ''D_MN05'', sc_saveTable = 16, sc_type = 1, sc_room = 3\<rparr>"
  let ?s = "oo_reset\<lparr>st_progress := no_progress\<lparr>acquired := 1\<rparr>, st_pending := 1\<rparr>"
  obtain pj s' where r: "reconcile ?scene Note (-1) True ?s = (pj, s')" by fastforce
  have "st_pending s' = 0"
    using reconcile_justified [OF _ r] by (simp add: is_form_def)
  moreover have "pj_item pj = Parent"
    using r by (auto simp: reconcile_def oo_decide_def Let_def oo_item_defs oo_reset_def no_progress_def
        scene_dungeon_def is_dungeon_def oo_stage_defs DungeonNames_def dungeon_bit_def is_form_def)
  ultimately show ?thesis using r by blast
qed

end
