(* ===== verification/Floating.thy ===== *)
theory Floating
  imports Json_Value "HOL-Library.Log_Nat"
begin

text \<open>
  IEEE rounding of the C++ types \<open>float\<close> and \<open>double\<close> to nearest even, on exact rationals: the
  narrowing cast from \<open>double\<close> to \<open>float\<close> and the \<open>double\<close> arithmetic of the byte budget.
\<close>

definition rat_log2 :: "rat \<Rightarrow> int" where
  "rat_log2 r =
     (case quotient_of r of (n, d) \<Rightarrow>
        let k = int (floorlog 2 (nat n)) - int (floorlog 2 (nat d))
        in if 2 powi k \<le> r then k else k - 1)"

definition round_half_even :: "rat \<Rightarrow> int" where
  "round_half_even r =
     (let f = \<lfloor>r\<rfloor>; d = r - of_int f
      in if d < 1 / 2 then f else if d > 1 / 2 then f + 1 else if even f then f else f + 1)"

definition round_bits :: "int \<Rightarrow> int \<Rightarrow> rat \<Rightarrow> rat" where
  "round_bits p emin r =
     (if r = 0 then 0
      else let e = max (rat_log2 \<bar>r\<bar> - (p - 1)) emin;
               q = round_half_even (\<bar>r\<bar> / 2 powi e)
           in sgn r * of_int q * 2 powi e)"

fun f32 :: "fl \<Rightarrow> fl" where
  "f32 (Fin r) = (let s = round_bits 24 (-149) r in if \<bar>s\<bar> \<ge> 2 ^ 128 then FInf (s < 0) else Fin s)"
| "f32 x = x"

definition f64 :: "rat \<Rightarrow> rat" where
  "f64 r = round_bits 53 (-1074) r"

lemma round_half_even_nonneg: "0 \<le> r \<Longrightarrow> 0 \<le> round_half_even r"
  by (auto simp: round_half_even_def Let_def)

lemma round_bits_nonneg: "0 \<le> r \<Longrightarrow> 0 \<le> round_bits p e r"
  by (auto simp: round_bits_def Let_def intro!: mult_nonneg_nonneg round_half_even_nonneg)

lemma f64_nonneg [simp]: "0 \<le> r \<Longrightarrow> 0 \<le> f64 r"
  by (simp add: f64_def round_bits_nonneg)

lemma f64_zero [simp]: "f64 0 = 0"
  by (simp add: f64_def round_bits_def)

lemma f32_zero [simp]: "f32 (Fin 0) = Fin 0"
  by (simp add: round_bits_def)

text \<open>\<open>get<float>\<close> of a number.\<close>

fun get_float :: "json \<Rightarrow> fl jres" where
  "get_float (JFloat x) = Inr (f32 x)"
| "get_float (JInt i) = Inr (f32 (Fin (of_int i)))"
| "get_float (JUInt n) = Inr (f32 (Fin (of_nat n)))"
| "get_float (JBool b) = Inr (Fin (if b then 1 else 0))"
| "get_float _ = Inl TypeError"

end
