(* ===== verification/Ooccoo_Wire.thy ===== *)
theory Ooccoo_Wire
  imports Ooccoo Floating
begin

text \<open>
  The wire and save form of the companion's progress,
  \<open>include/dusklight_online/game/ooccoo_wire.hpp\<close>: versions 2, 3 and 4 of the record, decoded
  atomically, and the round trip of the current version.
\<close>

section \<open>Encoding\<close>

definition oo_encode_anchor :: "progress \<Rightarrow> nat \<Rightarrow> json" where
  "oo_encode_anchor p index =
     (let stage = FirstDungeon + int index; a = anchors p ! index in
      if \<not> valid_anchor stage a \<or> acquired p AND dungeon_bit stage = 0 then JNull
      else j_obj [(''variant'', JUInt (unat (an_variant a))), (''room'', JUInt (unat (an_room a))),
             (''x'', JFloat (an_x a)), (''y'', JFloat (an_y a)), (''z'', JFloat (an_z a)),
             (''angle'', JInt (an_angle a))])"

definition oo_encode :: "progress \<Rightarrow> json" where
  "oo_encode p =
     j_obj [(''version'', JInt 4), (''acquired'', JUInt (unat (acquired p))),
            (''completed'', JUInt (unat (completed p))), (''city_special'', JBool (citySpecial p)),
            (''unbound_note'', JBool (unboundNote p)),
            (''anchors'', JArr (map (oo_encode_anchor p) [0..<7]))]"

section \<open>Decoding\<close>

definition bounded_integer :: "json \<Rightarrow> nat \<Rightarrow> nat option" where
  "bounded_integer v bound =
     (case v of
        JUInt n \<Rightarrow> if n \<le> bound then Some n else None
      | JInt i \<Rightarrow> if i \<ge> 0 \<and> nat i \<le> bound then Some (nat i) else None
      | _ \<Rightarrow> None)"

definition decode_angle :: "json \<Rightarrow> int option" where
  "decode_angle v =
     (case v of
        JUInt n \<Rightarrow> if n \<le> 32767 then Some (int n) else None
      | JInt i \<Rightarrow> if i \<ge> -32768 \<and> i \<le> 32767 then Some i else None
      | _ \<Rightarrow> None)"

definition anchor_number :: "json \<Rightarrow> fl option" where
  "anchor_number v = (if \<not> is_number v then None
     else case get_float v of Inl _ \<Rightarrow> None | Inr x \<Rightarrow> Some x)"

definition oo_decode_anchor :: "u8 \<Rightarrow> int \<Rightarrow> json \<Rightarrow> anchor option" where
  "oo_decode_anchor acq stage e =
     (if acq AND dungeon_bit stage = 0 \<or> \<not> is_object e \<or> j_size e \<noteq> 6 \<or>
         (\<exists>f \<in> set [''variant'', ''room'', ''x'', ''y'', ''z'', ''angle'']. \<not> j_contains f e) then None
      else case (bounded_integer (j_field ''variant'' e) 1, bounded_integer (j_field ''room'' e) 63,
                 decode_angle (j_field ''angle'' e), anchor_number (j_field ''x'' e),
                 anchor_number (j_field ''y'' e), anchor_number (j_field ''z'' e)) of
          (Some variant, Some room, Some angle, Some x, Some y, Some z) \<Rightarrow>
            let a = \<lparr>an_valid = True, an_variant = word_of_nat variant, an_room = word_of_nat room,
                     an_x = x, an_y = y, an_z = z, an_angle = angle\<rparr>
            in if valid_anchor stage a then Some a else None
        | _ \<Rightarrow> None)"

fun oo_decode_anchors :: "u8 \<Rightarrow> int \<Rightarrow> json list \<Rightarrow> anchor list option" where
  "oo_decode_anchors acq stage [] = Some []"
| "oo_decode_anchors acq stage (e # es) =
     (if is_null e then map_option ((#) no_anchor) (oo_decode_anchors acq (stage + 1) es)
      else case oo_decode_anchor acq stage e of
        None \<Rightarrow> None
      | Some a \<Rightarrow> map_option ((#) a) (oo_decode_anchors acq (stage + 1) es))"

definition oo_decode :: "json \<Rightarrow> progress option" where
  "oo_decode state =
     (if \<not> is_object state \<or> \<not> j_contains ''version'' state \<or> \<not> j_contains ''acquired'' state \<or>
         \<not> j_contains ''completed'' state \<or> \<not> j_contains ''city_special'' state \<or>
         \<not> j_contains ''unbound_note'' state then None
      else case (bounded_integer (j_field ''version'' state) 4,
                 bounded_integer (j_field ''acquired'' state) (unat DungeonMask),
                 bounded_integer (j_field ''completed'' state) (unat DungeonMask),
                 j_field ''city_special'' state, j_field ''unbound_note'' state) of
          (Some version, Some acq, Some cmpl, JBool special, JBool note) \<Rightarrow>
            if (version \<noteq> 2 \<and> version \<noteq> 3 \<and> version \<noteq> 4) \<or>
               j_size state \<noteq> (if version \<ge> 3 then 6 else 5) \<or>
               (version \<ge> 3 \<and> \<not> j_contains ''anchors'' state) then None
            else
              let result = \<lparr>acquired = word_of_nat acq, completed = word_of_nat cmpl,
                    citySpecial = special, unboundNote = note, anchors = replicate 7 no_anchor\<rparr>
              in if version = 2 then Some result
                 else if \<not> is_array (j_field ''anchors'' state) \<or> j_size (j_field ''anchors'' state) \<noteq> 7
                 then None
                 else (case oo_decode_anchors (acquired result) FirstDungeon
                             (j_elems (j_field ''anchors'' state)) of
                     None \<Rightarrow> None
                   | Some as \<Rightarrow>
                       if version = 3 then Some result else Some (result\<lparr>anchors := as\<rparr>))
        | _ \<Rightarrow> None)"

text \<open>
  What a player's own progress satisfies: it is well-formed, uses only the seven dungeon bits, and
  its coordinates are \<open>float\<close> values and its angles \<open>int16_t\<close> values.
\<close>

definition anchor_wire :: "anchor \<Rightarrow> bool" where
  "anchor_wire a \<longleftrightarrow> f32 (an_x a) = an_x a \<and> f32 (an_y a) = an_y a \<and> f32 (an_z a) = an_z a \<and>
     -32768 \<le> an_angle a \<and> an_angle a \<le> 32767"

definition progress_wire :: "progress \<Rightarrow> bool" where
  "progress_wire p \<longleftrightarrow> progress_ok p \<and> acquired p \<le> DungeonMask \<and> completed p \<le> DungeonMask \<and>
     (\<forall>a \<in> set (anchors p). anchor_wire a)"

section \<open>Round trip\<close>

lemma bounded_unat [simp]:
  "unat w \<le> b \<Longrightarrow> bounded_integer (JUInt (unat w)) b = Some (unat w)"
  by (simp add: bounded_integer_def)

lemma oo_decode_encode_anchor:
  assumes "valid_anchor stage a" and "acq AND dungeon_bit stage \<noteq> 0" and "anchor_wire a"
  shows "oo_decode_anchor acq stage
    (j_obj [(''variant'', JUInt (unat (an_variant a))), (''room'', JUInt (unat (an_room a))),
       (''x'', JFloat (an_x a)), (''y'', JFloat (an_y a)), (''z'', JFloat (an_z a)),
       (''angle'', JInt (an_angle a))]) = Some a"
proof -
  have r: "unat (an_variant a) \<le> 1" "unat (an_room a) \<le> 63" "an_valid a"
    using assms(1) by (auto simp: valid_anchor_def word_le_nat_alt)
  have eq: "\<lparr>an_valid = True, an_variant = an_variant a, an_room = an_room a, an_x = an_x a,
      an_y = an_y a, an_z = an_z a, an_angle = an_angle a\<rparr> = a"
    using r(3) by (cases a) simp
  show ?thesis
    using assms r
    by (simp add: oo_decode_anchor_def j_obj_def j_field_def decode_angle_def anchor_number_def
        anchor_wire_def eq)
qed

lemma oo_decode_encode_anchors:
  assumes "progress_ok p" and "\<forall>a \<in> set (anchors p). anchor_wire a" and "n \<le> 7"
  shows "oo_decode_anchors (acquired p) (FirstDungeon + int n) (map (oo_encode_anchor p) [n..<7])
    = Some (drop n (anchors p))"
  using assms(3)
proof (induction "7 - n" arbitrary: n)
  case 0
  then have "n = 7" by simp
  then show ?case using assms(1) by (simp add: progress_ok_def)
next
  case (Suc k)
  then have n: "n < 7" by simp
  let ?stage = "FirstDungeon + int n" and ?a = "anchors p ! n"
  have len: "length (anchors p) = 7" and ok: "anchor_ok ?stage ?a"
    and none: "acquired p AND dungeon_bit ?stage = 0 \<Longrightarrow> ?a = no_anchor"
    using assms(1) n by (auto simp: progress_ok_def)
  have ih: "oo_decode_anchors (acquired p) (FirstDungeon + int (Suc n))
      (map (oo_encode_anchor p) [Suc n..<7]) = Some (drop (Suc n) (anchors p))"
    using Suc n by (intro Suc.hyps(1)) auto
  have next_stage: "?stage + 1 = FirstDungeon + int (Suc n)" by simp
  have dr: "drop n (anchors p) = ?a # drop (Suc n) (anchors p)"
    using n len by (simp add: Cons_nth_drop_Suc)
  have up: "[n..<7] = n # [Suc n..<7]" using n by (simp add: upt_conv_Cons)
  show ?case
  proof (cases "valid_anchor ?stage ?a \<and> acquired p AND dungeon_bit ?stage \<noteq> 0")
    case True
    moreover have "anchor_wire ?a" using assms(2) n len by simp
    ultimately have "oo_decode_anchor (acquired p) ?stage (oo_encode_anchor p n) = Some ?a"
      and "\<not> is_null (oo_encode_anchor p n)"
      by (auto simp: oo_encode_anchor_def Let_def oo_decode_encode_anchor) (simp add: j_obj_def)
    then show ?thesis using ih dr up by (simp only: list.map oo_decode_anchors.simps next_stage) simp
  next
    case False
    then have "oo_encode_anchor p n = JNull" and "?a = no_anchor"
      using ok none by (auto simp: oo_encode_anchor_def Let_def anchor_ok_def)
    then show ?thesis using ih dr up by (simp only: list.map oo_decode_anchors.simps next_stage) simp
  qed
qed

lemma oo_decode_encode:
  assumes "progress_wire p"
  shows "oo_decode (oo_encode p) = Some p"
proof -
  have b: "unat (acquired p) \<le> unat DungeonMask" "unat (completed p) \<le> unat DungeonMask"
    using assms by (auto simp: progress_wire_def word_le_nat_alt)
  have anc: "oo_decode_anchors (acquired p) FirstDungeon (map (oo_encode_anchor p) [0..<7])
      = Some (anchors p)"
    using oo_decode_encode_anchors [of p 0] assms by (simp add: progress_wire_def)
  have v: "bounded_integer (JInt 4) 4 = Some 4" by (simp add: bounded_integer_def)
  show ?thesis
    using anc v b by (simp add: oo_encode_def oo_decode_def j_obj_def j_field_def Let_def del: upt_rec_numeral)
qed

interpretation oo_wire: codec oo_encode oo_decode progress_wire
  by unfold_locales (rule oo_decode_encode)

lemma bounded_integer_le: "bounded_integer v b = Some n \<Longrightarrow> n \<le> b"
  by (auto simp: bounded_integer_def split: json.splits if_splits)

lemma bounded_mask:
  assumes "bounded_integer v (unat DungeonMask) = Some n"
  shows "(word_of_nat n :: u8) \<le> DungeonMask"
proof -
  have "n \<le> 127" using bounded_integer_le [OF assms] by (simp add: DungeonMask_def)
  then show ?thesis
    by (simp add: DungeonMask_def word_le_nat_alt unat_of_nat take_bit_nat_def)
qed

lemma oo_decode_anchor_valid:
  "oo_decode_anchor acq stage e = Some a \<Longrightarrow> valid_anchor stage a \<and> acq AND dungeon_bit stage \<noteq> 0"
  by (auto simp: oo_decode_anchor_def Let_def split: if_splits option.splits)

lemma oo_decode_anchors_spec:
  "oo_decode_anchors acq stage es = Some as \<Longrightarrow>
   length as = length es \<and>
   (\<forall>i < length as. anchor_ok (stage + int i) (as ! i) \<and>
      (acq AND dungeon_bit (stage + int i) = 0 \<longrightarrow> as ! i = no_anchor))"
proof (induction acq stage es arbitrary: as rule: oo_decode_anchors.induct)
  case (1 acq stage)
  then show ?case by simp
next
  case (2 acq stage e es)
  then obtain a as' where as: "as = a # as'" and rest: "oo_decode_anchors acq (stage + 1) es = Some as'"
    and a: "a = no_anchor \<or> valid_anchor stage a \<and> acq AND dungeon_bit stage \<noteq> 0"
    by (auto split: if_splits option.splits dest: oo_decode_anchor_valid)
  have len: "length as' = length es"
    and ih: "\<And>i. i < length as' \<Longrightarrow> anchor_ok (stage + 1 + int i) (as' ! i) \<and>
      (acq AND dungeon_bit (stage + 1 + int i) = 0 \<longrightarrow> as' ! i = no_anchor)"
    using 2 rest by (auto split: if_splits option.splits)
  show ?case
  proof (intro conjI allI impI)
    show "length as = length (e # es)" using as len by simp
  next
    fix i assume "i < length as"
    then show "anchor_ok (stage + int i) (as ! i)"
      using as a ih [of "i - 1"] by (cases i) (auto simp: anchor_ok_def add.assoc)
  next
    fix i assume "i < length as" and "acq AND dungeon_bit (stage + int i) = 0"
    then show "as ! i = no_anchor"
      using as a ih [of "i - 1"] by (cases i) (auto simp: add.assoc)
  qed
qed

lemma oo_decode_version:
  assumes "oo_decode j = Some p"
  obtains version acq cmpl where
    "bounded_integer (j_field ''version'' j) 4 = Some version"
    "bounded_integer (j_field ''acquired'' j) (unat DungeonMask) = Some acq"
    "bounded_integer (j_field ''completed'' j) (unat DungeonMask) = Some cmpl"
    "acquired p = word_of_nat acq" "completed p = word_of_nat cmpl"
    "version = 2 \<or> version = 3 \<or> version = 4"
    "version \<noteq> 4 \<Longrightarrow> anchors p = replicate 7 no_anchor"
    "version = 4 \<Longrightarrow> j_size (j_field ''anchors'' j) = 7 \<and> is_array (j_field ''anchors'' j) \<and>
       oo_decode_anchors (acquired p) FirstDungeon (j_elems (j_field ''anchors'' j)) = Some (anchors p)"
proof -
  from assms obtain version acq cmpl special nt where
    f: "bounded_integer (j_field ''version'' j) 4 = Some version"
    "bounded_integer (j_field ''acquired'' j) (unat DungeonMask) = Some acq"
    "bounded_integer (j_field ''completed'' j) (unat DungeonMask) = Some cmpl"
    "j_field ''city_special'' j = JBool special" "j_field ''unbound_note'' j = JBool nt"
    by (auto simp: oo_decode_def split: if_splits option.splits json.splits)
  show ?thesis
    by (rule that [OF f(1-3)])
       (use assms f in \<open>auto simp: oo_decode_def Let_def split: if_splits option.splits\<close>)
qed

text \<open>whatever JSON value arrives, the decoder rejects it as a whole or returns well-formed
  progress: only the seven dungeon bits, and an anchor only where the receipt is held and only
  inside the coordinate bounds; the records of versions 2 and 3 yield no anchor.  Such progress
  is what the convergence of the merge needs.\<close>

theorem oo_decode_safe:
  "case oo_decode j of
     None \<Rightarrow> True
   | Some p \<Rightarrow> progress_ok p \<and> acquired p \<le> DungeonMask \<and> completed p \<le> DungeonMask \<and>
       (bounded_integer (j_field ''version'' j) 4 = Some 4 \<or> anchors p = replicate 7 no_anchor)"
proof (cases "oo_decode j")
  case None
  then show ?thesis by simp
next
  case (Some p)
  from Some show ?thesis
  proof (rule oo_decode_version)
    fix version acq cmpl
    assume b: "bounded_integer (j_field ''version'' j) 4 = Some version"
      "bounded_integer (j_field ''acquired'' j) (unat DungeonMask) = Some acq"
      "bounded_integer (j_field ''completed'' j) (unat DungeonMask) = Some cmpl"
      "acquired p = word_of_nat acq" "completed p = word_of_nat cmpl"
      and v: "version = 2 \<or> version = 3 \<or> version = 4"
      and old: "version \<noteq> 4 \<Longrightarrow> anchors p = replicate 7 no_anchor"
      and new: "version = 4 \<Longrightarrow> j_size (j_field ''anchors'' j) = 7 \<and> is_array (j_field ''anchors'' j) \<and>
         oo_decode_anchors (acquired p) FirstDungeon (j_elems (j_field ''anchors'' j)) = Some (anchors p)"
    have "progress_ok p"
    proof (cases "version = 4")
      case False
      then show ?thesis using old by (simp add: progress_ok_def)
    next
      case True
      then have "length (j_elems (j_field ''anchors'' j)) = 7"
        using new by (auto simp: is_array_elems)
      then show ?thesis
        using oo_decode_anchors_spec new True unfolding progress_ok_def by metis
    qed
    then show ?thesis using Some b old bounded_mask by auto
  qed
qed

text \<open>C35: a player's progress survives the current version of the record.\<close>

theorem oo_wire_roundtrip:
  assumes "progress_wire p"
  shows "oo_decode (oo_encode p) = Some p"
  using assms by (rule oo_wire.dec_enc)

lemma oo_wire_roundtrip_witness:
  "oo_decode (oo_encode (no_progress\<lparr>acquired := 5, completed := 4, unboundNote := True\<rparr>)) =
     Some (no_progress\<lparr>acquired := 5, completed := 4, unboundNote := True\<rparr>)"
proof (rule oo_wire_roundtrip)
  have "anchor_wire no_anchor" by (simp add: anchor_wire_def no_anchor_def del: f32.simps)
  then show "progress_wire (no_progress\<lparr>acquired := 5, completed := 4, unboundNote := True\<rparr>)"
    by (simp add: progress_wire_def progress_ok_def no_progress_def DungeonMask_def)
qed

end
