(* ===== verification/Save_Recovery.thy ===== *)
theory Save_Recovery
  imports Interfaces Json_Value
begin

text \<open>
  The save-recovery journal, \<open>include/dusklight_online/game/save_recovery.hpp\<close>: the facts of a save
  snapshot, the journal of facts that remote updates changed since the last successful save, and
  which of them may be replayed into a loaded file.
\<close>

section \<open>Facts of a snapshot\<close>

datatype recovery_fact = Fact (fact_field: string) (fact_key: int) (fact_subkey: int)

definition fact_tuple :: "recovery_fact \<Rightarrow> string \<times> int \<times> int" where
  "fact_tuple f = (fact_field f, fact_key f, fact_subkey f)"

instantiation recovery_fact :: linorder
begin

definition less_eq_recovery_fact :: "recovery_fact \<Rightarrow> recovery_fact \<Rightarrow> bool" where
  "less_eq_recovery_fact a b \<longleftrightarrow> fact_tuple a \<le> fact_tuple b"

definition less_recovery_fact :: "recovery_fact \<Rightarrow> recovery_fact \<Rightarrow> bool" where
  "less_recovery_fact a b \<longleftrightarrow> fact_tuple a < fact_tuple b"

instance
  by standard
    (auto simp: less_eq_recovery_fact_def less_recovery_fact_def fact_tuple_def recovery_fact.expand)

end

type_synonym facts = "(recovery_fact, json) omap"

definition fact_sets :: "string list" where
  "fact_sets = [''event_flags'', ''key_items'', ''crystals'', ''mirrors'', ''dark_clear_levels'',
     ''transform_levels'', ''region_bits'', ''collect_clothing'', ''collect_sword'',
     ''collect_shield'', ''letter_get_flags'', ''light_drop_get_flags'',
     ''item_first_bits'', ''visited_rooms'']"

definition stage_sets :: "string list" where
  "stage_sets = [''chests'', ''switches'', ''items'', ''dungeon_items'']"

definition indexed_fields :: "(string \<times> string) list" where
  "indexed_fields = [(''key_counts'', ''stage''), (''light_drop_counts'', ''area''),
     (''bomb_bag_slots'', ''bag''), (''fish_records'', ''index'')]"

definition value_fields :: "string list" where
  "value_fields = [''max_life'', ''bottle_slots'', ''bottle_sources'', ''bottle_sources_complete'',
     ''rupees'', ''poe_count'', ''malo_fundraising'', ''charlo_offering'',
     ''collect_smell'', ''trade_item'', ''ooccoo_state'']"

text \<open>The elements of an array field; nothing when the field is missing or no array.\<close>

definition array_field :: "string \<Rightarrow> json \<Rightarrow> json list" where
  "array_field field snapshot =
     (case j_find field snapshot of Some (JArr xs) \<Rightarrow> xs | _ \<Rightarrow> [])"

definition set_fact :: "string \<Rightarrow> json \<Rightarrow> facts \<Rightarrow> facts jres" where
  "set_fact field v fs =
     (if is_number_integer v then
        try_bind (get_int v) (\<lambda>i. Inr (om_put (Fact field i (-1)) (JBool True) fs))
      else if field = ''visited_rooms'' \<and> is_object v then
        try_bind (value_int ''stage'' (-1) v) (\<lambda>stage.
        try_bind (value_int ''room'' (-1) v) (\<lambda>room.
          Inr (if stage \<ge> 0 \<and> room \<ge> 0 then om_put (Fact field stage room) (JBool True) fs else fs)))
      else Inr fs)"

definition stage_flag :: "string \<Rightarrow> int \<Rightarrow> json \<Rightarrow> facts \<Rightarrow> facts jres" where
  "stage_flag field stage v fs =
     (if is_number_integer v
      then try_bind (get_int v) (\<lambda>i. Inr (om_put (Fact field stage i) (JBool True) fs))
      else Inr fs)"

definition stage_fact :: "string \<Rightarrow> json \<Rightarrow> facts \<Rightarrow> facts jres" where
  "stage_fact field entry fs =
     (let member = (if field = ''dungeon_items'' then ''kinds'' else ''flags'') in
      if \<not> is_object entry then Inr fs
      else try_bind (value_int ''stage'' (-1) entry) (\<lambda>stage.
        if stage < 0 \<or> \<not> j_contains member entry \<or> \<not> is_array (j_field member entry) then Inr fs
        else try_fold (stage_flag field stage) (j_elems (j_field member entry)) fs))"

definition indexed_fact :: "string \<Rightarrow> string \<Rightarrow> json \<Rightarrow> facts \<Rightarrow> facts jres" where
  "indexed_fact field index entry fs =
     (if \<not> is_object entry then Inr fs
      else try_bind (value_int index (-1) entry) (\<lambda>key.
        Inr (if key \<ge> 0 then om_put (Fact field key (-1)) entry fs else fs)))"

definition value_fact :: "json \<Rightarrow> string \<Rightarrow> facts \<Rightarrow> facts jres" where
  "value_fact snapshot field fs =
     Inr (case j_find field snapshot of
            None \<Rightarrow> fs
          | Some v \<Rightarrow> om_put (Fact field (-1) (-1)) v fs)"

definition recovery_facts :: "json \<Rightarrow> facts jres" where
  "recovery_facts snapshot =
     try_bind (try_fold (\<lambda>field. try_fold (set_fact field) (array_field field snapshot)) fact_sets [])
       (\<lambda>f1. try_bind (try_fold (\<lambda>field. try_fold (stage_fact field) (array_field field snapshot))
                         stage_sets f1)
       (\<lambda>f2. try_bind (try_fold (\<lambda>(field, index).
                           try_fold (indexed_fact field index) (array_field field snapshot))
                         indexed_fields f2)
       (\<lambda>f3. try_fold (value_fact snapshot) value_fields f3)))"

section \<open>The journal\<close>

record save_delta =
  baseline :: facts
  changed :: facts

definition value_or_null :: "facts \<Rightarrow> recovery_fact \<Rightarrow> json" where
  "value_or_null fs key = om_get JNull key fs"

definition sr_begin :: "json \<Rightarrow> save_delta \<Rightarrow> save_delta jres" where
  "sr_begin saved d =
     try_bind (recovery_facts saved) (\<lambda>b. Inr \<lparr>baseline = b, changed = []\<rparr>)"

definition observe_key :: "facts \<Rightarrow> facts \<Rightarrow> recovery_fact \<Rightarrow> save_delta \<Rightarrow> save_delta" where
  "observe_key previous current key d =
     (let oldValue = value_or_null previous key; newValue = value_or_null current key in
      if j_eq oldValue newValue then d
      else if j_eq newValue (value_or_null (baseline d) key)
      then d\<lparr>changed := om_erase key (changed d)\<rparr>
      else d\<lparr>changed := om_put key newValue (changed d)\<rparr>)"

definition observe_facts :: "facts \<Rightarrow> facts \<Rightarrow> save_delta \<Rightarrow> save_delta" where
  "observe_facts previous current d =
     (let keys = fold os_insert (map fst current) (fold os_insert (map fst previous) [])
      in fold (observe_key previous current) keys d)"

definition sr_observe :: "json \<Rightarrow> json \<Rightarrow> save_delta \<Rightarrow> save_delta jres" where
  "sr_observe before after d =
     try_bind (recovery_facts before) (\<lambda>previous.
     try_bind (recovery_facts after) (\<lambda>current.
       Inr (observe_facts previous current d)))"

definition observe_intent :: "recovery_fact \<Rightarrow> json \<Rightarrow> save_delta \<Rightarrow> save_delta" where
  "observe_intent key target d =
     (if j_eq target (value_or_null (baseline d) key)
      then d\<lparr>changed := om_erase key (changed d)\<rparr>
      else d\<lparr>changed := om_put key target (changed d)\<rparr>)"

definition sr_empty :: "save_delta \<Rightarrow> bool" where
  "sr_empty d \<longleftrightarrow> changed d = []"

definition sr_size :: "save_delta \<Rightarrow> nat" where
  "sr_size d = length (changed d)"

definition applicable_facts :: "facts \<Rightarrow> save_delta \<Rightarrow> facts" where
  "applicable_facts current d =
     foldl (\<lambda>result (key, target).
       if j_eq (value_or_null current key) (value_or_null (baseline d) key) \<and>
          \<not> j_eq (value_or_null current key) target
       then om_put key target result else result) [] (changed d)"

definition applicable :: "json \<Rightarrow> save_delta \<Rightarrow> facts jres" where
  "applicable loaded d =
     try_bind (recovery_facts loaded) (\<lambda>current. Inr (applicable_facts current d))"

section \<open>Facts form a map\<close>

lemma om_ok_set_fact: "set_fact field v fs = Inr fs' \<Longrightarrow> om_ok fs \<Longrightarrow> om_ok fs'"
  by (auto simp: set_fact_def try_bind_Inr split: if_splits)

lemma om_ok_stage_flag: "stage_flag field stage v fs = Inr fs' \<Longrightarrow> om_ok fs \<Longrightarrow> om_ok fs'"
  by (auto simp: stage_flag_def try_bind_Inr split: if_splits)

lemma om_ok_stage_fact: "stage_fact field v fs = Inr fs' \<Longrightarrow> om_ok fs \<Longrightarrow> om_ok fs'"
  by (auto simp: stage_fact_def Let_def try_bind_Inr split: if_splits
      elim: try_fold_inv [where P = om_ok] dest: om_ok_stage_flag)

lemma om_ok_indexed_fact: "indexed_fact field index v fs = Inr fs' \<Longrightarrow> om_ok fs \<Longrightarrow> om_ok fs'"
  by (auto simp: indexed_fact_def try_bind_Inr split: if_splits)

lemma om_ok_value_fact: "value_fact snapshot field fs = Inr fs' \<Longrightarrow> om_ok fs \<Longrightarrow> om_ok fs'"
  by (auto simp: value_fact_def split: option.splits)

lemma recovery_facts_ok:
  assumes "recovery_facts snapshot = Inr fs"
  shows "om_ok fs"
proof -
  obtain f1 f2 f3 where
    1: "try_fold (\<lambda>field. try_fold (set_fact field) (array_field field snapshot)) fact_sets [] = Inr f1" and
    2: "try_fold (\<lambda>field. try_fold (stage_fact field) (array_field field snapshot)) stage_sets f1 = Inr f2" and
    3: "try_fold (\<lambda>(field, index). try_fold (indexed_fact field index) (array_field field snapshot))
          indexed_fields f2 = Inr f3" and
    4: "try_fold (value_fact snapshot) value_fields f3 = Inr fs"
    using assms by (auto simp: recovery_facts_def try_bind_Inr)
  have "om_ok f1"
    by (rule try_fold_inv [OF 1]) (auto elim: try_fold_inv intro: om_ok_set_fact)
  then have "om_ok f2"
    by (rule try_fold_inv [OF 2]) (auto elim: try_fold_inv intro: om_ok_stage_fact)
  then have "om_ok f3"
    by (rule try_fold_inv [OF 3]) (auto elim: try_fold_inv intro: om_ok_indexed_fact)
  then show ?thesis
    by (rule try_fold_inv [OF 4]) (auto intro: om_ok_value_fact)
qed

section \<open>What an observation records\<close>

lemma baseline_observe_key [simp]: "baseline (observe_key previous current key d) = baseline d"
  by (simp add: observe_key_def Let_def)

lemma baseline_fold_observe [simp]:
  "baseline (fold (observe_key previous current) keys d) = baseline d"
  by (induction keys arbitrary: d) auto

definition observed_entry :: "facts \<Rightarrow> facts \<Rightarrow> save_delta \<Rightarrow> recovery_fact \<Rightarrow> json option" where
  "observed_entry previous current d k =
     (if j_eq (value_or_null previous k) (value_or_null current k) then map_of (changed d) k
      else if j_eq (value_or_null current k) (value_or_null (baseline d) k) then None
      else Some (value_or_null current k))"

lemma observe_key_at:
  "map_of (changed (observe_key previous current key d)) k =
     (if k = key then observed_entry previous current d k else map_of (changed d) k)"
  by (simp add: observe_key_def observed_entry_def Let_def)

lemma observe_keys_at:
  "distinct keys \<Longrightarrow> map_of (changed (fold (observe_key previous current) keys d)) k =
     (if k \<in> set keys then observed_entry previous current d k else map_of (changed d) k)"
proof (induction keys arbitrary: d)
  case Nil
  then show ?case by simp
next
  case (Cons x keys)
  have "observed_entry previous current (observe_key previous current x d) k =
      observed_entry previous current d k" if "k \<noteq> x"
    using that by (simp add: observed_entry_def observe_key_at)
  with Cons show ?case by (auto simp: observe_key_at)
qed

lemma os_ok_fold_insert: "os_ok xs \<Longrightarrow> os_ok (fold os_insert ys xs)"
  by (induction ys arbitrary: xs) auto

lemma set_fold_insert [simp]: "set (fold os_insert ys xs) = set ys \<union> set xs"
  by (induction ys arbitrary: xs) auto

lemma value_or_null_absent: "k \<notin> fst ` set fs \<Longrightarrow> value_or_null fs k = JNull"
  by (metis map_of_eq_None_iff om_get_def option.simps(4) value_or_null_def)

text \<open>
  observing a change of the save from one set of facts to another records, per fact, exactly
  the difference to the last successful save: a fact the change did not touch keeps its entry, a
  fact that returned to its saved value loses its entry, any other fact is recorded with its new
  value.
\<close>

theorem observe_records_difference:
  "map_of (changed (observe_facts previous current d)) k =
     (if j_eq (value_or_null previous k) (value_or_null current k) then map_of (changed d) k
      else if j_eq (value_or_null current k) (value_or_null (baseline d) k) then None
      else Some (value_or_null current k))"
proof -
  let ?keys = "fold os_insert (map fst current) (fold os_insert (map fst previous) [])"
  have d: "distinct ?keys" by (intro os_ok_distinct os_ok_fold_insert) simp
  have "observed_entry previous current d k = map_of (changed d) k" if "k \<notin> set ?keys"
    using that by (simp add: observed_entry_def value_or_null_absent)
  then show ?thesis
    using observe_keys_at [OF d, of previous current d k]
    by (auto simp: observe_facts_def Let_def observed_entry_def)
qed

section \<open>The journal invariant\<close>

text \<open>
  The journal is a map, and no entry repeats the saved value of its fact.
\<close>

definition journal_ok :: "save_delta \<Rightarrow> bool" where
  "journal_ok d \<longleftrightarrow> om_ok (baseline d) \<and> om_ok (changed d) \<and>
     (\<forall>(k, v) \<in> set (changed d). \<not> j_eq v (value_or_null (baseline d) k))"

lemma set_om_put: "om_ok m \<Longrightarrow> (a, b) \<in> set (om_put k v m) \<longleftrightarrow>
   (if a = k then b = v else (a, b) \<in> set m)"
  by (metis fun_upd_apply map_of_om_put om_find_iff om_ok_put option.inject)

lemma set_om_erase [simp]: "(a, b) \<in> set (om_erase k m) \<longleftrightarrow> a \<noteq> k \<and> (a, b) \<in> set m"
  by (auto simp: om_erase_def)

lemma journal_observe_key [inv_intros]:
  "journal_ok d \<Longrightarrow> journal_ok (observe_key previous current key d)"
  by (auto simp: journal_ok_def observe_key_def Let_def set_om_put split: if_splits)

lemma journal_observe_facts [inv_intros]:
  "journal_ok d \<Longrightarrow> journal_ok (observe_facts previous current d)"
proof -
  have "journal_ok d \<Longrightarrow> journal_ok (fold (observe_key previous current) keys d)" for keys
    by (induction keys arbitrary: d) (auto intro: inv_intros)
  then show "journal_ok d \<Longrightarrow> ?thesis" by (simp add: observe_facts_def Let_def)
qed

lemma journal_observe_intent [inv_intros]:
  "journal_ok d \<Longrightarrow> journal_ok (observe_intent key target d)"
  by (auto simp: journal_ok_def observe_intent_def set_om_put split: if_splits)

lemma journal_begin [inv_intros]: "sr_begin saved d = Inr d' \<Longrightarrow> journal_ok d'"
  by (auto simp: sr_begin_def try_bind_Inr journal_ok_def dest: recovery_facts_ok)

datatype sr_event = SBegin json | SObserve json json | SIntent recovery_fact json

text \<open>A call that throws leaves the journal as it was: both readers throw before they write.\<close>

definition sr_step :: "sr_event \<Rightarrow> save_delta \<Rightarrow> save_delta" where
  "sr_step e d = (case e of
       SBegin saved \<Rightarrow> (case sr_begin saved d of Inr d' \<Rightarrow> d' | Inl _ \<Rightarrow> d)
     | SObserve before after \<Rightarrow> (case sr_observe before after d of Inr d' \<Rightarrow> d' | Inl _ \<Rightarrow> d)
     | SIntent key target \<Rightarrow> observe_intent key target d)"

definition sr_start :: save_delta where
  "sr_start = \<lparr>baseline = [], changed = []\<rparr>"

lemma journal_step [inv_intros]: "journal_ok d \<Longrightarrow> journal_ok (sr_step e d)"
  by (cases e)
     (auto simp: sr_step_def sr_observe_def try_bind_def split: sum.splits intro: inv_intros)

interpretation journal: invariant_machine sr_step journal_ok sr_start
  by unfold_locales (simp add: journal_ok_def sr_start_def, rule journal_step)

section \<open>What is replayed\<close>

definition replay_entry :: "facts \<Rightarrow> facts \<Rightarrow> recovery_fact \<Rightarrow> json \<Rightarrow> bool" where
  "replay_entry base current k v \<longleftrightarrow>
     j_eq (value_or_null current k) (value_or_null base k) \<and> \<not> j_eq (value_or_null current k) v"

lemma applicable_foldl:
  "om_ok m \<Longrightarrow> map_of (foldl (\<lambda>result (k, v). if replay_entry base current k v
       then om_put k v result else result) r m) k =
     (case map_of m k of Some v \<Rightarrow> if replay_entry base current k v then Some v else map_of r k
                       | None \<Rightarrow> map_of r k)"
proof (induction m arbitrary: r)
  case Nil
  then show ?case by simp
next
  case (Cons p m)
  then have "fst p \<notin> fst ` set m"
    by (cases p) (force simp: om_ok_Cons)
  then have "map_of m (fst p) = None" by (simp add: map_of_eq_None_iff)
  with Cons show ?case
    by (cases p) (auto simp: om_ok_Cons split: option.splits)
qed

lemma applicable_facts_at:
  "om_ok (changed d) \<Longrightarrow> map_of (applicable_facts current d) k =
     (case map_of (changed d) k of
        Some v \<Rightarrow> if replay_entry (baseline d) current k v then Some v else None
      | None \<Rightarrow> None)"
  using applicable_foldl [of "changed d" "baseline d" current "[]" k]
  by (auto simp: applicable_facts_def replay_entry_def split: option.splits)

lemma om_ok_replay:
  "om_ok r \<Longrightarrow> om_ok (foldl (\<lambda>r (k, v). if Q k v then om_put k v r else r) r m)"
proof (induction m arbitrary: r)
  case Nil
  then show ?case by simp
next
  case (Cons p m)
  then show ?case by (cases p) simp
qed

lemma om_ok_applicable: "om_ok (applicable_facts current d)"
  unfolding applicable_facts_def by (rule om_ok_replay) simp

lemma fl_eq_sym: "fl_eq a b = fl_eq b a"
  by (induction a b rule: fl_eq.induct) auto

lemma j_eq_sym:
  "j_eq a b = j_eq b a" "j_eq_list as bs = j_eq_list bs as" "j_eq_fields xs ys = j_eq_fields ys xs"
  by (induction a b and as bs and xs ys rule: j_eq_j_eq_list_j_eq_fields.induct)
     (auto simp: fl_eq_sym)

definition sr_observes :: "sr_event \<Rightarrow> bool" where
  "sr_observes e \<longleftrightarrow> (case e of SBegin _ \<Rightarrow> False | _ \<Rightarrow> True)"

lemma baseline_observes:
  "list_all sr_observes es \<Longrightarrow> baseline (fold sr_step es d) = baseline d"
proof (induction es arbitrary: d)
  case Nil
  then show ?case by simp
next
  case (Cons e es)
  have "baseline (sr_step e d) = baseline d"
    using Cons.prems
    by (cases e) (auto simp: sr_observes_def sr_step_def sr_observe_def observe_facts_def Let_def
        observe_intent_def try_bind_def split: sum.splits)
  with Cons show ?case by simp
qed

section \<open>Since the last save\<close>

text \<open>The value an event gives a fact, if it touches it: a remote update that changes it, or an intent.\<close>

definition touched :: "recovery_fact \<Rightarrow> sr_event \<Rightarrow> json option" where
  "touched k e = (case e of
       SObserve before after \<Rightarrow>
         (case (recovery_facts before, recovery_facts after) of
            (Inr previous, Inr current) \<Rightarrow>
              if j_eq (value_or_null previous k) (value_or_null current k) then None else Some (value_or_null current k)
          | _ \<Rightarrow> None)
     | SIntent key target \<Rightarrow> if key = k then Some target else None
     | SBegin saved \<Rightarrow> None)"

fun last_value :: "recovery_fact \<Rightarrow> sr_event list \<Rightarrow> json option" where
  "last_value k [] = None"
| "last_value k (e # es) = (case last_value k es of None \<Rightarrow> touched k e | Some v \<Rightarrow> Some v)"

lemma step_at:
  assumes "sr_observes e"
  shows "map_of (changed (sr_step e d)) k = (case touched k e of
       None \<Rightarrow> map_of (changed d) k
     | Some v \<Rightarrow> if j_eq v (value_or_null (baseline d) k) then None else Some v)"
proof (cases e)
  case (SObserve before after)
  then show ?thesis
    by (auto simp: sr_step_def sr_observe_def try_bind_def touched_def observe_records_difference split: sum.splits)
qed (use assms in \<open>auto simp: sr_observes_def sr_step_def observe_intent_def touched_def\<close>)

lemma run_at:
  "list_all sr_observes es \<Longrightarrow> map_of (changed (fold sr_step es d)) k = (case last_value k es of
       None \<Rightarrow> map_of (changed d) k
     | Some v \<Rightarrow> if j_eq v (value_or_null (baseline d) k) then None else Some v)"
proof (induction es arbitrary: d)
  case Nil
  then show ?case by simp
next
  case (Cons e es)
  have "baseline (sr_step e d) = baseline d" using baseline_observes [of "[e]" d] Cons.prems by simp
  with Cons show ?case by (auto simp: step_at split: option.splits)
qed

text \<open>
  C36: after a successful save, whatever remote updates and intents follow, loading a file replays a
  fact exactly when the last of them that touched it left it with another value than the saved one, and
  the file still has the saved value.  A fact that changed in the file since the save is never
  overwritten, an earlier save plays no part, and a fact that came back to its saved value is not
  replayed.
\<close>

theorem replay_never_overwrites:
  assumes "recovery_facts saved = Inr base" and "list_all sr_observes es" and "recovery_facts loaded = Inr current"
  shows "\<exists>replayed. applicable loaded (fold sr_step (SBegin saved # es) d) = Inr replayed \<and> om_ok replayed \<and>
    map_of replayed k = (case last_value k es of
       None \<Rightarrow> None
     | Some v \<Rightarrow> if \<not> j_eq v (value_or_null base k) \<and> j_eq (value_or_null current k) (value_or_null base k) \<and>
                     \<not> j_eq (value_or_null current k) v then Some v else None)"
proof -
  let ?init = "\<lparr>baseline = base, changed = []\<rparr>" and ?d = "fold sr_step (SBegin saved # es) d"
  have d: "?d = fold sr_step es ?init"
    using assms(1) by (simp add: sr_step_def sr_begin_def)
  have "journal_ok ?init" using recovery_facts_ok [OF assms(1)] by (simp add: journal_ok_def)
  then have ok: "om_ok (changed ?d)" unfolding d using journal.run_inv by (simp add: journal_ok_def)
  have base: "baseline ?d = base" unfolding d using baseline_observes [OF assms(2)] by simp
  have at_k: "map_of (changed ?d) k = (case last_value k es of
       None \<Rightarrow> None | Some v \<Rightarrow> if j_eq v (value_or_null base k) then None else Some v)"
    unfolding d run_at [OF assms(2)] by (simp split: option.split)
  have "map_of (applicable_facts current ?d) k = (case last_value k es of
       None \<Rightarrow> None
     | Some v \<Rightarrow> if \<not> j_eq v (value_or_null base k) \<and> j_eq (value_or_null current k) (value_or_null base k) \<and>
                     \<not> j_eq (value_or_null current k) v then Some v else None)"
    unfolding applicable_facts_at [OF ok] base replay_entry_def at_k by (auto split: option.splits)
  then show ?thesis using assms(3) om_ok_applicable [of current ?d] by (simp add: applicable_def)
qed

text \<open>Two updates and a second save between: only what follows the second save counts.\<close>

definition ex_save :: "nat \<Rightarrow> nat \<Rightarrow> json" where
  "ex_save rupees poes = JObj [(''poe_count'', JUInt poes), (''rupees'', JUInt rupees)]"

lemma replay_never_overwrites_witness:
  "\<exists>replayed. applicable (ex_save 7 3) (fold sr_step
      [SBegin (ex_save 7 2), SObserve (ex_save 7 2) (ex_save 9 2)] (sr_step (SBegin (ex_save 5 2)) sr_start)) = Inr replayed \<and>
    map_of replayed (Fact ''rupees'' (-1) (-1)) = Some (JUInt 9)"
proof -
  have f: "recovery_facts (ex_save r p) = Inr [(Fact ''poe_count'' (-1) (-1), JUInt p), (Fact ''rupees'' (-1) (-1), JUInt r)]" for r p
    by (simp add: recovery_facts_def ex_save_def fact_sets_def stage_sets_def indexed_fields_def value_fields_def
        array_field_def value_fact_def less_recovery_fact_def fact_tuple_def)
  show ?thesis
    using replay_never_overwrites [where es = "[SObserve (ex_save 7 2) (ex_save 9 2)]"
        and d = "sr_step (SBegin (ex_save 5 2)) sr_start" and k = "Fact ''rupees'' (-1) (-1)", OF f [of 7 2] _ f [of 7 3]]
    by (auto simp: sr_observes_def touched_def f value_or_null_def om_get_def)
qed

text \<open>
  loading the very file that was saved replays the whole journal recorded since: nothing the
  player received after the save is lost.  (The saved values equal themselves: the file holds no
  NaN.)
\<close>

theorem reload_replays_journal:
  assumes saved: "recovery_facts saved = Inr base"
    and self: "\<forall>(k, v) \<in> set base. j_eq v v"
    and es: "list_all sr_observes es"
  shows "applicable saved (fold sr_step (SBegin saved # es) d) =
     Inr (changed (fold sr_step (SBegin saved # es) d))"
proof -
  let ?init = "\<lparr>baseline = base, changed = []\<rparr>" and ?d = "fold sr_step (SBegin saved # es) d"
  have d: "?d = fold sr_step es ?init"
    using saved by (simp add: sr_step_def sr_begin_def)
  have "journal_ok ?init" using recovery_facts_ok [OF saved] by (simp add: journal_ok_def)
  then have ok: "journal_ok ?d" unfolding d by (rule journal.run_inv)
  have base: "baseline ?d = base" unfolding d using baseline_observes [OF es] by simp
  have refl: "j_eq (value_or_null base k) (value_or_null base k)" for k
    using self by (auto simp: value_or_null_def om_get_def dest: map_of_SomeD split: option.splits)
  have entry: "replay_entry base base k v" if "map_of (changed ?d) k = Some v" for k v
    using ok map_of_SomeD [OF that] refl [of k]
    unfolding journal_ok_def base replay_entry_def by (auto simp: j_eq_sym(1))
  have "map_of (applicable_facts base ?d) = map_of (changed ?d)"
  proof
    fix k
    show "map_of (applicable_facts base ?d) k = map_of (changed ?d) k"
      using applicable_facts_at [of ?d base k] ok base entry
      by (auto simp: journal_ok_def split: option.splits)
  qed
  then have "applicable_facts base ?d = changed ?d"
    using ok by (intro om_eqI om_ok_applicable) (auto simp: journal_ok_def)
  then show ?thesis using saved by (simp add: applicable_def)
qed

lemma reload_replays_journal_witness:
  "applicable (JObj [(''rupees'', JUInt 5)])
     (fold sr_step [SBegin (JObj [(''rupees'', JUInt 5)]),
        SObserve (JObj [(''rupees'', JUInt 5)]) (JObj [(''rupees'', JUInt 9)])] sr_start) =
   Inr [(Fact ''rupees'' (-1) (-1), JUInt 9)]"
proof -
  let ?f = "\<lambda>n. recovery_facts (JObj [(''rupees'', JUInt n)])"
  have 1: "?f 5 = Inr [(Fact ''rupees'' (-1) (-1), JUInt 5)]" by code_simp
  have 2: "changed (fold sr_step [SBegin (JObj [(''rupees'', JUInt 5)]),
        SObserve (JObj [(''rupees'', JUInt 5)]) (JObj [(''rupees'', JUInt 9)])] sr_start) =
      [(Fact ''rupees'' (-1) (-1), JUInt 9)]"
    by code_simp
  show ?thesis
    using reload_replays_journal [OF 1, of "[SObserve (JObj [(''rupees'', JUInt 5)])
      (JObj [(''rupees'', JUInt 9)])]" sr_start] 2
    by (simp add: sr_observes_def)
qed

end
