(* ===== verification/Item_Sync.thy ===== *)
theory Item_Sync
  imports Interfaces Json_Value
begin

text \<open>
  The rules for shared pickups and counters, one section per header under
  \<open>include/dusklight_online/game/\<close>: pickups and wallet (\<open>pickup_sync.hpp\<close>), cave maps
  (\<open>cave_map_sync.hpp\<close>), bottles (\<open>bottle_sync.hpp\<close>), bomb bags (\<open>bomb_bag_sync.hpp\<close>), Poe souls
  (\<open>poe_sync.hpp\<close>) and the trade quest (\<open>trade_item_sync.hpp\<close>).  A C++ \<open>int\<close> is an integer here: the
  counters are bounded by the checks around these calls, far below \<open>2 ^ 31\<close>.
\<close>

section \<open>Pickups and the wallet\<close>

definition starts_with :: "string \<Rightarrow> string \<Rightarrow> bool" where
  "starts_with p s \<longleftrightarrow> take (length p) s = p"

definition ends_with :: "string \<Rightarrow> string \<Rightarrow> bool" where
  "ends_with p s \<longleftrightarrow> length p \<le> length s \<and> drop (length s - length p) s = p"

definition repeatable_pickup_check :: "string \<Rightarrow> bool" where
  "repeatable_pickup_check name \<longleftrightarrow> starts_with ''freestanding:'' name \<and> ends_with '':255'' name"

definition local_only_randomizer_pickup :: "int \<Rightarrow> string \<Rightarrow> bool" where
  "local_only_randomizer_pickup item check =
     (if check \<noteq> [] \<and> \<not> repeatable_pickup_check check then False
      else item = 0 \<or> (item \<ge> 0x0a \<and> item \<le> 0x12) \<or> (item \<ge> 0x16 \<and> item \<le> 0x1d))"

definition rupee_pickup_amount :: "int \<Rightarrow> int" where
  "rupee_pickup_amount item =
     (if item \<ge> 1 \<and> item \<le> 7 then [0, 1, 5, 10, 20, 50, 100, 200] ! nat item else 0)"

datatype wallet_action = Reject | Coalesce | Apply

definition remote_pickup_requires_grant :: "int \<Rightarrow> bool" where
  "remote_pickup_requires_grant item \<longleftrightarrow> item \<ge> 0 \<and> item < 255 \<and> rupee_pickup_amount item = 0"

definition clamp :: "int \<Rightarrow> int \<Rightarrow> int \<Rightarrow> int" where
  "clamp v low high = (if v < low then low else if high < v then high else v)"

definition wallet_total_action :: "int \<Rightarrow> int \<Rightarrow> int \<Rightarrow> int \<Rightarrow> wallet_action" where
  "wallet_total_action v current pending maximum =
     (if v < 0 \<or> v > maximum then Reject
      else let projected = clamp (current + pending) 0 maximum
      in if pending \<noteq> 0 \<and> v = projected then Coalesce else Apply)"

section \<open>Cave maps\<close>

definition faron_cave_flags :: "int list" where
  "faron_cave_flags = [0x33, 0x34, 0x35, 0x36, 0x37, 0x38, 0x43, 0x46, 0x4F, 0x50, 0x51, 0x52,
     0x53, 0x54, 0x55, 0x56, 0x57, 0x59, 0x7B]"

definition is_cave_map_reveal ::
  "bool \<Rightarrow> string \<Rightarrow> int \<Rightarrow> int \<Rightarrow> int \<Rightarrow> u32 \<Rightarrow> int \<Rightarrow> bool \<Rightarrow> bool \<Rightarrow> bool" where
  "is_cave_map_reveal areaSwitch stageName stage room flag params angleX wasSet isSet =
     (if \<not> areaSwitch \<or> wasSet \<or> \<not> isSet \<or> room \<noteq> 0 then False
      else if stageName = ''D_SB10'' \<and> stage = 2 \<and> angleX = 0x01FF \<and>
              params = 0xFF00FF00 OR word_of_int flag
      then flag \<in> set faron_cave_flags
      else if angleX \<noteq> 0x0FFF \<or> params \<noteq> 0xFF10FF00 OR word_of_int flag then False
      else (stageName = ''D_SB02'' \<and> stage = 25 \<and> flag \<ge> 0x64 \<and> flag \<le> 0x7E) \<or>
           (stageName = ''D_SB03'' \<and> stage = 26 \<and> flag \<ge> 0x01 \<and> flag \<le> 0x29))"

section \<open>Bottles and bomb bags\<close>

definition merged_bottle_count :: "int \<Rightarrow> int \<Rightarrow> nat \<Rightarrow> int" where
  "merged_bottle_count locally remote sourceCount =
     clamp (max (max locally remote) (wrap_int 32 (int sourceCount))) 0 4"

definition bottle_sources_exact :: "bool \<Rightarrow> nat \<Rightarrow> int \<Rightarrow> bool" where
  "bottle_sources_exact trusted sources bottles \<longleftrightarrow> trusted \<and> wrap_int 32 (int sources) = bottles"

definition should_publish_bomb_bag ::
  "bool \<Rightarrow> bool \<Rightarrow> bool \<Rightarrow> int \<Rightarrow> int \<Rightarrow> bool \<Rightarrow> int \<Rightarrow> int \<Rightarrow> bool" where
  "should_publish_bomb_bag randomizer syncable rental item count previousRental previousItem
      previousCount \<longleftrightarrow>
     \<not> randomizer \<and> syncable \<and> \<not> rental \<and> count > 0 \<and>
     (previousRental \<or> previousItem \<noteq> item \<or> previousCount = 0)"

definition save_warp_bag_candidate ::
  "bool \<Rightarrow> bool \<Rightarrow> int \<Rightarrow> int \<Rightarrow> int \<Rightarrow> int \<Rightarrow> bool" where
  "save_warp_bag_candidate randomizer syncable bag previousItem emptyItem count \<longleftrightarrow>
     \<not> randomizer \<and> syncable \<and> bag \<ge> 0 \<and> bag < 3 \<and> previousItem = emptyItem \<and>
     count > 0 \<and> count \<le> 99"

definition save_warp_bag_converted ::
  "bool \<Rightarrow> bool \<Rightarrow> int \<Rightarrow> int \<Rightarrow> int \<Rightarrow> int \<Rightarrow> int \<Rightarrow> bool" where
  "save_warp_bag_converted randomizer syncable bag savedItem rentalBag loadedItem loadedCount \<longleftrightarrow>
     \<not> randomizer \<and> syncable \<and> bag \<ge> 0 \<and> bag < 3 \<and> rentalBag \<noteq> bag \<and>
     loadedItem = savedItem \<and> loadedCount > 0 \<and> loadedCount \<le> 99"

section \<open>Poe souls\<close>

record poe_pickup =
  poe_previous :: int
  poe_value :: int
  poe_sequence :: u32

text \<open>The sequence counter is the reference parameter: the new counter is returned.\<close>

definition local_poe_pickup ::
  "int \<Rightarrow> int \<Rightarrow> bool \<Rightarrow> bool \<Rightarrow> u32 \<Rightarrow> int \<Rightarrow> poe_pickup option \<times> u32" where
  "local_poe_pickup previous v remote randomizer sequence maximum =
     (if remote \<or> randomizer \<or> previous < 0 \<or> v \<le> previous \<or> v > maximum then (None, sequence)
      else let s = sequence + 1; s' = (if s = 0 then s + 1 else s)
      in (Some \<lparr>poe_previous = previous, poe_value = v, poe_sequence = s'\<rparr>, s'))"

definition merge_poe_pickup :: "int \<Rightarrow> poe_pickup \<Rightarrow> int \<Rightarrow> int" where
  "merge_poe_pickup current pickup maximum =
     (if poe_sequence pickup \<noteq> 0 \<and> poe_previous pickup \<ge> 0 \<and> current > poe_previous pickup
      then min (current + (poe_value pickup - poe_previous pickup)) maximum
      else max current (poe_value pickup))"

section \<open>The trade quest\<close>

definition kNone :: int where "kNone = 0xFF"
definition kFirst :: int where "kFirst = 0x80"
definition kLast :: int where "kLast = 0x84"
definition kLastPhase :: int where "kLastPhase = (kLast - kFirst) * 2 + 1"

definition item_phase :: "int \<Rightarrow> int" where
  "item_phase item = (if item \<ge> kFirst \<and> item \<le> kLast then (item - kFirst) * 2 else -1)"

definition phase_for_change :: "int \<Rightarrow> int \<Rightarrow> int" where
  "phase_for_change previous current =
     (if item_phase current \<ge> 0 then item_phase current
      else if current = kNone \<and> item_phase previous \<ge> 0 then item_phase previous + 1
      else -1)"

definition item_for_phase :: "int \<Rightarrow> int" where
  "item_for_phase phase =
     (if phase \<ge> 0 \<and> phase \<le> kLastPhase \<and> phase mod 2 = 0 then kFirst + phase div 2 else kNone)"

definition valid_state :: "int \<Rightarrow> int \<Rightarrow> bool" where
  "valid_state phase item \<longleftrightarrow> phase \<ge> 0 \<and> phase \<le> kLastPhase \<and> item = item_for_phase phase"

definition should_apply :: "int \<Rightarrow> int \<Rightarrow> bool" where
  "should_apply localPhase remotePhase \<longleftrightarrow> remotePhase \<ge> localPhase"

lemmas trade_consts = kNone_def kFirst_def kLast_def kLastPhase_def

section \<open>Correctness\<close>

text \<open>The phase a player ends with once the accepted remote transitions are applied.\<close>

definition trade_advance :: "int \<Rightarrow> int \<Rightarrow> int" where
  "trade_advance remotePhase localPhase =
     (if should_apply localPhase remotePhase then remotePhase else localPhase)"

interpretation trade_merge: convergent_merge trade_advance "\<lambda>_. True"
  by unfold_locales (auto simp: trade_advance_def should_apply_def)

interpretation bottle_merge: convergent_merge "\<lambda>a b. merged_bottle_count a b n" "\<lambda>c. c \<in> {0..4} \<and> wrap_int 32 (int n) \<le> c"
  for n
  by unfold_locales (auto simp: merged_bottle_count_def clamp_def max_def)

lemma trade_advance_upper: "x \<in> set (p # phases) \<Longrightarrow> x \<le> fold trade_advance phases p"
proof (induction phases arbitrary: x p)
  case Nil
  then show ?case by simp
next
  case (Cons y phases)
  let ?q = "trade_advance y p"
  have "p \<le> ?q" "y \<le> ?q" by (auto simp: trade_advance_def should_apply_def)
  moreover have "?q \<le> fold trade_advance phases ?q" by (rule Cons.IH) simp
  ultimately show ?case using Cons.prems Cons.IH [of x ?q] by auto
qed

lemma phase_for_change_valid:
  "phase_for_change previous current \<ge> 0 \<Longrightarrow> valid_state (phase_for_change previous current) current"
  by (auto simp: phase_for_change_def valid_state_def item_for_phase_def item_phase_def
      trade_consts split: if_splits)

text \<open>
  the trade quest only moves forward.  A change of the shared slot that is published carries
  a state every receiver accepts, for the very item now in the slot, and however such transitions
  are delivered, the phase a player ends with is at least his own and every delivered one.
\<close>

theorem trade_publish_accepted:
  assumes "phase_for_change previous current \<ge> 0"
  shows "valid_state (phase_for_change previous current) current \<and>
    (\<forall>x \<in> set (p # phases). x \<le> fold trade_advance phases p)"
  using assms phase_for_change_valid trade_advance_upper by blast

lemma trade_publish_accepted_witness:
  "valid_state (phase_for_change 0x82 0xFF) 0xFF \<and> 5 \<le> fold trade_advance [5, 2] 3"
proof -
  have 1: "phase_for_change 0x82 0xFF \<ge> 0" by code_simp
  show ?thesis using trade_publish_accepted [OF 1, of 3 "[5, 2]"] by simp
qed

text \<open>
  two players who pick up Poe souls from the same shared count at the same time both end with
  the sum of the two pickups: neither is lost, and the maximum is respected.
\<close>

theorem concurrent_poe_pickups:
  assumes "local_poe_pickup base a False False s maximum = (Some p, s')"
    and "local_poe_pickup base b False False t maximum = (Some q, t')"
  shows "merge_poe_pickup a q maximum = min (a + b - base) maximum \<and>
    merge_poe_pickup b p maximum = min (a + b - base) maximum \<and> poe_sequence p \<noteq> 0"
proof -
  have nz: "(if x + 1 = 0 then x + 1 + 1 else x + 1) \<noteq> 0" for x :: u32 by auto
  have p: "p = \<lparr>poe_previous = base, poe_value = a, poe_sequence = s'\<rparr>" "s' \<noteq> 0" "base < a" "0 \<le> base"
    using assms(1) nz [of s] by (auto simp: local_poe_pickup_def Let_def split: if_splits)
  have q: "q = \<lparr>poe_previous = base, poe_value = b, poe_sequence = t'\<rparr>" "t' \<noteq> 0" "base < b"
    using assms(2) nz [of t] by (auto simp: local_poe_pickup_def Let_def split: if_splits)
  show ?thesis
    using p q by (auto simp: merge_poe_pickup_def algebra_simps)
qed

lemma concurrent_poe_pickups_witness:
  "merge_poe_pickup 21 \<lparr>poe_previous = 20, poe_value = 22, poe_sequence = 1\<rparr> 60 = 23"
  using concurrent_poe_pickups [of 20 21 "- 1" 60 "\<lparr>poe_previous = 20, poe_value = 21, poe_sequence = 1\<rparr>" 1
      22 0 "\<lparr>poe_previous = 20, poe_value = 22, poe_sequence = 1\<rparr>" 1]
  by (simp add: local_poe_pickup_def)

end
