(* ===== verification/Presentation.thy ===== *)
theory Presentation
  imports Interfaces
begin

text \<open>
  Presentation of remote players, one section per header under
  \<open>include/dusklight_online/game/\<close>: looping sounds (\<open>audio_lifetime.hpp\<close>), particle owners
  (\<open>particle_depth.hpp\<close>), visibility during events (\<open>remote_visibility.hpp\<close>), wet clothes
  (\<open>wet_state.hpp\<close>) and the pose jitter buffer (\<open>pose_playback.hpp\<close>).
\<close>

section \<open>Sounds\<close>

record audio_event =
  au_tracked :: bool
  au_soundId :: u32
  au_sequence :: u32

record audio_tracker =
  au_instances :: "u32 list"
  au_lastSequence :: u32

record audio_changes =
  au_stop :: "bool list"
  au_start :: "int list"

definition audio_initial :: audio_tracker where
  "audio_initial = \<lparr>au_instances = replicate 8 0, au_lastSequence = 0\<rparr>"

text \<open>\<open>std::find\<close> on the slots: the index of the first match.\<close>

fun find_index :: "('a \<Rightarrow> bool) \<Rightarrow> 'a list \<Rightarrow> nat option" where
  "find_index P [] = None"
| "find_index P (x # xs) = (if P x then Some 0 else map_option Suc (find_index P xs))"

definition audio_present :: "audio_event list \<Rightarrow> u32 \<Rightarrow> bool" where
  "audio_present events i \<longleftrightarrow> list_ex (\<lambda>e. au_tracked e \<and> au_sequence e = i) events"

definition audio_gone :: "audio_event list \<Rightarrow> u32 \<Rightarrow> bool" where
  "audio_gone events i \<longleftrightarrow> i \<noteq> 0 \<and> \<not> audio_present events i"

definition audio_admit ::
  "u32 \<Rightarrow> nat \<times> audio_event \<Rightarrow> audio_tracker \<times> int list \<Rightarrow> audio_tracker \<times> int list" where
  "audio_admit previousSequence p st = (case p of (index, e) \<Rightarrow> case st of (t, start) \<Rightarrow>
     if \<not> au_tracked e \<or> au_soundId e = 0 \<or> au_sequence e = 0 then (t, start)
     else
       let t' = t\<lparr>au_lastSequence := max (au_lastSequence t) (au_sequence e)\<rparr> in
       if au_sequence e \<le> previousSequence \<or> au_sequence e \<in> set (au_instances t') then (t', start)
       else (case find_index (\<lambda>i. i = 0) (au_instances t') of
         None \<Rightarrow> (t', start)
       | Some slot \<Rightarrow> (t'\<lparr>au_instances := (au_instances t')[slot := au_sequence e]\<rparr>,
                       start[slot := int index])))"

definition audio_update :: "audio_event list \<Rightarrow> audio_tracker \<Rightarrow> audio_changes \<times> audio_tracker" where
  "audio_update events t =
     (let stops = map (audio_gone events) (au_instances t);
          t1 = t\<lparr>au_instances := map (\<lambda>i. if audio_gone events i then 0 else i) (au_instances t)\<rparr>;
          (t2, start) = fold (audio_admit (au_lastSequence t)) (enumerate 0 events)
                          (t1, replicate 8 (- 1))
      in (\<lparr>au_stop = stops, au_start = start\<rparr>, t2))"

definition audio_clear :: "audio_tracker \<Rightarrow> audio_tracker" where
  "audio_clear t = t\<lparr>au_instances := replicate 8 0\<rparr>"

text \<open>The instances whose playback a report of changes starts, and those of a whole history.\<close>

definition audio_started :: "audio_event list \<Rightarrow> audio_changes \<Rightarrow> u32 list" where
  "audio_started events c =
     map (\<lambda>k. au_sequence (events ! nat (au_start c ! k)))
       (filter (\<lambda>k. au_start c ! k \<ge> 0) [0..<8])"

datatype audio_op = AUpdate "audio_event list" | AClear

fun audio_plays :: "audio_op list \<Rightarrow> audio_tracker \<Rightarrow> u32 list" where
  "audio_plays [] t = []"
| "audio_plays (AUpdate events # ops) t =
     (case audio_update events t of (c, t') \<Rightarrow> audio_started events c @ audio_plays ops t')"
| "audio_plays (AClear # ops) t = audio_plays ops (audio_clear t)"

lemma find_index_Some: "find_index P xs = Some k \<Longrightarrow> k < length xs \<and> P (xs ! k)"
  by (induction xs arbitrary: k) (auto split: if_splits)

text \<open>
  What holds while an update walks its events: a started slot holds its event's sequence number,
  which is new, and no two started slots hold the same one.
\<close>

definition audio_walk :: "audio_event list \<Rightarrow> u32 \<Rightarrow> audio_tracker \<Rightarrow> int list \<Rightarrow> bool" where
  "audio_walk events prev t start \<longleftrightarrow>
     length (au_instances t) = 8 \<and> length start = 8 \<and> prev \<le> au_lastSequence t \<and>
     (\<forall>k < 8. start ! k \<ge> 0 \<longrightarrow> nat (start ! k) < length events \<and>
        au_instances t ! k = au_sequence (events ! nat (start ! k)) \<and> au_instances t ! k \<noteq> 0 \<and>
        prev < au_instances t ! k \<and> au_instances t ! k \<le> au_lastSequence t) \<and>
     (\<forall>j < 8. \<forall>k < 8. start ! j \<ge> 0 \<longrightarrow> start ! k \<ge> 0 \<longrightarrow> j \<noteq> k \<longrightarrow>
        au_instances t ! j \<noteq> au_instances t ! k)"

lemma audio_walk_last:
  "audio_walk events prev t start \<Longrightarrow>
   audio_walk events prev (t\<lparr>au_lastSequence := max (au_lastSequence t) s\<rparr>) start"
  by (auto simp: audio_walk_def le_max_iff_disj)

lemma audio_walk_start:
  assumes w: "audio_walk events prev t start" and e: "index < length events"
    and new: "prev < au_sequence (events ! index)"
      "au_sequence (events ! index) \<notin> set (au_instances t)"
      "au_sequence (events ! index) \<le> au_lastSequence t"
      "au_sequence (events ! index) \<noteq> 0"
    and slot: "slot < 8"
  shows "audio_walk events prev
     (t\<lparr>au_instances := (au_instances t)[slot := au_sequence (events ! index)]\<rparr>)
     (start[slot := int index])"
proof -
  have len: "length (au_instances t) = 8" "length start = 8" using w by (auto simp: audio_walk_def)
  have "au_instances t ! k \<noteq> au_sequence (events ! index)" if "k < 8" for k
    using new(2) that len(1) by (metis nth_mem)
  with w e new slot len show ?thesis
    by (auto simp: audio_walk_def nth_list_update)
qed

lemma audio_walk_admit:
  assumes w: "audio_walk events prev t start" and e: "index < length events"
  shows "case audio_admit prev (index, events ! index) (t, start) of (t', start') \<Rightarrow>
    audio_walk events prev t' start'"
proof -
  let ?e = "events ! index" and ?t = "t\<lparr>au_lastSequence := max (au_lastSequence t) (au_sequence (events ! index))\<rparr>"
  have w': "audio_walk events prev ?t start" by (rule audio_walk_last [OF w])
  show ?thesis
  proof (cases "\<not> au_tracked ?e \<or> au_soundId ?e = 0 \<or> au_sequence ?e = 0 \<or> au_sequence ?e \<le> prev \<or>
      au_sequence ?e \<in> set (au_instances t) \<or> find_index (\<lambda>i. i = 0) (au_instances t) = None")
    case True
    with w w' show ?thesis by (auto simp: audio_admit_def Let_def split: option.splits)
  next
    case False
    then obtain slot where s: "find_index (\<lambda>i. i = 0) (au_instances t) = Some slot" by auto
    then have "slot < 8" using find_index_Some [OF s] w by (simp add: audio_walk_def)
    with False s audio_walk_start [OF w' e, of slot] show ?thesis
      by (auto simp: audio_admit_def Let_def)
  qed
qed

lemma audio_walk_fold:
  assumes "audio_walk events prev t start"
    and "fold (audio_admit prev) ps (t, start) = (t', start')"
    and "\<forall>(i, e) \<in> set ps. i < length events \<and> e = events ! i"
  shows "audio_walk events prev t' start'"
  using assms
proof (induction ps arbitrary: t start)
  case Nil
  then show ?case by simp
next
  case (Cons p ps)
  obtain i e where p: "p = (i, e)" by fastforce
  obtain t1 start1 where s: "audio_admit prev p (t, start) = (t1, start1)" by fastforce
  have "audio_walk events prev t1 start1"
    using audio_walk_admit [OF Cons.prems(1), of i] Cons.prems(3) s p by auto
  then show ?case using Cons s by auto
qed

lemma audio_update_walk:
  assumes "audio_update events t = (c, t')" and "length (au_instances t) = 8"
  shows "audio_walk events (au_lastSequence t) t' (au_start c)"
proof -
  let ?t1 = "t\<lparr>au_instances := map (\<lambda>i. if audio_gone events i then 0 else i) (au_instances t)\<rparr>"
  have "audio_walk events (au_lastSequence t) ?t1 (replicate 8 (- 1))"
    using assms(2) by (auto simp: audio_walk_def)
  moreover obtain t2 start where
    f: "fold (audio_admit (au_lastSequence t)) (enumerate 0 events) (?t1, replicate 8 (- 1)) = (t2, start)"
    by fastforce
  moreover have "\<forall>(i, e) \<in> set (enumerate 0 events). i < length events \<and> e = events ! i"
    by (auto simp: in_set_enumerate_eq)
  ultimately have "audio_walk events (au_lastSequence t) t2 start" by (rule audio_walk_fold)
  then show ?thesis using assms(1) f by (auto simp: audio_update_def)
qed

lemma audio_started_new:
  assumes "audio_walk events prev t (au_start c)"
  shows "distinct (audio_started events c) \<and>
    (\<forall>s \<in> set (audio_started events c). prev < s \<and> s \<le> au_lastSequence t)"
proof -
  have eq: "au_sequence (events ! nat (au_start c ! k)) = au_instances t ! k"
    if "k < 8" "au_start c ! k \<ge> 0" for k
    using assms that by (auto simp: audio_walk_def)
  have "distinct (audio_started events c)"
    unfolding audio_started_def distinct_map
    using assms by (auto simp: inj_on_def eq audio_walk_def)
  moreover have "prev < s \<and> s \<le> au_lastSequence t" if "s \<in> set (audio_started events c)" for s
    using that assms by (auto simp: audio_started_def eq audio_walk_def)
  ultimately show ?thesis by blast
qed

lemma audio_plays_new:
  "length (au_instances t) = 8 \<Longrightarrow>
   distinct (audio_plays ops t) \<and> (\<forall>s \<in> set (audio_plays ops t). au_lastSequence t < s)"
proof (induction ops t rule: audio_plays.induct)
  case (1 t)
  then show ?case by simp
next
  case (2 events ops t)
  obtain c t' where u: "audio_update events t = (c, t')" by fastforce
  have w: "audio_walk events (au_lastSequence t) t' (au_start c)"
    by (rule audio_update_walk [OF u "2.prems"])
  then have len: "length (au_instances t') = 8" and le: "au_lastSequence t \<le> au_lastSequence t'"
    by (auto simp: audio_walk_def)
  show ?case
    using "2.IH" [OF u [symmetric] len] audio_started_new [OF w] le u by fastforce
next
  case (3 ops t)
  then show ?case by (simp add: audio_clear_def)
qed

text \<open>
  C37: whatever snapshots of active sounds a peer sends, and however often its puppet is hidden in
  between, no sound instance is started twice.
\<close>

theorem audio_never_replays: "distinct (audio_plays ops audio_initial)"
  using audio_plays_new [of audio_initial ops] by (simp add: audio_initial_def)

section \<open>Particle owners\<close>

text \<open>\<open>resolve\<close> maps a handle to the emitter that is alive under it; no null pointer is an emitter.\<close>

definition owners_contains ::
  "'e option \<Rightarrow> (u32 \<Rightarrow> 'e option) \<Rightarrow> u32 list \<Rightarrow> bool \<times> u32 list" where
  "owners_contains emitter resolve ids =
     (list_ex (\<lambda>i. resolve i \<noteq> None \<and> emitter \<noteq> None \<and> resolve i = emitter) ids,
      filter (\<lambda>i. resolve i \<noteq> None) ids)"

definition owners_add :: "u32 \<Rightarrow> (u32 \<Rightarrow> 'e option) \<Rightarrow> u32 list \<Rightarrow> u32 list" where
  "owners_add i resolve ids =
     (let ids' = snd (owners_contains None resolve ids)
      in if i \<noteq> 0 \<and> resolve i \<noteq> None then os_insert i ids' else ids')"

lemma owners_contains_live:
  "owners_contains (Some e) resolve ids = (found, ids') \<Longrightarrow>
   (found \<longleftrightarrow> (\<exists>i \<in> set ids'. resolve i = Some e)) \<and> (\<forall>i \<in> set ids'. resolve i \<noteq> None)"
  by (auto simp: owners_contains_def list_ex_iff)

lemma owners_add_live: "\<forall>i \<in> set (owners_add i resolve ids). resolve i \<noteq> None"
  by (auto simp: owners_add_def owners_contains_def Let_def)

section \<open>Visibility during events\<close>

definition remote_link_transition_hidden :: "bool \<Rightarrow> bool \<Rightarrow> bool \<Rightarrow> bool" where
  "remote_link_transition_hidden nextStageRequested overlapPeek loadExit \<longleftrightarrow>
     overlapPeek \<or> (nextStageRequested \<and> \<not> loadExit)"

definition remote_link_scene_hidden :: "bool \<Rightarrow> bool \<Rightarrow> bool \<Rightarrow> bool \<Rightarrow> bool \<Rightarrow> bool \<Rightarrow> bool" where
  "remote_link_scene_hidden sceneChanging eventRunning talking loadEntrance eventPresentation
      allowedEventCleanup \<longleftrightarrow>
     sceneChanging \<or> (eventRunning \<and> \<not> allowedEventCleanup \<and> \<not> talking \<and> \<not> loadEntrance \<and>
                      \<not> eventPresentation)"

record event_visibility =
  allowedEvent :: bool
  allowedEventId :: int
  eventLatched :: bool

definition ev_reset :: event_visibility where
  "ev_reset = \<lparr>allowedEvent = False, allowedEventId = -1, eventLatched = False\<rparr>"

record event_frame =
  sceneChanging :: bool
  eventRunning :: bool
  eventOrderOK :: bool
  evTalking :: bool
  evLoadEntrance :: bool
  eventPresentation :: bool
  eventId :: int

definition ev_hidden :: "event_frame \<Rightarrow> event_visibility \<Rightarrow> bool \<times> event_visibility" where
  "ev_hidden f v =
     (if sceneChanging f \<or> \<not> eventRunning f then (sceneChanging f, ev_reset)
      else
        let v1 = (if eventLatched v \<and> allowedEventId v \<ge> 0 \<and> eventId f \<ge> 0 \<and>
                     allowedEventId v \<noteq> eventId f then ev_reset else v);
            v2 = (if eventPresentation f then
                    (if eventId f \<ge> 0
                     then v1\<lparr>allowedEvent := True, eventLatched := True, allowedEventId := eventId f\<rparr>
                     else v1\<lparr>allowedEvent := True\<rparr>)
                  else if eventLatched v1 then v1\<lparr>allowedEvent := True\<rparr>
                  else if \<not> eventOrderOK f then
                    v1\<lparr>allowedEvent := \<not> remote_link_scene_hidden False True (evTalking f)
                                            (evLoadEntrance f) False False\<rparr>
                  else v1)
        in (\<not> allowedEvent v2, v2))"

text \<open>The latch always names the event that set it, and an event that latched is allowed.\<close>

definition ev_ok :: "event_visibility \<Rightarrow> bool" where
  "ev_ok v \<longleftrightarrow> (eventLatched v \<longrightarrow> allowedEvent v \<and> allowedEventId v \<ge> 0) \<and>
              (\<not> eventLatched v \<longrightarrow> allowedEventId v = -1)"

interpretation visibility: invariant_machine "\<lambda>f v. snd (ev_hidden f v)" ev_ok ev_reset
  by unfold_locales (auto simp: ev_ok_def ev_reset_def ev_hidden_def Let_def)

text \<open>
  in every history of frames, a remote player whose event runs with no order-OK, no talk, no
  entrance and no presentation marker is shown only if an earlier presentation marker of this very
  event (or of an event whose identity is unknown now) latched the exception.
\<close>

theorem event_exception_not_inherited:
  assumes "sceneChanging f = False" "eventRunning f" "\<not> eventOrderOK f" "\<not> evTalking f"
    "\<not> evLoadEntrance f" "\<not> eventPresentation f"
    and v: "v = fold (\<lambda>f v. snd (ev_hidden f v)) frames ev_reset"
    and shown: "\<not> fst (ev_hidden f v)"
  shows "eventLatched v \<and> (eventId f \<ge> 0 \<longrightarrow> allowedEventId v = eventId f)"
proof -
  have "ev_ok v" unfolding v by (rule visibility.reachable_inv)
  with assms(1-6) shown show ?thesis
    by (auto simp: ev_hidden_def ev_ok_def ev_reset_def Let_def remote_link_scene_hidden_def
        split: if_splits)
qed

definition ev_frame0 :: event_frame where
  "ev_frame0 = \<lparr>sceneChanging = False, eventRunning = True, eventOrderOK = False, evTalking = False,
     evLoadEntrance = False, eventPresentation = False, eventId = 7\<rparr>"

lemma event_exception_not_inherited_witness:
  "allowedEventId (fold (\<lambda>f v. snd (ev_hidden f v)) [ev_frame0\<lparr>eventPresentation := True\<rparr>] ev_reset) = 7"
proof -
  have shown: "\<not> fst (ev_hidden ev_frame0
      (fold (\<lambda>f v. snd (ev_hidden f v)) [ev_frame0\<lparr>eventPresentation := True\<rparr>] ev_reset))"
    by code_simp
  show ?thesis
    using event_exception_not_inherited [of ev_frame0, OF _ _ _ _ _ _ refl shown]
    by (simp add: ev_frame0_def)
qed

section \<open>Wet clothes\<close>

record wet_state =
  wet_timer :: int
  wet_fade :: int

definition wet_tick :: "wet_state \<Rightarrow> wet_state" where
  "wet_tick s =
     (let t = (if wet_timer s > 0 then wet_timer s - 1 else wet_timer s)
      in \<lparr>wet_timer = t,
          wet_fade = (if t \<noteq> 0 then max (-20) (wet_fade s - 2) else min 0 (wet_fade s + 1))\<rparr>)"

definition advance_wet_state :: "wet_state \<Rightarrow> u32 \<Rightarrow> wet_state" where
  "advance_wet_state s ticks = (wet_tick ^^ unat (min ticks 170)) s"

definition wet_ok :: "wet_state \<Rightarrow> bool" where
  "wet_ok s \<longleftrightarrow> -1 \<le> wet_timer s \<and> wet_timer s \<le> 150 \<and> -20 \<le> wet_fade s \<and> wet_fade s \<le> 0"

lemma wet_ok_tick [inv_intros]: "wet_ok s \<Longrightarrow> wet_ok (wet_tick s)"
  by (auto simp: wet_ok_def wet_tick_def Let_def)

lemma wet_ok_ticks: "wet_ok s \<Longrightarrow> wet_ok ((wet_tick ^^ n) s)"
  by (induction n) (auto intro: inv_intros)

lemma wet_timer_ticks:
  "wet_ok s \<Longrightarrow> wet_timer ((wet_tick ^^ n) s) =
     (if wet_timer s < 0 then -1 else max 0 (wet_timer s - int n))"
  by (induction n) (auto simp: wet_ok_def wet_tick_def Let_def)

lemma wet_dries:
  "wet_timer s = 0 \<Longrightarrow> wet_fade s \<le> 0 \<Longrightarrow>
   (wet_tick ^^ n) s = \<lparr>wet_timer = 0, wet_fade = min 0 (wet_fade s + int n)\<rparr>"
  by (induction n) (auto simp: wet_tick_def Let_def)

lemma wet_soaks:
  "wet_timer s = -1 \<Longrightarrow> -20 \<le> wet_fade s \<Longrightarrow> wet_fade s \<le> 0 \<Longrightarrow>
   (wet_tick ^^ n) s = \<lparr>wet_timer = -1, wet_fade = max (-20) (wet_fade s - 2 * int n)\<rparr>"
  by (induction n) (auto simp: wet_tick_def Let_def)

lemma wet_settled:
  assumes "wet_ok s" and "170 \<le> n"
  shows "(wet_tick ^^ n) s =
    (if wet_timer s < 0 then \<lparr>wet_timer = -1, wet_fade = -20\<rparr> else \<lparr>wet_timer = 0, wet_fade = 0\<rparr>)"
proof (cases "wet_timer s < 0")
  case True
  with assms wet_soaks [of s n] show ?thesis by (auto simp: wet_ok_def)
next
  case False
  let ?s = "(wet_tick ^^ 150) s"
  have "wet_timer ?s = 0" using wet_timer_ticks [OF assms(1), of 150] False assms(1)
    by (simp add: wet_ok_def)
  moreover have "wet_ok ?s" by (rule wet_ok_ticks [OF assms(1)])
  ultimately have "(wet_tick ^^ (n - 150)) ?s = \<lparr>wet_timer = 0, wet_fade = 0\<rparr>"
    using wet_dries [of ?s "n - 150"] assms(2) by (auto simp: wet_ok_def)
  moreover have "(wet_tick ^^ n) s = (wet_tick ^^ (n - 150)) ?s"
  proof -
    have "n = (n - 150) + 150" using assms(2) by simp
    then show ?thesis by (metis comp_apply funpow_add)
  qed
  ultimately show ?thesis using False by simp
qed

text \<open>
  cutting a catch-up at 170 ticks loses nothing.  From every state the game reaches (a timer
  of -1 to 150 and a fade of -20 to 0), advancing any number of ticks gives what the uncut loop gives.
\<close>

theorem wet_cut_exact:
  assumes "wet_ok s"
  shows "advance_wet_state s ticks = (wet_tick ^^ unat ticks) s"
proof (cases "ticks \<le> 170")
  case True
  then show ?thesis by (simp add: advance_wet_state_def min_def)
next
  case False
  then have "unat (170 :: u32) \<le> unat ticks" by (simp only: word_le_nat_alt not_le)
  then have "170 \<le> unat ticks" by simp
  then show ?thesis
    using False wet_settled [OF assms, of "unat ticks"] wet_settled [OF assms, of 170]
    by (simp add: advance_wet_state_def min_def)
qed

lemma wet_cut_exact_witness:
  "advance_wet_state \<lparr>wet_timer = 3, wet_fade = -20\<rparr> 500 =
     (wet_tick ^^ unat (500 :: u32)) \<lparr>wet_timer = 3, wet_fade = -20\<rparr>"
  using wet_cut_exact [of "\<lparr>wet_timer = 3, wet_fade = -20\<rparr>" 500] by (simp only: wet_ok_def) simp

end
