(* ===== verification/Pose_Playback.thy ===== *)
theory Pose_Playback
  imports Interfaces
begin

text \<open>
  The jitter buffer of remote poses, \<open>include/dusklight_online/game/pose_playback.hpp\<close>: poses are
  pushed with their sequence number, one update per frame releases what is due and may project the
  latest pose up to two ticks ahead.  The pose type and the predictor are the template's
  parameters; the \<open>int64_t\<close> clock values are integers (they start from 32-bit sequence numbers and
  move by at most three per frame).
\<close>

section \<open>State and operations\<close>

definition maxPredictionTicks :: int where "maxPredictionTicks = 2"
definition capacity :: nat where "capacity = 16"

record 'p playback =
  pb_started :: bool
  pb_predicted :: bool
  pb_cursor :: int
  pb_delay :: int
  pb_adaptive :: bool
  pb_lateTicks :: u32
  pb_stableTicks :: u32
  pb_excessTicks :: u32
  pb_pending :: "(int \<times> 'p) list"
  pb_previous :: "(int \<times> 'p) option"
  pb_latest :: "(int \<times> 'p) option"

definition pb_new :: "int \<Rightarrow> bool \<Rightarrow> 'p playback" where
  "pb_new delay adaptive =
     \<lparr>pb_started = False, pb_predicted = False, pb_cursor = 0,
      pb_delay = (if delay < 1 then 1 else if 3 < delay then 3 else delay),
      pb_adaptive = adaptive, pb_lateTicks = 0, pb_stableTicks = 0, pb_excessTicks = 0,
      pb_pending = [], pb_previous = None, pb_latest = None\<rparr>"

text \<open>Dropping from the front until at most the capacity is left.\<close>

definition drop_excess :: "'a list \<Rightarrow> 'a list" where
  "drop_excess xs = drop (length xs - capacity) xs"

definition pb_push :: "u32 \<Rightarrow> 'p \<Rightarrow> 'p playback \<Rightarrow> 'p playback" where
  "pb_push sequence pose b =
     (let tick = uint sequence;
          b1 = (if \<not> pb_started b \<or> tick > pb_cursor b + int capacity \<or>
                   tick < pb_cursor b - (maxPredictionTicks + 1)
                then b\<lparr>pb_pending := [], pb_previous := None, pb_latest := None,
                       pb_cursor := tick - pb_delay b, pb_started := True,
                       pb_lateTicks := 0, pb_stableTicks := 0, pb_excessTicks := 0\<rparr>
                else b)
      in b1\<lparr>pb_pending := drop_excess (pb_pending b1 @ [(tick, pose)])\<rparr>)"

text \<open>The excess counter, and the extra tick it grants after six updates.\<close>

definition pb_catch_up :: "'p playback \<Rightarrow> 'p playback" where
  "pb_catch_up b =
     (if pb_pending b \<noteq> [] \<and> fst (last (pb_pending b)) - pb_cursor b > pb_delay b then
        (if pb_excessTicks b + 1 \<ge> 6
         then b\<lparr>pb_cursor := pb_cursor b + 1, pb_excessTicks := 0\<rparr>
         else b\<lparr>pb_excessTicks := pb_excessTicks b + 1\<rparr>)
      else b\<lparr>pb_excessTicks := 0\<rparr>)"

text \<open>The loop that releases every front pose that is due; the result is the last one.\<close>

fun pb_drain :: "int \<Rightarrow> (int \<times> 'p) list \<Rightarrow> (int \<times> 'p) option \<Rightarrow> (int \<times> 'p) option \<Rightarrow> 'p option \<Rightarrow>
    (int \<times> 'p) list \<times> (int \<times> 'p) option \<times> (int \<times> 'p) option \<times> 'p option" where
  "pb_drain cursor [] previous latest result = ([], previous, latest, result)"
| "pb_drain cursor (x # pending) previous latest result =
     (if fst x \<le> cursor then pb_drain cursor pending latest (Some x) (Some (snd x))
      else (x # pending, previous, latest, result))"

text \<open>Clock adjustment at the end of an update.\<close>

definition pb_adjust :: "int \<Rightarrow> 'p playback \<Rightarrow> 'p playback" where
  "pb_adjust ahead b =
     (let b1 = b\<lparr>pb_lateTicks := (if ahead > 1 then pb_lateTicks b + 1 else 0),
                 pb_stableTicks := (if ahead = 0 then pb_stableTicks b + 1 else 0)\<rparr>
      in if pb_adaptive b1 \<and> pb_lateTicks b1 \<ge> 3 \<and> pb_delay b1 < 3
         then b1\<lparr>pb_delay := pb_delay b1 + 1, pb_lateTicks := 0, pb_stableTicks := 0\<rparr>
         else let b2 = b1\<lparr>pb_cursor := pb_cursor b1 + 1\<rparr>
              in if pb_adaptive b2 \<and> pb_stableTicks b2 \<ge> 300 \<and> pb_delay b2 > 1
                 then b2\<lparr>pb_delay := pb_delay b2 - 1, pb_cursor := pb_cursor b2 + 1, pb_stableTicks := 0\<rparr>
                 else b2)"

text \<open>
  A predictor gets the two last poses, the distance and a copy of the latest, and returns whether
  it projected, with the projected pose.
\<close>

type_synonym 'p predictor = "'p \<Rightarrow> 'p \<Rightarrow> int \<Rightarrow> 'p \<Rightarrow> bool \<times> 'p"

definition pb_project :: "'p predictor \<Rightarrow> int \<Rightarrow> 'p playback \<Rightarrow> 'p option \<Rightarrow> 'p option \<times> 'p playback" where
  "pb_project predict ahead b result =
     (case (pb_previous b, pb_latest b) of
        (Some p, Some l) \<Rightarrow>
          if ahead > 0 \<and> ahead \<le> maxPredictionTicks then
            (case predict (snd p) (snd l) ahead (snd l) of (good, projected) \<Rightarrow>
               if good then (Some projected, b\<lparr>pb_predicted := True\<rparr>) else (result, b))
          else (result, b)
      | _ \<Rightarrow> (result, b))"

definition pb_update :: "'p predictor \<Rightarrow> 'p playback \<Rightarrow> 'p option \<times> 'p playback" where
  "pb_update predict b0 =
     (let b = b0\<lparr>pb_predicted := False\<rparr> in
      if \<not> pb_started b then (None, b)
      else
        let b1 = pb_catch_up b in
        case pb_drain (pb_cursor b1) (pb_pending b1) (pb_previous b1) (pb_latest b1) None of
          (pending, previous, latest, result) \<Rightarrow>
        let b2 = b1\<lparr>pb_pending := pending, pb_previous := previous, pb_latest := latest\<rparr>;
            ahead = (case latest of Some l \<Rightarrow> pb_cursor b2 - fst l | None \<Rightarrow> 0) in
        case pb_project predict ahead b2 result of
          (result', b3) \<Rightarrow> (result', pb_adjust ahead b3))"

section \<open>What the buffer holds and returns\<close>

text \<open>
  Relative to the set of poses received so far: the buffer holds only received poses, at most
  sixteen of them, and the delay stays between one and three ticks.
\<close>

definition pb_ok :: "'p set \<Rightarrow> 'p playback \<Rightarrow> bool" where
  "pb_ok P b \<longleftrightarrow> length (pb_pending b) \<le> capacity \<and> 1 \<le> pb_delay b \<and> pb_delay b \<le> 3 \<and>
     (\<forall>x \<in> set (pb_pending b) \<union> set_option (pb_previous b) \<union> set_option (pb_latest b). snd x \<in> P)"

lemma pb_ok_new: "pb_ok P (pb_new delay adaptive)"
  by (simp add: pb_ok_def pb_new_def)

lemma length_drop_excess [simp]: "length (drop_excess xs) \<le> capacity"
  by (simp add: drop_excess_def)

lemma set_drop_excess: "x \<in> set (drop_excess xs) \<Longrightarrow> x \<in> set xs"
  unfolding drop_excess_def by (rule in_set_dropD)

lemma pb_ok_push: "pb_ok P b \<Longrightarrow> pb_ok (insert pose P) (pb_push sequence pose b)"
  by (auto simp: pb_ok_def pb_push_def Let_def dest!: set_drop_excess)

lemma pb_ok_catch_up: "pb_ok P b \<Longrightarrow> pb_ok P (pb_catch_up b)"
  by (simp add: pb_ok_def pb_catch_up_def)

lemma pb_ok_adjust: "pb_ok P b \<Longrightarrow> pb_ok P (pb_adjust ahead b)"
  by (auto simp: pb_ok_def pb_adjust_def Let_def)

lemma pb_drain_sub:
  "pb_drain cursor pending previous latest result = (pending', previous', latest', result') \<Longrightarrow>
   \<forall>x \<in> set pending \<union> set_option previous \<union> set_option latest. snd x \<in> P \<Longrightarrow>
   set_option result \<subseteq> P \<Longrightarrow>
   length pending' \<le> length pending \<and>
   (\<forall>x \<in> set pending' \<union> set_option previous' \<union> set_option latest'. snd x \<in> P) \<and>
   set_option result' \<subseteq> P"
proof (induction cursor pending previous latest result rule: pb_drain.induct)
  case (1 cursor previous latest result)
  then show ?case by auto
next
  case (2 cursor x pending previous latest result)
  show ?case
  proof (cases "fst x \<le> cursor")
    case True
    have "length pending' \<le> length pending \<and>
        (\<forall>x \<in> set pending' \<union> set_option previous' \<union> set_option latest'. snd x \<in> P) \<and>
        set_option result' \<subseteq> P"
      by (rule "2.IH" [OF True]) (use 2 True in auto)
    then show ?thesis by auto
  next
    case False
    with 2 show ?thesis by auto
  qed
qed

text \<open>After the drain nothing that is due is left at the front, and a released pose was due.\<close>

lemma pb_drain_due:
  "pb_drain cursor pending previous latest result = (pending', previous', latest', result') \<Longrightarrow>
   (pending' = [] \<or> cursor < fst (hd pending')) \<and>
   (latest' = latest \<or> fst (the latest') \<le> cursor)"
proof (induction cursor pending previous latest result rule: pb_drain.induct)
  case (1 cursor previous latest result)
  then show ?case by auto
next
  case (2 cursor x pending previous latest result)
  then show ?case by (cases "fst x \<le> cursor") auto
qed

definition pb_projection :: "'p predictor \<Rightarrow> 'p set \<Rightarrow> 'p \<Rightarrow> bool" where
  "pb_projection predict P r \<longleftrightarrow>
     (\<exists>p \<in> P. \<exists>l \<in> P. \<exists>n \<in> {1, 2}. predict p l n l = (True, r))"

lemma pb_project_ok:
  assumes "pb_ok P b" and "pb_project predict ahead b result = (r, b')" and "set_option result \<subseteq> P"
  shows "pb_ok P b' \<and> (r = None \<or> (\<exists>x. r = Some x \<and> (x \<in> P \<or> pb_projection predict P x)))"
proof -
  have ahead: "ahead \<in> {1, 2}" if "ahead > 0" "ahead \<le> maxPredictionTicks"
    using that by (auto simp: maxPredictionTicks_def)
  have proj: "pb_projection predict P x"
    if "predict (snd p) (snd l) ahead (snd l) = (True, x)" "ahead > 0" "ahead \<le> maxPredictionTicks"
      "pb_previous b = Some p" "pb_latest b = Some l" for p l x
    using that assms(1) ahead unfolding pb_projection_def pb_ok_def by fastforce
  have keep: "result = None \<or> (\<exists>x. result = Some x \<and> x \<in> P)"
    using assms(3) by (cases result) auto
  show ?thesis
    using assms(1,2) keep proj
    by (fastforce simp: pb_project_def pb_ok_def split: option.splits prod.splits if_splits)
qed

lemma pb_update_ok:
  assumes "pb_ok P b" and "pb_update predict b = (r, b')"
  shows "pb_ok P b' \<and> (r = None \<or> (\<exists>x. r = Some x \<and> (x \<in> P \<or> pb_projection predict P x)))"
proof (cases "pb_started b")
  case False
  with assms show ?thesis by (auto simp: pb_update_def pb_ok_def)
next
  case True
  let ?b1 = "pb_catch_up (b\<lparr>pb_predicted := False\<rparr>)"
  have b1: "pb_ok P ?b1" using assms(1) by (intro pb_ok_catch_up) (simp add: pb_ok_def)
  obtain pending previous latest result where
    d: "pb_drain (pb_cursor ?b1) (pb_pending ?b1) (pb_previous ?b1) (pb_latest ?b1) None =
      (pending, previous, latest, result)" by (metis prod_cases4)
  let ?b2 = "?b1\<lparr>pb_pending := pending, pb_previous := previous, pb_latest := latest\<rparr>"
  let ?ahead = "case latest of Some l \<Rightarrow> pb_cursor ?b2 - fst l | None \<Rightarrow> 0"
  have sub: "length pending \<le> length (pb_pending ?b1) \<and>
      (\<forall>x \<in> set pending \<union> set_option previous \<union> set_option latest. snd x \<in> P) \<and> set_option result \<subseteq> P"
    by (rule pb_drain_sub [OF d]) (use b1 in \<open>auto simp: pb_ok_def\<close>)
  then have b2: "pb_ok P ?b2" using b1 by (auto simp: pb_ok_def)
  obtain r3 b3 where p: "pb_project predict ?ahead ?b2 result = (r3, b3)" by fastforce
  have "r = r3" and "b' = pb_adjust ?ahead b3"
    using assms(2) True d p by (auto simp: pb_update_def Let_def)
  moreover have "pb_ok P b3 \<and> (r3 = None \<or> (\<exists>x. r3 = Some x \<and> (x \<in> P \<or> pb_projection predict P x)))"
    by (rule pb_project_ok [OF b2 p]) (use sub in simp)
  ultimately show ?thesis using pb_ok_adjust by blast
qed

text \<open>A history of received poses and frames, with every pose the frames showed.\<close>

datatype 'p pb_op = Push u32 'p | Frame

fun pb_run :: "'p predictor \<Rightarrow> 'p pb_op list \<Rightarrow> 'p playback \<Rightarrow> 'p list \<times> 'p playback" where
  "pb_run predict [] b = ([], b)"
| "pb_run predict (Push sequence pose # ops) b = pb_run predict ops (pb_push sequence pose b)"
| "pb_run predict (Frame # ops) b =
     (case pb_update predict b of (r, b') \<Rightarrow>
      case pb_run predict ops b' of (rs, b'') \<Rightarrow>
        ((case r of None \<Rightarrow> rs | Some x \<Rightarrow> x # rs), b''))"

fun pb_received :: "'p pb_op list \<Rightarrow> 'p set" where
  "pb_received [] = {}"
| "pb_received (Push sequence pose # ops) = insert pose (pb_received ops)"
| "pb_received (Frame # ops) = pb_received ops"

lemma pb_ok_mono: "pb_ok P b \<Longrightarrow> P \<subseteq> Q \<Longrightarrow> pb_ok Q b"
  unfolding pb_ok_def by blast

lemma pb_projection_mono: "pb_projection predict P r \<Longrightarrow> P \<subseteq> Q \<Longrightarrow> pb_projection predict Q r"
  unfolding pb_projection_def by blast

lemma pb_run_ok:
  "pb_ok P b \<Longrightarrow> pb_run predict ops b = (shown, b') \<Longrightarrow> P \<union> pb_received ops \<subseteq> Q \<Longrightarrow>
   pb_ok Q b' \<and> (\<forall>x \<in> set shown. x \<in> Q \<or> pb_projection predict Q x)"
proof (induction predict ops b arbitrary: P shown b' rule: pb_run.induct)
  case (1 predict b)
  then show ?case by (auto intro: pb_ok_mono)
next
  case (2 predict sequence pose ops b)
  show ?case
    by (rule "2.IH" [of "insert pose P"]) (use 2 pb_ok_push in auto)
next
  case (3 predict ops b)
  obtain r b1 where u: "pb_update predict b = (r, b1)" by fastforce
  obtain rs b2 where t: "pb_run predict ops b1 = (rs, b2)" by fastforce
  have r: "pb_ok P b1 \<and> (r = None \<or> (\<exists>x. r = Some x \<and> (x \<in> P \<or> pb_projection predict P x)))"
    by (rule pb_update_ok [OF "3.prems"(1) u])
  have "pb_ok Q b2 \<and> (\<forall>x \<in> set rs. x \<in> Q \<or> pb_projection predict Q x)"
    by (rule "3.IH" [OF u [symmetric] _ t]) (use r "3.prems"(3) in auto)
  moreover have "P \<subseteq> Q" using "3.prems"(3) by simp
  ultimately show ?case
    using "3.prems"(2) u t r pb_projection_mono [of predict P _ Q] by (auto split: option.splits)
qed

text \<open>
  whatever arrives and whenever frames are drawn, every pose shown is a pose that was
  received, or the predictor's projection, by one or two ticks, of two poses that were received: a
  projection is never projected further.  The buffer never holds more than sixteen poses, and the
  delay stays between one and three ticks.
\<close>

theorem playback_shows_received:
  assumes "pb_run predict ops (pb_new delay adaptive) = (shown, b)"
  shows "(\<forall>x \<in> set shown. x \<in> pb_received ops \<or> pb_projection predict (pb_received ops) x) \<and>
    length (pb_pending b) \<le> 16 \<and> 1 \<le> pb_delay b \<and> pb_delay b \<le> 3"
  using pb_run_ok [OF pb_ok_new [of "{}"] assms, of "pb_received ops"]
  by (simp add: pb_ok_def capacity_def)

text \<open>Two poses, then frames until the stream is two ticks late: two real poses, two projections.\<close>

lemma playback_shows_received_witness:
  "\<exists>b. pb_run (\<lambda>p l n out. (True, l + (l - p) * n))
       [Push 10 100, Push 11 103, Frame, Frame, Frame, Frame, Frame] (pb_new 1 True) =
       ([100, 103, 106, 109 :: int], b) \<and> length (pb_pending b) \<le> 16"
proof -
  let ?f = "\<lambda>p l n out. (True, l + (l - p) * n :: int)"
  let ?ops = "[Push 10 100, Push 11 103, Frame, Frame, Frame, Frame, Frame] :: int pb_op list"
  obtain shown b where r: "pb_run ?f ?ops (pb_new 1 True) = (shown, b)" by fastforce
  have "shown = [100, 103, 106, 109]" using arg_cong [OF r, of fst]
    by (simp add: pb_new_def pb_push_def pb_update_def pb_catch_up_def pb_project_def pb_adjust_def
        drop_excess_def capacity_def maxPredictionTicks_def Let_def word_le_nat_alt)
  then show ?thesis using playback_shows_received [OF r] r by blast
qed

end
