(* ===== verification/Peer_Tunnel.thy ===== *)
theory Peer_Tunnel
  imports Interfaces
begin

text \<open>
  The envelopes peers send through the relay, \<open>include/dusklight_online/net/peer_tunnel.hpp\<close>: one
  recipient (\<open>DPF1\<close>) or a group of up to seven (\<open>DPG1\<close>); the size limits of \<open>wire_limits.hpp\<close>; and
  the classification of datagrams by \<open>datagram_kind\<close> in \<open>src/net/datagram_scheduler.cpp\<close>.
\<close>

section \<open>Client numbers\<close>

text \<open>\<open>std::to_string\<close> of an unsigned number, and \<open>std::from_chars\<close> of a whole decimal string.\<close>

definition dec_digit :: "nat \<Rightarrow> char" where
  "dec_digit d = char_of (48 + d)"

fun nat_dec :: "nat \<Rightarrow> string" where
  "nat_dec n = (if n < 10 then [dec_digit n] else nat_dec (n div 10) @ [dec_digit (n mod 10)])"

declare nat_dec.simps [simp del]

definition digit_val :: "char \<Rightarrow> nat" where
  "digit_val c = of_char c - 48"

definition is_digit :: "char \<Rightarrow> bool" where
  "is_digit c \<longleftrightarrow> 48 \<le> (of_char c :: nat) \<and> (of_char c :: nat) \<le> 57"

definition dec_val :: "string \<Rightarrow> nat" where
  "dec_val s = foldl (\<lambda>n c. 10 * n + digit_val c) 0 s"

definition parse_u64 :: "string \<Rightarrow> u64 option" where
  "parse_u64 s = (if s \<noteq> [] \<and> list_all is_digit s \<and> dec_val s < 2 ^ 64
                  then Some (word_of_nat (dec_val s)) else None)"

definition peer_number :: "string \<Rightarrow> u64" where
  "peer_number i =
     (if take 7 i \<noteq> ''client_'' then 0
      else case parse_u64 (drop 7 i) of Some n \<Rightarrow> n | None \<Rightarrow> 0)"

definition client_name :: "u64 \<Rightarrow> string" where
  "client_name n = ''client_'' @ nat_dec (unat n)"

lemma dec_digit_props:
  "d < 10 \<Longrightarrow> is_digit (dec_digit d) \<and> digit_val (dec_digit d) = d"
  by (simp add: is_digit_def dec_digit_def digit_val_def take_bit_nat_def)

lemma nat_dec_props: "nat_dec n \<noteq> [] \<and> list_all is_digit (nat_dec n) \<and> dec_val (nat_dec n) = n"
proof (induction n rule: nat_dec.induct)
  case (1 n)
  show ?case
  proof (cases "n < 10")
    case True
    then show ?thesis
      using dec_digit_props [of n] by (simp add: nat_dec.simps [of n] dec_val_def)
  next
    case False
    then show ?thesis
      using 1 dec_digit_props [of "n mod 10"]
      by (simp add: nat_dec.simps [of n] dec_val_def)
  qed
qed

lemma peer_number_client_name [simp]: "peer_number (client_name n) = n"
proof -
  have "unat n < 2 ^ 64" using unsigned_less [of n] by simp
  then show ?thesis
    using nat_dec_props [of "unat n"] by (simp add: peer_number_def client_name_def parse_u64_def)
qed

lemma client_name_inj: "client_name m = client_name n \<longleftrightarrow> m = n"
  by (metis peer_number_client_name)

section \<open>Envelopes\<close>

definition kIceDatagramBytes :: nat where "kIceDatagramBytes = 1200"
definition kSealedDatagramOverhead :: nat where "kSealedDatagramOverhead = 4 + 8 + 8 + 16"
definition kReliableDatagramBytes :: nat where
  "kReliableDatagramBytes = kIceDatagramBytes - kSealedDatagramOverhead"

definition subspan :: "nat \<Rightarrow> nat \<Rightarrow> bytes \<Rightarrow> bytes" where
  "subspan off n bs = take n (drop off bs)"

definition tunnel_read :: "bytes \<Rightarrow> u64" where
  "tunnel_read bs = get_le (take 8 bs)"

definition tunnel_magic :: bytes where "tunnel_magic = str_bytes ''DPF1''"
definition group_magic :: bytes where "group_magic = str_bytes ''DPG1''"

definition is_peer_tunnel :: "bytes \<Rightarrow> bool" where
  "is_peer_tunnel bs \<longleftrightarrow> length bs > 20 \<and> length bs \<le> 1220 \<and> take 4 bs = tunnel_magic \<and>
     tunnel_read (subspan 4 8 bs) \<noteq> 0 \<and> tunnel_read (subspan 12 8 bs) \<noteq> 0"

definition peer_tunnel :: "u64 \<Rightarrow> u64 \<Rightarrow> bytes \<Rightarrow> bytes" where
  "peer_tunnel sender target payload =
     (if sender = 0 \<or> target = 0 \<or> payload = [] \<or> length payload > 1200 then []
      else tunnel_magic @ put_le sender 8 @ put_le target 8 @ payload)"

definition peer_group_header :: "bytes \<Rightarrow> nat" where
  "peer_group_header bs =
     (if length bs < 21 \<or> length bs > 1227 \<or> take 4 bs \<noteq> group_magic \<or> bs ! 12 = 0 \<or> bs ! 12 > 7
      then 0
      else let header = 13 + unat (bs ! 12) * 8
           in if length bs \<ge> header + 58 \<and> length bs \<le> header + 1158 then header else 0)"

definition peer_group :: "u64 \<Rightarrow> u64 list \<Rightarrow> bytes \<Rightarrow> bytes" where
  "peer_group sender targets payload =
     (if sender = 0 \<or> targets = [] \<or> length targets > 7 \<or> length payload < 58 \<or> length payload > 1158
      then []
      else group_magic @ put_le sender 8 @ [word_of_nat (length targets)] @
           concat (map (\<lambda>i. put_le i 8) targets) @ payload)"

text \<open>What the receiver of a tunnel reads from it: sender, target and payload.\<close>

definition tunnel_parse :: "bytes \<Rightarrow> (u64 \<times> u64 \<times> bytes) option" where
  "tunnel_parse bs =
     (if is_peer_tunnel bs
      then Some (tunnel_read (subspan 4 8 bs), tunnel_read (subspan 12 8 bs), drop 20 bs)
      else None)"

definition tunnel_build :: "u64 \<times> u64 \<times> bytes \<Rightarrow> bytes" where
  "tunnel_build t = (case t of (sender, target, payload) \<Rightarrow> peer_tunnel sender target payload)"

definition tunnel_ok :: "u64 \<times> u64 \<times> bytes \<Rightarrow> bool" where
  "tunnel_ok t \<longleftrightarrow> (case t of (sender, target, payload) \<Rightarrow>
     sender \<noteq> 0 \<and> target \<noteq> 0 \<and> payload \<noteq> [] \<and> length payload \<le> 1200)"

lemma length_magic [simp]: "length tunnel_magic = 4" "length group_magic = 4"
  by (simp_all add: tunnel_magic_def group_magic_def)

lemma subspan_append: "length a = off \<Longrightarrow> length b = n \<Longrightarrow> subspan off n (a @ b @ c) = b"
  by (simp add: subspan_def)

lemma length_subspan [simp]: "off + n \<le> length bs \<Longrightarrow> length (subspan off n bs) = n"
  by (simp add: subspan_def)

lemma tunnel_parts:
  assumes "sender \<noteq> 0" "target \<noteq> 0" "payload \<noteq> []" "length payload \<le> 1200"
  shows "take 4 (peer_tunnel sender target payload) = tunnel_magic"
    "tunnel_read (subspan 4 8 (peer_tunnel sender target payload)) = sender"
    "tunnel_read (subspan 12 8 (peer_tunnel sender target payload)) = target"
    "drop 20 (peer_tunnel sender target payload) = payload"
    "length (peer_tunnel sender target payload) = 20 + length payload"
  using assms by (simp_all add: peer_tunnel_def tunnel_read_def subspan_def)

lemma bit_get_le: "bit (get_le bs) n \<Longrightarrow> n < 8 * length bs"
proof (induction bs arbitrary: n)
  case Nil
  then show ?case by simp
next
  case (Cons b bs)
  have "n < 8" if "bit b n" using bit_imp_le_length [OF that] by simp
  then show ?case using Cons by (fastforce simp: bit_simps)
qed

lemma put_le_get_le: "length bs \<le> 8 \<Longrightarrow> put_le (get_le bs) (length bs) = bs"
proof (induction bs)
  case Nil
  then show ?case by simp
next
  case (Cons b bs)
  have high: "\<not> bit b (8 + n)" for n using bit_imp_le_length [of b "8 + n"] by auto
  have "drop_bit 8 (ucast b OR push_bit 8 (get_le bs)) = get_le bs"
    by (rule bit_word_eqI) (use Cons.prems in \<open>auto simp: bit_simps high dest: bit_get_le\<close>)
  moreover have "ucast (ucast b OR push_bit 8 (get_le bs) :: u64) = b"
    by (rule bit_word_eqI) (auto simp: bit_simps)
  ultimately show ?case using Cons by simp
qed

lemma split_envelope:
  "bs = take 4 bs @ subspan 4 8 bs @ subspan 12 8 bs @ drop 20 bs"
proof -
  have "drop 4 bs = subspan 4 8 bs @ drop 12 bs"
    using append_take_drop_id [of 8 "drop 4 bs"] by (simp add: subspan_def del: append_take_drop_id)
  moreover have "drop 12 bs = subspan 12 8 bs @ drop 20 bs"
    using append_take_drop_id [of 8 "drop 12 bs"] by (simp add: subspan_def del: append_take_drop_id)
  ultimately show ?thesis by (metis append_take_drop_id)
qed

lemma put_tunnel_read: "length bs = 8 \<Longrightarrow> put_le (tunnel_read bs) 8 = bs"
  using put_le_get_le [of bs] by (simp add: tunnel_read_def)

interpretation tunnel: canonical_codec tunnel_build tunnel_parse tunnel_ok
proof unfold_locales
  fix x assume "tunnel_ok x"
  then show "tunnel_parse (tunnel_build x) = Some x"
    by (cases x) (auto simp: tunnel_ok_def tunnel_build_def tunnel_parse_def is_peer_tunnel_def tunnel_parts)
next
  fix y x assume p: "tunnel_parse y = Some x"
  then show "tunnel_ok x"
    by (auto simp: tunnel_parse_def is_peer_tunnel_def tunnel_ok_def split: if_splits)
  from p have t: "is_peer_tunnel y" and
    x: "x = (tunnel_read (subspan 4 8 y), tunnel_read (subspan 12 8 y), drop 20 y)"
    by (auto simp: tunnel_parse_def split: if_splits)
  have len: "20 < length y" and magic: "take 4 y = tunnel_magic"
    using t by (auto simp: is_peer_tunnel_def)
  have "y = take 4 y @ subspan 4 8 y @ subspan 12 8 y @ drop 20 y" by (rule split_envelope)
  then show "tunnel_build x = y"
    using t x len magic put_tunnel_read [of "subspan 4 8 y"] put_tunnel_read [of "subspan 12 8 y"]
    by (auto simp: tunnel_build_def peer_tunnel_def is_peer_tunnel_def)
qed

section \<open>Groups\<close>

lemma length_concat_put_le [simp]: "length (concat (map (\<lambda>i. put_le i 8) targets)) = 8 * length targets"
  by (induction targets) auto

definition group_targets :: "bytes \<Rightarrow> u64 list" where
  "group_targets bs = map (\<lambda>i. tunnel_read (subspan (13 + i * 8) 8 bs)) [0..<unat (bs ! 12)]"

lemma subspan_concat:
  "i < length targets \<Longrightarrow> subspan (i * 8) 8 (concat (map (\<lambda>i. put_le i 8) targets) @ p) = put_le (targets ! i) 8"
proof (induction targets arbitrary: i)
  case Nil
  then show ?case by simp
next
  case (Cons t targets)
  show ?case
  proof (cases i)
    case 0
    then show ?thesis by (simp add: subspan_def)
  next
    case (Suc j)
    then show ?thesis using Cons by (simp add: subspan_def)
  qed
qed

lemma peer_group_parts:
  assumes ok: "sender \<noteq> 0" "targets \<noteq> []" "length targets \<le> 7" "58 \<le> length payload" "length payload \<le> 1158"
  defines "g \<equiv> peer_group sender targets payload"
  shows "peer_group_header g = 13 + 8 * length targets" and "drop (peer_group_header g) g = payload"
    and "tunnel_read (subspan 4 8 g) = sender" and "group_targets g = targets"
proof -
  have n: "unat (word_of_nat (length targets) :: u8) = length targets"
    using ok(3) by (simp add: unat_of_nat take_bit_nat_def)
  have g: "g = group_magic @ put_le sender 8 @ [word_of_nat (length targets)] @
      concat (map (\<lambda>i. put_le i 8) targets) @ payload"
    using ok by (simp add: g_def peer_group_def)
  have at12: "g ! 12 = word_of_nat (length targets)" unfolding g by (simp add: nth_append)
  have "(word_of_nat (length targets) :: u8) \<noteq> 0" using n ok(2) by (metis length_0_conv unat_0)
  moreover have "\<not> 7 < (word_of_nat (length targets) :: u8)"
    using n ok(3) by (simp add: word_less_nat_alt)
  moreover have len: "length g = 13 + 8 * length targets + length payload" unfolding g by simp
  moreover have "take 4 g = group_magic" unfolding g by simp
  ultimately show h: "peer_group_header g = 13 + 8 * length targets"
    using ok n by (simp add: peer_group_header_def at12 Let_def)
  show "drop (peer_group_header g) g = payload" by (subst h, subst g) simp
  show "tunnel_read (subspan 4 8 g) = sender" unfolding g by (simp add: tunnel_read_def subspan_def)
  have "subspan (13 + i * 8) 8 g = put_le (targets ! i) 8" if "i < length targets" for i
    using subspan_concat [OF that, of payload] unfolding g by (simp add: subspan_def)
  then show "group_targets g = targets"
    unfolding group_targets_def at12 n
    by (auto intro!: nth_equalityI simp: tunnel_read_def)
qed

section \<open>Kinds of datagrams\<close>

datatype datagram_kind = Invalid | Realtime | Reliable

definition udp_magic :: bytes where "udp_magic = str_bytes ''DMPU''"
definition reliable_magic :: bytes where "reliable_magic = str_bytes ''DUR1''"

definition plain_kind :: "bytes \<Rightarrow> datagram_kind" where
  "plain_kind bs =
     (if length bs \<ge> 58 \<and> length bs \<le> 2048 \<and> take 4 bs = udp_magic then Realtime
      else if length bs \<ge> 38 \<and> length bs \<le> kReliableDatagramBytes \<and> take 4 bs = reliable_magic
      then Reliable else Invalid)"

definition group_kind :: "bytes \<Rightarrow> datagram_kind" where
  "group_kind bs =
     (if take 4 (drop (peer_group_header bs) bs) = udp_magic then Realtime else Invalid)"

text \<open>The recursion is one level deep: an envelope inside an envelope is invalid.\<close>

definition datagram_kind :: "bytes \<Rightarrow> datagram_kind" where
  "datagram_kind bs =
     (if peer_group_header bs \<noteq> 0 then group_kind bs
      else if is_peer_tunnel bs then
        (let inner = drop 20 bs in
         if is_peer_tunnel inner then Invalid
         else if peer_group_header inner \<noteq> 0 then group_kind inner
         else plain_kind inner)
      else plain_kind bs)"

lemma magics_differ: "tunnel_magic \<noteq> group_magic" "group_magic \<noteq> tunnel_magic"
  by (simp_all add: tunnel_magic_def group_magic_def byte_of_char_def)

lemma tunnel_kind:
  assumes "sender \<noteq> 0" "target \<noteq> 0" "payload \<noteq> []" "length payload \<le> 1200"
  shows "datagram_kind (peer_tunnel sender target payload) =
    (if is_peer_tunnel payload then Invalid else datagram_kind payload)"
proof -
  have "is_peer_tunnel (peer_tunnel sender target payload)"
    using assms by (auto simp: is_peer_tunnel_def tunnel_parts)
  moreover have "peer_group_header (peer_tunnel sender target payload) = 0"
    using magics_differ by (simp add: peer_group_header_def tunnel_parts(1) [OF assms])
  ultimately show ?thesis
    by (simp add: datagram_kind_def [of "peer_tunnel sender target payload"] datagram_kind_def [of payload]
        tunnel_parts(4) [OF assms] Let_def)
qed

lemma group_kind_payload:
  assumes "sender \<noteq> 0" "targets \<noteq> []" "length targets \<le> 7" "58 \<le> length payload" "length payload \<le> 1158"
  shows "datagram_kind (peer_group sender targets payload) = (if take 4 payload = udp_magic then Realtime else Invalid)"
  using peer_group_parts(1,2) [OF assms] by (simp add: datagram_kind_def group_kind_def)



end
