(* ===== verification/Auth_Code.thy ===== *)
theory Auth_Code
  imports Interfaces
begin

text \<open>
  Lobby codes, \<open>src/net/auth_code.cpp\<close>: SHA-256, HMAC and PBKDF2 as the program implements them, the
  lower-case hexadecimal form of digests, the constant-time comparison, and the proofs a client
  sends.  A \<open>std::string\<close> of raw bytes is a list of bytes; a printable one is a \<open>string\<close>.
\<close>

section \<open>SHA-256\<close>

text \<open>The table of 32-bit constants, each written as its upper and lower half.\<close>

definition kRound :: "u32 list" where
  "kRound = map (\<lambda>(high, low). high * 0x10000 + low) [
     (0x428a, 0x2f98), (0x7137, 0x4491), (0xb5c0, 0xfbcf), (0xe9b5, 0xdba5),
     (0x3956, 0xc25b), (0x59f1, 0x11f1), (0x923f, 0x82a4), (0xab1c, 0x5ed5),
     (0xd807, 0xaa98), (0x1283, 0x5b01), (0x2431, 0x85be), (0x550c, 0x7dc3),
     (0x72be, 0x5d74), (0x80de, 0xb1fe), (0x9bdc, 0x06a7), (0xc19b, 0xf174),
     (0xe49b, 0x69c1), (0xefbe, 0x4786), (0x0fc1, 0x9dc6), (0x240c, 0xa1cc),
     (0x2de9, 0x2c6f), (0x4a74, 0x84aa), (0x5cb0, 0xa9dc), (0x76f9, 0x88da),
     (0x983e, 0x5152), (0xa831, 0xc66d), (0xb003, 0x27c8), (0xbf59, 0x7fc7),
     (0xc6e0, 0x0bf3), (0xd5a7, 0x9147), (0x06ca, 0x6351), (0x1429, 0x2967),
     (0x27b7, 0x0a85), (0x2e1b, 0x2138), (0x4d2c, 0x6dfc), (0x5338, 0x0d13),
     (0x650a, 0x7354), (0x766a, 0x0abb), (0x81c2, 0xc92e), (0x9272, 0x2c85),
     (0xa2bf, 0xe8a1), (0xa81a, 0x664b), (0xc24b, 0x8b70), (0xc76c, 0x51a3),
     (0xd192, 0xe819), (0xd699, 0x0624), (0xf40e, 0x3585), (0x106a, 0xa070),
     (0x19a4, 0xc116), (0x1e37, 0x6c08), (0x2748, 0x774c), (0x34b0, 0xbcb5),
     (0x391c, 0x0cb3), (0x4ed8, 0xaa4a), (0x5b9c, 0xca4f), (0x682e, 0x6ff3),
     (0x748f, 0x82ee), (0x78a5, 0x636f), (0x84c8, 0x7814), (0x8cc7, 0x0208),
     (0x90be, 0xfffa), (0xa450, 0x6ceb), (0xbef9, 0xa3f7), (0xc671, 0x78f2)]"

definition rotr :: "u32 \<Rightarrow> nat \<Rightarrow> u32" where
  "rotr w n = drop_bit n w OR push_bit (32 - n) w"

text \<open>The 0x80 byte, the zero bytes up to 56 modulo 64, and the bit length in big endian order.\<close>

definition sha_pad :: "bytes \<Rightarrow> bytes" where
  "sha_pad input =
     (let n = length input + 1; zeros = (56 + 64 - n mod 64) mod 64
      in input @ [0x80] @ replicate zeros 0 @ put_be (word_of_nat (length input) * 8) 8)"

fun sha_word :: "bytes \<Rightarrow> u32" where
  "sha_word (a # b # c # d # _) =
     push_bit 24 (ucast a) OR push_bit 16 (ucast b) OR push_bit 8 (ucast c) OR ucast d"
| "sha_word _ = 0"

definition sha_extend :: "u32 list \<Rightarrow> u32 list" where
  "sha_extend ws =
     (let i = length ws;
          a = rotr (ws ! (i - 15)) 7 XOR rotr (ws ! (i - 15)) 18 XOR drop_bit 3 (ws ! (i - 15));
          b = rotr (ws ! (i - 2)) 17 XOR rotr (ws ! (i - 2)) 19 XOR drop_bit 10 (ws ! (i - 2))
      in ws @ [ws ! (i - 16) + a + ws ! (i - 7) + b])"

definition sha_schedule :: "bytes \<Rightarrow> u32 list" where
  "sha_schedule block = (sha_extend ^^ 48) (map (\<lambda>i. sha_word (drop (4 * i) block)) [0..<16])"

type_synonym sha_state = "u32 \<times> u32 \<times> u32 \<times> u32 \<times> u32 \<times> u32 \<times> u32 \<times> u32"

definition sha_round :: "u32 \<times> u32 \<Rightarrow> sha_state \<Rightarrow> sha_state" where
  "sha_round kw s = (case kw of (k, w) \<Rightarrow> case s of (a, b, c, d, e, f, g, h) \<Rightarrow>
     let choice = (e AND f) XOR (NOT e AND g);
         majority = (a AND b) XOR (a AND c) XOR (b AND c);
         t1 = h + (rotr e 6 XOR rotr e 11 XOR rotr e 25) + choice + k + w;
         t2 = (rotr a 2 XOR rotr a 13 XOR rotr a 22) + majority
     in (t1 + t2, a, b, c, d + t1, e, f, g))"

definition sha_block :: "bytes \<Rightarrow> sha_state \<Rightarrow> sha_state" where
  "sha_block block s =
     (case s of (a, b, c, d, e, f, g, h) \<Rightarrow>
      case fold sha_round (zip kRound (sha_schedule block)) s of (a', b', c', d', e', f', g', h') \<Rightarrow>
        (a + a', b + b', c + c', d + d', e + e', f + f', g + g', h + h'))"

fun blocks64 :: "bytes \<Rightarrow> bytes list" where
  "blocks64 bs = (if bs = [] then [] else take 64 bs # blocks64 (drop 64 bs))"

declare blocks64.simps [simp del]

definition sha_init :: sha_state where
  "sha_init = (0x6a09e667, 0xbb67ae85, 0x3c6ef372, 0xa54ff53a,
               0x510e527f, 0x9b05688c, 0x1f83d9ab, 0x5be0cd19)"

definition sha256 :: "bytes \<Rightarrow> bytes" where
  "sha256 input =
     (case fold sha_block (blocks64 (sha_pad input)) sha_init of (a, b, c, d, e, f, g, h) \<Rightarrow>
        concat (map (\<lambda>w. put_be (ucast w) 4) [a, b, c, d, e, f, g, h]))"

section \<open>HMAC and PBKDF2\<close>

definition hmac_sha256 :: "bytes \<Rightarrow> bytes \<Rightarrow> bytes" where
  "hmac_sha256 key message =
     (let k = (if length key > 64 then sha256 key else key);
          block = k @ replicate (64 - length k) 0
      in sha256 (map (\<lambda>b. b XOR 0x5c) block @ sha256 (map (\<lambda>b. b XOR 0x36) block @ message)))"

definition pbkdf2_sha256 :: "bytes \<Rightarrow> bytes \<Rightarrow> u32 \<Rightarrow> bytes" where
  "pbkdf2_sha256 password salt iterations =
     (let first = hmac_sha256 password (salt @ [0, 0, 0, 1])
      in snd (((\<lambda>(last, result). let l = hmac_sha256 password last in (l, map2 (XOR) result l))
                 ^^ (unat iterations - 1)) (first, first)))"

section \<open>Hexadecimal digests\<close>

definition hex_alphabet :: string where "hex_alphabet = ''0123456789abcdef''"

definition nibble :: "char \<Rightarrow> int" where
  "nibble c = (let n = of_char c :: nat in
     if 48 \<le> n \<and> n \<le> 57 then int n - 48 else if 97 \<le> n \<and> n \<le> 102 then int n - 97 + 10 else -1)"

fun unhex_pairs :: "string \<Rightarrow> bytes option" where
  "unhex_pairs (h # l # cs) =
     (if nibble h < 0 \<or> nibble l < 0 then None
      else map_option (\<lambda>bs. (push_bit 4 (word_of_int (nibble h)) OR word_of_int (nibble l)) # bs)
             (unhex_pairs cs))"
| "unhex_pairs _ = Some []"

definition unhex :: "string \<Rightarrow> bytes option" where
  "unhex v = (if length v mod 2 \<noteq> 0 then None else unhex_pairs v)"

definition hex_byte :: "u8 \<Rightarrow> string" where
  "hex_byte b = [hex_alphabet ! unat (drop_bit 4 b), hex_alphabet ! unat (b AND 15)]"

definition hex_bytes :: "bytes \<Rightarrow> string" where
  "hex_bytes bs = concat (map hex_byte bs)"

definition unhex_digest :: "string \<Rightarrow> bytes option" where
  "unhex_digest v = (if length v \<noteq> 64 then None else unhex v)"

text \<open>Every byte is compared, whatever the first difference.\<close>

definition ct_equal :: "string \<Rightarrow> string \<Rightarrow> bool" where
  "ct_equal left right =
     (if length left \<noteq> length right then False
      else fold (\<lambda>(a, b) d. d OR (byte_of_char a XOR byte_of_char b)) (zip left right) 0 = 0)"

section \<open>Proofs\<close>

definition lower_ascii :: "char \<Rightarrow> char" where
  "lower_ascii c = (let n = of_char c :: nat in if 65 \<le> n \<and> n \<le> 90 then char_of (n - 65 + 97) else c)"

definition lobby_verifier :: "string \<Rightarrow> string \<Rightarrow> string \<Rightarrow> bytes" where
  "lobby_verifier code room endpointKey =
     pbkdf2_sha256 (str_bytes code)
       (str_bytes (''dusklight-lobby-code-v1:'' @ map lower_ascii room) @ [0] @ str_bytes endpointKey) 100000"

definition room_proof_key :: "bytes \<Rightarrow> string \<Rightarrow> bytes option" where
  "room_proof_key verifier saltHex =
     (if length saltHex \<noteq> 32 then None
      else case unhex saltHex of
        None \<Rightarrow> None
      | Some salt \<Rightarrow> Some (hmac_sha256 verifier (str_bytes ''dusklight-room-key-v1:'' @ salt)))"

definition room_proof :: "bytes \<Rightarrow> string \<Rightarrow> string" where
  "room_proof key nonceHex =
     (if length nonceHex \<noteq> 32 \<or> unhex nonceHex = None then []
      else hex_bytes (hmac_sha256 key (str_bytes (''dusklight-room-auth-v1:'' @ nonceHex))))"

definition direct_proof :: "bytes \<Rightarrow> string \<Rightarrow> string" where
  "direct_proof sessionKey nonceHex =
     (if sessionKey = [] \<or> length nonceHex \<noteq> 32 \<or> unhex nonceHex = None then []
      else hex_bytes (hmac_sha256 sessionKey (str_bytes (''dusklight-direct-auth-v2:'' @ nonceHex))))"

section \<open>Lengths\<close>

lemma length_sha256 [simp, byte_simps]: "length (sha256 bs) = 32"
  by (simp add: sha256_def split: prod.splits)

lemma length_hmac_sha256 [simp, byte_simps]: "length (hmac_sha256 k m) = 32"
  by (simp add: hmac_sha256_def Let_def)

lemma length_pbkdf2_sha256 [simp, byte_simps]: "length (pbkdf2_sha256 p s n) = 32"
proof -
  have "length (snd (((\<lambda>(last, result). let l = hmac_sha256 p last in (l, map2 (XOR) result l)) ^^ k) (a, b))) = 32"
    if "length b = 32" for k a b
    by (induction k) (auto simp: that Let_def split: prod.splits)
  then show ?thesis by (simp add: pbkdf2_sha256_def Let_def)
qed

text \<open>Padding always completes a whole number of blocks.\<close>

lemma length_sha_pad: "length (sha_pad bs) mod 64 = 0"
proof -
  define q r where "q = Suc (length bs) div 64" and "r = Suc (length bs) mod 64"
  have n: "Suc (length bs) = 64 * q + r" and r: "r < 64" by (simp_all add: q_def r_def)
  have "length (sha_pad bs) = 64 * q + r + (120 - r) mod 64 + 8"
    using n by (simp add: sha_pad_def Let_def r_def)
  moreover have "(120 - r) mod 64 = (if r \<le> 56 then 56 - r else 120 - r)"
    using r by (simp add: mod_if)
  ultimately have "length (sha_pad bs) = 64 * q + (if r \<le> 56 then 64 else 128)" using r by auto
  then show ?thesis by simp
qed

section \<open>Correctness\<close>

lemma nibble_hex_digit: "n < 16 \<Longrightarrow> nibble (hex_alphabet ! n) = int n"
proof -
  have "\<forall>n \<in> {0..<16}. nibble (hex_alphabet ! n) = int n" by code_simp
  then show "n < 16 \<Longrightarrow> ?thesis" by simp
qed

lemma fifteen: "(15 :: u8) = mask 4"
  by (simp add: mask_eq_exp_minus_1)

lemma unat_and_15: "unat (b AND 15 :: u8) < 16"
proof -
  have "b AND 15 \<le> (15 :: u8)" by (rule word_and_le1)
  then show ?thesis by (simp add: word_le_nat_alt)
qed

lemma unat_drop_4: "unat (drop_bit 4 b :: u8) < 16"
proof -
  have "unat (drop_bit 4 b) = unat b div 16" by (simp add: drop_bit_eq_div unat_div)
  then show ?thesis using unat_byte_lt [of b] by linarith
qed

lemma byte_nibbles: "push_bit 4 (drop_bit 4 b) OR (b AND 15) = (b :: u8)"
  unfolding fifteen by (rule bit_word_eqI) (auto simp: bit_simps not_less le_diff_conv2)

lemma unhex_hex_bytes: "unhex_pairs (hex_bytes bs) = Some bs"
proof (induction bs)
  case Nil
  then show ?case by (simp add: hex_bytes_def)
next
  case (Cons b bs)
  have "nibble (hex_alphabet ! unat (drop_bit 4 b)) = int (unat (drop_bit 4 b))"
    "nibble (hex_alphabet ! unat (b AND 15)) = int (unat (b AND 15))"
    by (intro nibble_hex_digit unat_drop_4 unat_and_15)+
  moreover have "word_of_int (int (unat w)) = w" for w :: u8 by simp
  ultimately show ?case
    using Cons byte_nibbles [of b] by (simp add: hex_bytes_def hex_byte_def del: of_nat_unat)
qed

lemma length_hex_bytes [simp, byte_simps]: "length (hex_bytes bs) = 2 * length bs"
  by (induction bs) (auto simp: hex_bytes_def hex_byte_def)

lemma nibble_char: "0 \<le> nibble c \<Longrightarrow> nibble c < 16 \<and> hex_alphabet ! nat (nibble c) = c"
proof -
  define n where "n = (of_char c :: nat)"
  have c: "c = char_of n" by (simp add: n_def)
  have eq: "nibble c = (if 48 \<le> n \<and> n \<le> 57 then int (n - 48) else if 97 \<le> n \<and> n \<le> 102 then int (n - 87) else -1)"
    by (simp add: nibble_def Let_def n_def [symmetric])
  have "\<forall>n \<in> {48..57}. hex_alphabet ! (n - 48) = char_of n" by code_simp
  moreover have "\<forall>n \<in> {97..102}. hex_alphabet ! (n - 87) = char_of n" by code_simp
  moreover have "nat (int n - 48) = n - 48" "nat (int n - 87) = n - 87" by arith+
  ultimately show "0 \<le> nibble c \<Longrightarrow> ?thesis"
    by (simp add: eq c [symmetric] split: if_splits)
qed

lemma hex_unhex_pairs: "unhex_pairs v = Some bs \<Longrightarrow> length v mod 2 = 0 \<Longrightarrow> hex_bytes bs = v"
proof (induction v arbitrary: bs rule: unhex_pairs.induct)
  case (1 h l cs)
  let ?h = "nat (nibble h)" and ?l = "nat (nibble l)"
  obtain rest where nn: "0 \<le> nibble h" "0 \<le> nibble l" and r: "unhex_pairs cs = Some rest"
    and bs: "bs = (push_bit 4 (word_of_int (nibble h)) OR word_of_int (nibble l)) # rest"
    using "1.prems"(1) by (auto split: if_splits)
  let ?b = "push_bit 4 (word_of_int (nibble h)) OR word_of_int (nibble l) :: u8"
  have lt: "?h < 16" "?l < 16" using nn nibble_char by (auto simp: nat_less_iff)
  have b: "?b = push_bit 4 (word_of_nat ?h) OR word_of_nat ?l" using nn by (simp add: word_of_nat_eq_iff)
  have all: "\<forall>h \<in> {0..<16}. \<forall>l \<in> {0..<16}.
      unat (drop_bit 4 (push_bit 4 (word_of_nat h) OR word_of_nat l :: u8)) = h \<and>
      unat ((push_bit 4 (word_of_nat h) OR word_of_nat l :: u8) AND 15) = l"
    by code_simp
  have "unat (drop_bit 4 ?b) = ?h" "unat (?b AND 15) = ?l"
    using all lt unfolding b by auto
  moreover have "hex_bytes rest = cs" using 1 r nn by auto
  ultimately show ?case using nibble_char nn by (simp add: bs hex_bytes_def hex_byte_def)
qed (auto simp: hex_bytes_def)

text \<open>A digest is read only in the one form \<open>hex\<close> writes.\<close>

interpretation hex_digest: canonical_codec hex_bytes unhex_digest "\<lambda>d. length d = 32"
proof unfold_locales
  show "length x = 32 \<Longrightarrow> unhex_digest (hex_bytes x) = Some x" for x
    by (simp add: unhex_digest_def unhex_def unhex_hex_bytes)
  show c: "unhex_digest y = Some x \<Longrightarrow> hex_bytes x = y" for x y
    by (auto simp: unhex_digest_def unhex_def hex_unhex_pairs split: if_splits)
  show "unhex_digest y = Some x \<Longrightarrow> length x = 32" for x y
    using c [of y x] length_hex_bytes [of x] by (auto simp: unhex_digest_def split: if_splits)
qed

lemma fold_or_zero:
  "fold (\<lambda>(a, b) d. d OR (byte_of_char a XOR byte_of_char b)) ps d = 0 \<longleftrightarrow>
     d = 0 \<and> (\<forall>(a, b) \<in> set ps. a = b)"
proof (induction ps arbitrary: d)
  case Nil
  then show ?case by simp
next
  case (Cons p ps)
  obtain a b where p: "p = (a, b)" by fastforce
  have "byte_of_char a XOR byte_of_char b = 0 \<longleftrightarrow> a = b"
    by (metis char_of_byte_of_char xor_self_eq word_bw_assocs(3) xor.right_neutral)
  moreover have "d OR w = 0 \<longleftrightarrow> d = 0 \<and> w = 0" for w :: u8
    by (metis or.right_neutral word_bw_comms(2) word_ao_absorbs(1) and_zero_eq)
  ultimately show ?case using Cons p by auto
qed

lemma ct_equal_eq [simp]: "ct_equal left right \<longleftrightarrow> left = right"
proof (cases "length left = length right")
  case True
  then have "(\<forall>(a, b) \<in> set (zip left right). a = b) \<longleftrightarrow> left = right"
    by (induction left right rule: list_induct2) auto
  with True show ?thesis by (simp add: ct_equal_def fold_or_zero)
next
  case False
  then show ?thesis by (auto simp: ct_equal_def)
qed

lemma room_proof_digest:
  "room_proof key nonce \<noteq> [] \<Longrightarrow> unhex_digest (room_proof key nonce) \<noteq> None"
  using hex_digest.dec_enc [of "hmac_sha256 key (str_bytes (''dusklight-room-auth-v1:'' @ nonce))"]
  by (auto simp: room_proof_def split: if_splits)

text \<open>
  a host stores the key of a room, in hexadecimal, when the room is created, and later compares
  proofs against it.  The stored text gives back exactly the key that was derived, so the proof of a
  client that derived the same key is accepted, and the comparison accepts no other text.
\<close>

theorem stored_key_verifies:
  assumes "room_proof_key verifier salt = Some key" and "length nonce = 32" and "unhex nonce \<noteq> None"
  shows "unhex_digest (hex_bytes key) = Some key \<and>
    (ct_equal proof (room_proof (the (unhex_digest (hex_bytes key))) nonce) \<longleftrightarrow>
       proof = hex_bytes (hmac_sha256 key (str_bytes (''dusklight-room-auth-v1:'' @ nonce))))"
proof -
  have "length key = 32"
    using assms(1) by (auto simp: room_proof_key_def split: if_splits option.splits)
  then have "unhex_digest (hex_bytes key) = Some key" by (rule hex_digest.dec_enc)
  moreover obtain u where "unhex nonce = Some u" using assms(3) by auto
  ultimately show ?thesis using assms(2) by (simp add: room_proof_def del: list.map)
qed

lemma stored_key_verifies_witness:
  "\<exists>key. room_proof_key [] (replicate 32 CHR ''0'') = Some key \<and> unhex_digest (hex_bytes key) = Some key"
proof -
  have u: "unhex (replicate 32 CHR ''0'') \<noteq> None" by code_simp
  then obtain key where k: "room_proof_key [] (replicate 32 CHR ''0'') = Some key"
    by (auto simp: room_proof_key_def)
  show ?thesis using stored_key_verifies [OF k _ u, of "[]"] k by auto
qed

end
