(* ===== verification/Reliable_Json.thy ===== *)
theory Reliable_Json
  imports Json_Value Auth_Code
begin

text \<open>
  JSON lines on the reliable stream, \<open>include/dusklight_online/net/reliable_json.hpp\<close>: the nesting
  check, and the compressed line form.  Printing and parsing JSON text and the zstd calls belong to
  libraries and are parameters; what the program relies on of them is stated as \<open>codec_laws\<close>.
\<close>

section \<open>Parameters\<close>

datatype net_error = JsonExn json_error | ReliableJsonError | FatalError

text \<open>
  \<open>z_compress\<close> and \<open>z_decompress\<close> return nothing on an error; the sizes are those of
  \<open>ZSTD_getFrameContentSize\<close> and \<open>ZSTD_findFrameCompressedSize\<close> (an error is a huge number).
\<close>

record text_codec =
  tc_dump :: "json \<Rightarrow> json_error + string"
  tc_parse :: "string \<Rightarrow> json_error + json"
  z_compress :: "bytes \<Rightarrow> bytes option"
  z_content_size :: "bytes \<Rightarrow> nat"
  z_frame_size :: "bytes \<Rightarrow> nat"
  z_decompress :: "nat \<Rightarrow> bytes \<Rightarrow> bytes option"

definition reliableJsonLimit :: nat where "reliableJsonLimit = 512 * 1024"
definition reliablePeerFrameLimit :: nat where "reliablePeerFrameLimit = reliableJsonLimit + 2048"
definition reliableJsonMaxDepth :: nat where "reliableJsonMaxDepth = 64"

section \<open>The nesting check\<close>

fun check_depth :: "nat \<Rightarrow> bool \<Rightarrow> bool \<Rightarrow> string \<Rightarrow> net_error + unit" where
  "check_depth depth quoted escaped [] = Inr ()"
| "check_depth depth quoted escaped (c # raw) =
     (if quoted then
        (if escaped then check_depth depth True False raw
         else if c = CHR 0x5C then check_depth depth True True raw
         else if c = CHR 0x22 then check_depth depth False False raw
         else check_depth depth True False raw)
      else if c = CHR 0x22 then check_depth depth True escaped raw
      else if c = CHR ''{'' \<or> c = CHR ''['' then
        (if depth + 1 > reliableJsonMaxDepth then Inl ReliableJsonError
         else check_depth (depth + 1) False escaped raw)
      else if c = CHR ''}'' \<or> c = CHR '']'' then
        (if depth = 0 then Inl ReliableJsonError else check_depth (depth - 1) False escaped raw)
      else check_depth depth False escaped raw)"

definition check_reliable_json_depth :: "string \<Rightarrow> net_error + unit" where
  "check_reliable_json_depth raw = check_depth 0 False False raw"

section \<open>Lines\<close>

definition lift_json :: "json_error + 'a \<Rightarrow> net_error + 'a" where
  "lift_json r = (case r of Inl e \<Rightarrow> Inl (JsonExn e) | Inr a \<Rightarrow> Inr a)"

definition encode_reliable_json :: "text_codec \<Rightarrow> json \<Rightarrow> nat \<Rightarrow> net_error + string" where
  "encode_reliable_json tc message limit =
     try_bind (lift_json (tc_dump tc message)) (\<lambda>raw.
       if length raw > limit then Inr raw
       else if length raw < 1024 then Inr raw
       else case z_compress tc (str_bytes raw) of
         None \<Rightarrow> Inr raw
       | Some compressed \<Rightarrow>
           if 2 + length compressed * 2 \<ge> length raw then Inr raw
           else Inr (''Z1'' @ hex_bytes compressed))"

definition decode_reliable_json :: "text_codec \<Rightarrow> string \<Rightarrow> nat \<Rightarrow> net_error + json" where
  "decode_reliable_json tc wire limit =
     (if length wire > limit then Inl ReliableJsonError
      else if take 2 wire \<noteq> ''Z1'' then
        try_bind (check_reliable_json_depth wire) (\<lambda>_. lift_json (tc_parse tc wire))
      else let body = drop 2 wire in
        if body = [] \<or> length body mod 2 \<noteq> 0 then Inl ReliableJsonError
        else case unhex_pairs body of
          None \<Rightarrow> Inl ReliableJsonError
        | Some compressed \<Rightarrow>
            let expanded = z_content_size tc compressed in
            if expanded = 0 \<or> expanded > limit \<or> z_frame_size tc compressed \<noteq> length compressed
            then Inl ReliableJsonError
            else (case z_decompress tc expanded compressed of
              None \<Rightarrow> Inl ReliableJsonError
            | Some raw \<Rightarrow>
                if length raw \<noteq> expanded then Inl ReliableJsonError
                else try_bind (check_reliable_json_depth (bytes_str raw))
                       (\<lambda>_. lift_json (tc_parse tc (bytes_str raw)))))"

section \<open>Round trip\<close>

text \<open>
  The documented behaviour of the libraries: no JSON text starts with a letter Z, and a zstd frame
  records its sizes and decompresses to its source.  Nothing is assumed of what the parser makes of a
  printed text: it need not give back the value (a float that is no number is printed as null).
\<close>

definition codec_laws :: "text_codec \<Rightarrow> bool" where
  "codec_laws tc \<longleftrightarrow>
     (\<forall>m raw. tc_dump tc m = Inr raw \<longrightarrow> take 2 raw \<noteq> ''Z1'') \<and>
     (\<forall>x c. x \<noteq> [] \<longrightarrow> z_compress tc x = Some c \<longrightarrow> c \<noteq> [] \<and> z_content_size tc c = length x \<and>
        z_frame_size tc c = length c \<and> z_decompress tc (length x) c = Some x)"

text \<open>
  A message whose text is within the limit is read exactly as it was printed, compressed or not:
  the receiver's parser gets the text of the sender when it is nested at most 64 deep, and the line is
  refused when it is not.  The line is never longer than the text.
\<close>

theorem reliable_json_roundtrip:
  assumes laws: "codec_laws tc" and dump: "tc_dump tc m = Inr raw"
    and len: "length raw \<le> limit"
  shows "\<exists>wire. encode_reliable_json tc m limit = Inr wire \<and> length wire \<le> length raw \<and>
    decode_reliable_json tc wire limit =
      try_bind (check_reliable_json_depth raw) (\<lambda>_. lift_json (tc_parse tc raw))"
proof -
  have raw: "take 2 raw \<noteq> ''Z1''" using laws dump by (auto simp: codec_laws_def)
  have plain: "decode_reliable_json tc raw limit = try_bind (check_reliable_json_depth raw) (\<lambda>_. lift_json (tc_parse tc raw))"
    using raw len by (simp add: decode_reliable_json_def)
  have "encode_reliable_json tc m limit = Inr raw \<or> (\<exists>c. z_compress tc (str_bytes raw) = Some c \<and>
      2 + length c * 2 < length raw \<and> encode_reliable_json tc m limit = Inr (''Z1'' @ hex_bytes c))"
    using dump by (cases "z_compress tc (str_bytes raw)") (simp_all add: encode_reliable_json_def lift_json_def)
  then consider "encode_reliable_json tc m limit = Inr raw"
    | c where "z_compress tc (str_bytes raw) = Some c" "2 + length c * 2 < length raw"
        "encode_reliable_json tc m limit = Inr (''Z1'' @ hex_bytes c)"
    by blast
  then show ?thesis
  proof cases
    case 1
    then show ?thesis using plain by simp
  next
    case (2 c)
    then have long: "raw \<noteq> []" by auto
    then have "str_bytes raw \<noteq> []" by simp
    then have "c \<noteq> [] \<and> z_content_size tc c = length (str_bytes raw) \<and> z_frame_size tc c = length c \<and>
        z_decompress tc (length (str_bytes raw)) c = Some (str_bytes raw)"
      using laws 2(1) unfolding codec_laws_def by blast
    then have "c \<noteq> []" "z_content_size tc c = length raw" "z_frame_size tc c = length c"
      "z_decompress tc (length raw) c = Some (str_bytes raw)" by auto
    moreover have "hex_bytes c \<noteq> []" using \<open>c \<noteq> []\<close>
      by (metis length_0_conv length_hex_bytes mult_eq_0_iff zero_neq_numeral)
    ultimately have "decode_reliable_json tc (''Z1'' @ hex_bytes c) limit =
        try_bind (check_reliable_json_depth raw) (\<lambda>_. lift_json (tc_parse tc raw))"
      using 2(2) len long
      by (simp add: decode_reliable_json_def unhex_hex_bytes Let_def map_idI)
    then show ?thesis using 2 by simp
  qed
qed

text \<open>
  The laws can hold with a line that is really compressed: a printer for one kind of value, and a
  run-length frame for texts of one repeated byte.
\<close>

definition toy_codec :: text_codec where
  "toy_codec =
     \<lparr>tc_dump = (\<lambda>m. case m of JStr s \<Rightarrow> Inr (CHR 0x22 # s) | _ \<Rightarrow> Inl TypeError),
      tc_parse = (\<lambda>s. if s \<noteq> [] then Inr (JStr (tl s)) else Inl ParseError),
      z_compress = (\<lambda>x. Some (if x \<noteq> [] \<and> length x < 65536 \<and> tl x = replicate (length x - 1) (last x)
                             then [1, hd x, last x] @ put_le (word_of_nat (length x)) 2 else 0 # x)),
      z_content_size = (\<lambda>c. if hd c = 1 then unat (get_le (drop 3 c)) else length c - 1),
      z_frame_size = length,
      z_decompress = (\<lambda>n c. if hd c = 1 then Some (c ! 1 # replicate (unat (get_le (drop 3 c)) - 1) (c ! 2))
                            else Some (tl c))\<rparr>"

lemma toy_codec_laws: "codec_laws toy_codec"
proof -
  have run: "unat (get_le (put_le (word_of_nat n) 2)) = n" if "n < 65536" for n
    using that by (simp add: get_le_put_le_mask unsigned_take_bit_eq unat_of_nat take_bit_nat_def)
  have rep: "hd x # replicate (length x - Suc 0) (last x) = x"
    if "x \<noteq> []" "tl x = replicate (length x - Suc 0) (last x)" for x :: bytes
    using that by (metis list.collapse)
  have d: "take 2 raw \<noteq> ''Z1''" if "tc_dump toy_codec m = Inr raw" for m raw
    using that by (cases m) (auto simp: toy_codec_def)
  have z: "c \<noteq> [] \<and> z_content_size toy_codec c = length x \<and> z_frame_size toy_codec c = length c \<and>
      z_decompress toy_codec (length x) c = Some x"
    if "x \<noteq> []" "z_compress toy_codec x = Some c" for x c
    using that rep run [of "length x"] by (auto simp: toy_codec_def run split: if_splits)
  show ?thesis using d z by (simp add: codec_laws_def)
qed

lemma check_depth_plain:
  "CHR 0x22 \<notin> set s \<Longrightarrow> CHR 0x5C \<notin> set s \<Longrightarrow> check_depth n True False s = Inr ()"
  by (induction s) auto

lemma reliable_json_roundtrip_witness:
  "\<exists>wire. encode_reliable_json toy_codec (JStr (replicate 2000 CHR ''a'')) 4000 = Inr wire \<and>
     length wire = 12 \<and> decode_reliable_json toy_codec wire 4000 = Inr (JStr (replicate 2000 CHR ''a''))"
proof -
  let ?m = "JStr (replicate 2000 CHR ''a'')" and ?raw = "CHR 0x22 # replicate 2000 CHR ''a''"
  have d: "tc_dump toy_codec ?m = Inr ?raw" by (simp add: toy_codec_def)
  have n: "check_reliable_json_depth ?raw = Inr ()"
    unfolding check_reliable_json_depth_def check_depth.simps
    by (simp del: replicate.simps add: check_depth_plain)
  have "\<exists>c. z_compress toy_codec (str_bytes ?raw) = Some c \<and> length c = 5"
    by (simp add: toy_codec_def del: replicate.simps)
  then obtain c where c: "z_compress toy_codec (str_bytes ?raw) = Some c" "length c = 5" by blast
  have e: "encode_reliable_json toy_codec ?m 4000 = Inr (''Z1'' @ hex_bytes c)"
    using d c by (simp add: encode_reliable_json_def lift_json_def del: replicate.simps list.map)
  show ?thesis
    using reliable_json_roundtrip [OF toy_codec_laws d, of 4000] e c(2) n
    by (auto simp: lift_json_def toy_codec_def simp del: replicate.simps)
qed

end
