(* ===== verification/Udp_Header.thy ===== *)
theory Udp_Header
  imports Peer_Tunnel
begin

text \<open>
  The 58-byte header of realtime datagrams, shared by the codec of the game
  (\<open>src/net/udp_codec.cpp\<close>) and by the relay (\<open>tools/multiplayer_relay/relay.cpp\<close>): the packed
  structure, its byte image on a little endian host, and the identity field.
\<close>

section \<open>Constants and packet types\<close>

definition kChunkPayloadBytes :: nat where "kChunkPayloadBytes = 1100"
definition kSenderIdBytes :: nat where "kSenderIdBytes = 32"
definition kMaxCompressedBytes :: nat where "kMaxCompressedBytes = 256 * 1024"
definition kMaxUncompressedBytes :: nat where "kMaxUncompressedBytes = 512 * 1024"
definition kMaxInflightSequences :: nat where "kMaxInflightSequences = 8"

definition PoseJson :: u8 where "PoseJson = 1"
definition PoseMsgpack :: u8 where "PoseMsgpack = 2"
definition RemoteObject :: u8 where "RemoteObject = 3"
definition MidnaMsgpack :: u8 where "MidnaMsgpack = 4"
definition PoseAck :: u8 where "PoseAck = 5"
definition RelayRegister :: u8 where "RelayRegister = 6"
definition SemanticPoseMsgpack :: u8 where "SemanticPoseMsgpack = 7"
definition VoiceOpus :: u8 where "VoiceOpus = 8"

lemmas packet_types = PoseJson_def PoseMsgpack_def RemoteObject_def MidnaMsgpack_def PoseAck_def
  RelayRegister_def SemanticPoseMsgpack_def VoiceOpus_def

definition is_message_type :: "u8 \<Rightarrow> bool" where
  "is_message_type t \<longleftrightarrow> t = PoseJson \<or> t = PoseMsgpack \<or> t = MidnaMsgpack \<or> t = SemanticPoseMsgpack"

definition is_known_type :: "u8 \<Rightarrow> bool" where
  "is_known_type t \<longleftrightarrow> t \<ge> PoseJson \<and> t \<le> VoiceOpus"

section \<open>The header\<close>

record udp_header =
  uh_magic :: bytes
  uh_version :: u8
  uh_type :: u8
  uh_headerSize :: u16
  uh_sequence :: u32
  uh_chunkIndex :: u16
  uh_chunkCount :: u16
  uh_uncompressedSize :: u32
  uh_compressedSize :: u32
  uh_payloadSize :: u16
  uh_senderId :: bytes

text \<open>\<open>std::memcpy\<close> of the structure to and from the datagram.\<close>

definition header_bytes :: "udp_header \<Rightarrow> bytes" where
  "header_bytes h =
     uh_magic h @ [uh_version h, uh_type h] @ put_le (ucast (uh_headerSize h)) 2 @
     put_le (ucast (uh_sequence h)) 4 @ put_le (ucast (uh_chunkIndex h)) 2 @
     put_le (ucast (uh_chunkCount h)) 2 @ put_le (ucast (uh_uncompressedSize h)) 4 @
     put_le (ucast (uh_compressedSize h)) 4 @ put_le (ucast (uh_payloadSize h)) 2 @ uh_senderId h"

definition read_header :: "bytes \<Rightarrow> udp_header" where
  "read_header bs =
     \<lparr>uh_magic = take 4 bs, uh_version = bs ! 4, uh_type = bs ! 5,
      uh_headerSize = ucast (get_le (subspan 6 2 bs)),
      uh_sequence = ucast (get_le (subspan 8 4 bs)),
      uh_chunkIndex = ucast (get_le (subspan 12 2 bs)),
      uh_chunkCount = ucast (get_le (subspan 14 2 bs)),
      uh_uncompressedSize = ucast (get_le (subspan 16 4 bs)),
      uh_compressedSize = ucast (get_le (subspan 20 4 bs)),
      uh_payloadSize = ucast (get_le (subspan 24 2 bs)),
      uh_senderId = subspan 26 32 bs\<rparr>"

definition kHeaderBytes :: nat where "kHeaderBytes = 58"

definition header_shape :: "udp_header \<Rightarrow> bool" where
  "header_shape h \<longleftrightarrow> length (uh_magic h) = 4 \<and> length (uh_senderId h) = kSenderIdBytes"

lemma ucast_get_put_2 [simp]: "ucast (get_le (put_le (ucast (w :: u16)) 2)) = w"
  unfolding get_le_put_le_mask by (rule bit_word_eqI) (auto simp: bit_simps)

lemma ucast_get_put_4 [simp]: "ucast (get_le (put_le (ucast (w :: u32)) 4)) = w"
  unfolding get_le_put_le_mask by (rule bit_word_eqI) (auto simp: bit_simps)

lemma length_header_bytes: "header_shape h \<Longrightarrow> length (header_bytes h) = kHeaderBytes"
  by (simp add: header_bytes_def header_shape_def kHeaderBytes_def kSenderIdBytes_def)

lemma subspan_skip: "length a \<le> off \<Longrightarrow> subspan off n (a @ b) = subspan (off - length a) n b"
  by (simp add: subspan_def)

lemma subspan_here: "length a = n \<Longrightarrow> subspan 0 n (a @ b) = a"
  by (simp add: subspan_def)

lemma read_header_bytes:
  assumes "header_shape h"
  shows "read_header (header_bytes h @ payload) = h"
proof -
  have len: "length (uh_magic h) = 4" "length (uh_senderId h) = 32"
    using assms by (auto simp: header_shape_def kSenderIdBytes_def)
  show ?thesis
    by (rule udp_header.equality)
       (simp_all add: read_header_def header_bytes_def len nth_append subspan_skip subspan_here
          del: put_le.simps append_assoc flip: append_assoc, simp_all add: subspan_def len)
qed

section \<open>The identity field\<close>

definition copy_id :: "string \<Rightarrow> bytes" where
  "copy_id source =
     (let s = take (kSenderIdBytes - 1) (str_bytes source) in s @ replicate (kSenderIdBytes - length s) 0)"

definition read_id :: "bytes \<Rightarrow> string" where
  "read_id bs = bytes_str (takeWhile (\<lambda>b. b \<noteq> 0) bs)"

lemma length_copy_id [simp, byte_simps]: "length (copy_id s) = kSenderIdBytes"
  by (simp add: copy_id_def Let_def kSenderIdBytes_def)

lemma byte_of_char_zero: "byte_of_char c = 0 \<longleftrightarrow> c = CHR 0x00"
proof -
  have "byte_of_char (CHR 0x00) = 0" by (simp add: byte_of_char_def)
  then show ?thesis by (metis char_of_byte_of_char)
qed

lemma read_copy_id:
  assumes "CHR 0x00 \<notin> set s" and "length s < kSenderIdBytes"
  shows "read_id (copy_id s) = s"
proof -
  have "takeWhile (\<lambda>b. b \<noteq> 0) (str_bytes s @ replicate n 0) = str_bytes s" for n
    using assms(1) by (auto simp: takeWhile_append byte_of_char_zero)
  then show ?thesis
    using assms(2) by (simp add: read_id_def copy_id_def Let_def map_idI)
qed

end
