(* ===== verification/Relay_State.thy ===== *)
theory Relay_State
  imports Interfaces Reliable_Json Floating Udp_Header
begin

text \<open>
  The relay server, \<open>tools/multiplayer_relay/relay.cpp\<close>: its constants, the state it keeps of
  clients and rooms, and the operations that queue messages for a client.  An action takes the
  state and returns the new state with its result or the exception it throws; the state reached
  before the exception is kept, as in the code.  A \<open>Client&\<close> is the client's identifier.
\<close>

section \<open>Actions\<close>

type_synonym ('s, 'a) action = "'s \<Rightarrow> (net_error + 'a) \<times> 's"

definition act_return :: "'a \<Rightarrow> ('s, 'a) action" where
  "act_return a s = (Inr a, s)"

definition act_lift :: "net_error + 'a \<Rightarrow> ('s, 'a) action" where
  "act_lift r s = (r, s)"

definition act_bind :: "('s, 'a) action \<Rightarrow> ('a \<Rightarrow> ('s, 'b) action) \<Rightarrow> ('s, 'b) action" where
  "act_bind m f s = (case m s of (Inl e, s') \<Rightarrow> (Inl e, s') | (Inr a, s') \<Rightarrow> f a s')"

definition act_read :: "('s \<Rightarrow> ('s, 'a) action) \<Rightarrow> ('s, 'a) action" where
  "act_read f s = f s s"

definition act_modify :: "('s \<Rightarrow> 's) \<Rightarrow> ('s, unit) action" where
  "act_modify f s = (Inr (), f s)"

definition act_seq :: "('s, 'a) action \<Rightarrow> ('s, 'b) action \<Rightarrow> ('s, 'b) action" where
  "act_seq m n = act_bind m (\<lambda>_. n)"

fun act_each :: "('x \<Rightarrow> ('s, unit) action) \<Rightarrow> 'x list \<Rightarrow> ('s, unit) action" where
  "act_each f [] = act_return ()"
| "act_each f (x # xs) = act_seq (f x) (act_each f xs)"

abbreviation act_json :: "json_error + 'a \<Rightarrow> ('s, 'a) action" where
  "act_json r \<equiv> act_lift (lift_json r)"

section \<open>Constants\<close>

definition kProtocolVersion :: int where "kProtocolVersion = 4"
definition kMaxLineBytes :: nat where "kMaxLineBytes = reliablePeerFrameLimit"
definition kMaxQueuedBytes :: nat where "kMaxQueuedBytes = 8 * 1024 * 1024"
definition kMaxRoomClients :: nat where "kMaxRoomClients = 8"
definition kMaxRoomIdBytes :: nat where "kMaxRoomIdBytes = 64"
definition kMaxUsernameBytes :: nat where "kMaxUsernameBytes = 32"
definition kMaxReliableSequences :: nat where "kMaxReliableSequences = 4096"
definition kMaxReadBytesPerTick :: nat where "kMaxReadBytesPerTick = 256 * 1024"
definition kMaxUdpDatagramBytes :: nat where "kMaxUdpDatagramBytes = 2048"
definition kMaxUdpBytesPerClientSecond :: nat where "kMaxUdpBytesPerClientSecond = 4 * 1024 * 1024"

definition kGameplayRouteTypes :: "string list" where
  "kGameplayRouteTypes = [
    ''event_bit'', ''tbox_bit'', ''switch_bit'', ''room_switch_bit'', ''item_bit'',
    ''dungeon_item_bit'', ''save_snapshot'', ''key_num'', ''light_drop_num'', ''light_drop_get_flag'',
    ''max_life_update'', ''bottle_slots'', ''bomb_bag_slot'', ''rupee_count'', ''rupee_delta'',
    ''poe_count'', ''malo_fundraising'', ''charlo_offering'', ''fish_record'', ''collect_smell'',
    ''item_get'', ''trade_item'', ''rando_item_get'', ''item_first_bit'', ''collect_crystal'',
    ''collect_mirror'', ''dark_clear_lv'', ''transform_lv'', ''region_bit'', ''collect'',
    ''visited_room'', ''letter_get'', ''presence'', ''progression_state'', ''puppet_preference'',
    ''midna_preference'', ''midna_pose'', ''pvp_hit'', ''ganondorf_owner_claim'', ''ganondorf_owner'',
    ''ganondorf_hit'', ''ganondorf_reaction'', ''ganondorf_player_damage'', ''ganondorf_state'',
    ''ooccoo_state'', ''chat'']"

definition capability_flag :: "string \<Rightarrow> json \<Rightarrow> bool" where
  "capability_flag name message =
     (case j_find ''capabilities'' message of
        Some caps \<Rightarrow> (if is_object caps then (case j_find name caps of Some (JBool b) \<Rightarrow> b | _ \<Rightarrow> False)
                     else False)
      | None \<Rightarrow> False)"

definition has_semantic_visual_capability :: "json \<Rightarrow> bool" where
  "has_semantic_visual_capability = capability_flag ''semantic_visual_v1''"

definition has_snapshot_delta_capability :: "json \<Rightarrow> bool" where
  "has_snapshot_delta_capability = capability_flag ''semantic_snapshot_delta_v1''"

section \<open>State\<close>

type_synonym udp_addr = "u32 \<times> u16"
type_synonym conn_id = u64

record client =
  cl_sock :: conn_id
  cl_id :: string
  cl_peerEndpoint :: string
  cl_roomId :: string
  cl_pendingRoomId :: string
  cl_pendingAction :: string
  cl_authNonce :: string
  cl_authSalt :: string
  cl_name :: string
  cl_stage :: string
  cl_rxBuffer :: string
  cl_txQueue :: "string list"
  cl_txQueuedBytes :: nat
  cl_reliableOrder :: "u32 list"
  cl_reliableSeen :: "u32 list"
  cl_udpToken :: string
  cl_udpAddr :: udp_addr
  cl_acceptedAt :: int
  cl_udpRateWindowStarted :: int
  cl_udpRateWindowBytes :: nat
  cl_signalWindow :: int
  cl_signalBytes :: nat
  cl_poseCount :: u32
  cl_closeAfterFlush :: bool
  cl_disconnectRequested :: bool
  cl_wantsPuppet :: bool
  cl_wantsMidna :: bool
  cl_supportsSemanticVisuals :: bool
  cl_supportsSnapshotDeltas :: bool
  cl_udpAddrKnown :: bool

definition new_client :: "int \<Rightarrow> client" where
  "new_client now =
     \<lparr>cl_sock = 0, cl_id = [], cl_peerEndpoint = [], cl_roomId = [], cl_pendingRoomId = [],
      cl_pendingAction = [], cl_authNonce = [], cl_authSalt = [], cl_name = [], cl_stage = [],
      cl_rxBuffer = [], cl_txQueue = [], cl_txQueuedBytes = 0, cl_reliableOrder = [],
      cl_reliableSeen = [], cl_udpToken = [], cl_udpAddr = (0, 0), cl_acceptedAt = now,
      cl_udpRateWindowStarted = now, cl_udpRateWindowBytes = 0, cl_signalWindow = now,
      cl_signalBytes = 0, cl_poseCount = 0, cl_closeAfterFlush = False,
      cl_disconnectRequested = False, cl_wantsPuppet = True, cl_wantsMidna = False,
      cl_supportsSemanticVisuals = False, cl_supportsSnapshotDeltas = False, cl_udpAddrKnown = False\<rparr>"

record room =
  rm_id :: string
  rm_authSalt :: string
  rm_proofKey :: string
  rm_clientIds :: "string list"
  rm_owner :: string
  rm_generation :: u64
  rm_pending :: json
  rm_waiting :: "string list"
  rm_settingsStarted :: int
  rm_dummyModel :: bool
  rm_syncFlags :: bool
  rm_syncWorld :: bool
  rm_semanticVisualsReady :: bool
  rm_snapshotDeltasReady :: bool
  rm_remoteCollision :: bool
  rm_pvp :: bool

definition new_room :: room where
  "new_room =
     \<lparr>rm_id = [], rm_authSalt = [], rm_proofKey = [], rm_clientIds = [], rm_owner = [],
      rm_generation = 0, rm_pending = JNull, rm_waiting = [], rm_settingsStarted = 0,
      rm_dummyModel = True, rm_syncFlags = True, rm_syncWorld = False,
      rm_semanticVisualsReady = False, rm_snapshotDeltasReady = False,
      rm_remoteCollision = True, rm_pvp = False\<rparr>"

text \<open>What the relay does to its socket is recorded in order, oldest first.\<close>

datatype relay_effect =
    SendRealtime udp_addr bytes
  | BindRealtime conn_id udp_addr
  | SendStream conn_id string
  | DisconnectPeer conn_id

record relay =
  rl_clients :: "(string, client) omap"
  rl_rooms :: "(string, room) omap"
  rl_effects :: "relay_effect list"

definition relay_start :: relay where
  "relay_start = \<lparr>rl_clients = [], rl_rooms = [], rl_effects = []\<rparr>"

text \<open>
  What the code obtains from outside during a call: the text codec, both clocks, the next random
  nonces (nothing when the system has no randomness), the options it was started with, and the
  platform's \<open>FD_SETSIZE - 2\<close>.
\<close>

record relay_env =
  re_codec :: text_codec
  re_now :: int
  re_wall :: fl
  re_nonce :: "string option"
  re_salt :: "string option"
  re_publicPort :: int
  re_helloTimeout :: rat
  re_verbose :: bool
  re_maxClients :: nat

type_synonym 'a relay_act = "(relay, 'a) action"

definition client_of :: "string \<Rightarrow> relay \<Rightarrow> client" where
  "client_of cid s = (case map_of (rl_clients s) cid of Some c \<Rightarrow> c | None \<Rightarrow> new_client 0)"

definition upd_client :: "string \<Rightarrow> (client \<Rightarrow> client) \<Rightarrow> relay \<Rightarrow> relay" where
  "upd_client cid f s =
     (case map_of (rl_clients s) cid of
        None \<Rightarrow> s
      | Some c \<Rightarrow> s\<lparr>rl_clients := om_put cid (f c) (rl_clients s)\<rparr>)"

definition upd_room :: "string \<Rightarrow> (room \<Rightarrow> room) \<Rightarrow> relay \<Rightarrow> relay" where
  "upd_room rid f s =
     (case map_of (rl_rooms s) rid of
        None \<Rightarrow> s
      | Some r \<Rightarrow> s\<lparr>rl_rooms := om_put rid (f r) (rl_rooms s)\<rparr>)"

definition add_effect :: "relay_effect \<Rightarrow> relay \<Rightarrow> relay" where
  "add_effect e s = s\<lparr>rl_effects := rl_effects s @ [e]\<rparr>"

abbreviation set_client :: "string \<Rightarrow> (client \<Rightarrow> client) \<Rightarrow> unit relay_act" where
  "set_client cid f \<equiv> act_modify (upd_client cid f)"

abbreviation set_room :: "string \<Rightarrow> (room \<Rightarrow> room) \<Rightarrow> unit relay_act" where
  "set_room rid f \<equiv> act_modify (upd_room rid f)"

section \<open>Room settings\<close>

definition room_settings_json :: "room \<Rightarrow> json" where
  "room_settings_json r =
     j_obj [(''dummy_model'', JBool (rm_dummyModel r)), (''sync_flags'', JBool (rm_syncFlags r)),
            (''sync_world'', JBool (rm_syncWorld r)), (''remote_collision'', JBool (rm_remoteCollision r)),
            (''pvp'', JBool (rm_pvp r))]"

definition read_bool :: "json \<Rightarrow> string \<Rightarrow> bool \<Rightarrow> bool option" where
  "read_bool settings key v =
     (case j_find key settings of None \<Rightarrow> Some v | Some (JBool b) \<Rightarrow> Some b | Some _ \<Rightarrow> None)"

definition apply_room_settings :: "json \<Rightarrow> room \<Rightarrow> room option" where
  "apply_room_settings settings r =
     (if \<not> is_object settings then None
      else case (read_bool settings ''dummy_model'' (rm_dummyModel r),
                 read_bool settings ''sync_flags'' (rm_syncFlags r),
                 read_bool settings ''sync_world'' (rm_syncWorld r),
                 read_bool settings ''remote_collision'' (rm_remoteCollision r),
                 read_bool settings ''pvp'' (rm_pvp r)) of
        (Some dummyModel, Some syncFlags, Some syncWorld, Some remoteCollision, Some pvp) \<Rightarrow>
          Some (r\<lparr>rm_dummyModel := dummyModel, rm_syncFlags := syncFlags, rm_syncWorld := syncWorld,
                  rm_remoteCollision := remoteCollision, rm_pvp := remoteCollision \<and> pvp\<rparr>)
      | _ \<Rightarrow> None)"

section \<open>Queueing messages\<close>

definition send_json :: "relay_env \<Rightarrow> string \<Rightarrow> json \<Rightarrow> bool relay_act" where
  "send_json env cid message =
     act_bind (act_lift (encode_reliable_json (re_codec env) message reliablePeerFrameLimit)) (\<lambda>line.
     let bytes = line @ [CHR 0x0A] in
     act_read (\<lambda>s.
       if length bytes > kMaxQueuedBytes \<or>
          cl_txQueuedBytes (client_of cid s) > kMaxQueuedBytes - length bytes
       then act_seq (set_client cid (\<lambda>c. c\<lparr>cl_disconnectRequested := True\<rparr>)) (act_return False)
       else act_seq (set_client cid (\<lambda>c. c\<lparr>cl_txQueuedBytes := cl_txQueuedBytes c + length bytes,
                                           cl_txQueue := cl_txQueue c @ [bytes]\<rparr>))
              (act_return True)))"

abbreviation send_json_ignored :: "relay_env \<Rightarrow> string \<Rightarrow> json \<Rightarrow> unit relay_act" where
  "send_json_ignored env cid message \<equiv> act_seq (send_json env cid message) (act_return ())"

definition send_error :: "relay_env \<Rightarrow> string \<Rightarrow> string \<Rightarrow> unit relay_act" where
  "send_error env cid err =
     send_json_ignored env cid (j_obj [(''type'', JStr ''error''), (''error'', JStr err)])"

definition reject_and_close :: "relay_env \<Rightarrow> string \<Rightarrow> string \<Rightarrow> unit relay_act" where
  "reject_and_close env cid err =
     act_seq (send_error env cid err)
     (set_client cid (\<lambda>c. c\<lparr>cl_closeAfterFlush := True,
        cl_disconnectRequested := (if cl_txQueue c = [] then True else cl_disconnectRequested c)\<rparr>))"

text \<open>A message that cannot be queued for a peer marks that peer for disconnection.\<close>

definition send_or_drop :: "relay_env \<Rightarrow> string \<Rightarrow> json \<Rightarrow> unit relay_act" where
  "send_or_drop env pid message =
     act_bind (send_json env pid message) (\<lambda>sent.
       if sent then act_return () else set_client pid (\<lambda>c. c\<lparr>cl_disconnectRequested := True\<rparr>))"

definition broadcast_one :: "relay_env \<Rightarrow> string \<Rightarrow> json \<Rightarrow> string \<Rightarrow> unit relay_act" where
  "broadcast_one env sender message pid =
     (if pid = sender then act_return ()
      else act_read (\<lambda>s. case map_of (rl_clients s) pid of
        None \<Rightarrow> act_return ()
      | Some peer \<Rightarrow> if cl_closeAfterFlush peer then act_return () else send_or_drop env pid message))"

text \<open>The sender is given by its room and its identifier: a departed client is in no table.\<close>

definition broadcast :: "relay_env \<Rightarrow> string \<Rightarrow> string \<Rightarrow> json \<Rightarrow> unit relay_act" where
  "broadcast env rid sender message =
     act_read (\<lambda>s. case map_of (rl_rooms s) rid of
       None \<Rightarrow> act_return ()
     | Some r \<Rightarrow> act_each (broadcast_one env sender message) (rm_clientIds r))"

abbreviation broadcast_from :: "relay_env \<Rightarrow> string \<Rightarrow> json \<Rightarrow> unit relay_act" where
  "broadcast_from env cid message \<equiv>
     act_read (\<lambda>s. broadcast env (cl_roomId (client_of cid s)) cid message)"

definition send_to_client :: "relay_env \<Rightarrow> string \<Rightarrow> string \<Rightarrow> json \<Rightarrow> bool relay_act" where
  "send_to_client env cid target message =
     act_read (\<lambda>s. case map_of (rl_rooms s) (cl_roomId (client_of cid s)) of
       None \<Rightarrow> act_return False
     | Some r \<Rightarrow>
         (if target \<notin> set (rm_clientIds r) then act_return False
          else case map_of (rl_clients s) target of
            None \<Rightarrow> act_return False
          | Some peer \<Rightarrow>
              if cl_closeAfterFlush peer then act_return False
              else act_seq (send_or_drop env target message) (act_return True)))"

section \<open>Capabilities of a room\<close>

definition all_members :: "(client \<Rightarrow> bool) \<Rightarrow> (string, client) omap \<Rightarrow> string list \<Rightarrow> bool" where
  "all_members P clients ids \<longleftrightarrow> ids \<noteq> [] \<and>
     list_all (\<lambda>i. case map_of clients i of None \<Rightarrow> False | Some c \<Rightarrow> P c) ids"

definition room_semantic_visuals_ready :: "relay \<Rightarrow> room \<Rightarrow> bool" where
  "room_semantic_visuals_ready s r = all_members cl_supportsSemanticVisuals (rl_clients s) (rm_clientIds r)"

definition room_snapshot_deltas_ready :: "relay \<Rightarrow> room \<Rightarrow> bool" where
  "room_snapshot_deltas_ready s r = all_members cl_supportsSnapshotDeltas (rl_clients s) (rm_clientIds r)"

section \<open>Committing settings\<close>

definition settings_commit :: "room \<Rightarrow> json" where
  "settings_commit r =
     j_obj [(''type'', JStr ''room_settings''), (''settings_generation'', JUInt (unat (rm_generation r))),
            (''owner_client_id'', JStr (rm_owner r)),
            (''semantic_visuals_ready'', JBool (rm_semanticVisualsReady r)),
            (''snapshot_deltas_ready'', JBool (rm_snapshotDeltasReady r)),
            (''settings'', room_settings_json r)]"

definition commit_room :: "room \<Rightarrow> room" where
  "commit_room r =
     (let r' = (case apply_room_settings (rm_pending r) r of Some r' \<Rightarrow> r' | None \<Rightarrow> r)
      in r'\<lparr>rm_pending := JNull, rm_generation := rm_generation r' + 1\<rparr>)"

definition send_if_known :: "relay_env \<Rightarrow> json \<Rightarrow> string \<Rightarrow> unit relay_act" where
  "send_if_known env message i =
     act_read (\<lambda>s. case map_of (rl_clients s) i of
       None \<Rightarrow> act_return () | Some _ \<Rightarrow> send_json_ignored env i message)"

definition finish_settings :: "relay_env \<Rightarrow> string \<Rightarrow> unit relay_act" where
  "finish_settings env rid =
     act_read (\<lambda>s. case map_of (rl_rooms s) rid of
       None \<Rightarrow> act_return ()
     | Some r \<Rightarrow>
         if is_null (rm_pending r) \<or> rm_waiting r \<noteq> [] then act_return ()
         else act_seq (set_room rid commit_room)
                (act_each (send_if_known env (settings_commit (commit_room r))) (rm_clientIds r)))"

section \<open>Text\<close>

definition is_space :: "char \<Rightarrow> bool" where
  "is_space c \<longleftrightarrow> (of_char c :: nat) \<in> {9, 10, 11, 12, 13, 32}"

definition trim :: "string \<Rightarrow> string" where
  "trim v = rev (dropWhile is_space (rev (dropWhile is_space v)))"

end
