(* ===== verification/Relay_Routing.thy ===== *)
theory Relay_Routing
  imports Relay_State
begin

text \<open>
  Routing of one JSON message of a client: \<open>Relay::route_message\<close> and \<open>Relay::handle_hello\<close> in
  \<open>tools/multiplayer_relay/relay.cpp\<close>, one definition per message type.
\<close>

section \<open>Joining\<close>

text \<open>\<open>random_nonce\<close> throws when the system has no randomness.\<close>

definition random_nonce :: "string option \<Rightarrow> net_error + string" where
  "random_nonce n = (case n of Some v \<Rightarrow> Inr v | None \<Rightarrow> Inl FatalError)"

definition route_auth_begin :: "relay_env \<Rightarrow> string \<Rightarrow> json \<Rightarrow> unit relay_act" where
  "route_auth_begin env cid message =
     act_read (\<lambda>s. let c = client_of cid s in
     if cl_roomId c \<noteq> [] \<or> cl_authNonce c \<noteq> [] then reject_and_close env cid ''invalid_auth_begin''
     else act_bind (act_json (value_int ''protocol_version'' (- 1) message)) (\<lambda>version.
     if version \<noteq> kProtocolVersion then reject_and_close env cid ''invalid_auth_begin''
     else act_bind (act_json (value_string ''room_id'' [] message)) (\<lambda>rawRoom.
     act_bind (act_json (value_string ''action'' [] message)) (\<lambda>action.
     let roomId = trim rawRoom in
     if roomId = [] \<or> length roomId > kMaxRoomIdBytes \<or> (action \<noteq> ''create'' \<and> action \<noteq> ''join'')
     then reject_and_close env cid ''invalid_auth_begin''
     else let room = map_of (rl_rooms s) roomId in
     if room = None \<and> action \<noteq> ''create'' then reject_and_close env cid ''lobby_not_found''
     else act_seq (set_client cid (\<lambda>c. c\<lparr>cl_pendingRoomId := roomId, cl_pendingAction := action\<rparr>))
     (act_bind (act_lift (random_nonce (re_nonce env))) (\<lambda>nonce.
     act_seq (set_client cid (\<lambda>c. c\<lparr>cl_authNonce := nonce\<rparr>))
     (act_bind (case room of None \<Rightarrow> act_lift (random_nonce (re_salt env))
                           | Some r \<Rightarrow> act_return (rm_authSalt r)) (\<lambda>salt.
     act_seq (set_client cid (\<lambda>c. c\<lparr>cl_authSalt := salt\<rparr>))
     (send_json_ignored env cid
        (j_obj [(''type'', JStr ''auth_challenge''), (''nonce'', JStr nonce), (''salt'', JStr salt)]))))))))))"

definition peer_json :: "client \<Rightarrow> json" where
  "peer_json c =
     j_obj [(''client_id'', JStr (cl_id c)), (''name'', JStr (cl_name c)),
            (''want_puppet'', JBool (cl_wantsPuppet c)), (''stage'', JStr (cl_stage c))]"

definition peers_json :: "(string, client) omap \<Rightarrow> string list \<Rightarrow> json" where
  "peers_json clients ids =
     JArr (concat (map (\<lambda>i. case map_of clients i of None \<Rightarrow> [] | Some c \<Rightarrow> [peer_json c]) ids))"

definition welcome_json :: "relay_env \<Rightarrow> client \<Rightarrow> room \<Rightarrow> string \<Rightarrow> json \<Rightarrow> json" where
  "welcome_json env c r roomId peers =
     j_obj [(''type'', JStr ''welcome''), (''protocol_version'', JInt kProtocolVersion),
            (''room_id'', JStr roomId), (''client_id'', JStr (cl_id c)),
            (''udp_token'', JStr (cl_udpToken c)), (''stun_port'', JInt (re_publicPort env)),
            (''settings_generation'', JUInt (unat (rm_generation r))),
            (''settings_pending'', JBool (\<not> is_null (rm_pending r))),
            (''owner_client_id'', JStr (rm_owner r)),
            (''semantic_visuals_ready'', JBool (rm_semanticVisualsReady r)),
            (''snapshot_deltas_ready'', JBool (rm_snapshotDeltasReady r)),
            (''settings'', room_settings_json r), (''peers'', peers)]"

definition joined_json :: "client \<Rightarrow> room \<Rightarrow> json" where
  "joined_json c r =
     j_obj [(''type'', JStr ''peer_joined''), (''client_id'', JStr (cl_id c)),
            (''want_puppet'', JBool (cl_wantsPuppet c)), (''name'', JStr (cl_name c)),
            (''semantic_visuals_ready'', JBool (rm_semanticVisualsReady r)),
            (''snapshot_deltas_ready'', JBool (rm_snapshotDeltasReady r))]"

text \<open>The member is listed, and the room's capabilities are computed again.\<close>

definition add_member :: "string \<Rightarrow> string \<Rightarrow> relay \<Rightarrow> relay" where
  "add_member rid cid s =
     upd_room rid (\<lambda>r. let r' = r\<lparr>rm_clientIds := rm_clientIds r @ [cid]\<rparr> in
       r'\<lparr>rm_semanticVisualsReady := room_semantic_visuals_ready s r',
          rm_snapshotDeltasReady := room_snapshot_deltas_ready s r'\<rparr>) s"

definition announce_member :: "relay_env \<Rightarrow> string \<Rightarrow> string \<Rightarrow> json \<Rightarrow> unit relay_act" where
  "announce_member env cid roomId peers =
     act_read (\<lambda>s. case map_of (rl_rooms s) roomId of
       None \<Rightarrow> act_return ()
     | Some r \<Rightarrow> act_seq (send_json_ignored env cid (welcome_json env (client_of cid s) r roomId peers))
                  (broadcast_from env cid (joined_json (client_of cid s) r)))"

text \<open>The last part of \<open>handle_hello\<close>: the client enters an existing room that has space.\<close>

definition enter_room :: "relay_env \<Rightarrow> string \<Rightarrow> string \<Rightarrow> string \<Rightarrow> json \<Rightarrow> unit relay_act" where
  "enter_room env cid roomId name hello =
     act_seq (set_client cid (\<lambda>c. c\<lparr>cl_roomId := roomId, cl_name := name\<rparr>))
     (act_bind (act_json (value_bool ''want_puppet'' True hello)) (\<lambda>puppet.
     act_seq (set_client cid (\<lambda>c. c\<lparr>cl_wantsPuppet := puppet\<rparr>))
     (act_bind (act_json (value_bool ''want_midna'' False hello)) (\<lambda>midna.
     act_seq (set_client cid (\<lambda>c. c\<lparr>cl_wantsMidna := midna,
        cl_supportsSemanticVisuals := has_semantic_visual_capability hello,
        cl_supportsSnapshotDeltas := has_snapshot_delta_capability hello\<rparr>))
     (act_read (\<lambda>s.
        let ids = (case map_of (rl_rooms s) roomId of None \<Rightarrow> [] | Some r \<Rightarrow> rm_clientIds r);
            peers = peers_json (rl_clients s) ids
        in act_seq (act_modify (add_member roomId cid)) (announce_member env cid roomId peers)))))))"

definition admit_member :: "relay_env \<Rightarrow> string \<Rightarrow> string \<Rightarrow> string \<Rightarrow> json \<Rightarrow> unit relay_act" where
  "admit_member env cid roomId name hello =
     act_read (\<lambda>s. case map_of (rl_rooms s) roomId of
       None \<Rightarrow> act_return ()
     | Some r \<Rightarrow> if length (rm_clientIds r) \<ge> kMaxRoomClients then send_error env cid ''lobby_full''
                else enter_room env cid roomId name hello)"

text \<open>The key a creator's verifier gives, when his proof of it is right.\<close>

definition creator_key :: "client \<Rightarrow> string \<Rightarrow> string \<Rightarrow> bytes option" where
  "creator_key c verifierHex proofHex =
     (case unhex_digest verifierHex of
        None \<Rightarrow> None
      | Some verifier \<Rightarrow>
          (case room_proof_key verifier (cl_authSalt c) of
             None \<Rightarrow> None
           | Some key \<Rightarrow> if ct_equal proofHex (room_proof key (cl_authNonce c)) then Some key else None))"

definition hello_create :: "relay_env \<Rightarrow> string \<Rightarrow> string \<Rightarrow> string \<Rightarrow> string \<Rightarrow> json \<Rightarrow> unit relay_act" where
  "hello_create env cid roomId name proofHex hello =
     act_read (\<lambda>s.
     if map_of (rl_rooms s) roomId \<noteq> None then send_error env cid ''lobby_exists''
     else act_bind (act_json (value_string ''code_verifier'' [] hello)) (\<lambda>verifierHex.
     case creator_key (client_of cid s) verifierHex proofHex of
       None \<Rightarrow> reject_and_close env cid ''invalid_lobby_code_proof''
     | Some key \<Rightarrow>
         act_bind (act_json (value_json ''settings'' (JObj []) hello)) (\<lambda>settings.
         case apply_room_settings settings
                (new_room\<lparr>rm_id := roomId, rm_authSalt := cl_authSalt (client_of cid s),
                          rm_proofKey := hex_bytes key, rm_owner := cid\<rparr>) of
           None \<Rightarrow> send_error env cid ''invalid_settings''
         | Some r \<Rightarrow> act_seq (act_modify (\<lambda>s. s\<lparr>rl_rooms := om_put roomId r (rl_rooms s)\<rparr>))
                      (admit_member env cid roomId name hello))))"

text \<open>A room holds the hexadecimal key written at its creation; reading it back cannot fail.\<close>

definition join_proof_ok :: "client \<Rightarrow> room \<Rightarrow> string \<Rightarrow> bool" where
  "join_proof_ok c r proofHex \<longleftrightarrow> cl_authSalt c = rm_authSalt r \<and>
     ct_equal proofHex
       (room_proof (case unhex_digest (rm_proofKey r) of Some key \<Rightarrow> key | None \<Rightarrow> []) (cl_authNonce c))"

definition hello_join :: "relay_env \<Rightarrow> string \<Rightarrow> string \<Rightarrow> string \<Rightarrow> string \<Rightarrow> json \<Rightarrow> unit relay_act" where
  "hello_join env cid roomId name proofHex hello =
     act_read (\<lambda>s. case map_of (rl_rooms s) roomId of
       None \<Rightarrow> send_error env cid ''lobby_not_found''
     | Some r \<Rightarrow> if \<not> join_proof_ok (client_of cid s) r proofHex then send_error env cid ''bad_lobby_code''
                else admit_member env cid roomId name hello)"

text \<open>The checks against the challenge of \<open>auth_begin\<close>.\<close>

definition hello_authenticate ::
  "relay_env \<Rightarrow> string \<Rightarrow> string \<Rightarrow> string \<Rightarrow> string \<Rightarrow> string \<Rightarrow> json \<Rightarrow> unit relay_act" where
  "hello_authenticate env cid roomId name action proofHex hello =
     act_read (\<lambda>s. let c = client_of cid s in
       if roomId \<noteq> cl_pendingRoomId c \<or> action \<noteq> cl_pendingAction c \<or> cl_authNonce c = [] \<or>
          unhex_digest proofHex = None
       then reject_and_close env cid ''invalid_lobby_code_proof''
       else if action = ''create'' then hello_create env cid roomId name proofHex hello
       else hello_join env cid roomId name proofHex hello)"

definition handle_hello :: "relay_env \<Rightarrow> string \<Rightarrow> json \<Rightarrow> unit relay_act" where
  "handle_hello env cid hello =
     act_bind (act_json (value_int ''protocol_version'' (- 1) hello)) (\<lambda>version.
     if version \<noteq> kProtocolVersion then send_error env cid ''protocol_version''
     else act_bind (act_json (value_string ''room_id'' [] hello)) (\<lambda>rawRoom.
     act_bind (act_json (value_string ''name'' [] hello)) (\<lambda>rawName.
     act_bind (act_json (value_string ''action'' [] hello)) (\<lambda>action.
     act_bind (act_json (value_string ''code_proof'' [] hello)) (\<lambda>proofHex.
     let roomId = trim rawRoom; name = trim rawName in
     if roomId = [] then send_error env cid ''missing_lobby''
     else if name = [] then send_error env cid ''missing_username''
     else if length roomId > kMaxRoomIdBytes then send_error env cid ''lobby_too_long''
     else if length name > kMaxUsernameBytes then send_error env cid ''username_too_long''
     else if action \<noteq> ''create'' \<and> action \<noteq> ''join'' then send_error env cid ''invalid_action''
     else hello_authenticate env cid roomId name action proofHex hello)))))"

section \<open>Peer streams\<close>

definition peer_frame :: "string \<Rightarrow> json \<Rightarrow> json \<Rightarrow> json" where
  "peer_frame sender sequence body =
     j_obj [(''type'', JStr ''peer_reliable''), (''client_id'', JStr sender),
            (''frame'', j_obj [(''sequence'', sequence), (''body'', body)])]"

text \<open>The checks of one recipient: its name is new and a fellow member, its sequence a positive number.\<close>

fun check_recipients ::
  "string \<Rightarrow> string list \<Rightarrow> json list \<Rightarrow> string list \<Rightarrow> net_error + (string \<times> json) list option" where
  "check_recipients cid members [] targets = Inr (Some [])"
| "check_recipients cid members (recipient # rs) targets =
     try_bind (lift_json (try_bind (j_at ''id'' recipient) get_string)) (\<lambda>name.
     try_bind (lift_json (j_at ''sequence'' recipient)) (\<lambda>sequence.
       if name = cid \<or> name \<in> set targets \<or> \<not> is_number_unsigned sequence \<or> sequence = JUInt 0 \<or>
          name \<notin> set members then Inr None
       else try_bind (check_recipients cid members rs (os_insert name targets)) (\<lambda>rest.
              Inr (map_option (\<lambda>l. (name, sequence) # l) rest))))"

definition max_peer_body :: nat where "max_peer_body = 512 * 1024 + 128"

definition route_peer_reliable :: "relay_env \<Rightarrow> string \<Rightarrow> json \<Rightarrow> unit relay_act" where
  "route_peer_reliable env cid message =
     act_bind (act_json (j_at ''recipients'' message)) (\<lambda>recipients.
     act_bind (act_json (j_at ''body'' message)) (\<lambda>body.
     act_bind (if \<not> is_array recipients \<or> j_elems recipients = [] \<or> length (j_elems recipients) > 7 \<or>
                  \<not> is_object body then act_return True
               else act_bind (act_json (tc_dump (re_codec env) body))
                      (\<lambda>text. act_return (length text > max_peer_body))) (\<lambda>bad.
     if bad then reject_and_close env cid ''invalid_peer_delivery''
     else act_read (\<lambda>s. case map_of (rl_rooms s) (cl_roomId (client_of cid s)) of
         None \<Rightarrow> act_return ()
       | Some r \<Rightarrow>
           act_bind (act_lift (check_recipients cid (rm_clientIds r) (j_elems recipients) [])) (\<lambda>checked.
           case checked of
             None \<Rightarrow> reject_and_close env cid ''invalid_peer_delivery''
           | Some targets \<Rightarrow>
               act_each (\<lambda>(name, sequence).
                 act_seq (send_to_client env cid name (peer_frame cid sequence body)) (act_return ()))
                 targets)))))"

definition route_peer_receipt :: "relay_env \<Rightarrow> string \<Rightarrow> json \<Rightarrow> unit relay_act" where
  "route_peer_receipt env cid message =
     act_bind (act_json (try_bind (j_at ''frame'' message) (j_at ''ack''))) (\<lambda>ack.
     if \<not> is_number_unsigned ack then reject_and_close env cid ''invalid_peer_receipt''
     else act_bind (act_json (try_bind (j_at ''target_client_id'' message) get_string)) (\<lambda>target.
       act_seq (send_to_client env cid target
         (j_obj [(''type'', JStr ''peer_receipt''), (''client_id'', JStr cid),
                 (''frame'', j_obj [(''ack'', ack)])])) (act_return ())))"

definition kSecond :: int where "kSecond = 1000000000"

definition signal_limit :: "int \<Rightarrow> nat" where
  "signal_limit k = (if k = 0 then 4095 else if k = 1 then 255 else 0)"

definition refresh_signal_window :: "int \<Rightarrow> client \<Rightarrow> client" where
  "refresh_signal_window now c =
     (if now - cl_signalWindow c \<ge> kSecond then c\<lparr>cl_signalWindow := now, cl_signalBytes := 0\<rparr> else c)"

definition route_ice_signal :: "relay_env \<Rightarrow> string \<Rightarrow> json \<Rightarrow> unit relay_act" where
  "route_ice_signal env cid message =
     act_seq (set_client cid (refresh_signal_window (re_now env)))
     (case (j_find ''target_client_id'' message, j_find ''kind'' message, j_find ''data'' message,
            j_find ''generation'' message) of
        (Some (JStr target), Some kind, Some (JStr text), Some (JUInt generation)) \<Rightarrow>
          if \<not> is_number_integer kind \<or> generation > 0xFFFFFFFF then act_return ()
          else act_bind (act_json (get_int kind)) (\<lambda>k.
          act_read (\<lambda>s.
            if k < 0 \<or> k > 2 \<or> length text > signal_limit k \<or> CHR 0x00 \<in> set text \<or>
               cl_signalBytes (client_of cid s) + length text + 64 > 65536
            then act_return ()
            else act_seq (set_client cid (\<lambda>c. c\<lparr>cl_signalBytes := cl_signalBytes c + (length text + 64)\<rparr>))
              (act_seq (send_to_client env cid target
                 (j_obj [(''type'', JStr ''ice_signal''), (''client_id'', JStr cid), (''kind'', JInt k),
                         (''data'', JStr text), (''generation'', JUInt generation)])) (act_return ()))))
      | _ \<Rightarrow> act_return ())"

section \<open>Room control\<close>

definition route_peer_stage :: "string \<Rightarrow> json \<Rightarrow> unit relay_act" where
  "route_peer_stage cid message =
     (case j_find ''stage'' message of
        Some (JStr stage) \<Rightarrow> if length stage \<le> 32 then set_client cid (\<lambda>c. c\<lparr>cl_stage := stage\<rparr>)
                            else act_return ()
      | _ \<Rightarrow> act_return ())"

definition route_settings_ready :: "relay_env \<Rightarrow> string \<Rightarrow> json \<Rightarrow> unit relay_act" where
  "route_settings_ready env cid message =
     act_read (\<lambda>s. let rid = cl_roomId (client_of cid s) in
     case map_of (rl_rooms s) rid of
       None \<Rightarrow> act_return ()
     | Some r \<Rightarrow>
         if is_null (rm_pending r) \<or>
            j_find ''generation'' message \<noteq> Some (JUInt (unat (rm_generation r + 1))) then act_return ()
         else act_seq (set_room rid (\<lambda>r. r\<lparr>rm_waiting := filter (\<lambda>i. i \<noteq> cid) (rm_waiting r)\<rparr>))
                (finish_settings env rid))"

definition kicked_json :: json where
  "kicked_json = j_obj [(''type'', JStr ''kicked''), (''reason'', JStr ''removed_by_host'')]"

definition kick_member :: "relay_env \<Rightarrow> string \<Rightarrow> unit relay_act" where
  "kick_member env target =
     act_bind (send_json env target kicked_json) (\<lambda>sent.
       if \<not> sent then set_client target (\<lambda>c. c\<lparr>cl_disconnectRequested := True\<rparr>)
       else set_client target (\<lambda>c. c\<lparr>cl_closeAfterFlush := True\<rparr>))"

definition route_kick :: "relay_env \<Rightarrow> string \<Rightarrow> json \<Rightarrow> unit relay_act" where
  "route_kick env cid message =
     act_read (\<lambda>s. case map_of (rl_rooms s) (cl_roomId (client_of cid s)) of
       None \<Rightarrow> send_error env cid ''lobby_not_found''
     | Some r \<Rightarrow>
         if rm_owner r \<noteq> cid then send_error env cid ''owner_only''
         else (case j_find ''target_client_id'' message of
           Some (JStr target) \<Rightarrow>
             let admitted = (target \<noteq> cid \<and> target \<in> set (rm_clientIds r)) in
             (case map_of (rl_clients s) target of
                None \<Rightarrow> send_error env cid ''unknown_target''
              | Some c \<Rightarrow>
                  if \<not> admitted \<or> cl_closeAfterFlush c then send_error env cid ''unknown_target''
                  else kick_member env target)
         | _ \<Rightarrow> send_error env cid ''invalid_target''))"

definition apply_preferences :: "string \<Rightarrow> string \<Rightarrow> json \<Rightarrow> unit relay_act" where
  "apply_preferences cid type message =
     act_seq
      (if type = ''puppet_preference'' then
         act_read (\<lambda>s. act_bind (act_json (value_bool ''want_puppet'' (cl_wantsPuppet (client_of cid s)) message)) (\<lambda>b.
         act_seq (set_client cid (\<lambda>c. c\<lparr>cl_wantsPuppet := b\<rparr>))
         (act_bind (act_json (value_bool ''want_midna'' (cl_wantsMidna (client_of cid s)) message)) (\<lambda>b.
         set_client cid (\<lambda>c. c\<lparr>cl_wantsMidna := b\<rparr>)))))
       else if type = ''midna_preference'' then
         act_read (\<lambda>s. act_bind (act_json (value_bool ''want_midna'' (cl_wantsMidna (client_of cid s)) message)) (\<lambda>b.
         set_client cid (\<lambda>c. c\<lparr>cl_wantsMidna := b\<rparr>)))
       else act_return ())
      (if type = ''presence'' \<or> type = ''progression_state'' then
         act_read (\<lambda>s. act_bind (act_json (value_string ''stage'' (cl_stage (client_of cid s)) message)) (\<lambda>stage.
         set_client cid (\<lambda>c. c\<lparr>cl_stage := stage\<rparr>)))
       else act_return ())"

definition prepare_json :: "room \<Rightarrow> json" where
  "prepare_json r =
     j_obj [(''type'', JStr ''settings_prepare''), (''generation'', JUInt (unat (rm_generation r + 1))),
            (''participants'', JArr (map JStr (rm_clientIds r)))]"

definition route_room_settings :: "relay_env \<Rightarrow> string \<Rightarrow> json \<Rightarrow> unit relay_act" where
  "route_room_settings env cid message =
     act_read (\<lambda>s. let rid = cl_roomId (client_of cid s) in
     case map_of (rl_rooms s) rid of
       None \<Rightarrow> send_error env cid ''lobby_not_found''
     | Some r \<Rightarrow>
         if rm_owner r \<noteq> cid then send_error env cid ''owner_only''
         else if \<not> is_null (rm_pending r) then send_error env cid ''settings_busy''
         else act_bind (act_json (value_json ''settings'' JNull message)) (\<lambda>settings.
         case apply_room_settings settings r of
           None \<Rightarrow> send_error env cid ''invalid_settings''
         | Some candidate \<Rightarrow>
             act_seq (set_room rid (\<lambda>r. r\<lparr>rm_pending := room_settings_json candidate,
                        rm_waiting := fold os_insert (rm_clientIds r) [],
                        rm_settingsStarted := re_now env\<rparr>))
             (act_seq (send_json_ignored env cid (prepare_json r))
                (broadcast_from env cid (prepare_json r)))))"

section \<open>Gameplay\<close>

definition route_pose :: "relay_env \<Rightarrow> string \<Rightarrow> json \<Rightarrow> unit relay_act" where
  "route_pose env cid message =
     act_bind (act_json (j_value get_uint32 ''sequence'' 0 message)) (\<lambda>sequence.
     act_bind (act_json (value_json ''state'' (JObj []) message)) (\<lambda>state.
     act_seq (broadcast_from env cid
        (j_obj [(''type'', JStr ''pose''), (''client_id'', JStr cid),
                (''sequence'', JUInt (unat sequence)), (''state'', state)]))
     (act_seq (set_client cid (\<lambda>c. c\<lparr>cl_poseCount := cl_poseCount c + 1\<rparr>))
     (act_read (\<lambda>s.
        if re_verbose env \<and> cl_poseCount (client_of cid s) mod 30 = 1
        then act_bind (act_json (value_string ''stage'' [] state)) (\<lambda>_.
             act_bind (act_json (value_int ''room'' (- 1) state)) (\<lambda>_. act_return ()))
        else act_return ())))))"

text \<open>A sequence number is remembered; beyond 4096 the oldest is forgotten.\<close>

definition remember_reliable :: "u32 \<Rightarrow> client \<Rightarrow> client" where
  "remember_reliable sequence c =
     (let order = cl_reliableOrder c @ [sequence]; seen = sequence # cl_reliableSeen c in
      if length order > kMaxReliableSequences
      then c\<lparr>cl_reliableSeen := filter (\<lambda>q. q \<noteq> hd order) seen, cl_reliableOrder := tl order\<rparr>
      else c\<lparr>cl_reliableSeen := seen, cl_reliableOrder := order\<rparr>)"

definition route_reliable :: "relay_env \<Rightarrow> string \<Rightarrow> json \<Rightarrow> unit relay_act" where
  "route_reliable env cid message =
     act_bind (act_json (j_value get_uint32 ''sequence'' 0 message)) (\<lambda>sequence.
     act_read (\<lambda>s.
       if sequence \<in> set (cl_reliableSeen (client_of cid s)) then act_return ()
       else act_seq (set_client cid (remember_reliable sequence))
       (act_bind (act_json (value_json ''state'' (JObj []) message)) (\<lambda>state.
       act_seq (broadcast_from env cid
          (j_obj [(''type'', JStr ''reliable''), (''client_id'', JStr cid),
                  (''sequence'', JUInt (unat sequence)), (''state'', state)]))
       (send_json_ignored env cid
          (j_obj [(''type'', JStr ''ack''), (''sequence'', JUInt (unat sequence))]))))))"

definition send_or_unknown :: "relay_env \<Rightarrow> string \<Rightarrow> string \<Rightarrow> json \<Rightarrow> unit relay_act" where
  "send_or_unknown env cid target routed =
     act_bind (send_to_client env cid target routed) (\<lambda>sent.
       if sent then act_return () else send_error env cid ''unknown_target'')"

definition route_sync_request :: "relay_env \<Rightarrow> string \<Rightarrow> json \<Rightarrow> unit relay_act" where
  "route_sync_request env cid message =
     act_bind (act_json (value_string ''target_client_id'' [] message)) (\<lambda>target.
     if target = [] then send_error env cid ''missing_target''
     else send_or_unknown env cid target (j_set ''client_id'' (JStr cid) message))"

definition route_gameplay :: "relay_env \<Rightarrow> string \<Rightarrow> json \<Rightarrow> unit relay_act" where
  "route_gameplay env cid message =
     act_bind (act_json (value_string ''target_client_id'' [] message)) (\<lambda>target.
     let routed = j_set ''client_id'' (JStr cid) message in
     if target \<noteq> [] then send_or_unknown env cid target routed
     else broadcast_from env cid routed)"

section \<open>The router\<close>

definition route_member :: "relay_env \<Rightarrow> string \<Rightarrow> string \<Rightarrow> json \<Rightarrow> unit relay_act" where
  "route_member env cid type message =
     (if type = ''ping'' then
        send_json_ignored env cid (j_obj [(''type'', JStr ''pong''), (''time'', JFloat (re_wall env))])
      else if type = ''peer_reliable'' then route_peer_reliable env cid message
      else if type = ''peer_receipt'' then route_peer_receipt env cid message
      else if type = ''ice_signal'' then route_ice_signal env cid message
      else if type = ''peer_stage'' then route_peer_stage cid message
      else if type = ''settings_ready'' then route_settings_ready env cid message
      else if type = ''kick'' then route_kick env cid message
      else act_seq (apply_preferences cid type message)
       (if type = ''room_settings'' then route_room_settings env cid message
        else if type = ''pose'' then route_pose env cid message
        else if type = ''reliable'' then route_reliable env cid message
        else if type = ''sync_request'' then route_sync_request env cid message
        else if type \<in> set kGameplayRouteTypes then route_gameplay env cid message
        else send_error env cid ''unknown_message''))"

definition route_message :: "relay_env \<Rightarrow> string \<Rightarrow> json \<Rightarrow> unit relay_act" where
  "route_message env cid message =
     (if \<not> is_object message then send_error env cid ''invalid_message''
      else act_bind (act_json (value_string ''type'' [] message)) (\<lambda>type.
      act_bind (if type = ''peer_reliable'' then act_return False
                else act_bind (act_json (tc_dump (re_codec env) message))
                       (\<lambda>text. act_return (length text > reliableJsonLimit))) (\<lambda>large.
      if large then reject_and_close env cid ''message_too_large''
      else if type = ''auth_begin'' then route_auth_begin env cid message
      else act_read (\<lambda>s.
        if type = ''hello'' then
          (if cl_roomId (client_of cid s) \<noteq> [] then send_error env cid ''already_joined''
           else handle_hello env cid message)
        else if cl_roomId (client_of cid s) = [] then send_error env cid ''expected_hello''
        else route_member env cid type message))))"

end
