(* ===== verification/Relay_Invariant.thy ===== *)
theory Relay_Invariant
  imports Relay_Routing
begin

text \<open>
  What the relay keeps invariant, and what one message may touch.  The state stays well formed:
  queues account for their bytes, rooms list at most eight connected members, their owner belongs
  to them, their capability flags are those of their members.  A message of a client changes no
  room but the client's own, and no other client but members of that room.
\<close>

section \<open>The invariant\<close>

definition client_ok :: "string \<Rightarrow> client \<Rightarrow> bool" where
  "client_ok cid c \<longleftrightarrow> cl_id c = cid \<and>
     cl_txQueuedBytes c = sum_list (map length (cl_txQueue c)) \<and> cl_txQueuedBytes c \<le> kMaxQueuedBytes \<and>
     distinct (cl_reliableOrder c) \<and> set (cl_reliableSeen c) = set (cl_reliableOrder c) \<and>
     length (cl_reliableOrder c) \<le> kMaxReliableSequences \<and>
     cl_signalBytes c \<le> 65536 \<and> cl_udpRateWindowBytes c \<le> kMaxUdpBytesPerClientSecond"

definition lives_in :: "relay \<Rightarrow> string \<Rightarrow> string \<Rightarrow> bool" where
  "lives_in s rid i \<longleftrightarrow> map_option cl_roomId (map_of (rl_clients s) i) = Some rid"

definition room_ok :: "relay \<Rightarrow> string \<Rightarrow> room \<Rightarrow> bool" where
  "room_ok s rid r \<longleftrightarrow> rm_id r = rid \<and> rid \<noteq> [] \<and>
     distinct (rm_clientIds r) \<and> length (rm_clientIds r) \<le> kMaxRoomClients \<and>
     list_all (lives_in s rid) (rm_clientIds r) \<and> lives_in s rid (rm_owner r) \<and>
     set (rm_waiting r) \<subseteq> set (rm_clientIds r) \<and>
     rm_semanticVisualsReady r = room_semantic_visuals_ready s r \<and>
     rm_snapshotDeltasReady r = room_snapshot_deltas_ready s r \<and>
     (rm_pvp r \<longrightarrow> rm_remoteCollision r) \<and> unhex_digest (rm_proofKey r) \<noteq> None \<and>
     (\<not> is_null (rm_pending r) \<longrightarrow> apply_room_settings (rm_pending r) r \<noteq> None)"

definition relay_inv :: "relay \<Rightarrow> bool" where
  "relay_inv s \<longleftrightarrow> om_ok (rl_clients s) \<and> om_ok (rl_rooms s) \<and>
     (\<forall>cid c. map_of (rl_clients s) cid = Some c \<longrightarrow> client_ok cid c) \<and>
     (\<forall>rid r. map_of (rl_rooms s) rid = Some r \<longrightarrow> room_ok s rid r)"

text \<open>The part of a client that rooms depend on.\<close>

definition client_view :: "client \<Rightarrow> string \<times> bool \<times> bool" where
  "client_view c = (cl_roomId c, cl_supportsSemanticVisuals c, cl_supportsSnapshotDeltas c)"

lemma all_members_view:
  "all_members P clients ids \<longleftrightarrow> ids \<noteq> [] \<and> (\<forall>i \<in> set ids. map_option P (map_of clients i) = Some True)"
  by (auto simp: all_members_def list_all_iff split: option.splits)

lemma map_option_view:
  assumes "map_option client_view x = map_option client_view y"
  shows "map_option cl_roomId x = map_option cl_roomId y"
    and "map_option cl_supportsSemanticVisuals x = map_option cl_supportsSemanticVisuals y"
    and "map_option cl_supportsSnapshotDeltas x = map_option cl_supportsSnapshotDeltas y"
  using assms by (cases x; cases y; simp add: client_view_def)+

lemma room_ok_cong:
  assumes v: "\<And>i. map_option client_view (map_of (rl_clients s') i) =
    map_option client_view (map_of (rl_clients s) i)"
  shows "room_ok s' rid r \<longleftrightarrow> room_ok s rid r"
  unfolding room_ok_def lives_in_def room_semantic_visuals_ready_def room_snapshot_deltas_ready_def
    all_members_view map_option_view [OF v] ..

section \<open>What a message touches\<close>

definition room_of :: "string \<Rightarrow> relay \<Rightarrow> string" where
  "room_of cid s = cl_roomId (client_of cid s)"

definition members :: "string \<Rightarrow> relay \<Rightarrow> string set" where
  "members cid s =
     (case map_of (rl_rooms s) (room_of cid s) of None \<Rightarrow> {} | Some r \<Rightarrow> set (rm_clientIds r))"

definition touches :: "string \<Rightarrow> relay \<Rightarrow> relay \<Rightarrow> bool" where
  "touches cid s s' \<longleftrightarrow>
     (\<forall>d. d \<noteq> cid \<longrightarrow> map_of (rl_clients s') d \<noteq> map_of (rl_clients s) d \<longrightarrow> d \<in> members cid s') \<and>
     (\<forall>rid. map_of (rl_rooms s') rid \<noteq> map_of (rl_rooms s) rid \<longrightarrow> rid = room_of cid s') \<and>
     (room_of cid s \<noteq> [] \<longrightarrow> room_of cid s' = room_of cid s \<and> members cid s \<subseteq> members cid s') \<and>
     (\<forall>d. map_of (rl_clients s') d = None \<longleftrightarrow> map_of (rl_clients s) d = None) \<and>
     rl_effects s' = rl_effects s"

lemma no_empty_room: "relay_inv s \<Longrightarrow> map_of (rl_rooms s) [] = None"
  by (cases "map_of (rl_rooms s) []") (auto simp: relay_inv_def room_ok_def)

lemma members_in_room: "relay_inv s \<Longrightarrow> d \<in> members cid s \<Longrightarrow> room_of cid s \<noteq> []"
  using no_empty_room [of s] by (auto simp: members_def split: option.splits)

lemma touches_refl [simp]: "touches cid s s"
  by (simp add: touches_def)

lemma touches_trans:
  assumes "relay_inv s" and "relay_inv s'" and "relay_inv s''"
    and 1: "touches cid s s'" and 2: "touches cid s' s''"
  shows "touches cid s s''"
proof -
  have clients: "d \<in> members cid s''"
    if "d \<noteq> cid" "map_of (rl_clients s'') d \<noteq> map_of (rl_clients s) d" for d
  proof (cases "map_of (rl_clients s') d = map_of (rl_clients s) d")
    case True
    then show ?thesis using that 2 by (auto simp: touches_def)
  next
    case False
    then have d: "d \<in> members cid s'" using that 1 by (auto simp: touches_def)
    then show ?thesis using members_in_room [OF assms(2)] 2 by (auto simp: touches_def)
  qed
  have rooms: "rid = room_of cid s''"
    if "map_of (rl_rooms s'') rid \<noteq> map_of (rl_rooms s) rid" for rid
  proof (cases "map_of (rl_rooms s') rid = map_of (rl_rooms s) rid")
    case True
    then show ?thesis using that 2 by (auto simp: touches_def)
  next
    case False
    then have r: "rid = room_of cid s'" using 1 by (auto simp: touches_def)
    show ?thesis
    proof (cases "rid = []")
      case True
      then show ?thesis using that assms(1,3) no_empty_room by metis
    next
      case False
      then show ?thesis using r 2 by (auto simp: touches_def)
    qed
  qed
  have "room_of cid s \<noteq> [] \<longrightarrow> room_of cid s'' = room_of cid s \<and> members cid s \<subseteq> members cid s''"
    using 1 2 unfolding touches_def by (metis subset_trans)
  then show ?thesis using clients rooms 1 2 by (simp add: touches_def)
qed

definition reach :: "string \<Rightarrow> relay \<Rightarrow> string \<Rightarrow> bool" where
  "reach cid s pid \<longleftrightarrow> pid = cid \<or> pid \<in> members cid s"

lemma reach_self [simp, intro]: "reach cid s cid"
  by (simp add: reach_def)

lemma reach_mono: "relay_inv s \<Longrightarrow> touches cid s s' \<Longrightarrow> reach cid s pid \<Longrightarrow> reach cid s' pid"
  using members_in_room [of s pid cid] by (auto simp: reach_def touches_def)

section \<open>Rules for actions\<close>

text \<open>An action started in a well-formed state ends in one and touches only what it may.\<close>

definition good :: "string \<Rightarrow> (relay, 'a) action \<Rightarrow> relay \<Rightarrow> bool" where
  "good cid m s \<longleftrightarrow> (relay_inv s \<longrightarrow> relay_inv (snd (m s)) \<and> touches cid s (snd (m s)))"

named_theorems good_intros \<open>actions that are good\<close>

lemma good_return [simp, good_intros]: "good cid (act_return a) s"
  by (simp add: good_def act_return_def)

lemma good_lift [simp, good_intros]: "good cid (act_lift r) s"
  by (simp add: good_def act_lift_def)

lemma good_read [good_intros]: "good cid (f s) s \<Longrightarrow> good cid (act_read f) s"
  by (simp add: good_def act_read_def)

lemma good_bind [good_intros]:
  assumes "good cid m s"
    and "\<And>a s'. relay_inv s \<Longrightarrow> relay_inv s' \<Longrightarrow> touches cid s s' \<Longrightarrow> m s = (Inr a, s') \<Longrightarrow> good cid (f a) s'"
  shows "good cid (act_bind m f) s"
  unfolding good_def
proof
  assume inv: "relay_inv s"
  obtain r s' where m: "m s = (r, s')" by fastforce
  have s': "relay_inv s'" "touches cid s s'" using assms(1) inv m by (auto simp: good_def)
  show "relay_inv (snd (act_bind m f s)) \<and> touches cid s (snd (act_bind m f s))"
  proof (cases r)
    case (Inl e)
    then show ?thesis using s' m by (simp add: act_bind_def)
  next
    case (Inr a)
    then have "good cid (f a) s'" using assms(2) inv s' m by blast
    then show ?thesis using s' m Inr inv touches_trans [of s s' "snd (f a s')" cid]
      by (simp add: act_bind_def good_def)
  qed
qed

lemma good_seq [good_intros]:
  assumes "good cid m s"
    and "\<And>s'. relay_inv s \<Longrightarrow> relay_inv s' \<Longrightarrow> touches cid s s' \<Longrightarrow> good cid n s'"
  shows "good cid (act_seq m n) s"
  unfolding act_seq_def by (rule good_bind [OF assms(1)]) (use assms(2) in blast)

lemma good_each:
  assumes "\<And>x s'. x \<in> set xs \<Longrightarrow> relay_inv s \<Longrightarrow> relay_inv s' \<Longrightarrow> touches cid s s' \<Longrightarrow> good cid (f x) s'"
  shows "good cid (act_each f xs) s"
  using assms
proof (induction xs arbitrary: s)
  case Nil
  then show ?case by simp
next
  case (Cons x xs)
  show ?case
    unfolding act_each.simps
  proof (rule good_seq)
    show "good cid (f x) s" using Cons.prems [of x s] by (auto simp: good_def)
  next
    fix s' assume s: "relay_inv s" and s': "relay_inv s'" and t: "touches cid s s'"
    show "good cid (act_each f xs) s'"
    proof (rule Cons.IH)
      fix y s'' assume "y \<in> set xs" and s'': "relay_inv s''" and "touches cid s' s''"
      then show "good cid (f y) s''"
        using Cons.prems [of y s''] s touches_trans [OF s s' s'' t] by simp
    qed
  qed
qed

lemma good_if [good_intros]: "(b \<Longrightarrow> good cid m s) \<Longrightarrow> (\<not> b \<Longrightarrow> good cid n s) \<Longrightarrow> good cid (if b then m else n) s"
  by simp

text \<open>An action that never changes the sender's room.\<close>

definition stays :: "string \<Rightarrow> (relay, 'a) action \<Rightarrow> bool" where
  "stays cid m \<longleftrightarrow> (\<forall>s. room_of cid (snd (m s)) = room_of cid s)"

named_theorems stays_intros \<open>actions that keep the sender's room\<close>

lemma stays_return [simp, stays_intros]: "stays cid (act_return a)"
  by (simp add: stays_def act_return_def)

lemma stays_lift [simp, stays_intros]: "stays cid (act_lift r)"
  by (simp add: stays_def act_lift_def)

lemma stays_read [stays_intros]: "(\<And>s. stays cid (f s)) \<Longrightarrow> stays cid (act_read f)"
  by (simp add: stays_def act_read_def)

lemma stays_bind [stays_intros]: "stays cid m \<Longrightarrow> (\<And>a. stays cid (f a)) \<Longrightarrow> stays cid (act_bind m f)"
  by (auto simp: stays_def act_bind_def split: prod.splits sum.splits) (metis snd_conv)+

lemma stays_seq [stays_intros]: "stays cid m \<Longrightarrow> stays cid n \<Longrightarrow> stays cid (act_seq m n)"
  unfolding act_seq_def by (rule stays_bind)

lemma stays_each [stays_intros]: "(\<And>x. stays cid (f x)) \<Longrightarrow> stays cid (act_each f xs)"
  by (induction xs) (auto intro: stays_seq)

lemma stays_if [stays_intros]: "stays cid m \<Longrightarrow> stays cid n \<Longrightarrow> stays cid (if b then m else n)"
  by simp

section \<open>Updates\<close>

lemma clients_upd_client [simp]:
  "map_of (rl_clients (upd_client pid f s)) d =
     (if d = pid then map_option f (map_of (rl_clients s) pid) else map_of (rl_clients s) d)"
  by (auto simp: upd_client_def split: option.splits)

lemma upd_client_rest [simp]:
  "rl_rooms (upd_client pid f s) = rl_rooms s" "rl_effects (upd_client pid f s) = rl_effects s"
  by (auto simp: upd_client_def split: option.splits)

lemma rooms_upd_room [simp]:
  "map_of (rl_rooms (upd_room rid f s)) k =
     (if k = rid then map_option f (map_of (rl_rooms s) rid) else map_of (rl_rooms s) k)"
  by (auto simp: upd_room_def split: option.splits)

lemma upd_room_rest [simp]:
  "rl_clients (upd_room rid f s) = rl_clients s" "rl_effects (upd_room rid f s) = rl_effects s"
  by (auto simp: upd_room_def split: option.splits)

lemma om_ok_upd_client: "om_ok (rl_clients s) \<Longrightarrow> om_ok (rl_clients (upd_client pid f s))"
  by (auto simp: upd_client_def split: option.splits)

lemma om_ok_upd_room: "om_ok (rl_rooms s) \<Longrightarrow> om_ok (rl_rooms (upd_room rid f s))"
  by (auto simp: upd_room_def split: option.splits)

lemma client_of_upd:
  "client_of d (upd_client pid f s) =
     (if d = pid \<and> map_of (rl_clients s) pid \<noteq> None then f (client_of d s) else client_of d s)"
  by (auto simp: client_of_def split: option.splits)

lemma client_of_upd_room [simp]: "client_of d (upd_room rid f s) = client_of d s"
  by (simp add: client_of_def)

text \<open>An update of a client that keeps what rooms see of it, and keeps it well formed.\<close>

definition benign :: "(client \<Rightarrow> client) \<Rightarrow> bool" where
  "benign f \<longleftrightarrow> (\<forall>c. client_view (f c) = client_view c \<and> (\<forall>cid. client_ok cid c \<longrightarrow> client_ok cid (f c)))"

lemma room_of_benign: "benign f \<Longrightarrow> room_of d (upd_client pid f s) = room_of d s"
  by (auto simp: room_of_def client_of_upd benign_def client_view_def)

lemma upd_client_good:
  assumes inv: "relay_inv s" and ok: "\<And>c. map_of (rl_clients s) pid = Some c \<Longrightarrow> client_ok pid (f c)"
    and view: "\<And>c. client_view (f c) = client_view c" and reach: "reach cid s pid"
  shows "relay_inv (upd_client pid f s) \<and> touches cid s (upd_client pid f s)"
proof
  have v: "map_option client_view (map_of (rl_clients (upd_client pid f s)) i) =
      map_option client_view (map_of (rl_clients s) i)" for i
    using view by (simp add: option.map_comp comp_def)
  show "relay_inv (upd_client pid f s)"
    using inv ok unfolding relay_inv_def room_ok_cong [OF v] by (auto simp: om_ok_upd_client)
  have "room_of cid (upd_client pid f s) = room_of cid s"
    using view by (auto simp: room_of_def client_of_upd client_view_def)
  then have "members cid (upd_client pid f s) = members cid s" by (simp add: members_def)
  then show "touches cid s (upd_client pid f s)"
    using reach \<open>room_of cid (upd_client pid f s) = room_of cid s\<close>
    by (auto simp: touches_def reach_def)
qed

lemma good_set_client:
  assumes "benign f" and "reach cid s pid"
  shows "good cid (set_client pid f) s"
  unfolding good_def act_modify_def snd_conv
  using upd_client_good [of s pid f cid] assms by (auto simp: benign_def relay_inv_def)

lemma stays_set_client [stays_intros]:
  "(\<And>c. cl_roomId (f c) = cl_roomId c) \<Longrightarrow> stays cid (set_client pid f)"
  by (simp add: stays_def act_modify_def room_of_def client_of_upd)

lemma stays_set_room [stays_intros]: "stays cid (set_room rid f)"
  by (simp add: stays_def act_modify_def room_of_def)

lemma benign_flags [simp]:
  "benign (\<lambda>c. c\<lparr>cl_disconnectRequested := True\<rparr>)"
  "benign (\<lambda>c. c\<lparr>cl_closeAfterFlush := True\<rparr>)"
  "benign (\<lambda>c. c\<lparr>cl_closeAfterFlush := True,
      cl_disconnectRequested := (if cl_txQueue c = [] then True else cl_disconnectRequested c)\<rparr>)"
  "benign (\<lambda>c. c\<lparr>cl_wantsPuppet := b\<rparr>)" "benign (\<lambda>c. c\<lparr>cl_wantsMidna := b\<rparr>)"
  "benign (\<lambda>c. c\<lparr>cl_stage := text\<rparr>)" "benign (\<lambda>c. c\<lparr>cl_poseCount := cl_poseCount c + 1\<rparr>)"
  "benign (\<lambda>c. c\<lparr>cl_pendingRoomId := text, cl_pendingAction := action\<rparr>)"
  "benign (\<lambda>c. c\<lparr>cl_authNonce := text\<rparr>)" "benign (\<lambda>c. c\<lparr>cl_authSalt := text\<rparr>)"
  "benign (refresh_signal_window now)"
  by (auto simp: benign_def client_view_def client_ok_def refresh_signal_window_def)

lemma benign_remember:
  assumes "client_ok cid c" and "q \<notin> set (cl_reliableSeen c)"
  shows "client_ok cid (remember_reliable q c)"
proof (cases "cl_reliableOrder c")
  case Nil
  with assms show ?thesis by (auto simp: client_ok_def remember_reliable_def Let_def kMaxReliableSequences_def)
next
  case (Cons x xs)
  with assms show ?thesis by (auto simp: client_ok_def remember_reliable_def Let_def)
qed

lemma view_remember: "client_view (remember_reliable q c) = client_view c"
  by (simp add: client_view_def remember_reliable_def Let_def)

lemma inv_client: "relay_inv s \<Longrightarrow> map_of (rl_clients s) cid = Some c \<Longrightarrow> client_ok cid c"
  by (simp add: relay_inv_def)

lemma inv_room: "relay_inv s \<Longrightarrow> map_of (rl_rooms s) rid = Some r \<Longrightarrow> room_ok s rid r"
  by (simp add: relay_inv_def)

lemma client_of_known: "map_of (rl_clients s) cid = Some c \<Longrightarrow> client_of cid s = c"
  by (simp add: client_of_def)

lemma room_of_kept:
  "relay_inv s \<Longrightarrow> map_of (rl_rooms s) (room_of cid s) = Some r \<Longrightarrow> touches cid s s' \<Longrightarrow>
   room_of cid s' = room_of cid s"
  using no_empty_room [of s] by (cases "room_of cid s = []") (auto simp: touches_def)

section \<open>Sending\<close>

lemma act_run [simp]:
  "act_read f s = f s s" "act_return a s = (Inr a, s)" "act_lift r s = (r, s)"
  "act_modify g s = (Inr (), g s)"
  by (simp_all add: act_read_def act_return_def act_lift_def act_modify_def)

lemma act_bind_run [simp]:
  "act_bind (act_return a) f s = f a s" "act_bind (act_lift (Inr a)) f s = f a s"
  "act_bind (act_lift (Inl e)) f s = (Inl e, s)" "act_seq (act_modify g) n s = n (g s)"
  by (simp_all add: act_bind_def act_seq_def)

lemma good_send_json [good_intros]: "reach cid s pid \<Longrightarrow> good cid (send_json env pid message) s"
proof -
  assume r: "reach cid s pid"
  show ?thesis
    unfolding send_json_def Let_def
  proof (intro good_intros)
    fix line s'
    assume s': "relay_inv s'" "relay_inv s" "touches cid s s'"
    let ?n = "length (line @ [CHR 0x0A])"
    have r': "reach cid s' pid" by (rule reach_mono [OF s'(2,3) r])
    show "good cid (set_client pid (\<lambda>c. c\<lparr>cl_disconnectRequested := True\<rparr>)) s'"
      by (rule good_set_client [OF benign_flags(1) r'])
    assume "\<not> (?n > kMaxQueuedBytes \<or> cl_txQueuedBytes (client_of pid s') > kMaxQueuedBytes - ?n)"
    then show "good cid (set_client pid (\<lambda>c. c\<lparr>cl_txQueuedBytes := cl_txQueuedBytes c + ?n,
        cl_txQueue := cl_txQueue c @ [line @ [CHR 0x0A]]\<rparr>)) s'"
      unfolding good_def act_modify_def snd_conv
      by (intro impI upd_client_good r')
         (auto simp: client_ok_def client_view_def client_of_known dest!: inv_client)
  qed
qed

lemma stays_send_json [stays_intros]: "stays cid (send_json env pid message)"
  unfolding send_json_def Let_def by (intro stays_intros) simp_all

lemma good_send_error [good_intros]: "good cid (send_error env cid err) s"
  unfolding send_error_def by (intro good_intros) simp

lemma stays_send_error [stays_intros]: "stays cid (send_error env pid err)"
  unfolding send_error_def by (intro stays_intros)

lemma good_reject [good_intros]: "good cid (reject_and_close env cid err) s"
  unfolding reject_and_close_def by (intro good_intros good_set_client) simp_all

lemma stays_reject [stays_intros]: "stays cid (reject_and_close env pid err)"
  unfolding reject_and_close_def by (intro stays_intros) simp

lemma good_send_or_drop [good_intros]: "reach cid s pid \<Longrightarrow> good cid (send_or_drop env pid message) s"
  unfolding send_or_drop_def by (intro good_intros good_set_client) (auto intro: reach_mono)

lemma stays_send_or_drop [stays_intros]: "stays cid (send_or_drop env pid message)"
  unfolding send_or_drop_def by (intro stays_intros) simp

lemma good_broadcast_one: "reach cid s pid \<Longrightarrow> good cid (broadcast_one env sender message pid) s"
  unfolding broadcast_one_def
  by (intro good_intros) (auto split: option.splits intro: good_intros)

lemma stays_broadcast_one [stays_intros]: "stays cid (broadcast_one env sender message pid)"
  unfolding broadcast_one_def by (intro stays_intros) (auto split: option.splits intro: stays_intros)

lemma reach_member:
  "map_of (rl_rooms s) (room_of cid s) = Some r \<Longrightarrow> pid \<in> set (rm_clientIds r) \<Longrightarrow> reach cid s pid"
  by (simp add: reach_def members_def)

lemma good_broadcast: "rid = room_of cid s \<Longrightarrow> good cid (broadcast env rid sender message) s"
  unfolding broadcast_def
  by (intro good_intros)
     (auto split: option.splits intro!: good_each good_broadcast_one intro: reach_mono reach_member)

lemma good_broadcast_from [good_intros]: "good cid (broadcast_from env cid message) s"
  by (intro good_read good_broadcast) (simp add: room_of_def)

lemma stays_broadcast [stays_intros]: "stays cid (broadcast env rid sender message)"
  unfolding broadcast_def by (intro stays_intros) (auto split: option.splits intro: stays_intros)

lemma good_send_to_client [good_intros]: "good cid (send_to_client env cid target message) s"
  unfolding send_to_client_def
  by (intro good_read)
     (auto split: option.splits intro!: good_intros intro: reach_member simp: room_of_def)

lemma stays_send_to_client [stays_intros]: "stays cid (send_to_client env sender target message)"
  unfolding send_to_client_def by (intro stays_read) (auto split: option.splits intro!: stays_intros)

section \<open>Room updates\<close>

lemma upd_room_good:
  assumes inv: "relay_inv s" and ok: "\<And>r. map_of (rl_rooms s) rid = Some r \<Longrightarrow> room_ok s rid r \<Longrightarrow> room_ok s rid (f r)"
    and rid: "rid = room_of cid s" and ids: "\<And>r. set (rm_clientIds r) \<subseteq> set (rm_clientIds (f r))"
  shows "relay_inv (upd_room rid f s) \<and> touches cid s (upd_room rid f s)"
proof
  have v: "map_option client_view (map_of (rl_clients (upd_room rid f s)) i) =
      map_option client_view (map_of (rl_clients s) i)" for i by simp
  show "relay_inv (upd_room rid f s)"
    using inv ok unfolding relay_inv_def room_ok_cong [OF v] by (auto simp: om_ok_upd_room)
  show "touches cid s (upd_room rid f s)"
    using rid ids by (fastforce simp: touches_def members_def room_of_def split: option.splits)
qed

lemma good_set_room:
  assumes "\<And>r. map_of (rl_rooms s) rid = Some r \<Longrightarrow> room_ok s rid r \<Longrightarrow> room_ok s rid (f r)"
    and "rid = room_of cid s" and "\<And>r. set (rm_clientIds r) \<subseteq> set (rm_clientIds (f r))"
  shows "good cid (set_room rid f) s"
  unfolding good_def act_modify_def snd_conv using upd_room_good [of s rid f cid] assms by blast

lemma apply_room_settings_fields:
  assumes "apply_room_settings settings r = Some r'"
  shows "rm_id r' = rm_id r" "rm_clientIds r' = rm_clientIds r" "rm_owner r' = rm_owner r"
    "rm_waiting r' = rm_waiting r" "rm_semanticVisualsReady r' = rm_semanticVisualsReady r"
    "rm_snapshotDeltasReady r' = rm_snapshotDeltasReady r" "rm_proofKey r' = rm_proofKey r"
    "rm_pending r' = rm_pending r" "rm_generation r' = rm_generation r" "rm_authSalt r' = rm_authSalt r"
    "rm_pvp r' \<longrightarrow> rm_remoteCollision r'"
  using assms by (auto simp: apply_room_settings_def split: if_splits option.splits)

lemma commit_room_fields [simp]:
  "rm_id (commit_room r) = rm_id r" "rm_clientIds (commit_room r) = rm_clientIds r"
  "rm_owner (commit_room r) = rm_owner r" "rm_waiting (commit_room r) = rm_waiting r"
  "rm_semanticVisualsReady (commit_room r) = rm_semanticVisualsReady r"
  "rm_snapshotDeltasReady (commit_room r) = rm_snapshotDeltasReady r"
  "rm_proofKey (commit_room r) = rm_proofKey r" "rm_pending (commit_room r) = JNull"
  "rm_generation (commit_room r) = rm_generation r + 1"
  by (auto simp: commit_room_def Let_def apply_room_settings_fields split: option.splits)

lemma commit_room_ok: "room_ok s rid r \<Longrightarrow> room_ok s rid (commit_room r)"
proof -
  have "(rm_pvp r \<longrightarrow> rm_remoteCollision r) \<Longrightarrow> rm_pvp (commit_room r) \<longrightarrow> rm_remoteCollision (commit_room r)"
    by (auto simp: commit_room_def Let_def apply_room_settings_fields split: option.splits)
  then show "room_ok s rid r \<Longrightarrow> ?thesis"
    by (auto simp: room_ok_def room_semantic_visuals_ready_def room_snapshot_deltas_ready_def)
qed

lemma good_send_if_known: "reach cid s pid \<Longrightarrow> good cid (send_if_known env message pid) s"
  unfolding send_if_known_def
  by (intro good_read) (auto split: option.splits intro!: good_intros)

lemma good_finish_settings [good_intros]:
  assumes "rid = room_of cid s"
  shows "good cid (finish_settings env rid) s"
proof (cases "map_of (rl_rooms s) rid")
  case None
  then show ?thesis by (simp add: finish_settings_def good_def)
next
  case (Some r)
  have "good cid (act_seq (set_room rid commit_room)
      (act_each (send_if_known env (settings_commit (commit_room r))) (rm_clientIds r))) s"
  proof (intro good_seq good_each good_send_if_known)
    show "good cid (set_room rid commit_room) s"
      by (rule good_set_room [OF commit_room_ok assms]) simp_all
    fix x s' s''
    assume "x \<in> set (rm_clientIds r)" and s: "relay_inv s" "relay_inv s'" "touches cid s s'" "touches cid s' s''"
    then show "reach cid s'' x"
      using reach_member [of s cid r x] Some assms reach_mono by metis
  qed
  then show ?thesis using Some by (simp add: finish_settings_def good_def)
qed

lemma stays_finish_settings [stays_intros]: "stays cid (finish_settings env rid)"
  unfolding finish_settings_def send_if_known_def
  by (intro stays_read) (auto split: option.splits intro!: stays_intros stays_each)

section \<open>Messages of a member\<close>

lemma good_route_peer_reliable [good_intros]: "good cid (route_peer_reliable env cid message) s"
  unfolding route_peer_reliable_def
  by (intro good_intros) (auto split: option.splits prod.splits intro!: good_intros good_each)

lemma good_route_peer_receipt [good_intros]: "good cid (route_peer_receipt env cid message) s"
  unfolding route_peer_receipt_def by (intro good_intros)

lemma good_signal_bytes:
  "cl_signalBytes (client_of cid s) + n \<le> 65536 \<Longrightarrow>
   good cid (set_client cid (\<lambda>c. c\<lparr>cl_signalBytes := cl_signalBytes c + n\<rparr>)) s"
  unfolding good_def act_modify_def snd_conv
  by (intro impI upd_client_good)
     (auto simp: client_ok_def client_view_def client_of_known dest!: inv_client)

lemma good_route_ice_signal [good_intros]: "good cid (route_ice_signal env cid message) s"
  unfolding route_ice_signal_def
  by (intro good_seq good_set_client benign_flags reach_self)
     (auto split: option.splits json.splits intro!: good_intros good_signal_bytes)

lemma good_route_peer_stage [good_intros]: "good cid (route_peer_stage cid message) s"
  unfolding route_peer_stage_def
  by (auto split: option.splits json.splits intro!: good_intros good_set_client)

lemma waiting_erase_ok:
  "room_ok s rid r \<Longrightarrow> room_ok s rid (r\<lparr>rm_waiting := filter (\<lambda>i. i \<noteq> cid) (rm_waiting r)\<rparr>)"
  by (auto simp: room_ok_def room_semantic_visuals_ready_def room_snapshot_deltas_ready_def
      apply_room_settings_def split: if_splits option.splits)

lemma good_settings_ready_step:
  assumes "map_of (rl_rooms s) (room_of cid s) = Some r"
  shows "good cid (act_seq (set_room (room_of cid s) (\<lambda>r. r\<lparr>rm_waiting := filter (\<lambda>i. i \<noteq> cid) (rm_waiting r)\<rparr>))
      (finish_settings env (room_of cid s))) s"
proof (rule good_seq)
  show "good cid (set_room (room_of cid s) (\<lambda>r. r\<lparr>rm_waiting := filter (\<lambda>i. i \<noteq> cid) (rm_waiting r)\<rparr>)) s"
    by (rule good_set_room [OF waiting_erase_ok]) simp_all
  fix s' assume "relay_inv s" "touches cid s s'"
  then have "room_of cid s' = room_of cid s" by (rule room_of_kept [OF _ assms])
  then show "good cid (finish_settings env (room_of cid s)) s'" by (intro good_finish_settings) simp
qed

lemma good_route_settings_ready [good_intros]: "good cid (route_settings_ready env cid message) s"
  unfolding route_settings_ready_def
  using good_settings_ready_step [of s cid]
  by (intro good_read) (auto simp: Let_def room_of_def split: option.splits)

lemma good_kick_member: "reach cid s target \<Longrightarrow> good cid (kick_member env target) s"
  unfolding kick_member_def by (intro good_intros good_set_client) (auto intro: reach_mono)

lemma good_route_kick [good_intros]: "good cid (route_kick env cid message) s"
  unfolding route_kick_def
  by (intro good_read)
     (auto simp: room_of_def [symmetric] Let_def split: option.splits json.splits
        intro!: good_intros good_kick_member intro: reach_member)

lemma good_apply_preferences [good_intros]: "good cid (apply_preferences cid type message) s"
  unfolding apply_preferences_def by (intro good_intros good_set_client) simp_all

lemma apply_own_settings: "apply_room_settings (room_settings_json c) r \<noteq> None"
  by (simp add: apply_room_settings_def room_settings_json_def read_bool_def j_find_j_obj)

lemma set_fold_os_insert [simp]: "set (fold os_insert xs ys) = set xs \<union> set ys"
  by (induction xs arbitrary: ys) auto

lemma candidate_pending_ok:
  "room_ok s rid r \<Longrightarrow>
   room_ok s rid (r\<lparr>rm_pending := room_settings_json c, rm_waiting := fold os_insert (rm_clientIds r) [],
     rm_settingsStarted := now\<rparr>)"
  using apply_own_settings [of c]
  by (simp add: room_ok_def room_semantic_visuals_ready_def room_snapshot_deltas_ready_def)

lemma good_candidate_step:
  assumes "rid = room_of cid s"
  shows "good cid (set_room rid (\<lambda>r. r\<lparr>rm_pending := room_settings_json c,
      rm_waiting := fold os_insert (rm_clientIds r) [], rm_settingsStarted := now\<rparr>)) s"
  by (rule good_set_room [OF candidate_pending_ok assms]) simp_all

end
