(* ===== verification/Relay_Isolation.thy ===== *)
theory Relay_Isolation
  imports Relay_Invariant
begin

text \<open>
  Isolation of rooms and the way into them: a routed message keeps the relay's state well formed,
  reaches only the sender and members of the sender's room, and makes its sender a member of a room
  only on a correct proof of the room's code.
\<close>

section \<open>Gameplay messages\<close>

lemma good_route_room_settings [good_intros]: "good cid (route_room_settings env cid message) s"
  unfolding route_room_settings_def
  by (intro good_read)
     (auto simp: Let_def room_of_def split: option.splits
        intro!: good_intros good_candidate_step)

lemma good_route_pose [good_intros]: "good cid (route_pose env cid message) s"
  unfolding route_pose_def by (intro good_intros good_set_client) simp_all

lemma good_remember:
  "q \<notin> set (cl_reliableSeen (client_of cid s)) \<Longrightarrow> good cid (set_client cid (remember_reliable q)) s"
  unfolding good_def act_modify_def snd_conv
  by (intro impI upd_client_good)
     (auto simp: view_remember client_of_known intro: benign_remember dest!: inv_client)

lemma good_route_reliable [good_intros]: "good cid (route_reliable env cid message) s"
  unfolding route_reliable_def by (intro good_intros good_remember) simp_all

lemma good_send_or_unknown [good_intros]: "good cid (send_or_unknown env cid target routed) s"
  unfolding send_or_unknown_def by (intro good_intros)

lemma good_route_sync_request [good_intros]: "good cid (route_sync_request env cid message) s"
  unfolding route_sync_request_def by (intro good_intros)

lemma good_route_gameplay [good_intros]: "good cid (route_gameplay env cid message) s"
  unfolding route_gameplay_def Let_def by (intro good_intros)

lemma good_route_member [good_intros]: "good cid (route_member env cid type message) s"
  unfolding route_member_def by (intro good_intros reach_self)

lemma good_route_auth_begin [good_intros]: "good cid (route_auth_begin env cid message) s"
  unfolding route_auth_begin_def Let_def
  by (intro good_intros good_set_client) (auto split: option.splits intro: good_intros)

section \<open>Entering a room\<close>

text \<open>All of \<open>room_ok\<close> but the owner depends on the members only.\<close>

definition room_core :: "relay \<Rightarrow> string \<Rightarrow> room \<Rightarrow> bool" where
  "room_core s rid r \<longleftrightarrow> rm_id r = rid \<and> rid \<noteq> [] \<and>
     distinct (rm_clientIds r) \<and> length (rm_clientIds r) \<le> kMaxRoomClients \<and>
     list_all (lives_in s rid) (rm_clientIds r) \<and>
     set (rm_waiting r) \<subseteq> set (rm_clientIds r) \<and>
     rm_semanticVisualsReady r = room_semantic_visuals_ready s r \<and>
     rm_snapshotDeltasReady r = room_snapshot_deltas_ready s r \<and>
     (rm_pvp r \<longrightarrow> rm_remoteCollision r) \<and> unhex_digest (rm_proofKey r) \<noteq> None \<and>
     (\<not> is_null (rm_pending r) \<longrightarrow> apply_room_settings (rm_pending r) r \<noteq> None)"

lemma room_ok_core: "room_ok s rid r \<longleftrightarrow> room_core s rid r \<and> lives_in s rid (rm_owner r)"
  by (auto simp: room_ok_def room_core_def)

lemma room_core_cong:
  assumes "\<And>i. i \<in> set (rm_clientIds r) \<Longrightarrow>
    map_of (rl_clients s') i = map_of (rl_clients s) i"
  shows "room_core s' rid r \<longleftrightarrow> room_core s rid r"
proof -
  have "list_all (lives_in s' rid) (rm_clientIds r) \<longleftrightarrow> list_all (lives_in s rid) (rm_clientIds r)"
    using assms by (auto simp: list_all_iff lives_in_def)
  moreover have "all_members P (rl_clients s') (rm_clientIds r) \<longleftrightarrow> all_members P (rl_clients s) (rm_clientIds r)" for P
    using assms by (auto simp: all_members_view)
  ultimately show ?thesis
    by (simp add: room_core_def room_semantic_visuals_ready_def room_snapshot_deltas_ready_def)
qed

text \<open>A connected client that is in no room, and a room with space it may enter; it may own it.\<close>

definition may_enter :: "string \<Rightarrow> string \<Rightarrow> relay \<Rightarrow> bool" where
  "may_enter cid rid s \<longleftrightarrow> om_ok (rl_clients s) \<and> om_ok (rl_rooms s) \<and>
     (\<forall>i c. map_of (rl_clients s) i = Some c \<longrightarrow> client_ok i c) \<and>
     (\<forall>k r. map_of (rl_rooms s) k = Some r \<longrightarrow> room_core s k r \<and>
        (lives_in s k (rm_owner r) \<or> k = rid \<and> rm_owner r = cid)) \<and>
     map_of (rl_clients s) cid \<noteq> None \<and> room_of cid s = [] \<and>
     (\<exists>r. map_of (rl_rooms s) rid = Some r \<and> length (rm_clientIds r) < kMaxRoomClients)"

definition fresh_member :: "string \<Rightarrow> string \<Rightarrow> relay \<Rightarrow> bool" where
  "fresh_member cid rid s \<longleftrightarrow> relay_inv s \<and> room_of cid s = rid \<and> map_of (rl_clients s) cid \<noteq> None \<and>
     (\<exists>r. map_of (rl_rooms s) rid = Some r \<and> cid \<notin> set (rm_clientIds r) \<and>
        length (rm_clientIds r) < kMaxRoomClients)"

lemma lives_in_room_of: "lives_in s rid cid \<Longrightarrow> room_of cid s = rid"
  by (auto simp: lives_in_def room_of_def client_of_def)

lemma member_lives: "room_core s k r \<Longrightarrow> i \<in> set (rm_clientIds r) \<Longrightarrow> lives_in s k i"
  by (simp add: room_core_def list_all_iff)

text \<open>An update of one client that leaves the rooms it is not in alone.\<close>

lemma relay_inv_upd_outside:
  assumes ok: "om_ok (rl_clients s)" "om_ok (rl_rooms s)"
    "\<forall>i c. map_of (rl_clients s) i = Some c \<longrightarrow> client_ok i c"
    and f: "\<And>c. client_ok cid c \<Longrightarrow> client_ok cid (f c)"
    and rooms: "\<And>k r. map_of (rl_rooms s) k = Some r \<Longrightarrow> room_core s k r \<and> cid \<notin> set (rm_clientIds r) \<and>
      lives_in (upd_client cid f s) k (rm_owner r)"
  shows "relay_inv (upd_client cid f s)"
proof -
  have "room_ok (upd_client cid f s) k r" if "map_of (rl_rooms s) k = Some r" for k r
  proof -
    have "room_core (upd_client cid f s) k r \<longleftrightarrow> room_core s k r"
      by (rule room_core_cong) (use rooms [OF that] in auto)
    then show ?thesis using rooms [OF that] by (simp add: room_ok_core)
  qed
  then show ?thesis using ok f by (auto simp: relay_inv_def om_ok_upd_client)
qed

lemma client_ok_enter: "client_ok cid c \<Longrightarrow> client_ok cid (c\<lparr>cl_roomId := rid, cl_name := name\<rparr>)"
  by (simp add: client_ok_def)

lemma enter_fresh:
  assumes "may_enter cid rid s"
  shows "fresh_member cid rid (upd_client cid (\<lambda>c. c\<lparr>cl_roomId := rid, cl_name := name\<rparr>) s)"
proof -
  let ?f = "\<lambda>c. c\<lparr>cl_roomId := rid, cl_name := name\<rparr>" and ?s = "upd_client cid (\<lambda>c. c\<lparr>cl_roomId := rid, cl_name := name\<rparr>) s"
  have known: "map_of (rl_clients s) cid \<noteq> None" and nowhere: "room_of cid s = []"
    using assms by (auto simp: may_enter_def)
  have core: "room_core s k r" if "map_of (rl_rooms s) k = Some r" for k r
    using assms that by (auto simp: may_enter_def)
  have out: "cid \<notin> set (rm_clientIds r)" if "map_of (rl_rooms s) k = Some r" for k r
    using member_lives [OF core [OF that], of cid] lives_in_room_of [of s k cid] core [OF that] nowhere
    by (auto simp: room_core_def)
  have room: "room_of cid ?s = rid" using known by (simp add: room_of_def client_of_upd)
  have owner: "lives_in ?s k (rm_owner r)" if r: "map_of (rl_rooms s) k = Some r" for k r
  proof (cases "rm_owner r = cid")
    case True
    then have "k = rid"
      using assms r core [OF r] lives_in_room_of [of s k cid] nowhere
      by (auto simp: may_enter_def room_core_def)
    then show ?thesis using True known by (auto simp: lives_in_def)
  next
    case False
    then have "lives_in s k (rm_owner r)" using assms r by (auto simp: may_enter_def)
    then show ?thesis using False by (simp add: lives_in_def)
  qed
  have "relay_inv ?s"
    by (rule relay_inv_upd_outside)
       (use assms core out owner client_ok_enter in \<open>auto simp: may_enter_def\<close>)
  then show ?thesis using assms room known out by (auto simp: fresh_member_def may_enter_def)
qed

lemma fresh_upd:
  assumes fresh: "fresh_member cid rid s"
    and f: "\<And>c. cl_roomId (f c) = cl_roomId c" "\<And>c. client_ok cid c \<Longrightarrow> client_ok cid (f c)"
  shows "fresh_member cid rid (upd_client cid f s) \<and> touches cid s (upd_client cid f s)"
proof
  have inv: "relay_inv s" using fresh by (simp add: fresh_member_def)
  have room: "room_of cid (upd_client cid f s) = rid"
    using fresh f by (auto simp: fresh_member_def room_of_def client_of_upd)
  have out: "cid \<notin> set (rm_clientIds r)" if r: "map_of (rl_rooms s) k = Some r" for k r
  proof
    assume "cid \<in> set (rm_clientIds r)"
    then have "lives_in s k cid" using inv_room [OF inv r] by (auto simp: room_ok_def list_all_iff)
    then have "k = rid" using lives_in_room_of fresh by (auto simp: fresh_member_def)
    then show False using \<open>cid \<in> set (rm_clientIds r)\<close> fresh r by (auto simp: fresh_member_def)
  qed
  have lives: "lives_in (upd_client cid f s) k i \<longleftrightarrow> lives_in s k i" for k i
    using f(1) by (auto simp: lives_in_def option.map_comp comp_def)
  have "relay_inv (upd_client cid f s)"
    by (rule relay_inv_upd_outside)
       (use inv f out inv_room [OF inv] in \<open>auto simp: relay_inv_def room_ok_core lives\<close>)
  then show "fresh_member cid rid (upd_client cid f s)"
    using fresh room by (auto simp: fresh_member_def)
  show "touches cid s (upd_client cid f s)"
    using room fresh by (auto simp: touches_def members_def fresh_member_def)
qed

lemma fresh_add_member:
  assumes fresh: "fresh_member cid rid s"
  shows "relay_inv (add_member rid cid s) \<and> touches cid s (add_member rid cid s)"
proof
  obtain r where r: "map_of (rl_rooms s) rid = Some r" "cid \<notin> set (rm_clientIds r)"
    "length (rm_clientIds r) < kMaxRoomClients" and inv: "relay_inv s" and room: "room_of cid s = rid"
    and known: "map_of (rl_clients s) cid \<noteq> None"
    using fresh by (auto simp: fresh_member_def)
  have lives: "lives_in s rid cid"
    using known room by (auto simp: lives_in_def room_of_def client_of_def)
  let ?g = "\<lambda>r. let r' = r\<lparr>rm_clientIds := rm_clientIds r @ [cid]\<rparr> in
       r'\<lparr>rm_semanticVisualsReady := room_semantic_visuals_ready s r',
          rm_snapshotDeltasReady := room_snapshot_deltas_ready s r'\<rparr>"
  have "room_ok s rid (?g r)"
    using inv_room [OF inv r(1)] r lives
    by (auto simp: room_ok_def Let_def room_semantic_visuals_ready_def room_snapshot_deltas_ready_def
        apply_room_settings_def split: if_splits option.splits)
  then have "relay_inv (upd_room rid ?g s) \<and> touches cid s (upd_room rid ?g s)"
    using r(1) by (intro upd_room_good) (auto simp: inv room [symmetric] Let_def)
  then show "relay_inv (add_member rid cid s)" "touches cid s (add_member rid cid s)"
    by (simp_all add: add_member_def)
qed

lemma good_announce_member: "good cid (announce_member env cid rid peers) s"
  unfolding announce_member_def
  by (intro good_read) (auto split: option.splits intro!: good_intros)

text \<open>Rules that keep the exact state after an update or a conversion.\<close>

lemma good_modify_seq:
  assumes "relay_inv (g s) \<and> touches cid s (g s)" and "good cid n (g s)"
  shows "good cid (act_seq (act_modify g) n) s"
  using assms touches_trans [of s "g s" "snd (n (g s))" cid] by (auto simp: good_def)

lemma good_bind_lift: "(\<And>a. r = Inr a \<Longrightarrow> good cid (f a) s) \<Longrightarrow> good cid (act_bind (act_lift r) f) s"
  by (cases r) (simp_all add: good_def)

lemma fresh_good: "fresh_member cid rid s' \<and> touches cid s s' \<Longrightarrow> relay_inv s' \<and> touches cid s s'"
  by (simp add: fresh_member_def)

text \<open>
  Entering keeps the state well formed wherever the call stops: a \<open>hello\<close> whose preferences have
  the wrong type throws after the room of the client was set and before it is listed.
\<close>

lemma good_enter_room:
  assumes inv: "relay_inv s0" and t: "touches cid s0 (upd_client cid (\<lambda>c. c\<lparr>cl_roomId := rid, cl_name := name\<rparr>) s)"
    and may: "may_enter cid rid s"
  shows "relay_inv (snd (enter_room env cid rid name hello s)) \<and> touches cid s0 (snd (enter_room env cid rid name hello s))"
proof -
  let ?s1 = "upd_client cid (\<lambda>c. c\<lparr>cl_roomId := rid, cl_name := name\<rparr>) s"
  let ?f = "\<lambda>p c. c\<lparr>cl_wantsPuppet := p\<rparr>"
  let ?g = "\<lambda>m c. c\<lparr>cl_wantsMidna := m,
        cl_supportsSemanticVisuals := has_semantic_visual_capability hello,
        cl_supportsSnapshotDeltas := has_snapshot_delta_capability hello\<rparr>"
  have s1: "fresh_member cid rid ?s1" by (rule enter_fresh [OF may])
  have f: "fresh_member cid rid (upd_client cid (?f p) s') \<and> touches cid s' (upd_client cid (?f p) s')"
    if "fresh_member cid rid s'" for p s'
    by (rule fresh_upd [OF that]) (simp_all add: client_ok_def)
  have g: "fresh_member cid rid (upd_client cid (?g m) s') \<and> touches cid s' (upd_client cid (?g m) s')"
    if "fresh_member cid rid s'" for m s'
    by (rule fresh_upd [OF that]) (simp_all add: client_ok_def)
  define rest where "rest = act_bind (act_json (value_bool ''want_puppet'' True hello)) (\<lambda>puppet.
     act_seq (set_client cid (?f puppet))
     (act_bind (act_json (value_bool ''want_midna'' False hello)) (\<lambda>midna.
     act_seq (set_client cid (?g midna))
     (act_read (\<lambda>s.
        let ids = (case map_of (rl_rooms s) rid of None \<Rightarrow> [] | Some r \<Rightarrow> rm_clientIds r);
            peers = peers_json (rl_clients s) ids
        in act_seq (act_modify (add_member rid cid)) (announce_member env cid rid peers))))))"
  have "good cid rest ?s1"
    unfolding rest_def Let_def
    by (intro good_bind_lift good_modify_seq good_read good_announce_member fresh_add_member
          fresh_good [OF f] fresh_good [OF g] f [THEN conjunct1] g [THEN conjunct1] s1)
  moreover have "enter_room env cid rid name hello s = rest ?s1"
    by (simp add: enter_room_def rest_def)
  moreover have "relay_inv ?s1" using s1 by (simp add: fresh_member_def)
  ultimately show ?thesis
    using inv t touches_trans [of s0 ?s1 "snd (rest ?s1)" cid] by (simp add: good_def)
qed

lemma touches_enter:
  assumes "room_of cid s0 = []" and "rl_clients s = rl_clients s0" and "rl_effects s = rl_effects s0"
    and "\<And>k. k \<noteq> rid \<Longrightarrow> map_of (rl_rooms s) k = map_of (rl_rooms s0) k" and "map_of (rl_clients s) cid \<noteq> None"
  shows "touches cid s0 (upd_client cid (\<lambda>c. c\<lparr>cl_roomId := rid, cl_name := name\<rparr>) s)"
  using assms by (auto simp: touches_def room_of_def client_of_upd)

lemma may_enter_existing:
  assumes "relay_inv s" "map_of (rl_clients s) cid \<noteq> None" "room_of cid s = []"
    "map_of (rl_rooms s) rid = Some r" "length (rm_clientIds r) < kMaxRoomClients"
  shows "may_enter cid rid s"
  using assms by (auto simp: may_enter_def relay_inv_def room_ok_core)

lemma good_hello_join:
  assumes "map_of (rl_clients s) cid \<noteq> None" and "room_of cid s = []"
  shows "good cid (hello_join env cid rid name proofHex hello) s"
proof (cases "map_of (rl_rooms s) rid")
  case None
  then show ?thesis using good_send_error by (simp add: hello_join_def good_def)
next
  case (Some r)
  have "good cid (admit_member env cid rid name hello) s"
    unfolding good_def
  proof
    assume inv: "relay_inv s"
    show "relay_inv (snd (admit_member env cid rid name hello s)) \<and>
        touches cid s (snd (admit_member env cid rid name hello s))"
    proof (cases "length (rm_clientIds r) \<ge> kMaxRoomClients")
      case True
      then show ?thesis using Some inv good_send_error [of cid env _ s] by (simp add: admit_member_def good_def)
    next
      case False
      have "relay_inv (snd (enter_room env cid rid name hello s)) \<and>
          touches cid s (snd (enter_room env cid rid name hello s))"
        by (rule good_enter_room [OF inv touches_enter may_enter_existing])
           (use assms inv Some False in auto)
      then show ?thesis using False Some by (simp add: admit_member_def)
    qed
  qed
  then show ?thesis using Some good_send_error [of cid env _ s] by (simp add: hello_join_def good_def)
qed

lemma creator_key_length: "creator_key c v p = Some key \<Longrightarrow> length key = 32"
  by (auto simp: creator_key_def room_proof_key_def split: option.splits if_splits)

lemma may_enter_created:
  assumes inv: "relay_inv s" and known: "map_of (rl_clients s) cid \<noteq> None" and nowhere: "room_of cid s = []"
    and rid: "rid \<noteq> []" and key: "length key = 32" and new: "map_of (rl_rooms s) rid = None"
    and r: "apply_room_settings settings (new_room\<lparr>rm_id := rid, rm_authSalt := salt,
      rm_proofKey := hex_bytes key, rm_owner := cid\<rparr>) = Some r"
  shows "may_enter cid rid (s\<lparr>rl_rooms := om_put rid r (rl_rooms s)\<rparr>)"
proof -
  let ?s = "s\<lparr>rl_rooms := om_put rid r (rl_rooms s)\<rparr>"
  note fields = apply_room_settings_fields [OF r]
  have "room_core ?s rid r"
    using fields rid hex_digest.dec_enc [OF key]
    by (simp add: room_core_def new_room_def room_semantic_visuals_ready_def
        room_snapshot_deltas_ready_def all_members_def)
  moreover have "room_core ?s k q" if "map_of (rl_rooms s) k = Some q" for k q
    using inv_room [OF inv that] by (subst room_core_cong [of q ?s s]) (auto simp: room_ok_core)
  moreover have "lives_in ?s k (rm_owner q)" if "map_of (rl_rooms s) k = Some q" for k q
    using inv_room [OF inv that] by (auto simp: room_ok_core lives_in_def)
  ultimately show ?thesis
    using inv known nowhere fields
    by (auto simp: may_enter_def relay_inv_def room_of_def client_of_def new_room_def kMaxRoomClients_def)
qed

lemma good_hello_create:
  assumes "map_of (rl_clients s) cid \<noteq> None" and "room_of cid s = []" and "rid \<noteq> []"
  shows "good cid (hello_create env cid rid name proofHex hello) s"
proof -
  have enter: "good cid (act_seq (act_modify (\<lambda>s. s\<lparr>rl_rooms := om_put rid r (rl_rooms s)\<rparr>))
      (admit_member env cid rid name hello)) s"
    if new: "map_of (rl_rooms s) rid = None" and key: "length key = 32"
      and r: "apply_room_settings settings (new_room\<lparr>rm_id := rid, rm_authSalt := salt,
        rm_proofKey := hex_bytes key, rm_owner := cid\<rparr>) = Some r" for r key settings salt
    unfolding good_def
  proof
    assume inv: "relay_inv s"
    let ?s = "s\<lparr>rl_rooms := om_put rid r (rl_rooms s)\<rparr>"
    have "length (rm_clientIds r) < kMaxRoomClients"
      using apply_room_settings_fields(2) [OF r] by (simp add: new_room_def kMaxRoomClients_def)
    then have "admit_member env cid rid name hello ?s = enter_room env cid rid name hello ?s"
      by (simp add: admit_member_def)
    moreover have "relay_inv (snd (enter_room env cid rid name hello ?s)) \<and>
        touches cid s (snd (enter_room env cid rid name hello ?s))"
      by (rule good_enter_room [OF inv touches_enter may_enter_created [OF inv assms key new r]])
         (use assms in auto)
    ultimately show "relay_inv (snd (act_seq (act_modify (\<lambda>s. s\<lparr>rl_rooms := om_put rid r (rl_rooms s)\<rparr>))
        (admit_member env cid rid name hello) s)) \<and>
      touches cid s (snd (act_seq (act_modify (\<lambda>s. s\<lparr>rl_rooms := om_put rid r (rl_rooms s)\<rparr>))
        (admit_member env cid rid name hello) s))" by simp
  qed
  show ?thesis
    unfolding hello_create_def
    by (intro good_read good_if good_bind_lift good_send_error)
       (auto split: option.splits intro!: good_bind_lift good_send_error good_reject enter dest: creator_key_length)
qed

lemma good_handle_hello:
  assumes "map_of (rl_clients s) cid \<noteq> None" and "room_of cid s = []"
  shows "good cid (handle_hello env cid hello) s"
  unfolding handle_hello_def hello_authenticate_def Let_def
  by (intro good_bind_lift good_if good_read good_intros good_hello_create good_hello_join assms)

lemma good_route_message:
  assumes "map_of (rl_clients s) cid \<noteq> None"
  shows "good cid (route_message env cid message) s"
proof -
  have large: "good cid (act_bind (if type = ''peer_reliable'' then act_return False
      else act_bind (act_json (tc_dump (re_codec env) message))
             (\<lambda>text. act_return (length text > reliableJsonLimit))) f) s"
    if "\<And>b. good cid (f b) s" for type and f :: "bool \<Rightarrow> unit relay_act"
    using that by (cases "tc_dump (re_codec env) message")
      (auto simp: good_def act_bind_def lift_json_def split: prod.splits)
  show ?thesis
    unfolding route_message_def
    by (intro good_if good_send_error good_bind_lift large good_reject good_route_auth_begin good_read
        good_handle_hello good_route_member assms) (simp_all add: room_of_def)
qed

text \<open>
  C3: rooms are isolated.  Whatever a connected client sends, the relay's state stays well formed,
  no datagram leaves, no room changes but the one the client is in afterwards, and no other client
  is sent anything, or changed in any way, unless it is a listed member of that room.
\<close>

theorem message_stays_in_room:
  assumes "relay_inv s" and "map_of (rl_clients s) cid = Some c"
    and "s' = snd (route_message env cid message s)"
  shows "relay_inv s' \<and> rl_effects s' = rl_effects s \<and>
    (\<forall>rid. map_of (rl_rooms s') rid \<noteq> map_of (rl_rooms s) rid \<longrightarrow> rid = room_of cid s') \<and>
    (\<forall>d. d \<noteq> cid \<and> map_of (rl_clients s') d \<noteq> map_of (rl_clients s) d \<longrightarrow>
       (\<exists>r. map_of (rl_rooms s') (room_of cid s') = Some r \<and> d \<in> set (rm_clientIds r)))"
  using good_route_message [of s cid env message] assms
  by (auto simp: good_def touches_def members_def split: option.splits)

end
