(* ===== verification/Relay_Admission.thy ===== *)
theory Relay_Admission
  imports Relay_Isolation
begin

text \<open>
  How a client becomes part of a room of the relay: only on a correct proof of the room's code, and
  what is left behind when a \<open>hello\<close> throws half way.
\<close>

section \<open>Messages that keep the sender's room\<close>

lemma stays_peer_reliable [stays_intros]: "stays cid (route_peer_reliable env cid message)"
  unfolding route_peer_reliable_def
  by (intro stays_intros) (auto split: option.splits intro!: stays_intros)

lemma stays_peer_receipt [stays_intros]: "stays cid (route_peer_receipt env cid message)"
  unfolding route_peer_receipt_def by (intro stays_intros)

lemma stays_ice_signal [stays_intros]: "stays cid (route_ice_signal env cid message)"
  unfolding route_ice_signal_def
  by (intro stays_seq stays_set_client)
     (auto simp: refresh_signal_window_def split: option.splits json.splits intro!: stays_intros)

lemma stays_peer_stage [stays_intros]: "stays cid (route_peer_stage cid message)"
  unfolding route_peer_stage_def
  by (auto split: option.splits json.splits intro!: stays_intros)

lemma stays_settings_ready [stays_intros]: "stays cid (route_settings_ready env cid message)"
  unfolding route_settings_ready_def Let_def
  by (intro stays_read) (auto split: option.splits intro!: stays_intros)

lemma stays_kick [stays_intros]: "stays cid (route_kick env cid message)"
  unfolding route_kick_def kick_member_def Let_def
  by (intro stays_read) (auto split: option.splits json.splits intro!: stays_intros)

lemma stays_preferences [stays_intros]: "stays cid (apply_preferences cid type message)"
  unfolding apply_preferences_def by (intro stays_intros) simp_all

lemma stays_room_settings [stays_intros]: "stays cid (route_room_settings env cid message)"
  unfolding route_room_settings_def Let_def
  by (intro stays_read) (auto split: option.splits intro!: stays_intros)

lemma stays_pose [stays_intros]: "stays cid (route_pose env cid message)"
  unfolding route_pose_def by (intro stays_intros) simp_all

lemma stays_reliable [stays_intros]: "stays cid (route_reliable env cid message)"
  unfolding route_reliable_def
  by (intro stays_intros) (simp add: remember_reliable_def Let_def)

lemma stays_sync_request [stays_intros]: "stays cid (route_sync_request env cid message)"
  unfolding route_sync_request_def send_or_unknown_def by (intro stays_intros)

lemma stays_gameplay [stays_intros]: "stays cid (route_gameplay env cid message)"
  unfolding route_gameplay_def send_or_unknown_def Let_def by (intro stays_intros)

lemma stays_member [stays_intros]: "stays cid (route_member env cid type message)"
  unfolding route_member_def by (intro stays_intros)

lemma stays_auth_begin [stays_intros]: "stays cid (route_auth_begin env cid message)"
  unfolding route_auth_begin_def Let_def
  by (intro stays_intros) (auto split: option.splits intro: stays_intros)

lemma stays_run: "stays cid m \<Longrightarrow> room_of cid (snd (m s)) = room_of cid s"
  by (simp add: stays_def)

section \<open>Only a proof opens a room\<close>

text \<open>The proof of a \<open>hello\<close> for the room the client asked for, against the nonce it was given.\<close>

definition proved :: "json \<Rightarrow> client \<Rightarrow> room option \<Rightarrow> bool" where
  "proved hello c existing \<longleftrightarrow> cl_authNonce c \<noteq> [] \<and>
     (\<exists>proofHex. value_string ''code_proof'' [] hello = Inr proofHex \<and> unhex_digest proofHex \<noteq> None \<and>
       (case existing of
          Some r \<Rightarrow> cl_authSalt c = rm_authSalt r \<and>
            (\<exists>key. unhex_digest (rm_proofKey r) = Some key \<and> proofHex = room_proof key (cl_authNonce c))
        | None \<Rightarrow> cl_pendingAction c = ''create'' \<and>
            (\<exists>verifierHex verifier key. value_string ''code_verifier'' [] hello = Inr verifierHex \<and>
               unhex_digest verifierHex = Some verifier \<and>
               room_proof_key verifier (cl_authSalt c) = Some key \<and>
               proofHex = room_proof key (cl_authNonce c))))"

lemma act_bind_lift_run:
  "act_bind (act_lift r) f s = (case r of Inl e \<Rightarrow> (Inl e, s) | Inr a \<Rightarrow> f a s)"
  by (simp add: act_bind_def act_lift_def)

lemma room_of_enter:
  "map_of (rl_clients s) cid \<noteq> None \<Longrightarrow> room_of cid (snd (enter_room env cid rid name hello s)) = rid"
proof -
  assume known: "map_of (rl_clients s) cid \<noteq> None"
  let ?s1 = "upd_client cid (\<lambda>c. c\<lparr>cl_roomId := rid, cl_name := name\<rparr>) s"
  have 1: "room_of cid ?s1 = rid" using known by (simp add: room_of_def client_of_upd)
  have "stays cid (act_modify (add_member rid cid))"
    by (simp add: stays_def act_modify_def add_member_def room_of_def)
  then have rest: "stays cid (act_bind (act_json (value_bool ''want_puppet'' True hello)) (\<lambda>puppet.
     act_seq (set_client cid (\<lambda>c. c\<lparr>cl_wantsPuppet := puppet\<rparr>))
     (act_bind (act_json (value_bool ''want_midna'' False hello)) (\<lambda>midna.
     act_seq (set_client cid (\<lambda>c. c\<lparr>cl_wantsMidna := midna,
        cl_supportsSemanticVisuals := has_semantic_visual_capability hello,
        cl_supportsSnapshotDeltas := has_snapshot_delta_capability hello\<rparr>))
     (act_read (\<lambda>s.
        let ids = (case map_of (rl_rooms s) rid of None \<Rightarrow> [] | Some r \<Rightarrow> rm_clientIds r);
            peers = peers_json (rl_clients s) ids
        in act_seq (act_modify (add_member rid cid)) (announce_member env cid rid peers)))))))"
    unfolding Let_def announce_member_def
    by (intro stays_intros) (auto split: option.splits intro!: stays_intros)
  show ?thesis
    using stays_run [OF rest, of ?s1] 1 by (simp add: enter_room_def)
qed

lemma room_of_admit:
  assumes "map_of (rl_clients s) cid \<noteq> None"
    and "room_of cid (snd (admit_member env cid rid name hello s)) \<noteq> room_of cid s"
  shows "room_of cid (snd (admit_member env cid rid name hello s)) = rid"
  using assms room_of_enter [OF assms(1)] stays_run [OF stays_send_error]
  by (auto simp: admit_member_def split: option.splits if_splits)

lemma join_proof_key:
  assumes "room_ok s rid r" and "join_proof_ok c r proofHex"
  shows "cl_authSalt c = rm_authSalt r \<and>
    (\<exists>key. unhex_digest (rm_proofKey r) = Some key \<and> proofHex = room_proof key (cl_authNonce c))"
  using assms by (auto simp: join_proof_ok_def room_ok_def)

lemma create_needs_proof:
  assumes known: "map_of (rl_clients s) cid \<noteq> None"
    and moved: "room_of cid (snd (hello_create env cid rid name proofHex hello s)) \<noteq> room_of cid s"
  shows "room_of cid (snd (hello_create env cid rid name proofHex hello s)) = rid \<and>
    map_of (rl_rooms s) rid = None \<and>
    (\<exists>verifierHex verifier key. value_string ''code_verifier'' [] hello = Inr verifierHex \<and>
       unhex_digest verifierHex = Some verifier \<and>
       room_proof_key verifier (cl_authSalt (client_of cid s)) = Some key \<and>
       proofHex = room_proof key (cl_authNonce (client_of cid s)))"
proof -
  have adm: "room_of cid (snd (admit_member env cid rid name hello (s\<lparr>rl_rooms := rooms\<rparr>))) = rid"
    if "room_of cid (snd (admit_member env cid rid name hello (s\<lparr>rl_rooms := rooms\<rparr>))) \<noteq> room_of cid s" for rooms
    using room_of_admit [of "s\<lparr>rl_rooms := rooms\<rparr>" cid env rid name hello] known that
    by (simp add: room_of_def client_of_def)
  note errors = stays_run [OF stays_send_error] stays_run [OF stays_reject]
  have new: "map_of (rl_rooms s) rid = None"
    by (rule ccontr) (use moved in \<open>auto simp: hello_create_def errors\<close>)
  obtain v where v: "value_string ''code_verifier'' [] hello = Inr v"
    using moved new
    by (cases "value_string ''code_verifier'' [] hello") (simp_all add: hello_create_def lift_json_def)
  obtain key where key: "creator_key (client_of cid s) v proofHex = Some key"
    using moved new v
    by (cases "creator_key (client_of cid s) v proofHex") (simp_all add: hello_create_def lift_json_def errors)
  obtain settings where st: "value_json ''settings'' (JObj []) hello = Inr settings"
    using moved new v key
    by (cases "value_json ''settings'' (JObj []) hello") (simp_all add: hello_create_def lift_json_def)
  let ?new = "new_room\<lparr>rm_id := rid, rm_authSalt := cl_authSalt (client_of cid s),
                       rm_proofKey := hex_bytes key, rm_owner := cid\<rparr>"
  obtain r where r: "apply_room_settings settings ?new = Some r"
    using moved new v key st
    by (cases "apply_room_settings settings ?new") (simp_all add: hello_create_def lift_json_def errors)
  have "hello_create env cid rid name proofHex hello s =
      admit_member env cid rid name hello (s\<lparr>rl_rooms := om_put rid r (rl_rooms s)\<rparr>)"
    using new v key st r by (simp add: hello_create_def lift_json_def)
  then have "room_of cid (snd (hello_create env cid rid name proofHex hello s)) = rid"
    using adm [of "om_put rid r (rl_rooms s)"] moved by simp
  then show ?thesis
    using new v key by (auto simp: creator_key_def split: option.splits if_splits)
qed

lemma join_needs_proof:
  assumes known: "map_of (rl_clients s) cid \<noteq> None"
    and moved: "room_of cid (snd (hello_join env cid rid name proofHex hello s)) \<noteq> room_of cid s"
  shows "room_of cid (snd (hello_join env cid rid name proofHex hello s)) = rid \<and>
    (\<exists>r. map_of (rl_rooms s) rid = Some r \<and> join_proof_ok (client_of cid s) r proofHex)"
  using moved room_of_admit [OF known]
  by (auto simp: hello_join_def stays_run [OF stays_send_error] split: if_splits option.splits)

lemma authenticate_needs_proof:
  assumes inv: "relay_inv s" and known: "map_of (rl_clients s) cid \<noteq> None"
    and proofHex: "value_string ''code_proof'' [] hello = Inr proofHex"
    and moved: "room_of cid (snd (hello_authenticate env cid rid name action proofHex hello s)) \<noteq> room_of cid s"
  shows "room_of cid (snd (hello_authenticate env cid rid name action proofHex hello s)) =
      cl_pendingRoomId (client_of cid s) \<and>
    proved hello (client_of cid s) (map_of (rl_rooms s) (cl_pendingRoomId (client_of cid s)))"
proof -
  let ?c = "client_of cid s"
  have ok: "rid = cl_pendingRoomId ?c" "action = cl_pendingAction ?c" "cl_authNonce ?c \<noteq> []"
    "unhex_digest proofHex \<noteq> None"
    by (rule ccontr, use moved in \<open>simp add: hello_authenticate_def Let_def stays_run [OF stays_reject]\<close>)+
  show ?thesis
  proof (cases "action = ''create''")
    case True
    then have eq: "hello_authenticate env cid rid name action proofHex hello s =
        hello_create env cid rid name proofHex hello s"
      using ok by (auto simp: hello_authenticate_def Let_def)
    show ?thesis
      using create_needs_proof [OF known, of env rid name proofHex hello] moved ok proofHex True
      unfolding eq by (auto simp: proved_def)
  next
    case False
    then have eq: "hello_authenticate env cid rid name action proofHex hello s =
        hello_join env cid rid name proofHex hello s"
      using ok by (auto simp: hello_authenticate_def Let_def)
    obtain r where r: "map_of (rl_rooms s) rid = Some r" "join_proof_ok ?c r proofHex"
      and to: "room_of cid (snd (hello_join env cid rid name proofHex hello s)) = rid"
      using join_needs_proof [OF known, of env rid name proofHex hello] moved unfolding eq by auto
    show ?thesis
      using ok proofHex to r join_proof_key [OF inv_room [OF inv r(1)] r(2)] unfolding eq
      by (auto simp: proved_def)
  qed
qed

lemma hello_needs_proof:
  assumes inv: "relay_inv s" and known: "map_of (rl_clients s) cid \<noteq> None"
    and moved: "room_of cid (snd (handle_hello env cid hello s)) \<noteq> room_of cid s"
  shows "room_of cid (snd (handle_hello env cid hello s)) = cl_pendingRoomId (client_of cid s) \<and>
    proved hello (client_of cid s) (map_of (rl_rooms s) (cl_pendingRoomId (client_of cid s)))"
proof -
  obtain rid name action proofHex where p: "value_string ''code_proof'' [] hello = Inr proofHex"
    and h: "handle_hello env cid hello s = hello_authenticate env cid rid name action proofHex hello s"
    using moved
    by (auto simp: handle_hello_def act_bind_lift_run lift_json_def Let_def
        stays_run [OF stays_send_error] split: if_splits sum.splits)
  show ?thesis using authenticate_needs_proof [OF inv known p] moved unfolding h by blast
qed

text \<open>
  C1: a client gets into a room only by proving its code.  If a message moves a connected client
  from no room into one, then the client asked for that very room in \<open>auth_begin\<close>, and the message
  carries the proof for the nonce it was given: for an existing room, the keyed hash of the nonce
  under the key the room stores; for a new room, that of the key derived from the verifier sent.
\<close>

theorem entry_needs_proof:
  assumes inv: "relay_inv s" and known: "map_of (rl_clients s) cid = Some c" and out: "cl_roomId c = []"
    and s': "s' = snd (route_message env cid message s)" and moved: "room_of cid s' \<noteq> []"
  shows "room_of cid s' = cl_pendingRoomId c \<and>
    proved message c (map_of (rl_rooms s) (cl_pendingRoomId c))"
proof -
  have c: "client_of cid s = c" and room: "room_of cid s = []"
    using known out by (simp_all add: room_of_def client_of_def)
  have "route_message env cid message s = handle_hello env cid message s"
    using moved room unfolding s'
    by (auto simp: route_message_def act_bind_lift_run act_bind_def lift_json_def
        stays_run [OF stays_send_error] stays_run [OF stays_reject] stays_run [OF stays_auth_begin]
        stays_run [OF stays_member] c out split: if_splits sum.splits)
  then show ?thesis
    using hello_needs_proof [OF inv, of cid env message] known moved room c s' by auto
qed

section \<open>A hello that throws half way\<close>

text \<open>
  C30: the preferences of a \<open>hello\<close> are read after the client's room was set and before the client is
  listed.  When one of them has the wrong type the exception leaves a client that is in the room,
  so that it can send to its members, and is not one of its members: it receives nothing, and the
  limit of eight does not count it.
\<close>

theorem half_entered:
  assumes known: "map_of (rl_clients s) cid = Some c" and out: "cl_roomId c = []"
    and r: "map_of (rl_rooms s) rid = Some r" and inv: "relay_inv s"
    and space: "length (rm_clientIds r) < kMaxRoomClients" and p: "join_proof_ok c r proofHex"
    and bad: "value_bool ''want_puppet'' True hello = Inl e"
  shows "fst (hello_join env cid rid name proofHex hello s) = Inl (JsonExn e) \<and>
    room_of cid (snd (hello_join env cid rid name proofHex hello s)) = rid \<and>
    map_of (rl_rooms (snd (hello_join env cid rid name proofHex hello s))) rid = Some r \<and>
    cid \<notin> set (rm_clientIds r)"
proof -
  have "cid \<notin> set (rm_clientIds r)"
    using inv_room [OF inv r] known out by (auto simp: room_ok_def list_all_iff lives_in_def)
  then show ?thesis
    using known r space p bad
    by (simp add: hello_join_def admit_member_def enter_room_def client_of_known lift_json_def
        room_of_def client_of_upd)
qed

section \<open>An example\<close>

text \<open>Two members of one room and a third client that is in none.\<close>

definition ex_client :: "string \<Rightarrow> string \<Rightarrow> client" where
  "ex_client i rid = (new_client 0)\<lparr>cl_id := i, cl_roomId := rid\<rparr>"

definition ex_room :: room where
  "ex_room = new_room\<lparr>rm_id := ''r'', rm_proofKey := hex_bytes (replicate 32 0),
     rm_clientIds := [''a'', ''b''], rm_owner := ''a''\<rparr>"

definition ex_relay :: relay where
  "ex_relay = \<lparr>rl_clients = [(''a'', ex_client ''a'' ''r''), (''b'', ex_client ''b'' ''r''),
                             (''c'', ex_client ''c'' [])],
               rl_rooms = [(''r'', ex_room)], rl_effects = []\<rparr>"

definition ex_env :: relay_env where
  "ex_env = \<lparr>re_codec = toy_codec\<lparr>tc_dump := \<lambda>_. Inr ''{}''\<rparr>, re_now = 0, re_wall = Fin 0,
     re_nonce = Some (replicate 32 CHR ''0''), re_salt = Some (replicate 32 CHR ''0''),
     re_publicPort = 34197, re_helloTimeout = 10, re_verbose = False, re_maxClients = 1022\<rparr>"

lemma ex_client_ok: "client_ok i (ex_client i rid)"
  by (simp add: client_ok_def ex_client_def new_client_def)

lemma ex_room_ok: "room_ok ex_relay ''r'' ex_room"
  using hex_digest.dec_enc [of "replicate 32 0"]
  by (simp add: room_ok_def ex_room_def ex_relay_def new_room_def kMaxRoomClients_def lives_in_def
      ex_client_def new_client_def room_semantic_visuals_ready_def room_snapshot_deltas_ready_def
      all_members_def)

lemma ex_relay_inv: "relay_inv ex_relay"
  unfolding relay_inv_def
  using ex_client_ok ex_room_ok
  by (auto simp: ex_relay_def om_ok_def)

definition ex_chat :: relay where
  "ex_chat = snd (route_message ex_env ''a'' (JObj [(''type'', JStr ''chat'')]) ex_relay)"

lemma ex_send: "send_or_drop ex_env i m s =
   (if cl_txQueuedBytes (client_of i s) \<le> kMaxQueuedBytes - 3
    then (Inr (), upd_client i (\<lambda>c. c\<lparr>cl_txQueuedBytes := Suc (Suc (Suc (cl_txQueuedBytes c))),
            cl_txQueue := cl_txQueue c @ [''{}'' @ [CHR 0x0A]]\<rparr>) s)
    else (Inr (), upd_client i (\<lambda>c. c\<lparr>cl_disconnectRequested := True\<rparr>)
            (upd_client i (\<lambda>c. c\<lparr>cl_disconnectRequested := True\<rparr>) s)))"
  by (simp add: send_or_drop_def send_json_def ex_env_def encode_reliable_json_def lift_json_def
      reliablePeerFrameLimit_def reliableJsonLimit_def kMaxQueuedBytes_def act_bind_def act_seq_def Let_def)

lemma ex_route:
  "route_message ex_env ''a'' (JObj [(''type'', JStr ''chat'')]) ex_relay =
     broadcast ex_env ''r'' ''a'' (j_set ''client_id'' (JStr ''a'') (JObj [(''type'', JStr ''chat'')])) ex_relay"
proof -
  have r: "cl_roomId (client_of ''a'' ex_relay) = ''r''"
    by (simp add: client_of_def ex_relay_def ex_client_def new_client_def)
  show ?thesis
    by (simp add: route_message_def j_value_def lift_json_def ex_env_def r route_member_def
        apply_preferences_def kGameplayRouteTypes_def route_gameplay_def reliableJsonLimit_def
        act_bind_def act_seq_def)
qed

lemma ex_chat_queue: "cl_txQueue (client_of ''b'' ex_chat) = [''{}'' @ [CHR 0x0A]]"
  unfolding ex_chat_def ex_route
  by (simp add: broadcast_def ex_relay_def ex_room_def new_room_def broadcast_one_def ex_send
      ex_client_def new_client_def client_of_def upd_client_def act_seq_def act_bind_def kMaxQueuedBytes_def)

lemma message_stays_in_room_witness:
  "relay_inv ex_chat \<and> cl_txQueue (client_of ''b'' ex_chat) = [''{}'' @ [CHR 0x0A]] \<and>
   (\<exists>r. map_of (rl_rooms ex_chat) (room_of ''a'' ex_chat) = Some r \<and> ''b'' \<in> set (rm_clientIds r))"
proof -
  have a: "map_of (rl_clients ex_relay) ''a'' = Some (ex_client ''a'' ''r'')" by (simp add: ex_relay_def)
  have "map_of (rl_clients ex_chat) ''b'' \<noteq> map_of (rl_clients ex_relay) ''b''"
  proof
    assume "map_of (rl_clients ex_chat) ''b'' = map_of (rl_clients ex_relay) ''b''"
    then have "client_of ''b'' ex_chat = ex_client ''b'' ''r''" by (simp add: client_of_def ex_relay_def)
    with ex_chat_queue show False by (simp add: ex_client_def new_client_def)
  qed
  then have b: "''b'' \<noteq> ''a'' \<and> map_of (rl_clients ex_chat) ''b'' \<noteq> map_of (rl_clients ex_relay) ''b''"
    by simp
  note m = message_stays_in_room [OF ex_relay_inv a ex_chat_def]
  show ?thesis
    using m [THEN conjunct1] m [THEN conjunct2, THEN conjunct2, THEN conjunct2, rule_format, OF b]
      ex_chat_queue by (intro conjI)
qed

definition ex_nonce :: string where
  "ex_nonce = replicate 32 CHR ''0''"

definition ex_joining :: client where
  "ex_joining = (ex_client ''c'' [])\<lparr>cl_pendingRoomId := ''r'', cl_pendingAction := ''join'',
     cl_authNonce := ex_nonce\<rparr>"

definition ex_challenged :: relay where
  "ex_challenged = ex_relay\<lparr>rl_clients := om_put ''c'' ex_joining (rl_clients ex_relay)\<rparr>"

definition ex_hello :: json where
  "ex_hello = JObj [(''action'', JStr ''join''), (''code_proof'', JStr (room_proof (replicate 32 0) ex_nonce)),
     (''name'', JStr ''n''), (''protocol_version'', JInt 4), (''room_id'', JStr ''r''), (''type'', JStr ''hello'')]"

lemma ex_challenged_inv: "relay_inv ex_challenged"
proof -
  have "client_ok ''c'' ex_joining"
    by (simp add: client_ok_def ex_joining_def ex_client_def new_client_def)
  moreover have "room_ok ex_challenged ''r'' ex_room"
    using ex_room_ok
    by (subst room_ok_cong [of ex_challenged ex_relay])
       (auto simp: ex_challenged_def ex_relay_def client_view_def ex_joining_def ex_client_def)
  ultimately show ?thesis
    unfolding relay_inv_def
    using ex_client_ok by (auto simp: ex_challenged_def ex_relay_def om_ok_def)
qed

lemma ex_proof: "unhex_digest (room_proof (replicate 32 0) ex_nonce) = Some
    (hmac_sha256 (replicate 32 0) (str_bytes (''dusklight-room-auth-v1:'' @ ex_nonce)))"
proof -
  have "unhex ex_nonce \<noteq> None" unfolding ex_nonce_def by code_simp
  then have "room_proof (replicate 32 0) ex_nonce =
      hex_bytes (hmac_sha256 (replicate 32 0) (str_bytes (''dusklight-room-auth-v1:'' @ ex_nonce)))"
    unfolding room_proof_def by (auto simp: ex_nonce_def)
  then show ?thesis using hex_digest.dec_enc by simp
qed

lemma ex_enters: "room_of ''c'' (snd (route_message ex_env ''c'' ex_hello ex_challenged)) = ''r''"
proof -
  have c: "map_of (rl_clients ex_challenged) ''c'' = Some ex_joining"
    by (simp add: ex_challenged_def)
  have trims: "trim ''r'' = ''r''" "trim ''n'' = ''n''" by code_simp+
  have key: "unhex_digest (hex_bytes (replicate 32 0)) = Some (replicate 32 0)"
    by (rule hex_digest.dec_enc) simp
  have j: "cl_roomId ex_joining = []" "cl_pendingRoomId ex_joining = ''r''"
    "cl_pendingAction ex_joining = ''join''" "cl_authNonce ex_joining = ex_nonce"
    "cl_authSalt ex_joining = []" "ex_nonce \<noteq> []"
    by (simp_all add: ex_joining_def ex_client_def new_client_def ex_nonce_def)
  obtain d where d: "unhex_digest (room_proof (replicate 32 0) ex_nonce) = Some d" using ex_proof by blast
  have r: "map_of (rl_rooms ex_challenged) ''r'' = Some ex_room"
    "rm_proofKey ex_room = hex_bytes (replicate 32 0)" "rm_authSalt ex_room = []"
    "rm_clientIds ex_room = [''a'', ''b'']"
    by (simp_all add: ex_challenged_def ex_relay_def ex_room_def new_room_def)
  have "route_message ex_env ''c'' ex_hello ex_challenged = handle_hello ex_env ''c'' ex_hello ex_challenged"
    using c j(1)
    by (simp add: route_message_def ex_hello_def j_value_def lift_json_def ex_env_def reliableJsonLimit_def
        client_of_known act_bind_def act_seq_def)
  also have "\<dots> = hello_authenticate ex_env ''c'' ''r'' ''n'' ''join'' (room_proof (replicate 32 0) ex_nonce)
      ex_hello ex_challenged"
    using trims
    by (simp add: handle_hello_def ex_hello_def j_value_def lift_json_def kProtocolVersion_def
        kMaxRoomIdBytes_def kMaxUsernameBytes_def Let_def)
  also have "\<dots> = hello_join ex_env ''c'' ''r'' ''n'' (room_proof (replicate 32 0) ex_nonce) ex_hello ex_challenged"
    using c d j by (simp add: hello_authenticate_def client_of_known)
  also have "\<dots> = enter_room ex_env ''c'' ''r'' ''n'' ex_hello ex_challenged"
    using c key j r
    by (simp add: hello_join_def join_proof_ok_def client_of_known admit_member_def kMaxRoomClients_def)
  finally show ?thesis using room_of_enter c by simp
qed

lemma entry_needs_proof_witness:
  "proved ex_hello ex_joining (Some ex_room)"
proof -
  have c: "map_of (rl_clients ex_challenged) ''c'' = Some ex_joining" by (simp add: ex_challenged_def)
  have out: "cl_roomId ex_joining = []" by (simp add: ex_joining_def ex_client_def)
  have pending: "cl_pendingRoomId ex_joining = ''r''" by (simp add: ex_joining_def)
  have "map_of (rl_rooms ex_challenged) ''r'' = Some ex_room" by (simp add: ex_challenged_def ex_relay_def)
  then show ?thesis
    using entry_needs_proof [OF ex_challenged_inv c out refl, of ex_env ex_hello] ex_enters pending
    by simp
qed

theorem half_entered_witness:
  "(let s' = snd (hello_join ex_env ''c'' ''r'' ''n'' (room_proof (replicate 32 0) ex_nonce)
        (JObj [(''want_puppet'', JInt 1)]) ex_challenged)
    in room_of ''c'' s' = ''r'' \<and> map_of (rl_rooms s') ''r'' = Some ex_room \<and> ''c'' \<notin> set (rm_clientIds ex_room))"
proof -
  have c: "map_of (rl_clients ex_challenged) ''c'' = Some ex_joining" by (simp add: ex_challenged_def)
  have out: "cl_roomId ex_joining = []" by (simp add: ex_joining_def ex_client_def)
  have r: "map_of (rl_rooms ex_challenged) ''r'' = Some ex_room" "length (rm_clientIds ex_room) < kMaxRoomClients"
    by (simp_all add: ex_challenged_def ex_relay_def ex_room_def new_room_def kMaxRoomClients_def)
  have key: "unhex_digest (hex_bytes (replicate 32 0)) = Some (replicate 32 0)"
    by (rule hex_digest.dec_enc) simp
  have "join_proof_ok ex_joining ex_room (room_proof (replicate 32 0) ex_nonce)"
    using key by (simp add: join_proof_ok_def ex_joining_def ex_client_def new_client_def ex_room_def new_room_def)
  moreover have "value_bool ''want_puppet'' True (JObj [(''want_puppet'', JInt 1)]) = Inl TypeError"
    by code_simp
  ultimately show ?thesis
    using half_entered [OF c out r(1) ex_challenged_inv r(2), of _ "JObj [(''want_puppet'', JInt 1)]" _ ex_env "''n''"]
    by (simp add: Let_def)
qed

end
