(* ===== verification/Relay_Server.thy ===== *)
theory Relay_Server
  imports Relay_Isolation
begin

text \<open>
  The relay's loop, \<open>tools/multiplayer_relay/relay.cpp\<close>: accepting connections, realtime datagrams,
  reading and flushing streams, removing clients, and \<open>tick\<close>, which puts them together.  The
  connection layer's answers during a tick are its input.
\<close>

section \<open>Realtime datagrams\<close>

definition udp_sender_id :: "udp_header \<Rightarrow> string" where
  "udp_sender_id h = read_id (uh_senderId h)"

definition kAckBytes :: nat where "kAckBytes = 38"

definition udp_acked_sender_id :: "bytes \<Rightarrow> string" where
  "udp_acked_sender_id ack = read_id (subspan 5 32 ack)"

definition is_pose_type :: "u8 \<Rightarrow> bool" where
  "is_pose_type t \<longleftrightarrow> t = PoseJson \<or> t = PoseMsgpack \<or> t = SemanticPoseMsgpack"

definition bad_voice :: "udp_header \<Rightarrow> bool" where
  "bad_voice h \<longleftrightarrow> uh_type h = VoiceOpus \<and>
     (uh_sequence h = 0 \<or> uh_chunkIndex h \<noteq> 0 \<or> uh_chunkCount h \<noteq> 1 \<or>
      uh_payloadSize h \<le> 21 \<or> uh_payloadSize h > 421 \<or>
      uh_compressedSize h \<noteq> ucast (uh_payloadSize h) \<or> uh_uncompressedSize h \<noteq> ucast (uh_payloadSize h))"

definition send_udp_to_client :: "string \<Rightarrow> bytes \<Rightarrow> relay \<Rightarrow> relay" where
  "send_udp_to_client cid packet s =
     (let c = client_of cid s in
      if \<not> cl_udpAddrKnown c then s else add_effect (SendRealtime (cl_udpAddr c) packet) s)"

definition refresh_rate :: "int \<Rightarrow> client \<Rightarrow> client" where
  "refresh_rate now c =
     (if now - cl_udpRateWindowStarted c \<ge> kSecond
      then c\<lparr>cl_udpRateWindowStarted := now, cl_udpRateWindowBytes := 0\<rparr> else c)"

definition stages_differ :: "client \<Rightarrow> client \<Rightarrow> bool" where
  "stages_differ a b \<longleftrightarrow> cl_stage a \<noteq> [] \<and> cl_stage b \<noteq> [] \<and> cl_stage a \<noteq> cl_stage b"

text \<open>What the relay lets one peer send to one other peer.\<close>

definition peer_payload_ok :: "client \<Rightarrow> client \<Rightarrow> bytes \<Rightarrow> bool" where
  "peer_payload_ok sender target payload =
     (if is_peer_tunnel payload then False
      else case datagram_kind payload of
        Invalid \<Rightarrow> False
      | Reliable \<Rightarrow> True
      | Realtime \<Rightarrow>
          let h = read_header payload; pose = is_pose_type (uh_type h) in
          if uh_version h \<noteq> 1 \<or> uh_headerSize h \<noteq> 58 \<or>
             length payload \<noteq> kHeaderBytes + unat (uh_payloadSize h) \<or> udp_sender_id h \<noteq> cl_id sender then False
          else if \<not> pose \<and> uh_type h \<noteq> RemoteObject \<and> uh_type h \<noteq> PoseAck \<and> uh_type h \<noteq> VoiceOpus then False
          else if bad_voice h then False
          else if pose \<and> (\<not> cl_wantsPuppet target \<or> stages_differ sender target) then False
          else if uh_type h = SemanticPoseMsgpack \<and> \<not> cl_supportsSemanticVisuals target then False
          else if uh_type h = PoseAck \<and>
                  (unat (uh_payloadSize h) \<noteq> kAckBytes \<or>
                   udp_acked_sender_id (drop kHeaderBytes payload) \<noteq> cl_id target) then False
          else True)"

definition peer_pair_ok :: "udp_addr \<Rightarrow> conn_id \<Rightarrow> client \<Rightarrow> client \<Rightarrow> bool" where
  "peer_pair_ok from auth sender target \<longleftrightarrow> cl_id sender \<noteq> cl_id target \<and>
     \<not> cl_closeAfterFlush sender \<and> \<not> cl_closeAfterFlush target \<and>
     cl_roomId sender \<noteq> [] \<and> cl_roomId sender = cl_roomId target \<and> cl_sock sender = auth \<and>
     cl_udpAddrKnown sender \<and> from = cl_udpAddr sender"

definition route_peer_datagram :: "relay_env \<Rightarrow> udp_addr \<Rightarrow> bytes \<Rightarrow> conn_id \<Rightarrow> relay \<Rightarrow> relay" where
  "route_peer_datagram env from wire auth s =
     (if \<not> is_peer_tunnel wire then s
      else
        let senderId = client_name (tunnel_read (subspan 4 8 wire));
            targetId = client_name (tunnel_read (subspan 12 8 wire)) in
        case (map_of (rl_clients s) senderId, map_of (rl_clients s) targetId) of
          (Some sender, Some target) \<Rightarrow>
            if \<not> peer_pair_ok from auth sender target then s
            else
              let s1 = upd_client senderId (refresh_rate (re_now env)) s in
              if cl_udpRateWindowBytes (client_of senderId s1) + length wire > kMaxUdpBytesPerClientSecond
              then s1
              else
                let s2 = upd_client senderId (\<lambda>c. c\<lparr>cl_udpRateWindowBytes :=
                           cl_udpRateWindowBytes c + length wire\<rparr>) s1 in
                if peer_payload_ok sender target (drop 20 wire)
                then send_udp_to_client targetId wire s2 else s2
        | _ \<Rightarrow> s)"

text \<open>A group datagram is one envelope per distinct target.\<close>

fun route_group :: "relay_env \<Rightarrow> udp_addr \<Rightarrow> conn_id \<Rightarrow> u64 \<Rightarrow> bytes \<Rightarrow> u64 list \<Rightarrow> u64 list \<Rightarrow> relay \<Rightarrow> relay" where
  "route_group env from auth sender payload seen [] s = s"
| "route_group env from auth sender payload seen (t # ts) s =
     (if t = 0 \<or> t \<in> set seen then route_group env from auth sender payload seen ts s
      else route_group env from auth sender payload (t # seen) ts
             (route_peer_datagram env from (peer_tunnel sender t payload) auth s))"

definition room_types :: "u8 list" where
  "room_types = [PoseJson, PoseMsgpack, RemoteObject, MidnaMsgpack, PoseAck, SemanticPoseMsgpack, VoiceOpus]"

text \<open>Whether a room member gets a datagram addressed to the room.\<close>

definition room_peer_ok :: "udp_header \<Rightarrow> client \<Rightarrow> client \<Rightarrow> bool" where
  "room_peer_ok h sender peer \<longleftrightarrow>
     \<not> (is_pose_type (uh_type h) \<and> \<not> cl_wantsPuppet peer) \<and>
     \<not> (uh_type h = SemanticPoseMsgpack \<and> \<not> cl_supportsSemanticVisuals peer) \<and>
     \<not> (uh_type h = MidnaMsgpack \<and> (\<not> cl_wantsPuppet peer \<or> \<not> cl_wantsMidna peer)) \<and>
     \<not> ((is_pose_type (uh_type h) \<or> uh_type h = MidnaMsgpack) \<and> stages_differ sender peer)"

definition forward_one :: "udp_header \<Rightarrow> string \<Rightarrow> bytes \<Rightarrow> string \<Rightarrow> relay \<Rightarrow> relay" where
  "forward_one h senderId packet pid s =
     (if pid = senderId then s
      else case map_of (rl_clients s) pid of
        None \<Rightarrow> s
      | Some peer \<Rightarrow> if room_peer_ok h (client_of senderId s) peer then send_udp_to_client pid packet s else s)"

definition forward_room :: "udp_header \<Rightarrow> string \<Rightarrow> bytes \<Rightarrow> relay \<Rightarrow> relay" where
  "forward_room h senderId packet s =
     (case map_of (rl_rooms s) (cl_roomId (client_of senderId s)) of
        None \<Rightarrow> s
      | Some r \<Rightarrow>
          if uh_type h = PoseAck then
            (if unat (uh_payloadSize h) \<noteq> kAckBytes then s
             else let targetId = udp_acked_sender_id (drop kHeaderBytes packet) in
               case map_of (rl_clients s) targetId of
                 None \<Rightarrow> s
               | Some target \<Rightarrow>
                   if cl_roomId target = cl_roomId (client_of senderId s)
                   then send_udp_to_client targetId packet s else s)
          else fold (forward_one h senderId packet) (rm_clientIds r) s)"

definition register_udp :: "relay_env \<Rightarrow> udp_addr \<Rightarrow> string \<Rightarrow> string \<Rightarrow> unit relay_act" where
  "register_udp env from senderId token =
     act_read (\<lambda>s. let c = client_of senderId s in
       if token \<noteq> cl_udpToken c then act_return ()
       else act_seq (act_modify (add_effect (BindRealtime (cl_sock c) from)))
        (act_seq (set_client senderId (\<lambda>c. c\<lparr>cl_udpAddr := from, cl_udpAddrKnown := True\<rparr>))
        (if \<not> cl_udpAddrKnown c
         then send_json_ignored env senderId (j_obj [(''type'', JStr ''udp_ready'')])
         else act_return ())))"

definition receive_room_datagram :: "relay_env \<Rightarrow> udp_addr \<Rightarrow> conn_id \<Rightarrow> bytes \<Rightarrow> unit relay_act" where
  "receive_room_datagram env from auth packet =
     act_read (\<lambda>s.
     let h = read_header packet; size = length packet; senderId = udp_sender_id h in
     if size < kHeaderBytes \<or> uh_magic h \<noteq> udp_magic \<or> uh_version h \<noteq> 1 \<or> uh_headerSize h \<noteq> 58 \<or>
        kHeaderBytes + unat (uh_payloadSize h) \<noteq> size then act_return ()
     else case map_of (rl_clients s) senderId of
       None \<Rightarrow> act_return ()
     | Some sender \<Rightarrow>
         if cl_roomId sender = [] \<or> cl_closeAfterFlush sender \<or> cl_sock sender \<noteq> auth then act_return ()
         else if uh_type h = RelayRegister then
           register_udp env from senderId (bytes_str (drop kHeaderBytes packet))
         else if \<not> cl_udpAddrKnown sender \<or> cl_udpAddr sender \<noteq> from \<or> uh_type h \<notin> set room_types \<or>
                 bad_voice h then act_return ()
         else act_seq (set_client senderId (refresh_rate (re_now env)))
           (act_read (\<lambda>s.
             let used = cl_udpRateWindowBytes (client_of senderId s) in
             if size > kMaxUdpBytesPerClientSecond - min used kMaxUdpBytesPerClientSecond then act_return ()
             else act_seq (set_client senderId (\<lambda>c. c\<lparr>cl_udpRateWindowBytes := cl_udpRateWindowBytes c + size\<rparr>))
                    (act_modify (forward_room h senderId packet)))))"

definition receive_datagram :: "relay_env \<Rightarrow> udp_addr \<times> conn_id \<times> bytes \<Rightarrow> unit relay_act" where
  "receive_datagram env d = (case d of (from, auth, wire) \<Rightarrow>
     if peer_group_header wire \<noteq> 0 then
       (let payload = drop (peer_group_header wire) wire in
        if take 4 payload \<noteq> udp_magic then act_return ()
        else act_modify (route_group env from auth (tunnel_read (subspan 4 8 wire)) payload [] (group_targets wire)))
     else if is_peer_tunnel wire then act_modify (route_peer_datagram env from wire auth)
     else receive_room_datagram env from auth wire)"

section \<open>Streams\<close>

datatype read_result = ReadData string | ReadClosed | ReadNothing | ReadFailed

text \<open>The exceptions of one message, as the loop handles them; any other ends the server.\<close>

definition route_line :: "relay_env \<Rightarrow> string \<Rightarrow> string \<Rightarrow> bool relay_act" where
  "route_line env cid line s =
     (case act_bind (act_lift (decode_reliable_json (re_codec env) line kMaxLineBytes)) (route_message env cid) s of
        (Inr _, s') \<Rightarrow> (Inr False, s')
      | (Inl ReliableJsonError, s') \<Rightarrow> act_seq (reject_and_close env cid ''invalid_compressed_json'') (act_return True) s'
      | (Inl (JsonExn e), s') \<Rightarrow> act_seq (send_error env cid ''invalid_json'') (act_return False) s'
      | (Inl FatalError, s') \<Rightarrow> (Inl FatalError, s'))"

text \<open>Splitting the buffer at the first newline.\<close>

definition split_line :: "string \<Rightarrow> (string \<times> string) option" where
  "split_line buffer =
     (let line = takeWhile (\<lambda>c. c \<noteq> CHR 0x0A) buffer
      in if length line < length buffer then Some (line, drop (length line + 1) buffer) else None)"

lemma split_line_shorter: "split_line buffer = Some (line, rest) \<Longrightarrow> length rest < length buffer"
  by (auto simp: split_line_def Let_def split: if_splits)

text \<open>
  The lines of the buffer, in order; the result is whether reading stops here.  The bound is the
  length of the buffer, which every line shortens.
\<close>

fun process_lines :: "nat \<Rightarrow> relay_env \<Rightarrow> string \<Rightarrow> bool relay_act" where
  "process_lines 0 env cid = act_return False"
| "process_lines (Suc n) env cid =
     act_read (\<lambda>s. case split_line (cl_rxBuffer (client_of cid s)) of
       None \<Rightarrow> act_return False
     | Some (line, rest) \<Rightarrow>
         if length line > kMaxLineBytes then
           act_seq (set_client cid (\<lambda>c. c\<lparr>cl_rxBuffer := []\<rparr>))
             (act_seq (reject_and_close env cid ''message_too_large'') (act_return True))
         else act_seq (set_client cid (\<lambda>c. c\<lparr>cl_rxBuffer := rest\<rparr>))
           (if line = [] then process_lines n env cid
            else act_bind (route_line env cid line) (\<lambda>stop.
              if stop then act_return True
              else act_read (\<lambda>s.
                if cl_closeAfterFlush (client_of cid s) \<or> cl_disconnectRequested (client_of cid s)
                then act_return True else process_lines n env cid))))"

text \<open>The result is whether the connection is still good.\<close>

fun read_from_client :: "relay_env \<Rightarrow> string \<Rightarrow> nat \<Rightarrow> read_result list \<Rightarrow> bool relay_act" where
  "read_from_client env cid readThisTick (ReadData chunk # reads) =
     act_seq (set_client cid (\<lambda>c. c\<lparr>cl_rxBuffer := cl_rxBuffer c @ chunk\<rparr>))
     (act_read (\<lambda>s. act_bind (process_lines (length (cl_rxBuffer (client_of cid s))) env cid) (\<lambda>stop.
       if stop then act_return True
       else act_read (\<lambda>s.
         if length (cl_rxBuffer (client_of cid s)) > kMaxLineBytes then
           act_seq (set_client cid (\<lambda>c. c\<lparr>cl_rxBuffer := []\<rparr>))
             (act_seq (reject_and_close env cid ''message_too_large'') (act_return True))
         else if readThisTick + length chunk \<ge> kMaxReadBytesPerTick then act_return True
         else read_from_client env cid (readThisTick + length chunk) reads))))"
| "read_from_client env cid readThisTick (ReadClosed # reads) = act_return False"
| "read_from_client env cid readThisTick (ReadNothing # reads) = act_return True"
| "read_from_client env cid readThisTick (ReadFailed # reads) = act_return False"
| "read_from_client env cid readThisTick [] = act_return True"

text \<open>The bytes of a queue are handed to the connection until it refuses one.\<close>

fun flush_queue :: "(nat \<Rightarrow> bool) \<Rightarrow> nat \<Rightarrow> string \<Rightarrow> string list \<Rightarrow> relay \<Rightarrow> bool \<times> relay" where
  "flush_queue accepts n cid [] s = (True, s)"
| "flush_queue accepts n cid (bytes # queue) s =
     (if \<not> accepts n then (False, s)
      else flush_queue accepts (Suc n) cid queue
             (upd_client cid (\<lambda>c. c\<lparr>cl_txQueuedBytes := cl_txQueuedBytes c - length bytes,
                                   cl_txQueue := tl (cl_txQueue c)\<rparr>)
                (add_effect (SendStream (cl_sock (client_of cid s)) bytes) s)))"

definition flush_client :: "(nat \<Rightarrow> bool) \<Rightarrow> bool \<Rightarrow> string \<Rightarrow> bool relay_act" where
  "flush_client accepts alive cid s =
     (case flush_queue accepts 0 cid (cl_txQueue (client_of cid s)) s of
        (True, s') \<Rightarrow> (Inr alive, s') | (False, s') \<Rightarrow> (Inr False, s'))"

section \<open>Removing a client\<close>

definition left_json :: "string \<Rightarrow> room \<Rightarrow> json" where
  "left_json cid r =
     j_obj [(''type'', JStr ''peer_left''), (''client_id'', JStr cid),
            (''semantic_visuals_ready'', JBool (rm_semanticVisualsReady r)),
            (''snapshot_deltas_ready'', JBool (rm_snapshotDeltasReady r))]"

definition owner_json :: "string \<Rightarrow> json" where
  "owner_json owner = j_obj [(''type'', JStr ''owner_changed''), (''owner_client_id'', JStr owner)]"

definition leave_room :: "string \<Rightarrow> relay \<Rightarrow> room \<Rightarrow> room" where
  "leave_room cid s r =
     (let r' = r\<lparr>rm_clientIds := filter (\<lambda>i. i \<noteq> cid) (rm_clientIds r),
                 rm_waiting := filter (\<lambda>i. i \<noteq> cid) (rm_waiting r)\<rparr>
      in r'\<lparr>rm_semanticVisualsReady := room_semantic_visuals_ready s r',
            rm_snapshotDeltasReady := room_snapshot_deltas_ready s r'\<rparr>)"

definition erase_client :: "string \<Rightarrow> relay \<Rightarrow> relay" where
  "erase_client cid s =
     add_effect (DisconnectPeer (cl_sock (client_of cid s)))
       (s\<lparr>rl_clients := om_erase cid (rl_clients s)\<rparr>)"

text \<open>After the member is off the list: the room closes, or passes to its first member.\<close>

definition close_or_transfer :: "relay_env \<Rightarrow> string \<Rightarrow> string \<Rightarrow> unit relay_act" where
  "close_or_transfer env rid cid =
     act_read (\<lambda>s. case map_of (rl_rooms s) rid of
       None \<Rightarrow> act_return ()
     | Some r \<Rightarrow>
         if rm_clientIds r = [] then act_modify (\<lambda>s. s\<lparr>rl_rooms := om_erase rid (rl_rooms s)\<rparr>)
         else if rm_owner r = cid then
           act_seq (set_room rid (\<lambda>r. r\<lparr>rm_owner := hd (rm_clientIds r)\<rparr>))
             (broadcast env rid cid (owner_json (hd (rm_clientIds r))))
         else act_return ())"

definition remove_client :: "relay_env \<Rightarrow> string \<Rightarrow> unit relay_act" where
  "remove_client env cid =
     act_read (\<lambda>s. case map_of (rl_clients s) cid of
       None \<Rightarrow> act_return ()
     | Some c \<Rightarrow>
         let rid = cl_roomId c in
         act_seq (act_modify (erase_client cid))
         (if rid = [] \<or> map_of (rl_rooms s) rid = None then act_return ()
          else act_read (\<lambda>s1. act_seq (set_room rid (leave_room cid s1))
            (act_read (\<lambda>s2.
              act_seq (broadcast env rid cid (left_json cid
                 (case map_of (rl_rooms s2) rid of Some r \<Rightarrow> r | None \<Rightarrow> new_room)))
              (act_seq (close_or_transfer env rid cid) (finish_settings env rid)))))))"

section \<open>The tick\<close>

record accepted_conn =
  ac_conn :: conn_id
  ac_endpoint :: string
  ac_clientNumber :: u64
  ac_tokenNumber :: u64

definition make_id :: "string \<Rightarrow> u64 \<Rightarrow> string" where
  "make_id prefix v = prefix @ ''_'' @ nat_dec (unat v)"

definition accept_client :: "relay_env \<Rightarrow> accepted_conn \<Rightarrow> relay \<Rightarrow> relay" where
  "accept_client env a s =
     (if length (rl_clients s) \<ge> re_maxClients env then add_effect (DisconnectPeer (ac_conn a)) s
      else
        let cid = make_id ''client'' (ac_clientNumber a);
            c = (new_client (re_now env))\<lparr>cl_sock := ac_conn a, cl_id := cid,
                  cl_udpToken := make_id ''udp'' (ac_tokenNumber a), cl_peerEndpoint := ac_endpoint a\<rparr>
        in if map_of (rl_clients s) cid \<noteq> None then s
           else s\<lparr>rl_clients := om_put cid c (rl_clients s)\<rparr>)"

text \<open>
  What the connection layer reports during a tick: new connections, at most 512 datagrams with
  their source and authenticated connection, and per connection the chunks read, whether the n-th
  send is accepted, whether the connection is alive, and whether all its data was acknowledged.
\<close>

record tick_input =
  ti_env :: relay_env
  ti_accepted :: "accepted_conn list"
  ti_datagrams :: "(udp_addr \<times> conn_id \<times> bytes) list"
  ti_reads :: "conn_id \<Rightarrow> read_result list"
  ti_accepts :: "conn_id \<Rightarrow> nat \<Rightarrow> bool"
  ti_alive :: "conn_id \<Rightarrow> bool"
  ti_drained :: "conn_id \<Rightarrow> bool"

text \<open>Whether a client is to be disconnected after its turn.\<close>

definition serve_client :: "tick_input \<Rightarrow> string \<Rightarrow> bool relay_act" where
  "serve_client ti cid =
     act_read (\<lambda>s. let c = client_of cid s; sock = cl_sock c in
     if cl_disconnectRequested c then act_return True
     else act_bind (if cl_closeAfterFlush c then act_return True
                    else read_from_client (ti_env ti) cid 0 (ti_reads ti sock)) (\<lambda>good.
     if \<not> good then act_return True
     else act_bind (flush_client (ti_accepts ti sock) (ti_alive ti sock) cid) (\<lambda>good.
     if \<not> good then act_return True
     else act_read (\<lambda>s. act_return (cl_closeAfterFlush (client_of cid s) \<and>
            cl_txQueue (client_of cid s) = [] \<and> ti_drained ti sock)))))"

fun serve_clients :: "tick_input \<Rightarrow> string list \<Rightarrow> (relay, string list) action" where
  "serve_clients ti [] = act_return []"
| "serve_clients ti (cid # cids) =
     act_bind (serve_client ti cid) (\<lambda>gone.
     act_bind (serve_clients ti cids) (\<lambda>rest. act_return (if gone then cid # rest else rest)))"

definition hello_expired :: "relay_env \<Rightarrow> client \<Rightarrow> bool" where
  "hello_expired env c \<longleftrightarrow> cl_roomId c = [] \<and> \<not> cl_closeAfterFlush c \<and>
     f64 (f64 (of_int (re_now env - cl_acceptedAt c)) / 10 ^ 9) \<ge> re_helloTimeout env"

definition expire_client :: "relay_env \<Rightarrow> string \<Rightarrow> unit relay_act" where
  "expire_client env cid =
     act_read (\<lambda>s. if hello_expired env (client_of cid s) then reject_and_close env cid ''hello_timeout''
                   else act_return ())"

definition stalled_members :: "relay_env \<Rightarrow> relay \<Rightarrow> string list" where
  "stalled_members env s =
     concat (map (\<lambda>(i, r). if \<not> is_null (rm_pending r) \<and> re_now env - rm_settingsStarted r > 30 * kSecond
                           then rm_clientIds r else []) (rl_rooms s))"

definition tick :: "tick_input \<Rightarrow> unit relay_act" where
  "tick ti =
     act_seq (act_modify (fold (accept_client (ti_env ti)) (ti_accepted ti)))
     (act_seq (act_each (receive_datagram (ti_env ti)) (take 512 (ti_datagrams ti)))
     (act_read (\<lambda>s. act_bind (serve_clients ti (map fst (rl_clients s))) (\<lambda>gone.
     act_seq (act_read (\<lambda>s. act_each (expire_client (ti_env ti)) (map fst (rl_clients s))))
     (act_read (\<lambda>s. act_each (remove_client (ti_env ti))
        (fold os_insert (gone @ stalled_members (ti_env ti) s) [])))))))"

end
