(* ===== verification/Relay_Loop.thy ===== *)
theory Relay_Loop
  imports Relay_Server
begin

text \<open>
  The relay's loop keeps its state well formed: the rules for the parts of a tick, the removal of
  clients, and the invariant of every state the server reaches.
\<close>

section \<open>Parts of a tick\<close>

text \<open>
  A part that returns leaves a well-formed state in which a given client is still connected, if it
  was.  One that throws ends the server.
\<close>

definition live :: "string set \<Rightarrow> relay \<Rightarrow> bool" where
  "live K s \<longleftrightarrow> relay_inv s \<and> K \<subseteq> dom (map_of (rl_clients s))"

definition safe :: "string set \<Rightarrow> (relay, 'a) action \<Rightarrow> relay \<Rightarrow> bool" where
  "safe K m s \<longleftrightarrow> live K s \<longrightarrow> (case m s of (Inl _, _) \<Rightarrow> True | (Inr _, s') \<Rightarrow> live K s')"

named_theorems safe_intros \<open>parts of a tick that keep the invariant\<close>

lemma safe_return [simp, safe_intros]: "safe K (act_return a) s"
  by (simp add: safe_def)

lemma safe_read [safe_intros]: "safe K (f s) s \<Longrightarrow> safe K (act_read f) s"
  by (simp add: safe_def)

lemma safe_bind [safe_intros]: "safe K m s \<Longrightarrow> (\<And>a s'. safe K (f a) s') \<Longrightarrow> safe K (act_bind m f) s"
proof -
  assume m: "safe K m s" and f: "\<And>a s'. safe K (f a) s'"
  show "safe K (act_bind m f) s"
    using m f by (cases "m s"; cases "fst (m s)") (auto simp: safe_def act_bind_def)
qed

lemma safe_seq [safe_intros]: "safe K m s \<Longrightarrow> (\<And>s'. safe K n s') \<Longrightarrow> safe K (act_seq m n) s"
  unfolding act_seq_def by (rule safe_bind)

lemma safe_each: "(\<And>x s'. x \<in> set xs \<Longrightarrow> safe K (f x) s') \<Longrightarrow> safe K (act_each f xs) s"
  by (induction xs arbitrary: s) (auto intro: safe_seq)

lemma safe_if [safe_intros]: "(b \<Longrightarrow> safe K m s) \<Longrightarrow> (\<not> b \<Longrightarrow> safe K n s) \<Longrightarrow> safe K (if b then m else n) s"
  by simp

lemma live_touches: "live K s \<Longrightarrow> relay_inv s' \<Longrightarrow> touches cid s s' \<Longrightarrow> live K s'"
  by (auto simp: live_def touches_def dom_def)

lemma safe_good: "(live K s \<Longrightarrow> good cid m s) \<Longrightarrow> safe K m s"
  by (auto simp: safe_def good_def live_def [of _ s] split: prod.splits sum.splits
      intro: live_touches [of K s _ cid])

lemma safe_update:
  "(\<And>s. relay_inv s \<Longrightarrow> relay_inv (g s) \<and> dom (map_of (rl_clients s)) \<subseteq> dom (map_of (rl_clients (g s)))) \<Longrightarrow>
   safe K (act_modify g) s"
  by (fastforce simp: safe_def live_def)

section \<open>Realtime datagrams\<close>

lemma benign_server_flags [simp]:
  "benign (\<lambda>c. c\<lparr>cl_rxBuffer := text\<rparr>)" "benign (\<lambda>c. c\<lparr>cl_rxBuffer := cl_rxBuffer c @ text\<rparr>)"
  "benign (\<lambda>c. c\<lparr>cl_udpAddr := from, cl_udpAddrKnown := True\<rparr>)" "benign (refresh_rate now)"
  by (auto simp: benign_def client_view_def client_ok_def refresh_rate_def)

lemma relay_inv_add_effect [simp]: "relay_inv (add_effect e s) = relay_inv s"
proof -
  have "room_ok (add_effect e s) k r = room_ok s k r" for k r
    by (rule room_ok_cong) (simp add: add_effect_def)
  then show ?thesis by (simp add: relay_inv_def) (simp add: add_effect_def)
qed

lemma add_effect_rest [simp]:
  "rl_clients (add_effect e s) = rl_clients s" "rl_rooms (add_effect e s) = rl_rooms s"
  "rl_effects (add_effect e s) = rl_effects s @ [e]" "client_of cid (add_effect e s) = client_of cid s"
  by (simp_all add: add_effect_def client_of_def)

lemma relay_inv_upd_client:
  "relay_inv s \<Longrightarrow> (\<And>c. map_of (rl_clients s) pid = Some c \<Longrightarrow> client_ok pid (f c)) \<Longrightarrow>
   (\<And>c. client_view (f c) = client_view c) \<Longrightarrow> relay_inv (upd_client pid f s)"
  using upd_client_good [of s pid f pid] by simp

lemma relay_inv_benign: "relay_inv s \<Longrightarrow> benign f \<Longrightarrow> relay_inv (upd_client pid f s)"
  by (rule relay_inv_upd_client) (auto simp: benign_def dest: inv_client)

lemma safe_set_client: "benign f \<Longrightarrow> safe K (set_client pid f) s"
  by (rule safe_update) (auto simp: relay_inv_benign)

lemma send_udp_rest [simp]:
  "rl_clients (send_udp_to_client cid packet s) = rl_clients s" "rl_rooms (send_udp_to_client cid packet s) = rl_rooms s"
  "relay_inv (send_udp_to_client cid packet s) = relay_inv s"
  by (simp_all add: send_udp_to_client_def Let_def)

text \<open>The bytes charged to a client's window never pass the limit.\<close>

lemma relay_inv_charge:
  assumes "relay_inv s" and "cl_udpRateWindowBytes (client_of cid s) + n \<le> kMaxUdpBytesPerClientSecond"
  shows "relay_inv (upd_client cid (\<lambda>c. c\<lparr>cl_udpRateWindowBytes := cl_udpRateWindowBytes c + n\<rparr>) s)"
  using assms by (intro relay_inv_upd_client)
    (auto simp: client_ok_def client_view_def client_of_known dest!: inv_client)

lemma forward_one_rest [simp]:
  "rl_clients (forward_one h i packet pid s) = rl_clients s" "rl_rooms (forward_one h i packet pid s) = rl_rooms s"
  "relay_inv (forward_one h i packet pid s) = relay_inv s"
  by (simp_all add: forward_one_def split: option.splits)

lemma fold_forward_rest [simp]:
  "rl_clients (fold (forward_one h i packet) pids s) = rl_clients s \<and>
   rl_rooms (fold (forward_one h i packet) pids s) = rl_rooms s \<and>
   relay_inv (fold (forward_one h i packet) pids s) = relay_inv s"
  by (induction pids arbitrary: s) simp_all

lemma forward_room_rest [simp]:
  "rl_clients (forward_room h i packet s) = rl_clients s" "rl_rooms (forward_room h i packet s) = rl_rooms s"
  "relay_inv (forward_room h i packet s) = relay_inv s"
  by (auto simp: forward_room_def Let_def split: option.splits)

text \<open>A step that keeps the invariant and every client.\<close>

definition grows :: "relay \<Rightarrow> relay \<Rightarrow> bool" where
  "grows s s' \<longleftrightarrow> relay_inv s' \<and> dom (map_of (rl_clients s)) \<subseteq> dom (map_of (rl_clients s'))"

lemma grows_trans: "grows s s' \<Longrightarrow> grows s' s'' \<Longrightarrow> grows s s''"
  unfolding grows_def by (blast intro: subset_trans)

lemma safe_grows: "(\<And>s. relay_inv s \<Longrightarrow> grows s (g s)) \<Longrightarrow> safe K (act_modify g) s"
  by (rule safe_update) (simp add: grows_def)

lemma route_peer_datagram_grows: "relay_inv s \<Longrightarrow> grows s (route_peer_datagram env from wire auth s)"
  unfolding route_peer_datagram_def Let_def
  by (auto simp: grows_def relay_inv_charge relay_inv_benign split: option.splits)

lemma route_group_grows: "relay_inv s \<Longrightarrow> grows s (route_group env from auth sender payload seen ts s)"
proof (induction ts arbitrary: seen s)
  case Nil
  then show ?case by (simp add: grows_def)
next
  case (Cons t ts)
  have "grows s (route_group env from auth sender payload (t # seen) ts s')" if "grows s s'" for s'
    using that Cons.IH [of s' "t # seen"] by (intro grows_trans [OF that]) (simp add: grows_def)
  then show ?case using Cons.IH [OF Cons.prems] route_peer_datagram_grows [OF Cons.prems] by simp
qed

lemma safe_register_udp [safe_intros]: "safe K (register_udp env from i token) s"
proof -
  have "safe K (send_json_ignored env i m) s'" for m s'
    by (rule safe_good [of _ _ i]) (intro good_intros, simp)
  then show ?thesis
    unfolding register_udp_def Let_def
    by (intro safe_read safe_if safe_seq [of _ "act_modify _"] safe_return safe_set_client safe_update) simp_all
qed

lemma safe_charge:
  "cl_udpRateWindowBytes (client_of cid s) + n \<le> kMaxUdpBytesPerClientSecond \<Longrightarrow>
   safe K (set_client cid (\<lambda>c. c\<lparr>cl_udpRateWindowBytes := cl_udpRateWindowBytes c + n\<rparr>)) s"
  using relay_inv_charge [of s cid n] by (auto simp: safe_def live_def)

lemma safe_receive_room [safe_intros]: "safe K (receive_room_datagram env from auth packet) s"
proof -
  have fwd: "safe K (act_modify (forward_room h i p)) s'" for h i p s'
    by (rule safe_update) simp
  have "safe K (act_read (\<lambda>s. let used = cl_udpRateWindowBytes (client_of i s) in
             if length packet > kMaxUdpBytesPerClientSecond - min used kMaxUdpBytesPerClientSecond then act_return ()
             else act_seq (set_client i (\<lambda>c. c\<lparr>cl_udpRateWindowBytes := cl_udpRateWindowBytes c + length packet\<rparr>))
                    (act_modify (forward_room h i packet)))) s'" for h i s'
  proof (cases "relay_inv s'")
    case True
    then have "cl_udpRateWindowBytes (client_of i s') \<le> kMaxUdpBytesPerClientSecond"
      by (cases "map_of (rl_clients s') i") (auto simp: client_of_def client_ok_def new_client_def dest: inv_client)
    then show ?thesis
      unfolding Let_def by (intro safe_read safe_if safe_return safe_seq safe_charge fwd) simp
  next
    case False
    then show ?thesis by (auto simp: safe_def live_def)
  qed
  then show ?thesis
    unfolding receive_room_datagram_def Let_def
    by (intro safe_read) (auto split: option.splits intro!: safe_if safe_seq safe_set_client safe_register_udp)
qed

lemma safe_receive [safe_intros]: "safe K (receive_datagram env d) s"
  unfolding receive_datagram_def Let_def
  by (auto split: prod.splits
      intro!: safe_if safe_return safe_receive_room safe_grows route_group_grows route_peer_datagram_grows)

section \<open>Streams\<close>

lemma safe_run: "safe K m s \<Longrightarrow> live K s \<Longrightarrow> m s = (Inr a, s') \<Longrightarrow> live K s'"
  by (simp add: safe_def)

lemma safe_reject [safe_intros]: "safe K (reject_and_close env cid err) s"
  by (rule safe_good [OF good_reject])

lemma safe_send_error [safe_intros]: "safe K (send_error env cid err) s"
  by (rule safe_good [OF good_send_error])

text \<open>Every line is handled, whatever it holds: only an exception outside the two kinds ends the server.\<close>

lemma safe_route_line [safe_intros]:
  assumes "cid \<in> K"
  shows "safe K (route_line env cid line) s"
  unfolding safe_def
proof
  assume live: "live K s"
  obtain c where c: "map_of (rl_clients s) cid = Some c" using assms live by (auto simp: live_def)
  let ?m = "act_bind (act_lift (decode_reliable_json (re_codec env) line kMaxLineBytes)) (route_message env cid)"
  obtain r s' where m: "?m s = (r, s')" by fastforce
  have "good cid ?m s" using c by (intro good_bind_lift good_route_message) simp
  then have "relay_inv s' \<and> touches cid s s'" using live m by (simp add: good_def live_def)
  then have s': "live K s'" using live_touches [OF live] by blast
  have "safe K (act_seq (reject_and_close env cid ''invalid_compressed_json'') (act_return True)) s'"
    "safe K (act_seq (send_error env cid ''invalid_json'') (act_return False)) s'"
    by (intro safe_intros)+
  then show "case route_line env cid line s of (Inl _, _) \<Rightarrow> True | (Inr _, s') \<Rightarrow> live K s'"
    using s' by (auto simp: route_line_def m safe_def split: sum.splits net_error.splits)
qed

lemma safe_process_lines: "cid \<in> K \<Longrightarrow> safe K (process_lines n env cid) s"
proof (induction n arbitrary: s)
  case 0
  show ?case by (simp add: safe_def)
next
  case (Suc n)
  show ?case
    unfolding process_lines.simps
    by (rule safe_read)
       (auto split: option.splits intro!: safe_if safe_seq safe_bind safe_read safe_set_client safe_return
          safe_reject safe_route_line Suc)
qed

lemma safe_read_from_client: "cid \<in> K \<Longrightarrow> safe K (read_from_client env cid n reads) s"
proof (induction env cid n reads arbitrary: s rule: read_from_client.induct)
  case (1 env cid n chunk reads)
  show ?case
    unfolding read_from_client.simps
    by (intro safe_seq safe_set_client benign_server_flags safe_read safe_bind safe_process_lines safe_if
        safe_return safe_reject 1)
qed simp_all

lemma flush_queue_grows:
  "relay_inv s \<Longrightarrow> cl_txQueue (client_of cid s) = queue \<Longrightarrow> grows s (snd (flush_queue accepts n cid queue s))"
proof (induction queue arbitrary: n s)
  case Nil
  then show ?case by (simp add: grows_def)
next
  case (Cons bytes queue)
  let ?s = "upd_client cid (\<lambda>c. c\<lparr>cl_txQueuedBytes := cl_txQueuedBytes c - length bytes, cl_txQueue := tl (cl_txQueue c)\<rparr>)
      (add_effect (SendStream (cl_sock (client_of cid s)) bytes) s)"
  obtain c where c: "map_of (rl_clients s) cid = Some c" "cl_txQueue c = bytes # queue"
    using Cons.prems(2) by (cases "map_of (rl_clients s) cid") (auto simp: client_of_def new_client_def)
  have inv: "relay_inv ?s"
    by (rule relay_inv_upd_client)
       (use Cons.prems(1) c in \<open>auto simp: client_ok_def client_view_def dest!: inv_client\<close>)
  have "cl_txQueue (client_of cid ?s) = queue" using c by (simp add: client_of_upd client_of_known)
  then have "grows ?s (snd (flush_queue accepts (Suc n) cid queue ?s))" by (rule Cons.IH [OF inv])
  moreover have "grows s ?s" using inv c by (auto simp: grows_def)
  ultimately have "grows s (snd (flush_queue accepts (Suc n) cid queue ?s))" by (blast intro: grows_trans)
  then show ?case using Cons.prems(1) by (simp add: grows_def [of s s])
qed

lemma safe_flush [safe_intros]: "safe K (flush_client accepts alive cid) s"
proof -
  have "live K (snd (flush_queue accepts 0 cid (cl_txQueue (client_of cid s)) s))" if "live K s"
    using flush_queue_grows [of s cid] that by (fastforce simp: live_def grows_def)
  then show ?thesis by (auto simp: safe_def flush_client_def split: prod.splits bool.splits)
qed

lemma safe_serve_client: "cid \<in> K \<Longrightarrow> safe K (serve_client ti cid) s"
  unfolding serve_client_def Let_def
  by (intro safe_read safe_if safe_bind safe_return safe_flush safe_read_from_client)

lemma safe_serve_clients: "set cids \<subseteq> K \<Longrightarrow> safe K (serve_clients ti cids) s"
  by (induction cids arbitrary: s) (auto intro!: safe_bind safe_serve_client)

section \<open>Accepting a connection\<close>

lemma new_client_ok:
  "client_ok cid ((new_client now)\<lparr>cl_sock := sock, cl_id := cid, cl_udpToken := token, cl_peerEndpoint := endpoint\<rparr>)"
  by (simp add: client_ok_def new_client_def)

lemma accept_client_grows: "relay_inv s \<Longrightarrow> grows s (accept_client env a s)"
proof -
  assume inv: "relay_inv s"
  let ?s = "s\<lparr>rl_clients := om_put cid c (rl_clients s)\<rparr>"
  have put: "grows s (s\<lparr>rl_clients := om_put cid c (rl_clients s)\<rparr>)"
    if new: "map_of (rl_clients s) cid = None" and c: "client_ok cid c" for cid c
  proof -
    let ?s = "s\<lparr>rl_clients := om_put cid c (rl_clients s)\<rparr>"
    have "room_ok ?s k r" if r: "map_of (rl_rooms s) k = Some r" for k r
    proof -
      note ok = inv_room [OF inv r]
      have "i \<noteq> cid" if "lives_in s k i" for i using new that by (auto simp: lives_in_def)
      then have "room_core ?s k r" and "lives_in ?s k (rm_owner r)"
        using ok room_core_cong [of r ?s s k]
        by (auto simp: room_ok_core member_lives) (auto simp: lives_in_def)
      then show ?thesis by (simp add: room_ok_core)
    qed
    then show ?thesis using inv c by (auto simp: grows_def relay_inv_def)
  qed
  show ?thesis
    using inv put new_client_ok by (auto simp: accept_client_def Let_def grows_def)
qed

lemma grows_inv: "grows s s' \<Longrightarrow> relay_inv s'"
  by (simp add: grows_def)

lemma fold_accept_grows: "relay_inv s \<Longrightarrow> grows s (fold (accept_client env) as s)"
proof (induction as arbitrary: s)
  case Nil
  then show ?case by (simp add: grows_def)
next
  case (Cons a as)
  note step = accept_client_grows [OF Cons.prems, of env a]
  show ?case using grows_trans [OF step Cons.IH [OF grows_inv [OF step]]] by simp
qed

section \<open>Queueing only\<close>

text \<open>Actions that queue messages and change nothing a room depends on.\<close>

definition clients_ok :: "relay \<Rightarrow> bool" where
  "clients_ok s \<longleftrightarrow> om_ok (rl_clients s) \<and> (\<forall>i c. map_of (rl_clients s) i = Some c \<longrightarrow> client_ok i c)"

definition calm :: "relay \<Rightarrow> relay \<Rightarrow> bool" where
  "calm s s' \<longleftrightarrow> rl_rooms s' = rl_rooms s \<and> (clients_ok s \<longrightarrow> clients_ok s') \<and>
     (\<forall>i. map_option client_view (map_of (rl_clients s') i) = map_option client_view (map_of (rl_clients s) i))"

definition queues :: "(relay, 'a) action \<Rightarrow> bool" where
  "queues m \<longleftrightarrow> (\<forall>s. calm s (snd (m s)))"

lemma calm_refl [simp]: "calm s s"
  by (simp add: calm_def)

lemma calm_trans: "calm s s' \<Longrightarrow> calm s' s'' \<Longrightarrow> calm s s''"
  by (simp add: calm_def)

lemma queues_run: "queues m \<Longrightarrow> m s = (r, s') \<Longrightarrow> calm s s'"
  unfolding queues_def by (metis snd_conv)

lemma queues_return [simp, intro]: "queues (act_return a)"
  by (simp add: queues_def)

lemma queues_lift [simp, intro]: "queues (act_lift r)"
  by (simp add: queues_def)

lemma queues_read [intro]: "(\<And>s. queues (f s)) \<Longrightarrow> queues (act_read f)"
  by (simp add: queues_def)

lemma queues_bind [intro]:
  assumes m: "queues m" and f: "\<And>a. queues (f a)"
  shows "queues (act_bind m f)"
  unfolding queues_def
proof
  fix s
  obtain r s' where run: "m s = (r, s')" by fastforce
  have 1: "calm s s'" by (rule queues_run [OF m run])
  show "calm s (snd (act_bind m f s))"
    using 1 f calm_trans [OF 1] by (cases r) (auto simp: act_bind_def run queues_def)
qed

lemma queues_seq [intro]: "queues m \<Longrightarrow> queues n \<Longrightarrow> queues (act_seq m n)"
  unfolding act_seq_def by (rule queues_bind)

lemma queues_each: "(\<And>x. queues (f x)) \<Longrightarrow> queues (act_each f xs)"
  by (induction xs) auto

lemma calm_upd_client:
  assumes "\<And>c. map_of (rl_clients s) pid = Some c \<Longrightarrow> client_ok pid c \<Longrightarrow> client_ok pid (f c)"
    and "\<And>c. client_view (f c) = client_view c"
  shows "calm s (upd_client pid f s)"
  using assms by (auto simp: calm_def clients_ok_def om_ok_upd_client option.map_comp comp_def)

lemma queues_set_client: "benign f \<Longrightarrow> queues (set_client pid f)"
  unfolding queues_def act_run snd_conv by (intro allI calm_upd_client) (auto simp: benign_def)

lemma queues_send_json [intro]: "queues (send_json env pid message)"
proof -
  have put: "calm s (upd_client pid (\<lambda>c. c\<lparr>cl_txQueuedBytes := cl_txQueuedBytes c + length b,
      cl_txQueue := cl_txQueue c @ [b]\<rparr>) s)"
    if "\<not> (length b > kMaxQueuedBytes \<or> cl_txQueuedBytes (client_of pid s) > kMaxQueuedBytes - length b)" for b s
    using that by (intro calm_upd_client) (auto simp: client_ok_def client_view_def client_of_known)
  have drop: "calm s (upd_client pid (\<lambda>c. c\<lparr>cl_disconnectRequested := True\<rparr>) s)" for s
    using queues_set_client [of "\<lambda>c. c\<lparr>cl_disconnectRequested := True\<rparr>"] by (simp add: queues_def)
  show ?thesis
    unfolding send_json_def Let_def
    by (rule queues_bind [OF queues_lift]) (use put [of "_ @ [CHR 0x0A]"] drop in \<open>auto simp: queues_def\<close>)
qed

lemma queues_send_or_drop [intro]: "queues (send_or_drop env pid message)"
  unfolding send_or_drop_def by (auto intro!: queues_bind queues_set_client)

lemma queues_broadcast [intro]: "queues (broadcast env rid sender message)"
  unfolding broadcast_def broadcast_one_def
  by (auto split: option.splits intro!: queues_read queues_each queues_send_or_drop)

lemma room_core_calm: "calm s s' \<Longrightarrow> room_core s' k r = room_core s k r"
proof -
  assume c: "calm s s'"
  have v: "map_option client_view (map_of (rl_clients s') i) = map_option client_view (map_of (rl_clients s) i)" for i
    using c by (simp add: calm_def)
  show ?thesis
    unfolding room_core_def lives_in_def room_semantic_visuals_ready_def room_snapshot_deltas_ready_def
      all_members_view map_option_view [OF v] ..
qed

lemma lives_in_calm: "calm s s' \<Longrightarrow> lives_in s' k i = lives_in s k i"
  using map_option_view(1) unfolding calm_def lives_in_def by metis

section \<open>Removing a client\<close>

text \<open>Well formed except that the room \<open>rid\<close> may still name the departed client as its owner.\<close>

definition vacated :: "string \<Rightarrow> string \<Rightarrow> relay \<Rightarrow> bool" where
  "vacated rid cid s \<longleftrightarrow> clients_ok s \<and> om_ok (rl_rooms s) \<and>
     (\<forall>k r. map_of (rl_rooms s) k = Some r \<longrightarrow> room_core s k r \<and>
        (lives_in s k (rm_owner r) \<or> k = rid \<and> rm_owner r = cid))"

lemma vacated_calm: "vacated rid cid s \<Longrightarrow> calm s s' \<Longrightarrow> vacated rid cid s'"
  unfolding vacated_def by (auto simp: room_core_calm lives_in_calm) (auto simp: calm_def)

lemma relay_inv_calm: "relay_inv s \<Longrightarrow> calm s s' \<Longrightarrow> relay_inv s'"
  unfolding relay_inv_def room_ok_core
  by (auto simp: room_core_calm lives_in_calm) (auto simp: calm_def clients_ok_def)

lemma vacated_inv:
  "vacated rid cid s \<Longrightarrow> (\<And>r. map_of (rl_rooms s) rid = Some r \<Longrightarrow> lives_in s rid (rm_owner r)) \<Longrightarrow> relay_inv s"
  unfolding vacated_def relay_inv_def clients_ok_def room_ok_core by blast

lemma erased:
  assumes inv: "relay_inv s"
  shows "clients_ok (erase_client cid s)" "om_ok (rl_rooms (erase_client cid s))"
    "rl_rooms (erase_client cid s) = rl_rooms s"
    "map_of (rl_clients (erase_client cid s)) = (map_of (rl_clients s))(cid := None)"
  using inv by (auto simp: erase_client_def clients_ok_def relay_inv_def)

text \<open>Rooms the client was not in do not notice that it is gone.\<close>

lemma erased_other_room:
  assumes inv: "relay_inv s" and r: "map_of (rl_rooms s) k = Some r" and other: "room_of cid s \<noteq> k"
    and s': "map_of (rl_clients s') = (map_of (rl_clients s))(cid := None)"
  shows "room_core s' k r" "lives_in s' k (rm_owner r)"
proof -
  note ok = inv_room [OF inv r, unfolded room_ok_core]
  have "i \<noteq> cid" if "lives_in s k i" for i using lives_in_room_of [OF that] other by auto
  then show "room_core s' k r" "lives_in s' k (rm_owner r)"
    using ok room_core_cong [of r s' s k] member_lives [of s k r] s' by (auto simp: lives_in_def)
qed

lemma left_room:
  assumes inv: "relay_inv s" and r: "map_of (rl_rooms s) rid = Some r"
    and s': "map_of (rl_clients s') = (map_of (rl_clients s))(cid := None)"
  shows "room_core s' rid (leave_room cid s' r)"
    and "lives_in s' rid (rm_owner (leave_room cid s' r)) \<or> rm_owner (leave_room cid s' r) = cid"
  using inv_room [OF inv r] s'
  by (auto simp: room_ok_def room_core_def leave_room_def Let_def room_semantic_visuals_ready_def
      room_snapshot_deltas_ready_def list_all_iff lives_in_def apply_room_settings_def
      intro: order_trans [OF length_filter_le] split: if_splits option.splits)

lemma vacated_leave:
  assumes inv: "relay_inv s" and rid: "rid = room_of cid s"
  shows "vacated rid cid (upd_room rid (leave_room cid (erase_client cid s)) (erase_client cid s))"
proof -
  let ?s1 = "erase_client cid s"
  let ?s2 = "upd_room rid (leave_room cid ?s1) ?s1"
  have same: "room_core ?s2 k r = room_core ?s1 k r" "lives_in ?s2 k i = lives_in ?s1 k i" for k r i
    using room_core_cong [of r ?s2 ?s1 k] by (auto simp: lives_in_def)
  have "room_core ?s1 k r \<and> (lives_in ?s1 k (rm_owner r) \<or> k = rid \<and> rm_owner r = cid)"
    if r: "map_of (rl_rooms ?s2) k = Some r" for k r
  proof (cases "k = rid")
    case True
    then obtain q where "map_of (rl_rooms s) rid = Some q" "r = leave_room cid ?s1 q"
      using r by (auto simp: erased [OF inv])
    then show ?thesis using left_room [OF inv _ erased(4) [OF inv]] True by blast
  next
    case False
    then have "map_of (rl_rooms s) k = Some r" using r by (simp add: erased [OF inv])
    then show ?thesis using erased_other_room [OF inv _ _ erased(4) [OF inv]] False rid by metis
  qed
  then show ?thesis
    using erased [OF inv] by (auto simp: vacated_def same clients_ok_def om_ok_upd_room)
qed

text \<open>The room closes, or passes to its first member: either way the state is well formed again.\<close>

lemma closed_room:
  assumes "vacated rid cid s" shows "relay_inv (s\<lparr>rl_rooms := om_erase rid (rl_rooms s)\<rparr>)"
proof -
  let ?s = "s\<lparr>rl_rooms := om_erase rid (rl_rooms s)\<rparr>"
  have "room_core ?s k r = room_core s k r" "lives_in ?s k i = lives_in s k i" for k r i
    using room_core_cong [of r ?s s k] by (auto simp: lives_in_def)
  then show ?thesis
    using assms by (auto simp: vacated_def relay_inv_def clients_ok_def room_ok_core split: if_splits)
qed

lemma passed_room:
  assumes v: "vacated rid cid s" and r: "map_of (rl_rooms s) rid = Some r" "rm_clientIds r \<noteq> []"
  shows "relay_inv (upd_room rid (\<lambda>q. q\<lparr>rm_owner := hd (rm_clientIds r)\<rparr>) s)"
proof (rule vacated_inv)
  let ?s = "upd_room rid (\<lambda>q. q\<lparr>rm_owner := hd (rm_clientIds r)\<rparr>) s"
  have same: "room_core ?s k q = room_core s k q" "lives_in ?s k i = lives_in s k i"
    "room_core s k (q\<lparr>rm_owner := i\<rparr>) = room_core s k q" for k q i
    using room_core_cong [of q ?s s k]
    by (auto simp: lives_in_def room_core_def room_semantic_visuals_ready_def room_snapshot_deltas_ready_def
        apply_room_settings_def split: if_splits option.splits)
  have hd: "lives_in s rid (hd (rm_clientIds r))"
    using v r member_lives [of s rid r] by (auto simp: vacated_def)
  then show "lives_in ?s rid (rm_owner q)" if "map_of (rl_rooms ?s) rid = Some q" for q
    using that r by (auto simp: same)
  show "vacated rid cid ?s"
    using v hd r by (auto simp: vacated_def same clients_ok_def om_ok_upd_room split: if_splits)
qed

lemma close_or_transfer_inv:
  assumes v: "vacated rid cid s" and run: "close_or_transfer env rid cid s = (Inr a, s')"
  shows "relay_inv s'"
proof (cases "map_of (rl_rooms s) rid")
  case None
  then show ?thesis using run vacated_inv [OF v] by (auto simp: close_or_transfer_def)
next
  case (Some r)
  show ?thesis
  proof (cases "rm_clientIds r \<noteq> [] \<and> rm_owner r = cid")
    case True
    let ?s = "upd_room rid (\<lambda>q. q\<lparr>rm_owner := hd (rm_clientIds r)\<rparr>) s"
    have "broadcast env rid cid (owner_json (hd (rm_clientIds r)))
        (upd_room rid (\<lambda>r. r\<lparr>rm_owner := hd (rm_clientIds r)\<rparr>) s) = (Inr a, s')"
      using run Some True by (simp add: close_or_transfer_def)
    moreover have "upd_room rid (\<lambda>r. r\<lparr>rm_owner := hd (rm_clientIds r)\<rparr>) s = ?s"
      using Some by (simp add: upd_room_def)
    ultimately have "calm ?s s'" using queues_run [OF queues_broadcast] by metis
    then show ?thesis using relay_inv_calm passed_room [OF v Some] True by blast
  next
    case False
    then show ?thesis
      using run Some closed_room [OF v] vacated_inv [OF v] v
      by (auto simp: close_or_transfer_def vacated_def split: if_splits)
  qed
qed

lemma safe_finish_settings: "safe K (finish_settings env rid) s"
proof (cases "map_of (rl_rooms s) rid")
  case None
  then show ?thesis by (simp add: safe_def finish_settings_def)
next
  case (Some r)
  show ?thesis
  proof (rule safe_good [of _ _ "rm_owner r"])
    assume "live K s"
    then have "lives_in s rid (rm_owner r)" using inv_room [OF _ Some] by (simp add: live_def room_ok_core)
    then show "good (rm_owner r) (finish_settings env rid) s"
      by (intro good_finish_settings) (simp add: lives_in_room_of)
  qed
qed

lemma live_empty [simp]: "live {} s = relay_inv s"
  by (simp add: live_def)

lemma rooms_erase_client [simp]: "rl_rooms (erase_client cid s) = rl_rooms s"
  by (simp add: erase_client_def)

lemma safe_remove_client: "safe {} (remove_client env cid) s"
proof (cases "map_of (rl_clients s) cid")
  case None
  then show ?thesis by (simp add: safe_def remove_client_def)
next
  case (Some c)
  let ?rid = "cl_roomId c" and ?s1 = "erase_client cid s"
  let ?s2 = "upd_room ?rid (leave_room cid ?s1) ?s1"
  have room: "room_of cid s = ?rid" using Some by (simp add: room_of_def client_of_known)
  show ?thesis
  proof (cases "?rid = [] \<or> map_of (rl_rooms ?s1) ?rid = None")
    case True
    have "relay_inv ?s1" if inv: "relay_inv s"
    proof -
      have "room_ok ?s1 k r" if r: "map_of (rl_rooms s) k = Some r" for k r
      proof -
        have "k \<noteq> ?rid" using True r no_empty_room [OF inv] by (auto simp: erased [OF inv])
        then show ?thesis
          using erased_other_room [OF inv r _ erased(4) [OF inv]] room by (simp add: room_ok_core)
      qed
      then show ?thesis using erased [OF inv] by (auto simp: relay_inv_def clients_ok_def)
    qed
    then show ?thesis using Some True by (auto simp: safe_def remove_client_def Let_def)
  next
    case False
    define left where "left = broadcast env ?rid cid (left_json cid
        (case map_of (rl_rooms ?s2) ?rid of Some r \<Rightarrow> r | None \<Rightarrow> new_room))"
    have run: "remove_client env cid s =
        act_seq left (act_seq (close_or_transfer env ?rid cid) (finish_settings env ?rid)) ?s2"
      using Some False by (auto simp: remove_client_def left_def Let_def)
    have "live {} s'" if inv: "relay_inv s" and ended: "remove_client env cid s = (Inr (), s')" for s'
    proof -
      obtain u s3 where 3: "left ?s2 = (Inr u, s3)"
        and rest: "act_seq (close_or_transfer env ?rid cid) (finish_settings env ?rid) s3 = (Inr (), s')"
        using ended unfolding run
        by (cases "left ?s2"; cases "fst (left ?s2)") (auto simp: act_seq_def act_bind_def)
      have "vacated ?rid cid s3"
        using vacated_calm [OF vacated_leave [OF inv room [symmetric]]] queues_run [OF queues_broadcast] 3
        unfolding left_def by blast
      moreover obtain s4 where 4: "close_or_transfer env ?rid cid s3 = (Inr (), s4)"
        and fin: "finish_settings env ?rid s4 = (Inr (), s')"
        using rest by (cases "close_or_transfer env ?rid cid s3"; cases "fst (close_or_transfer env ?rid cid s3)")
          (auto simp: act_seq_def act_bind_def)
      ultimately have "relay_inv s4" using close_or_transfer_inv by blast
      then show ?thesis using safe_run [OF safe_finish_settings, of "{}" s4 env ?rid "()" s'] fin by simp
    qed
    then show ?thesis by (auto simp: safe_def split: sum.splits prod.splits)
  qed
qed

section \<open>The server\<close>

lemma safe_expire_client: "safe K (expire_client env cid) s"
  unfolding expire_client_def by (intro safe_read safe_if safe_reject safe_return)

lemma safe_all_clients: "safe (dom (map_of (rl_clients s))) m s \<Longrightarrow> safe {} m s"
  by (auto simp: safe_def live_def split: sum.splits)

lemma safe_tick: "safe {} (tick ti) s"
proof -
  have clients: "safe {} (act_bind (serve_clients ti (map fst (rl_clients s))) f) s"
    if f: "\<And>gone s'. safe {} (f gone) s'" for f :: "string list \<Rightarrow> unit relay_act" and s
  proof (rule safe_bind)
    show "safe {} (serve_clients ti (map fst (rl_clients s))) s"
      by (rule safe_all_clients, rule safe_serve_clients) (simp add: dom_map_of_conv_image_fst)
  qed (rule f)
  show ?thesis
    unfolding tick_def
    by (intro safe_seq safe_grows fold_accept_grows safe_each safe_receive safe_read clients
        safe_expire_client safe_remove_client)
qed

text \<open>The server: a state, or nothing once an exception has ended it.\<close>

definition relay_step :: "tick_input \<Rightarrow> relay option \<Rightarrow> relay option" where
  "relay_step ti server =
     (case server of
        None \<Rightarrow> None
      | Some s \<Rightarrow> (case tick ti s of (Inr _, s') \<Rightarrow> Some s' | (Inl _, _) \<Rightarrow> None))"

interpretation server: invariant_machine relay_step "pred_option relay_inv" "Some relay_start"
proof
  show "pred_option relay_inv (Some relay_start)"
    by (simp add: relay_start_def relay_inv_def)
  show "pred_option relay_inv (relay_step ti server)" if "pred_option relay_inv server" for ti server
    using safe_tick [of ti "the server"] that
    by (cases server) (auto simp: relay_step_def safe_def split: prod.splits sum.splits)
qed

text \<open>
  C2: whatever the connections deliver, in any number of ticks, the running server stays well
  formed: every room lists at most eight distinct connected clients, and each of them says it is in that
  room (the converse is not claimed), its owner is a connected client of that room, a room with player combat has collision on, its capability flags
  are those of its members; every client's queue holds exactly the bytes it is charged for, at most
  8 MiB, and its datagram and signal windows are within their limits.
\<close>

theorem server_stays_well_formed:
  "pred_option relay_inv (fold relay_step inputs (Some relay_start))"
  by (rule server.reachable_inv)

end
