(* ===== verification/Relay_Realtime.thy ===== *)
theory Relay_Realtime
  imports Relay_Loop Relay_Admission
begin

text \<open>
  Where the relay sends realtime datagrams, and how many: only to members of the room of the
  authenticated sender, at the address they registered, and at most eight per datagram received.
\<close>

section \<open>Destinations\<close>

text \<open>What realtime routing reads of a client.\<close>

definition net_view :: "client \<Rightarrow> conn_id \<times> string \<times> bool \<times> udp_addr" where
  "net_view c = (cl_sock c, cl_roomId c, cl_udpAddrKnown c, cl_udpAddr c)"

definition net_of :: "relay \<Rightarrow> string \<Rightarrow> (conn_id \<times> string \<times> bool \<times> udp_addr) option" where
  "net_of s i = map_option net_view (map_of (rl_clients s) i)"

text \<open>
  A datagram leaves for a client of the room in which the client on the connection \<open>auth\<close>, with the
  registered address \<open>from\<close>, is.
\<close>

definition allowed :: "relay \<Rightarrow> udp_addr \<Rightarrow> conn_id \<Rightarrow> relay_effect \<Rightarrow> bool" where
  "allowed s from auth e \<longleftrightarrow>
     (\<exists>addr packet sid tid rid sock. e = SendRealtime addr packet \<and> rid \<noteq> [] \<and>
        net_of s sid = Some (auth, rid, True, from) \<and> net_of s tid = Some (sock, rid, True, addr))"

definition emits :: "nat \<Rightarrow> udp_addr \<Rightarrow> conn_id \<Rightarrow> relay \<Rightarrow> relay \<Rightarrow> bool" where
  "emits n from auth s s' \<longleftrightarrow> net_of s' = net_of s \<and>
     (\<exists>es. rl_effects s' = rl_effects s @ es \<and> length es \<le> n \<and> (\<forall>e \<in> set es. allowed s from auth e))"

lemma emits_refl [simp]: "emits n from auth s s"
  by (simp add: emits_def)

lemma emits_trans: "emits m from auth s s' \<Longrightarrow> emits n from auth s' s'' \<Longrightarrow> emits (m + n) from auth s s''"
  by (fastforce simp: emits_def allowed_def)

lemma emits_mono: "emits m from auth s s' \<Longrightarrow> m \<le> n \<Longrightarrow> emits n from auth s s'"
  by (auto simp: emits_def)

lemma net_of_upd_client [simp]:
  assumes "\<And>c. net_view (f c) = net_view c"
  shows "net_of (upd_client i f s) = net_of s"
  using assms by (auto simp: net_of_def option.map_comp comp_def)

lemma net_view_rate [simp]:
  "net_view (refresh_rate now c) = net_view c" "net_view (c\<lparr>cl_udpRateWindowBytes := n\<rparr>) = net_view c"
  by (simp_all add: net_view_def refresh_rate_def)

lemma net_of_send_udp [simp]: "net_of (send_udp_to_client i packet s) = net_of s"
  by (simp add: net_of_def fun_eq_iff)

lemma net_of_known: "map_of (rl_clients s) i = Some c \<Longrightarrow> net_of s i = Some (net_view c)"
  by (simp add: net_of_def)

lemma emits_send_udp:
  assumes "net_of s sid = Some (auth, rid, True, from)" and "rid \<noteq> []"
    and "map_of (rl_clients s) tid = Some t" and "cl_roomId t = rid"
  shows "emits 1 from auth s (send_udp_to_client tid packet s)"
proof (cases "cl_udpAddrKnown t")
  case True
  then have "net_of s tid = Some (cl_sock t, rid, True, cl_udpAddr t)"
    using assms by (simp add: net_of_known net_view_def)
  then have "allowed s from auth (SendRealtime (cl_udpAddr t) packet)"
    using assms by (auto simp: allowed_def)
  then show ?thesis
    using True assms(3) by (simp add: emits_def send_udp_to_client_def client_of_known net_of_def fun_eq_iff)
next
  case False
  then show ?thesis using assms(3) by (simp add: send_udp_to_client_def client_of_known)
qed

lemma emits_same: "(\<And>c. net_view (f c) = net_view c) \<Longrightarrow> emits n from auth s (upd_client i f s)"
  by (simp add: emits_def)

lemma emits_upd:
  assumes "\<And>c. net_view (f c) = net_view c" and "emits n from auth (upd_client i f s) s'"
  shows "emits n from auth s s'"
  using assms by (auto simp: emits_def allowed_def)

lemma emits_route_peer: "emits 1 from auth s (route_peer_datagram env from wire auth s)"
proof -
  let ?sid = "client_name (tunnel_read (subspan 4 8 wire))" and ?tid = "client_name (tunnel_read (subspan 12 8 wire))"
  have "emits 1 from auth s (send_udp_to_client ?tid wire (upd_client ?sid f (upd_client ?sid g s)))"
    if s: "map_of (rl_clients s) ?sid = Some sender" and t: "map_of (rl_clients s) ?tid = Some target"
      and ok: "peer_pair_ok from auth sender target"
      and f: "\<And>c. net_view (f c) = net_view c" and g: "\<And>c. net_view (g c) = net_view c" for sender target f g
  proof (rule emits_upd [OF g], rule emits_upd [OF f], rule emits_send_udp)
    let ?s = "upd_client ?sid f (upd_client ?sid g s)"
    have n: "net_of ?s = net_of s" using f g by simp
    show "net_of ?s ?sid = Some (auth, cl_roomId sender, True, from)" "cl_roomId sender \<noteq> []"
      using s ok by (auto simp: n) (auto simp: net_of_def net_view_def peer_pair_ok_def)
    have view: "net_view (f (g c)) = net_view c" "net_view (g c) = net_view c" for c using f g by simp_all
    show "map_of (rl_clients ?s) ?tid = Some (if ?tid = ?sid then f (g target) else target)"
      using t by auto
    show "cl_roomId (if ?tid = ?sid then f (g target) else target) = cl_roomId sender"
      using view(1) [of target] ok by (auto simp: net_view_def peer_pair_ok_def)
  qed
  then show ?thesis
    unfolding route_peer_datagram_def Let_def
    by (auto split: option.splits intro: emits_same intro!: emits_upd [of "refresh_rate _", OF _ emits_same])
qed

lemma emits_route_group:
  "emits (length ts) from auth s (route_group env from auth sender payload seen ts s)"
proof (induction ts arbitrary: seen s)
  case Nil
  then show ?case by simp
next
  case (Cons t ts seen s)
  let ?s = "route_peer_datagram env from (peer_tunnel sender t payload) auth s"
  have "emits (1 + length ts) from auth s (route_group env from auth sender payload (t # seen) ts ?s)"
    by (rule emits_trans [OF emits_route_peer Cons.IH])
  moreover have "emits (Suc (length ts)) from auth s (route_group env from auth sender payload seen ts s)"
    by (rule emits_mono [OF Cons.IH]) simp
  ultimately show ?case by simp
qed

lemma emits_forward_one:
  assumes "net_of s senderId = Some (auth, rid, True, from)" and "rid \<noteq> []"
    and "lives_in s rid pid"
  shows "emits 1 from auth s (forward_one h senderId packet pid s)"
  using emits_send_udp [OF assms(1,2)] assms(3)
  by (auto simp: forward_one_def lives_in_def split: option.splits)

lemma emits_forward_all:
  "net_of s senderId = Some (auth, rid, True, from) \<Longrightarrow> rid \<noteq> [] \<Longrightarrow> list_all (lives_in s rid) pids \<Longrightarrow>
   emits (length pids) from auth s (fold (forward_one h senderId packet) pids s)"
proof (induction pids arbitrary: s)
  case Nil
  then show ?case by simp
next
  case (Cons p pids)
  let ?s = "forward_one h senderId packet p s"
  have 1: "emits 1 from auth s ?s" using Cons.prems by (intro emits_forward_one [of _ _ _ rid]) simp_all
  have "list_all (lives_in ?s rid) pids" using Cons.prems(3) by (simp add: lives_in_def list_all_iff)
  then have "emits (length pids) from auth ?s (fold (forward_one h senderId packet) pids ?s)"
    using Cons.IH [of ?s] Cons.prems 1 by (simp add: emits_def)
  from emits_trans [OF 1 this] show ?case by simp
qed

lemma net_of_lives: "net_of s i = Some (sock, rid, known, addr) \<Longrightarrow> lives_in s rid i"
  by (auto simp: net_of_def net_view_def lives_in_def)

lemma emits_forward_room:
  assumes inv: "relay_inv s" and sender: "net_of s senderId = Some (auth, rid, True, from)" and rid: "rid \<noteq> []"
  shows "emits kMaxRoomClients from auth s (forward_room h senderId packet s)"
proof (cases "map_of (rl_rooms s) rid")
  case None
  then show ?thesis using sender by (auto simp: forward_room_def net_of_def net_view_def client_of_known)
next
  case (Some r)
  have room: "cl_roomId (client_of senderId s) = rid"
    using sender by (auto simp: net_of_def net_view_def client_of_known)
  have one: "emits kMaxRoomClients from auth s (send_udp_to_client tid packet s)"
    if "map_of (rl_clients s) tid = Some t" "cl_roomId t = rid" for tid t
    by (rule emits_mono [OF emits_send_udp [OF sender rid that]]) (simp add: kMaxRoomClients_def)
  have all: "emits kMaxRoomClients from auth s (fold (forward_one h senderId packet) (rm_clientIds r) s)"
    using inv_room [OF inv Some]
    by (intro emits_mono [OF emits_forward_all [OF sender rid]]) (simp_all add: room_ok_def)
  show ?thesis
    using Some room one all by (auto simp: forward_room_def Let_def split: option.splits)
qed

section \<open>One datagram\<close>

text \<open>Registration binds the authenticated connection to the source address; nothing else is sent.\<close>

definition binds :: "udp_addr \<Rightarrow> conn_id \<Rightarrow> relay \<Rightarrow> relay \<Rightarrow> bool" where
  "binds from auth s s' \<longleftrightarrow> rl_effects s' = rl_effects s @ [BindRealtime auth from]"

definition handled :: "udp_addr \<Rightarrow> conn_id \<Rightarrow> relay \<Rightarrow> relay \<Rightarrow> bool" where
  "handled from auth s s' \<longleftrightarrow> emits kMaxRoomClients from auth s s' \<or> binds from auth s s'"

lemma group_targets_bound: "peer_group_header wire \<noteq> 0 \<Longrightarrow> length (group_targets wire) \<le> 7"
  by (auto simp: peer_group_header_def group_targets_def Let_def word_less_nat_alt split: if_splits)

lemma send_keeps_effects: "good cid m s \<Longrightarrow> relay_inv s \<Longrightarrow> rl_effects (snd (m s)) = rl_effects s"
  by (simp add: good_def touches_def)

lemma handled_register:
  assumes inv: "relay_inv s" and known: "map_of (rl_clients s) i = Some c" and sock: "cl_sock c = auth"
  shows "handled from auth s (snd (register_udp env from i token s))"
proof (cases "token = cl_udpToken c")
  case True
  let ?s1 = "upd_client i (\<lambda>c. c\<lparr>cl_udpAddr := from, cl_udpAddrKnown := True\<rparr>) (add_effect (BindRealtime auth from) s)"
  have "relay_inv ?s1" using inv by (intro relay_inv_benign) simp_all
  then have "rl_effects (snd (send_json_ignored env i m ?s1)) = rl_effects ?s1" for m
    by (intro send_keeps_effects [of i] good_intros) simp_all
  then show ?thesis
    using True known sock by (simp add: register_udp_def client_of_known handled_def binds_def Let_def)
next
  case False
  then show ?thesis using known by (simp add: register_udp_def client_of_known handled_def Let_def)
qed

lemma handled_room_datagram:
  assumes inv: "relay_inv s"
  shows "handled from auth s (snd (receive_room_datagram env from auth packet s))"
proof -
  let ?h = "read_header packet" and ?i = "udp_sender_id (read_header packet)"
  have fwd: "handled from auth s (forward_room ?h ?i packet (upd_client ?i (\<lambda>c. c\<lparr>cl_udpRateWindowBytes :=
        cl_udpRateWindowBytes c + length packet\<rparr>) (upd_client ?i (refresh_rate (re_now env)) s)))"
    if c: "map_of (rl_clients s) ?i = Some c" "cl_roomId c \<noteq> []" "cl_sock c = auth" "cl_udpAddrKnown c" "cl_udpAddr c = from"
      and charge: "cl_udpRateWindowBytes (client_of ?i (upd_client ?i (refresh_rate (re_now env)) s)) + length packet
        \<le> kMaxUdpBytesPerClientSecond" for c
  proof -
    let ?s1 = "upd_client ?i (refresh_rate (re_now env)) s"
    let ?f = "\<lambda>c. c\<lparr>cl_udpRateWindowBytes := cl_udpRateWindowBytes c + length packet\<rparr>"
    have "relay_inv (upd_client ?i ?f ?s1)"
      by (rule relay_inv_charge [OF relay_inv_benign [OF inv] charge]) simp
    moreover have "net_of (upd_client ?i ?f ?s1) ?i = Some (auth, cl_roomId c, True, from)"
      using c by (simp add: net_of_known) (simp add: net_view_def)
    ultimately have "emits kMaxRoomClients from auth (upd_client ?i ?f ?s1)
        (forward_room ?h ?i packet (upd_client ?i ?f ?s1))"
      using c(2) by (rule emits_forward_room)
    then show ?thesis
      unfolding handled_def
      by (rule disjI1 [OF emits_upd [OF net_view_rate(1) emits_upd [OF net_view_rate(2)]]])
  qed
  have limit: "cl_udpRateWindowBytes (client_of ?i (upd_client ?i (refresh_rate (re_now env)) s))
      \<le> kMaxUdpBytesPerClientSecond"
    if "map_of (rl_clients s) ?i = Some c" for c
    using inv_client [OF inv that] that by (auto simp: client_of_upd client_of_known client_ok_def refresh_rate_def)
  have quiet: "handled from auth s s" "handled from auth s (upd_client ?i (refresh_rate (re_now env)) s)"
    by (simp_all add: handled_def emits_same)
  show ?thesis
    unfolding receive_room_datagram_def Let_def
    using handled_register [OF inv] fwd limit quiet
    by (auto split: option.splits)
qed

lemma handled_datagram:
  assumes inv: "relay_inv s"
  shows "handled from auth s (snd (receive_datagram env (from, auth, wire) s))"
proof -
  have "handled from auth s (route_group env from auth sender payload [] (group_targets wire) s)"
    if "peer_group_header wire \<noteq> 0" for sender payload
    using emits_mono [OF emits_route_group] group_targets_bound [OF that]
    by (simp add: handled_def kMaxRoomClients_def)
  moreover have "handled from auth s (route_peer_datagram env from wire auth s)"
    using emits_mono [OF emits_route_peer] by (simp add: handled_def kMaxRoomClients_def)
  ultimately show ?thesis
    using handled_room_datagram [OF inv] by (auto simp: receive_datagram_def Let_def handled_def)
qed

text \<open>
  C4: a realtime datagram reaches the sender's room and nothing else.  Whatever bytes arrive from
  an address on an authenticated connection, the relay either binds that connection to that
  address, or sends at most eight datagrams, each to the registered address of a client in the
  room in which a client with that very connection and registered address is.
\<close>

theorem datagram_stays_in_room:
  assumes "relay_inv s"
  shows "\<exists>es. rl_effects (snd (receive_datagram env (from, auth, wire) s)) = rl_effects s @ es \<and>
    length es \<le> 8 \<and> list_all (\<lambda>e. case e of
       BindRealtime sock addr \<Rightarrow> sock = auth \<and> addr = from
     | SendRealtime addr packet \<Rightarrow>
         (\<exists>sid sender tid target. map_of (rl_clients s) sid = Some sender \<and> cl_sock sender = auth \<and>
            cl_udpAddrKnown sender \<and> cl_udpAddr sender = from \<and> cl_roomId sender \<noteq> [] \<and>
            map_of (rl_clients s) tid = Some target \<and> cl_roomId target = cl_roomId sender \<and>
            cl_udpAddrKnown target \<and> cl_udpAddr target = addr)
     | _ \<Rightarrow> False) es"
proof -
  consider "emits kMaxRoomClients from auth s (snd (receive_datagram env (from, auth, wire) s))"
    | "binds from auth s (snd (receive_datagram env (from, auth, wire) s))"
    using handled_datagram [OF assms] unfolding handled_def by blast
  then show ?thesis
  proof cases
    case 1
    then obtain es where es: "rl_effects (snd (receive_datagram env (from, auth, wire) s)) = rl_effects s @ es"
      "length es \<le> 8" "\<forall>e \<in> set es. allowed s from auth e"
      by (auto simp: emits_def kMaxRoomClients_def)
    show ?thesis
      by (rule exI [of _ es])
        (use es in \<open>fastforce simp: list_all_iff allowed_def net_of_def net_view_def\<close>)
  next
    case 2
    then show ?thesis by (intro exI [of _ "[BindRealtime auth from]"]) (simp add: binds_def)
  qed
qed

section \<open>An example\<close>

definition ex_header :: udp_header where
  "ex_header = \<lparr>uh_magic = udp_magic, uh_version = 1, uh_type = RemoteObject, uh_headerSize = 58,
     uh_sequence = 1, uh_chunkIndex = 0, uh_chunkCount = 1, uh_uncompressedSize = 1,
     uh_compressedSize = 1, uh_payloadSize = 1, uh_senderId = copy_id ''a''\<rparr>"

definition ex_packet :: bytes where
  "ex_packet = header_bytes ex_header @ [0]"

definition ex_realtime :: relay where
  "ex_realtime = upd_client ''b'' (\<lambda>c. c\<lparr>cl_udpAddr := (3, 4), cl_udpAddrKnown := True\<rparr>)
     (upd_client ''a'' (\<lambda>c. c\<lparr>cl_udpAddr := (1, 2), cl_udpAddrKnown := True\<rparr>) ex_relay)"

lemma ex_realtime_inv: "relay_inv ex_realtime"
  unfolding ex_realtime_def by (intro relay_inv_benign ex_relay_inv) simp_all

lemma ex_magic: "take 4 ex_packet = udp_magic" "udp_magic \<noteq> group_magic" "udp_magic \<noteq> tunnel_magic"
proof -
  have "length udp_magic = 4" by (simp add: udp_magic_def)
  then show "take 4 ex_packet = udp_magic" by (simp add: ex_packet_def header_bytes_def ex_header_def)
  show "udp_magic \<noteq> group_magic" "udp_magic \<noteq> tunnel_magic" by code_simp+
qed

lemma ex_header_shape: "header_shape ex_header"
  by (simp add: header_shape_def ex_header_def udp_magic_def)

lemma ex_sent:
  "rl_effects (snd (receive_datagram ex_env ((1, 2), 0, ex_packet) ex_realtime)) = [SendRealtime (3, 4) ex_packet]"
proof -
  have h: "read_header ex_packet = ex_header" unfolding ex_packet_def by (rule read_header_bytes [OF ex_header_shape])
  have len: "length ex_packet = 59"
    using length_header_bytes [OF ex_header_shape] by (simp add: ex_packet_def kHeaderBytes_def)
  have i: "read_id (copy_id ''a'') = ''a''" by (rule read_copy_id) (simp_all add: kSenderIdBytes_def)
  have ty: "RemoteObject \<noteq> RelayRegister" "RemoteObject \<in> set room_types" "RemoteObject \<noteq> VoiceOpus"
    "RemoteObject \<noteq> PoseAck" "\<not> is_pose_type RemoteObject" "RemoteObject \<noteq> SemanticPoseMsgpack" "RemoteObject \<noteq> MidnaMsgpack"
    by code_simp+
  have g: "peer_group_header ex_packet = 0" "\<not> is_peer_tunnel ex_packet"
    using ex_magic by (simp_all add: peer_group_header_def is_peer_tunnel_def)
  have run: "receive_datagram ex_env ((1, 2), 0, ex_packet) ex_realtime = receive_room_datagram ex_env (1, 2) 0 ex_packet ex_realtime"
    using g by (simp add: receive_datagram_def)
  show ?thesis
    unfolding run using ty
    by (simp add: receive_room_datagram_def udp_sender_id_def h i len bad_voice_def kHeaderBytes_def ex_header_def Let_def
        ex_realtime_def ex_relay_def ex_room_def ex_client_def new_client_def new_room_def upd_client_def
        client_of_def refresh_rate_def ex_env_def kMaxUdpBytesPerClientSecond_def forward_room_def
        forward_one_def room_peer_ok_def send_udp_to_client_def add_effect_def)
qed

lemma datagram_stays_in_room_witness:
  "\<exists>es. rl_effects ex_realtime @ es = [SendRealtime (3, 4) ex_packet] \<and> length es \<le> 8 \<and>
    list_all (\<lambda>e. case e of
       BindRealtime sock addr \<Rightarrow> sock = 0 \<and> addr = (1, 2)
     | SendRealtime addr packet \<Rightarrow>
         (\<exists>sid sender tid target. map_of (rl_clients ex_realtime) sid = Some sender \<and> cl_sock sender = 0 \<and>
            cl_udpAddrKnown sender \<and> cl_udpAddr sender = (1, 2) \<and> cl_roomId sender \<noteq> [] \<and>
            map_of (rl_clients ex_realtime) tid = Some target \<and> cl_roomId target = cl_roomId sender \<and>
            cl_udpAddrKnown target \<and> cl_udpAddr target = addr)
     | _ \<Rightarrow> False) es"
proof -
  obtain es where "rl_effects (snd (receive_datagram ex_env ((1, 2), 0, ex_packet) ex_realtime)) = rl_effects ex_realtime @ es"
    and "length es \<le> 8" and "list_all (\<lambda>e. case e of
       BindRealtime sock addr \<Rightarrow> sock = 0 \<and> addr = (1, 2)
     | SendRealtime addr packet \<Rightarrow>
         (\<exists>sid sender tid target. map_of (rl_clients ex_realtime) sid = Some sender \<and> cl_sock sender = 0 \<and>
            cl_udpAddrKnown sender \<and> cl_udpAddr sender = (1, 2) \<and> cl_roomId sender \<noteq> [] \<and>
            map_of (rl_clients ex_realtime) tid = Some target \<and> cl_roomId target = cl_roomId sender \<and>
            cl_udpAddrKnown target \<and> cl_udpAddr target = addr)
     | _ \<Rightarrow> False) es"
    using datagram_stays_in_room [OF ex_realtime_inv, of ex_env "(1, 2)" 0 ex_packet] by blast
  then show ?thesis using ex_sent by (intro exI [of _ es]) simp
qed

end
