(* ===== verification/Relay_Settings.thy ===== *)
theory Relay_Settings
  imports Relay_Loop Relay_Admission
begin

text \<open>
  The two-phase change of a room's settings: the owner proposes, every listed member reports that it
  is ready for that very generation, and the last report commits.  Nothing else a client sends
  changes the settings, and when all members report the change is committed.
\<close>

section \<open>Messages that change no room\<close>

definition rooms_kept :: "(relay, 'a) action \<Rightarrow> bool" where
  "rooms_kept m \<longleftrightarrow> (\<forall>s. rl_rooms (snd (m s)) = rl_rooms s)"

named_theorems kept_intros \<open>actions that change no room\<close>

lemma kept_basic [simp, kept_intros]:
  "rooms_kept (act_return a)" "rooms_kept (act_lift r)" "rooms_kept (set_client pid f)"
  by (simp_all add: rooms_kept_def)

lemma kept_read [kept_intros]: "(\<And>s. rooms_kept (f s)) \<Longrightarrow> rooms_kept (act_read f)"
  by (simp add: rooms_kept_def)

lemma kept_bind [kept_intros]:
  assumes "rooms_kept m" and "\<And>a. rooms_kept (f a)"
  shows "rooms_kept (act_bind m f)"
  unfolding rooms_kept_def
proof
  fix s
  obtain r s' where run: "m s = (r, s')" by fastforce
  then have "rl_rooms s' = rl_rooms s" using assms(1) unfolding rooms_kept_def by (metis snd_conv)
  then show "rl_rooms (snd (act_bind m f s)) = rl_rooms s"
    using assms(2) by (cases r) (auto simp: act_bind_def run rooms_kept_def)
qed

lemma kept_seq [kept_intros]: "rooms_kept m \<Longrightarrow> rooms_kept n \<Longrightarrow> rooms_kept (act_seq m n)"
  unfolding act_seq_def by (rule kept_bind)

lemma kept_each [kept_intros]: "(\<And>x. rooms_kept (f x)) \<Longrightarrow> rooms_kept (act_each f xs)"
  by (induction xs) (auto intro: kept_seq)

lemma kept_if [kept_intros]: "rooms_kept m \<Longrightarrow> rooms_kept n \<Longrightarrow> rooms_kept (if b then m else n)"
  by simp

lemma kept_queues: "queues m \<Longrightarrow> rooms_kept m"
  by (auto simp: queues_def calm_def rooms_kept_def)

lemma kept_send [kept_intros]:
  "rooms_kept (send_json env pid message)" "rooms_kept (send_error env pid err)"
  "rooms_kept (send_or_drop env pid message)" "rooms_kept (broadcast env rid pid message)"
  by (auto simp: send_error_def intro!: kept_queues)

lemma kept_reject [kept_intros]: "rooms_kept (reject_and_close env pid err)"
  unfolding reject_and_close_def by (intro kept_intros)

lemma kept_send_to_client [kept_intros]: "rooms_kept (send_to_client env cid target message)"
  unfolding send_to_client_def by (intro kept_intros) (auto split: option.splits intro!: kept_intros)

lemma kept_send_if_known [kept_intros]: "rooms_kept (send_if_known env message i)"
  unfolding send_if_known_def by (intro kept_intros) (auto split: option.splits intro!: kept_intros)

lemma kept_run: "rooms_kept m \<Longrightarrow> rl_rooms (snd (m s)) = rl_rooms s"
  by (simp add: rooms_kept_def)

lemma kept_routes [kept_intros]:
  "rooms_kept (route_peer_receipt env cid message)" "rooms_kept (route_pose env cid message)"
  "rooms_kept (route_reliable env cid message)" "rooms_kept (route_sync_request env cid message)"
  "rooms_kept (route_gameplay env cid message)" "rooms_kept (apply_preferences cid type message)"
  unfolding route_peer_receipt_def route_pose_def route_reliable_def route_sync_request_def send_or_unknown_def
    route_gameplay_def apply_preferences_def Let_def
  by (intro kept_intros)+

lemma kept_peer_reliable [kept_intros]: "rooms_kept (route_peer_reliable env cid message)"
  unfolding route_peer_reliable_def
  by (intro kept_intros) (auto split: option.splits intro!: kept_intros)

lemma kept_ice_signal [kept_intros]: "rooms_kept (route_ice_signal env cid message)"
  unfolding route_ice_signal_def
  by (intro kept_seq) (auto split: option.splits json.splits intro!: kept_intros)

lemma kept_peer_stage [kept_intros]: "rooms_kept (route_peer_stage cid message)"
  unfolding route_peer_stage_def by (auto split: option.splits json.splits)

lemma kept_kick [kept_intros]: "rooms_kept (route_kick env cid message)"
  unfolding route_kick_def kick_member_def Let_def
  by (intro kept_read) (auto split: option.splits json.splits intro!: kept_intros)

lemma kept_auth_begin [kept_intros]: "rooms_kept (route_auth_begin env cid message)"
  unfolding route_auth_begin_def Let_def
  by (intro kept_intros) (auto split: option.splits intro!: kept_intros)

section \<open>What a message may do to the settings\<close>

definition settings_of :: "room \<Rightarrow> bool \<times> bool \<times> bool \<times> bool \<times> bool \<times> u64 \<times> json" where
  "settings_of r = (rm_dummyModel r, rm_syncFlags r, rm_syncWorld r, rm_remoteCollision r, rm_pvp r,
     rm_generation r, rm_pending r)"

text \<open>The owner proposes; the change is pending until every listed member is ready.\<close>

definition proposes :: "string \<Rightarrow> room \<Rightarrow> room \<Rightarrow> bool" where
  "proposes cid r r' \<longleftrightarrow> rm_owner r = cid \<and> rm_pending r = JNull \<and>
     (\<exists>settings candidate. apply_room_settings settings r = Some candidate \<and>
        settings_of r' = settings_of (r\<lparr>rm_pending := room_settings_json candidate\<rparr>)) \<and>
     set (rm_waiting r') = set (rm_clientIds r)"

text \<open>The last report commits: the pending settings apply, under the next generation.\<close>

definition commits :: "string \<Rightarrow> json \<Rightarrow> room \<Rightarrow> room \<Rightarrow> bool" where
  "commits cid message r r' \<longleftrightarrow> rm_pending r \<noteq> JNull \<and> set (rm_waiting r) \<subseteq> {cid} \<and>
     j_find ''generation'' message = Some (JUInt (unat (rm_generation r + 1))) \<and>
     (\<exists>q. apply_room_settings (rm_pending r) r = Some q \<and>
        settings_of r' = settings_of (q\<lparr>rm_pending := JNull, rm_generation := rm_generation r + 1\<rparr>))"

lemma finish_settings_rooms:
  "map_of (rl_rooms (snd (finish_settings env rid s))) k =
     (case map_of (rl_rooms s) k of
        None \<Rightarrow> None
      | Some r \<Rightarrow> Some (if k = rid \<and> \<not> is_null (rm_pending r) \<and> rm_waiting r = [] then commit_room r else r))"
proof (cases "map_of (rl_rooms s) rid")
  case None
  then show ?thesis by (auto simp: finish_settings_def split: option.splits)
next
  case (Some r)
  have "rl_rooms (snd (act_each (send_if_known env m) ids s')) = rl_rooms s'" for m ids s'
    by (rule kept_run) (intro kept_intros)
  then show ?thesis using Some by (auto simp: finish_settings_def split: option.splits)
qed

lemma is_null_iff: "is_null v \<longleftrightarrow> v = JNull"
  by (cases v) simp_all

text \<open>Actions after which every room that was there has the settings it had.\<close>

definition settings_kept :: "(relay, 'a) action \<Rightarrow> relay \<Rightarrow> bool" where
  "settings_kept m s \<longleftrightarrow> (\<forall>k r. map_of (rl_rooms s) k = Some r \<longrightarrow>
     map_option settings_of (map_of (rl_rooms (snd (m s))) k) = Some (settings_of r))"

lemma settings_rooms: "rooms_kept m \<Longrightarrow> settings_kept m s"
  by (simp add: rooms_kept_def settings_kept_def)

lemma settings_kept_modify:
  assumes "\<And>k r. map_of (rl_rooms s) k = Some r \<Longrightarrow>
      map_option settings_of (map_of (rl_rooms (g s)) k) = Some (settings_of r)"
    and "settings_kept n (g s)"
  shows "settings_kept (act_seq (act_modify g) n) s"
  using assms unfolding settings_kept_def act_bind_run by fastforce

lemma settings_kept_read: "settings_kept (f s) s \<Longrightarrow> settings_kept (act_read f) s"
  by (simp add: settings_kept_def)

lemma settings_kept_lift: "(\<And>a. settings_kept (f a) s) \<Longrightarrow> settings_kept (act_bind (act_lift r) f) s"
  by (cases r) (simp_all add: settings_kept_def)

lemma settings_kept_if: "settings_kept m s \<Longrightarrow> settings_kept n s \<Longrightarrow> settings_kept (if b then m else n) s"
  by simp

lemma settings_add_member:
  "map_of (rl_rooms s) k = Some r \<Longrightarrow>
   map_option settings_of (map_of (rl_rooms (add_member rid cid s)) k) = Some (settings_of r)"
  by (auto simp: add_member_def settings_of_def Let_def)

lemma settings_enter_room: "settings_kept (enter_room env cid rid name hello) s"
  unfolding enter_room_def Let_def
  by (intro settings_kept_modify settings_kept_lift settings_kept_read)
     (auto simp: settings_add_member announce_member_def intro!: settings_rooms kept_intros split: option.splits)

lemma settings_admit: "settings_kept (admit_member env cid rid name hello) s"
  unfolding admit_member_def
  by (intro settings_kept_read) (auto split: option.splits intro!: settings_enter_room settings_rooms kept_intros)

lemma settings_hello: "settings_kept (handle_hello env cid hello) s"
proof -
  have create: "settings_kept (hello_create env cid rid name proofHex hello) s" for rid name proofHex s
    unfolding hello_create_def
    by (intro settings_kept_read)
       (auto split: option.splits intro!: settings_kept_modify settings_kept_lift settings_admit
          settings_rooms [OF kept_reject] settings_rooms [OF kept_send(2)])
  have join: "settings_kept (hello_join env cid rid name proofHex hello) s" for rid name proofHex s
    unfolding hello_join_def
    by (intro settings_kept_read) (auto split: option.splits intro!: settings_admit settings_rooms kept_intros)
  show ?thesis
    unfolding handle_hello_def hello_authenticate_def Let_def
    by (intro settings_kept_lift settings_kept_if settings_kept_read create join settings_rooms [OF kept_reject]
        settings_rooms [OF kept_send(2)])
qed

lemma settings_ready_outcome:
  assumes inv: "relay_inv s" and known: "map_of (rl_clients s) cid = Some c"
    and r: "map_of (rl_rooms s) rid = Some r"
    and r': "map_of (rl_rooms (snd (route_settings_ready env cid message s))) rid = Some r'"
  shows "settings_of r' = settings_of r \<or> rid = cl_roomId c \<and> commits cid message r r'"
proof (cases "rid = cl_roomId c \<and> rm_pending r \<noteq> JNull \<and>
    j_find ''generation'' message = Some (JUInt (unat (rm_generation r + 1))) \<and> set (rm_waiting r) \<subseteq> {cid}")
  case True
  let ?q = "r\<lparr>rm_waiting := filter (\<lambda>i. i \<noteq> cid) (rm_waiting r)\<rparr>"
  have ok: "room_ok s rid r" by (rule inv_room [OF inv r])
  obtain p where p: "apply_room_settings (rm_pending r) r = Some p"
    using ok True by (auto simp: room_ok_def is_null_iff)
  have q: "apply_room_settings (rm_pending r) ?q = Some (p\<lparr>rm_waiting := rm_waiting ?q\<rparr>)"
    using p by (auto simp: apply_room_settings_def split: if_splits option.splits)
  have "filter (\<lambda>i. i \<noteq> cid) (rm_waiting r) = []" using True by (auto simp: filter_empty_conv)
  then have "r' = commit_room ?q"
    using r' r known True
    by (simp add: route_settings_ready_def client_of_known is_null_iff finish_settings_rooms Let_def)
  moreover have "rm_generation p = rm_generation r" using apply_room_settings_fields(9) [OF p] .
  ultimately have "settings_of r' = settings_of (p\<lparr>rm_pending := JNull, rm_generation := rm_generation r + 1\<rparr>)"
    using q by (simp add: commit_room_def settings_of_def)
  then show ?thesis using True p by (auto simp: commits_def)
next
  case False
  then have "settings_of r' = settings_of r"
    using r' r known
    by (cases "map_of (rl_rooms s) (cl_roomId c)")
       (auto simp: route_settings_ready_def client_of_known is_null_iff finish_settings_rooms filter_empty_conv
         settings_of_def Let_def split: if_splits)
  then show ?thesis ..
qed

lemma proposesI:
  "apply_room_settings settings r = Some candidate \<Longrightarrow> rm_owner r = cid \<Longrightarrow> rm_pending r = JNull \<Longrightarrow>
   proposes cid r (r\<lparr>rm_pending := room_settings_json candidate, rm_waiting := fold os_insert (rm_clientIds r) [],
     rm_settingsStarted := now\<rparr>)"
  by (auto simp: proposes_def settings_of_def)

lemma room_settings_outcome:
  assumes known: "map_of (rl_clients s) cid = Some c" and r: "map_of (rl_rooms s) rid = Some r"
    and r': "map_of (rl_rooms (snd (route_room_settings env cid message s))) rid = Some r'"
  shows "settings_of r' = settings_of r \<or> rid = cl_roomId c \<and> proposes cid r r'"
proof -
  have rest: "rl_rooms (snd (act_seq (send_json_ignored env cid m) (broadcast_from env cid m) s')) = rl_rooms s'" for m s'
    by (rule kept_run) (intro kept_intros)
  show ?thesis
    using r r' known
    by (cases "map_of (rl_rooms s) (cl_roomId c)"; cases "value_json ''settings'' JNull message")
       (auto simp: route_room_settings_def client_of_known is_null_iff kept_run [OF kept_send(2)] lift_json_def
         rest Let_def split: if_splits option.splits intro: proposesI)
qed

definition outcome_ok :: "string \<Rightarrow> string \<Rightarrow> json \<Rightarrow> (relay, 'a) action \<Rightarrow> relay \<Rightarrow> bool" where
  "outcome_ok rid0 cid message m s \<longleftrightarrow> (\<forall>rid r r'. map_of (rl_rooms s) rid = Some r \<longrightarrow>
     map_of (rl_rooms (snd (m s))) rid = Some r' \<longrightarrow>
     settings_of r' = settings_of r \<or> rid = rid0 \<and> (proposes cid r r' \<or> commits cid message r r'))"

lemma outcome_kept: "rooms_kept m \<Longrightarrow> outcome_ok rid0 cid message m s"
  by (simp add: rooms_kept_def outcome_ok_def)

lemma outcome_settings: "settings_kept m s \<Longrightarrow> outcome_ok rid0 cid message m s"
  by (fastforce simp: settings_kept_def outcome_ok_def)

lemma outcome_lift:
  "(\<And>a. outcome_ok rid0 cid message (f a) s) \<Longrightarrow> outcome_ok rid0 cid message (act_bind (act_lift r) f) s"
  by (cases r) (simp_all add: outcome_ok_def)

lemma outcome_member:
  assumes inv: "relay_inv s" and known: "map_of (rl_clients s) cid = Some c"
  shows "outcome_ok (cl_roomId c) cid message (route_member env cid type message) s"
proof -
  have ready: "outcome_ok (cl_roomId c) cid message (route_settings_ready env cid message) s"
    using settings_ready_outcome [OF inv known] by (fastforce simp: outcome_ok_def)
  have settings: "outcome_ok (cl_roomId c) cid message (route_room_settings env cid message) s"
    using room_settings_outcome [OF known] by (fastforce simp: outcome_ok_def)
  have prefs: "act_seq (apply_preferences cid ''room_settings'' message) m s = m s" for m :: "unit relay_act"
    by (simp add: apply_preferences_def act_seq_def act_bind_def)
  show ?thesis
  proof (cases "type = ''settings_ready'' \<or> type = ''room_settings''")
    case True
    then show ?thesis using ready settings by (auto simp: route_member_def outcome_ok_def prefs)
  next
    case False
    then have "rooms_kept (route_member env cid type message)"
      by (simp add: route_member_def) (intro kept_intros impI conjI)
    then show ?thesis by (rule outcome_kept)
  qed
qed

text \<open>
  C18: settings change in two phases only.  When a client's message leaves a room with other settings,
  another generation or another pending change than before, it is the client's own room, and the
  message is either the owner's proposal, made while nothing was pending, which waits for every
  listed member, or the report of the only member still awaited, for the pending generation, which
  applies exactly the pending settings under the next generation.
\<close>

theorem settings_change_in_two_phases:
  assumes inv: "relay_inv s" and known: "map_of (rl_clients s) cid = Some c"
    and s': "s' = snd (route_message env cid message s)"
    and r: "map_of (rl_rooms s) rid = Some r" and r': "map_of (rl_rooms s') rid = Some r'"
    and changed: "settings_of r' \<noteq> settings_of r"
  shows "rid = cl_roomId c \<and> (proposes cid r r' \<or> commits cid message r r')"
proof -
  note errors = outcome_kept [OF kept_send(2)] outcome_kept [OF kept_reject]
  have "outcome_ok (cl_roomId c) cid message (route_message env cid message) s"
    unfolding route_message_def
    using outcome_member [OF inv known, of message env] errors outcome_kept [OF kept_auth_begin]
      outcome_settings [OF settings_hello]
    by (cases "value_string ''type'' [] message"; cases "tc_dump (re_codec env) message")
       (auto simp: outcome_ok_def lift_json_def act_bind_def split: prod.splits)
  then show ?thesis using r r' changed unfolding outcome_ok_def s' by blast
qed

definition ex_proposal :: json where
  "ex_proposal = JObj [(''settings'', JObj [(''pvp'', JBool True)]), (''type'', JStr ''room_settings'')]"

lemma ex_proposed:
  "map_option settings_of (map_of (rl_rooms (snd (route_message ex_env ''a'' ex_proposal ex_relay))) ''r'') =
   Some (True, True, False, True, False, 0, room_settings_json (ex_room\<lparr>rm_pvp := True\<rparr>))"
proof -
  have a: "client_of ''a'' ex_relay = ex_client ''a'' ''r''" by (simp add: client_of_def ex_relay_def)
  have room: "map_of (rl_rooms ex_relay) ''r'' = Some ex_room" by (simp add: ex_relay_def)
  have c: "cl_roomId (ex_client ''a'' ''r'') = ''r''" "rm_owner ex_room = ''a''" "rm_pending ex_room = JNull"
    by (simp_all add: ex_client_def ex_room_def new_room_def)
  have "apply_room_settings (JObj [(''pvp'', JBool True)]) ex_room = Some (ex_room\<lparr>rm_pvp := True\<rparr>)"
    by (simp add: apply_room_settings_def read_bool_def ex_room_def new_room_def)
  moreover have "route_message ex_env ''a'' ex_proposal ex_relay = route_room_settings ex_env ''a'' ex_proposal ex_relay"
    by (simp add: route_message_def ex_proposal_def j_value_def lift_json_def ex_env_def reliableJsonLimit_def a c
        route_member_def apply_preferences_def act_seq_def act_bind_def)
  moreover have "rl_rooms (snd (act_seq (send_json_ignored ex_env ''a'' m) (broadcast_from ex_env ''a'' m) s)) = rl_rooms s" for m s
    by (rule kept_run) (intro kept_intros)
  ultimately show ?thesis
    using room c
    by (simp add: route_room_settings_def a ex_proposal_def j_value_def lift_json_def Let_def settings_of_def
        ex_room_def new_room_def)
qed

lemma settings_change_in_two_phases_witness:
  "\<exists>r'. map_of (rl_rooms (snd (route_message ex_env ''a'' ex_proposal ex_relay))) ''r'' = Some r' \<and>
     (proposes ''a'' ex_room r' \<or> commits ''a'' ex_proposal ex_room r')"
proof -
  obtain r' where r': "map_of (rl_rooms (snd (route_message ex_env ''a'' ex_proposal ex_relay))) ''r'' = Some r'"
    and set: "settings_of r' = (True, True, False, True, False, 0, room_settings_json (ex_room\<lparr>rm_pvp := True\<rparr>))"
    using ex_proposed by auto
  have a: "map_of (rl_clients ex_relay) ''a'' = Some (ex_client ''a'' ''r'')" by (simp add: ex_relay_def)
  have room: "map_of (rl_rooms ex_relay) ''r'' = Some ex_room" by (simp add: ex_relay_def)
  have "rm_pending r' \<noteq> JNull" using set by (auto simp: settings_of_def room_settings_json_def j_obj_def)
  then have "settings_of r' \<noteq> settings_of ex_room" by (simp add: settings_of_def ex_room_def new_room_def)
  then show ?thesis
    using settings_change_in_two_phases [OF ex_relay_inv a refl room r'] r' by blast
qed

section \<open>Every report commits\<close>

text \<open>The members report one after the other, each in the state the one before left.\<close>

definition all_ready :: "relay_env \<Rightarrow> json \<Rightarrow> string list \<Rightarrow> relay \<Rightarrow> relay" where
  "all_ready env message cids s = fold (\<lambda>i s. snd (route_settings_ready env i message s)) cids s"

lemma stays_ready: "stays j (route_settings_ready env i message)"
  unfolding route_settings_ready_def Let_def
  by (intro stays_read) (auto split: option.splits intro!: stays_intros)

lemma ready_step:
  assumes "room_of i s = rid" and "map_of (rl_rooms s) rid = Some r" and "rm_pending r \<noteq> JNull"
    and "j_find ''generation'' message = Some (JUInt (unat (rm_generation r + 1)))"
  shows "map_of (rl_rooms (snd (route_settings_ready env i message s))) rid =
    Some (let q = r\<lparr>rm_waiting := filter (\<lambda>k. k \<noteq> i) (rm_waiting r)\<rparr>
          in if rm_waiting q = [] then commit_room q else q)"
  using assms by (simp add: route_settings_ready_def room_of_def is_null_iff finish_settings_rooms Let_def)

lemma ready_after:
  assumes "room_of i s = rid" and "map_of (rl_rooms s) rid = Some r" and "rm_pending r = JNull"
  shows "map_of (rl_rooms (snd (route_settings_ready env i message s))) rid = Some r"
  using assms by (simp add: route_settings_ready_def room_of_def)

lemma all_ready_after:
  "\<forall>i \<in> set cids. room_of i s = rid \<Longrightarrow> map_of (rl_rooms s) rid = Some r \<Longrightarrow> rm_pending r = JNull \<Longrightarrow>
   map_of (rl_rooms (all_ready env message cids s)) rid = Some r"
proof (induction cids arbitrary: s)
  case Nil
  then show ?case by (simp add: all_ready_def)
next
  case (Cons i cids)
  have "\<forall>j \<in> set cids. room_of j (snd (route_settings_ready env i message s)) = rid"
    using Cons.prems(1) stays_run [OF stays_ready] by simp
  from Cons.IH [OF this ready_after Cons.prems(3)] Cons.prems show ?case by (simp add: all_ready_def)
qed

text \<open>The switches of a room, and what a proposal becomes when it is applied to any room.\<close>

definition switches :: "room \<Rightarrow> bool \<times> bool \<times> bool \<times> bool \<times> bool" where
  "switches r = (rm_dummyModel r, rm_syncFlags r, rm_syncWorld r, rm_remoteCollision r, rm_pvp r)"

lemma proposal_applies:
  assumes "rm_pvp p \<longrightarrow> rm_remoteCollision p"
  shows "\<exists>q. apply_room_settings (room_settings_json p) r = Some q \<and> switches q = switches p"
  using assms
  by (auto simp: apply_room_settings_def room_settings_json_def read_bool_def j_find_j_obj switches_def)

lemma commit_switches:
  assumes "rm_pvp p \<longrightarrow> rm_remoteCollision p" and "rm_pending r = room_settings_json p"
  shows "switches (commit_room r) = switches p"
  using proposal_applies [OF assms(1), of r] assms(2) by (auto simp: commit_room_def switches_def)

text \<open>
  C19: when every member still awaited reports the pending generation, in any order and with any
  further reports in between, the change is committed: the room has exactly the settings the owner's
  proposal had when it was accepted, nothing is pending or awaited any more, and the generation is the
  next one.
\<close>

theorem all_reports_commit:
  assumes "map_of (rl_rooms s) rid = Some r" and "apply_room_settings settings before = Some p"
    and "rm_pending r = room_settings_json p" and "rm_waiting r \<noteq> []"
    and "set (rm_waiting r) \<subseteq> set cids" and "\<forall>i \<in> set cids. room_of i s = rid"
    and "j_find ''generation'' message = Some (JUInt (unat (rm_generation r + 1)))"
  shows "\<exists>r'. map_of (rl_rooms (all_ready env message cids s)) rid = Some r' \<and> switches r' = switches p \<and>
    rm_pending r' = JNull \<and> rm_waiting r' = [] \<and> rm_generation r' = rm_generation r + 1"
  using assms
proof (induction cids arbitrary: s r)
  case Nil
  then show ?case by simp
next
  case (Cons i cids)
  let ?s = "snd (route_settings_ready env i message s)"
  let ?q = "r\<lparr>rm_waiting := filter (\<lambda>k. k \<noteq> i) (rm_waiting r)\<rparr>"
  have run: "all_ready env message (i # cids) s = all_ready env message cids ?s" by (simp add: all_ready_def)
  have rooms: "\<forall>j \<in> set cids. room_of j ?s = rid"
    using Cons.prems(6) stays_run [OF stays_ready] by simp
  have pending: "rm_pending r \<noteq> JNull" using Cons.prems(3) by (auto simp: room_settings_json_def j_obj_def)
  have pvp: "rm_pvp p \<longrightarrow> rm_remoteCollision p" by (rule apply_room_settings_fields(11) [OF Cons.prems(2)])
  have step: "map_of (rl_rooms ?s) rid = Some (if rm_waiting ?q = [] then commit_room ?q else ?q)"
    using ready_step [of i s rid r message env] Cons.prems pending by (simp add: Let_def)
  show ?case
  proof (cases "rm_waiting ?q = []")
    case True
    then have "map_of (rl_rooms (all_ready env message cids ?s)) rid = Some (commit_room ?q)"
      using step by (intro all_ready_after [OF rooms]) simp_all
    moreover have "switches (commit_room ?q) = switches p" using commit_switches [OF pvp, of ?q] Cons.prems(3) by simp
    ultimately show ?thesis unfolding run using True by simp
  next
    case False
    then have "map_of (rl_rooms ?s) rid = Some ?q" using step by simp
    from Cons.IH [OF this Cons.prems(2)] False rooms Cons.prems show ?thesis unfolding run by auto
  qed
qed

text \<open>The proposal of the example before, reported by both members.\<close>

lemma all_reports_commit_witness:
  "\<exists>r'. map_of (rl_rooms (all_ready ex_env (JObj [(''generation'', JUInt 1)]) [''b'', ''a'']
       (upd_room ''r'' (\<lambda>r. r\<lparr>rm_pending := room_settings_json (ex_room\<lparr>rm_pvp := True\<rparr>), rm_waiting := [''a'', ''b'']\<rparr>)
          ex_relay))) ''r'' = Some r' \<and>
     rm_pvp r' \<and> rm_pending r' = JNull \<and> rm_generation r' = 1"
proof -
  let ?p = "ex_room\<lparr>rm_pvp := True\<rparr>"
  let ?s = "upd_room ''r'' (\<lambda>r. r\<lparr>rm_pending := room_settings_json ?p, rm_waiting := [''a'', ''b'']\<rparr>) ex_relay"
  have r: "map_of (rl_rooms ?s) ''r'' = Some (ex_room\<lparr>rm_pending := room_settings_json ?p, rm_waiting := [''a'', ''b'']\<rparr>)"
    by (simp add: ex_relay_def)
  have p: "apply_room_settings (JObj [(''pvp'', JBool True)]) ex_room = Some ?p"
    by (simp add: apply_room_settings_def read_bool_def ex_room_def new_room_def)
  have g: "rm_generation ex_room = 0" by (simp add: ex_room_def new_room_def)
  have "\<forall>i \<in> set [''b'', ''a'']. room_of i ?s = ''r''"
    by (simp add: room_of_def client_of_def ex_relay_def ex_client_def)
  from all_reports_commit [OF r p _ _ _ this, of "JObj [(''generation'', JUInt 1)]" ex_env]
  show ?thesis by (auto simp: g switches_def)
qed

end
