(* ===== verification/Udp_Packet.thy ===== *)
theory Udp_Packet
  imports Interfaces Json_Value Udp_Header
begin

text \<open>
  Realtime packets, \<open>src/net/udp_codec.cpp\<close>: the header checks, the fixed-size packets and their
  encoders, the splitting of a message into chunks with a parity chunk, and the builder that turns
  the parser's events into a value of bounded nesting.
\<close>

section \<open>Headers\<close>

definition inspect_header :: "bytes \<Rightarrow> udp_header option" where
  "inspect_header datagram =
     (if length datagram < kHeaderBytes then None
      else let header = read_header datagram in
        if uh_magic header \<noteq> udp_magic \<or> uh_version header \<noteq> 1 \<or> \<not> is_known_type (uh_type header) \<or>
           uh_headerSize header \<noteq> 58 \<or> uh_payloadSize header = 0 \<or> uh_chunkCount header = 0 \<or>
           uh_chunkIndex header > uh_chunkCount header \<or>
           uh_compressedSize header = 0 \<or> unat (uh_compressedSize header) > kMaxCompressedBytes \<or>
           uh_uncompressedSize header = 0 \<or> unat (uh_uncompressedSize header) > kMaxUncompressedBytes \<or>
           length datagram \<noteq> kHeaderBytes + unat (uh_payloadSize header)
        then None else Some header)"

definition message_flow_key :: "string \<Rightarrow> u8 \<Rightarrow> string" where
  "message_flow_key senderId type = senderId @ [CHR 0x1F] @ nat_dec (unat type)"

definition make_header :: "u8 \<Rightarrow> string \<Rightarrow> u32 \<Rightarrow> u16 \<Rightarrow> u16 \<Rightarrow> u32 \<Rightarrow> u32 \<Rightarrow> u16 \<Rightarrow> udp_header" where
  "make_header type senderId sequence chunkIndex chunkCount rawSize compressedSize payloadSize =
     \<lparr>uh_magic = udp_magic, uh_version = 1, uh_type = type, uh_headerSize = 58, uh_sequence = sequence,
      uh_chunkIndex = chunkIndex, uh_chunkCount = chunkCount, uh_uncompressedSize = rawSize,
      uh_compressedSize = compressedSize, uh_payloadSize = payloadSize, uh_senderId = copy_id senderId\<rparr>"

record datagram =
  dg_bytes :: bytes
  dg_type :: u8
  dg_sequence :: u32
  dg_chunkIndex :: u16
  dg_chunkCount :: u16
  dg_parity :: bool

definition empty_datagram :: datagram where
  "empty_datagram = \<lparr>dg_bytes = [], dg_type = PoseMsgpack, dg_sequence = 0, dg_chunkIndex = 0,
     dg_chunkCount = 0, dg_parity = False\<rparr>"

definition make_datagram :: "udp_header \<Rightarrow> bytes \<Rightarrow> datagram" where
  "make_datagram header payload =
     \<lparr>dg_bytes = header_bytes header @ payload, dg_type = uh_type header, dg_sequence = uh_sequence header,
      dg_chunkIndex = uh_chunkIndex header, dg_chunkCount = uh_chunkCount header,
      dg_parity = is_message_type (uh_type header) \<and> uh_chunkIndex header = uh_chunkCount header\<rparr>"

record datagram_info =
  di_type :: u8
  di_senderId :: string
  di_sequence :: u32

definition inspect_datagram :: "bytes \<Rightarrow> datagram_info option" where
  "inspect_datagram datagram =
     (case inspect_header datagram of
        None \<Rightarrow> None
      | Some h \<Rightarrow> Some \<lparr>di_type = uh_type h, di_senderId = read_id (uh_senderId h), di_sequence = uh_sequence h\<rparr>)"

definition peek_packet_type :: "bytes \<Rightarrow> u8 option" where
  "peek_packet_type datagram = map_option di_type (inspect_datagram datagram)"

section \<open>Fixed-size packets\<close>

text \<open>The packed structures; a \<open>float\<close> field is its four bytes.\<close>

record ack_packet =
  ap_sequence :: u32
  ap_ackedType :: u8
  ap_ackedSenderId :: bytes
  ap_stressFlags :: u8

definition ack_bytes :: "ack_packet \<Rightarrow> bytes" where
  "ack_bytes a = put_le (ucast (ap_sequence a)) 4 @ [ap_ackedType a] @ ap_ackedSenderId a @ [ap_stressFlags a]"

text \<open>A packet of the older version has no stress byte and leaves the zero of the structure.\<close>

definition read_ack :: "bytes \<Rightarrow> ack_packet" where
  "read_ack bs =
     \<lparr>ap_sequence = ucast (get_le (subspan 0 4 bs)), ap_ackedType = bs ! 4, ap_ackedSenderId = subspan 5 32 bs,
      ap_stressFlags = (if length bs > 37 then bs ! 37 else 0)\<rparr>"

record remote_object =
  ro_stageName :: bytes
  ro_sequence :: u32
  ro_objectId :: u32
  ro_x :: u32
  ro_y :: u32
  ro_z :: u32
  ro_angleY :: u16
  ro_exTime :: u16
  ro_room :: u8
  ro_objectKind :: u8
  ro_kind :: u8
  ro_flags :: u8

definition object_bytes :: "remote_object \<Rightarrow> bytes" where
  "object_bytes r = ro_stageName r @ put_le (ucast (ro_sequence r)) 4 @ put_le (ucast (ro_objectId r)) 4 @
     put_le (ucast (ro_x r)) 4 @ put_le (ucast (ro_y r)) 4 @ put_le (ucast (ro_z r)) 4 @
     put_le (ucast (ro_angleY r)) 2 @ put_le (ucast (ro_exTime r)) 2 @
     [ro_room r, ro_objectKind r, ro_kind r, ro_flags r]"

definition read_object :: "bytes \<Rightarrow> remote_object" where
  "read_object bs =
     \<lparr>ro_stageName = subspan 0 8 bs, ro_sequence = ucast (get_le (subspan 8 4 bs)),
      ro_objectId = ucast (get_le (subspan 12 4 bs)), ro_x = ucast (get_le (subspan 16 4 bs)),
      ro_y = ucast (get_le (subspan 20 4 bs)), ro_z = ucast (get_le (subspan 24 4 bs)),
      ro_angleY = ucast (get_le (subspan 28 2 bs)), ro_exTime = ucast (get_le (subspan 30 2 bs)),
      ro_room = bs ! 32, ro_objectKind = bs ! 33, ro_kind = bs ! 34, ro_flags = bs ! 35\<rparr>"

record voice_position =
  vp_stageName :: bytes
  vp_x :: u32
  vp_y :: u32
  vp_z :: u32
  vp_room :: u8

definition position_bytes :: "voice_position \<Rightarrow> bytes" where
  "position_bytes p = vp_stageName p @ put_le (ucast (vp_x p)) 4 @ put_le (ucast (vp_y p)) 4 @
     put_le (ucast (vp_z p)) 4 @ [vp_room p]"

definition read_position :: "bytes \<Rightarrow> voice_position" where
  "read_position bs =
     \<lparr>vp_stageName = subspan 0 8 bs, vp_x = ucast (get_le (subspan 8 4 bs)), vp_y = ucast (get_le (subspan 12 4 bs)),
      vp_z = ucast (get_le (subspan 16 4 bs)), vp_room = bs ! 20\<rparr>"

definition encode_ack :: "string \<Rightarrow> string \<Rightarrow> u8 \<Rightarrow> u32 \<Rightarrow> u8 \<Rightarrow> datagram" where
  "encode_ack senderId ackedSenderId ackedType sequence stressFlags =
     make_datagram (make_header PoseAck senderId sequence 0 1 38 38 38)
       (ack_bytes \<lparr>ap_sequence = sequence, ap_ackedType = ackedType, ap_ackedSenderId = copy_id ackedSenderId,
                   ap_stressFlags = stressFlags\<rparr>)"

definition encode_remote_object :: "string \<Rightarrow> remote_object \<Rightarrow> datagram" where
  "encode_remote_object senderId object =
     make_datagram (make_header RemoteObject senderId (ro_sequence object) 0 1 36 36 36) (object_bytes object)"

definition encode_relay_registration :: "string \<Rightarrow> string \<Rightarrow> datagram" where
  "encode_relay_registration clientId token =
     (if token = [] \<or> length token > kChunkPayloadBytes then empty_datagram
      else make_datagram (make_header RelayRegister clientId 0 0 1 (word_of_nat (length token))
             (word_of_nat (length token)) (word_of_nat (length token))) (str_bytes token))"

definition encode_voice :: "string \<Rightarrow> u32 \<Rightarrow> voice_position \<Rightarrow> bytes \<Rightarrow> datagram" where
  "encode_voice senderId sequence position opus =
     (if sequence = 0 \<or> opus = [] \<or> length opus > 400 then empty_datagram
      else let size = 21 + length opus in
        make_datagram (make_header VoiceOpus senderId sequence 0 1 (word_of_nat size) (word_of_nat size)
          (word_of_nat size)) (position_bytes position @ opus))"

section \<open>Values of bounded nesting\<close>

text \<open>
  The events of \<open>sax_parse\<close>, and the builder's state: the value and the path to the innermost open
  container.  The parser's callbacks for strings and keys own their text; binary values, which no
  pose holds, are left out.
\<close>

datatype sax_event =
    SaxNull
  | SaxBool bool
  | SaxInt int
  | SaxUInt nat
  | SaxFloat fl
  | SaxString string
  | SaxStartObject
  | SaxKey string
  | SaxEndObject
  | SaxStartArray
  | SaxEndArray

datatype path_step = Field string | Elem nat

record sax =
  sx_value :: json
  sx_parents :: "path_step list list"
  sx_key :: string

definition kMaxDepth :: nat where "kMaxDepth = 64"

fun value_at :: "path_step list \<Rightarrow> json \<Rightarrow> json" where
  "value_at [] v = v"
| "value_at (Field k # p) v = (case j_find k v of Some w \<Rightarrow> value_at p w | None \<Rightarrow> JNull)"
| "value_at (Elem i # p) (JArr vs) = (if i < length vs then value_at p (vs ! i) else JNull)"
| "value_at (Elem i # p) v = JNull"

fun set_at :: "path_step list \<Rightarrow> json \<Rightarrow> json \<Rightarrow> json" where
  "set_at [] new v = new"
| "set_at (Field k # p) new v = j_set k (set_at p new (case j_find k v of Some w \<Rightarrow> w | None \<Rightarrow> JNull)) v"
| "set_at (Elem i # p) new (JArr vs) =
     JArr (if i < length vs then vs[i := set_at p new (vs ! i)] else vs)"
| "set_at (Elem i # p) new v = v"

text \<open>\<open>add\<close>, with the path of the value that was added.\<close>

definition sax_add :: "json \<Rightarrow> sax \<Rightarrow> path_step list \<times> sax" where
  "sax_add input s =
     (case sx_parents s of
        [] \<Rightarrow> ([], s\<lparr>sx_value := input\<rparr>)
      | parent # _ \<Rightarrow>
          (case value_at parent (sx_value s) of
             JArr vs \<Rightarrow> (parent @ [Elem (length vs)], s\<lparr>sx_value := set_at parent (JArr (vs @ [input])) (sx_value s)\<rparr>)
           | w \<Rightarrow> (parent @ [Field (sx_key s)],
                   s\<lparr>sx_value := set_at parent (j_set (sx_key s) input w) (sx_value s)\<rparr>)))"

definition sax_open :: "json \<Rightarrow> sax \<Rightarrow> sax option" where
  "sax_open container s =
     (if length (sx_parents s) \<ge> kMaxDepth then None
      else case sax_add container s of (path, s') \<Rightarrow> Some (s'\<lparr>sx_parents := path # sx_parents s'\<rparr>))"

fun sax_step :: "sax_event \<Rightarrow> sax \<Rightarrow> sax option" where
  "sax_step SaxNull s = Some (snd (sax_add JNull s))"
| "sax_step (SaxBool b) s = Some (snd (sax_add (JBool b) s))"
| "sax_step (SaxInt i) s = Some (snd (sax_add (JInt i) s))"
| "sax_step (SaxUInt n) s = Some (snd (sax_add (JUInt n) s))"
| "sax_step (SaxFloat f) s = Some (snd (sax_add (JFloat f) s))"
| "sax_step (SaxString text) s = Some (snd (sax_add (JStr text) s))"
| "sax_step SaxStartObject s = sax_open (JObj []) s"
| "sax_step (SaxKey k) s = Some (s\<lparr>sx_key := k\<rparr>)"
| "sax_step SaxEndObject s = Some (s\<lparr>sx_parents := tl (sx_parents s)\<rparr>)"
| "sax_step SaxStartArray s = sax_open (JArr []) s"
| "sax_step SaxEndArray s = Some (s\<lparr>sx_parents := tl (sx_parents s)\<rparr>)"

fun sax_run :: "sax_event list \<Rightarrow> sax \<Rightarrow> sax option" where
  "sax_run [] s = Some s"
| "sax_run (e # es) s = (case sax_step e s of None \<Rightarrow> None | Some s' \<Rightarrow> sax_run es s')"

definition sax_start :: sax where
  "sax_start = \<lparr>sx_value = JNull, sx_parents = [], sx_key = []\<rparr>"

text \<open>How deep arrays and objects are nested.\<close>

fun json_depth :: "json \<Rightarrow> nat" where
  "json_depth (JArr vs) = Suc (fold max (map json_depth vs) 0)"
| "json_depth (JObj m) = Suc (fold max (map (\<lambda>(k, v). json_depth v) m) 0)"
| "json_depth _ = 0"

lemma fold_max_le: "fold max xs (a :: nat) \<le> b \<longleftrightarrow> a \<le> b \<and> (\<forall>x \<in> set xs. x \<le> b)"
  by (induction xs arbitrary: a) auto

lemma json_depth_arr: "json_depth (JArr vs) \<le> n \<longleftrightarrow> 0 < n \<and> (\<forall>v \<in> set vs. json_depth v < n)"
  by (cases n) (auto simp: fold_max_le less_Suc_eq_le)

lemma json_depth_obj: "json_depth (JObj m) \<le> n \<longleftrightarrow> 0 < n \<and> (\<forall>(k, v) \<in> set m. json_depth v < n)"
  by (cases n) (auto simp: fold_max_le less_Suc_eq_le)

declare json_depth.simps [simp del]

lemma json_depth_scalar [simp]:
  "json_depth JNull = 0" "json_depth (JBool b) = 0" "json_depth (JInt i) = 0" "json_depth (JUInt n) = 0"
  "json_depth (JFloat f) = 0" "json_depth (JStr text) = 0" "json_depth (JArr []) = 1" "json_depth (JObj []) = 1"
  by (simp_all add: json_depth.simps)

lemma json_depth_elem: "v \<in> set vs \<Longrightarrow> json_depth v < json_depth (JArr vs)"
  using json_depth_arr [of vs "json_depth (JArr vs)"] by simp

lemma json_depth_find: "j_find k v = Some w \<Longrightarrow> json_depth w < json_depth v"
  using json_depth_obj [of _ "json_depth v"]
  by (cases v) (auto dest!: map_of_SomeD)

lemma json_depth_j_set: "json_depth (j_set k new v) \<le> max (json_depth v) (Suc (json_depth new))"
proof (cases v)
  case (JObj m)
  have "json_depth u < max (json_depth v) (Suc (json_depth new))" if "(i, u) \<in> set (om_put k new m)" for i u
  proof -
    have "(i, u) = (k, new) \<or> (i, u) \<in> set m" using that set_om_put_subset by fastforce
    then show ?thesis using json_depth_obj [of m "json_depth v"] JObj by fastforce
  qed
  then show ?thesis unfolding JObj j_set_def json.case json_depth_obj using JObj by fastforce
qed (simp_all add: j_set_def)

lemma json_depth_value_at:
  "value_at p v = w \<Longrightarrow> w \<noteq> JNull \<Longrightarrow> length p + json_depth w \<le> json_depth v"
proof (induction p v rule: value_at.induct)
  case (2 k p v)
  then show ?case using json_depth_find [of k v] by (fastforce split: option.splits)
next
  case (3 i p vs)
  then show ?case using json_depth_elem [of "vs ! i" vs] by (fastforce split: if_splits)
qed simp_all

lemma json_depth_set_at: "json_depth (set_at p new v) \<le> max (json_depth v) (length p + json_depth new)"
proof (induction p new v rule: set_at.induct)
  case (2 k p new v)
  let ?w = "case j_find k v of Some w \<Rightarrow> w | None \<Rightarrow> JNull"
  have "Suc (json_depth ?w) \<le> max (json_depth v) 1"
    using json_depth_find [of k v] by (auto split: option.splits simp: less_eq_Suc_le)
  then show ?case using 2 json_depth_j_set [of k "set_at p new ?w" v] by simp
next
  case (3 i p new vs)
  have "json_depth x < max (json_depth (JArr vs)) (Suc (length p) + json_depth new)"
    if x: "x \<in> set (vs[i := set_at p new (vs ! i)])" and i: "i < length vs" for x
  proof -
    have "x \<in> set vs \<or> x = set_at p new (vs ! i)" using x set_update_subset_insert by fastforce
    then show ?thesis
    proof
      assume "x \<in> set vs"
      then show ?thesis using json_depth_elem [of x vs] by simp
    next
      assume "x = set_at p new (vs ! i)"
      then show ?thesis using json_depth_elem [of "vs ! i" vs] 3 [OF i] i by simp
    qed
  qed
  then show ?case using json_depth_arr [of "vs[i := set_at p new (vs ! i)]"]
    by (cases "i < length vs") (auto simp: max_def split: if_splits)
qed simp_all

text \<open>The open containers are nested one in the other, and never more than 64 of them.\<close>

definition sax_ok :: "sax \<Rightarrow> bool" where
  "sax_ok s \<longleftrightarrow> json_depth (sx_value s) \<le> kMaxDepth \<and> length (sx_parents s) \<le> kMaxDepth \<and>
     map length (sx_parents s) = rev [0..<length (sx_parents s)]"

lemma sax_add_ok:
  assumes ok: "sax_ok s" and input: "length (sx_parents s) + json_depth input \<le> kMaxDepth"
  shows "sax_ok (snd (sax_add input s)) \<and> sx_parents (snd (sax_add input s)) = sx_parents s \<and>
    length (fst (sax_add input s)) = length (sx_parents s)"
proof (cases "sx_parents s")
  case Nil
  then show ?thesis using assms by (simp add: sax_add_def sax_ok_def)
next
  case (Cons p ps)
  have len: "length p = length ps" using ok Cons by (simp add: sax_ok_def)
  let ?v = "sx_value s"
  have v: "json_depth ?v \<le> kMaxDepth" using ok by (simp add: sax_ok_def)
  have set: "json_depth (set_at p w ?v) \<le> kMaxDepth" if "length p + json_depth w \<le> kMaxDepth" for w
    using json_depth_set_at [of p w ?v] v that by linarith
  have arr: "length p + json_depth (JArr (vs @ [input])) \<le> kMaxDepth" if "value_at p ?v = JArr vs" for vs
  proof -
    have "length p + json_depth (JArr vs) \<le> kMaxDepth" using json_depth_value_at [OF that] v by simp
    moreover have "json_depth (JArr (vs @ [input])) \<le> max (json_depth (JArr vs)) (Suc (json_depth input))"
      using json_depth_arr [of "vs @ [input]"] json_depth_elem [of _ vs] by fastforce
    ultimately show ?thesis using input Cons len by simp
  qed
  have obj: "length p + json_depth (j_set k input w) \<le> kMaxDepth" if "value_at p ?v = w" for k w
  proof -
    have "length p + json_depth w \<le> kMaxDepth"
      using json_depth_value_at [OF that] v input Cons len by (cases "w = JNull") auto
    then show ?thesis using json_depth_j_set [of k input w] input Cons len by simp
  qed
  show ?thesis
    using Cons ok len set arr obj by (auto simp: sax_add_def sax_ok_def split: json.splits)
qed

lemma sax_step_ok: "sax_ok s \<Longrightarrow> sax_step e s = Some s' \<Longrightarrow> sax_ok s'"
proof -
  assume ok: "sax_ok s" and step: "sax_step e s = Some s'"
  have scalar: "sax_ok (snd (sax_add v s))" if "json_depth v = 0" for v
    using sax_add_ok [OF ok, of v] ok that by (simp add: sax_ok_def)
  have pop: "sax_ok (s\<lparr>sx_parents := tl (sx_parents s)\<rparr>)"
    using ok by (cases "sx_parents s") (auto simp: sax_ok_def)
  have opens: "sax_ok s'" if "sax_open c s = Some s'" "json_depth c = 1" for c
    using sax_add_ok [OF ok, of c] that
    by (auto simp: sax_open_def sax_ok_def split: if_splits prod.splits)
  show ?thesis using step scalar pop opens ok by (cases e) (auto simp: sax_ok_def)
qed

lemma sax_run_ok: "sax_ok s \<Longrightarrow> sax_run es s = Some s' \<Longrightarrow> sax_ok s'"
  by (induction es arbitrary: s) (auto split: option.splits dest: sax_step_ok)

section \<open>Messages in chunks\<close>

text \<open>
  The libraries: printing JSON and MessagePack, whose errors are exceptions, zstd, and the parser,
  which delivers its events and whether it met no error.
\<close>

record pose_codec =
  pc_text :: "json \<Rightarrow> json_error + bytes"
  pc_msgpack :: "json \<Rightarrow> json_error + bytes"
  pc_compress :: "bytes \<Rightarrow> bytes option"
  pc_decompress :: "nat \<Rightarrow> bytes \<Rightarrow> bytes option"
  pc_events :: "bool \<Rightarrow> bytes \<Rightarrow> sax_event list \<times> bool"

definition parse_pose :: "pose_codec \<Rightarrow> u8 \<Rightarrow> bytes \<Rightarrow> json option" where
  "parse_pose pc type raw =
     (case pc_events pc (type = PoseJson) raw of (events, good) \<Rightarrow>
        (case sax_run events sax_start of
           None \<Rightarrow> None
         | Some s \<Rightarrow> if good then Some (sx_value s) else None))"

definition chunk :: "nat \<Rightarrow> bytes \<Rightarrow> bytes" where
  "chunk i bs = take kChunkPayloadBytes (drop (i * kChunkPayloadBytes) bs)"

definition xor_bytes :: "bytes \<Rightarrow> bytes \<Rightarrow> bytes" where
  "xor_bytes a b = map2 (\<lambda>x y. x XOR y) a b"

text \<open>A chunk with the zeros the parity loop reads past the end.\<close>

definition padded :: "nat \<Rightarrow> bytes \<Rightarrow> bytes" where
  "padded i bs = chunk i bs @ replicate (kChunkPayloadBytes - length (chunk i bs)) 0"

definition parity_of :: "nat \<Rightarrow> bytes \<Rightarrow> bytes" where
  "parity_of n bs = fold (\<lambda>i p. xor_bytes p (padded i bs)) [0..<n] (replicate kChunkPayloadBytes 0)"

datatype encode_error = NotAMessage | Threw json_error | RawSize | CompressFailed | CompressedSize | ChunkCount

definition encode_raw :: "pose_codec \<Rightarrow> u8 \<Rightarrow> json \<Rightarrow> encode_error + bytes" where
  "encode_raw pc type message =
     (case (if type = PoseJson then pc_text pc message else pc_msgpack pc message) of
        Inl e \<Rightarrow> Inl (Threw e)
      | Inr raw \<Rightarrow> if raw = [] \<or> length raw > kMaxUncompressedBytes then Inl RawSize else Inr raw)"

definition compress_raw :: "pose_codec \<Rightarrow> bytes \<Rightarrow> encode_error + bytes" where
  "compress_raw pc raw =
     (case pc_compress pc raw of
        None \<Rightarrow> Inl CompressFailed
      | Some c \<Rightarrow> if c = [] \<or> length c > kMaxCompressedBytes then Inl CompressedSize else Inr c)"

definition message_sequence :: "json \<Rightarrow> encode_error + u32" where
  "message_sequence message =
     (if is_object message
      then (case j_value get_uint32 ''sequence'' 0 message of Inl e \<Rightarrow> Inl (Threw e) | Inr q \<Rightarrow> Inr q)
      else Inr 0)"

definition chunk_header :: "u8 \<Rightarrow> string \<Rightarrow> u32 \<Rightarrow> nat \<Rightarrow> nat \<Rightarrow> nat \<Rightarrow> nat \<Rightarrow> nat \<Rightarrow> udp_header" where
  "chunk_header type senderId sequence rawSize compressedSize n i payload =
     make_header type senderId sequence (word_of_nat i) (word_of_nat n) (word_of_nat rawSize)
       (word_of_nat compressedSize) (word_of_nat payload)"

definition chunk_datagram :: "u8 \<Rightarrow> string \<Rightarrow> u32 \<Rightarrow> nat \<Rightarrow> bytes \<Rightarrow> nat \<Rightarrow> nat \<Rightarrow> datagram" where
  "chunk_datagram type senderId sequence rawSize compressed n i =
     (let payload = (if i = n then parity_of n compressed else chunk i compressed)
      in make_datagram (chunk_header type senderId sequence rawSize (length compressed) n i (length payload)) payload)"

definition encode_message :: "pose_codec \<Rightarrow> json \<Rightarrow> string \<Rightarrow> u8 \<Rightarrow> encode_error + datagram list" where
  "encode_message pc message senderId type =
     (if \<not> is_message_type type then Inl NotAMessage
      else try_bind (encode_raw pc type message) (\<lambda>raw.
      try_bind (compress_raw pc raw) (\<lambda>compressed.
      try_bind (message_sequence message) (\<lambda>sequence.
      let n = (length compressed + kChunkPayloadBytes - 1) div kChunkPayloadBytes in
      if n = 0 \<or> n > 65535 then Inl ChunkCount
      else Inr (map (chunk_datagram type senderId sequence (length raw) compressed n)
             ([0..<n] @ (if n > 1 then [n] else [])))))))"

text \<open>
  a pose value built from a peer's bytes is nested at most 64 deep, whatever events its parser
  delivers.
\<close>

theorem pose_nesting_bounded:
  "pred_option (\<lambda>v. json_depth v \<le> 64) (parse_pose pc type raw)"
proof -
  have start: "sax_ok sax_start" by (simp add: sax_ok_def sax_start_def)
  obtain es good where es: "pc_events pc (type = PoseJson) raw = (es, good)" by fastforce
  show ?thesis
  proof (cases "sax_run es sax_start")
    case None
    then show ?thesis by (simp add: parse_pose_def es)
  next
    case (Some s)
    have "json_depth (sx_value s) \<le> 64" using sax_run_ok [OF start Some] by (simp add: sax_ok_def kMaxDepth_def)
    then show ?thesis using Some by (simp add: parse_pose_def es)
  qed
qed

end
