(* ===== verification/Udp_Decoder.thy ===== *)
theory Udp_Decoder
  imports Udp_Packet
begin

text \<open>
  The receiver of realtime packets, \<open>Decoder\<close> of \<open>src/net/udp_codec.cpp\<close>: the fixed-size packets, the
  reassembly of messages with recovery from the parity chunk, and the commit or discard of a message.
  A write outside the reassembly buffer has no result in C++; it is the result \<open>None\<close> of \<open>accept\<close>.
\<close>

section \<open>State and results\<close>

record reassembly =
  rs_sequence :: u32
  rs_chunkCount :: u16
  rs_uncompressedSize :: u32
  rs_compressedSize :: u32
  rs_receivedCount :: u16
  rs_compressed :: bytes
  rs_received :: "bool list"
  rs_parity :: bytes
  rs_parityReceived :: bool

record decoder =
  dc_reassemblies :: "(string, (u32, reassembly) omap) omap"
  dc_lastProcessed :: "(string, u32) omap"
  dc_pendingStress :: "(string, u8) omap"

definition decoder_reset :: "decoder \<Rightarrow> decoder" where
  "decoder_reset dc = dc\<lparr>dc_reassemblies := [], dc_lastProcessed := [], dc_pendingStress := []\<rparr>"

definition decoder_start :: decoder where
  "decoder_start = \<lparr>dc_reassemblies = [], dc_lastProcessed = [], dc_pendingStress = []\<rparr>"

record commit_token =
  ct_senderId :: string
  ct_type :: u8
  ct_sequence :: u32
  ct_stressFlags :: u8
  ct_valid :: bool

text \<open>\<open>DecodeResult\<close>, tagged by its kind; every kind has the sender and the sequence of the header.\<close>

datatype decode_result =
    DNone
  | DMessage string u8 u32 u8 json commit_token
  | DAck string u32 ack_packet
  | DRemoteObject string u32 remote_object
  | DVoice string u32 voice_position bytes
  | DRelayRegistration string u32 string

definition AckParityRecovered :: u8 where "AckParityRecovered = 1"
definition AckSequenceGap :: u8 where "AckSequenceGap = 2"
definition AckReassemblyEvicted :: u8 where "AckReassemblyEvicted = 4"

section \<open>Fixed-size packets\<close>

definition one_chunk :: "udp_header \<Rightarrow> bool" where
  "one_chunk h \<longleftrightarrow> uh_chunkIndex h = 0 \<and> uh_chunkCount h = 1 \<and>
     uh_uncompressedSize h = ucast (uh_payloadSize h) \<and> uh_compressedSize h = ucast (uh_payloadSize h)"

definition accept_registration :: "udp_header \<Rightarrow> bytes \<Rightarrow> decode_result" where
  "accept_registration h payload =
     (if one_chunk h then DRelayRegistration (read_id (uh_senderId h)) (uh_sequence h) (bytes_str payload) else DNone)"

definition accept_ack :: "udp_header \<Rightarrow> bytes \<Rightarrow> decode_result" where
  "accept_ack h payload =
     (let legacy = (uh_payloadSize h = 37); ack = read_ack payload in
      if \<not> one_chunk h \<or> \<not> legacy \<and> uh_payloadSize h \<noteq> 38 then DNone
      else if ap_ackedType ack \<noteq> PoseMsgpack \<and> ap_ackedType ack \<noteq> SemanticPoseMsgpack \<and>
              ap_ackedType ack \<noteq> MidnaMsgpack then DNone
      else DAck (read_id (uh_senderId h)) (uh_sequence h) ack)"

definition accept_remote_object :: "udp_header \<Rightarrow> bytes \<Rightarrow> decode_result" where
  "accept_remote_object h payload =
     (if \<not> one_chunk h \<or> uh_payloadSize h \<noteq> 36 then DNone
      else DRemoteObject (read_id (uh_senderId h)) (uh_sequence h) (read_object payload))"

definition accept_voice :: "udp_header \<Rightarrow> bytes \<Rightarrow> decode_result" where
  "accept_voice h payload =
     (if uh_sequence h = 0 \<or> \<not> one_chunk h \<or> uh_payloadSize h \<le> 21 \<or> uh_payloadSize h > 421 then DNone
      else let position = read_position payload in
        if 0 \<notin> set (vp_stageName position) then DNone
        else DVoice (read_id (uh_senderId h)) (uh_sequence h) position (drop 21 payload))"

section \<open>Reassembly\<close>

definition flow_of :: "string \<Rightarrow> decoder \<Rightarrow> (u32, reassembly) omap" where
  "flow_of key dc = om_get [] key (dc_reassemblies dc)"

definition set_flow :: "string \<Rightarrow> (u32, reassembly) omap \<Rightarrow> decoder \<Rightarrow> decoder" where
  "set_flow key flow dc = dc\<lparr>dc_reassemblies := om_put key flow (dc_reassemblies dc)\<rparr>"

definition erase_sequence :: "string \<Rightarrow> u32 \<Rightarrow> decoder \<Rightarrow> decoder" where
  "erase_sequence key q dc = set_flow key (om_erase q (flow_of key dc)) dc"

definition add_stress :: "string \<Rightarrow> u8 \<Rightarrow> decoder \<Rightarrow> decoder" where
  "add_stress key flags dc =
     dc\<lparr>dc_pendingStress := om_put key (om_get 0 key (dc_pendingStress dc) OR flags) (dc_pendingStress dc)\<rparr>"

text \<open>Making room: the oldest sequences go while eight are held.\<close>

fun evict :: "string \<Rightarrow> (u32, reassembly) omap \<Rightarrow> decoder \<Rightarrow> decoder" where
  "evict key [] dc = set_flow key [] dc"
| "evict key (x # flow) dc =
     (if length (x # flow) \<ge> kMaxInflightSequences then evict key flow (add_stress key AckReassemblyEvicted dc)
      else set_flow key (x # flow) dc)"

definition new_reassembly :: "udp_header \<Rightarrow> reassembly" where
  "new_reassembly h =
     \<lparr>rs_sequence = uh_sequence h, rs_chunkCount = uh_chunkCount h, rs_uncompressedSize = uh_uncompressedSize h,
      rs_compressedSize = uh_compressedSize h, rs_receivedCount = 0,
      rs_compressed = replicate (unat (uh_compressedSize h)) 0,
      rs_received = replicate (unat (uh_chunkCount h)) False, rs_parity = [], rs_parityReceived = False\<rparr>"

definition open_reassembly :: "udp_header \<Rightarrow> string \<Rightarrow> decoder \<Rightarrow> reassembly \<times> decoder" where
  "open_reassembly h key dc =
     (case map_of (flow_of key dc) (uh_sequence h) of
        Some state \<Rightarrow> (state, set_flow key (flow_of key dc) dc)
      | None \<Rightarrow>
          let dc' = evict key (flow_of key dc) dc
          in (new_reassembly h, set_flow key (om_put (uh_sequence h) (new_reassembly h) (flow_of key dc')) dc'))"

definition write_at :: "nat \<Rightarrow> bytes \<Rightarrow> bytes \<Rightarrow> bytes" where
  "write_at off source target = take off target @ source @ drop (off + length source) target"

text \<open>A chunk is stored, or refused without a trace.\<close>

definition store_chunk :: "udp_header \<Rightarrow> bytes \<Rightarrow> reassembly \<Rightarrow> reassembly option" where
  "store_chunk h payload state =
     (if uh_chunkIndex h = uh_chunkCount h then
        (if unat (uh_payloadSize h) \<noteq> kChunkPayloadBytes then None
         else Some (state\<lparr>rs_parity := payload, rs_parityReceived := True\<rparr>))
      else
        let index = unat (uh_chunkIndex h); off = index * kChunkPayloadBytes in
        if off + unat (uh_payloadSize h) > length (rs_compressed state) then None
        else Some (state\<lparr>
          rs_receivedCount := (if rs_received state ! index then rs_receivedCount state else rs_receivedCount state + 1),
          rs_received := (rs_received state)[index := True],
          rs_compressed := write_at off payload (rs_compressed state)\<rparr>))"

text \<open>
  The recovery of the missing chunk from the parity.  The size of the copy is computed as a
  \<open>size_t\<close>: when the chunk starts beyond the buffer it wraps around to a full chunk, and the copy
  leaves the buffer.
\<close>

definition missing_chunk :: "reassembly \<Rightarrow> nat" where
  "missing_chunk state = length (takeWhile (\<lambda>r. r) (rs_received state))"

definition recovered_chunk :: "reassembly \<Rightarrow> bytes" where
  "recovered_chunk state =
     fold (\<lambda>i p. if i = missing_chunk state then p else xor_bytes p (padded i (rs_compressed state)))
       [0..<unat (rs_chunkCount state)] (rs_parity state)"

definition recover :: "reassembly \<Rightarrow> reassembly option" where
  "recover state =
     (let missing = missing_chunk state; off = missing * kChunkPayloadBytes in
      if off > length (rs_compressed state) then None
      else let size = min kChunkPayloadBytes (length (rs_compressed state) - off) in
        Some (state\<lparr>rs_compressed := write_at off (take size (recovered_chunk state)) (rs_compressed state),
                    rs_received := (rs_received state)[missing := True],
                    rs_receivedCount := rs_receivedCount state + 1\<rparr>))"

text \<open>A complete message: decompressed, parsed and handed out, or dropped.\<close>

definition finish_message ::
  "pose_codec \<Rightarrow> udp_header \<Rightarrow> string \<Rightarrow> reassembly \<Rightarrow> u8 \<Rightarrow> decoder \<Rightarrow> decode_result \<times> decoder" where
  "finish_message pc h key state stress dc =
     (let dropped = (DNone, erase_sequence key (uh_sequence h) dc) in
      case pc_decompress pc (unat (rs_uncompressedSize state)) (rs_compressed state) of
        None \<Rightarrow> dropped
      | Some raw \<Rightarrow>
          if length raw \<noteq> unat (rs_uncompressedSize state) then dropped
          else (case parse_pose pc (uh_type h) raw of
            None \<Rightarrow> dropped
          | Some message \<Rightarrow>
              if \<not> is_object message then dropped
              else
                let gap = (case map_of (dc_lastProcessed dc) key of
                             None \<Rightarrow> False | Some prev \<Rightarrow> uh_sequence h > prev + 1);
                    flags = (if gap then stress OR AckSequenceGap else stress);
                    sender = read_id (uh_senderId h)
                in (DMessage sender (uh_type h) (uh_sequence h) flags message
                      \<lparr>ct_senderId = sender, ct_type = uh_type h, ct_sequence = uh_sequence h,
                       ct_stressFlags = flags, ct_valid = True\<rparr>,
                    erase_sequence key (uh_sequence h) dc)))"

definition put_state :: "string \<Rightarrow> u32 \<Rightarrow> reassembly \<Rightarrow> decoder \<Rightarrow> decoder" where
  "put_state key q state dc = set_flow key (om_put q state (flow_of key dc)) dc"

text \<open>The message may now be complete, or complete but for one chunk the parity recovers.\<close>

definition after_chunk ::
  "pose_codec \<Rightarrow> udp_header \<Rightarrow> string \<Rightarrow> reassembly \<Rightarrow> decoder \<Rightarrow> (decode_result \<times> decoder) option" where
  "after_chunk pc h key state dc =
     (let stress = om_get 0 key (dc_pendingStress dc) in
      if rs_receivedCount state = rs_chunkCount state then Some (finish_message pc h key state stress dc)
      else if \<not> rs_parityReceived state \<or> unat (rs_receivedCount state) + 1 \<noteq> unat (rs_chunkCount state)
      then Some (DNone, dc)
      else if missing_chunk state \<ge> unat (rs_chunkCount state) then Some (DNone, dc)
      else (case recover state of
              None \<Rightarrow> None
            | Some state' \<Rightarrow>
                Some (finish_message pc h key state' (stress OR AckParityRecovered)
                        (put_state key (uh_sequence h) state' dc))))"

definition stale :: "udp_header \<Rightarrow> string \<Rightarrow> decoder \<Rightarrow> bool" where
  "stale h key dc =
     (case map_of (dc_lastProcessed dc) key of None \<Rightarrow> False | Some prev \<Rightarrow> uh_sequence h \<le> prev)"

definition accept_message ::
  "pose_codec \<Rightarrow> udp_header \<Rightarrow> bytes \<Rightarrow> decoder \<Rightarrow> (decode_result \<times> decoder) option" where
  "accept_message pc h payload dc =
     (let key = message_flow_key (read_id (uh_senderId h)) (uh_type h) in
      if stale h key dc then Some (DNone, dc)
      else
        let (state, dc1) = open_reassembly h key dc in
        if rs_chunkCount state \<noteq> uh_chunkCount h \<or> rs_uncompressedSize state \<noteq> uh_uncompressedSize h \<or>
           rs_compressedSize state \<noteq> uh_compressedSize h
        then Some (DNone, erase_sequence key (uh_sequence h) dc1)
        else (case store_chunk h payload state of
                None \<Rightarrow> Some (DNone, dc1)
              | Some state' \<Rightarrow>
                  after_chunk pc h key state' (add_stress key 0 (put_state key (uh_sequence h) state' dc1))))"

definition accept :: "pose_codec \<Rightarrow> bytes \<Rightarrow> decoder \<Rightarrow> (decode_result \<times> decoder) option" where
  "accept pc datagram dc =
     (case inspect_header datagram of
        None \<Rightarrow> Some (DNone, dc)
      | Some h \<Rightarrow>
          let payload = drop kHeaderBytes datagram in
          if uh_type h = RelayRegister then Some (accept_registration h payload, dc)
          else if uh_type h = PoseAck then Some (accept_ack h payload, dc)
          else if uh_type h = RemoteObject then Some (accept_remote_object h payload, dc)
          else if uh_type h = VoiceOpus then Some (accept_voice h payload, dc)
          else if \<not> is_message_type (uh_type h) then Some (DNone, dc)
          else accept_message pc h payload dc)"

section \<open>Commit and discard\<close>

definition commit_message :: "commit_token \<Rightarrow> decoder \<Rightarrow> decoder" where
  "commit_message token dc =
     (if \<not> ct_valid token then dc
      else
        let key = message_flow_key (ct_senderId token) (ct_type token);
            dc1 = (if (case map_of (dc_lastProcessed dc) key of None \<Rightarrow> True | Some prev \<Rightarrow> ct_sequence token > prev)
                   then dc\<lparr>dc_lastProcessed := om_put key (ct_sequence token) (dc_lastProcessed dc)\<rparr> else dc);
            dc2 = dc1\<lparr>dc_pendingStress := om_put key 0 (dc_pendingStress dc1)\<rparr>
        in case map_of (dc_reassemblies dc2) key of
             None \<Rightarrow> dc2
           | Some flow \<Rightarrow>
               let rest = dropWhile (\<lambda>(q, _). q \<le> ct_sequence token) flow in
               if rest = [] then dc2\<lparr>dc_reassemblies := om_erase key (dc_reassemblies dc2)\<rparr>
               else set_flow key rest dc2)"

definition discard_message :: "commit_token \<Rightarrow> decoder \<Rightarrow> decoder" where
  "discard_message token dc =
     (if \<not> ct_valid token then dc
      else add_stress (message_flow_key (ct_senderId token) (ct_type token)) (ct_stressFlags token) dc)"

end
