(* ===== verification/Udp_Recovery.thy ===== *)
theory Udp_Recovery
  imports Udp_Reassembly
begin

text \<open>
  The erasure code of the realtime messages: a message of n chunks, n more than one, is sent with
  one parity chunk, and any n of the n + 1 datagrams, in any order, restore it.
\<close>

section \<open>Chunks and parity\<close>

lemma length_chunk: "length (chunk i c) = min kChunkPayloadBytes (length c - i * kChunkPayloadBytes)"
  by (simp add: chunk_def)

lemma nth_chunk: "k < length (chunk i c) \<Longrightarrow> chunk i c ! k = c ! (i * kChunkPayloadBytes + k)"
  by (simp add: length_chunk) (simp add: chunk_def less_diff_conv add.commute)

definition byte_at :: "bytes \<Rightarrow> nat \<Rightarrow> nat \<Rightarrow> u8" where
  "byte_at c i k = (if i * kChunkPayloadBytes + k < length c then c ! (i * kChunkPayloadBytes + k) else 0)"

lemma length_padded [simp]: "length (padded i c) = kChunkPayloadBytes"
  by (simp add: padded_def length_chunk)

lemma nth_padded: "k < kChunkPayloadBytes \<Longrightarrow> padded i c ! k = byte_at c i k"
  by (auto simp: padded_def nth_append length_chunk nth_chunk byte_at_def)

lemma length_xor_bytes [simp]: "length (xor_bytes a b) = min (length a) (length b)"
  by (simp add: xor_bytes_def)

lemma nth_xor_bytes: "k < length a \<Longrightarrow> k < length b \<Longrightarrow> xor_bytes a b ! k = a ! k XOR b ! k"
  by (simp add: xor_bytes_def)

text \<open>Folding chunks into a chunk is folding bytes into each byte.\<close>

lemma fold_xor_length:
  "length p = kChunkPayloadBytes \<Longrightarrow>
   length (fold (\<lambda>i p. if i = m then p else xor_bytes p (padded i c)) xs p) = kChunkPayloadBytes"
  by (induction xs arbitrary: p) auto

lemma fold_xor_nth:
  "length p = kChunkPayloadBytes \<Longrightarrow> k < kChunkPayloadBytes \<Longrightarrow>
   fold (\<lambda>i p. if i = m then p else xor_bytes p (padded i c)) xs p ! k =
   fold (\<lambda>i v. if i = m then v else v XOR byte_at c i k) xs (p ! k)"
  by (induction xs arbitrary: p) (auto simp: nth_xor_bytes nth_padded)

lemma fold_xor_shift:
  "fold (\<lambda>i v. if P i then v else v XOR f i) xs (a XOR b) = fold (\<lambda>i v. if P i then v else v XOR f i) xs a XOR (b :: 'a :: len word)"
  by (induction xs arbitrary: a b) (auto simp: xor.assoc xor.commute xor.left_commute)

lemma fold_xor_skip:
  "distinct xs \<Longrightarrow> m \<in> set xs \<Longrightarrow>
   fold (\<lambda>i v. v XOR f i) xs a = fold (\<lambda>i v. if i = m then v else v XOR f i) xs a XOR (f m :: 'a :: len word)"
proof (induction xs arbitrary: a)
  case Nil
  then show ?case by simp
next
  case (Cons x xs)
  show ?case
  proof (cases "x = m")
    case True
    then have "fold (\<lambda>i v. v XOR f i) xs b = fold (\<lambda>i v. if i = m then v else v XOR f i) xs b" for b
      using Cons.prems(1) by (intro fold_cong) auto
    then show ?thesis using True fold_xor_shift [of "\<lambda>i. i = m" f xs a "f m"] by simp
  next
    case False
    then show ?thesis using Cons by simp
  qed
qed

lemma parity_as_skip:
  "parity_of n c = fold (\<lambda>i p. if i = n then p else xor_bytes p (padded i c)) [0..<n] (replicate kChunkPayloadBytes 0)"
  unfolding parity_of_def by (intro fold_cong) auto

lemma length_parity [simp]: "length (parity_of n c) = kChunkPayloadBytes"
  unfolding parity_as_skip by (rule fold_xor_length) simp

lemma nth_parity:
  assumes "k < kChunkPayloadBytes"
  shows "parity_of n c ! k = fold (\<lambda>i v. v XOR byte_at c i k) [0..<n] 0"
proof -
  have "fold (\<lambda>i v. if i = n then v else v XOR byte_at c i k) [0..<n] 0 =
      fold (\<lambda>i v. v XOR byte_at c i k) [0..<n] 0"
    by (intro fold_cong) auto
  then show ?thesis
    using assms fold_xor_nth [of "replicate kChunkPayloadBytes 0" k n c "[0..<n]"] by (simp add: parity_as_skip)
qed

section \<open>A buffer that holds some chunks\<close>

text \<open>The chunks of \<open>S\<close>, and zeros for the others.\<close>

definition masked :: "nat set \<Rightarrow> bytes \<Rightarrow> bytes" where
  "masked S c = map (\<lambda>j. if j div kChunkPayloadBytes \<in> S then c ! j else 0) [0..<length c]"

lemma length_masked [simp]: "length (masked S c) = length c"
  by (simp add: masked_def)

lemma nth_masked: "j < length c \<Longrightarrow> masked S c ! j = (if j div kChunkPayloadBytes \<in> S then c ! j else 0)"
  by (simp add: masked_def)

lemma masked_empty: "masked {} c = replicate (length c) 0"
  by (simp add: masked_def map_replicate_const)

lemma length_write_at: "off + length src \<le> length tgt \<Longrightarrow> length (write_at off src tgt) = length tgt"
  by (simp add: write_at_def)

lemma nth_write_at:
  "off + length src \<le> length tgt \<Longrightarrow> j < length tgt \<Longrightarrow>
   write_at off src tgt ! j = (if off \<le> j \<and> j < off + length src then src ! (j - off) else tgt ! j)"
  by (auto simp: write_at_def nth_append min_def)

lemma in_chunk:
  assumes "j < length c"
  shows "i * kChunkPayloadBytes \<le> j \<and> j < i * kChunkPayloadBytes + length (chunk i c) \<longleftrightarrow> j div kChunkPayloadBytes = i"
proof -
  have "i * 1100 \<le> j \<and> j < i * 1100 + 1100 \<longleftrightarrow> j div 1100 = i" by auto
  then show ?thesis using assms by (auto simp: length_chunk kChunkPayloadBytes_def)
qed

lemma write_chunk:
  assumes "i * kChunkPayloadBytes \<le> length c"
  shows "write_at (i * kChunkPayloadBytes) (chunk i c) (masked S c) = masked (insert i S) c"
proof (rule nth_equalityI)
  have fits: "i * kChunkPayloadBytes + length (chunk i c) \<le> length (masked S c)" using assms by (simp add: length_chunk)
  show "length (write_at (i * kChunkPayloadBytes) (chunk i c) (masked S c)) = length (masked (insert i S) c)"
    using length_write_at [OF fits] by simp
  fix j assume "j < length (write_at (i * kChunkPayloadBytes) (chunk i c) (masked S c))"
  then have j: "j < length c" using length_write_at [OF fits] by simp
  show "write_at (i * kChunkPayloadBytes) (chunk i c) (masked S c) ! j = masked (insert i S) c ! j"
  proof (cases "j div kChunkPayloadBytes = i")
    case True
    then have b: "i * kChunkPayloadBytes \<le> j" "j < i * kChunkPayloadBytes + length (chunk i c)"
      using in_chunk [OF j, of i] by blast+
    then have "j - i * kChunkPayloadBytes < length (chunk i c)" by linarith
    then show ?thesis
      using nth_write_at [OF fits, of j] b j True by (simp add: nth_masked nth_chunk)
  next
    case False
    then show ?thesis
      using nth_write_at [OF fits, of j] in_chunk [OF j, of i] j by (simp add: nth_masked)
  qed
qed

lemma byte_at_masked: "k < kChunkPayloadBytes \<Longrightarrow> byte_at (masked S c) i k = (if i \<in> S then byte_at c i k else 0)"
proof -
  assume k: "k < kChunkPayloadBytes"
  then have "(i * kChunkPayloadBytes + k) div kChunkPayloadBytes = i" by (simp add: kChunkPayloadBytes_def)
  then show ?thesis by (simp add: byte_at_def nth_masked)
qed

text \<open>The parity and all chunks but one give the missing one.\<close>

lemma recover_missing:
  assumes m: "m < n" and S: "S \<inter> {..<n} = {..<n} - {m}"
  shows "take (length (chunk m c)) (fold (\<lambda>i p. if i = m then p else xor_bytes p (padded i (masked S c))) [0..<n] (parity_of n c)) = chunk m c"
    (is "take _ ?r = _")
proof (rule nth_equalityI)
  have len: "length ?r = kChunkPayloadBytes" by (simp add: fold_xor_length)
  then show "length (take (length (chunk m c)) ?r) = length (chunk m c)" by (simp add: length_chunk)
  fix k assume "k < length (take (length (chunk m c)) ?r)"
  then have k: "k < length (chunk m c)" "k < kChunkPayloadBytes" using len by (auto simp: length_chunk)
  have others: "i \<in> S" if "i < n" "i \<noteq> m" for i using S that by blast
  have "fold (\<lambda>i v. if i = m then v else v XOR byte_at (masked S c) i k) [0..<n] a =
      fold (\<lambda>i v. if i = m then v else v XOR byte_at c i k) [0..<n] a" for a
    by (rule fold_cong) (auto simp: byte_at_masked [OF k(2)] others)
  then have "?r ! k = fold (\<lambda>i v. if i = m then v else v XOR byte_at c i k) [0..<n] (parity_of n c ! k)"
    unfolding fold_xor_nth [OF length_parity k(2)] .
  also have "\<dots> = fold (\<lambda>i v. if i = m then v else v XOR byte_at c i k) [0..<n]
      (0 XOR fold (\<lambda>i v. v XOR byte_at c i k) [0..<n] 0)"
    by (simp add: nth_parity [OF k(2)])
  also have "\<dots> = fold (\<lambda>i v. if i = m then v else v XOR byte_at c i k) [0..<n] 0 XOR
      (fold (\<lambda>i v. if i = m then v else v XOR byte_at c i k) [0..<n] 0 XOR byte_at c m k)"
    using fold_xor_skip [of "[0..<n]" m "\<lambda>i. byte_at c i k" 0] m by (subst fold_xor_shift) simp
  also have "\<dots> = byte_at c m k" by (simp flip: xor.assoc)
  also have "\<dots> = chunk m c ! k"
  proof -
    have "m * kChunkPayloadBytes + k < length c" using k(1) unfolding length_chunk by linarith
    then show ?thesis using k(1) by (simp add: nth_chunk byte_at_def)
  qed
  finally show "take (length (chunk m c)) ?r ! k = chunk m c ! k" using k by simp
qed

end
