(* ===== verification/Udp_Delivery.thy ===== *)
theory Udp_Delivery
  imports Udp_Recovery
begin

text \<open>
  A message sent as n chunks, and a parity chunk when n is more than one, reaches the receiver:
  any n of its datagrams, in any order, deliver it, at the last of them.
\<close>

section \<open>The datagrams of a message\<close>

definition chunks_of :: "bytes \<Rightarrow> nat" where
  "chunks_of c = (length c + kChunkPayloadBytes - 1) div kChunkPayloadBytes"

lemma chunks_bounds: "length c \<le> chunks_of c * 1100" "chunks_of c * 1100 < length c + 1100"
proof -
  have n: "chunks_of c = (length c + 1099) div 1100" by (simp add: chunks_of_def kChunkPayloadBytes_def)
  have "chunks_of c * 1100 + (length c + 1099) mod 1100 = length c + 1099" unfolding n by (rule div_mult_mod_eq)
  moreover have "(length c + 1099) mod 1100 < 1100" by simp
  ultimately show "length c \<le> chunks_of c * 1100" "chunks_of c * 1100 < length c + 1100" by linarith+
qed

lemma chunks_cover:
  assumes "c \<noteq> []"
  shows "0 < chunks_of c" "length c \<le> chunks_of c * kChunkPayloadBytes"
    "i < chunks_of c \<Longrightarrow> i * kChunkPayloadBytes < length c"
proof -
  have c: "0 < length c" using assms by simp
  show "0 < chunks_of c" "length c \<le> chunks_of c * kChunkPayloadBytes"
    using c chunks_bounds [of c] by (cases "chunks_of c"; simp add: kChunkPayloadBytes_def del: length_greater_0_conv)+
  assume "i < chunks_of c"
  then have "i * 1100 + 1100 \<le> chunks_of c * 1100" by simp
  then show "i * kChunkPayloadBytes < length c" using chunks_bounds(2) [of c] by (simp add: kChunkPayloadBytes_def)
qed

lemma in_some_chunk: "c \<noteq> [] \<Longrightarrow> j < length c \<Longrightarrow> j div kChunkPayloadBytes < chunks_of c"
  using chunks_cover(2) [of c] by (simp add: less_mult_imp_div_less)

text \<open>The payload of the \<open>i\<close>-th datagram of a message.\<close>

definition payload_of :: "bytes \<Rightarrow> nat \<Rightarrow> bytes" where
  "payload_of c i = (if i = chunks_of c then parity_of (chunks_of c) c else chunk i c)"

definition sent_header :: "u8 \<Rightarrow> string \<Rightarrow> u32 \<Rightarrow> nat \<Rightarrow> bytes \<Rightarrow> nat \<Rightarrow> udp_header" where
  "sent_header type sender q rsz c i = chunk_header type sender q rsz (length c) (chunks_of c) i (length (payload_of c i))"

text \<open>The sizes a message must have to be sent.\<close>

definition sendable :: "u8 \<Rightarrow> string \<Rightarrow> nat \<Rightarrow> bytes \<Rightarrow> bool" where
  "sendable type sender rsz c \<longleftrightarrow> is_message_type type \<and> id_ok sender \<and> 0 < rsz \<and> rsz \<le> kMaxUncompressedBytes \<and>
     c \<noteq> [] \<and> length c \<le> kMaxCompressedBytes"

lemma sendable_chunks: "sendable type sender rsz c \<Longrightarrow> chunks_of c < 65536"
  using chunks_bounds(2) [of c] by (simp add: sendable_def kMaxCompressedBytes_def)

lemma length_payload_of:
  assumes "sendable type sender rsz c" and "i \<le> chunks_of c"
  shows "0 < length (payload_of c i)" "length (payload_of c i) \<le> kChunkPayloadBytes"
proof -
  have "i < chunks_of c \<Longrightarrow> 0 < length c - i * kChunkPayloadBytes"
    using chunks_cover(3) [of c i] assms by (auto simp: sendable_def)
  then have "0 < length (payload_of c i) \<and> length (payload_of c i) \<le> 1100"
    using assms(2) length_chunk [of i c] length_parity [of "chunks_of c" c]
    by (cases "i = chunks_of c") (simp_all add: payload_of_def kChunkPayloadBytes_def del: length_greater_0_conv)
  then show "0 < length (payload_of c i)" "length (payload_of c i) \<le> kChunkPayloadBytes"
    by (simp_all add: kChunkPayloadBytes_def)
qed

lemma message_type_known [simp]: "is_message_type t \<Longrightarrow> is_known_type t"
  unfolding is_message_type_def by (elim disjE; simp; code_simp)

lemma unat_of_small:
  "n < 65536 \<Longrightarrow> unat (word_of_nat n :: u16) = n"
  "n \<le> 524288 \<Longrightarrow> unat (word_of_nat n :: u32) = n"
  by (simp_all add: unat_of_nat unsigned_of_nat take_bit_nat_eq_self)

lemma sent_header_fields [simp]:
  "uh_type (sent_header t s q z c i) = t" "uh_sequence (sent_header t s q z c i) = q"
  "uh_chunkIndex (sent_header t s q z c i) = word_of_nat i"
  "uh_chunkCount (sent_header t s q z c i) = word_of_nat (chunks_of c)"
  "uh_uncompressedSize (sent_header t s q z c i) = word_of_nat z"
  "uh_compressedSize (sent_header t s q z c i) = word_of_nat (length c)"
  "uh_payloadSize (sent_header t s q z c i) = word_of_nat (length (payload_of c i))"
  "uh_senderId (sent_header t s q z c i) = copy_id s"
  by (simp_all add: sent_header_def chunk_header_def)

lemma word_of_nat_nonzero:
  "0 < n \<Longrightarrow> n < 65536 \<Longrightarrow> (word_of_nat n :: u16) \<noteq> 0"
  "0 < n \<Longrightarrow> n \<le> 524288 \<Longrightarrow> (word_of_nat n :: u32) \<noteq> 0"
  using unat_of_small [of n] by (metis less_irrefl unat_0)+

lemma sent_header_ok:
  assumes s: "sendable type sender rsz c" and i: "i \<le> chunks_of c"
  shows "header_ok (sent_header type sender q rsz c i) (payload_of c i)"
proof -
  have n: "0 < chunks_of c" "chunks_of c < 65536"
    using s sendable_chunks [OF s] chunks_cover(1) by (auto simp: sendable_def)
  have p: "0 < length (payload_of c i)" "length (payload_of c i) < 65536"
    using length_payload_of [OF s i] by (auto simp: kChunkPayloadBytes_def)
  have c: "0 < length c" "length c \<le> 524288" and z: "0 < rsz" "rsz \<le> 524288"
    using s by (auto simp: sendable_def kMaxCompressedBytes_def kMaxUncompressedBytes_def)
  have "header_shape (sent_header type sender q rsz c i)" by (simp add: sent_header_def chunk_header_def)
  then show ?thesis
    using s i n p c z
    by (simp add: header_ok_def sent_header_def chunk_header_def word_of_nat_nonzero unat_of_small sendable_def
        word_le_nat_alt)
qed

lemma inspect_sent:
  assumes "sendable type sender rsz c" and "i \<le> chunks_of c"
  shows "inspect_header (dg_bytes (chunk_datagram type sender q rsz c (chunks_of c) i)) =
      Some (sent_header type sender q rsz c i)"
    and "drop kHeaderBytes (dg_bytes (chunk_datagram type sender q rsz c (chunks_of c) i)) = payload_of c i"
proof -
  have dg: "dg_bytes (chunk_datagram type sender q rsz c (chunks_of c) i) =
      header_bytes (sent_header type sender q rsz c i) @ payload_of c i"
    by (simp add: chunk_datagram_def make_datagram_def sent_header_def payload_of_def Let_def)
  show "inspect_header (dg_bytes (chunk_datagram type sender q rsz c (chunks_of c) i)) =
      Some (sent_header type sender q rsz c i)"
    unfolding dg by (rule inspect_made [OF sent_header_ok [OF assms]])
  have "header_shape (sent_header type sender q rsz c i)" by (simp add: sent_header_def chunk_header_def)
  then show "drop kHeaderBytes (dg_bytes (chunk_datagram type sender q rsz c (chunks_of c) i)) = payload_of c i"
    unfolding dg by (rule payload_made)
qed

section \<open>A message in flight\<close>

text \<open>The reassembly has the chunks of \<open>S\<close>, the parity chunk numbered n.\<close>

definition holds_chunks :: "u32 \<Rightarrow> nat \<Rightarrow> bytes \<Rightarrow> nat set \<Rightarrow> reassembly \<Rightarrow> bool" where
  "holds_chunks q rsz c S state \<longleftrightarrow>
     rs_chunkCount state = word_of_nat (chunks_of c) \<and> rs_uncompressedSize state = word_of_nat rsz \<and>
     rs_compressedSize state = word_of_nat (length c) \<and>
     rs_receivedCount state = word_of_nat (card (S - {chunks_of c})) \<and>
     rs_compressed state = masked S c \<and> rs_received state = map (\<lambda>i. i \<in> S) [0..<chunks_of c] \<and>
     (rs_parityReceived state \<longleftrightarrow> chunks_of c \<in> S) \<and>
     (chunks_of c \<in> S \<longrightarrow> rs_parity state = parity_of (chunks_of c) c)"

lemma holds_new:
  assumes "sendable type sender rsz c"
  shows "holds_chunks q rsz c {} (new_reassembly (sent_header type sender q rsz c i))"
proof -
  have "length c \<le> 524288" using assms by (simp add: sendable_def kMaxCompressedBytes_def)
  then show ?thesis
    using sendable_chunks [OF assms]
    by (simp add: holds_chunks_def new_reassembly_def masked_empty unat_of_small map_replicate_const)
qed

lemma map_insert_update:
  "i < n \<Longrightarrow> (map (\<lambda>k. k \<in> S) [0..<n])[i := True] = map (\<lambda>k. k \<in> insert i S) [0..<n]"
  by (rule nth_equalityI) (auto simp: nth_list_update)

lemma holds_store:
  assumes s: "sendable type sender rsz c" and i: "i \<le> chunks_of c" "i \<notin> S" "finite S"
    and h: "holds_chunks q rsz c S state"
  shows "\<exists>state'. store_chunk (sent_header type sender q rsz c i) (payload_of c i) state = Some state' \<and>
    holds_chunks q rsz c (insert i S) state'"
proof -
  have n: "chunks_of c < 65536" by (rule sendable_chunks [OF s])
  have p: "length (payload_of c i) < 65536"
    using length_payload_of [OF s i(1)] by (auto simp: kChunkPayloadBytes_def)
  have same: "(word_of_nat i :: u16) = word_of_nat (chunks_of c) \<longleftrightarrow> i = chunks_of c"
    using n i(1) by (metis unat_of_small(1) le_less_trans)
  show ?thesis
  proof (cases "i = chunks_of c")
    case True
    have "masked (insert i S) c = masked S c"
      using in_some_chunk [of c] s True by (intro nth_equalityI) (fastforce simp: nth_masked sendable_def)+
    moreover have "map (\<lambda>k. k \<in> insert i S) [0..<chunks_of c] = map (\<lambda>k. k \<in> S) [0..<chunks_of c]"
      using True by auto
    ultimately show ?thesis
      using h True n p by (auto simp: store_chunk_def holds_chunks_def payload_of_def unat_of_small)
  next
    case False
    then have i': "i < chunks_of c" using i by simp
    have pay: "payload_of c i = chunk i c" using False by (simp add: payload_of_def)
    have low: "i * kChunkPayloadBytes \<le> length c"
      using chunks_cover(3) [OF _ i'] s by (auto simp: sendable_def)
    have idx: "unat (word_of_nat i :: u16) = i" using unat_of_small(1) i' n by simp
    have "\<not> i * kChunkPayloadBytes + length (chunk i c) > length c" using low by (simp add: length_chunk)
    moreover have "card (insert i S - {chunks_of c}) = Suc (card (S - {chunks_of c}))"
      using i False by (simp add: insert_Diff_if)
    ultimately show ?thesis
      using h i' i False p same n
      by (simp add: store_chunk_def holds_chunks_def Let_def idx pay unat_of_small write_chunk [OF low]
          map_insert_update)
  qed
qed

text \<open>What the completed message becomes, with the stress flags the receiver gathered.\<close>

definition delivered :: "u8 \<Rightarrow> string \<Rightarrow> u32 \<Rightarrow> json \<Rightarrow> u8 \<Rightarrow> decode_result" where
  "delivered type sender q message flags =
     DMessage sender type q flags message
       \<lparr>ct_senderId = sender, ct_type = type, ct_sequence = q, ct_stressFlags = flags, ct_valid = True\<rparr>"

text \<open>The libraries undo each other on this message.\<close>

definition restores :: "pose_codec \<Rightarrow> u8 \<Rightarrow> bytes \<Rightarrow> bytes \<Rightarrow> json \<Rightarrow> bool" where
  "restores pc type raw c message \<longleftrightarrow>
     pc_decompress pc (length raw) c = Some raw \<and> parse_pose pc type raw = Some message \<and> is_object message"

lemma finish_delivers:
  assumes s: "sendable type sender (length raw) c" and r: "restores pc type raw c message"
    and st: "rs_uncompressedSize state = word_of_nat (length raw)" "rs_compressed state = c"
  shows "\<exists>flags. finish_message pc (sent_header type sender q (length raw) c i) key state stress dc =
    (delivered type sender q message flags, erase_sequence key q dc)"
proof -
  have "unat (rs_uncompressedSize state) = length raw" "read_id (copy_id sender) = sender"
    using s st by (auto simp: unat_of_small sendable_def kMaxUncompressedBytes_def)
  then show ?thesis
    using r st by (simp add: finish_message_def restores_def delivered_def Let_def split del: if_split)
qed

lemma masked_all: "{..<chunks_of c} \<subseteq> S \<Longrightarrow> c \<noteq> [] \<Longrightarrow> masked S c = c"
  using in_some_chunk [of c] by (intro nth_equalityI) (auto simp: nth_masked)

lemma missing_chunk_is:
  assumes "rs_received state = map (\<lambda>i. i \<in> S) [0..<n]" and "m < n" "m \<notin> S" and "{..<n} - {m} \<subseteq> S"
  shows "missing_chunk state = m"
proof -
  have "[0..<n] = [0..<m] @ m # [Suc m..<n]" using assms(2) by (metis le_add_diff_inverse less_imp_le_nat upt_add_eq_append upt_conv_Cons zero_le)
  moreover have "takeWhile (\<lambda>r. r) (map (\<lambda>i. i \<in> S) [0..<m] @ False # ys) = map (\<lambda>i. i \<in> S) [0..<m]" for ys
    using assms(4) less_trans [OF _ assms(2)] by (subst takeWhile_append2) auto
  ultimately show ?thesis
    using assms(1,3) by (simp add: missing_chunk_def)
qed

lemma holds_counts:
  assumes "sendable type sender rsz c" and "holds_chunks q rsz c S state" and "S \<subseteq> {..chunks_of c}"
  shows "unat (rs_receivedCount state) = card (S - {chunks_of c})" "unat (rs_chunkCount state) = chunks_of c"
    "chunks_of c \<in> S \<Longrightarrow> Suc (card (S - {chunks_of c})) = card S"
proof -
  have n: "chunks_of c < 65536" by (rule sendable_chunks [OF assms(1)])
  have fin: "finite S" using assms(3) finite_subset by blast
  have "S - {chunks_of c} \<subseteq> {..<chunks_of c}" using assms(3) by (auto simp: le_less)
  then have "card (S - {chunks_of c}) \<le> card {..<chunks_of c}" by (rule card_mono [OF finite_lessThan])
  then have small: "card (S - {chunks_of c}) < 65536" using n by simp
  have eqs: "rs_receivedCount state = word_of_nat (card (S - {chunks_of c}))"
    "rs_chunkCount state = word_of_nat (chunks_of c)" using assms(2) unfolding holds_chunks_def by blast+
  show "unat (rs_receivedCount state) = card (S - {chunks_of c})" unfolding eqs by (rule unat_of_small(1) [OF small])
  show "unat (rs_chunkCount state) = chunks_of c" unfolding eqs by (rule unat_of_small(1) [OF n])
  show "chunks_of c \<in> S \<Longrightarrow> Suc (card (S - {chunks_of c})) = card S"
    by (rule card_Suc_Diff1 [OF fin])
qed

lemma recover_restores:
  assumes s: "sendable type sender rsz c" and h: "holds_chunks q rsz c S state"
    and m: "m < chunks_of c" "m \<notin> S" and S: "S \<inter> {..<chunks_of c} = {..<chunks_of c} - {m}" "chunks_of c \<in> S"
  shows "\<exists>state'. recover state = Some state' \<and> rs_compressed state' = c \<and>
    rs_uncompressedSize state' = rs_uncompressedSize state"
proof -
  have n: "chunks_of c < 65536" by (rule sendable_chunks [OF s])
  have c: "c \<noteq> []" using s by (simp add: sendable_def)
  have sub: "{..<chunks_of c} - {m} \<subseteq> S" using S(1) by blast
  have missing: "missing_chunk state = m"
    using missing_chunk_is [OF _ m(1,2) sub] h by (simp add: holds_chunks_def)
  have low: "m * kChunkPayloadBytes \<le> length c" using chunks_cover(3) [OF c m(1)] by simp
  have "rs_compressed state = masked S c" "rs_chunkCount state = word_of_nat (chunks_of c)"
    "rs_parity state = parity_of (chunks_of c) c" using h S(2) by (simp_all add: holds_chunks_def)
  then have "recovered_chunk state = fold (\<lambda>i p. if i = m then p else xor_bytes p (padded i (masked S c)))
      [0..<chunks_of c] (parity_of (chunks_of c) c)"
    using n by (simp add: recovered_chunk_def missing unat_of_small cong: if_cong)
  then have "take (length (chunk m c)) (recovered_chunk state) = chunk m c"
    using recover_missing [OF m(1) S(1)] by simp
  moreover have "min kChunkPayloadBytes (length c - m * kChunkPayloadBytes) = length (chunk m c)"
    by (simp add: length_chunk)
  moreover have "masked (insert m S) c = c" using sub by (intro masked_all [OF _ c]) auto
  ultimately show ?thesis
    using h low by (simp add: recover_def missing Let_def holds_chunks_def write_chunk [OF low])
qed

lemma after_incomplete:
  assumes s: "sendable type sender rsz c" and h: "holds_chunks q rsz c S state"
    and S: "S \<subseteq> {..chunks_of c}" "card S < chunks_of c"
  shows "after_chunk pc hdr key state dc = Some (DNone, dc)"
proof -
  note count = holds_counts [OF s h S(1)]
  have less: "card (S - {chunks_of c}) < chunks_of c"
    using S(2) card_Diff1_le [of S "chunks_of c"] by (rule le_less_trans [rotated])
  then have "rs_receivedCount state \<noteq> rs_chunkCount state" using count(1,2) by auto
  moreover have "\<not> rs_parityReceived state \<or> unat (rs_receivedCount state) + 1 \<noteq> unat (rs_chunkCount state)"
  proof (cases "chunks_of c \<in> S")
    case True
    then show ?thesis using count S(2) by simp
  next
    case False
    then show ?thesis using h by (simp add: holds_chunks_def)
  qed
  ultimately show ?thesis by (simp add: after_chunk_def Let_def)
qed

lemma after_complete:
  assumes s: "sendable type sender (length raw) c" and r: "restores pc type raw c message"
    and h: "holds_chunks q (length raw) c S state" and S: "S \<subseteq> {..chunks_of c}" "card S = chunks_of c"
  shows "\<exists>flags dc'. after_chunk pc (sent_header type sender q (length raw) c i) key state dc =
    Some (delivered type sender q message flags, dc')"
proof -
  have n: "chunks_of c < 65536" by (rule sendable_chunks [OF s])
  have c: "c \<noteq> []" using s by (simp add: sendable_def)
  have fin: "finite S" using S(1) finite_subset by blast
  have count: "rs_receivedCount state = word_of_nat (card (S - {chunks_of c}))"
    "rs_chunkCount state = word_of_nat (chunks_of c)" "rs_parityReceived state \<longleftrightarrow> chunks_of c \<in> S"
    "rs_uncompressedSize state = word_of_nat (length raw)" "rs_compressed state = masked S c"
    using h by (simp_all add: holds_chunks_def)
  show ?thesis
  proof (cases "chunks_of c \<in> S")
    case False
    then have "S \<subseteq> {..<chunks_of c}" using S(1) by (auto simp: le_less)
    then have "S = {..<chunks_of c}" using S(2) by (intro card_subset_eq) auto
    then have "rs_compressed state = c" using count(5) masked_all [OF _ c, of S] by simp
    moreover have "rs_receivedCount state = rs_chunkCount state" using count False S(2) by simp
    ultimately show ?thesis
      using finish_delivers [OF s r count(4)] by (fastforce simp: after_chunk_def Let_def)
  next
    case True
    have counts: "unat (rs_receivedCount state) = chunks_of c - 1" "unat (rs_chunkCount state) = chunks_of c"
      "0 < chunks_of c" "card (S - {chunks_of c}) = chunks_of c - 1"
      using holds_counts [OF s h S(1)] True S(2) chunks_cover(1) [OF c] by simp_all
    have sub: "S - {chunks_of c} \<subseteq> {..<chunks_of c}" using S(1) by (auto simp: le_less)
    have "card ({..<chunks_of c} - (S - {chunks_of c})) = 1"
      using card_Diff_subset [of "S - {chunks_of c}" "{..<chunks_of c}"] sub fin counts by simp
    then obtain m where m: "{..<chunks_of c} - (S - {chunks_of c}) = {m}" by (auto simp: card_1_singleton_iff)
    then have m': "m < chunks_of c" "m \<notin> S" "S \<inter> {..<chunks_of c} = {..<chunks_of c} - {m}" by auto
    obtain state' where rec: "recover state = Some state'" "rs_compressed state' = c"
      "rs_uncompressedSize state' = word_of_nat (length raw)"
      using recover_restores [OF s h m' True] count(4) by auto
    have "missing_chunk state = m"
      using missing_chunk_is [OF _ m'(1,2)] m'(3) h by (auto simp: holds_chunks_def)
    then show ?thesis
      using finish_delivers [OF s r rec(3,2)] rec(1) counts m'(1) count(3) True
      by (fastforce simp: after_chunk_def Let_def)
  qed
qed

section \<open>Receiving\<close>

lemma flow_of_set [simp]: "flow_of key (set_flow key flow dc) = flow"
  by (simp add: flow_of_def set_flow_def om_get_def)

lemma kept_last [simp]:
  "dc_lastProcessed (set_flow key flow dc) = dc_lastProcessed dc"
  "dc_lastProcessed (add_stress key flags dc) = dc_lastProcessed dc"
  "dc_lastProcessed (put_state key q state dc) = dc_lastProcessed dc"
  "dc_lastProcessed (erase_sequence key q dc) = dc_lastProcessed dc"
  "flow_of key (add_stress key flags dc) = flow_of key dc"
  by (simp_all add: set_flow_def add_stress_def put_state_def erase_sequence_def flow_of_def)

lemma evict_last [simp]: "dc_lastProcessed (evict key flow dc) = dc_lastProcessed dc"
  by (induction key flow dc rule: evict.induct) auto

lemma open_last [simp]: "dc_lastProcessed (snd (open_reassembly h key dc)) = dc_lastProcessed dc"
  by (simp add: open_reassembly_def Let_def split: option.split)

text \<open>The message is newer than what was processed, and its reassembly, if any, has the chunks of \<open>S\<close>.\<close>

definition newer :: "string \<Rightarrow> u32 \<Rightarrow> decoder \<Rightarrow> bool" where
  "newer key q dc \<longleftrightarrow> (case map_of (dc_lastProcessed dc) key of None \<Rightarrow> True | Some prev \<Rightarrow> prev < q)"

definition in_flight :: "string \<Rightarrow> u32 \<Rightarrow> nat \<Rightarrow> bytes \<Rightarrow> nat set \<Rightarrow> decoder \<Rightarrow> bool" where
  "in_flight key q rsz c S dc \<longleftrightarrow> newer key q dc \<and>
     (case map_of (flow_of key dc) q of None \<Rightarrow> S = {} | Some state \<Rightarrow> holds_chunks q rsz c S state)"

lemma not_stale: "newer key (uh_sequence h) dc \<Longrightarrow> \<not> stale h key dc"
  by (auto simp: newer_def stale_def split: option.splits)

lemma open_in_flight:
  assumes "sendable type sender rsz c" and "in_flight key q rsz c S dc"
  shows "\<exists>state dc1. open_reassembly (sent_header type sender q rsz c i) key dc = (state, dc1) \<and>
    holds_chunks q rsz c S state \<and> newer key q dc1"
  using assms(2) holds_new [OF assms(1)]
  by (auto simp: open_reassembly_def in_flight_def newer_def Let_def split: option.splits)

lemma accept_sent:
  assumes s: "sendable type sender rsz c" and f: "in_flight key q rsz c S dc"
    and key: "key = message_flow_key sender type"
    and i: "i \<le> chunks_of c" "i \<notin> S" and S: "finite S"
  shows "\<exists>state' dc'. accept pc (dg_bytes (chunk_datagram type sender q rsz c (chunks_of c) i)) dc =
      after_chunk pc (sent_header type sender q rsz c i) key state' dc' \<and>
    holds_chunks q rsz c (insert i S) state' \<and> in_flight key q rsz c (insert i S) dc'"
proof -
  let ?h = "sent_header type sender q rsz c i"
  obtain state dc1 where o: "open_reassembly ?h key dc = (state, dc1)" "holds_chunks q rsz c S state"
    "newer key q dc1" using open_in_flight [OF s f] by blast
  obtain state' where st: "store_chunk ?h (payload_of c i) state = Some state'"
    "holds_chunks q rsz c (insert i S) state'" using holds_store [OF s i S o(2)] by blast
  have type: "is_message_type type" and idok: "id_ok sender" using s by (simp_all add: sendable_def)
  have other: "type \<noteq> RelayRegister" "type \<noteq> PoseAck" "type \<noteq> RemoteObject" "type \<noteq> VoiceOpus"
    using type unfolding is_message_type_def by (elim disjE; simp; code_simp)+
  let ?dc = "add_stress key 0 (put_state key q state' dc1)"
  have "in_flight key q rsz c (insert i S) ?dc"
    using o(3) st(2) by (simp add: in_flight_def newer_def put_state_def)
  moreover have "accept pc (dg_bytes (chunk_datagram type sender q rsz c (chunks_of c) i)) dc =
      after_chunk pc ?h key state' ?dc"
    using f o st(1) type other idok not_stale [of key ?h dc]
    by (simp add: accept_def inspect_sent [OF s i(1)] accept_message_def key [symmetric] in_flight_def
        holds_chunks_def Let_def)
  ultimately show ?thesis using st(2) by blast
qed

text \<open>A sequence of datagrams, with what the receiver says to each.\<close>

fun deliver :: "pose_codec \<Rightarrow> decoder \<Rightarrow> bytes list \<Rightarrow> (decode_result list \<times> decoder) option" where
  "deliver pc dc [] = Some ([], dc)"
| "deliver pc dc (d # ds) =
     (case accept pc d dc of
        None \<Rightarrow> None
      | Some (r, dc') \<Rightarrow> map_option (\<lambda>(rs, dc''). (r # rs, dc'')) (deliver pc dc' ds))"

lemma deliver_chunks:
  assumes s: "sendable type sender (length raw) c" and r: "restores pc type raw c message"
    and key: "key = message_flow_key sender type"
  shows "in_flight key q (length raw) c S dc \<Longrightarrow> S \<subseteq> {..chunks_of c} \<Longrightarrow> distinct order \<Longrightarrow> set order \<inter> S = {} \<Longrightarrow>
    set order \<subseteq> {..chunks_of c} \<Longrightarrow> card S + length order = chunks_of c \<Longrightarrow> order \<noteq> [] \<Longrightarrow>
    \<exists>flags dc'. deliver pc dc
      (map (\<lambda>i. dg_bytes (chunk_datagram type sender q (length raw) c (chunks_of c) i)) order) =
      Some (replicate (length order - 1) DNone @ [delivered type sender q message flags], dc')"
proof (induction "order" arbitrary: S dc)
  case Nil
  then show ?case by simp
next
  case (Cons i order)
  have fin: "finite S" using Cons.prems(2) finite_subset by blast
  have i: "i \<le> chunks_of c" "i \<notin> S" using Cons.prems by auto
  have T: "insert i S \<subseteq> {..chunks_of c}" using i Cons.prems(2) by simp
  have card: "card (insert i S) = Suc (card S)" using fin i(2) by simp
  obtain state' dc' where step: "accept pc (dg_bytes (chunk_datagram type sender q (length raw) c (chunks_of c) i)) dc =
      after_chunk pc (sent_header type sender q (length raw) c i) key state' dc'"
    "holds_chunks q (length raw) c (insert i S) state'" "in_flight key q (length raw) c (insert i S) dc'"
    using accept_sent [OF s Cons.prems(1) key i fin] by blast
  show ?case
  proof (cases "order = []")
    case True
    then have "card (insert i S) = chunks_of c" using card Cons.prems(6) by simp
    from after_complete [OF s r step(2) T this, of i key dc'] obtain flags dc'' where
      "accept pc (dg_bytes (chunk_datagram type sender q (length raw) c (chunks_of c) i)) dc =
        Some (delivered type sender q message flags, dc'')" using step(1) by metis
    then show ?thesis using True by auto
  next
    case False
    then have "card (insert i S) < chunks_of c" using card Cons.prems(6) by (cases "order") auto
    from after_incomplete [OF s step(2) T this]
    have acc: "accept pc (dg_bytes (chunk_datagram type sender q (length raw) c (chunks_of c) i)) dc = Some (DNone, dc')"
      using step(1) by simp
    obtain flags dc'' where rest: "deliver pc dc'
        (map (\<lambda>i. dg_bytes (chunk_datagram type sender q (length raw) c (chunks_of c) i)) order) =
        Some (replicate (length order - 1) DNone @ [delivered type sender q message flags], dc'')"
      using Cons.IH [OF step(3) T] Cons.prems card False by auto
    have "replicate (length (i # order) - 1) DNone = DNone # replicate (length order - 1) DNone"
      using False by (cases "order") auto
    then show ?thesis using acc rest by auto
  qed
qed

lemma encoded_message:
  assumes "encode_message pc message sender type = Inr ds"
  obtains raw c q where "encode_raw pc type message = Inr raw" "pc_compress pc raw = Some c"
    "message_sequence message = Inr q" "is_message_type type" "raw \<noteq> []" "length raw \<le> kMaxUncompressedBytes"
    "c \<noteq> []" "length c \<le> kMaxCompressedBytes"
    "ds = map (chunk_datagram type sender q (length raw) c (chunks_of c))
       ([0..<chunks_of c] @ (if chunks_of c > 1 then [chunks_of c] else []))"
  using assms
  by (auto simp: encode_message_def compress_raw_def encode_raw_def chunks_of_def try_bind_Inr Let_def
      split: if_splits option.splits sum.splits)

text \<open>
  C6: any n of the n + 1 datagrams of a message of n chunks, each once and in any order, deliver the
  message at the last of them and nothing before, so every single loss is repaired; a message of one
  chunk is one datagram.  The receiver must not hold a reassembly of this number already nor have
  processed a newer message, and zstd and the parser must restore what was encoded.
\<close>

theorem any_chunks_deliver:
  assumes sent: "encode_message pc message sender type = Inr ds" "message_sequence message = Inr q"
    and sender: "id_ok sender" and object: "is_object message"
    and zstd: "\<forall>raw c. pc_compress pc raw = Some c \<longrightarrow> pc_decompress pc (length raw) c = Some raw"
    and parser: "\<forall>raw. encode_raw pc type message = Inr raw \<longrightarrow> parse_pose pc type raw = Some message"
    and fresh: "newer (message_flow_key sender type) q dc"
      "map_of (flow_of (message_flow_key sender type) dc) q = None"
    and order: "distinct order" "set order \<subseteq> {..<length ds}" "length order = max 1 (length ds - 1)"
  shows "\<exists>flags dc'. deliver pc dc (map (\<lambda>i. dg_bytes (ds ! i)) order) =
    Some (replicate (length order - 1) DNone @ [delivered type sender q message flags], dc')"
proof -
  obtain raw c where raw: "encode_raw pc type message = Inr raw" "pc_compress pc raw = Some c"
    "is_message_type type" "raw \<noteq> []" "length raw \<le> kMaxUncompressedBytes" "c \<noteq> []" "length c \<le> kMaxCompressedBytes"
    and ds: "ds = map (chunk_datagram type sender q (length raw) c (chunks_of c))
       ([0..<chunks_of c] @ (if chunks_of c > 1 then [chunks_of c] else []))"
    by (rule encoded_message [OF sent(1)]) (use sent(2) in simp)
  have s: "sendable type sender (length raw) c" using raw sender by (simp add: sendable_def)
  have r: "restores pc type raw c message" using raw zstd parser object by (simp add: restores_def)
  have n: "0 < chunks_of c" by (rule chunks_cover(1) [OF raw(6)])
  have nth: "ds ! i = chunk_datagram type sender q (length raw) c (chunks_of c) i" if "i < length ds" for i
    using that unfolding ds by (auto simp: nth_append less_Suc_eq split: if_splits)
  have len: "length ds = (if chunks_of c > 1 then Suc (chunks_of c) else chunks_of c)" unfolding ds by simp
  have same: "map (\<lambda>i. dg_bytes (ds ! i)) order =
      map (\<lambda>i. dg_bytes (chunk_datagram type sender q (length raw) c (chunks_of c) i)) order"
    using order(2) nth by (intro map_cong) auto
  have "in_flight (message_flow_key sender type) q (length raw) c {} dc"
    using fresh by (simp add: in_flight_def)
  moreover have "set order \<subseteq> {..chunks_of c}" using order(2) len by (auto split: if_splits)
  moreover have "length order = chunks_of c" "order \<noteq> []" using order(3) len n by (auto split: if_splits)
  ultimately show ?thesis
    unfolding same using deliver_chunks [OF s r refl, of q "{}" dc order] order(1) by simp
qed

definition ex_codec :: pose_codec where
  "ex_codec = \<lparr>pc_text = (\<lambda>_. Inr [1]), pc_msgpack = (\<lambda>_. Inr (replicate 1200 7)), pc_compress = Some,
     pc_decompress = (\<lambda>_ c. Some c),
     pc_events = (\<lambda>_ _. ([SaxStartObject, SaxKey ''sequence'', SaxUInt 5, SaxEndObject], True))\<rparr>"

definition ex_pose :: json where
  "ex_pose = JObj [(''sequence'', JUInt 5)]"

lemma ex_pose_parsed: "parse_pose ex_codec t raw = Some ex_pose"
  by (simp add: parse_pose_def ex_codec_def ex_pose_def sax_start_def sax_open_def sax_add_def kMaxDepth_def j_set_def)

lemma ex_pose_sent:
  "\<exists>ds. encode_message ex_codec ex_pose ''ab'' PoseMsgpack = Inr ds \<and> length ds = 3"
  "message_sequence ex_pose = Inr 5"
proof -
  show q: "message_sequence ex_pose = Inr 5" by code_simp
  have "is_message_type PoseMsgpack" "PoseMsgpack \<noteq> PoseJson" by code_simp+
  then show "\<exists>ds. encode_message ex_codec ex_pose ''ab'' PoseMsgpack = Inr ds \<and> length ds = 3"
    by (simp add: encode_message_def encode_raw_def compress_raw_def q, simp add: ex_codec_def
        kMaxUncompressedBytes_def kMaxCompressedBytes_def kChunkPayloadBytes_def Let_def)
qed

theorem any_chunks_deliver_witness:
  "\<exists>ds flags dc'. encode_message ex_codec ex_pose ''ab'' PoseMsgpack = Inr ds \<and> length ds = 3 \<and>
     deliver ex_codec decoder_start [dg_bytes (ds ! 2), dg_bytes (ds ! 0)] =
       Some ([DNone, delivered PoseMsgpack ''ab'' 5 ex_pose flags], dc')"
proof -
  obtain ds where ds: "encode_message ex_codec ex_pose ''ab'' PoseMsgpack = Inr ds" "length ds = 3"
    using ex_pose_sent(1) by blast
  have "\<forall>raw c. pc_compress ex_codec raw = Some c \<longrightarrow> pc_decompress ex_codec (length raw) c = Some raw"
    by (simp add: ex_codec_def)
  moreover have "id_ok ''ab''" "is_object ex_pose" by (simp_all add: id_ok_def kSenderIdBytes_def ex_pose_def)
  moreover have "newer k 5 decoder_start" "map_of (flow_of k decoder_start) 5 = None" for k
    by (simp_all add: newer_def flow_of_def decoder_start_def om_get_def)
  ultimately show ?thesis
    using any_chunks_deliver [OF ds(1) ex_pose_sent(2), of decoder_start "[2, 0]"] ds ex_pose_parsed by simp
qed

end
