(* ===== verification/Udp_Admission.thy ===== *)
theory Udp_Admission
  imports Udp_Delivery
begin

text \<open>
  What the receiver of realtime packets guarantees over any traffic: messages are handed out at most
  once and in order on each flow, and what it stores is bounded; and how a crafted message makes the
  parity recovery write outside its buffer.
\<close>

section \<open>The receiver as a machine\<close>

text \<open>
  A datagram, and whether the message it may complete is committed or discarded.  After a write
  outside a buffer there is no state left.
\<close>

definition take_in :: "pose_codec \<Rightarrow> bytes \<times> bool \<Rightarrow> decoder option \<Rightarrow> bool \<times> decoder option" where
  "take_in pc ev st =
     (case st of
        None \<Rightarrow> (False, None)
      | Some dc \<Rightarrow>
          (case accept pc (fst ev) dc of
             None \<Rightarrow> (False, None)
           | Some (DMessage _ _ _ _ _ token, dc') \<Rightarrow>
               if snd ev then (True, Some (commit_message token dc')) else (False, Some (discard_message token dc'))
           | Some (_, dc') \<Rightarrow> (False, Some dc')))"

text \<open>The flow and number of a datagram's message.\<close>

definition message_number :: "bytes \<times> bool \<Rightarrow> string \<times> u32" where
  "message_number ev =
     (case inspect_header (fst ev) of
        None \<Rightarrow> ([], 0)
      | Some h \<Rightarrow> (message_flow_key (read_id (uh_senderId h)) (uh_type h), uh_sequence h))"

definition processed :: "decoder option \<Rightarrow> (string \<times> u32) set" where
  "processed st = (case st of None \<Rightarrow> UNIV | Some dc \<Rightarrow> {(key, q). \<not> newer key q dc})"

lemma newer_cong: "dc_lastProcessed dc = dc_lastProcessed dc' \<Longrightarrow> newer key q dc = newer key q dc'"
  by (simp add: newer_def)

lemma stale_newer: "stale h key dc \<longleftrightarrow> \<not> newer key (uh_sequence h) dc"
  by (auto simp: stale_def newer_def split: option.splits)

text \<open>Receiving a datagram leaves what is processed alone, and a message it completes is newer.\<close>

definition completes :: "udp_header \<Rightarrow> string \<Rightarrow> decode_result \<Rightarrow> bool" where
  "completes h key r \<longleftrightarrow> (case r of
     DMessage _ _ _ _ _ token \<Rightarrow> ct_valid token \<and> ct_sequence token = uh_sequence h \<and>
       message_flow_key (ct_senderId token) (ct_type token) = key
   | _ \<Rightarrow> True)"

lemma finish_completes:
  "finish_message pc h (message_flow_key (read_id (uh_senderId h)) (uh_type h)) state stress dc = (r, dc') \<Longrightarrow>
   completes h (message_flow_key (read_id (uh_senderId h)) (uh_type h)) r \<and> dc_lastProcessed dc' = dc_lastProcessed dc"
  by (auto simp: finish_message_def completes_def Let_def split: option.splits if_splits)

lemma after_completes:
  "after_chunk pc h (message_flow_key (read_id (uh_senderId h)) (uh_type h)) state dc = Some (r, dc') \<Longrightarrow>
   completes h (message_flow_key (read_id (uh_senderId h)) (uh_type h)) r \<and> dc_lastProcessed dc' = dc_lastProcessed dc"
  by (auto simp: after_chunk_def Let_def completes_def [of _ _ DNone] dest!: finish_completes
      split: option.splits if_splits)

lemma accept_completes:
  assumes "inspect_header d = Some h" and "accept pc d dc = Some (r, dc')"
    and key: "key = message_flow_key (read_id (uh_senderId h)) (uh_type h)"
  shows "completes h key r" "dc_lastProcessed dc' = dc_lastProcessed dc"
    "(\<exists>a b c e m t. r = DMessage a b c e m t) \<Longrightarrow> newer key (uh_sequence h) dc"
proof -
  let ?p = "drop kHeaderBytes d"
  have fixed: "completes h key (accept_registration h ?p) \<and> completes h key (accept_ack h ?p) \<and>
      completes h key (accept_remote_object h ?p) \<and> completes h key (accept_voice h ?p)"
    "\<nexists>a b c e m t. accept_registration h ?p = DMessage a b c e m t \<or> accept_ack h ?p = DMessage a b c e m t \<or>
      accept_remote_object h ?p = DMessage a b c e m t \<or> accept_voice h ?p = DMessage a b c e m t"
    by (simp_all add: accept_registration_def accept_ack_def accept_remote_object_def accept_voice_def completes_def Let_def)
  have "completes h key r \<and> dc_lastProcessed dc' = dc_lastProcessed dc \<and>
      ((\<exists>a b c e m t. r = DMessage a b c e m t) \<longrightarrow> newer key (uh_sequence h) dc)"
    if msg: "accept_message pc h ?p dc = Some (r, dc')"
  proof (cases "stale h key dc")
    case True
    then show ?thesis using msg by (auto simp: accept_message_def key completes_def Let_def)
  next
    case False
    obtain state dc1 where o: "open_reassembly h key dc = (state, dc1)" by fastforce
    then have "dc_lastProcessed dc1 = dc_lastProcessed dc" using open_last [of h key dc] by simp
    then have "completes h key r \<and> dc_lastProcessed dc' = dc_lastProcessed dc"
      using msg False o
      by (auto simp: accept_message_def key Let_def completes_def [of _ _ DNone] dest!: after_completes
          split: if_splits option.splits)
    then show ?thesis using False by (simp add: stale_newer)
  qed
  then have "completes h key r \<and> dc_lastProcessed dc' = dc_lastProcessed dc \<and>
      ((\<exists>a b c e m t. r = DMessage a b c e m t) \<longrightarrow> newer key (uh_sequence h) dc)"
    using assms(1,2) fixed by (auto simp: accept_def Let_def completes_def [of _ _ DNone] split: if_splits)
  then show "completes h key r" "dc_lastProcessed dc' = dc_lastProcessed dc"
    "(\<exists>a b c e m t. r = DMessage a b c e m t) \<Longrightarrow> newer key (uh_sequence h) dc" by blast+
qed

lemma commit_last:
  "ct_valid token \<Longrightarrow> newer (message_flow_key (ct_senderId token) (ct_type token)) (ct_sequence token) dc \<Longrightarrow>
   map_of (dc_lastProcessed (commit_message token dc)) =
     (map_of (dc_lastProcessed dc))(message_flow_key (ct_senderId token) (ct_type token) \<mapsto> ct_sequence token)"
  by (auto simp: commit_message_def newer_def Let_def split: option.splits if_splits)

lemma discard_last: "dc_lastProcessed (discard_message token dc) = dc_lastProcessed dc"
  by (simp add: discard_message_def)

lemma take_in_spends:
  "take_in pc ev st = (good, st') \<Longrightarrow>
   (good \<longrightarrow> message_number ev \<notin> processed st \<and> message_number ev \<in> processed st') \<and> processed st \<subseteq> processed st'"
proof -
  assume step: "take_in pc ev st = (good, st')"
  show ?thesis
  proof (cases "st")
    case None
    then show ?thesis using step by (simp add: take_in_def)
  next
    case (Some dc)
    show ?thesis
    proof (cases "accept pc (fst ev) dc")
      case None
      then show ?thesis using step Some by (simp add: take_in_def processed_def)
    next
      case acc: (Some p)
      obtain r dc' where p: "p = (r, dc')" by fastforce
      show ?thesis
      proof (cases "inspect_header (fst ev)")
        case None
        then show ?thesis using step Some acc by (auto simp: take_in_def accept_def processed_def)
      next
        case hd: (Some h)
        note c = accept_completes [OF hd acc [unfolded p] refl]
        have same: "newer k q dc' = newer k q dc" for k q by (rule newer_cong [OF c(2)])
        show ?thesis
        proof (cases "\<exists>a b u e m t. r = DMessage a b u e m t \<and> snd ev")
          case False
          then have "st' = Some dc' \<or> (\<exists>t. st' = Some (discard_message t dc'))" "\<not> good"
            using step Some acc p by (auto simp: take_in_def split: decode_result.splits)
          then show ?thesis
            using Some same newer_cong [OF discard_last] by (auto simp: processed_def)
        next
          case True
          then obtain t where t: "st' = Some (commit_message t dc')" "good" "ct_valid t"
            "ct_sequence t = uh_sequence h"
            "message_flow_key (ct_senderId t) (ct_type t) = message_flow_key (read_id (uh_senderId h)) (uh_type h)"
            using step Some acc p c(1) by (auto simp: take_in_def completes_def)
          have fresh: "newer (message_flow_key (read_id (uh_senderId h)) (uh_type h)) (uh_sequence h) dc"
            using c(3) True by blast
          then have last: "map_of (dc_lastProcessed (commit_message t dc')) = (map_of (dc_lastProcessed dc))
              (message_flow_key (read_id (uh_senderId h)) (uh_type h) \<mapsto> uh_sequence h)"
            using commit_last [of t dc'] t same c(2) by simp
          have "\<not> newer k q (commit_message t dc')" if "\<not> newer k q dc" for k q
            using that fresh by (auto simp: newer_def last split: option.splits if_splits)
          moreover have "\<not> newer (message_flow_key (read_id (uh_senderId h)) (uh_type h)) (uh_sequence h)
              (commit_message t dc')" by (simp add: newer_def last)
          ultimately show ?thesis
            using fresh Some t(1) by (auto simp: processed_def message_number_def hd)
        qed
      qed
    qed
  qed
qed

interpretation receiver: monotone_admission "take_in pc" message_number processed "\<lambda>_. True" for pc
proof unfold_locales
  fix s :: "decoder option" and m :: "bytes \<times> bool"
  obtain good s' where "take_in pc m s = (good, s')" by fastforce
  note step = take_in_spends [OF this] this
  show "fst (take_in pc m s) \<Longrightarrow> message_number m \<notin> processed s"
    and "fst (take_in pc m s) \<Longrightarrow> message_number m \<in> processed (snd (take_in pc m s))"
    and "processed s \<subseteq> processed (snd (take_in pc m s))"
    using step by auto
next
  fix s :: "decoder option" and f :: string and n k :: u32
  assume "(f, n) \<in> processed s" and "k \<le> n"
  then show "(f, k) \<in> processed s"
    by (auto simp: processed_def newer_def split: option.splits)
qed simp_all

text \<open>
  C7: whatever datagrams arrive, in any order and any number of times, the messages committed on each
  flow (a sender and a packet type) have strictly increasing sequence numbers.
\<close>

theorem committed_in_order:
  "\<forall>key. sorted_wrt (<) (map snd (filter (\<lambda>n. fst n = key) (map message_number (admitted (take_in pc) st es))))"
proof
  fix key
  have "sorted_wrt (\<lambda>a b. fst a = fst b \<longrightarrow> snd a < snd b) (map message_number (admitted (take_in pc) st es))"
    using receiver.admitted_increasing [of pc st es] by (simp add: sorted_wrt_map)
  then have "sorted_wrt (\<lambda>a b. fst a = fst b \<longrightarrow> snd a < snd b)
      (filter (\<lambda>n. fst n = key) (map message_number (admitted (take_in pc) st es)))"
    by (rule sorted_wrt_filter)
  then show "sorted_wrt (<) (map snd (filter (\<lambda>n. fst n = key) (map message_number (admitted (take_in pc) st es))))"
    unfolding sorted_wrt_map by (rule sorted_wrt_mono_rel [rotated]) auto
qed

section \<open>What is stored\<close>

text \<open>A reassembly's buffer and chunk marks have the sizes its first header gave.\<close>

definition reassembly_ok :: "reassembly \<Rightarrow> bool" where
  "reassembly_ok r \<longleftrightarrow> length (rs_compressed r) = unat (rs_compressedSize r) \<and>
     unat (rs_compressedSize r) \<le> kMaxCompressedBytes \<and> unat (rs_uncompressedSize r) \<le> kMaxUncompressedBytes \<and>
     length (rs_received r) = unat (rs_chunkCount r) \<and>
     (rs_parityReceived r \<longrightarrow> length (rs_parity r) = kChunkPayloadBytes)"

definition flow_ok :: "(u32, reassembly) omap \<Rightarrow> bool" where
  "flow_ok flow \<longleftrightarrow> om_ok flow \<and> length flow \<le> kMaxInflightSequences \<and> (\<forall>r \<in> snd ` set flow. reassembly_ok r)"

definition decoder_ok :: "decoder \<Rightarrow> bool" where
  "decoder_ok dc \<longleftrightarrow> (\<forall>flow \<in> ran (map_of (dc_reassemblies dc)). flow_ok flow)"

lemma flow_ok_Nil [simp]: "flow_ok []"
  by (simp add: flow_ok_def)

lemma flow_of_ok: "decoder_ok dc \<Longrightarrow> flow_ok (flow_of key dc)"
  by (auto simp: decoder_ok_def flow_of_def om_get_def ranI split: option.split)

lemma set_flow_ok: "decoder_ok dc \<Longrightarrow> flow_ok flow \<Longrightarrow> decoder_ok (set_flow key flow dc)"
  by (auto simp: decoder_ok_def set_flow_def ran_def split: if_splits)

lemma decoder_ok_cong: "dc_reassemblies dc = dc_reassemblies dc' \<Longrightarrow> decoder_ok dc = decoder_ok dc'"
  by (simp add: decoder_ok_def)

lemma add_stress_ok [simp]: "decoder_ok (add_stress key flags dc) = decoder_ok dc"
  by (rule decoder_ok_cong) (simp add: add_stress_def)

lemma flow_ok_tl: "flow_ok (x # flow) \<Longrightarrow> flow_ok flow"
  by (cases x) (simp add: flow_ok_def om_ok_Cons)

lemma flow_ok_erase: "flow_ok flow \<Longrightarrow> flow_ok (om_erase q flow)"
  unfolding flow_ok_def by (intro conjI om_ok_erase order_trans [OF length_om_erase_le]) (auto simp: om_erase_def)

lemma flow_ok_dropWhile: "flow_ok flow \<Longrightarrow> flow_ok (dropWhile P flow)"
  by (induction flow) (auto dest: flow_ok_tl)

lemma flow_ok_put:
  assumes "flow_ok flow" and "reassembly_ok r" and "map_of flow q \<noteq> None \<or> length flow < kMaxInflightSequences"
  shows "flow_ok (om_put q r flow)"
proof -
  have "om_has q flow" if "map_of flow q \<noteq> None" using that om_find_in_set [of flow q] by (force simp: om_has_iff)
  then have "length (om_put q r flow) \<le> kMaxInflightSequences"
    using assms(1,3) by (auto simp: flow_ok_def length_om_put)
  moreover have "\<forall>x \<in> snd ` set (om_put q r flow). reassembly_ok x"
    using assms(1,2) set_om_put_subset [of q r flow] by (fastforce simp: flow_ok_def)
  ultimately show ?thesis using assms(1) by (simp add: flow_ok_def)
qed

lemma evict_ok:
  "flow_ok flow \<Longrightarrow> decoder_ok dc \<Longrightarrow>
   decoder_ok (evict key flow dc) \<and> length (flow_of key (evict key flow dc)) < kMaxInflightSequences"
proof (induction key flow dc rule: evict.induct)
  case (1 key dc)
  then show ?case by (simp add: set_flow_ok kMaxInflightSequences_def)
next
  case (2 key x flow dc)
  then show ?case using flow_ok_tl [OF 2(2)] set_flow_ok [OF 2(3) 2(2)] by auto
qed

lemma header_sizes:
  "inspect_header d = Some h \<Longrightarrow> unat (uh_compressedSize h) \<le> kMaxCompressedBytes \<and>
     unat (uh_uncompressedSize h) \<le> kMaxUncompressedBytes \<and>
     length (drop kHeaderBytes d) = unat (uh_payloadSize h) \<and> uh_chunkIndex h \<le> uh_chunkCount h"
  by (auto simp: inspect_header_def Let_def not_less split: if_splits)

lemma new_reassembly_ok: "inspect_header d = Some h \<Longrightarrow> reassembly_ok (new_reassembly h)"
  using header_sizes [of d h] by (simp add: reassembly_ok_def new_reassembly_def)

lemma open_ok:
  assumes d: "inspect_header d = Some h" and ok: "decoder_ok dc"
    and o: "open_reassembly h key dc = (state, dc1)"
  shows "reassembly_ok state \<and> decoder_ok dc1 \<and> map_of (flow_of key dc1) (uh_sequence h) = Some state"
proof (cases "map_of (flow_of key dc) (uh_sequence h)")
  case None
  note ev = evict_ok [OF flow_of_ok [OF ok] ok, of key key]
  have "flow_ok (om_put (uh_sequence h) (new_reassembly h) (flow_of key (evict key (flow_of key dc) dc)))"
    using ev flow_of_ok new_reassembly_ok [OF d] by (intro flow_ok_put) auto
  then show ?thesis
    using None o ev new_reassembly_ok [OF d] by (auto simp: open_reassembly_def Let_def set_flow_ok)
next
  case (Some r)
  have "reassembly_ok r"
    using flow_of_ok [OF ok, of key] om_find_in_set [OF Some] by (force simp: flow_ok_def)
  then show ?thesis
    using Some o ok flow_of_ok [OF ok, of key] by (auto simp: open_reassembly_def set_flow_ok)
qed

lemma store_ok:
  assumes "reassembly_ok state" and "length payload = unat (uh_payloadSize h)" and "store_chunk h payload state = Some state'"
  shows "reassembly_ok state'"
  using assms by (auto simp: store_chunk_def reassembly_ok_def Let_def write_at_def split: if_splits)

lemma recover_ok:
  assumes "reassembly_ok state" and "rs_parityReceived state" and "recover state = Some state'"
  shows "reassembly_ok state'"
proof -
  have "length (recovered_chunk state) = kChunkPayloadBytes"
    using assms(1,2) unfolding recovered_chunk_def by (intro fold_xor_length) (simp add: reassembly_ok_def)
  then show ?thesis
    using assms by (auto simp: recover_def reassembly_ok_def Let_def write_at_def split: if_splits)
qed

lemma erase_ok: "decoder_ok dc \<Longrightarrow> decoder_ok (erase_sequence key q dc)"
  unfolding erase_sequence_def by (intro set_flow_ok flow_ok_erase flow_of_ok)

lemma put_ok:
  "decoder_ok dc \<Longrightarrow> reassembly_ok r \<Longrightarrow> map_of (flow_of key dc) q \<noteq> None \<Longrightarrow> decoder_ok (put_state key q r dc)"
  unfolding put_state_def by (intro set_flow_ok flow_ok_put flow_of_ok) auto

lemma finish_ok: "decoder_ok dc \<Longrightarrow> decoder_ok (snd (finish_message pc h key state stress dc))"
  using erase_ok [of dc key "uh_sequence h"] by (auto simp: finish_message_def Let_def split: option.split)

lemma after_ok:
  assumes "decoder_ok dc" and "reassembly_ok state" and "map_of (flow_of key dc) (uh_sequence h) \<noteq> None"
    and "after_chunk pc h key state dc = Some (r, dc')"
  shows "decoder_ok dc'"
proof -
  have "decoder_ok (snd (finish_message pc h key s stress dc))" for s stress using finish_ok [OF assms(1)] .
  moreover have "decoder_ok (snd (finish_message pc h key s stress (put_state key (uh_sequence h) s' dc)))"
    if "recover state = Some s'" "rs_parityReceived state" for s s' stress
    using finish_ok [OF put_ok [OF assms(1) recover_ok [OF assms(2) that(2,1)] assms(3)]] .
  ultimately show ?thesis
    using assms(1,4) by (auto simp: after_chunk_def Let_def split: if_splits option.splits) (metis snd_conv)+
qed

lemma accept_ok:
  assumes "decoder_ok dc" and "accept pc d dc = Some (r, dc')"
  shows "decoder_ok dc'"
proof (cases "inspect_header d")
  case None
  then show ?thesis using assms by (simp add: accept_def)
next
  case (Some h)
  let ?p = "drop kHeaderBytes d" and ?key = "message_flow_key (read_id (uh_senderId h)) (uh_type h)"
  obtain state dc1 where o: "open_reassembly h ?key dc = (state, dc1)" by fastforce
  note ok = open_ok [OF Some assms(1) o]
  have "decoder_ok dc'" if st: "store_chunk h ?p state = Some state'"
    and "after_chunk pc h ?key state' (add_stress ?key 0 (put_state ?key (uh_sequence h) state' dc1)) = Some (r, dc')" for state'
  proof (rule after_ok [OF _ _ _ that(2)])
    show good: "reassembly_ok state'" using store_ok [OF _ _ st] ok header_sizes [OF Some] by blast
    show "decoder_ok (add_stress ?key 0 (put_state ?key (uh_sequence h) state' dc1))" using ok good by (simp add: put_ok)
    show "map_of (flow_of ?key (add_stress ?key 0 (put_state ?key (uh_sequence h) state' dc1))) (uh_sequence h) \<noteq> None"
      by (simp add: put_state_def)
  qed
  moreover have "decoder_ok (erase_sequence ?key (uh_sequence h) dc1)" using erase_ok ok by blast
  ultimately have "decoder_ok dc'" if "accept_message pc h ?p dc = Some (r, dc')"
    using that o ok assms(1) by (auto simp: accept_message_def Let_def split: if_splits option.splits)
  then show ?thesis
    using assms Some by (auto simp: accept_def Let_def split: if_splits)
qed

lemma commit_reassemblies:
  "dc_reassemblies (commit_message token dc) = dc_reassemblies dc \<or>
   (\<exists>key. dc_reassemblies (commit_message token dc) = om_erase key (dc_reassemblies dc)) \<or>
   (\<exists>key flow P. map_of (dc_reassemblies dc) key = Some flow \<and>
      dc_reassemblies (commit_message token dc) = om_put key (dropWhile P flow) (dc_reassemblies dc))"
  by (auto simp: commit_message_def set_flow_def Let_def split: option.split)

lemma commit_ok: "decoder_ok dc \<Longrightarrow> decoder_ok (commit_message token dc)"
  using commit_reassemblies [of token dc]
  by (auto simp: decoder_ok_def ran_def split: if_splits; blast intro: flow_ok_dropWhile)

lemma take_in_ok: "pred_option decoder_ok st \<Longrightarrow> pred_option decoder_ok (snd (take_in pc ev st))"
  by (auto simp: take_in_def discard_message_def intro: accept_ok commit_ok [OF accept_ok] split: option.splits decode_result.splits)

interpretation receiving: invariant_machine "\<lambda>ev st. snd (take_in pc ev st)" "pred_option decoder_ok" "Some decoder_start" for pc
  by unfold_locales (auto simp: decoder_ok_def decoder_start_def intro: take_in_ok)

text \<open>
  C8: after any traffic each flow holds at most eight incomplete messages, in ascending order of their
  numbers, each with a buffer of the announced size of at most 256 KiB and one mark for each chunk.
\<close>

theorem reassembly_bounded:
  "pred_option decoder_ok (fold (\<lambda>ev st. snd (take_in pc ev st)) es (Some decoder_start))"
  by (rule receiving.reachable_inv)

section \<open>A write outside the buffer\<close>

text \<open>
  The checks of a header do not relate the number of chunks to the size of the message.
\<close>

definition stray_first :: bytes where
  "stray_first = header_bytes (make_header PoseMsgpack ''a'' 1 0 2 1 1 1) @ [0]"

definition stray_parity :: bytes where
  "stray_parity = header_bytes (make_header PoseMsgpack ''a'' 1 2 2 1 1 1100) @ replicate 1100 0"

text \<open>
  C29: two well-formed datagrams of a message of one byte that claims two chunks, the first chunk and
  the parity chunk, make the recovery write 1100 bytes beyond the end of the buffer: the receiver
  accepts the first, and the second has no result.
\<close>

theorem recovery_overruns:
  "inspect_header stray_first \<noteq> None \<and> inspect_header stray_parity \<noteq> None \<and>
   deliver pc decoder_start [stray_first] \<noteq> None \<and> deliver pc decoder_start [stray_first, stray_parity] = None"
proof -
  let ?h = "\<lambda>i p. make_header PoseMsgpack ''a'' 1 i 2 1 1 p"
  have type: "is_known_type PoseMsgpack" "is_message_type PoseMsgpack" "PoseMsgpack \<noteq> RelayRegister"
    "PoseMsgpack \<noteq> PoseAck" "PoseMsgpack \<noteq> RemoteObject" "PoseMsgpack \<noteq> VoiceOpus" by code_simp+
  have "header_ok (?h 0 1) [0]" "header_ok (?h 2 1100) (replicate 1100 0)"
    using type by (simp_all add: header_ok_def kMaxCompressedBytes_def kMaxUncompressedBytes_def)
  then have heads: "inspect_header stray_first = Some (?h 0 1)" "inspect_header stray_parity = Some (?h 2 1100)"
    unfolding stray_first_def stray_parity_def by (simp_all add: inspect_made)
  have pays: "drop kHeaderBytes stray_first = [0]" "drop kHeaderBytes stray_parity = replicate 1100 0"
    unfolding stray_first_def stray_parity_def by (simp_all only: payload_made header_shape_make)
  let ?key = "message_flow_key (read_id (copy_id ''a'')) PoseMsgpack"
  let ?st = "(new_reassembly (?h 0 1))\<lparr>rs_receivedCount := 1, rs_received := [True, False], rs_compressed := [0]\<rparr>"
  let ?dc1 = "add_stress ?key 0 (put_state ?key 1 ?st (snd (open_reassembly (?h 0 1) ?key decoder_start)))"
  have empty: "map_of (flow_of k decoder_start) q = None" "\<not> stale h k decoder_start"
    "om_get 0 k (dc_pendingStress decoder_start) = 0" for k q h
    by (simp_all add: decoder_start_def flow_of_def om_get_def stale_def)
  have opened: "fst (open_reassembly (?h 0 1) ?key decoder_start) = new_reassembly (?h 0 1)"
    by (simp add: open_reassembly_def empty Let_def)
  have new: "rs_compressed (new_reassembly (?h 0 1)) = [0]" "rs_received (new_reassembly (?h 0 1)) = [False, False]"
    "rs_receivedCount (new_reassembly (?h 0 1)) = 0" "rs_chunkCount (new_reassembly (?h 0 1)) = 2"
    "rs_uncompressedSize (new_reassembly (?h 0 1)) = 1" "rs_compressedSize (new_reassembly (?h 0 1)) = 1"
    "\<not> rs_parityReceived (new_reassembly (?h 0 1))"
    by (simp_all add: new_reassembly_def) (simp add: numeral_2_eq_2)
  have store1: "store_chunk (?h 0 1) [0] (new_reassembly (?h 0 1)) = Some ?st"
    by (simp add: store_chunk_def new write_at_def Let_def)
  have after1: "after_chunk pc (?h 0 1) ?key ?st ?dc1 = Some (DNone, ?dc1)"
    by (simp add: after_chunk_def new Let_def)
  have first: "accept pc stray_first decoder_start = Some (DNone, ?dc1)"
    using opened store1 after1
    by (simp add: accept_def heads pays type accept_message_def empty new split_def Let_def)
  have "map_of (flow_of ?key ?dc1) 1 = Some ?st" "\<not> stale (?h 2 1100) ?key ?dc1"
    by (simp_all add: put_state_def stale_def, simp add: decoder_start_def)
  moreover define dc1 where "dc1 = ?dc1"
  ultimately have held: "map_of (flow_of ?key dc1) 1 = Some ?st" "\<not> stale (?h 2 1100) ?key dc1" by simp_all
  let ?st2 = "?st\<lparr>rs_parity := replicate 1100 0, rs_parityReceived := True\<rparr>"
  have opened2: "open_reassembly (?h 2 1100) ?key dc1 = (?st, set_flow ?key (flow_of ?key dc1) dc1)"
    by (simp add: open_reassembly_def held)
  have store2: "store_chunk (?h 2 1100) (replicate 1100 0) ?st = Some ?st2"
    by (simp add: store_chunk_def kChunkPayloadBytes_def)
  have "recover ?st2 = None"
    by (simp add: recover_def missing_chunk_def kChunkPayloadBytes_def Let_def)
  then have "after_chunk pc (?h 2 1100) ?key ?st2 dc = None" for dc
    by (simp add: after_chunk_def new missing_chunk_def Let_def)
  then have second: "accept pc stray_parity dc1 = None"
    using store2 by (simp add: accept_def heads pays type accept_message_def held opened2 new Let_def)
  show ?thesis using heads first second by (simp add: dc1_def)
qed

end
