(* ===== verification/Secure_Channel.thy ===== *)
theory Secure_Channel
  imports Interfaces Peer_Tunnel
begin

text \<open>
  Encrypted peer datagrams, \<open>SecureDatagram\<close> of \<open>src/net/secure_datagram.cpp\<close>: the three-message
  handshake under a pre-shared secret, the sealing of datagrams with a counter as nonce, and the
  replay window of the receiver.  The cryptography and the random bytes are parameters.
\<close>

section \<open>State\<close>

text \<open>
  The library: an unkeyed and a keyed hash of 32 bytes, the public key of a private one, the shared
  secret, and authenticated encryption (key, nonce, associated data).
\<close>

record crypto =
  cr_hash :: "bytes \<Rightarrow> bytes"
  cr_keyed :: "bytes \<Rightarrow> bytes \<Rightarrow> bytes"
  cr_public :: "bytes \<Rightarrow> bytes"
  cr_shared :: "bytes \<Rightarrow> bytes \<Rightarrow> bytes"
  cr_lock :: "bytes \<Rightarrow> bytes \<Rightarrow> bytes \<Rightarrow> bytes \<Rightarrow> bytes \<times> bytes"
  cr_unlock :: "bytes \<Rightarrow> bytes \<Rightarrow> bytes \<Rightarrow> bytes \<Rightarrow> bytes \<Rightarrow> bytes option"

datatype sd_phase = Invalid | Idle | ClientHello | ServerHello | Established

record secure =
  sd_state :: sd_phase
  sd_initiator :: bool
  sd_psk :: bytes
  sd_privateKey :: bytes
  sd_publicKey :: bytes
  sd_remotePublic :: bytes
  sd_master :: bytes
  sd_txKey :: bytes
  sd_rxKey :: bytes
  sd_localNonce :: bytes
  sd_remoteNonce :: bytes
  sd_txPrefix :: bytes
  sd_rxPrefix :: bytes
  sd_retry :: bytes
  sd_txCounter :: u64
  sd_rxHighest :: u64
  sd_rxWindow :: u64
  sd_session :: u64
  sd_rxSeen :: bool

definition kHelloSize :: nat where "kHelloSize = 4 + 1 + 32 + 16 + 32"
definition kFinishSize :: nat where "kFinishSize = 4 + 1 + 32"

definition keyed :: "crypto \<Rightarrow> bytes \<Rightarrow> string \<Rightarrow> bytes \<Rightarrow> bytes" where
  "keyed cr key label data = cr_keyed cr key (str_bytes label @ data)"

definition nonzero :: "bytes \<Rightarrow> bool" where
  "nonzero bs \<longleftrightarrow> fold (\<lambda>b v. v OR b) bs 0 \<noteq> 0"

definition new_secure :: "crypto \<Rightarrow> string \<Rightarrow> bool \<Rightarrow> secure" where
  "new_secure cr inviteSecret initiator =
     \<lparr>sd_state = (if length inviteSecret < 16 then Invalid else Idle), sd_initiator = initiator,
      sd_psk = (if length inviteSecret < 16 then replicate 32 0
                else cr_hash cr (str_bytes (''dusklight-native-udp-psk-v1:'' @ inviteSecret))),
      sd_privateKey = replicate 32 0, sd_publicKey = replicate 32 0, sd_remotePublic = replicate 32 0,
      sd_master = replicate 32 0, sd_txKey = replicate 32 0, sd_rxKey = replicate 32 0,
      sd_localNonce = replicate 16 0, sd_remoteNonce = replicate 16 0, sd_txPrefix = replicate 16 0,
      sd_rxPrefix = replicate 16 0, sd_retry = [], sd_txCounter = 0, sd_rxHighest = 0, sd_rxWindow = 0,
      sd_session = 0, sd_rxSeen = False\<rparr>"

definition sd_valid :: "secure \<Rightarrow> bool" where "sd_valid s \<longleftrightarrow> sd_state s \<noteq> Invalid"
definition established :: "secure \<Rightarrow> bool" where "established s \<longleftrightarrow> sd_state s = Established"
definition set_session :: "u64 \<Rightarrow> secure \<Rightarrow> secure" where "set_session q s = s\<lparr>sd_session := q\<rparr>"

section \<open>The handshake\<close>

text \<open>A private key and a nonce from the random source, which may fail.\<close>

type_synonym entropy = "bytes option \<times> bytes option"

definition generate_ephemeral :: "crypto \<Rightarrow> entropy \<Rightarrow> secure \<Rightarrow> bool \<times> secure" where
  "generate_ephemeral cr rnd s =
     (case rnd of
        (Some k, Some n) \<Rightarrow> (True, s\<lparr>sd_privateKey := k, sd_localNonce := n, sd_publicKey := cr_public cr k\<rparr>)
      | (Some k, None) \<Rightarrow> (False, s\<lparr>sd_privateKey := k, sd_state := Invalid\<rparr>)
      | (None, _) \<Rightarrow> (False, s\<lparr>sd_state := Invalid\<rparr>))"

definition transcript :: "secure \<Rightarrow> bytes" where
  "transcript s =
     (if sd_initiator s then sd_publicKey s @ sd_localNonce s @ sd_remotePublic s @ sd_remoteNonce s
      else sd_remotePublic s @ sd_remoteNonce s @ sd_publicKey s @ sd_localNonce s)"

definition derive_keys :: "crypto \<Rightarrow> secure \<Rightarrow> bool \<times> secure" where
  "derive_keys cr s =
     (let shared = cr_shared cr (sd_privateKey s) (sd_remotePublic s) in
      if \<not> nonzero shared then (False, s)
      else
        let master = keyed cr (sd_psk s) ''dusklight-native-master-v1:'' (transcript s @ shared);
            c2s = keyed cr master ''client-to-server-key'' [];
            s2c = keyed cr master ''server-to-client-key'' [];
            c2sNonce = keyed cr master ''client-to-server-nonce'' [];
            s2cNonce = keyed cr master ''server-to-client-nonce'' []
        in (True, s\<lparr>sd_master := master, sd_privateKey := replicate 32 0,
              sd_txKey := (if sd_initiator s then c2s else s2c), sd_rxKey := (if sd_initiator s then s2c else c2s),
              sd_txPrefix := take 16 (if sd_initiator s then c2sNonce else s2cNonce),
              sd_rxPrefix := take 16 (if sd_initiator s then s2cNonce else c2sNonce)\<rparr>))"

definition dsh :: "u8 \<Rightarrow> bytes" where "dsh n = str_bytes ''DSH1'' @ [n]"

definition sd_begin :: "crypto \<Rightarrow> entropy \<Rightarrow> secure \<Rightarrow> bytes \<times> secure" where
  "sd_begin cr rnd s =
     (if \<not> sd_initiator s \<or> sd_state s \<noteq> Idle then ([], s)
      else case generate_ephemeral cr rnd s of
        (False, s') \<Rightarrow> ([], s')
      | (True, s') \<Rightarrow>
          let hello = dsh 1 @ sd_publicKey s' @ sd_localNonce s';
              retry = hello @ keyed cr (sd_psk s') ''client-hello-v1:'' (drop 5 hello)
          in (retry, s'\<lparr>sd_retry := retry, sd_state := ClientHello\<rparr>))"

text \<open>The public key, the nonce and the code of a hello.\<close>

definition hello_key :: "bytes \<Rightarrow> bytes" where "hello_key packet = subspan 5 32 packet"
definition hello_nonce :: "bytes \<Rightarrow> bytes" where "hello_nonce packet = subspan 37 16 packet"
definition hello_mac :: "bytes \<Rightarrow> bytes" where "hello_mac packet = subspan 53 32 packet"

definition same_remote :: "bytes \<Rightarrow> secure \<Rightarrow> bool" where
  "same_remote packet s \<longleftrightarrow> sd_remotePublic s = hello_key packet \<and> sd_remoteNonce s = hello_nonce packet"

definition take_remote :: "bytes \<Rightarrow> secure \<Rightarrow> secure" where
  "take_remote packet s = s\<lparr>sd_remotePublic := hello_key packet, sd_remoteNonce := hello_nonce packet\<rparr>"

definition answer_hello :: "crypto \<Rightarrow> entropy \<Rightarrow> bytes \<Rightarrow> secure \<Rightarrow> bytes \<times> secure" where
  "answer_hello cr rnd packet s =
     (if keyed cr (sd_psk s) ''client-hello-v1:'' (subspan 5 48 packet) \<noteq> hello_mac packet then ([], s)
      else if sd_state s = ServerHello then (if same_remote packet s then sd_retry s else [], s)
      else if sd_state s \<noteq> Idle then ([], s)
      else case generate_ephemeral cr rnd s of
        (False, s') \<Rightarrow> ([], s')
      | (True, s') \<Rightarrow>
          (case derive_keys cr (take_remote packet s') of
             (False, s'') \<Rightarrow> ([], s''\<lparr>sd_state := Invalid\<rparr>)
           | (True, s'') \<Rightarrow>
               let retry = dsh 2 @ sd_publicKey s'' @ sd_localNonce s'' @
                     keyed cr (sd_psk s'') ''server-hello-v1:'' (transcript s'')
               in (retry, s''\<lparr>sd_retry := retry, sd_state := ServerHello\<rparr>)))"

definition answer_server :: "crypto \<Rightarrow> bytes \<Rightarrow> secure \<Rightarrow> bytes \<times> secure" where
  "answer_server cr packet s =
     (if sd_state s = Established then
        (if \<not> same_remote packet s then ([], s)
         else (if keyed cr (sd_psk s) ''server-hello-v1:'' (transcript s) = hello_mac packet then sd_retry s else [], s))
      else if sd_state s \<noteq> ClientHello then ([], s)
      else
        let s' = take_remote packet s; transcript' = transcript s' in
        if keyed cr (sd_psk s') ''server-hello-v1:'' transcript' \<noteq> hello_mac packet then ([], s')
        else (case derive_keys cr s' of
          (False, s'') \<Rightarrow> ([], s''\<lparr>sd_state := Invalid\<rparr>)
        | (True, s'') \<Rightarrow>
            let retry = dsh 3 @ keyed cr (sd_master s'') ''client-finish-v1:'' transcript'
            in (retry, s''\<lparr>sd_retry := retry, sd_state := Established\<rparr>)))"

definition answer_finish :: "crypto \<Rightarrow> bytes \<Rightarrow> secure \<Rightarrow> bytes \<times> secure" where
  "answer_finish cr packet s =
     (if keyed cr (sd_master s) ''client-finish-v1:'' (transcript s) = subspan 5 32 packet
      then ([], s\<lparr>sd_state := Established, sd_retry := []\<rparr>) else ([], s))"

definition handshake :: "crypto \<Rightarrow> entropy \<Rightarrow> bytes \<Rightarrow> secure \<Rightarrow> bytes \<times> secure" where
  "handshake cr rnd packet s =
     (if length packet < 5 \<or> take 4 packet \<noteq> str_bytes ''DSH1'' then ([], s)
      else if \<not> sd_initiator s \<and> packet ! 4 = 1 \<and> length packet = kHelloSize then answer_hello cr rnd packet s
      else if sd_initiator s \<and> packet ! 4 = 2 \<and> length packet = kHelloSize then answer_server cr packet s
      else if \<not> sd_initiator s \<and> packet ! 4 = 3 \<and> length packet = kFinishSize \<and> sd_state s = ServerHello
      then answer_finish cr packet s
      else ([], s))"

section \<open>Sealed datagrams\<close>

definition sealed_head :: "u64 \<Rightarrow> u64 \<Rightarrow> bytes" where
  "sealed_head session counter = str_bytes ''DSE1'' @ put_le session 8 @ put_le counter 8"

definition packet_counter :: "bytes \<Rightarrow> u64" where
  "packet_counter packet = get_le (subspan 12 8 packet)"

text \<open>The key, the nonce, the associated data and the plaintext a seal hands to the cipher.\<close>

type_synonym lock_call = "bytes \<times> bytes \<times> bytes \<times> bytes"

definition seal_call :: "bytes \<Rightarrow> secure \<Rightarrow> lock_call" where
  "seal_call plaintext s =
     (let head = sealed_head (sd_session s) (sd_txCounter s);
          nonce = sd_txPrefix s @ put_le (sd_txCounter s) 8
      in (sd_txKey s, nonce, head, plaintext))"

definition lock_packet :: "crypto \<Rightarrow> lock_call \<Rightarrow> bytes" where
  "lock_packet cr call =
     (case call of (key, nonce, head, plaintext) \<Rightarrow>
        (case cr_lock cr key nonce head plaintext of (mac, cipher) \<Rightarrow> head @ mac @ cipher))"

definition seal :: "crypto \<Rightarrow> bytes \<Rightarrow> secure \<Rightarrow> bytes \<times> secure" where
  "seal cr plaintext s =
     (if \<not> established s \<or> sd_session s = 0 \<or> sd_txCounter s = - 1 then ([], s)
      else (lock_packet cr (seal_call plaintext s), s\<lparr>sd_txCounter := sd_txCounter s + 1\<rparr>))"

definition replayed :: "u64 \<Rightarrow> secure \<Rightarrow> bool" where
  "replayed counter s \<longleftrightarrow> sd_rxSeen s \<and> counter \<le> sd_rxHighest s \<and>
     (sd_rxHighest s - counter \<ge> 64 \<or> bit (sd_rxWindow s) (unat (sd_rxHighest s - counter)))"

definition note_counter :: "u64 \<Rightarrow> secure \<Rightarrow> secure" where
  "note_counter counter s =
     (if \<not> sd_rxSeen s then s\<lparr>sd_rxSeen := True, sd_rxHighest := counter, sd_rxWindow := 1\<rparr>
      else if counter > sd_rxHighest s then
        let shift = counter - sd_rxHighest s
        in s\<lparr>sd_rxWindow := (if shift \<ge> 64 then 0 else push_bit (unat shift) (sd_rxWindow s)) OR 1,
             sd_rxHighest := counter\<rparr>
      else s\<lparr>sd_rxWindow := sd_rxWindow s OR push_bit (unat (sd_rxHighest s - counter)) 1\<rparr>)"

definition open_sealed :: "crypto \<Rightarrow> bytes \<Rightarrow> secure \<Rightarrow> bytes option \<times> secure" where
  "open_sealed cr packet s =
     (if \<not> established s \<or> sd_session s = 0 \<or> length packet < kSealedDatagramOverhead \<or>
         take 4 packet \<noteq> str_bytes ''DSE1'' then (None, s)
      else if get_le (subspan 4 8 packet) \<noteq> sd_session s then (None, s)
      else
        let counter = packet_counter packet in
        if replayed counter s then (None, s)
        else case cr_unlock cr (sd_rxKey s) (sd_rxPrefix s @ put_le counter 8) (take 20 packet)
                    (subspan 20 16 packet) (drop kSealedDatagramOverhead packet) of
          None \<Rightarrow> (None, s)
        | Some plaintext \<Rightarrow> (Some plaintext, note_counter counter s))"

end
