(* ===== verification/Secure_Exchange.thy ===== *)
theory Secure_Exchange
  imports Secure_Channel
begin

text \<open>
  What an encrypted channel guarantees: two ends with one secret agree on their keys and read what
  the other seals, an end is established only by a packet that proves the secret, no counter is
  accepted twice and no nonce is used twice.
\<close>

section \<open>Any use of a channel\<close>

datatype sd_event = Begin entropy | Handshake entropy bytes | Seal bytes | Open bytes | Session u64

definition sd_admit :: "crypto \<Rightarrow> sd_event \<Rightarrow> secure \<Rightarrow> bool \<times> secure" where
  "sd_admit cr ev s = (case ev of
     Begin rnd \<Rightarrow> (False, snd (sd_begin cr rnd s))
   | Handshake rnd packet \<Rightarrow> (False, snd (handshake cr rnd packet s))
   | Seal plaintext \<Rightarrow> (False, snd (seal cr plaintext s))
   | Open packet \<Rightarrow> (fst (open_sealed cr packet s) \<noteq> None, snd (open_sealed cr packet s))
   | Session q \<Rightarrow> (False, set_session q s))"

definition sd_number :: "sd_event \<Rightarrow> u64" where
  "sd_number ev = (case ev of Open packet \<Rightarrow> packet_counter packet | _ \<Rightarrow> 0)"

text \<open>The parts of the state the handshake leaves alone.\<close>

definition counters :: "secure \<Rightarrow> u64 \<times> u64 \<times> u64 \<times> bool" where
  "counters s = (sd_txCounter s, sd_rxHighest s, sd_rxWindow s, sd_rxSeen s)"

lemma counters_derive: "derive_keys cr s = (b, s') \<Longrightarrow> counters s' = counters s"
  by (auto simp: derive_keys_def counters_def Let_def split: if_splits)

lemma counters_generate: "generate_ephemeral cr rnd s = (b, s') \<Longrightarrow> counters s' = counters s"
  by (auto simp: generate_ephemeral_def counters_def split: prod.splits option.splits)

lemma counters_update [simp]:
  "counters (take_remote p s) = counters s" "counters (s\<lparr>sd_state := st\<rparr>) = counters s"
  "counters (s\<lparr>sd_retry := r\<rparr>) = counters s" "counters (s\<lparr>sd_session := q\<rparr>) = counters s"
  "counters (s\<lparr>sd_state := st, sd_retry := r\<rparr>) = counters s"
  "counters (s\<lparr>sd_retry := r, sd_state := st\<rparr>) = counters s"
  by (simp_all add: counters_def take_remote_def)

lemma counters_begin: "counters (snd (sd_begin cr rnd s)) = counters s"
  by (auto simp: sd_begin_def Let_def dest!: counters_generate split: prod.splits bool.splits)

lemma counters_handshake: "counters (snd (handshake cr rnd packet s)) = counters s"
proof -
  have "counters (snd (answer_hello cr rnd packet s)) = counters s"
    by (auto simp: answer_hello_def Let_def dest!: counters_generate counters_derive split: prod.splits bool.splits)
  moreover have "counters (snd (answer_server cr packet s)) = counters s"
    by (auto simp: answer_server_def Let_def dest!: counters_derive split: prod.splits bool.splits)
  moreover have "counters (snd (answer_finish cr packet s)) = counters s" by (simp add: answer_finish_def)
  ultimately show ?thesis by (simp add: handshake_def)
qed

section \<open>Replay\<close>

lemma replayed_cong:
  "sd_rxSeen s = sd_rxSeen t \<Longrightarrow> sd_rxHighest s = sd_rxHighest t \<Longrightarrow> sd_rxWindow s = sd_rxWindow t \<Longrightarrow>
   replayed c s = replayed c t"
  by (simp add: replayed_def)

lemma note_counter_spends: "replayed c (note_counter c s)"
  using word_le_nat_alt [of 64 "sd_rxHighest s - c"]
  by (cases "c > sd_rxHighest s") (auto simp: replayed_def note_counter_def Let_def bit_simps not_less)

lemma note_counter_keeps:
  assumes "replayed c s"
  shows "replayed c (note_counter k s)"
proof (cases "k > sd_rxHighest s")
  case False
  then show ?thesis using assms by (auto simp: replayed_def note_counter_def bit_simps)
next
  case True
  let ?h = "sd_rxHighest s"
  have c: "c \<le> ?h" "sd_rxSeen s" using assms by (simp_all add: replayed_def)
  have d: "unat (k - c) = unat (k - ?h) + unat (?h - c)"
    using c True by (simp add: unat_sub word_le_nat_alt word_less_nat_alt)
  have "unat (k - c) \<ge> 64 \<or> bit ((if k - ?h \<ge> 64 then 0 else push_bit (unat (k - ?h)) (sd_rxWindow s)) OR 1) (unat (k - c))"
    using assms d by (auto simp: replayed_def bit_simps word_le_nat_alt not_le)
  moreover have "c \<le> k" using c(1) True by (rule order.trans [OF _ less_imp_le])
  ultimately show ?thesis
    using c True by (auto simp: replayed_def note_counter_def Let_def word_le_nat_alt)
qed

lemma open_spends:
  assumes "open_sealed cr packet s = (r, s')"
  shows "(r \<noteq> None \<longrightarrow> \<not> replayed (packet_counter packet) s \<and> replayed (packet_counter packet) s') \<and>
    (replayed c s \<longrightarrow> replayed c s')"
  using assms note_counter_spends note_counter_keeps
  by (auto simp: open_sealed_def Let_def split: if_splits option.splits)

lemma other_keeps:
  "(\<forall>packet. ev \<noteq> Open packet) \<Longrightarrow> \<not> fst (sd_admit cr ev s) \<and> replayed c (snd (sd_admit cr ev s)) = replayed c s"
proof -
  assume other: "\<forall>packet. ev \<noteq> Open packet"
  have cong: "replayed c t = replayed c s" if "snd (counters t) = snd (counters s)" for t
    using that by (intro replayed_cong) (simp_all add: counters_def)
  have "snd (counters (snd (seal cr p s))) = snd (counters s)" for p
    by (simp add: seal_def counters_def)
  then have "replayed c (snd (seal cr p s)) = replayed c s" for p by (rule cong)
  moreover have "replayed c (snd (sd_begin cr rnd s)) = replayed c s" for rnd
    by (rule cong) (simp add: counters_begin)
  moreover have "replayed c (snd (handshake cr rnd p s)) = replayed c s" for rnd p
    by (rule cong) (simp add: counters_handshake)
  moreover have "replayed c (set_session q s) = replayed c s" for q
    by (rule cong) (simp add: set_session_def)
  ultimately show ?thesis
    using other by (cases ev) (simp_all add: sd_admit_def)
qed

interpretation window: admission "sd_admit cr" sd_number "\<lambda>s. {c. replayed c s}" "\<lambda>_. True" for cr
proof unfold_locales
  fix s ev
  have *: "(fst (sd_admit cr ev s) \<longrightarrow> \<not> replayed (sd_number ev) s \<and> replayed (sd_number ev) (snd (sd_admit cr ev s))) \<and>
      (replayed c s \<longrightarrow> replayed c (snd (sd_admit cr ev s)))" for c
  proof (cases "\<exists>packet. ev = Open packet")
    case True
    then show ?thesis using open_spends [of cr _ s] by (auto simp: sd_admit_def sd_number_def) (metis prod.collapse)+
  next
    case False
    then show ?thesis using other_keeps [of ev cr s c] by auto
  qed
  show "fst (sd_admit cr ev s) \<Longrightarrow> sd_number ev \<notin> {c. replayed c s}"
    and "fst (sd_admit cr ev s) \<Longrightarrow> sd_number ev \<in> {c. replayed c (snd (sd_admit cr ev s))}"
    and "{c. replayed c s} \<subseteq> {c. replayed c (snd (sd_admit cr ev s))}"
    using * by auto
qed simp_all

text \<open>
  C9: whatever packets arrive and whatever else is done with the channel, the sealed datagrams it
  opens have pairwise different counters: none is accepted twice.
\<close>

theorem never_opened_twice:
  "distinct (map sd_number (admitted (sd_admit cr) s evs))"
  by (rule window.at_most_once) simp

section \<open>Nonces\<close>

text \<open>The packets a use of the channel seals.\<close>

fun sealed_packets :: "crypto \<Rightarrow> secure \<Rightarrow> sd_event list \<Rightarrow> bytes list" where
  "sealed_packets cr s [] = []"
| "sealed_packets cr s (ev # evs) =
     (case ev of Seal plaintext \<Rightarrow> filter (\<lambda>p. p \<noteq> []) [fst (seal cr plaintext s)] | _ \<Rightarrow> []) @
     sealed_packets cr (snd (sd_admit cr ev s)) evs"

lemma sealed_head_nonempty [simp]: "sealed_head q c \<noteq> []"
  by (simp add: sealed_head_def)

lemma packet_counter_sealed: "packet_counter (sealed_head q c @ rest) = c"
  by (simp add: packet_counter_def sealed_head_def subspan_def)

lemma seal_result:
  obtains "seal cr p s = ([], s)"
  | rest where "seal cr p s = (sealed_head (sd_session s) (sd_txCounter s) @ rest, s\<lparr>sd_txCounter := sd_txCounter s + 1\<rparr>)"
      "sd_txCounter s \<noteq> - 1"
proof (cases "\<not> established s \<or> sd_session s = 0 \<or> sd_txCounter s = - 1")
  case True
  then have "seal cr p s = ([], s)" unfolding seal_def by (rule if_P)
  then show thesis by (rule that(1))
next
  case False
  obtain mac cipher where "cr_lock cr (sd_txKey s) (sd_txPrefix s @ put_le (sd_txCounter s) 8)
      (sealed_head (sd_session s) (sd_txCounter s)) p = (mac, cipher)" by fastforce
  then have "lock_packet cr (seal_call p s) = sealed_head (sd_session s) (sd_txCounter s) @ mac @ cipher"
    by (simp add: lock_packet_def seal_call_def Let_def)
  then have "seal cr p s = (sealed_head (sd_session s) (sd_txCounter s) @ mac @ cipher,
      s\<lparr>sd_txCounter := sd_txCounter s + 1\<rparr>)"
    unfolding seal_def if_not_P [OF False] by simp
  then show thesis by (rule that(2)) (use False in blast)
qed

lemma seal_counter:
  assumes "fst (seal cr p s) \<noteq> []"
  shows "packet_counter (fst (seal cr p s)) = sd_txCounter s" "sd_txCounter s < sd_txCounter (snd (seal cr p s))"
proof -
  obtain rest where r: "seal cr p s = (sealed_head (sd_session s) (sd_txCounter s) @ rest, s\<lparr>sd_txCounter := sd_txCounter s + 1\<rparr>)"
    and max: "sd_txCounter s \<noteq> - 1" using assms by (rule_tac seal_result [of cr p s]) auto
  have "1 + sd_txCounter s \<noteq> 0"
  proof
    assume "1 + sd_txCounter s = 0"
    then have "sd_txCounter s = - 1" by (rule minus_unique [symmetric])
    then show False using max by contradiction
  qed
  then have "unat (1 + sd_txCounter s) = Suc (unat (sd_txCounter s))" by (rule unatSuc)
  then have "sd_txCounter s < sd_txCounter s + 1"
    unfolding word_less_nat_alt by (simp only: add.commute lessI)
  then show "packet_counter (fst (seal cr p s)) = sd_txCounter s" "sd_txCounter s < sd_txCounter (snd (seal cr p s))"
    by (simp_all add: r packet_counter_sealed)
qed

lemma seal_nothing: "fst (seal cr p s) = [] \<Longrightarrow> snd (seal cr p s) = s"
  by (rule seal_result [of cr p s]) auto

lemma counter_grows: "sd_txCounter s \<le> sd_txCounter (snd (sd_admit cr ev s))"
proof (cases ev)
  case (Seal p)
  then show ?thesis
    using seal_counter(2) [of cr p s] seal_nothing [of cr p s]
    by (cases "fst (seal cr p s) = []") (simp_all add: sd_admit_def less_imp_le)
next
  case (Open p)
  then show ?thesis
    by (simp add: sd_admit_def open_sealed_def note_counter_def Let_def split: option.split)
qed (use counters_begin [of cr _ s] counters_handshake [of cr _ _ s] in
      \<open>simp_all add: sd_admit_def set_session_def counters_def\<close>)

lemma sealed_at_least: "p \<in> set (sealed_packets cr s evs) \<Longrightarrow> sd_txCounter s \<le> packet_counter p"
proof (induction evs arbitrary: s)
  case Nil
  then show ?case by simp
next
  case (Cons ev evs)
  show ?case
  proof (cases "p \<in> set (sealed_packets cr (snd (sd_admit cr ev s)) evs)")
    case True
    from Cons.IH [OF this] counter_grows [of s cr ev] show ?thesis by (rule order_trans [rotated])
  next
    case False
    then obtain t where "ev = Seal t" "p = fst (seal cr t s)" "p \<noteq> []"
      using Cons.prems by (cases ev) (auto split: if_splits)
    then show ?thesis using seal_counter [of cr t s] by simp
  qed
qed

text \<open>The calls of the cipher a use of the channel makes, and what keeps their nonces apart.\<close>

fun lock_calls :: "crypto \<Rightarrow> secure \<Rightarrow> sd_event list \<Rightarrow> lock_call list" where
  "lock_calls cr s [] = []"
| "lock_calls cr s (ev # evs) =
     (case ev of Seal plaintext \<Rightarrow> if fst (seal cr plaintext s) = [] then [] else [seal_call plaintext s] | _ \<Rightarrow> []) @
     lock_calls cr (snd (sd_admit cr ev s)) evs"

definition call_nonce :: "lock_call \<Rightarrow> bytes \<times> bytes" where
  "call_nonce call = (fst call, fst (snd call))"

definition nonce_counter :: "bytes \<times> bytes \<Rightarrow> u64" where
  "nonce_counter kn = get_le (drop (length (snd kn) - 8) (snd kn))"

lemma nonce_counter_call: "nonce_counter (call_nonce (seal_call p s)) = sd_txCounter s"
  by (simp add: nonce_counter_def call_nonce_def seal_call_def Let_def)

lemma seal_locks: "fst (seal cr p s) \<noteq> [] \<Longrightarrow> fst (seal cr p s) = lock_packet cr (seal_call p s)"
  by (simp add: seal_def split: if_splits)

lemma packets_of_calls: "sealed_packets cr s evs = map (lock_packet cr) (lock_calls cr s evs)"
proof (induction evs arbitrary: s)
  case (Cons ev evs)
  then show ?case using seal_locks [of cr _ s] by (cases ev) auto
qed simp

lemma nonces_of_packets:
  "map (nonce_counter \<circ> call_nonce) (lock_calls cr s evs) = map packet_counter (sealed_packets cr s evs)"
proof (induction evs arbitrary: s)
  case (Cons ev evs)
  then show ?case by (cases ev) (simp_all add: nonce_counter_call seal_counter)
qed simp

lemma counters_increase: "sorted_wrt (<) (map packet_counter (sealed_packets cr s evs))"
proof (induction evs arbitrary: s)
  case Nil
  then show ?case by simp
next
  case (Cons ev evs)
  show ?case
  proof (cases "\<exists>t. ev = Seal t \<and> fst (seal cr t s) \<noteq> []")
    case False
    then show ?thesis using Cons.IH by (cases ev) auto
  next
    case True
    then obtain t where t: "ev = Seal t" "fst (seal cr t s) \<noteq> []" by blast
    have "sd_txCounter s < packet_counter p" if "p \<in> set (sealed_packets cr (snd (seal cr t s)) evs)" for p
      using seal_counter(2) [OF t(2)] sealed_at_least [OF that] by (rule less_le_trans)
    then show ?thesis
      using Cons.IH t seal_counter(1) [OF t(2)] by (simp add: sd_admit_def)
  qed
qed

text \<open>
  C12: in any use of a channel, every packet it seals is one call of the cipher, and no two of these
  calls have the same key and nonce; the counters the packets carry strictly increase.
\<close>

theorem nonces_never_reused:
  "sealed_packets cr s evs = map (lock_packet cr) (lock_calls cr s evs) \<and>
   distinct (map call_nonce (lock_calls cr s evs)) \<and>
   sorted_wrt (<) (map packet_counter (sealed_packets cr s evs))"
proof -
  have "sorted_wrt (<) (map nonce_counter (map call_nonce (lock_calls cr s evs)))"
    using counters_increase [of cr s evs] nonces_of_packets [of cr s evs] by (simp add: comp_def)
  then have "distinct (map nonce_counter (map call_nonce (lock_calls cr s evs)))"
    by (simp add: strict_sorted_iff)
  then have "distinct (map call_nonce (lock_calls cr s evs))"
    unfolding distinct_map [of nonce_counter] by (rule conjunct1)
  then show ?thesis using packets_of_calls counters_increase by blast
qed

section \<open>Agreement\<close>

text \<open>What the library documents: sizes, the symmetry of the shared secret, and decryption.\<close>

definition crypto_ok :: "crypto \<Rightarrow> bool" where
  "crypto_ok cr \<longleftrightarrow> (\<forall>k m. length (cr_keyed cr k m) = 32) \<and> (\<forall>k. length (cr_public cr k) = 32) \<and>
     (\<forall>a b. cr_shared cr a (cr_public cr b) = cr_shared cr b (cr_public cr a)) \<and>
     (\<forall>key nonce ad p mac c. cr_lock cr key nonce ad p = (mac, c) \<longrightarrow>
        length mac = 16 \<and> cr_unlock cr key nonce ad mac c = Some p)"

lemma length_keyed [simp]: "crypto_ok cr \<Longrightarrow> length (keyed cr k l d) = 32"
  by (simp add: crypto_ok_def keyed_def)

lemma length_dsh [simp]: "length (dsh n) = 5" "take 4 (dsh n) = str_bytes ''DSH1''" "dsh n ! 4 = n"
  by (simp_all add: dsh_def)

text \<open>A hello of either side, taken apart.\<close>

lemma hello_parts:
  assumes "length pk = 32" and "length n = 16" and "length mac = 32"
  shows "hello_key (dsh v @ pk @ n @ mac) = pk" "hello_nonce (dsh v @ pk @ n @ mac) = n"
    "hello_mac (dsh v @ pk @ n @ mac) = mac" "subspan 5 48 (dsh v @ pk @ n @ mac) = pk @ n"
    "length (dsh v @ pk @ n @ mac) = kHelloSize" "(dsh v @ pk @ n @ mac) ! 4 = v"
    "take 4 (dsh v @ pk @ n @ mac) = str_bytes ''DSH1''"
  using assms by (simp_all add: hello_key_def hello_nonce_def hello_mac_def subspan_def kHelloSize_def nth_append)

lemma finish_parts:
  assumes "length mac = 32"
  shows "subspan 5 32 (dsh v @ mac) = mac" "length (dsh v @ mac) = kFinishSize" "(dsh v @ mac) ! 4 = v"
    "take 4 (dsh v @ mac) = str_bytes ''DSH1''"
  using assms by (simp_all add: subspan_def kFinishSize_def nth_append)

text \<open>Two ends of one session: what one writes with, the other reads with.\<close>

definition paired :: "secure \<Rightarrow> secure \<Rightarrow> bool" where
  "paired a b \<longleftrightarrow> established a \<and> established b \<and> sd_txKey a = sd_rxKey b \<and> sd_txPrefix a = sd_rxPrefix b \<and>
     sd_rxKey a = sd_txKey b \<and> sd_rxPrefix a = sd_txPrefix b"

lemma sealed_opens:
  assumes cr: "crypto_ok cr" and p: "paired a b" and q: "sd_session a = sd_session b" "sd_session a \<noteq> 0"
    and c: "sd_txCounter a \<noteq> - 1" "\<not> replayed (sd_txCounter a) b"
  shows "fst (open_sealed cr (fst (seal cr plain a)) b) = Some plain"
proof -
  let ?h = "sealed_head (sd_session a) (sd_txCounter a)" and ?n = "sd_txPrefix a @ put_le (sd_txCounter a) 8"
  obtain mac ci where l: "cr_lock cr (sd_txKey a) ?n ?h plain = (mac, ci)" by fastforce
  then have mac: "length mac = 16" "cr_unlock cr (sd_txKey a) ?n ?h mac ci = Some plain"
    using cr unfolding crypto_ok_def by blast+
  have "fst (seal cr plain a) = ?h @ mac @ ci"
    using p q c l by (simp add: seal_def lock_packet_def seal_call_def paired_def)
  moreover have "length ?h = 20" "take 4 (?h @ mac @ ci) = str_bytes ''DSE1''"
    "get_le (subspan 4 8 (?h @ mac @ ci)) = sd_session a"
    by (simp_all add: sealed_head_def subspan_def)
  ultimately show ?thesis
    using p q c mac
    by (simp add: open_sealed_def paired_def packet_counter_sealed kSealedDatagramOverhead_def subspan_def
        split: option.split)
qed

text \<open>The three messages of a handshake, and both ends after it.\<close>

definition run_handshake :: "crypto \<Rightarrow> entropy \<Rightarrow> entropy \<Rightarrow> secure \<Rightarrow> secure \<Rightarrow> secure \<times> secure" where
  "run_handshake cr rnd_c rnd_s client server =
     (let (hello, c1) = sd_begin cr rnd_c client;
          (reply, s1) = handshake cr rnd_s hello server;
          (finish, c2) = handshake cr rnd_c reply c1;
          (quiet, s2) = handshake cr rnd_s finish s1
      in (c2, s2))"

text \<open>The keys either end derives from the master key.\<close>

definition session_keys :: "crypto \<Rightarrow> bytes \<Rightarrow> bool \<Rightarrow> secure \<Rightarrow> bool" where
  "session_keys cr m initiator s \<longleftrightarrow> sd_initiator s = initiator \<and> sd_master s = m \<and>
     sd_txKey s = keyed cr m (if initiator then ''client-to-server-key'' else ''server-to-client-key'') [] \<and>
     sd_rxKey s = keyed cr m (if initiator then ''server-to-client-key'' else ''client-to-server-key'') [] \<and>
     sd_txPrefix s = take 16 (keyed cr m (if initiator then ''client-to-server-nonce'' else ''server-to-client-nonce'') []) \<and>
     sd_rxPrefix s = take 16 (keyed cr m (if initiator then ''server-to-client-nonce'' else ''client-to-server-nonce'') [])"

definition master_of :: "crypto \<Rightarrow> bytes \<Rightarrow> bytes \<Rightarrow> bytes \<Rightarrow> bytes" where
  "master_of cr psk tr shared = keyed cr psk ''dusklight-native-master-v1:'' (tr @ shared)"

lemma derive_session:
  assumes "nonzero (cr_shared cr (sd_privateKey s) (sd_remotePublic s))"
  shows "\<exists>s'. derive_keys cr s = (True, s') \<and> counters s' = counters s \<and> transcript s' = transcript s \<and>
    sd_psk s' = sd_psk s \<and> sd_publicKey s' = sd_publicKey s \<and> sd_localNonce s' = sd_localNonce s \<and>
    sd_session s' = sd_session s \<and>
    session_keys cr (master_of cr (sd_psk s) (transcript s) (cr_shared cr (sd_privateKey s) (sd_remotePublic s)))
      (sd_initiator s) s'"
  using assms by (simp add: derive_keys_def session_keys_def master_of_def counters_def transcript_def Let_def)

text \<open>A hello with the right code is answered; the reply with the right code is finished; the finish ends it.\<close>

lemma server_answers:
  assumes "sd_state s = Idle" "\<not> sd_initiator s" and "length packet = kHelloSize" "take 4 packet = str_bytes ''DSH1''"
    "packet ! 4 = 1" "hello_mac packet = keyed cr (sd_psk s) ''client-hello-v1:'' (subspan 5 48 packet)"
    and "nonzero (cr_shared cr ks (hello_key packet))"
    and tr: "tr = hello_key packet @ hello_nonce packet @ cr_public cr ks @ ns"
  shows "\<exists>s'. handshake cr (Some ks, Some ns) packet s =
      (dsh 2 @ cr_public cr ks @ ns @ keyed cr (sd_psk s) ''server-hello-v1:'' tr, s') \<and>
    sd_state s' = ServerHello \<and> transcript s' = tr \<and> counters s' = counters s \<and>
    session_keys cr (master_of cr (sd_psk s) tr (cr_shared cr ks (hello_key packet))) False s'"
proof -
  let ?s = "take_remote packet (s\<lparr>sd_privateKey := ks, sd_localNonce := ns, sd_publicKey := cr_public cr ks\<rparr>)"
  have st: "transcript ?s = tr" "counters ?s = counters s" "sd_psk ?s = sd_psk s" "sd_privateKey ?s = ks"
    "sd_remotePublic ?s = hello_key packet" "sd_publicKey ?s = cr_public cr ks" "sd_localNonce ?s = ns"
    using assms(2) by (simp_all add: transcript_def take_remote_def tr counters_def)
  obtain s' where s': "derive_keys cr ?s = (True, s')" "counters s' = counters s" "transcript s' = tr" "sd_psk s' = sd_psk s"
    "sd_publicKey s' = cr_public cr ks" "sd_localNonce s' = ns"
    "session_keys cr (master_of cr (sd_psk s) tr (cr_shared cr ks (hello_key packet))) (sd_initiator ?s) s'"
    using derive_session [of cr ?s] assms(7) unfolding st by blast
  have "handshake cr (Some ks, Some ns) packet s = answer_hello cr (Some ks, Some ns) packet s"
    using assms(2-5) by (simp add: handshake_def kHelloSize_def)
  also have "\<dots> = (let retry = dsh 2 @ cr_public cr ks @ ns @ keyed cr (sd_psk s) ''server-hello-v1:'' tr
      in (retry, s'\<lparr>sd_retry := retry, sd_state := ServerHello\<rparr>))"
    using assms(1,6) s' by (simp add: answer_hello_def generate_ephemeral_def)
  finally show ?thesis
    using s' assms(2) by (simp add: Let_def session_keys_def transcript_def counters_def take_remote_def)
qed

lemma client_finishes:
  assumes "sd_state c = ClientHello" "sd_initiator c" and "length packet = kHelloSize" "take 4 packet = str_bytes ''DSH1''"
    "packet ! 4 = 2" and tr: "tr = sd_publicKey c @ sd_localNonce c @ hello_key packet @ hello_nonce packet"
    and "hello_mac packet = keyed cr (sd_psk c) ''server-hello-v1:'' tr"
    and "nonzero (cr_shared cr (sd_privateKey c) (hello_key packet))"
    and m: "m = master_of cr (sd_psk c) tr (cr_shared cr (sd_privateKey c) (hello_key packet))"
  shows "\<exists>c'. handshake cr rnd packet c = (dsh 3 @ keyed cr m ''client-finish-v1:'' tr, c') \<and>
    established c' \<and> counters c' = counters c \<and> session_keys cr m True c'"
proof -
  have "transcript (take_remote packet c) = tr" using assms(2) by (simp add: transcript_def take_remote_def tr)
  then show ?thesis
    using derive_session [of cr "take_remote packet c"] assms
    by (auto simp: handshake_def answer_server_def take_remote_def session_keys_def established_def kHelloSize_def
        counters_def Let_def)
qed

lemma server_completes:
  assumes "sd_state s = ServerHello" "\<not> sd_initiator s" and "length packet = kFinishSize"
    "take 4 packet = str_bytes ''DSH1''" "packet ! 4 = 3"
    "subspan 5 32 packet = keyed cr (sd_master s) ''client-finish-v1:'' (transcript s)"
    and "session_keys cr m False s"
  shows "\<exists>s'. handshake cr rnd packet s = ([], s') \<and> established s' \<and> counters s' = counters s \<and> session_keys cr m False s'"
  using assms by (simp add: handshake_def answer_finish_def established_def kFinishSize_def kHelloSize_def session_keys_def)

lemma handshake_pairs:
  assumes cr: "crypto_ok cr" and secret: "length secret \<ge> 16"
    and sizes: "length nc = 16" "length ns = 16"
    and shared: "nonzero (cr_shared cr kc (cr_public cr ks))"
  shows "\<exists>c s. run_handshake cr (Some kc, Some nc) (Some ks, Some ns) (new_secure cr secret True)
      (new_secure cr secret False) = (c, s) \<and> paired c s \<and> counters c = (0, 0, 0, False) \<and> counters s = (0, 0, 0, False)"
proof -
  let ?c = "new_secure cr secret True" and ?s = "new_secure cr secret False"
  let ?pc = "cr_public cr kc" and ?ps = "cr_public cr ks" and ?sh = "cr_shared cr kc (cr_public cr ks)"
  define psk where "psk = sd_psk ?c"
  let ?tr = "?pc @ nc @ ?ps @ ns"
  let ?m = "master_of cr psk ?tr ?sh"
  have pub: "length ?pc = 32" "length ?ps = 32" using cr by (simp_all add: crypto_ok_def)
  have sym: "cr_shared cr ks ?pc = ?sh" using cr by (simp add: crypto_ok_def)
  have start: "sd_psk ?s = psk" "sd_psk ?c = psk" "sd_state ?s = Idle" "\<not> sd_initiator ?s"
    "sd_state ?c = Idle" "sd_initiator ?c" "counters ?c = (0, 0, 0, False)" "counters ?s = (0, 0, 0, False)"
    using secret by (simp_all add: psk_def new_secure_def counters_def)
  define m1 m2 m3 where "m1 = keyed cr psk ''client-hello-v1:'' (?pc @ nc)"
    and "m2 = keyed cr psk ''server-hello-v1:'' ?tr" and "m3 = keyed cr ?m ''client-finish-v1:'' ?tr"
  have len: "length m1 = 32" "length m2 = 32" "length m3 = 32" using cr by (simp_all add: m1_def m2_def m3_def)
  note h1 = hello_parts [OF pub(1) sizes(1) len(1), of 1] and h2 = hello_parts [OF pub(2) sizes(2) len(2), of 2]
    and h3 = finish_parts [OF len(3), of 3]
  obtain c1 where c1: "sd_begin cr (Some kc, Some nc) ?c = (dsh 1 @ ?pc @ nc @ m1, c1)" "sd_state c1 = ClientHello"
    "sd_initiator c1" "sd_psk c1 = psk" "sd_publicKey c1 = ?pc" "sd_localNonce c1 = nc" "sd_privateKey c1 = kc"
    "counters c1 = (0, 0, 0, False)"
    using start by (simp add: sd_begin_def generate_ephemeral_def m1_def counters_def Let_def)
  obtain s1 where s1: "handshake cr (Some ks, Some ns) (dsh 1 @ ?pc @ nc @ m1) ?s = (dsh 2 @ ?ps @ ns @ m2, s1)"
    "sd_state s1 = ServerHello" "transcript s1 = ?tr" "counters s1 = (0, 0, 0, False)" "session_keys cr ?m False s1"
    using server_answers [OF start(3,4) h1(5,7,6), of cr ks ?tr ns] h1 start shared sym by (auto simp: m1_def m2_def)
  obtain c2 where c2: "handshake cr (Some kc, Some nc) (dsh 2 @ ?ps @ ns @ m2) c1 = (dsh 3 @ m3, c2)"
    "established c2" "counters c2 = (0, 0, 0, False)" "session_keys cr ?m True c2"
    using client_finishes [OF c1(2,3) h2(5,7,6), of ?tr cr ?m "(Some kc, Some nc)"] h2 c1 shared
    by (auto simp: m2_def m3_def)
  have s1': "\<not> sd_initiator s1" "sd_master s1 = ?m" using s1(5) by (simp_all add: session_keys_def)
  obtain s2 where s2: "handshake cr (Some ks, Some ns) (dsh 3 @ m3) s1 = ([], s2)" "established s2"
    "counters s2 = (0, 0, 0, False)" "session_keys cr ?m False s2"
    using server_completes [OF s1(2) s1'(1) h3(2,4,3) _ s1(5)] h3(1) s1 s1' by (auto simp: m3_def)
  have "paired c2 s2" using c2 s2 by (simp add: paired_def session_keys_def)
  then show ?thesis using c1(1) s1(1) c2 s2 by (simp add: run_handshake_def)
qed

text \<open>
  C11: two ends with one secret of at least 16 bytes that exchange the three handshake messages are both
  established, and the first datagram either seals for the session is opened by the other, given the
  documented behaviour of the cryptography and a shared secret that is not zero.
\<close>

theorem handshake_then_exchange:
  assumes "crypto_ok cr" and "length secret \<ge> 16" and "length nc = 16" "length ns = 16"
    and "nonzero (cr_shared cr kc (cr_public cr ks))" and "session \<noteq> 0"
  shows "case run_handshake cr (Some kc, Some nc) (Some ks, Some ns) (new_secure cr secret True)
      (new_secure cr secret False) of (c, s) \<Rightarrow>
    established c \<and> established s \<and>
    fst (open_sealed cr (fst (seal cr plain (set_session session c))) (set_session session s)) = Some plain \<and>
    fst (open_sealed cr (fst (seal cr plain (set_session session s))) (set_session session c)) = Some plain"
proof -
  obtain c s where run: "run_handshake cr (Some kc, Some nc) (Some ks, Some ns) (new_secure cr secret True)
      (new_secure cr secret False) = (c, s)" "paired c s" "counters c = (0, 0, 0, False)" "counters s = (0, 0, 0, False)"
    using handshake_pairs [OF assms(1-5)] by blast
  let ?c = "set_session session c" and ?s = "set_session session s"
  have p: "paired ?c ?s" "paired ?s ?c" "\<not> replayed q ?c" "\<not> replayed q ?s" "sd_txCounter ?c \<noteq> - 1"
    "sd_txCounter ?s \<noteq> - 1" "sd_session ?c = session" "sd_session ?s = session" for q
    using run(2-4) by (simp_all add: paired_def set_session_def established_def replayed_def counters_def)
  have "fst (open_sealed cr (fst (seal cr plain ?c)) ?s) = Some plain"
    "fst (open_sealed cr (fst (seal cr plain ?s)) ?c) = Some plain"
    using p assms(6) by (intro sealed_opens [OF assms(1)]; simp)+
  then show ?thesis using run(1,2) by (simp add: paired_def)
qed

text \<open>A library with the documented behaviour, for the example.\<close>

definition ex_crypto :: crypto where
  "ex_crypto = \<lparr>cr_hash = (\<lambda>_. replicate 32 1), cr_keyed = (\<lambda>k m. replicate 32 (ucast (of_nat (length m) :: u64))),
     cr_public = (\<lambda>_. replicate 32 5), cr_shared = (\<lambda>_ _. replicate 32 7),
     cr_lock = (\<lambda>key nonce ad p. (replicate 16 9, p)), cr_unlock = (\<lambda>key nonce ad mac c. Some c)\<rparr>"

lemma ex_crypto_ok: "crypto_ok ex_crypto"
  by (simp add: crypto_ok_def ex_crypto_def)

theorem handshake_then_exchange_witness:
  "case run_handshake ex_crypto (Some (replicate 32 1), Some (replicate 16 2)) (Some (replicate 32 3), Some (replicate 16 4))
      (new_secure ex_crypto ''sixteen-byte-key'' True) (new_secure ex_crypto ''sixteen-byte-key'' False) of (c, s) \<Rightarrow>
    established c \<and> established s \<and>
    fst (open_sealed ex_crypto (fst (seal ex_crypto [1, 2] (set_session 9 c))) (set_session 9 s)) = Some [1, 2] \<and>
    fst (open_sealed ex_crypto (fst (seal ex_crypto [1, 2] (set_session 9 s))) (set_session 9 c)) = Some [1, 2]"
proof (rule handshake_then_exchange [OF ex_crypto_ok])
  show "nonzero (cr_shared ex_crypto (replicate 32 1) (cr_public ex_crypto (replicate 32 3)))"
    by (simp add: ex_crypto_def nonzero_def) code_simp
qed simp_all

section \<open>Authentication\<close>

text \<open>The key the secret of an invitation stands for, and a channel after any use.\<close>

definition secret_key :: "crypto \<Rightarrow> string \<Rightarrow> bytes" where
  "secret_key cr secret = cr_hash cr (str_bytes (''dusklight-native-udp-psk-v1:'' @ secret))"

definition sd_run :: "crypto \<Rightarrow> sd_event list \<Rightarrow> secure \<Rightarrow> secure" where
  "sd_run cr evs s = fold (\<lambda>ev s. snd (sd_admit cr ev s)) evs s"

text \<open>A channel whose keys come from the secret key \<open>psk\<close> and the private key \<open>k\<close>.\<close>

definition keyed_by :: "crypto \<Rightarrow> bytes \<Rightarrow> bytes \<Rightarrow> secure \<Rightarrow> bool" where
  "keyed_by cr psk k s \<longleftrightarrow>
     (let shared = cr_shared cr k (sd_remotePublic s) in
      sd_publicKey s = cr_public cr k \<and> nonzero shared \<and>
      session_keys cr (master_of cr psk (transcript s) shared) (sd_initiator s) s)"

text \<open>What the secret determines in every state of a channel.\<close>

definition secret_ok :: "crypto \<Rightarrow> string \<Rightarrow> bool \<Rightarrow> secure \<Rightarrow> bool" where
  "secret_ok cr secret initiator s \<longleftrightarrow> sd_initiator s = initiator \<and>
     (sd_state s \<noteq> Invalid \<longrightarrow> 16 \<le> length secret \<and> sd_psk s = secret_key cr secret) \<and>
     (sd_state s = ClientHello \<longrightarrow> initiator \<and> sd_publicKey s = cr_public cr (sd_privateKey s)) \<and>
     (sd_state s \<in> {ServerHello, Established} \<longrightarrow> (\<exists>k. keyed_by cr (secret_key cr secret) k s))"

lemma secret_new: "secret_ok cr secret initiator (new_secure cr secret initiator)"
  by (simp add: secret_ok_def new_secure_def secret_key_def)

lemma keyed_by_same:
  assumes "sd_initiator t = sd_initiator s" "sd_publicKey t = sd_publicKey s" "sd_localNonce t = sd_localNonce s"
    "sd_remotePublic t = sd_remotePublic s" "sd_remoteNonce t = sd_remoteNonce s" "sd_master t = sd_master s"
    "sd_txKey t = sd_txKey s" "sd_rxKey t = sd_rxKey s" "sd_txPrefix t = sd_txPrefix s" "sd_rxPrefix t = sd_rxPrefix s"
  shows "keyed_by cr psk k t = keyed_by cr psk k s"
  using assms by (simp add: keyed_by_def session_keys_def transcript_def Let_def)

lemma keyed_update [simp]:
  "keyed_by cr psk k (s\<lparr>sd_state := st\<rparr>) = keyed_by cr psk k s"
  "keyed_by cr psk k (s\<lparr>sd_retry := r\<rparr>) = keyed_by cr psk k s"
  "keyed_by cr psk k (s\<lparr>sd_session := q\<rparr>) = keyed_by cr psk k s"
  "keyed_by cr psk k (s\<lparr>sd_txCounter := n\<rparr>) = keyed_by cr psk k s"
  "keyed_by cr psk k (s\<lparr>sd_state := st, sd_retry := r\<rparr>) = keyed_by cr psk k s"
  "keyed_by cr psk k (s\<lparr>sd_retry := r, sd_state := st\<rparr>) = keyed_by cr psk k s"
  by (rule keyed_by_same; simp)+

lemma derive_keyed:
  assumes "derive_keys cr s = (True, s')" and "sd_publicKey s = cr_public cr (sd_privateKey s)"
  shows "keyed_by cr (sd_psk s) (sd_privateKey s) s' \<and> sd_psk s' = sd_psk s \<and> sd_initiator s' = sd_initiator s"
  using assms
  by (auto simp: derive_keys_def keyed_by_def session_keys_def master_of_def transcript_def Let_def split: if_splits)

lemma secret_generate:
  assumes "secret_ok cr secret initiator s" and "sd_state s = Idle" and "generate_ephemeral cr rnd s = (good, s')"
  shows "if good then sd_state s' = Idle \<and> secret_ok cr secret initiator s' \<and> sd_publicKey s' = cr_public cr (sd_privateKey s')
    else sd_state s' = Invalid \<and> sd_initiator s' = initiator"
  using assms by (auto simp: generate_ephemeral_def secret_ok_def split: prod.splits option.splits)

lemma derive_fails: "derive_keys cr s = (False, s') \<Longrightarrow> s' = s"
  by (auto simp: derive_keys_def Let_def split: if_splits)

lemma secret_derive:
  assumes ok: "secret_ok cr secret initiator s" "sd_state s \<noteq> Invalid"
    and key: "sd_publicKey s = cr_public cr (sd_privateKey s)" and d: "derive_keys cr (take_remote packet s) = (good, s')"
  shows "sd_initiator s' = initiator \<and> (good \<longrightarrow> 16 \<le> length secret \<and> sd_psk s' = secret_key cr secret \<and>
    (\<exists>k. keyed_by cr (secret_key cr secret) k s'))"
proof (cases good)
  case False
  then show ?thesis using d ok derive_fails [of cr "take_remote packet s" s'] by (simp add: secret_ok_def take_remote_def)
next
  case True
  have "keyed_by cr (sd_psk (take_remote packet s)) (sd_privateKey (take_remote packet s)) s' \<and>
      sd_psk s' = sd_psk (take_remote packet s) \<and> sd_initiator s' = sd_initiator (take_remote packet s)"
    using d True key by (intro derive_keyed) (simp_all add: take_remote_def)
  then show ?thesis using ok by (auto simp: secret_ok_def take_remote_def)
qed

lemma secret_begin:
  assumes "secret_ok cr secret initiator s"
  shows "secret_ok cr secret initiator (snd (sd_begin cr rnd s))"
proof (cases "\<not> sd_initiator s \<or> sd_state s \<noteq> Idle")
  case True
  then show ?thesis using assms by (simp add: sd_begin_def)
next
  case False
  obtain good s' where g: "generate_ephemeral cr rnd s = (good, s')" by fastforce
  have "initiator" using False assms by (simp add: secret_ok_def)
  then show ?thesis using secret_generate [OF assms _ g] False g
    by (cases good) (auto simp: sd_begin_def secret_ok_def Let_def)
qed

lemma secret_answer_hello:
  assumes ok: "secret_ok cr secret initiator s"
  shows "secret_ok cr secret initiator (snd (answer_hello cr rnd packet s))"
proof (cases "sd_state s = Idle")
  case False
  then show ?thesis using ok by (simp add: answer_hello_def)
next
  case True
  obtain good s' where g: "generate_ephemeral cr rnd s = (good, s')" by fastforce
  obtain good2 s'' where d: "derive_keys cr (take_remote packet s') = (good2, s'')" by fastforce
  note g' = secret_generate [OF ok True g]
  have "good \<Longrightarrow> sd_initiator s'' = initiator \<and> (good2 \<longrightarrow> 16 \<le> length secret \<and> sd_psk s'' = secret_key cr secret \<and>
      (\<exists>k. keyed_by cr (secret_key cr secret) k s''))"
    using g' by (intro secret_derive [OF _ _ _ d]) auto
  then show ?thesis using g' ok True g d
    by (cases good; cases good2) (auto simp: answer_hello_def secret_ok_def Let_def)
qed

lemma secret_answer_server:
  assumes ok: "secret_ok cr secret initiator s"
  shows "secret_ok cr secret initiator (snd (answer_server cr packet s))"
proof (cases "sd_state s = ClientHello")
  case False
  then show ?thesis using ok by (simp add: answer_server_def)
next
  case True
  obtain good s' where d: "derive_keys cr (take_remote packet s) = (good, s')" by fastforce
  have "sd_initiator s' = initiator \<and> (good \<longrightarrow> 16 \<le> length secret \<and> sd_psk s' = secret_key cr secret \<and>
      (\<exists>k. keyed_by cr (secret_key cr secret) k s'))"
    using ok True by (intro secret_derive [OF ok _ _ d]) (simp_all add: secret_ok_def)
  then show ?thesis using ok True d
    by (cases good) (auto simp: answer_server_def secret_ok_def Let_def take_remote_def)
qed

lemma secret_handshake:
  assumes ok: "secret_ok cr secret initiator s"
  shows "secret_ok cr secret initiator (snd (handshake cr rnd packet s))"
proof -
  have "secret_ok cr secret initiator (snd (answer_finish cr packet s))" if "sd_state s = ServerHello"
    using ok that by (simp add: answer_finish_def secret_ok_def)
  then show ?thesis using ok secret_answer_hello [OF ok] secret_answer_server [OF ok]
    by (simp add: handshake_def)
qed

lemma secret_admit:
  assumes ok: "secret_ok cr secret initiator s"
  shows "secret_ok cr secret initiator (snd (sd_admit cr ev s))"
proof -
  have "keyed_by cr psk k (note_counter n s) = keyed_by cr psk k s" for psk k n
    by (rule keyed_by_same) (simp_all add: note_counter_def Let_def)
  then have "secret_ok cr secret initiator (note_counter n s)" for n
    using ok by (simp add: secret_ok_def) (simp add: note_counter_def Let_def)
  then have "secret_ok cr secret initiator (snd (open_sealed cr p s))" for p
    using ok by (simp add: open_sealed_def Let_def split: option.split)
  moreover have "secret_ok cr secret initiator (snd (seal cr p s))" for p
    using ok by (simp add: seal_def secret_ok_def)
  moreover have "secret_ok cr secret initiator (set_session q s)" for q
    using ok by (simp add: set_session_def secret_ok_def)
  ultimately show ?thesis using secret_begin [OF ok] secret_handshake [OF ok]
    by (cases ev) (simp_all add: sd_admit_def)
qed

lemma secret_run: "secret_ok cr secret initiator s \<Longrightarrow> secret_ok cr secret initiator (sd_run cr evs s)"
  unfolding sd_run_def by (induction evs arbitrary: s) (simp_all add: secret_admit)

lemma handshake_invalid: "sd_state s = Invalid \<Longrightarrow> \<not> established (snd (handshake cr rnd packet s))"
  by (auto simp: handshake_def answer_hello_def answer_server_def established_def take_remote_def Let_def)

lemma established_code:
  assumes "\<not> established s" and "established (snd (handshake cr rnd packet s))"
  shows "(sd_initiator s \<and> hello_mac packet =
        keyed cr (sd_psk s) ''server-hello-v1:'' (transcript (snd (handshake cr rnd packet s))) \<and>
      same_remote packet (snd (handshake cr rnd packet s))) \<or>
    (\<not> sd_initiator s \<and> subspan 5 32 packet =
        keyed cr (sd_master (snd (handshake cr rnd packet s))) ''client-finish-v1:''
          (transcript (snd (handshake cr rnd packet s))))"
proof -
  have "\<not> established (snd (answer_hello cr rnd packet s))" if "\<not> sd_initiator s"
    using assms(1) by (auto simp: answer_hello_def established_def generate_ephemeral_def derive_keys_def
        take_remote_def Let_def split: prod.splits bool.splits option.splits)
  moreover have "hello_mac packet = keyed cr (sd_psk s) ''server-hello-v1:'' (transcript (snd (answer_server cr packet s))) \<and>
      same_remote packet (snd (answer_server cr packet s))"
    if "established (snd (answer_server cr packet s))"
    using assms(1) that
    by (auto simp: answer_server_def established_def take_remote_def same_remote_def derive_keys_def transcript_def Let_def
        split: if_splits)
  moreover have "transcript (s\<lparr>sd_state := Established, sd_retry := []\<rparr>) = transcript s" by (simp add: transcript_def)
  ultimately show ?thesis
    using assms by (auto simp: handshake_def answer_finish_def split: if_splits)
qed

text \<open>
  C10: a channel made with a secret becomes established, after any use, only by a handshake packet that
  proves the secret, which has at least 16 bytes.  Its keys then are those of the master key that the
  secret key, the transcript and the shared secret of the two public keys give; the packet that
  established a client is a hello of the server with the code of the transcript under the secret key,
  and the one that established a server has the code of the transcript under that master key.
\<close>

theorem established_needs_proof:
  assumes "s = sd_run cr evs (new_secure cr secret initiator)" and "\<not> established s"
    and "s' = snd (handshake cr rnd packet s)" and "established s'"
  shows "16 \<le> length secret \<and> (\<exists>k.
    let psk = secret_key cr secret;
        shared = cr_shared cr k (sd_remotePublic s');
        master = master_of cr psk (transcript s') shared
    in sd_publicKey s' = cr_public cr k \<and> nonzero shared \<and> session_keys cr master initiator s' \<and>
      (if initiator
       then same_remote packet s' \<and> hello_mac packet = keyed cr psk ''server-hello-v1:'' (transcript s')
       else subspan 5 32 packet = keyed cr master ''client-finish-v1:'' (transcript s')))"
proof -
  have ok: "secret_ok cr secret initiator s"
    unfolding assms(1) by (rule secret_run [OF secret_new])
  have ok': "secret_ok cr secret initiator s'" unfolding assms(3) by (rule secret_handshake [OF ok])
  then obtain k where k: "16 \<le> length secret" "keyed_by cr (secret_key cr secret) k s'" "sd_initiator s' = initiator"
    using assms(4) by (auto simp: secret_ok_def established_def)
  have code: "(sd_initiator s \<and> hello_mac packet = keyed cr (sd_psk s) ''server-hello-v1:'' (transcript s') \<and>
      same_remote packet s') \<or>
    (\<not> sd_initiator s \<and> subspan 5 32 packet = keyed cr (sd_master s') ''client-finish-v1:'' (transcript s'))"
    unfolding assms(3) by (rule established_code [OF assms(2) assms(4)[unfolded assms(3)]])
  have "sd_initiator s = initiator" "sd_psk s = secret_key cr secret"
    using ok assms(4) handshake_invalid [of s cr rnd packet] unfolding assms(3)
    by (auto simp: secret_ok_def established_def)
  then show ?thesis
    using k code by (auto simp: keyed_by_def session_keys_def Let_def)
qed

text \<open>The hello of a client, the server that has answered it, and the finish of the client.\<close>

definition ex_psk :: bytes where "ex_psk = secret_key ex_crypto ''sixteen-byte-key''"

definition ex_hello :: bytes where
  "ex_hello = dsh 1 @ replicate 32 5 @ replicate 16 2 @
     keyed ex_crypto ex_psk ''client-hello-v1:'' (replicate 32 5 @ replicate 16 2)"

definition ex_entropy :: entropy where "ex_entropy = (Some (replicate 32 3), Some (replicate 16 4))"

definition ex_server :: secure where
  "ex_server = sd_run ex_crypto [Handshake ex_entropy ex_hello] (new_secure ex_crypto ''sixteen-byte-key'' False)"

definition ex_finish :: bytes where
  "ex_finish = dsh 3 @ keyed ex_crypto (sd_master ex_server) ''client-finish-v1:'' (transcript ex_server)"

lemma ex_server_waits:
  "sd_state ex_server = ServerHello \<and> \<not> sd_initiator ex_server \<and> session_keys ex_crypto (sd_master ex_server) False ex_server"
proof -
  let ?s = "new_secure ex_crypto ''sixteen-byte-key'' False"
  have s: "sd_state ?s = Idle" "\<not> sd_initiator ?s" "sd_psk ?s = ex_psk"
    by (simp_all add: new_secure_def ex_psk_def secret_key_def)
  note h = hello_parts [OF length_replicate length_replicate length_keyed [OF ex_crypto_ok], of 1 5 2 ex_psk
      "''client-hello-v1:''" "replicate 32 5 @ replicate 16 2", folded ex_hello_def]
  have "nonzero (cr_shared ex_crypto (replicate 32 3) (hello_key ex_hello))"
    by (simp add: ex_crypto_def nonzero_def) code_simp
  then obtain s' where "handshake ex_crypto ex_entropy ex_hello ?s = (dsh 2 @ cr_public ex_crypto (replicate 32 3) @ replicate 16 4 @
      keyed ex_crypto (sd_psk ?s) ''server-hello-v1:'' (hello_key ex_hello @ hello_nonce ex_hello @ cr_public ex_crypto (replicate 32 3) @ replicate 16 4), s')"
    "sd_state s' = ServerHello" "\<exists>m. session_keys ex_crypto m False s'"
    using server_answers [OF s(1,2) h(5,7,6), of ex_crypto "replicate 32 3" _ "replicate 16 4"] h(3,4) s(3)
    unfolding ex_entropy_def by fastforce
  then show ?thesis by (auto simp: ex_server_def sd_run_def sd_admit_def session_keys_def)
qed

theorem established_needs_proof_witness:
  "established (snd (handshake ex_crypto (None, None) ex_finish ex_server)) \<and>
   16 \<le> length ''sixteen-byte-key'' \<and> (\<exists>k.
    let psk = secret_key ex_crypto ''sixteen-byte-key'';
        s' = snd (handshake ex_crypto (None, None) ex_finish ex_server);
        shared = cr_shared ex_crypto k (sd_remotePublic s');
        master = master_of ex_crypto psk (transcript s') shared
    in sd_publicKey s' = cr_public ex_crypto k \<and> nonzero shared \<and> session_keys ex_crypto master False s' \<and>
      subspan 5 32 ex_finish = keyed ex_crypto master ''client-finish-v1:'' (transcript s'))"
proof -
  note f = finish_parts [OF length_keyed [OF ex_crypto_ok], of 3 "sd_master ex_server" "''client-finish-v1:''"
      "transcript ex_server", folded ex_finish_def]
  have e: "\<not> established ex_server" using ex_server_waits by (simp add: established_def)
  obtain s' where "handshake ex_crypto (None, None) ex_finish ex_server = ([], s')" "established s'"
    using server_completes [of ex_server ex_finish ex_crypto "sd_master ex_server" "(None, None)"] ex_server_waits f by blast
  then have e': "established (snd (handshake ex_crypto (None, None) ex_finish ex_server))" by simp
  show ?thesis
    using e' established_needs_proof [OF ex_server_def e refl e'] by (simp add: Let_def)
qed

end
