(* ===== verification/Datagram_Scheduler.thy ===== *)
theory Datagram_Scheduler
  imports Interfaces Floating Peer_Tunnel
begin

text \<open>
  The budget all outgoing peer datagrams share, \<open>DatagramScheduler\<close> of \<open>src/net/datagram_scheduler.cpp\<close>:
  two queues per peer, realtime and reliable, a token bucket per peer and one for all, and the
  round robin that empties the queues.  The carrier is the list of what was handed to it.
\<close>

section \<open>State\<close>

record limits =
  lm_perPeerBytesPerSecond :: nat
  lm_totalBytesPerSecond :: nat
  lm_queuedBytesPerClass :: nat
  lm_maxQueueAgeMs :: u32

definition default_limits :: limits where
  "default_limits = \<lparr>lm_perPeerBytesPerSecond = 512 * 1024, lm_totalBytesPerSecond = 4 * 1024 * 1024,
     lm_queuedBytesPerClass = 256 * 1024, lm_maxQueueAgeMs = 100\<rparr>"

definition overhead :: nat where "overhead = 64"
definition burst :: rat where "burst = 2 * (2048 + of_nat overhead)"

record packet =
  pk_queuedAt :: u32
  pk_bytes :: bytes

text \<open>A queue with the number of its bytes, a \<open>size_t\<close>.\<close>

record lane =
  la_queue :: "packet list"
  la_bytes :: nat

record sched_peer =
  sp_realtime :: lane
  sp_reliable :: lane
  sp_nextClass :: nat
  sp_tokens :: rat

record scheduler =
  sc_limits :: limits
  sc_peers :: "(u64, sched_peer) omap"
  sc_nextPeer :: u64
  sc_now :: u32
  sc_started :: bool
  sc_tokens :: rat

definition lane_of :: "nat \<Rightarrow> sched_peer \<Rightarrow> lane" where
  "lane_of i p = (if i = 0 then sp_realtime p else sp_reliable p)"

definition set_lane :: "nat \<Rightarrow> lane \<Rightarrow> sched_peer \<Rightarrow> sched_peer" where
  "set_lane i la p = (if i = 0 then p\<lparr>sp_realtime := la\<rparr> else p\<lparr>sp_reliable := la\<rparr>)"

definition new_peer :: sched_peer where
  "new_peer = \<lparr>sp_realtime = \<lparr>la_queue = [], la_bytes = 0\<rparr>, sp_reliable = \<lparr>la_queue = [], la_bytes = 0\<rparr>,
     sp_nextClass = 0, sp_tokens = burst\<rparr>"

definition new_scheduler :: "limits \<Rightarrow> scheduler option" where
  "new_scheduler lm =
     (if lm_perPeerBytesPerSecond lm = 0 \<or> lm_totalBytesPerSecond lm = 0 \<or>
         lm_queuedBytesPerClass lm < 2048 \<or> lm_maxQueueAgeMs lm = 0
      then None
      else Some \<lparr>sc_limits = lm, sc_peers = [], sc_nextPeer = 0, sc_now = 0, sc_started = False, sc_tokens = burst\<rparr>)"

section \<open>Peers and sending\<close>

definition sched_add_peer :: "u64 \<Rightarrow> scheduler \<Rightarrow> bool \<times> scheduler" where
  "sched_add_peer peer sc =
     (if length (sc_peers sc) \<ge> 4096 then (False, sc)
      else if om_has peer (sc_peers sc) then (False, sc)
      else (True, sc\<lparr>sc_peers := om_put peer new_peer (sc_peers sc)\<rparr>))"

definition sched_remove_peer :: "u64 \<Rightarrow> scheduler \<Rightarrow> scheduler" where
  "sched_remove_peer peer sc = sc\<lparr>sc_peers := om_erase peer (sc_peers sc)\<rparr>"

definition pop_front :: "lane \<Rightarrow> lane" where
  "pop_front la = \<lparr>la_queue = tl (la_queue la), la_bytes = size_sub (la_bytes la) (length (pk_bytes (hd (la_queue la))))\<rparr>"

text \<open>Old realtime packets go until the new one fits.\<close>

function shed :: "nat \<Rightarrow> nat \<Rightarrow> lane \<Rightarrow> lane" where
  "shed n cap la =
     (if la_queue la \<noteq> [] \<and> n > size_sub cap (la_bytes la) then shed n cap (pop_front la) else la)"
  by pat_completeness auto
termination
  by (relation "measure (\<lambda>(_, _, la). length (la_queue la))") (auto simp: pop_front_def)

definition push_back :: "u32 \<Rightarrow> bytes \<Rightarrow> lane \<Rightarrow> lane" where
  "push_back now bytes la =
     \<lparr>la_queue = la_queue la @ [\<lparr>pk_queuedAt = now, pk_bytes = bytes\<rparr>], la_bytes = la_bytes la + length bytes\<rparr>"

definition sched_send :: "u64 \<Rightarrow> bytes \<Rightarrow> scheduler \<Rightarrow> bool \<times> scheduler" where
  "sched_send peer bytes sc =
     (case map_of (sc_peers sc) peer of
        None \<Rightarrow> (False, sc)
      | Some p \<Rightarrow>
          let kind = datagram_kind bytes; index = (if kind = Realtime then 0 else 1); la = lane_of index p;
              cap = lm_queuedBytesPerClass (sc_limits sc);
              full = length bytes > size_sub cap (la_bytes la);
              la' = (if full then shed (length bytes) cap la else la)
          in if kind = Invalid \<or> full \<and> index = 1 then (False, sc)
             else (True, sc\<lparr>sc_peers := om_put peer (set_lane index (push_back (sc_now sc) bytes la') p) (sc_peers sc)\<rparr>))"

section \<open>Time\<close>

text \<open>\<open>min(burst, tokens + elapsed * (rate / 1000.0))\<close> in \<open>double\<close>.\<close>

definition refill :: "u32 \<Rightarrow> nat \<Rightarrow> rat \<Rightarrow> rat" where
  "refill elapsed rate tokens =
     min burst (f64 (tokens + f64 (of_nat (unat elapsed) * f64 (f64 (of_nat rate) / 1000))))"

function expire :: "u32 \<Rightarrow> u32 \<Rightarrow> lane \<Rightarrow> lane" where
  "expire now age la =
     (if la_queue la \<noteq> [] \<and> now - pk_queuedAt (hd (la_queue la)) > age then expire now age (pop_front la) else la)"
  by pat_completeness auto
termination
  by (relation "measure (\<lambda>(_, _, la). length (la_queue la))") (auto simp: pop_front_def)

declare shed.simps [simp del] expire.simps [simp del]

definition age_peer :: "u32 \<Rightarrow> u32 \<Rightarrow> limits \<Rightarrow> sched_peer \<Rightarrow> sched_peer" where
  "age_peer elapsed now lm p =
     p\<lparr>sp_tokens := refill elapsed (lm_perPeerBytesPerSecond lm) (sp_tokens p),
       sp_realtime := expire now (lm_maxQueueAgeMs lm) (sp_realtime p),
       sp_reliable := expire now (lm_maxQueueAgeMs lm) (sp_reliable p)\<rparr>"

definition begin_update :: "u32 \<Rightarrow> scheduler \<Rightarrow> scheduler" where
  "begin_update now sc =
     (let elapsed = (if sc_started sc then now - sc_now sc else 0) in
      sc\<lparr>sc_started := True, sc_now := now,
         sc_tokens := refill elapsed (lm_totalBytesPerSecond (sc_limits sc)) (sc_tokens sc),
         sc_peers := map (\<lambda>(pid, p). (pid, age_peer elapsed now (sc_limits sc) p)) (sc_peers sc)\<rparr>)"

section \<open>The round robin\<close>

definition packet_cost :: "lane \<Rightarrow> nat" where
  "packet_cost la = length (pk_bytes (hd (la_queue la))) + overhead"

definition lane_ready :: "rat \<Rightarrow> sched_peer \<Rightarrow> nat \<Rightarrow> bool" where
  "lane_ready tokens p i \<longleftrightarrow> la_queue (lane_of i p) \<noteq> [] \<and>
     of_nat (packet_cost (lane_of i p)) \<le> sp_tokens p \<and> of_nat (packet_cost (lane_of i p)) \<le> tokens"

definition pick_lane :: "rat \<Rightarrow> sched_peer \<Rightarrow> nat option" where
  "pick_lane tokens p = find (lane_ready tokens p) [sp_nextClass p mod 2, (sp_nextClass p + 1) mod 2]"

text \<open>The peers from the next one on, around the map, and who follows one of them.\<close>

definition from_next :: "u64 \<Rightarrow> (u64, sched_peer) omap \<Rightarrow> (u64, sched_peer) omap" where
  "from_next start m = filter (\<lambda>(pid, p). pid \<ge> start) m @ filter (\<lambda>(pid, p). pid < start) m"

fun next_after :: "'a \<Rightarrow> 'a list \<Rightarrow> 'a \<Rightarrow> 'a" where
  "next_after x [] first = first"
| "next_after x [y] first = first"
| "next_after x (y # z # ys) first = (if x = y then z else next_after x (z # ys) first)"

definition serve :: "nat \<Rightarrow> sched_peer \<Rightarrow> sched_peer" where
  "serve i p =
     (set_lane i (pop_front (lane_of i p)) p)\<lparr>sp_tokens := f64 (sp_tokens p - of_nat (packet_cost (lane_of i p))),
        sp_nextClass := 1 - i\<rparr>"

definition pass :: "scheduler \<Rightarrow> ((u64 \<times> bytes) \<times> scheduler) option" where
  "pass sc =
     (let order = from_next (sc_nextPeer sc) (sc_peers sc) in
      case find (\<lambda>(pid, p). pick_lane (sc_tokens sc) p \<noteq> None) order of
        None \<Rightarrow> None
      | Some (pid, p) \<Rightarrow>
          (case pick_lane (sc_tokens sc) p of
             None \<Rightarrow> None
           | Some i \<Rightarrow>
               Some ((pid, pk_bytes (hd (la_queue (lane_of i p)))),
                 sc\<lparr>sc_tokens := f64 (sc_tokens sc - of_nat (packet_cost (lane_of i p))),
                    sc_peers := om_put pid (serve i p) (sc_peers sc),
                    sc_nextPeer := next_after pid (map fst order) (fst (hd order))\<rparr>)))"

fun passes :: "nat \<Rightarrow> scheduler \<Rightarrow> (u64 \<times> bytes) list \<times> scheduler" where
  "passes 0 sc = ([], sc)"
| "passes (Suc n) sc =
     (case pass sc of
        None \<Rightarrow> ([], sc)
      | Some (out, sc') \<Rightarrow> (case passes n sc' of (outs, sc'') \<Rightarrow> (out # outs, sc'')))"

definition sched_update :: "u32 \<Rightarrow> scheduler \<Rightarrow> (u64 \<times> bytes) list \<times> scheduler" where
  "sched_update now sc = passes 4096 (begin_update now sc)"

end
