(* ===== verification/Scheduler_Bounds.thy ===== *)
theory Scheduler_Bounds
  imports Datagram_Scheduler
begin

text \<open>
  What the datagram scheduler guarantees: its queues stay within their limits, one update sends no
  more than the burst, and an update ends because nothing more may be sent.
\<close>

section \<open>Rounding small numbers\<close>

lemma rat_log2_le:
  assumes "0 < r"
  shows "2 powi rat_log2 r \<le> r"
proof -
  obtain n d where q: "quotient_of r = (n, d)" by fastforce
  have r: "r = of_int n / of_int d" and d: "0 < d"
    using quotient_of_div [OF q] quotient_of_denom_pos [OF q] by auto
  have n: "0 < n" using assms d unfolding r by (simp add: zero_less_divide_iff)
  define a b where "a = floorlog 2 (nat n)" and "b = floorlog 2 (nat d)"
  have a: "2 ^ (a - 1) \<le> nat n" "0 < a"
    using floorlog_bounds [of "nat n" 2] floorlog_eq_zero_iff [of 2 "nat n"] n unfolding a_def by auto
  have b: "nat d < 2 ^ b" using floorlog_bounds [of "nat d" 2] d unfolding b_def by auto
  have na: "(2 :: rat) ^ (a - 1) \<le> of_int n"
  proof -
    have "int (2 ^ (a - 1)) \<le> n" using a(1) n by linarith
    then have "of_int (int (2 ^ (a - 1))) \<le> (of_int n :: rat)" by (simp only: of_int_le_iff)
    then show ?thesis by simp
  qed
  have db: "(of_int d :: rat) \<le> 2 ^ b"
  proof -
    have "d \<le> int (2 ^ b)" using b d by linarith
    then have "(of_int d :: rat) \<le> of_int (int (2 ^ b))" by (simp only: of_int_le_iff)
    then show ?thesis by simp
  qed
  have dp: "(0 :: rat) < of_int d" using d by simp
  have "(2 :: rat) powi (int a - int b - 1) = 2 ^ (a - 1) / 2 ^ b"
    using a(2) by (cases a) (simp_all add: power_int_diff)
  also have "\<dots> \<le> of_int n / of_int d"
    using na db dp n by (intro frac_le) auto
  finally have "2 powi (int a - int b - 1) \<le> r" unfolding r .
  then show ?thesis by (simp add: rat_log2_def q a_def b_def Let_def)
qed

lemma round_half_even_le:
  assumes "r \<le> of_int k"
  shows "round_half_even r \<le> k"
proof -
  have f: "\<lfloor>r\<rfloor> \<le> k" using floor_mono [OF assms] by simp
  show ?thesis
  proof (cases "\<lfloor>r\<rfloor> = k")
    case True
    then have "r = of_int k" using assms of_int_floor_le [of r] by (intro antisym) simp_all
    then show ?thesis by (simp add: round_half_even_def)
  next
    case False
    then show ?thesis using f by (auto simp: round_half_even_def Let_def)
  qed
qed

lemma f64_le_nat:
  assumes "0 \<le> x" and "x \<le> of_nat n" and "n < 2 ^ 52"
  shows "f64 x \<le> of_nat n"
proof (cases "x = 0")
  case True
  then show ?thesis by simp
next
  case False
  then have pos: "0 < x" using assms(1) by simp
  have "rat_log2 x < 52"
  proof (rule ccontr)
    assume "\<not> rat_log2 x < 52"
    then have "(2 :: rat) powi 52 \<le> 2 powi rat_log2 x" by (intro power_int_increasing) auto
    also have "\<dots> \<le> x" by (rule rat_log2_le [OF pos])
    also have "\<dots> \<le> of_nat n" by (rule assms(2))
    finally have "(of_nat (2 ^ 52) :: rat) \<le> of_nat n" by simp
    then show False using assms(3) by (simp only: of_nat_le_iff)
  qed
  define e where "e = max (rat_log2 x - 52) (- 1074)"
  have e: "e \<le> 0" using \<open>rat_log2 x < 52\<close> by (simp add: e_def)
  then obtain k where k: "e = - int k" using nonpos_int_cases by blast
  have "x / 2 powi e \<le> of_int (int n * 2 ^ k)"
    using assms(2) by (simp add: k power_int_minus divide_inverse mult.commute)
  then have "round_half_even (x / 2 powi e) \<le> int n * 2 ^ k" by (rule round_half_even_le)
  then have "(of_int (round_half_even (x / 2 powi e)) :: rat) \<le> of_int (int n * 2 ^ k)" by (simp only: of_int_le_iff)
  then have "of_int (round_half_even (x / 2 powi e)) * 2 powi e \<le> (of_int (int n * 2 ^ k) :: rat) * 2 powi e"
    by (rule mult_right_mono) simp
  also have "\<dots> = of_nat n" by (simp add: k power_int_minus)
  finally show ?thesis
    using pos by (simp add: f64_def round_bits_def e_def Let_def)
qed

text \<open>Paying a whole number of bytes lowers the whole number of tokens by at least as much.\<close>

lemma pay_ceiling:
  assumes "of_nat c \<le> t" and "t \<le> burst"
  shows "0 \<le> f64 (t - of_nat c)" "nat \<lceil>f64 (t - of_nat c)\<rceil> + c \<le> nat \<lceil>t\<rceil>" "f64 (t - of_nat c) \<le> burst"
proof -
  have t: "0 \<le> t" using assms(1) by (meson of_nat_0_le_iff order.trans)
  have N: "t \<le> of_nat (nat \<lceil>t\<rceil>)" using t by (simp add: of_nat_nat)
  have "t \<le> of_int 4224" using assms(2) by (simp add: burst_def overhead_def)
  then have "\<lceil>t\<rceil> \<le> 4224" unfolding ceiling_le_iff .
  moreover have "int c \<le> \<lceil>t\<rceil>" using assms(1) by (metis ceiling_mono ceiling_of_nat)
  ultimately have small2: "c \<le> nat \<lceil>t\<rceil>" "nat \<lceil>t\<rceil> \<le> 4224" by (simp_all add: le_nat_iff nat_le_iff)
  have "nat \<lceil>t\<rceil> - c \<le> 4224" using small2 by linarith
  then have "nat \<lceil>t\<rceil> - c < 2 ^ 52" by (rule le_less_trans) simp
  note small = this small2
  have "t - of_nat c \<le> of_nat (nat \<lceil>t\<rceil> - c)" using N small(2) by (simp add: of_nat_diff)
  then have le: "f64 (t - of_nat c) \<le> of_nat (nat \<lceil>t\<rceil> - c)"
    using assms(1) small(1) by (intro f64_le_nat) simp_all
  show "0 \<le> f64 (t - of_nat c)" using assms(1) by simp
  have "\<lceil>f64 (t - of_nat c)\<rceil> \<le> int (nat \<lceil>t\<rceil> - c)" using le by (simp add: ceiling_le_iff)
  then show "nat \<lceil>f64 (t - of_nat c)\<rceil> + c \<le> nat \<lceil>t\<rceil>" using small(2) by linarith
  have "(of_nat (nat \<lceil>t\<rceil> - c) :: rat) \<le> of_nat 4224" using small(3) by (simp only: of_nat_le_iff)
  then show "f64 (t - of_nat c) \<le> burst" using le by (simp add: burst_def overhead_def)
qed

section \<open>The state of a scheduler\<close>

lemma group_header_length: "peer_group_header bs \<noteq> 0 \<Longrightarrow> 58 \<le> length bs \<and> length bs \<le> 1227"
  by (auto simp: peer_group_header_def Let_def split: if_splits)

lemma plain_kind_length: "plain_kind bs \<noteq> Invalid \<Longrightarrow> 38 \<le> length bs \<and> length bs \<le> 2048"
  by (auto simp: plain_kind_def kReliableDatagramBytes_def kIceDatagramBytes_def kSealedDatagramOverhead_def split: if_splits)

lemma datagram_kind_length: "datagram_kind bs \<noteq> Invalid \<Longrightarrow> 38 \<le> length bs \<and> length bs \<le> 2048"
  using group_header_length [of bs] group_header_length [of "drop 20 bs"] plain_kind_length [of bs]
    plain_kind_length [of "drop 20 bs"]
  by (auto simp: datagram_kind_def is_peer_tunnel_def Let_def split: if_splits)

definition lane_kind :: "nat \<Rightarrow> datagram_kind" where
  "lane_kind i = (if i = 0 then Realtime else Reliable)"

definition lane_ok :: "nat \<Rightarrow> nat \<Rightarrow> lane \<Rightarrow> bool" where
  "lane_ok cap i la \<longleftrightarrow> la_bytes la = sum_list (map (\<lambda>p. length (pk_bytes p)) (la_queue la)) \<and> la_bytes la \<le> cap \<and>
     (\<forall>p \<in> set (la_queue la). datagram_kind (pk_bytes p) = lane_kind i)"

definition tokens_ok :: "rat \<Rightarrow> bool" where
  "tokens_ok t \<longleftrightarrow> 0 \<le> t \<and> t \<le> burst"

definition peer_ok :: "nat \<Rightarrow> sched_peer \<Rightarrow> bool" where
  "peer_ok cap p \<longleftrightarrow> lane_ok cap 0 (sp_realtime p) \<and> lane_ok cap 1 (sp_reliable p) \<and> tokens_ok (sp_tokens p)"

definition sched_ok :: "scheduler \<Rightarrow> bool" where
  "sched_ok sc \<longleftrightarrow> 2048 \<le> lm_queuedBytesPerClass (sc_limits sc) \<and> om_ok (sc_peers sc) \<and> length (sc_peers sc) \<le> 4096 \<and>
     tokens_ok (sc_tokens sc) \<and> (\<forall>p \<in> snd ` set (sc_peers sc). peer_ok (lm_queuedBytesPerClass (sc_limits sc)) p)"

lemma lane_kind_valid: "lane_kind i \<noteq> Invalid"
  by (simp add: lane_kind_def)

lemma lane_packet_length:
  "lane_ok cap i la \<Longrightarrow> p \<in> set (la_queue la) \<Longrightarrow> 38 \<le> length (pk_bytes p) \<and> length (pk_bytes p) \<le> 2048"
  using datagram_kind_length [of "pk_bytes p"] lane_kind_valid [of i] by (simp add: lane_ok_def)

lemma pop_front_ok: "lane_ok cap i la \<Longrightarrow> la_queue la \<noteq> [] \<Longrightarrow> lane_ok cap i (pop_front la)"
  by (cases "la_queue la") (auto simp: lane_ok_def pop_front_def size_sub_def)

lemma shed_ok: "lane_ok cap i la \<Longrightarrow> lane_ok cap i (shed n cap la)"
proof (induction n cap la rule: shed.induct)
  case (1 n cap la)
  then show ?case by (subst shed.simps) (auto intro: pop_front_ok)
qed

lemma shed_fits: "lane_ok cap i la \<Longrightarrow> n \<le> cap \<Longrightarrow> la_bytes (shed n cap la) + n \<le> cap"
proof (induction n cap la rule: shed.induct)
  case (1 n cap la)
  show ?case
  proof (cases "la_queue la \<noteq> [] \<and> n > size_sub cap (la_bytes la)")
    case True
    then show ?thesis using 1 pop_front_ok [of cap i la] by (subst shed.simps) simp
  next
    case False
    have "shed n cap la = la" using False by (subst shed.simps) (simp only: if_False)
    moreover have "la_bytes la + n \<le> cap"
      using False 1(2,3) by (cases "la_queue la") (auto simp: lane_ok_def size_sub_def)
    ultimately show ?thesis by simp
  qed
qed

lemma expire_ok: "lane_ok cap i la \<Longrightarrow> lane_ok cap i (expire now age la)"
proof (induction now age la rule: expire.induct)
  case (1 now age la)
  then show ?case by (subst expire.simps) (auto intro: pop_front_ok)
qed

lemma push_back_ok:
  "lane_ok cap i la \<Longrightarrow> la_bytes la + length bs \<le> cap \<Longrightarrow> datagram_kind bs = lane_kind i \<Longrightarrow> lane_ok cap i (push_back now bs la)"
  by (auto simp: lane_ok_def push_back_def)

lemma lane_of_ok: "peer_ok cap p \<Longrightarrow> i < 2 \<Longrightarrow> lane_ok cap i (lane_of i p)"
  by (auto simp: peer_ok_def lane_of_def less_2_cases_iff)

lemma set_lane_ok: "peer_ok cap p \<Longrightarrow> i < 2 \<Longrightarrow> lane_ok cap i la \<Longrightarrow> peer_ok cap (set_lane i la p)"
  by (auto simp: peer_ok_def set_lane_def less_2_cases_iff)

lemma set_lane_tokens [simp]: "sp_tokens (set_lane i la p) = sp_tokens p"
  by (simp add: set_lane_def)

lemma put_peer_ok:
  assumes "sched_ok sc" and "peer_ok (lm_queuedBytesPerClass (sc_limits sc)) p"
    and "om_has pid (sc_peers sc) \<or> length (sc_peers sc) < 4096"
  shows "sched_ok (sc\<lparr>sc_peers := om_put pid p (sc_peers sc)\<rparr>)"
proof -
  have "length (om_put pid p (sc_peers sc)) \<le> 4096"
    using assms(1,3) by (auto simp: sched_ok_def length_om_put)
  then show ?thesis
    using assms(1,2) set_om_put_subset [of pid p "sc_peers sc"] by (fastforce simp: sched_ok_def)
qed

lemma find_peer_ok:
  "sched_ok sc \<Longrightarrow> map_of (sc_peers sc) pid = Some p \<Longrightarrow>
   peer_ok (lm_queuedBytesPerClass (sc_limits sc)) p \<and> om_has pid (sc_peers sc)"
  using om_find_in_set [of "sc_peers sc" pid p] by (force simp: sched_ok_def om_has_iff)

lemma send_ok:
  assumes "sched_ok sc"
  shows "sched_ok (snd (sched_send pid bs sc))"
proof (cases "map_of (sc_peers sc) pid")
  case None
  then show ?thesis using assms by (simp add: sched_send_def)
next
  case (Some p)
  let ?cap = "lm_queuedBytesPerClass (sc_limits sc)"
  let ?i = "(if datagram_kind bs = Realtime then 0 else 1) :: nat"
  let ?la = "lane_of ?i p"
  let ?full = "length bs > size_sub ?cap (la_bytes ?la)"
  let ?la' = "if ?full then shed (length bs) ?cap ?la else ?la"
  note p = find_peer_ok [OF assms Some]
  have lane: "lane_ok ?cap ?i ?la" using p by (intro lane_of_ok) auto
  show ?thesis
  proof (cases "datagram_kind bs = Invalid \<or> ?full \<and> ?i = 1")
    case True
    then have "sched_send pid bs sc = (False, sc)" using Some by (simp only: sched_send_def option.case Let_def if_True)
    then show ?thesis using assms by simp
  next
    case False
    have kind: "datagram_kind bs = lane_kind ?i" using False by (cases "datagram_kind bs") (auto simp: lane_kind_def)
    have "length bs \<le> 2048" using datagram_kind_length [of bs] False by simp
    then have "length bs \<le> ?cap" using assms by (simp add: sched_ok_def)
    then have "la_bytes ?la' + length bs \<le> ?cap"
      using shed_fits [OF lane] lane by (auto simp: size_sub_def lane_ok_def split: if_splits)
    moreover have "lane_ok ?cap ?i ?la'" using lane shed_ok by simp
    ultimately have "lane_ok ?cap ?i (push_back (sc_now sc) bs ?la')" using push_back_ok kind by blast
    then have "peer_ok ?cap (set_lane ?i (push_back (sc_now sc) bs ?la') p)"
      using p by (intro set_lane_ok) auto
    then have "sched_ok (sc\<lparr>sc_peers := om_put pid (set_lane ?i (push_back (sc_now sc) bs ?la') p) (sc_peers sc)\<rparr>)"
      using put_peer_ok [OF assms] p by blast
    moreover have "sched_send pid bs sc =
        (True, sc\<lparr>sc_peers := om_put pid (set_lane ?i (push_back (sc_now sc) bs ?la') p) (sc_peers sc)\<rparr>)"
      using False Some by (simp only: sched_send_def option.case Let_def if_False)
    ultimately show ?thesis by simp
  qed
qed

lemma refill_ok: "tokens_ok t \<Longrightarrow> tokens_ok (refill elapsed rate t)"
proof -
  assume t: "tokens_ok t"
  have "0 \<le> f64 (t + f64 (of_nat (unat elapsed) * f64 (f64 (of_nat rate) / 1000)))"
    using t unfolding tokens_ok_def
    by (intro f64_nonneg add_nonneg_nonneg mult_nonneg_nonneg divide_nonneg_pos of_nat_0_le_iff) auto
  moreover have "0 \<le> burst" by (simp add: burst_def)
  ultimately show ?thesis by (simp add: tokens_ok_def refill_def)
qed

lemma begin_update_ok: "sched_ok sc \<Longrightarrow> sched_ok (begin_update now sc)"
proof -
  assume ok: "sched_ok sc"
  let ?el = "if sc_started sc then now - sc_now sc else 0"
  have "map fst (map (\<lambda>(pid, p). (pid, age_peer ?el now (sc_limits sc) p)) (sc_peers sc)) = map fst (sc_peers sc)" by auto
  then have "om_ok (map (\<lambda>(pid, p). (pid, age_peer ?el now (sc_limits sc) p)) (sc_peers sc))"
    using ok by (simp only: sched_ok_def om_ok_def)
  moreover have "peer_ok (lm_queuedBytesPerClass (sc_limits sc)) (age_peer ?el now (sc_limits sc) p)"
    if "p \<in> snd ` set (sc_peers sc)" for p
    using that ok by (auto simp: sched_ok_def peer_ok_def age_peer_def intro: expire_ok refill_ok)
  ultimately show ?thesis
    using ok by (force simp: sched_ok_def begin_update_def Let_def intro: refill_ok)
qed

section \<open>One pass\<close>

lemma pick_lane_ready: "pick_lane t p = Some i \<Longrightarrow> i < 2 \<and> lane_ready t p i"
  by (auto simp: pick_lane_def split: if_splits)

lemma from_next_set: "set (from_next start m) = set m"
  by (auto simp: from_next_def)

text \<open>What a pass does when it sends: a peer of the map, one of its lanes, and the next peer.\<close>

lemma pass_result:
  assumes "sched_ok sc" and "pass sc = Some (out, sc')"
  obtains pid p i where "map_of (sc_peers sc) pid = Some p" "i < 2" "lane_ready (sc_tokens sc) p i"
    "out = (pid, pk_bytes (hd (la_queue (lane_of i p))))"
    "sc_tokens sc' = f64 (sc_tokens sc - of_nat (packet_cost (lane_of i p)))"
    "sc_peers sc' = om_put pid (serve i p) (sc_peers sc)" "sc_limits sc' = sc_limits sc"
proof -
  let ?order = "from_next (sc_nextPeer sc) (sc_peers sc)"
  obtain pid p where f: "find (\<lambda>(pid, p). pick_lane (sc_tokens sc) p \<noteq> None) ?order = Some (pid, p)"
    using assms(2) by (auto simp: pass_def Let_def split: option.splits)
  then obtain i where i: "pick_lane (sc_tokens sc) p = Some i" and mem: "(pid, p) \<in> set ?order"
    by (auto simp: find_Some_iff) (metis nth_mem)
  have "(pid, p) \<in> set (sc_peers sc)" using mem by (simp add: from_next_set)
  then have "map_of (sc_peers sc) pid = Some p" using assms(1) by (simp add: om_find_iff sched_ok_def)
  moreover note pick_lane_ready [OF i]
  moreover have "out = (pid, pk_bytes (hd (la_queue (lane_of i p))))"
    "sc_tokens sc' = f64 (sc_tokens sc - of_nat (packet_cost (lane_of i p)))"
    "sc_peers sc' = om_put pid (serve i p) (sc_peers sc)" "sc_limits sc' = sc_limits sc"
    using assms(2) f i by (auto simp: pass_def Let_def)
  ultimately show thesis using that by blast
qed

lemma serve_ok:
  assumes "peer_ok cap p" and "i < 2" and "lane_ready t p i"
  shows "peer_ok cap (serve i p)"
proof -
  have lane: "lane_ok cap i (pop_front (lane_of i p))"
    using assms pop_front_ok [OF lane_of_ok] by (auto simp: lane_ready_def)
  have "tokens_ok (f64 (sp_tokens p - of_nat (packet_cost (lane_of i p))))"
    using assms pay_ceiling [of "packet_cost (lane_of i p)" "sp_tokens p"]
    by (simp add: tokens_ok_def lane_ready_def peer_ok_def)
  then show ?thesis
    using set_lane_ok [OF assms(1,2) lane] by (simp add: serve_def peer_ok_def)
qed

text \<open>The bytes of a pass, with the overhead, come out of the tokens.\<close>

definition charge :: "u64 \<times> bytes \<Rightarrow> nat" where
  "charge out = length (snd out) + overhead"

lemma pass_step:
  assumes ok: "sched_ok sc" and step: "pass sc = Some (out, sc')"
  shows "sched_ok sc'" "nat \<lceil>sc_tokens sc'\<rceil> + charge out \<le> nat \<lceil>sc_tokens sc\<rceil>" "102 \<le> charge out"
    "\<exists>p. map_of (sc_peers sc) (fst out) = Some p \<and> of_nat (charge out) \<le> sp_tokens p"
proof -
  let ?cap = "lm_queuedBytesPerClass (sc_limits sc)"
  obtain pid p i where r: "map_of (sc_peers sc) pid = Some p" "i < 2" "lane_ready (sc_tokens sc) p i"
    "out = (pid, pk_bytes (hd (la_queue (lane_of i p))))"
    "sc_tokens sc' = f64 (sc_tokens sc - of_nat (packet_cost (lane_of i p)))"
    "sc_peers sc' = om_put pid (serve i p) (sc_peers sc)" "sc_limits sc' = sc_limits sc"
    using pass_result [OF ok step] by blast
  note p = find_peer_ok [OF ok r(1)]
  have charge: "charge out = packet_cost (lane_of i p)" by (simp add: r(4) charge_def packet_cost_def)
  have pay: "tokens_ok (sc_tokens sc')" "nat \<lceil>sc_tokens sc'\<rceil> + charge out \<le> nat \<lceil>sc_tokens sc\<rceil>"
    using pay_ceiling [of "packet_cost (lane_of i p)" "sc_tokens sc"] r(3) ok
    by (simp_all add: r(5) charge tokens_ok_def lane_ready_def sched_ok_def)
  show "nat \<lceil>sc_tokens sc'\<rceil> + charge out \<le> nat \<lceil>sc_tokens sc\<rceil>" by (rule pay(2))
  have "sched_ok (sc\<lparr>sc_peers := om_put pid (serve i p) (sc_peers sc)\<rparr>)"
    using put_peer_ok [OF ok serve_ok] p r(2,3) by blast
  then show "sched_ok sc'" using pay(1) r(6,7) by (simp add: sched_ok_def)
  have "hd (la_queue (lane_of i p)) \<in> set (la_queue (lane_of i p))" using r(3) by (simp add: lane_ready_def)
  then show "102 \<le> charge out"
    using lane_packet_length [OF lane_of_ok] p r(2) by (fastforce simp: charge packet_cost_def overhead_def)
  show "\<exists>p. map_of (sc_peers sc) (fst out) = Some p \<and> of_nat (charge out) \<le> sp_tokens p"
    using r(1,3) by (simp add: r(4) charge_def lane_ready_def packet_cost_def)
qed

lemma passes_step:
  "sched_ok sc \<Longrightarrow> passes n sc = (outs, sc') \<Longrightarrow>
   sched_ok sc' \<and> nat \<lceil>sc_tokens sc'\<rceil> + sum_list (map charge outs) \<le> nat \<lceil>sc_tokens sc\<rceil> \<and>
   102 * length outs \<le> sum_list (map charge outs) \<and> (length outs < n \<longrightarrow> pass sc' = None)"
proof (induction n arbitrary: sc outs)
  case 0
  then show ?case by simp
next
  case (Suc n)
  show ?case
  proof (cases "pass sc")
    case None
    then show ?thesis using Suc.prems by auto
  next
    case (Some r)
    then obtain out sc1 outs' where r: "pass sc = Some (out, sc1)" "passes n sc1 = (outs', sc')" "outs = out # outs'"
      using Suc.prems by (cases r) (auto split: prod.splits)
    note s = pass_step [OF Suc.prems(1) r(1)]
    show ?thesis using Suc.IH [OF s(1) r(2)] s r(3) by simp
  qed
qed

lemma update_ok:
  assumes "sched_ok sc" and "sched_update now sc = (outs, sc')"
  shows "sched_ok sc'" "sum_list (map charge outs) \<le> 4224" "length outs \<le> 41" "pass sc' = None"
proof -
  note ok = begin_update_ok [OF assms(1), of now]
  note run = passes_step [OF ok assms(2) [unfolded sched_update_def]]
  show "sched_ok sc'" using run by blast
  have "sc_tokens (begin_update now sc) \<le> of_int 4224"
    using ok by (simp add: sched_ok_def tokens_ok_def burst_def overhead_def)
  then have "\<lceil>sc_tokens (begin_update now sc)\<rceil> \<le> 4224" unfolding ceiling_le_iff .
  then show sum: "sum_list (map charge outs) \<le> 4224" using run by linarith
  show len: "length outs \<le> 41" using sum run by linarith
  then show "pass sc' = None" using run by simp
qed

section \<open>Any use of a scheduler\<close>

datatype sched_event = AddPeer u64 | RemovePeer u64 | Send u64 bytes | Update u32

definition sched_step :: "sched_event \<Rightarrow> scheduler option \<Rightarrow> scheduler option" where
  "sched_step ev st = map_option (\<lambda>sc. case ev of
     AddPeer pid \<Rightarrow> snd (sched_add_peer pid sc)
   | RemovePeer pid \<Rightarrow> sched_remove_peer pid sc
   | Send pid bs \<Rightarrow> snd (sched_send pid bs sc)
   | Update now \<Rightarrow> snd (sched_update now sc)) st"

lemma new_peer_ok: "peer_ok cap new_peer"
  by (simp add: peer_ok_def new_peer_def lane_ok_def tokens_ok_def burst_def)

lemma sched_step_ok: "pred_option sched_ok st \<Longrightarrow> pred_option sched_ok (sched_step ev st)"
proof (cases st)
  case (Some sc)
  assume "pred_option sched_ok st"
  then have ok: "sched_ok sc" using Some by simp
  have "sched_ok (sc\<lparr>sc_peers := om_put pid new_peer (sc_peers sc)\<rparr>)" if "length (sc_peers sc) < 4096" for pid
    using put_peer_ok [OF ok new_peer_ok] that by blast
  then have "sched_ok (snd (sched_add_peer pid sc))" for pid using ok by (simp add: sched_add_peer_def)
  moreover have "sched_ok (sched_remove_peer pid sc)" for pid
    using ok le_trans [OF length_om_erase_le [of pid "sc_peers sc"]]
    by (auto simp: sched_ok_def sched_remove_peer_def) (auto simp: om_erase_def)
  moreover have "sched_ok (snd (sched_update now sc))" for now
    using update_ok(1) [OF ok] by (metis prod.collapse)
  ultimately show ?thesis using send_ok [OF ok] Some by (cases ev) (simp_all add: sched_step_def)
qed (simp add: sched_step_def)

lemma start_ok: "pred_option sched_ok (new_scheduler lm)"
  by (simp add: new_scheduler_def sched_ok_def tokens_ok_def burst_def om_ok_def)

interpretation scheduling: invariant_machine sched_step "pred_option sched_ok" "new_scheduler lm" for lm
  by unfold_locales (auto intro: start_ok sched_step_ok)

text \<open>
  C16: after any sequence of operations the queues of every peer hold exactly the bytes they account
  for, at most the limit of their class, and only datagrams of their class, and all token counts are
  between nothing and the burst.
\<close>

theorem scheduler_stays_bounded:
  "pred_option sched_ok (fold sched_step evs (new_scheduler lm))"
  by (rule scheduling.reachable_inv)

text \<open>
  C17: an update, in any state the scheduler can reach, hands the carrier at most 4224 bytes, 64 for each
  datagram included, and at most 41 datagrams; so its loop always ends because no queue has both a
  packet and the tokens for it, never because it has made 4096 passes.
\<close>

theorem update_within_burst:
  "pred_option (\<lambda>sc. case sched_update now sc of (outs, sc') \<Rightarrow>
     sum_list (map charge outs) \<le> 4224 \<and> length outs \<le> 41 \<and> pass sc' = None)
   (fold sched_step evs (new_scheduler lm))"
proof (cases "fold sched_step evs (new_scheduler lm)")
  case (Some sc)
  then have "sched_ok sc" using scheduling.reachable_inv [of evs lm] by simp
  then show ?thesis using update_ok Some by (auto split: prod.splits)
qed simp

end
