(* ===== verification/Reliable_Udp.thy ===== *)
theory Reliable_Udp
  imports Interfaces Peer_Tunnel Udp_Header
begin

text \<open>
  Reliable peer messages, \<open>ReliableUdp\<close> of \<open>src/net/reliable_udp.cpp\<close>: messages framed by their length
  over the byte stream of a KCP control block for each peer and channel.  KCP is a parameter: its
  control block is a value, its output callback the list of packets an update produces.
\<close>

section \<open>The library\<close>

record 'k kcp =
  kc_create :: "'k option"
  kc_setmtu :: "nat \<Rightarrow> 'k \<Rightarrow> 'k"
  kc_wndsize :: "nat \<Rightarrow> nat \<Rightarrow> 'k \<Rightarrow> 'k"
  kc_nodelay :: "nat \<Rightarrow> nat \<Rightarrow> nat \<Rightarrow> nat \<Rightarrow> 'k \<Rightarrow> 'k"
  kc_stream :: "'k \<Rightarrow> 'k"
  kc_waitsnd :: "'k \<Rightarrow> nat"
  kc_send :: "bytes \<Rightarrow> 'k \<Rightarrow> int \<times> 'k"
  kc_peeksize :: "'k \<Rightarrow> int"
  kc_recv :: "'k \<Rightarrow> (int \<times> bytes) \<times> 'k"
  kc_input :: "bytes \<Rightarrow> 'k \<Rightarrow> int \<times> 'k"
  kc_update :: "u32 \<Rightarrow> 'k \<Rightarrow> bytes list \<times> 'k"
  kc_snd_una :: "'k \<Rightarrow> u32"
  kc_srtt :: "'k \<Rightarrow> int"
  kc_cwnd :: "'k \<Rightarrow> u32"
  kc_mss :: "'k \<Rightarrow> u32"
  kc_set_cwnd :: "u32 \<Rightarrow> u32 \<Rightarrow> 'k \<Rightarrow> 'k"
  kc_state :: "'k \<Rightarrow> u32"

section \<open>State\<close>

definition maxMessageBytes :: nat where "maxMessageBytes = 2 * 1024 * 1024"
definition maxBufferedBytes :: nat where "maxBufferedBytes = 8 * 1024 * 1024"
definition maxDatagramBytes :: nat where "maxDatagramBytes = kReliableDatagramBytes"
definition maxReceiveDatagramBytes :: nat where "maxReceiveDatagramBytes = kIceDatagramBytes"
definition headerBytes :: nat where "headerBytes = 14"
definition segmentBytes :: nat where "segmentBytes = maxDatagramBytes - headerBytes - 24"

record rmessage =
  rg_peer :: u64
  rg_group :: u16
  rg_bytes :: bytes

text \<open>The messages read and not yet taken, with the number of their bytes.\<close>

record inbox =
  ib_messages :: "rmessage list"
  ib_queuedBytes :: nat

record 'k group =
  gr_peer :: u64
  gr_session :: u64
  gr_index :: u16
  gr_kcp :: 'k
  gr_baselineRtt :: int
  gr_rx :: bytes

record 'k rpeer =
  rp_session :: u64
  rp_failed :: bool
  rp_groups :: "'k group list"
  rp_waiting :: bool
  rp_progressTime :: u32
  rp_acknowledged :: u64

record 'k reliable =
  ru_maxPeers :: nat
  ru_groupCount :: nat
  ru_peers :: "(u64, 'k rpeer) omap"
  ru_inbox :: inbox
  ru_wire :: "(u64 \<times> bytes) list"

definition new_reliable :: "nat \<Rightarrow> nat \<Rightarrow> 'k reliable option" where
  "new_reliable peers groups =
     (if peers = 0 \<or> peers > 4096 \<or> groups = 0 \<or> groups > 8 then None
      else Some \<lparr>ru_maxPeers = peers, ru_groupCount = groups, ru_peers = [],
        ru_inbox = \<lparr>ib_messages = [], ib_queuedBytes = 0\<rparr>, ru_wire = []\<rparr>)"

section \<open>Peers\<close>

definition new_group :: "'k kcp \<Rightarrow> u64 \<Rightarrow> u64 \<Rightarrow> nat \<Rightarrow> 'k group option" where
  "new_group kc peer session i =
     map_option (\<lambda>k. \<lparr>gr_peer = peer, gr_session = session, gr_index = word_of_nat i,
         gr_kcp = kc_stream kc (kc_nodelay kc 1 10 2 0 (kc_wndsize kc 32 128
           (kc_setmtu kc (maxDatagramBytes - headerBytes) k))),
         gr_baselineRtt = 0, gr_rx = []\<rparr>) (kc_create kc)"

definition ru_add_peer :: "'k kcp \<Rightarrow> u64 \<Rightarrow> u64 \<Rightarrow> 'k reliable \<Rightarrow> bool \<times> 'k reliable" where
  "ru_add_peer kc pid session ru =
     (if session = 0 \<or> om_has pid (ru_peers ru) \<or> length (ru_peers ru) \<ge> ru_maxPeers ru then (False, ru)
      else case those (map (new_group kc pid session) [0..<ru_groupCount ru]) of
        None \<Rightarrow> (False, ru)
      | Some groups \<Rightarrow>
          (True, ru\<lparr>ru_peers := om_put pid \<lparr>rp_session = session, rp_failed = False, rp_groups = groups,
             rp_waiting = False, rp_progressTime = 0, rp_acknowledged = 0\<rparr> (ru_peers ru)\<rparr>))"

definition forget_messages :: "u64 \<Rightarrow> inbox \<Rightarrow> inbox" where
  "forget_messages pid ib =
     \<lparr>ib_messages = filter (\<lambda>m. rg_peer m \<noteq> pid) (ib_messages ib),
      ib_queuedBytes = ib_queuedBytes ib -
        sum_list (map (\<lambda>m. length (rg_bytes m)) (filter (\<lambda>m. rg_peer m = pid) (ib_messages ib)))\<rparr>"

definition ru_remove_peer :: "u64 \<Rightarrow> 'k reliable \<Rightarrow> 'k reliable" where
  "ru_remove_peer pid ru = ru\<lparr>ru_peers := om_erase pid (ru_peers ru), ru_inbox := forget_messages pid (ru_inbox ru)\<rparr>"

section \<open>Sending\<close>

text \<open>A frame is its length in four bytes and the message; it goes to KCP in pieces of 32 KiB.\<close>

definition frame :: "bytes \<Rightarrow> bytes" where
  "frame bytes = put_le (word_of_nat (length bytes)) 4 @ bytes"

function send_pieces :: "'k kcp \<Rightarrow> bytes \<Rightarrow> 'k \<Rightarrow> bool \<times> 'k" where
  "send_pieces kc bytes k =
     (if bytes = [] then (True, k)
      else case kc_send kc (take (32 * 1024) bytes) k of
        (code, k') \<Rightarrow> if code < 0 then (False, k') else send_pieces kc (drop (32 * 1024) bytes) k')"
  by pat_completeness auto
termination
  by (relation "measure (\<lambda>(kc, bytes, k). length bytes)") auto

declare send_pieces.simps [simp del]

definition queued_bytes :: "'k kcp \<Rightarrow> 'k rpeer \<Rightarrow> nat" where
  "queued_bytes kc p = sum_list (map (\<lambda>g. kc_waitsnd kc (gr_kcp g) * segmentBytes) (rp_groups p))"

definition ru_send :: "'k kcp \<Rightarrow> u64 \<Rightarrow> bytes \<Rightarrow> nat \<Rightarrow> 'k reliable \<Rightarrow> bool \<times> 'k reliable" where
  "ru_send kc pid bytes i ru =
     (case map_of (ru_peers ru) pid of
        None \<Rightarrow> (False, ru)
      | Some p \<Rightarrow>
          if rp_failed p \<or> i \<ge> ru_groupCount ru \<or> bytes = [] \<or> length bytes > maxMessageBytes then (False, ru)
          else if queued_bytes kc p > maxBufferedBytes \<or> length bytes + 4 > maxBufferedBytes - queued_bytes kc p
          then (False, ru)
          else
            let g = rp_groups p ! i; (good, k) = send_pieces kc (frame bytes) (gr_kcp g);
                p' = p\<lparr>rp_groups := (rp_groups p)[i := g\<lparr>gr_kcp := k\<rparr>], rp_failed := \<not> good\<rparr>
            in (good, ru\<lparr>ru_peers := om_put pid p' (ru_peers ru)\<rparr>))"

section \<open>Receiving\<close>

text \<open>Every segment of a packet is checked before KCP sees any of it.\<close>

function segments_ok :: "bytes \<Rightarrow> bool" where
  "segments_ok bytes =
     (if bytes = [] then True
      else if length bytes < 24 \<or> get_le (take 4 bytes) \<noteq> 0 \<or> bytes ! 5 \<noteq> 0 \<or> bytes ! 4 < 81 \<or> bytes ! 4 > 84
      then False
      else let n = unat (get_le (subspan 20 4 bytes)) in
        if n > length bytes - 24 \<or> bytes ! 4 \<noteq> 81 \<and> n \<noteq> 0 then False
        else segments_ok (drop (24 + n) bytes))"
  by pat_completeness auto
termination
  by (relation "measure length") auto

declare segments_ok.simps [simp del]

definition ru_input :: "'k kcp \<Rightarrow> u64 \<Rightarrow> bytes \<Rightarrow> 'k reliable \<Rightarrow> bool \<times> 'k reliable" where
  "ru_input kc pid bytes ru =
     (case map_of (ru_peers ru) pid of
        None \<Rightarrow> (False, ru)
      | Some p \<Rightarrow>
          if rp_failed p \<or> length bytes < headerBytes + 24 \<or> length bytes > maxReceiveDatagramBytes \<or>
             take 4 bytes \<noteq> reliable_magic \<or> get_le (subspan 4 8 bytes) \<noteq> rp_session p then (False, ru)
          else let i = unat (get_le (subspan 12 2 bytes)) in
            if i \<ge> ru_groupCount ru \<or> \<not> segments_ok (drop headerBytes bytes) then (False, ru)
            else let g = rp_groups p ! i; (code, k) = kc_input kc (drop headerBytes bytes) (gr_kcp g) in
              (code = 0, ru\<lparr>ru_peers := om_put pid (p\<lparr>rp_groups := (rp_groups p)[i := g\<lparr>gr_kcp := k\<rparr>]\<rparr>) (ru_peers ru)\<rparr>))"

text \<open>The whole frames at the front of the received bytes; \<open>True\<close> when the peer has failed.\<close>

function frames :: "u64 \<Rightarrow> u16 \<Rightarrow> bytes \<Rightarrow> inbox \<Rightarrow> bool \<times> bytes \<times> inbox" where
  "frames peer i rx ib =
     (if length rx < 4 then (False, rx, ib)
      else let n = unat (get_le (take 4 rx)) in
        if n = 0 \<or> n > maxMessageBytes then (True, rx, ib)
        else if length rx < n + 4 then (False, rx, ib)
        else if length (ib_messages ib) \<ge> 1024 \<or> n > maxBufferedBytes - ib_queuedBytes ib then (True, rx, ib)
        else frames peer i (drop (n + 4) rx)
          \<lparr>ib_messages = ib_messages ib @ [\<lparr>rg_peer = peer, rg_group = i, rg_bytes = take n (drop 4 rx)\<rparr>],
           ib_queuedBytes = ib_queuedBytes ib + n\<rparr>)"
  by pat_completeness auto
termination
  by (relation "measure (\<lambda>(peer, i, rx, ib). length rx)") auto

declare frames.simps [simp del]

partial_function (option) read_group :: "'k kcp \<Rightarrow> 'k group \<Rightarrow> inbox \<Rightarrow> (bool \<times> 'k group \<times> inbox) option" where
  "read_group kc g ib =
     (if kc_peeksize kc (gr_kcp g) < 0 then Some (False, g, ib)
      else if kc_peeksize kc (gr_kcp g) > 4096 then Some (True, g, ib)
      else case kc_recv kc (gr_kcp g) of
        ((count, bytes), k) \<Rightarrow>
          if count \<le> 0 then Some (False, g\<lparr>gr_kcp := k\<rparr>, ib)
          else if length (gr_rx g) + nat count > maxMessageBytes + 4 + 4096 then Some (True, g\<lparr>gr_kcp := k\<rparr>, ib)
          else case frames (gr_peer g) (gr_index g) (gr_rx g @ take (nat count) bytes) ib of
            (failed, rx, ib') \<Rightarrow>
              if failed then Some (True, g\<lparr>gr_kcp := k, gr_rx := gr_rx g @ take (nat count) bytes\<rparr>, ib')
              else read_group kc (g\<lparr>gr_kcp := k, gr_rx := rx\<rparr>) ib')"

section \<open>Time\<close>

text \<open>\<open>output\<close>: a segment of KCP under the header of its peer and channel.\<close>

definition wire_packet :: "'k group \<Rightarrow> bytes \<Rightarrow> bytes" where
  "wire_packet g bytes = reliable_magic @ put_le (gr_session g) 8 @ put_le (ucast (gr_index g)) 2 @ bytes"

definition tune_group :: "'k kcp \<Rightarrow> 'k group \<Rightarrow> 'k group" where
  "tune_group kc g =
     (let srtt = kc_srtt kc (gr_kcp g);
          base = (if srtt > 0 \<and> (gr_baselineRtt g = 0 \<or> srtt < gr_baselineRtt g) then srtt else gr_baselineRtt g);
          queued = (base \<noteq> 0 \<and> srtt > base + max 50 (base div 4));
          k = kc_nodelay kc (if queued then 0 else 1) 10 2 (if base \<noteq> 0 \<and> \<not> queued then 1 else 0) (gr_kcp g);
          k' = (if \<not> queued \<and> kc_cwnd kc k < 4 then kc_set_cwnd kc 4 (4 * kc_mss kc k) k else k)
      in g\<lparr>gr_baselineRtt := base, gr_kcp := k'\<rparr>)"

text \<open>One channel; the result says whether the peer has failed.\<close>

definition update_group ::
  "'k kcp \<Rightarrow> u32 \<Rightarrow> 'k group \<Rightarrow> inbox \<Rightarrow> (bool \<times> 'k group \<times> inbox \<times> (u64 \<times> bytes) list) option" where
  "update_group kc now g ib =
     (let g1 = tune_group kc g; (packets, k) = kc_update kc now (gr_kcp g1); g2 = g1\<lparr>gr_kcp := k\<rparr>;
          wire = map (\<lambda>b. (gr_peer g, wire_packet g b)) packets in
      if kc_state kc k = - 1 then Some (True, g2, ib, wire)
      else map_option (\<lambda>(failed, g3, ib'). (failed, g3, ib', wire)) (read_group kc g2 ib))"

fun update_groups ::
  "'k kcp \<Rightarrow> u32 \<Rightarrow> 'k group list \<Rightarrow> inbox \<Rightarrow> (bool \<times> 'k group list \<times> inbox \<times> (u64 \<times> bytes) list) option" where
  "update_groups kc now [] ib = Some (False, [], ib, [])"
| "update_groups kc now (g # gs) ib =
     (case update_group kc now g ib of
        None \<Rightarrow> None
      | Some (failed, g', ib', wire) \<Rightarrow>
          if failed then Some (True, g' # gs, ib', wire)
          else map_option (\<lambda>(failed, gs', ib'', wire'). (failed, g' # gs', ib'', wire @ wire')) (update_groups kc now gs ib'))"

definition update_peer ::
  "'k kcp \<Rightarrow> u32 \<Rightarrow> 'k rpeer \<Rightarrow> inbox \<Rightarrow> ('k rpeer \<times> inbox \<times> (u64 \<times> bytes) list) option" where
  "update_peer kc now p ib =
     (if rp_failed p then Some (p, ib, [])
      else
        let ack = fold (\<lambda>g a. a + ucast (kc_snd_una kc (gr_kcp g))) (rp_groups p) 0;
            waiting = list_ex (\<lambda>g. kc_waitsnd kc (gr_kcp g) \<noteq> 0) (rp_groups p);
            time = (if \<not> rp_waiting p \<or> \<not> waiting \<or> ack \<noteq> rp_acknowledged p then now else rp_progressTime p);
            p1 = p\<lparr>rp_progressTime := time, rp_waiting := waiting, rp_acknowledged := ack\<rparr>
        in if waiting \<and> now - time \<ge> 30000 then Some (p1\<lparr>rp_failed := True\<rparr>, ib, [])
           else map_option (\<lambda>(failed, gs, ib', wire). (p1\<lparr>rp_groups := gs, rp_failed := failed\<rparr>, ib', wire))
                  (update_groups kc now (rp_groups p1) ib))"

fun update_peers ::
  "'k kcp \<Rightarrow> u32 \<Rightarrow> (u64, 'k rpeer) omap \<Rightarrow> inbox \<Rightarrow> ((u64, 'k rpeer) omap \<times> inbox \<times> (u64 \<times> bytes) list) option" where
  "update_peers kc now [] ib = Some ([], ib, [])"
| "update_peers kc now ((pid, p) # m) ib =
     (case update_peer kc now p ib of
        None \<Rightarrow> None
      | Some (p', ib', wire) \<Rightarrow>
          map_option (\<lambda>(m', ib'', wire'). ((pid, p') # m', ib'', wire @ wire')) (update_peers kc now m ib'))"

definition ru_update :: "'k kcp \<Rightarrow> u32 \<Rightarrow> 'k reliable \<Rightarrow> 'k reliable option" where
  "ru_update kc now ru =
     map_option (\<lambda>(peers, ib, wire). ru\<lparr>ru_peers := peers, ru_inbox := ib, ru_wire := ru_wire ru @ wire\<rparr>)
       (update_peers kc now (ru_peers ru) (ru_inbox ru))"

definition ru_pop :: "'k reliable \<Rightarrow> rmessage option \<times> 'k reliable" where
  "ru_pop ru =
     (case ib_messages (ru_inbox ru) of
        [] \<Rightarrow> (None, ru)
      | m # ms \<Rightarrow> (Some m, ru\<lparr>ru_inbox := \<lparr>ib_messages = ms,
          ib_queuedBytes = ib_queuedBytes (ru_inbox ru) - length (rg_bytes m)\<rparr>\<rparr>))"

definition peer_failed :: "u64 \<Rightarrow> 'k reliable \<Rightarrow> bool" where
  "peer_failed pid ru \<longleftrightarrow> (case map_of (ru_peers ru) pid of None \<Rightarrow> True | Some p \<Rightarrow> rp_failed p)"

definition drained :: "'k kcp \<Rightarrow> u64 \<Rightarrow> 'k reliable \<Rightarrow> bool" where
  "drained kc pid ru \<longleftrightarrow> (case map_of (ru_peers ru) pid of None \<Rightarrow> True
     | Some p \<Rightarrow> list_all (\<lambda>g. kc_waitsnd kc (gr_kcp g) = 0) (rp_groups p))"

definition dispatch_datagram ::
  "'k kcp \<Rightarrow> u64 \<Rightarrow> bytes \<Rightarrow> (u64 \<Rightarrow> bytes \<Rightarrow> 'k reliable \<Rightarrow> bool \<times> 'k reliable) \<Rightarrow> 'k reliable \<Rightarrow> bool \<times> 'k reliable" where
  "dispatch_datagram kc pid bytes realtime ru =
     (case datagram_kind bytes of
        Reliable \<Rightarrow> ru_input kc pid bytes ru
      | Realtime \<Rightarrow> realtime pid bytes ru
      | Invalid \<Rightarrow> (False, ru))"

end
