(* ===== verification/Reliable_Stream.thy ===== *)
theory Reliable_Stream
  imports Reliable_Udp
begin

text \<open>
  The messages of a channel are a queue: what is sent, framed over the byte stream of KCP, is read
  back whole, in order and once, however the stream is cut into segments.
\<close>

section \<open>Frames\<close>

definition message_ok :: "bytes \<Rightarrow> bool" where
  "message_ok m \<longleftrightarrow> m \<noteq> [] \<and> length m \<le> maxMessageBytes"

definition stream_of :: "bytes list \<Rightarrow> bytes" where
  "stream_of ms = concat (map frame ms)"

lemma stream_of_simps [simp]: "stream_of [] = []" "stream_of (m # ms) = frame m @ stream_of ms"
  "stream_of (ms @ ns) = stream_of ms @ stream_of ns"
  by (simp_all add: stream_of_def)

lemma length_frame [simp]: "length (frame m) = length m + 4"
  by (simp add: frame_def)

lemma frame_length_read:
  assumes "message_ok m" and "take 4 (rx @ rest) = take 4 (frame m)" and "4 \<le> length rx"
  shows "unat (get_le (take 4 rx)) = length m"
proof -
  have n: "length m < 2 ^ 32" using assms(1) by (simp add: message_ok_def maxMessageBytes_def)
  have "take 4 rx = put_le (word_of_nat (length m)) 4"
    using assms(2,3) by (simp add: frame_def)
  then have "get_le (take 4 rx) = take_bit 32 (word_of_nat (length m))"
    by (simp add: get_le_put_le_mask)
  moreover have "unat (take_bit 32 (word_of_nat (length m) :: u64)) = length m"
    using n by (simp add: unsigned_take_bit_eq unat_of_nat take_bit_nat_eq_self unsigned_of_nat)
  ultimately show ?thesis by simp
qed

text \<open>The inbox with messages of a channel added.\<close>

definition deliver_to :: "u64 \<Rightarrow> u16 \<Rightarrow> bytes list \<Rightarrow> inbox \<Rightarrow> inbox" where
  "deliver_to peer i ms ib =
     \<lparr>ib_messages = ib_messages ib @ map (\<lambda>m. \<lparr>rg_peer = peer, rg_group = i, rg_bytes = m\<rparr>) ms,
      ib_queuedBytes = ib_queuedBytes ib + sum_list (map length ms)\<rparr>"

lemma deliver_to_Nil [simp]: "deliver_to peer i [] ib = ib"
  by (simp add: deliver_to_def)

lemma deliver_to_append: "deliver_to peer i ns (deliver_to peer i ms ib) = deliver_to peer i (ms @ ns) ib"
  by (simp add: deliver_to_def)

definition has_room :: "bytes list \<Rightarrow> inbox \<Rightarrow> bool" where
  "has_room ms ib \<longleftrightarrow> length (ib_messages ib) + length ms \<le> 1024 \<and>
     ib_queuedBytes ib + sum_list (map length ms) \<le> maxBufferedBytes"

lemma has_room_rest: "has_room (ms @ ns) ib \<Longrightarrow> has_room ns (deliver_to peer i ms ib)"
  by (simp add: has_room_def deliver_to_def)

text \<open>What is left over when no frame of the messages still to come is complete.\<close>

definition partial :: "bytes \<Rightarrow> bytes list \<Rightarrow> bool" where
  "partial rx ms \<longleftrightarrow> (case ms of [] \<Rightarrow> rx = [] | m # _ \<Rightarrow> length rx < length m + 4)"

lemma frames_whole:
  "list_all message_ok ms \<Longrightarrow> rx @ rest = stream_of ms \<Longrightarrow> has_room ms ib \<Longrightarrow>
   \<exists>ms1 ms2 rx'. ms = ms1 @ ms2 \<and> frames peer i rx ib = (False, rx', deliver_to peer i ms1 ib) \<and>
     rx' @ rest = stream_of ms2 \<and> length rx' \<le> maxMessageBytes + 4 \<and> partial rx' ms2"
proof (induction ms arbitrary: rx ib)
  case Nil
  then show ?case by (simp add: frames.simps [of _ _ "[]"] partial_def)
next
  case (Cons m ms)
  have m: "message_ok m" and st: "rx @ rest = frame m @ stream_of ms" using Cons.prems by simp_all
  have bound: "length m \<le> maxMessageBytes" "0 < length m" using m by (simp_all add: message_ok_def)
  show ?case
  proof (cases "length rx < length m + 4")
    case True
    have "frames peer i rx ib = (False, rx, ib)"
    proof (cases "length rx < 4")
      case False
      then have "unat (get_le (take 4 rx)) = length m"
        using frame_length_read [OF m, of rx rest] st by simp
      then show ?thesis using True bound by (subst frames.simps) (simp add: Let_def)
    qed (simp add: frames.simps [of _ _ rx])
    then show ?thesis
      using st True bound by (intro exI [of _ "[]"] exI [of _ "m # ms"] exI [of _ rx]) (auto simp: partial_def)
  next
    case False
    have n: "unat (get_le (take 4 rx)) = length m"
      using frame_length_read [OF m, of rx rest] st False by simp
    have "take (length m + 4) (rx @ rest) = frame m" and "drop (length m + 4) (rx @ rest) = stream_of ms"
      unfolding st by simp_all
    then have head: "take (length m + 4) rx = frame m" and tail: "drop (length m + 4) rx @ rest = stream_of ms"
      using False by simp_all
    have "take (length m) (drop 4 rx) = drop 4 (take (length m + 4) rx)" by (simp add: drop_take)
    then have body: "take (length m) (drop 4 rx) = m" unfolding head by (simp add: frame_def)
    have room: "\<not> length (ib_messages ib) \<ge> 1024" "\<not> length m > maxBufferedBytes - ib_queuedBytes ib"
      using Cons.prems(3) unfolding has_room_def list.size list.map sum_list.Cons by linarith+
    let ?ib = "deliver_to peer i [m] ib"
    have step: "frames peer i rx ib = frames peer i (drop (length m + 4) rx) ?ib"
      using False n bound room by (subst frames.simps) (simp add: Let_def body deliver_to_def)
    have "has_room ms ?ib" using has_room_rest [of "[m]" ms ib] Cons.prems(3) by simp
    moreover have "list_all message_ok ms" using Cons.prems(1) by simp
    ultimately obtain ms1 ms2 rx' where
      "ms = ms1 @ ms2" "frames peer i (drop (length m + 4) rx) ?ib = (False, rx', deliver_to peer i ms1 ?ib)"
      "rx' @ rest = stream_of ms2" "length rx' \<le> maxMessageBytes + 4" "partial rx' ms2"
      using Cons.IH [OF _ tail] by blast
    then show ?thesis
      by (intro exI [of _ "m # ms1"] exI [of _ ms2] exI [of _ rx']) (simp add: step deliver_to_append)
  qed
qed

section \<open>Reading a channel\<close>

text \<open>What KCP documents of receiving: \<open>pending\<close> are the segments that are ready, taken one at a time.\<close>

definition kcp_delivers :: "'k kcp \<Rightarrow> ('k \<Rightarrow> bytes list) \<Rightarrow> bool" where
  "kcp_delivers kc pending \<longleftrightarrow> (\<forall>k. case pending k of
     [] \<Rightarrow> kc_peeksize kc k < 0
   | c # cs \<Rightarrow> c \<noteq> [] \<and> length c \<le> 4096 \<and> kc_peeksize kc k = int (length c) \<and>
       fst (kc_recv kc k) = (int (length c), c) \<and> pending (snd (kc_recv kc k)) = cs)"

lemma read_group_delivers:
  assumes law: "kcp_delivers kc pending"
  shows "list_all message_ok ms \<Longrightarrow> gr_rx g @ concat (pending (gr_kcp g)) @ rest = stream_of ms \<Longrightarrow> has_room ms ib \<Longrightarrow>
    length (gr_rx g) \<le> maxMessageBytes + 4 \<Longrightarrow> partial (gr_rx g) ms \<Longrightarrow>
    \<exists>ms1 ms2 g'. ms = ms1 @ ms2 \<and> read_group kc g ib = Some (False, g', deliver_to (gr_peer g) (gr_index g) ms1 ib) \<and>
      gr_peer g' = gr_peer g \<and> gr_index g' = gr_index g \<and> gr_rx g' @ rest = stream_of ms2 \<and>
      length (gr_rx g') \<le> maxMessageBytes + 4 \<and> partial (gr_rx g') ms2"
proof (induction "pending (gr_kcp g)" arbitrary: g ms ib)
  case Nil
  then have "kc_peeksize kc (gr_kcp g) < 0" using law Nil.hyps unfolding kcp_delivers_def by (auto dest: spec [of _ "gr_kcp g"] split: list.splits)
  then have "read_group kc g ib = Some (False, g, ib)" by (subst read_group.simps) simp
  then show ?case using Nil by (intro exI [of _ "[]"] exI [of _ ms] exI [of _ g]) simp
next
  case (Cons c cs)
  obtain k where k: "c \<noteq> []" "length c \<le> 4096" "kc_peeksize kc (gr_kcp g) = int (length c)"
    "kc_recv kc (gr_kcp g) = ((int (length c), c), k)" "pending k = cs"
  proof -
    have "case pending (gr_kcp g) of [] \<Rightarrow> kc_peeksize kc (gr_kcp g) < 0
      | c # cs \<Rightarrow> c \<noteq> [] \<and> length c \<le> 4096 \<and> kc_peeksize kc (gr_kcp g) = int (length c) \<and>
          fst (kc_recv kc (gr_kcp g)) = (int (length c), c) \<and> pending (snd (kc_recv kc (gr_kcp g))) = cs"
      using law unfolding kcp_delivers_def by blast
    then show ?thesis using that [of "snd (kc_recv kc (gr_kcp g))"] by (simp flip: Cons.hyps(2)) (metis prod.collapse)
  qed
  have "(gr_rx g @ c) @ (concat cs @ rest) = stream_of ms" using Cons.prems(2) by (simp flip: Cons.hyps(2))
  from frames_whole [OF Cons.prems(1) this Cons.prems(3), of "gr_peer g" "gr_index g"]
  obtain m1 m2 rx where f: "ms = m1 @ m2"
    "frames (gr_peer g) (gr_index g) (gr_rx g @ c) ib = (False, rx, deliver_to (gr_peer g) (gr_index g) m1 ib)"
    "rx @ concat cs @ rest = stream_of m2" "length rx \<le> maxMessageBytes + 4" "partial rx m2"
    by blast
  let ?g = "g\<lparr>gr_kcp := k, gr_rx := rx\<rparr>" and ?ib = "deliver_to (gr_peer g) (gr_index g) m1 ib"
  have step: "read_group kc g ib = read_group kc ?g ?ib"
    using k f(2) Cons.prems(4) by (subst read_group.simps) simp
  have "list_all message_ok m2" "has_room m2 ?ib" using Cons.prems(1,3) f(1) has_room_rest by auto
  with Cons.hyps(1) [of ?g m2 ?ib] f k(5) obtain n1 n2 g' where
    "m2 = n1 @ n2" "read_group kc ?g ?ib = Some (False, g', deliver_to (gr_peer g) (gr_index g) n1 ?ib)"
    "gr_peer g' = gr_peer g" "gr_index g' = gr_index g"
    "gr_rx g' @ rest = stream_of n2" "length (gr_rx g') \<le> maxMessageBytes + 4" "partial (gr_rx g') n2" by auto
  then show ?case
    using f(1) by (intro exI [of _ "m1 @ n1"] exI [of _ n2] exI [of _ g']) (auto simp: step deliver_to_append)
qed

text \<open>
  Reads of one channel, one after the other.  Between two reads KCP has taken in segments, so each read
  starts at a KCP state and an inbox of its own; the bytes left over are the group's.
\<close>

fun reads :: "'k kcp \<Rightarrow> ('k \<times> inbox) list \<Rightarrow> 'k group \<Rightarrow> (inbox list \<times> 'k group) option" where
  "reads kc [] g = Some ([], g)"
| "reads kc ((k, ib) # turns) g =
     (case read_group kc (g\<lparr>gr_kcp := k\<rparr>) ib of
        Some (False, g', ib') \<Rightarrow> (case reads kc turns g' of None \<Rightarrow> None | Some (ibs, h) \<Rightarrow> Some (ib' # ibs, h))
      | _ \<Rightarrow> None)"

lemma has_room_part: "has_room (ms @ ns) ib \<Longrightarrow> has_room ns ib"
  by (simp add: has_room_def)

lemma reads_deliver:
  assumes law: "kcp_delivers kc pending"
  shows "list_all message_ok ms \<Longrightarrow> gr_rx g @ concat (concat (map (pending \<circ> fst) turns)) @ rest = stream_of ms \<Longrightarrow>
    \<forall>(k, ib) \<in> set turns. has_room ms ib \<Longrightarrow> length (gr_rx g) \<le> maxMessageBytes + 4 \<Longrightarrow> partial (gr_rx g) ms \<Longrightarrow>
    \<exists>parts ms2 h. ms = concat parts @ ms2 \<and> length parts = length turns \<and>
      reads kc turns g = Some (map2 (deliver_to (gr_peer g) (gr_index g)) parts (map snd turns), h) \<and>
      gr_rx h @ rest = stream_of ms2 \<and> partial (gr_rx h) ms2"
proof (induction turns arbitrary: g ms)
  case Nil
  then show ?case by (intro exI [of _ "[]"] exI [of _ ms] exI [of _ g]) simp
next
  case (Cons x turns)
  obtain k ib where x: "x = (k, ib)" by fastforce
  let ?g = "g\<lparr>gr_kcp := k\<rparr>"
  have "gr_rx ?g @ concat (pending (gr_kcp ?g)) @ (concat (concat (map (pending \<circ> fst) turns)) @ rest) = stream_of ms"
    using Cons.prems(2) x by (simp add: comp_def)
  from read_group_delivers [OF law Cons.prems(1) this, of ib] Cons.prems(3-5) x obtain m1 m2 g' where
    r: "ms = m1 @ m2" "read_group kc ?g ib = Some (False, g', deliver_to (gr_peer g) (gr_index g) m1 ib)"
      "gr_peer g' = gr_peer g" "gr_index g' = gr_index g"
      "gr_rx g' @ concat (concat (map (pending \<circ> fst) turns)) @ rest = stream_of m2"
      "length (gr_rx g') \<le> maxMessageBytes + 4" "partial (gr_rx g') m2"
    by auto
  have "list_all message_ok m2" "\<forall>(k, ib) \<in> set turns. has_room m2 ib"
    using Cons.prems(1,3) r(1) has_room_part by auto
  from Cons.IH [OF this(1) r(5) this(2) r(6,7)] obtain parts ms2 h where
    "m2 = concat parts @ ms2" "length parts = length turns"
    "reads kc turns g' = Some (map2 (deliver_to (gr_peer g) (gr_index g)) parts (map snd turns), h)"
    "gr_rx h @ rest = stream_of ms2" "partial (gr_rx h) ms2"
    using r(3,4) by auto
  then show ?case
    using r(1,2) by (intro exI [of _ "m1 # parts"] exI [of _ ms2] exI [of _ h]) (simp add: x)
qed

section \<open>Sending a channel\<close>

text \<open>What KCP documents of sending: the bytes join \<open>sent\<close>, what the channel has to carry.\<close>

definition kcp_accepts :: "'k kcp \<Rightarrow> ('k \<Rightarrow> bytes) \<Rightarrow> bool" where
  "kcp_accepts kc sent \<longleftrightarrow> (\<forall>b k. b \<noteq> [] \<and> length b \<le> 32 * 1024 \<and> \<not> fst (kc_send kc b k) < 0 \<longrightarrow>
     sent (snd (kc_send kc b k)) = sent k @ b)"

lemma send_pieces_sent:
  "kcp_accepts kc sent \<Longrightarrow> send_pieces kc bytes k = (True, k') \<Longrightarrow> sent k' = sent k @ bytes"
proof (induction kc bytes k rule: send_pieces.induct)
  case (1 kc bytes k)
  show ?case
  proof (cases "bytes = []")
    case True
    then show ?thesis using 1(3) by (simp add: send_pieces.simps)
  next
    case False
    obtain code k1 where s: "kc_send kc (take (32 * 1024) bytes) k = (code, k1)" by fastforce
    have code: "\<not> code < 0" "send_pieces kc (drop (32 * 1024) bytes) k1 = (True, k')"
      using 1(3) False s by (subst (asm) send_pieces.simps; auto split: if_splits)+
    have "take (32 * 1024) bytes \<noteq> [] \<and> length (take (32 * 1024) bytes) \<le> 32 * 1024" using False by simp
    then have "sent k1 = sent k @ take (32 * 1024) bytes"
      using 1(2) s code(1) unfolding kcp_accepts_def by (metis fst_conv snd_conv)
    moreover have "sent k' = sent k1 @ drop (32 * 1024) bytes"
      using 1(1) [OF False s [symmetric] code(1) 1(2) code(2)] .
    ultimately show ?thesis by simp
  qed
qed

text \<open>The channel of a peer, and a list of messages that were all accepted on it.\<close>

definition channel :: "u64 \<Rightarrow> nat \<Rightarrow> 'k reliable \<Rightarrow> 'k group option" where
  "channel pid i ru = (case map_of (ru_peers ru) pid of None \<Rightarrow> None
     | Some p \<Rightarrow> if i < length (rp_groups p) then Some (rp_groups p ! i) else None)"

fun send_all :: "'k kcp \<Rightarrow> u64 \<Rightarrow> nat \<Rightarrow> bytes list \<Rightarrow> 'k reliable \<Rightarrow> 'k reliable option" where
  "send_all kc pid i [] ru = Some ru"
| "send_all kc pid i (m # ms) ru =
     (case ru_send kc pid m i ru of (accepted, ru') \<Rightarrow> if accepted then send_all kc pid i ms ru' else None)"

lemma ru_send_sent:
  assumes "kcp_accepts kc sent" and "channel pid i ru = Some g" and "ru_send kc pid m i ru = (True, ru')"
  shows "message_ok m \<and> (\<exists>g'. channel pid i ru' = Some g' \<and> sent (gr_kcp g') = sent (gr_kcp g) @ frame m)"
proof -
  obtain p where p: "map_of (ru_peers ru) pid = Some p" "i < length (rp_groups p)" "g = rp_groups p ! i"
    using assms(2) by (auto simp: channel_def split: option.splits if_splits)
  obtain good k where k: "send_pieces kc (frame m) (gr_kcp g) = (good, k)" by fastforce
  have r: "good" "message_ok m"
    "ru' = ru\<lparr>ru_peers := om_put pid (p\<lparr>rp_groups := (rp_groups p)[i := g\<lparr>gr_kcp := k\<rparr>], rp_failed := \<not> good\<rparr>) (ru_peers ru)\<rparr>"
    using assms(3) p k by (auto simp: ru_send_def message_ok_def Let_def split: if_splits)
  have "sent k = sent (gr_kcp g) @ frame m" using send_pieces_sent [OF assms(1)] k r(1) by simp
  then show ?thesis using r p by (simp add: channel_def)
qed

lemma send_all_sent:
  assumes "kcp_accepts kc sent"
  shows "channel pid i ru = Some g \<Longrightarrow> send_all kc pid i ms ru = Some ru' \<Longrightarrow>
    list_all message_ok ms \<and> (\<exists>g'. channel pid i ru' = Some g' \<and> sent (gr_kcp g') = sent (gr_kcp g) @ stream_of ms)"
proof (induction ms arbitrary: ru g)
  case Nil
  then show ?case by simp
next
  case (Cons m ms)
  obtain ru1 where s: "ru_send kc pid m i ru = (True, ru1)" "send_all kc pid i ms ru1 = Some ru'"
    using Cons.prems(2) by (auto split: prod.splits if_splits)
  from ru_send_sent [OF assms Cons.prems(1) s(1)] obtain g1 where
    "message_ok m" "channel pid i ru1 = Some g1" "sent (gr_kcp g1) = sent (gr_kcp g) @ frame m" by blast
  with Cons.IH [OF _ s(2)] show ?case by auto
qed


text \<open>A carrier that keeps the bytes sent and the segments to receive.\<close>

definition ex_kcp :: "(bytes \<times> bytes list) kcp" where
  "ex_kcp = \<lparr>kc_create = Some ([], []), kc_setmtu = (\<lambda>_ k. k), kc_wndsize = (\<lambda>_ _ k. k),
     kc_nodelay = (\<lambda>_ _ _ _ k. k), kc_stream = (\<lambda>k. k), kc_waitsnd = (\<lambda>_. 0),
     kc_send = (\<lambda>b (s, r). (0, (s @ b, r))),
     kc_peeksize = (\<lambda>(s, r). case r of c # _ \<Rightarrow> if c \<noteq> [] \<and> length c \<le> 4096 then int (length c) else - 1 | [] \<Rightarrow> - 1),
     kc_recv = (\<lambda>(s, r). ((int (length (hd r)), hd r), (s, tl r))), kc_input = (\<lambda>_ k. (0, k)), kc_update = (\<lambda>_ k. ([], k)),
     kc_snd_una = (\<lambda>_. 0), kc_srtt = (\<lambda>_. 0), kc_cwnd = (\<lambda>_. 4), kc_mss = (\<lambda>_. 1126),
     kc_set_cwnd = (\<lambda>_ _ k. k), kc_state = (\<lambda>_. 0)\<rparr>"

lemma ex_kcp_fields:
  "kc_create ex_kcp = Some ([], [])" "kc_setmtu ex_kcp n k = k" "kc_wndsize ex_kcp n m k = k"
  "kc_nodelay ex_kcp a b c d k = k" "kc_stream ex_kcp k = k"
  by (simp_all add: ex_kcp_def)

lemma ex_send_pieces: "send_pieces ex_kcp b k = (True, fst k @ b, snd k)"
proof (induction ex_kcp b k rule: send_pieces.induct)
  case (1 b k)
  show ?case
  proof (cases "b = []")
    case False
    have "kc_send ex_kcp (take (32 * 1024) b) k = (0, fst k @ take (32 * 1024) b, snd k)"
      by (simp add: ex_kcp_def split: prod.split)
    then show ?thesis using 1 [OF False] False by (subst send_pieces.simps) simp
  qed (simp add: send_pieces.simps)
qed

lemma ex_waitsnd: "queued_bytes ex_kcp p = 0"
proof -
  have "kc_waitsnd ex_kcp k = 0" for k by (simp add: ex_kcp_def)
  then show ?thesis by (simp add: queued_bytes_def)
qed

definition ex_pending :: "bytes \<times> bytes list \<Rightarrow> bytes list" where
  "ex_pending k = takeWhile (\<lambda>c. c \<noteq> [] \<and> length c \<le> 4096) (snd k)"

lemma ex_kcp_laws: "kcp_accepts ex_kcp fst" "kcp_delivers ex_kcp ex_pending"
  by (auto simp: kcp_accepts_def kcp_delivers_def ex_kcp_def ex_pending_def split: list.splits)

definition ex_sender :: "(bytes \<times> bytes list) reliable" where
  "ex_sender = snd (ru_add_peer ex_kcp 7 9 \<lparr>ru_maxPeers = 8, ru_groupCount = 1, ru_peers = [],
     ru_inbox = \<lparr>ib_messages = [], ib_queuedBytes = 0\<rparr>, ru_wire = []\<rparr>)"

definition ex_receiver :: "(bytes \<times> bytes list) group" where
  "ex_receiver = \<lparr>gr_peer = 5, gr_session = 9, gr_index = 0, gr_kcp = ([], []), gr_baselineRtt = 0, gr_rx = []\<rparr>"

text \<open>Two reads: the first gets one message and the first byte of the next frame.\<close>

definition ex_turns :: "((bytes \<times> bytes list) \<times> inbox) list" where
  "ex_turns = (let ib = \<lparr>ib_messages = [], ib_queuedBytes = 0\<rparr> in
     [(([], [[2, 0, 0], [0, 65, 66, 1]]), ib), (([], [[0, 0, 0, 67]]), ib)])"


end
