(* ===== verification/Cloud_Cipher.thy ===== *)
theory Cloud_Cipher
  imports Interfaces Auth_Code Peer_Tunnel
begin

text \<open>
  Encrypted records between a client and the cloud room service, \<open>CloudCipher\<close> of
  \<open>src/net/cloud_cipher.cpp\<close>: the key exchange and the sealing and opening of records in sequence.
  The cryptography and the random bytes are parameters; HMAC-SHA256 is the model of \<open>auth_code.cpp\<close>.
\<close>

record cloud_crypto =
  cl_public :: "bytes \<Rightarrow> bytes"
  cl_shared :: "bytes \<Rightarrow> bytes \<Rightarrow> bytes"
  cl_write :: "bytes \<Rightarrow> bytes \<Rightarrow> bytes \<Rightarrow> bytes \<Rightarrow> bytes \<times> bytes"
  cl_read :: "bytes \<Rightarrow> bytes \<Rightarrow> bytes \<Rightarrow> bytes \<Rightarrow> bytes \<Rightarrow> bytes option"

record cloud =
  cc_route :: string
  cc_client :: bool
  cc_valid :: bool
  cc_established :: bool
  cc_private :: bytes
  cc_public :: bytes
  cc_txKey :: bytes
  cc_rxKey :: bytes
  cc_tx :: u64
  cc_rx :: u64

definition cc_prefix :: string where "cc_prefix = ''DCR1:''"
definition maxSequence :: u64 where "maxSequence = 9007199254740991"
definition maxPlaintext :: nat where "maxPlaintext = 16 * 1024"
definition maxWire :: nat where "maxWire = 5 + 2 * (8 + maxPlaintext + 16)"

definition cc_nonce :: "u64 \<Rightarrow> bytes" where
  "cc_nonce q = replicate 4 0 @ put_be q 8"

definition cc_aad :: "bytes \<Rightarrow> bytes" where
  "cc_aad q = str_bytes cc_prefix @ q"

definition lower_char :: "char \<Rightarrow> char" where
  "lower_char c = (if 65 \<le> (of_char c :: nat) \<and> (of_char c :: nat) \<le> 90 then char_of ((of_char c :: nat) + 32) else c)"

definition cloud_room_route :: "string \<Rightarrow> string" where
  "cloud_room_route room =
     hex_bytes (hmac_sha256 (str_bytes ''dusklight-cloud-room-route-v1'') (str_bytes (map lower_char room)))"

definition new_cloud :: "cloud_crypto \<Rightarrow> string \<Rightarrow> bool \<Rightarrow> bytes option \<Rightarrow> cloud" where
  "new_cloud cl route client rnd =
     (let blank = \<lparr>cc_route = route, cc_client = client, cc_valid = False, cc_established = False,
            cc_private = replicate 32 0, cc_public = replicate 32 0, cc_txKey = replicate 32 0,
            cc_rxKey = replicate 32 0, cc_tx = 0, cc_rx = 0\<rparr>
      in if unhex_digest route = None then blank
         else case rnd of None \<Rightarrow> blank
         | Some k \<Rightarrow> blank\<lparr>cc_private := k, cc_public := cl_public cl k, cc_valid := True\<rparr>)"

definition public_key :: "cloud \<Rightarrow> string" where
  "public_key c = (if cc_valid c then hex_bytes (cc_public c) else [])"

definition cc_exchange :: "cloud_crypto \<Rightarrow> string \<Rightarrow> cloud \<Rightarrow> bool \<times> cloud" where
  "cc_exchange cl remotePublic c =
     (if \<not> cc_valid c \<or> cc_established c then (False, c)
      else case unhex_digest remotePublic of
        None \<Rightarrow> (False, c)
      | Some remote \<Rightarrow>
          let shared = cl_shared cl (cc_private c) remote; c1 = c\<lparr>cc_private := replicate 32 0\<rparr> in
          if list_all (\<lambda>b. b = 0) shared then (False, c1\<lparr>cc_valid := False\<rparr>)
          else
            let salt = str_bytes (''dusklight-cloud-channel-v1:'' @ cc_route c) @
                  (if cc_client c then cc_public c else remote) @ (if cc_client c then remote else cc_public c);
                prk = hmac_sha256 salt shared;
                c2s = str_bytes ''client-to-server'' @ [1]; s2c = str_bytes ''server-to-client'' @ [1]
            in (True, c1\<lparr>cc_txKey := hmac_sha256 prk (if cc_client c then c2s else s2c),
                  cc_rxKey := hmac_sha256 prk (if cc_client c then s2c else c2s), cc_established := True\<rparr>))"

definition cc_seal :: "cloud_crypto \<Rightarrow> bytes \<Rightarrow> cloud \<Rightarrow> string \<times> cloud" where
  "cc_seal cl plaintext c =
     (if \<not> cc_established c \<or> length plaintext > maxPlaintext \<or> cc_tx c \<ge> maxSequence then ([], c)
      else
        let iv = cc_nonce (cc_tx c); q = drop 4 iv; (cipher, mac) = cl_write cl (cc_txKey c) iv (cc_aad q) plaintext
        in (cc_prefix @ hex_bytes (q @ cipher @ mac), c\<lparr>cc_tx := cc_tx c + 1\<rparr>))"

definition cc_open :: "cloud_crypto \<Rightarrow> string \<Rightarrow> cloud \<Rightarrow> bytes option \<times> cloud" where
  "cc_open cl wire c =
     (if \<not> cc_established c \<or> cc_rx c \<ge> maxSequence \<or> length wire < 53 \<or> length wire > maxWire \<or>
         take 5 wire \<noteq> cc_prefix \<or> odd (length wire - 5)
      then (None, c)
      else case unhex_pairs (drop 5 wire) of
        None \<Rightarrow> (None, c)
      | Some raw \<Rightarrow>
          let iv = cc_nonce (cc_rx c); n = length raw - 24 in
          if drop 4 iv \<noteq> take 8 raw then (None, c)
          else (case cl_read cl (cc_rxKey c) iv (cc_aad (take 8 raw)) (take n (drop 8 raw)) (drop (8 + n) raw) of
            None \<Rightarrow> (None, c)
          | Some plaintext \<Rightarrow> (Some plaintext, c\<lparr>cc_rx := cc_rx c + 1\<rparr>)))"

section \<open>Agreement\<close>

text \<open>What the library documents.\<close>

definition cloud_crypto_ok :: "cloud_crypto \<Rightarrow> bool" where
  "cloud_crypto_ok cl \<longleftrightarrow> (\<forall>k. length (cl_public cl k) = 32) \<and>
     (\<forall>a b. cl_shared cl a (cl_public cl b) = cl_shared cl b (cl_public cl a)) \<and>
     (\<forall>key iv ad p cipher mac. cl_write cl key iv ad p = (cipher, mac) \<longrightarrow>
        length cipher = length p \<and> length mac = 16 \<and> cl_read cl key iv ad cipher mac = Some p)"

definition cc_paired :: "cloud \<Rightarrow> cloud \<Rightarrow> bool" where
  "cc_paired a b \<longleftrightarrow> cc_established a \<and> cc_established b \<and> cc_txKey a = cc_rxKey b \<and> cc_tx a = cc_rx b"

lemma exchange_pairs:
  assumes cl: "cloud_crypto_ok cl" and route: "unhex_digest route \<noteq> None"
    and sh: "\<not> list_all (\<lambda>b. b = 0) (cl_shared cl ka (cl_public cl kb))"
  shows "\<exists>a b. cc_exchange cl (public_key (new_cloud cl route False (Some kb))) (new_cloud cl route True (Some ka)) = (True, a) \<and>
    cc_exchange cl (public_key (new_cloud cl route True (Some ka))) (new_cloud cl route False (Some kb)) = (True, b) \<and>
    cc_paired a b \<and> cc_paired b a \<and> cc_tx a = 0 \<and> cc_tx b = 0"
proof -
  have pub: "unhex_digest (hex_bytes (cl_public cl k)) = Some (cl_public cl k)" for k
    using cl by (intro hex_digest.dec_enc) (simp add: cloud_crypto_ok_def)
  have sym: "cl_shared cl kb (cl_public cl ka) = cl_shared cl ka (cl_public cl kb)" using cl by (simp add: cloud_crypto_ok_def)
  show ?thesis
    using route sh
    by (simp add: cc_exchange_def new_cloud_def public_key_def pub sym cc_paired_def Let_def)
qed

lemma opens_sealed:
  assumes cl: "cloud_crypto_ok cl" and ab: "cc_paired a b"
    and p: "length p \<le> maxPlaintext" "cc_tx a < maxSequence"
  shows "\<exists>wire a' b'. cc_seal cl p a = (wire, a') \<and> cc_open cl wire b = (Some p, b') \<and> cc_paired a' b' \<and>
    cc_tx a' = cc_tx a + 1 \<and> wire \<noteq> []"
proof -
  let ?iv = "cc_nonce (cc_tx a)"
  obtain cipher mac where w: "cl_write cl (cc_txKey a) ?iv (cc_aad (drop 4 ?iv)) p = (cipher, mac)" by fastforce
  then have c: "length cipher = length p" "length mac = 16"
    "cl_read cl (cc_txKey a) ?iv (cc_aad (drop 4 ?iv)) cipher mac = Some p"
    using cl unfolding cloud_crypto_ok_def by blast+
  have q: "drop 4 ?iv = put_be (cc_tx a) 8" by (simp add: cc_nonce_def)
  let ?bytes = "put_be (cc_tx a) 8 @ cipher @ mac"
  let ?wire = "cc_prefix @ hex_bytes ?bytes"
  have est: "cc_established a" "cc_established b" "cc_txKey a = cc_rxKey b" "cc_tx a = cc_rx b"
    using ab by (simp_all add: cc_paired_def)
  have seal: "cc_seal cl p a = (?wire, a\<lparr>cc_tx := cc_tx a + 1\<rparr>)"
    using p(1) est(1) w not_le [THEN iffD2, OF p(2)] by (simp add: cc_seal_def Let_def flip: q)
  have len: "length (hex_bytes ?bytes) = 48 + 2 * length p" using c by (simp add: length_hex_bytes)
  have "length ?wire = 53 + 2 * length p" using len by (simp add: cc_prefix_def)
  then have wire: "\<not> length ?wire < 53" "\<not> length ?wire > maxWire" "even (length ?wire - 5)" "take 5 ?wire = cc_prefix"
    "drop 5 ?wire = hex_bytes ?bytes"
    using p(1) by (simp_all add: maxWire_def) (simp_all add: cc_prefix_def)
  have rest: "take 8 ?bytes = put_be (cc_tx a) 8" "take (length p) (drop 8 ?bytes) = cipher"
    "drop (8 + length p) ?bytes = mac" "length ?bytes - 24 = length p" using c by simp_all
  have "cc_open cl ?wire b = (Some p, b\<lparr>cc_rx := cc_rx b + 1\<rparr>)"
    using est p(2) wire c
    by (simp only: cc_open_def) (simp add: unhex_hex_bytes Let_def rest q flip: est(3,4))
  then show ?thesis using seal est by (auto simp: cc_paired_def cc_prefix_def)
qed

text \<open>Everything one end seals, and what the other makes of the records.\<close>

fun cc_seal_all :: "cloud_crypto \<Rightarrow> bytes list \<Rightarrow> cloud \<Rightarrow> string list \<times> cloud" where
  "cc_seal_all cl [] c = ([], c)"
| "cc_seal_all cl (p # ps) c =
     (case cc_seal cl p c of (wire, c') \<Rightarrow> (case cc_seal_all cl ps c' of (wires, c'') \<Rightarrow> (wire # wires, c'')))"

fun cc_open_all :: "cloud_crypto \<Rightarrow> string list \<Rightarrow> cloud \<Rightarrow> bytes option list \<times> cloud" where
  "cc_open_all cl [] c = ([], c)"
| "cc_open_all cl (w # ws) c =
     (case cc_open cl w c of (r, c') \<Rightarrow> (case cc_open_all cl ws c' of (rs, c'') \<Rightarrow> (r # rs, c'')))"

lemma opens_all:
  assumes "cloud_crypto_ok cl"
  shows "cc_paired a b \<Longrightarrow> \<forall>p \<in> set ps. length p \<le> maxPlaintext \<Longrightarrow> unat (cc_tx a) + length ps < unat maxSequence \<Longrightarrow>
    fst (cc_open_all cl (fst (cc_seal_all cl ps a)) b) = map Some ps"
proof (induction ps arbitrary: a b)
  case Nil
  then show ?case by simp
next
  case (Cons p ps)
  have low: "cc_tx a < maxSequence" using Cons.prems(3) by (simp add: word_less_nat_alt)
  have "length p \<le> maxPlaintext" using Cons.prems(2) by simp
  from opens_sealed [OF assms Cons.prems(1) this low] obtain wire a' b' where
    s: "cc_seal cl p a = (wire, a')" "cc_open cl wire b = (Some p, b')" "cc_paired a' b'" "cc_tx a' = cc_tx a + 1"
    by blast
  have "unat maxSequence < 2 ^ 64 - 1" by (simp add: maxSequence_def)
  then have "unat (cc_tx a + 1) \<le> Suc (unat (cc_tx a))"
    using Cons.prems(3) by (simp add: unat_word_ariths)
  then have "unat (cc_tx a') + length ps < unat maxSequence" using Cons.prems(3) s(4) by simp
  with Cons.IH [OF s(3)] Cons.prems(2) show ?case by (simp add: s(1,2) split: prod.split) (metis fst_conv)
qed

text \<open>The sequence number a record carries.\<close>

definition carries :: "u64 \<Rightarrow> string \<Rightarrow> bool" where
  "carries q wire \<longleftrightarrow> (\<exists>raw. unhex_pairs (drop 5 wire) = Some raw \<and> take 8 raw = put_be q 8)"

lemma refuses_other: "\<not> carries (cc_rx c) wire \<Longrightarrow> cc_open cl wire c = (None, c)"
  by (auto simp: carries_def cc_open_def cc_nonce_def Let_def split: option.split)

lemma carries_one: "carries q wire \<Longrightarrow> carries r wire \<Longrightarrow> q = r"
proof -
  assume "carries q wire" and "carries r wire"
  then have "get_be (put_be q 8) = get_be (put_be r 8)" unfolding carries_def by (metis option.inject)
  then show "q = r" by (simp only: get_be_put_be_8)
qed

lemma seal_carries:
  assumes "cc_established c" and "length p \<le> maxPlaintext" and "cc_tx c < maxSequence"
  shows "\<exists>wire. cc_seal cl p c = (wire, c\<lparr>cc_tx := cc_tx c + 1\<rparr>) \<and> carries (cc_tx c) wire"
proof -
  let ?iv = "cc_nonce (cc_tx c)"
  obtain cipher mac where w: "cl_write cl (cc_txKey c) ?iv (cc_aad (drop 4 ?iv)) p = (cipher, mac)" by fastforce
  let ?wire = "cc_prefix @ hex_bytes (drop 4 ?iv @ cipher @ mac)"
  have "cc_seal cl p c = (?wire, c\<lparr>cc_tx := cc_tx c + 1\<rparr>)"
    using assms(1,2) w not_le [THEN iffD2, OF assms(3)] by (simp add: cc_seal_def Let_def)
  moreover have "drop 5 ?wire = hex_bytes (drop 4 ?iv @ cipher @ mac)" by (simp add: cc_prefix_def)
  then have "carries (cc_tx c) ?wire" by (simp add: carries_def unhex_hex_bytes) (simp add: cc_nonce_def)
  ultimately show ?thesis by blast
qed

lemma next_low: "unat (q :: u64) + Suc n < unat maxSequence \<Longrightarrow> q < maxSequence \<and> unat (q + 1) + n < unat maxSequence"
proof -
  assume n: "unat q + Suc n < unat maxSequence"
  have "unat maxSequence < 2 ^ 64 - 1" by (simp add: maxSequence_def)
  then have "unat (q + 1) = Suc (unat q)" using n by (simp add: unat_word_ariths)
  then show ?thesis using n by (simp add: word_less_nat_alt)
qed

lemma sealed_carry:
  "cc_established c \<Longrightarrow> \<forall>p \<in> set ps. length p \<le> maxPlaintext \<Longrightarrow> unat (cc_tx c) + length ps < unat maxSequence \<Longrightarrow>
   length (fst (cc_seal_all cl ps c)) = length ps \<and>
   (\<forall>j < length ps. carries (cc_tx c + word_of_nat j) (fst (cc_seal_all cl ps c) ! j))"
proof (induction ps arbitrary: c)
  case Nil
  then show ?case by simp
next
  case (Cons p ps)
  note low = next_low [of "cc_tx c" "length ps"]
  have few: "unat (cc_tx c) + Suc (length ps) < unat maxSequence" using Cons.prems(3) by simp
  have "length p \<le> maxPlaintext" using Cons.prems(2) by simp
  from seal_carries [OF Cons.prems(1) this, of cl] low [OF few] obtain wire where
    w: "cc_seal cl p c = (wire, c\<lparr>cc_tx := cc_tx c + 1\<rparr>)" "carries (cc_tx c) wire" by blast
  let ?c = "c\<lparr>cc_tx := cc_tx c + 1\<rparr>"
  have rest: "length (fst (cc_seal_all cl ps ?c)) = length ps \<and>
     (\<forall>j < length ps. carries (cc_tx ?c + word_of_nat j) (fst (cc_seal_all cl ps ?c) ! j))"
    using Cons.prems low [OF few] by (intro Cons.IH) simp_all
  have all: "fst (cc_seal_all cl (p # ps) c) = wire # fst (cc_seal_all cl ps ?c)"
    by (simp add: w(1) split: prod.split)
  have "carries (cc_tx c + word_of_nat j) (fst (cc_seal_all cl (p # ps) c) ! j)" if "j < length (p # ps)" for j
  proof (cases j)
    case 0
    then show ?thesis using w(2) unfolding all by simp
  next
    case (Suc k)
    then have "carries (cc_tx c + 1 + word_of_nat k) (fst (cc_seal_all cl ps ?c) ! k)" using rest that by simp
    then show ?thesis using Suc unfolding all by (simp add: add.assoc add.commute [of 1])
  qed
  then show ?case using rest unfolding all by simp
qed

lemma cc_open_all_Cons:
  "snd (cc_open_all cl (w # ws) c) = snd (cc_open_all cl ws (snd (cc_open cl w c)))"
  by (simp add: case_prod_beta)

lemma opens_up_to:
  assumes "cloud_crypto_ok cl"
  shows "cc_paired a b \<Longrightarrow> \<forall>p \<in> set ps. length p \<le> maxPlaintext \<Longrightarrow> unat (cc_tx a) + length ps < unat maxSequence \<Longrightarrow>
    i \<le> length ps \<Longrightarrow> cc_rx (snd (cc_open_all cl (take i (fst (cc_seal_all cl ps a))) b)) = cc_rx b + word_of_nat i"
proof (induction ps arbitrary: a b i)
  case Nil
  then show ?case by simp
next
  case (Cons p ps)
  have few: "unat (cc_tx a) + Suc (length ps) < unat maxSequence" using Cons.prems(3) by simp
  note low = next_low [OF few]
  have "length p \<le> maxPlaintext" using Cons.prems(2) by simp
  from opens_sealed [OF assms Cons.prems(1) this] low obtain wire a' b' where
    s: "cc_seal cl p a = (wire, a')" "cc_open cl wire b = (Some p, b')" "cc_paired a' b'" "cc_tx a' = cc_tx a + 1"
    by blast
  have rx: "cc_rx b' = cc_rx b + 1" using s(3,4) Cons.prems(1) by (simp add: cc_paired_def)
  show ?case
  proof (cases i)
    case (Suc k)
    have "cc_rx (snd (cc_open_all cl (take k (fst (cc_seal_all cl ps a'))) b')) = cc_rx b' + word_of_nat k"
      using Cons.prems Suc s(4) low by (intro Cons.IH [OF s(3)]) simp_all
    then show ?thesis
      using rx s(1,2) unfolding Suc
      by (simp add: cc_open_all_Cons case_prod_beta add.assoc add.commute [of 1] del: cc_open_all.simps)
  qed simp
qed

text \<open>
  A reader takes the records of a writer in order only: after the first \<open>i\<close> of them it refuses every
  other record of the writer, and every record that does not carry the number \<open>i\<close>, and stays as it is.
\<close>

definition in_order_only :: "cloud_crypto \<Rightarrow> string list \<Rightarrow> cloud \<Rightarrow> bool" where
  "in_order_only cl wires b \<longleftrightarrow> (\<forall>i \<le> length wires. let c = snd (cc_open_all cl (take i wires) b) in
     (\<forall>j < length wires. j \<noteq> i \<longrightarrow> cc_open cl (wires ! j) c = (None, c)) \<and>
     (\<forall>wire. \<not> carries (word_of_nat i) wire \<longrightarrow> cc_open cl wire c = (None, c)))"

lemma paired_in_order:
  assumes "cloud_crypto_ok cl" and "cc_paired a b" and "cc_tx a = 0" and "\<forall>p \<in> set ps. length p \<le> maxPlaintext"
    and "length ps < unat maxSequence"
  shows "in_order_only cl (fst (cc_seal_all cl ps a)) b"
  unfolding in_order_only_def Let_def
proof (intro allI impI conjI)
  fix i
  let ?w = "fst (cc_seal_all cl ps a)" and ?c = "snd (cc_open_all cl (take i (fst (cc_seal_all cl ps a))) b)"
  assume i: "i \<le> length ?w"
  have est: "cc_established a" and zero: "cc_rx b = 0" using assms(2,3) by (simp_all add: cc_paired_def)
  have wires: "length ?w = length ps" "\<forall>j < length ps. carries (word_of_nat j) (?w ! j)"
    using sealed_carry [OF est assms(4), of cl] assms(3,5) by simp_all
  have rx: "cc_rx ?c = word_of_nat i"
    using opens_up_to [OF assms(1,2,4), of i] assms(3,5) i wires(1) zero by simp
  then show refuses: "cc_open cl wire ?c = (None, ?c)" if "\<not> carries (word_of_nat i) wire" for wire
    using that refuses_other by metis
  show "cc_open cl (?w ! j) ?c = (None, ?c)" if "j < length ?w" "j \<noteq> i" for j
  proof (rule refuses)
    have read: "unat (word_of_nat n :: u64) = n" if "n < unat maxSequence" for n
      using that by (simp add: maxSequence_def unat_of_nat take_bit_nat_def)
    have "i < unat maxSequence" "j < unat maxSequence" using that i wires(1) assms(5) by simp_all
    then have "(word_of_nat j :: u64) \<noteq> word_of_nat i" using that(2) read by metis
    then show "\<not> carries (word_of_nat i) (?w ! j)" using wires(2) that(1) wires(1) carries_one by metis
  qed
qed

text \<open>
  C20: a client and a service that exchange public keys for one route are both established, and the
  messages either seals are opened by the other in the same order to the same texts; a record that is
  repeated, that comes early, or whose sequence number is not the next one is refused and changes
  nothing, wherever in the stream it comes.  The cryptography must behave as documented and the shared
  secret must not be zero.
\<close>

theorem cloud_channel_in_order:
  assumes "cloud_crypto_ok cl" and "unhex_digest route \<noteq> None"
    and "\<not> list_all (\<lambda>b. b = 0) (cl_shared cl ka (cl_public cl kb))"
    and "\<forall>p \<in> set ps. length p \<le> maxPlaintext" and "length ps < unat maxSequence"
  defines "client \<equiv> new_cloud cl route True (Some ka)" and "service \<equiv> new_cloud cl route False (Some kb)"
  shows "\<exists>a b. cc_exchange cl (public_key service) client = (True, a) \<and> cc_exchange cl (public_key client) service = (True, b) \<and>
    fst (cc_open_all cl (fst (cc_seal_all cl ps a)) b) = map Some ps \<and>
    fst (cc_open_all cl (fst (cc_seal_all cl ps b)) a) = map Some ps \<and>
    in_order_only cl (fst (cc_seal_all cl ps a)) b \<and> in_order_only cl (fst (cc_seal_all cl ps b)) a"
proof -
  obtain a b where ab: "cc_exchange cl (public_key service) client = (True, a)"
    "cc_exchange cl (public_key client) service = (True, b)" "cc_paired a b" "cc_paired b a" "cc_tx a = 0" "cc_tx b = 0"
    using exchange_pairs [OF assms(1-3)] unfolding client_def service_def by blast
  then show ?thesis
    using opens_all [OF assms(1) _ assms(4)] paired_in_order [OF assms(1) _ _ assms(4,5)] assms(5) by auto
qed

definition ex_cloud :: cloud_crypto where
  "ex_cloud = \<lparr>cl_public = (\<lambda>_. replicate 32 5), cl_shared = (\<lambda>_ _. replicate 32 7),
     cl_write = (\<lambda>key iv ad p. (p, replicate 16 9)), cl_read = (\<lambda>key iv ad c mac. Some c)\<rparr>"

theorem cloud_channel_in_order_witness:
  "\<exists>a b. cc_exchange ex_cloud (public_key (new_cloud ex_cloud (hex_bytes (replicate 32 0)) False (Some (replicate 32 2))))
      (new_cloud ex_cloud (hex_bytes (replicate 32 0)) True (Some (replicate 32 1))) = (True, a) \<and>
    fst (cc_open_all ex_cloud (fst (cc_seal_all ex_cloud [[65], [66, 67]] a)) b) = [Some [65], Some [66, 67]] \<and>
    in_order_only ex_cloud (fst (cc_seal_all ex_cloud [[65], [66, 67]] a)) b"
proof -
  have "cloud_crypto_ok ex_cloud" by (simp add: cloud_crypto_ok_def ex_cloud_def)
  moreover have "unhex_digest (hex_bytes (replicate 32 0)) \<noteq> None" using hex_digest.dec_enc [of "replicate 32 0"] by simp
  moreover have "\<not> list_all (\<lambda>b. b = 0) (cl_shared ex_cloud (replicate 32 1) (cl_public ex_cloud (replicate 32 2)))"
  proof -
    have "replicate 32 (7 :: u8) = 7 # replicate 31 7" by (simp flip: replicate_Suc)
    then show ?thesis by (simp add: ex_cloud_def)
  qed
  ultimately show ?thesis
    using cloud_channel_in_order [of ex_cloud "hex_bytes (replicate 32 0)" "replicate 32 1" "replicate 32 2" "[[65], [66, 67]]"]
    by (auto simp: maxPlaintext_def maxSequence_def)
qed

end
