(* ===== verification/Invite_Code.thy ===== *)
theory Invite_Code
  imports Reliable_Json Peer_Tunnel
begin

text \<open>
  Invite codes, \<open>src/net/invite_code.cpp\<close>: the URL-safe base 64 form, the compact payload with its
  checksum, the older JSON payload, and the decoder that accepts both.
\<close>

section \<open>Base 64\<close>

definition b64_alphabet :: string where
  "b64_alphabet = ''ABCDEFGHIJKLMNOPQRSTUVWXYZabcdefghijklmnopqrstuvwxyz0123456789-_''"

definition b64_char :: "u32 \<Rightarrow> nat \<Rightarrow> char" where
  "b64_char triple shift = b64_alphabet ! unat (drop_bit shift triple AND 0x3F)"

definition b64_triple :: "u8 \<Rightarrow> u8 \<Rightarrow> u8 \<Rightarrow> u32" where
  "b64_triple b0 b1 b2 = push_bit 16 (ucast b0) OR push_bit 8 (ucast b1) OR ucast b2"

fun base64url_encode :: "bytes \<Rightarrow> string" where
  "base64url_encode [] = []"
| "base64url_encode [b0] = (let t = b64_triple b0 0 0 in [b64_char t 18, b64_char t 12])"
| "base64url_encode [b0, b1] = (let t = b64_triple b0 b1 0 in [b64_char t 18, b64_char t 12, b64_char t 6])"
| "base64url_encode (b0 # b1 # b2 # bs) =
     (let t = b64_triple b0 b1 b2 in
      [b64_char t 18, b64_char t 12, b64_char t 6, b64_char t 0] @ base64url_encode bs)"

definition decode_char :: "char \<Rightarrow> int" where
  "decode_char c =
     (let n = int (of_char c) in
      if 65 \<le> n \<and> n \<le> 90 then n - 65
      else if 97 \<le> n \<and> n \<le> 122 then n - 97 + 26
      else if 48 \<le> n \<and> n \<le> 57 then n - 48 + 52
      else if c = CHR ''-'' then 62
      else if c = CHR ''_'' then 63
      else - 1)"

fun b64_loop :: "string \<Rightarrow> u32 \<Rightarrow> nat \<Rightarrow> bytes option" where
  "b64_loop [] acc bits = Some []"
| "b64_loop (c # cs) acc bits =
     (if decode_char c < 0 then None
      else
        let acc' = push_bit 6 acc OR word_of_int (decode_char c); bits' = bits + 6 in
        if bits' \<ge> 8 then map_option (\<lambda>out. ucast (drop_bit (bits' - 8) acc' AND 0xFF) # out) (b64_loop cs acc' (bits' - 8))
        else b64_loop cs acc' bits')"

definition base64url_decode :: "string \<Rightarrow> bytes option" where
  "base64url_decode text = b64_loop text 0 0"

section \<open>The checksum\<close>

definition kDevSignatureSecret :: string where "kDevSignatureSecret = ''tp-multiplayer-dev-invite-secret''"
definition kFnvOffset :: u64 where "kFnvOffset = 14695981039346656037"
definition kFnvPrime :: u64 where "kFnvPrime = 1099511628211"

definition fnv_step :: "u8 \<Rightarrow> u64 \<Rightarrow> u64" where
  "fnv_step b signature = (signature XOR ucast b) * kFnvPrime"

definition signature_for_bytes :: "bytes \<Rightarrow> u64" where
  "signature_for_bytes payload = fold fnv_step payload (fold fnv_step (str_bytes kDevSignatureSecret) kFnvOffset)"

definition sign_payload :: "string \<Rightarrow> string" where
  "sign_payload payload = base64url_encode (put_be (signature_for_bytes (str_bytes payload)) 8)"

section \<open>The payload\<close>

record invite =
  iv_version :: int
  iv_transport :: string
  iv_host :: string
  iv_port :: int
  iv_room :: string
  iv_sessionId :: string
  iv_sessionKey :: string

definition kPrefix :: string where "kPrefix = ''TP1-''"

definition append_u16 :: "int \<Rightarrow> bytes" where
  "append_u16 value = [word_of_int (value div 256), word_of_int value]"

definition append_string :: "string \<Rightarrow> bytes option" where
  "append_string value = (if length value > 255 then None else Some (word_of_nat (length value) # str_bytes value))"

text \<open>A run of at most three digits with a value of at most 255, and how many there were.\<close>

fun ipv4_digits :: "string \<Rightarrow> nat \<Rightarrow> nat \<Rightarrow> (nat \<times> nat \<times> string) option" where
  "ipv4_digits (c # cs) v d =
     (if is_digit c then
        (let v' = v * 10 + digit_val c in if v' > 255 \<or> d + 1 > 3 then None else ipv4_digits cs v' (d + 1))
      else Some (v, d, c # cs))"
| "ipv4_digits [] v d = Some (v, d, [])"

fun ipv4_parts :: "nat \<Rightarrow> string \<Rightarrow> (bytes \<times> string) option" where
  "ipv4_parts 0 s = Some ([], s)"
| "ipv4_parts (Suc n) s =
     (if s = [] then None
      else case ipv4_digits s 0 0 of
        None \<Rightarrow> None
      | Some (v, d, rest) \<Rightarrow>
          if d = 0 then None
          else if n = 0 then Some ([word_of_nat v], rest)
          else if rest = [] \<or> hd rest \<noteq> CHR ''.'' then None
          else map_option (\<lambda>(bs, rest'). (word_of_nat v # bs, rest')) (ipv4_parts n (tl rest)))"

definition parse_ipv4 :: "string \<Rightarrow> bytes option" where
  "parse_ipv4 host = (case ipv4_parts 4 host of Some (ip, []) \<Rightarrow> Some ip | _ \<Rightarrow> None)"

definition create_compact_invite_code :: "invite \<Rightarrow> string option" where
  "create_compact_invite_code p =
     (if iv_version p \<noteq> 1 \<or> iv_transport p \<noteq> ''direct'' \<and> iv_transport p \<noteq> ''relay'' \<or>
         iv_port p \<le> 0 \<or> iv_port p > 65535 then None
      else case parse_ipv4 (iv_host p) of
        None \<Rightarrow> None
      | Some ip \<Rightarrow>
          (case (append_string (iv_room p), append_string (iv_sessionId p), append_string (iv_sessionKey p)) of
             (Some room, Some sid, Some key) \<Rightarrow>
               let bytes = [1, if iv_transport p = ''relay'' then 2 else 1] @ ip @ append_u16 (iv_port p) @ room @ sid @ key
               in Some (kPrefix @ base64url_encode (bytes @ put_be (signature_for_bytes bytes) 8))
           | _ \<Rightarrow> None))"

definition legacy_json :: "invite \<Rightarrow> json" where
  "legacy_json p = j_obj [(''version'', JInt (iv_version p)), (''transport'', JStr (iv_transport p)),
     (''host'', JStr (iv_host p)), (''port'', JInt (iv_port p)), (''room'', JStr (iv_room p)),
     (''session_id'', JStr (iv_sessionId p)), (''session_key'', JStr (iv_sessionKey p))]"

definition create_legacy_invite_code :: "text_codec \<Rightarrow> invite \<Rightarrow> json_error + string" where
  "create_legacy_invite_code tc p =
     try_bind (tc_dump tc (legacy_json p)) (\<lambda>bytes.
       Inr (kPrefix @ base64url_encode (str_bytes bytes) @ ''.'' @ sign_payload bytes))"

definition create_invite_code :: "text_codec \<Rightarrow> invite \<Rightarrow> json_error + string" where
  "create_invite_code tc p =
     (case create_compact_invite_code p of Some code \<Rightarrow> Inr code | None \<Rightarrow> create_legacy_invite_code tc p)"

definition make_session_token :: "bytes option \<Rightarrow> string option" where
  "make_session_token rnd = map_option base64url_encode rnd"

section \<open>Decoding\<close>

datatype invite_error =
  PayloadEncoding | TooShort | BadSignature | Unsupported | InvalidCompact | MissingFields | PayloadJson

definition read_u16 :: "bytes \<Rightarrow> u16" where
  "read_u16 bs = push_bit 8 (ucast (bs ! 0)) OR ucast (bs ! 1)"

text \<open>The string at an offset and the offset after it; a failure leaves the offset where it got to.\<close>

definition read_string :: "bytes \<Rightarrow> nat \<Rightarrow> string option \<times> nat" where
  "read_string bs offset =
     (if offset \<ge> length bs then (None, offset)
      else let n = unat (bs ! offset) in
        if offset + 1 + n > length bs then (None, offset + 1)
        else (Some (bytes_str (subspan (offset + 1) n bs)), offset + 1 + n))"

definition show_ipv4 :: "bytes \<Rightarrow> string" where
  "show_ipv4 ip = nat_dec (unat (ip ! 0)) @ ''.'' @ nat_dec (unat (ip ! 1)) @ ''.'' @ nat_dec (unat (ip ! 2)) @
     ''.'' @ nat_dec (unat (ip ! 3))"

definition decode_compact :: "string \<Rightarrow> invite_error + invite" where
  "decode_compact body =
     (case base64url_decode body of
        None \<Rightarrow> Inl PayloadEncoding
      | Some bytes \<Rightarrow>
          if length bytes < 1 + 1 + 4 + 2 + 1 + 1 + 1 + 8 then Inl TooShort
          else
            let size = length bytes - 8 in
            if get_be (drop size bytes) \<noteq> signature_for_bytes (take size bytes) then Inl BadSignature
            else if bytes ! 0 \<noteq> 1 \<or> bytes ! 1 \<noteq> 1 \<and> bytes ! 1 \<noteq> 2 then Inl Unsupported
            else
              let port = uint (read_u16 (drop 6 bytes));
                  (room, o1) = read_string bytes 8; (sid, o2) = read_string bytes o1; (key, o3) = read_string bytes o2
              in if room = None \<or> sid = None \<or> key = None \<or> o3 \<noteq> size \<or> port \<le> 0 then Inl InvalidCompact
                 else Inr \<lparr>iv_version = 1, iv_transport = (if bytes ! 1 = 2 then ''relay'' else ''direct''),
                        iv_host = show_ipv4 (subspan 2 4 bytes), iv_port = port, iv_room = the room,
                        iv_sessionId = the sid, iv_sessionKey = the key\<rparr>)"

definition invite_fields :: "json \<Rightarrow> json_error + invite" where
  "invite_fields v =
     try_bind (j_value get_int ''version'' 0 v) (\<lambda>version.
     try_bind (j_value get_string ''transport'' [] v) (\<lambda>transport.
     try_bind (j_value get_string ''host'' [] v) (\<lambda>host.
     try_bind (j_value get_int ''port'' 0 v) (\<lambda>port.
     try_bind (j_value get_string ''room'' [] v) (\<lambda>room.
     try_bind (j_value get_string ''session_id'' [] v) (\<lambda>sid.
     try_bind (j_value get_string ''session_key'' [] v) (\<lambda>key.
       Inr \<lparr>iv_version = version, iv_transport = transport, iv_host = host, iv_port = port, iv_room = room,
            iv_sessionId = sid, iv_sessionKey = key\<rparr>)))))))"

definition decode_legacy :: "text_codec \<Rightarrow> string \<Rightarrow> string \<Rightarrow> invite_error + invite" where
  "decode_legacy tc token signature =
     (case base64url_decode token of
        None \<Rightarrow> Inl PayloadEncoding
      | Some bytes \<Rightarrow>
          if signature \<noteq> sign_payload (bytes_str bytes) then Inl BadSignature
          else (case try_bind (tc_parse tc (bytes_str bytes)) invite_fields of
            Inl e \<Rightarrow> Inl PayloadJson
          | Inr p \<Rightarrow>
              if iv_version p \<noteq> 1 \<or> iv_transport p = [] \<or> iv_host p = [] \<or> iv_port p \<le> 0 \<or> iv_port p > 65535 \<or>
                 iv_sessionId p = [] \<or> iv_sessionKey p = []
              then Inl MissingFields else Inr p))"

definition decode_invite_code :: "text_codec \<Rightarrow> string \<Rightarrow> invite_error + invite" where
  "decode_invite_code tc code =
     (let body = (if take 4 code = kPrefix then drop 4 code else code);
          token = takeWhile (\<lambda>c. c \<noteq> CHR ''.'') body
      in if token = body then decode_compact body
         else decode_legacy tc token (drop (length token + 1) body))"

end
