(* ===== verification/Invite_Roundtrip.thy ===== *)
theory Invite_Roundtrip
  imports Invite_Code
begin

text \<open>
  Invite codes survive their journey: base 64 decodes to what was encoded, and a compact code decodes
  to the invitation it was made from.
\<close>

section \<open>Base 64\<close>

lemma masks: "(0x3F :: u32) = mask 6" "(0xFF :: u32) = mask 8"
  by (simp_all add: mask_eq_exp_minus_1)

lemma decode_alphabet_list: "map decode_char b64_alphabet = map int [0..<64]"
proof -
  have "[0..<64] = [0, 1, 2, 3, 4, 5, 6, 7, 8, 9, 10, 11, 12, 13, 14, 15, 16, 17, 18, 19, 20, 21, 22, 23, 24, 25,
      26, 27, 28, 29, 30, 31, 32, 33, 34, 35, 36, 37, 38, 39, 40, 41, 42, 43, 44, 45, 46, 47, 48, 49, 50, 51,
      52, 53, 54, 55, 56, 57, 58, 59, 60, 61, 62, 63]" by (simp add: upt_conv_Cons)
  then show ?thesis by (simp add: b64_alphabet_def decode_char_def)
qed

lemma decode_alphabet: "n < 64 \<Longrightarrow> decode_char (b64_alphabet ! n) = int n"
proof -
  have len: "length b64_alphabet = 64" by (simp add: b64_alphabet_def)
  assume n: "n < 64"
  have "map decode_char b64_alphabet ! n = map int [0..<64] ! n" by (simp only: decode_alphabet_list)
  then show ?thesis using n len by simp
qed

lemma six_bits: "unat (w AND 0x3F :: u32) < 64"
  using word_and_le1 [of w "0x3F"] by (simp add: word_le_nat_alt)

lemma decode_b64_char [simp]:
  "decode_char (b64_char t k) = uint (drop_bit k t AND 0x3F)"
  using decode_alphabet [OF six_bits, of "drop_bit k t"] by (simp add: b64_char_def)

lemma high_byte: "ucast (drop_bit 4 (push_bit 6 (push_bit 6 acc OR (drop_bit 18 t AND 0x3F)) OR (drop_bit 12 t AND 0x3F)) AND 0xFF) =
    (ucast (drop_bit 16 (t :: u32)) :: u8)"
  unfolding masks by (rule bit_word_eqI) (auto simp: bit_simps algebra_simps)

lemma middle_byte: "ucast (drop_bit 2 (push_bit 6 (push_bit 6 acc OR (drop_bit 12 t AND 0x3F)) OR (drop_bit 6 t AND 0x3F)) AND 0xFF) =
    (ucast (drop_bit 8 (t :: u32)) :: u8)"
  unfolding masks by (rule bit_word_eqI) (auto simp: bit_simps algebra_simps)

lemma low_byte: "ucast ((push_bit 6 (push_bit 6 acc OR (drop_bit 6 t AND 0x3F)) OR (t AND 0x3F)) AND 0xFF) = (ucast (t :: u32) :: u8)"
  unfolding masks by (rule bit_word_eqI) (auto simp: bit_simps algebra_simps)

lemma triple_bytes:
  "ucast (drop_bit 16 (b64_triple b0 b1 b2)) = b0" "ucast (drop_bit 8 (b64_triple b0 b1 b2)) = b1"
  "ucast (b64_triple b0 b1 b2) = b2"
proof -
  have high: "\<not> bit (b :: u8) (8 + n)" for b n using bit_imp_le_length [of b "8 + n"] by auto
  show "ucast (drop_bit 16 (b64_triple b0 b1 b2)) = b0" "ucast (drop_bit 8 (b64_triple b0 b1 b2)) = b1"
    "ucast (b64_triple b0 b1 b2) = b2"
    by (rule bit_word_eqI; auto simp: b64_triple_def bit_simps high dest: bit_imp_le_length)+
qed

lemma six_value: "word_of_int (uint (w AND 0x3F :: u32)) = w AND 0x3F"
  by simp

lemma take_six:
  "b64_loop (b64_char t k # cs) acc 0 = b64_loop cs (push_bit 6 acc OR (drop_bit k t AND 0x3F)) 6"
  "b64_loop (b64_char t k # cs) acc 6 = map_option (\<lambda>out.
     ucast (drop_bit 4 (push_bit 6 acc OR (drop_bit k t AND 0x3F)) AND 0xFF) # out)
     (b64_loop cs (push_bit 6 acc OR (drop_bit k t AND 0x3F)) 4)"
  "b64_loop (b64_char t k # cs) acc 4 = map_option (\<lambda>out.
     ucast (drop_bit 2 (push_bit 6 acc OR (drop_bit k t AND 0x3F)) AND 0xFF) # out)
     (b64_loop cs (push_bit 6 acc OR (drop_bit k t AND 0x3F)) 2)"
  "b64_loop (b64_char t k # cs) acc 2 = map_option (\<lambda>out.
     ucast ((push_bit 6 acc OR (drop_bit k t AND 0x3F)) AND 0xFF) # out)
     (b64_loop cs (push_bit 6 acc OR (drop_bit k t AND 0x3F)) 0)"
  by (simp_all add: Let_def)

lemma loop_two:
  "b64_loop (b64_char t 18 # b64_char t 12 # cs) acc 0 =
   map_option (\<lambda>out. ucast (drop_bit 16 t) # out)
     (b64_loop cs (push_bit 6 (push_bit 6 acc OR (drop_bit 18 t AND 0x3F)) OR (drop_bit 12 t AND 0x3F)) 4)"
  by (simp only: take_six high_byte)

lemma loop_three:
  "b64_loop (b64_char t 6 # cs) (push_bit 6 acc OR (drop_bit 12 t AND 0x3F)) 4 =
   map_option (\<lambda>out. ucast (drop_bit 8 t) # out)
     (b64_loop cs (push_bit 6 (push_bit 6 acc OR (drop_bit 12 t AND 0x3F)) OR (drop_bit 6 t AND 0x3F)) 2)"
  by (simp only: take_six middle_byte)

lemma loop_four:
  "b64_loop (b64_char t 0 # cs) (push_bit 6 acc OR (drop_bit 6 t AND 0x3F)) 2 =
   map_option (\<lambda>out. ucast t # out)
     (b64_loop cs (push_bit 6 (push_bit 6 acc OR (drop_bit 6 t AND 0x3F)) OR (t AND 0x3F)) 0)"
  by (simp only: take_six drop_bit_0 id_apply low_byte)

lemma b64_roundtrip: "b64_loop (base64url_encode bs) acc 0 = Some bs"
proof (induction bs arbitrary: acc rule: base64url_encode.induct)
  case 1
  then show ?case by simp
next
  case (2 b0)
  then show ?case by (simp only: base64url_encode.simps Let_def loop_two b64_loop.simps(1) option.map triple_bytes)
next
  case (3 b0 b1)
  then show ?case
    by (simp only: base64url_encode.simps Let_def loop_two loop_three b64_loop.simps(1) option.map triple_bytes)
next
  case (4 b0 b1 b2 bs)
  then show ?case
    by (simp only: base64url_encode.simps Let_def append_Cons append_Nil loop_two loop_three loop_four option.map triple_bytes)
qed

lemma base64url_roundtrip [simp]: "base64url_decode (base64url_encode bs) = Some bs"
  by (simp add: base64url_decode_def b64_roundtrip)

interpretation base64: codec base64url_encode base64url_decode "\<lambda>_. True"
  by unfold_locales simp

lemma b64_char_not_dot: "b64_char t k \<noteq> CHR ''.''"
proof -
  have "CHR ''.'' \<notin> set b64_alphabet" by (simp add: b64_alphabet_def)
  moreover have "length b64_alphabet = 64" by (simp add: b64_alphabet_def)
  ultimately show ?thesis using six_bits [of "drop_bit k t"] unfolding b64_char_def by (metis nth_mem)
qed

lemma b64_no_dot: "CHR ''.'' \<notin> set (base64url_encode bs)"
  by (induction bs rule: base64url_encode.induct) (auto simp: Let_def b64_char_not_dot [symmetric])

section \<open>The compact payload\<close>

lemma ipv4_parts_length: "ipv4_parts n s = Some (ip, rest) \<Longrightarrow> length ip = n"
  by (induction n s arbitrary: ip rest rule: ipv4_parts.induct)
     (auto split: if_splits option.splits prod.splits)

lemma parse_ipv4_length: "parse_ipv4 h = Some ip \<Longrightarrow> length ip = 4"
  by (auto simp: parse_ipv4_def dest: ipv4_parts_length split: option.splits list.splits)

lemma read_append_u16:
  assumes "0 < port" and "port \<le> 65535"
  shows "uint (read_u16 (append_u16 port @ rest)) = port"
proof -
  have "read_u16 (append_u16 port @ rest) = word_of_int port"
    unfolding read_u16_def append_u16_def
    by (rule bit_word_eqI)
       (auto simp: bit_simps simp flip: drop_bit_eq_div [where n = 8, simplified])
  then show ?thesis using assms by (simp add: uint_word_of_int)
qed

lemma read_appended:
  assumes "append_string v = Some bs" and "offset = length pre"
  shows "read_string (pre @ bs @ post) offset = (Some v, length pre + length bs)"
proof -
  have n: "length v \<le> 255" and bs: "bs = word_of_nat (length v) # str_bytes v"
    using assms(1) by (auto simp: append_string_def split: if_splits)
  have "unat (word_of_nat (length v) :: u8) = length v" using n by (simp add: unat_of_nat take_bit_nat_eq_self)
  moreover have "map (char_of_byte \<circ> byte_of_char) v = v" by (rule map_idI) simp
  ultimately show ?thesis
    by (simp add: read_string_def bs assms(2) subspan_def Let_def nth_append)
qed

lemma append_string_nonempty: "append_string v = Some bs \<Longrightarrow> 1 \<le> length bs"
  by (auto simp: append_string_def split: if_splits)

lemma length_append_u16 [simp]: "length (append_u16 n) = 2"
  by (simp add: append_u16_def)

definition compact_bytes :: "u8 \<Rightarrow> bytes \<Rightarrow> int \<Rightarrow> bytes \<Rightarrow> bytes \<Rightarrow> bytes \<Rightarrow> bytes" where
  "compact_bytes kind ip port room sid key = [1, kind] @ ip @ append_u16 port @ room @ sid @ key"

lemma decode_compact_bytes:
  assumes kind: "kind = 1 \<or> kind = 2" and ip: "length ip = 4" and port: "0 < port" "port \<le> 65535"
    and strs: "append_string room = Some r" "append_string sid = Some s" "append_string key = Some k"
    and bytes: "bytes = compact_bytes kind ip port r s k"
  shows "decode_compact (base64url_encode (bytes @ put_be (signature_for_bytes bytes) 8)) =
    Inr \<lparr>iv_version = 1, iv_transport = (if kind = 2 then ''relay'' else ''direct''), iv_host = show_ipv4 ip,
      iv_port = port, iv_room = room, iv_sessionId = sid, iv_sessionKey = key\<rparr>"
proof -
  let ?sig = "put_be (signature_for_bytes bytes) 8" and ?pre = "[1, kind] @ ip @ append_u16 port"
  have long: "11 \<le> length bytes"
    using strs [THEN append_string_nonempty] ip by (simp add: bytes compact_bytes_def)
  have head: "(bytes @ ?sig) ! 0 = 1" "(bytes @ ?sig) ! 1 = kind" "subspan 2 4 (bytes @ ?sig) = ip"
    using ip by (simp_all add: bytes compact_bytes_def subspan_def)
  have "drop 6 (bytes @ ?sig) = append_u16 port @ r @ s @ k @ ?sig"
    using ip by (simp add: bytes compact_bytes_def)
  then have p: "uint (read_u16 (drop 6 (bytes @ ?sig))) = port" using port by (simp add: read_append_u16)
  have r: "read_string (bytes @ ?sig) 8 = (Some room, 8 + length r)"
    using read_appended [OF strs(1), of 8 ?pre "s @ k @ ?sig"] ip by (simp add: bytes compact_bytes_def)
  have s: "read_string (bytes @ ?sig) (8 + length r) = (Some sid, 8 + length r + length s)"
    using read_appended [OF strs(2), of "8 + length r" "?pre @ r" "k @ ?sig"] ip by (simp add: bytes compact_bytes_def)
  have k: "read_string (bytes @ ?sig) (8 + length r + length s) = (Some key, length bytes)"
    using read_appended [OF strs(3), of "8 + length r + length s" "?pre @ r @ s" "?sig"] ip
    by (simp add: bytes compact_bytes_def)
  from kind show ?thesis
    by (elim disjE) (use long port head p r s k in \<open>simp_all add: decode_compact_def Let_def\<close>)
qed

text \<open>
  C27: a compact invite code decodes to the invitation it was made from, its address in canonical
  decimal form; the code starts with the prefix.
\<close>

theorem compact_code_roundtrip:
  assumes "create_compact_invite_code p = Some code"
  shows "\<exists>ip. parse_ipv4 (iv_host p) = Some ip \<and> take 4 code = kPrefix \<and>
    decode_invite_code tc code = Inr (p\<lparr>iv_host := show_ipv4 ip\<rparr>)"
proof -
  obtain ip r s k where c: "iv_version p = 1" "iv_transport p = ''direct'' \<or> iv_transport p = ''relay''"
    "0 < iv_port p" "iv_port p \<le> 65535" "parse_ipv4 (iv_host p) = Some ip"
    "append_string (iv_room p) = Some r" "append_string (iv_sessionId p) = Some s" "append_string (iv_sessionKey p) = Some k"
    and code: "code = kPrefix @ base64url_encode
      (compact_bytes (if iv_transport p = ''relay'' then 2 else 1) ip (iv_port p) r s k @
       put_be (signature_for_bytes (compact_bytes (if iv_transport p = ''relay'' then 2 else 1) ip (iv_port p) r s k)) 8)"
    using assms
    by (auto simp: create_compact_invite_code_def compact_bytes_def Let_def not_le not_less split: if_splits option.splits)
  define body where "body = drop 4 code"
  have split: "take 4 code = kPrefix" by (simp add: code kPrefix_def)
  have body: "body = base64url_encode
      (compact_bytes (if iv_transport p = ''relay'' then 2 else 1) ip (iv_port p) r s k @
       put_be (signature_for_bytes (compact_bytes (if iv_transport p = ''relay'' then 2 else 1) ip (iv_port p) r s k)) 8)"
    by (simp add: body_def code kPrefix_def)
  have "takeWhile (\<lambda>x. x \<noteq> CHR ''.'') body = body" using b64_no_dot by (auto simp: body)
  then have "decode_invite_code tc code = decode_compact body"
    by (simp add: decode_invite_code_def split Let_def body_def)
  also have "\<dots> = Inr (p\<lparr>iv_host := show_ipv4 ip\<rparr>)"
    unfolding body using c by (subst decode_compact_bytes [OF _ parse_ipv4_length [OF c(5)] _ _ c(6-8) refl]) auto
  finally show ?thesis using c(5) split by simp
qed

lemma compact_code_roundtrip_witness:
  "\<exists>code. create_compact_invite_code \<lparr>iv_version = 1, iv_transport = ''direct'', iv_host = ''127.0.0.1'', iv_port = 34197,
      iv_room = ''Lobby'', iv_sessionId = ''s'', iv_sessionKey = ''k''\<rparr> = Some code \<and> take 4 code = kPrefix"
proof -
  let ?p = "\<lparr>iv_version = 1, iv_transport = ''direct'', iv_host = ''127.0.0.1'', iv_port = 34197,
      iv_room = ''Lobby'', iv_sessionId = ''s'', iv_sessionKey = ''k''\<rparr> :: invite"
  have "parse_ipv4 ''127.0.0.1'' = Some [127, 0, 0, 1]"
    by code_simp
  then obtain code where "create_compact_invite_code ?p = Some code"
    by (simp add: create_compact_invite_code_def append_string_def Let_def)
  then show ?thesis using compact_code_roundtrip [of ?p code undefined] by blast
qed

end
