(* ===== verification/Protocol_Router.thy ===== *)
theory Protocol_Router
  imports Reliable_Json Udp_Packet
begin

text \<open>
  The router of gameplay messages, \<open>src/game/protocol_router.cpp\<close>: what each message type is, which
  messages policy drops, which wait for a loaded stage, and the bounded queue they wait in.  The
  game's side, the virtual class \<open>MessageConsumer\<close>, is a parameter over a state of its own.
\<close>

section \<open>Message types\<close>

datatype message_domain = Session | Membership | Presence | Chat | Progression | Visual | Interaction
  | Ganondorf | OptionalRandomizer | UnknownDomain

record message_spec =
  ms_domain :: message_domain
  ms_stageDependent :: bool
  ms_syncFlagsControlled :: bool

definition kEntries :: "(string \<times> message_domain \<times> bool \<times> bool) list" where
  "kEntries =
    [(''welcome'', Session, False, False), (''error'', Session, False, False),
     (''ping'', Session, False, False), (''pong'', Session, False, False),
     (''ack'', Session, False, False), (''udp_ready'', Session, False, False),
     (''peer_joined'', Membership, False, False), (''peer_left'', Membership, False, False),
     (''owner_changed'', Membership, False, False), (''room_settings'', Membership, False, False),
     (''name_labels'', Membership, False, False), (''dummy_model'', Membership, False, False),
     (''sync_flags'', Membership, False, False), (''sync_world'', Membership, False, False),
     (''remote_collision'', Membership, False, False), (''pvp_enabled'', Membership, False, False),
     (''voice_settings'', Membership, False, False),
     (''save_recovery_setting'', Membership, False, False), (''presence'', Presence, False, False),
     (''progression_state'', Presence, False, True), (''puppet_preference'', Presence, False, False),
     (''midna_preference'', Presence, False, False), (''chat'', Chat, False, False),
     (''sync_request'', Progression, False, False), (''save_snapshot'', Progression, True, True),
     (''event_bit'', Progression, False, True), (''tbox_bit'', Progression, True, True),
     (''switch_bit'', Progression, True, True), (''room_switch_bit'', Progression, True, True),
     (''web_timer'', Progression, True, True), (''room_actor_action'', Progression, False, True),
     (''floor_switch_state'', Progression, False, True), (''item_bit'', Progression, True, True),
     (''dungeon_item_bit'', Progression, True, True), (''item_get'', Progression, False, True),
     (''trade_item'', Progression, True, True), (''item_first_bit'', Progression, False, True),
     (''collect_crystal'', Progression, False, True), (''collect_mirror'', Progression, False, True),
     (''dark_clear_lv'', Progression, True, True), (''transform_lv'', Progression, False, True),
     (''region_bit'', Progression, False, True), (''collect'', Progression, False, True),
     (''visited_room'', Progression, True, True), (''letter_get'', Progression, False, True),
     (''ooccoo_state'', Progression, False, True), (''collect_smell'', Progression, False, True),
     (''key_num'', Progression, True, True), (''light_drop_num'', Progression, False, True),
     (''light_drop_get_flag'', Progression, False, True), (''max_life_update'', Progression, False, True),
     (''bottle_slots'', Progression, False, True), (''bomb_bag_slot'', Progression, False, True),
     (''rupee_count'', Progression, False, True), (''rupee_delta'', Progression, False, True),
     (''poe_count'', Progression, False, True), (''malo_fundraising'', Progression, False, True),
     (''charlo_offering'', Progression, False, True), (''fish_record'', Progression, False, True),
     (''rando_item_get'', OptionalRandomizer, False, True), (''pose'', Visual, False, False),
     (''midna_pose'', Visual, False, False), (''pvp_hit'', Interaction, False, False),
     (''ganondorf_owner_claim'', Ganondorf, False, True), (''ganondorf_owner'', Ganondorf, False, True),
     (''ganondorf_hit'', Ganondorf, False, True), (''ganondorf_reaction'', Ganondorf, False, True),
     (''ganondorf_player_damage'', Ganondorf, False, True), (''ganondorf_state'', Ganondorf, False, True)]"

definition classify :: "string \<Rightarrow> message_spec" where
  "classify type = (case map_of kEntries type of
     Some (d, stage, sync) \<Rightarrow> \<lparr>ms_domain = d, ms_stageDependent = stage, ms_syncFlagsControlled = sync\<rparr>
   | None \<Rightarrow> \<lparr>ms_domain = UnknownDomain, ms_stageDependent = False, ms_syncFlagsControlled = False\<rparr>)"

definition is_known_type :: "string \<Rightarrow> bool" where
  "is_known_type type \<longleftrightarrow> ms_domain (classify type) \<noteq> UnknownDomain"

section \<open>Events and messages\<close>

datatype net_mode = Disabled | DirectHost | DirectJoin | RelayMode | CloudRoom

record room_settings =
  se_dummyModel :: bool
  se_syncFlags :: bool
  se_saveRecovery :: bool
  se_syncWorld :: bool
  se_remoteCollision :: bool
  se_pvp :: bool
  se_voiceProximity :: bool
  se_voiceProximityRange :: int

record event_context =
  ec_epoch :: u64
  ec_mode :: net_mode
  ec_welcomed :: bool
  ec_semanticVisualsReady :: bool
  ec_snapshotDeltasReady :: bool
  ec_settings :: room_settings
  ec_clientId :: string

datatype event_kind = Connected | Disconnected | PeerJoined | PeerLeft | Message | UdpMessage
  | UdpRemoteObject | UdpVoice | UdpAck | ErrorEvent | RouteChanged | Diagnostic

record net_event =
  ev_kind :: event_kind
  ev_peerId :: string
  ev_detail :: string
  ev_message :: json
  ev_udpType :: u8
  ev_udpSequence :: u32
  ev_udpStressFlags :: u8
  ev_remoteObject :: remote_object
  ev_voice :: bytes
  ev_voicePosition :: voice_position
  ev_ingress :: event_context

record routed =
  rt_peerId :: string
  rt_payload :: json
  rt_spec :: message_spec
  rt_ingress :: event_context
  rt_receivedAt :: nat

datatype apply_result = Applied | Deferred | Retained | IgnoredByPolicy | Unsupported | Rejected

text \<open>
  The consumer: queries read its state, the other calls return the new one.  A call the router makes
  inside its \<open>try\<close> block may throw an exception of the JSON library.
\<close>

record 'g consumer =
  mc_stage_ready :: "'g \<Rightarrow> bool"
  mc_allow_stage_unready :: "routed \<Rightarrow> 'g \<Rightarrow> bool jres"
  mc_discard_stage_message :: "routed \<Rightarrow> 'g \<Rightarrow> bool jres"
  mc_retain_for_save_recovery :: "routed \<Rightarrow> 'g \<Rightarrow> bool jres \<times> 'g"
  mc_consume :: "routed \<Rightarrow> 'g \<Rightarrow> apply_result jres \<times> 'g"
  mc_consume_udp :: "net_event \<Rightarrow> 'g \<Rightarrow> apply_result jres \<times> 'g"
  mc_peer_joined :: "string \<Rightarrow> string \<Rightarrow> 'g \<Rightarrow> 'g"
  mc_peer_left :: "string \<Rightarrow> 'g \<Rightarrow> 'g"

section \<open>The router\<close>

record router_stats =
  rs_applied :: u64
  rs_deferred :: u64
  rs_ignored :: u64
  rs_unsupported :: u64
  rs_rejected :: u64
  rs_pendingMessages :: nat
  rs_pendingBytes :: nat

record router =
  rr_pending :: "(routed \<times> nat) list"
  rr_stats :: router_stats
  rr_pendingBytes :: nat
  rr_lastError :: string
  rr_fatalError :: bool

definition kMaxPendingMessages :: nat where "kMaxPendingMessages = 512"
definition kMaxPendingBytes :: nat where "kMaxPendingBytes = 2 * 1024 * 1024"

definition no_stats :: router_stats where
  "no_stats = \<lparr>rs_applied = 0, rs_deferred = 0, rs_ignored = 0, rs_unsupported = 0, rs_rejected = 0,
     rs_pendingMessages = 0, rs_pendingBytes = 0\<rparr>"

definition new_router :: router where
  "new_router = \<lparr>rr_pending = [], rr_stats = no_stats, rr_pendingBytes = 0, rr_lastError = [], rr_fatalError = False\<rparr>"

fun count_result :: "apply_result \<Rightarrow> router_stats \<Rightarrow> router_stats" where
  "count_result Applied s = s\<lparr>rs_applied := rs_applied s + 1\<rparr>"
| "count_result Deferred s = s\<lparr>rs_deferred := rs_deferred s + 1\<rparr>"
| "count_result Retained s = s\<lparr>rs_deferred := rs_deferred s + 1\<rparr>"
| "count_result IgnoredByPolicy s = s\<lparr>rs_ignored := rs_ignored s + 1\<rparr>"
| "count_result Unsupported s = s\<lparr>rs_unsupported := rs_unsupported s + 1\<rparr>"
| "count_result Rejected s = s\<lparr>rs_rejected := rs_rejected s + 1\<rparr>"

definition note_result :: "apply_result \<Rightarrow> router \<Rightarrow> router" where
  "note_result result r = r\<lparr>rr_stats := count_result result (rr_stats r)\<rparr>"

definition fail_with :: "string \<Rightarrow> router \<Rightarrow> apply_result \<times> router" where
  "fail_with text r = (Rejected, note_result Rejected (r\<lparr>rr_lastError := text\<rparr>))"

definition enqueue :: "text_codec \<Rightarrow> routed \<Rightarrow> router \<Rightarrow> apply_result \<times> router" where
  "enqueue tc message r =
     (case tc_dump tc (rt_payload message) of
        Inl _ \<Rightarrow> fail_with ''rejected gameplay message that could not be retained'' r
      | Inr text \<Rightarrow>
          let encodedBytes = length (rt_peerId message) + length text in
          if length (rr_pending r) \<ge> kMaxPendingMessages \<or> encodedBytes > kMaxPendingBytes \<or>
             rr_pendingBytes r > kMaxPendingBytes - encodedBytes
          then fail_with ''gameplay deferral queue limit reached'' (r\<lparr>rr_fatalError := True\<rparr>)
          else (Deferred, note_result Deferred
                 (r\<lparr>rr_pendingBytes := rr_pendingBytes r + encodedBytes, rr_pending := rr_pending r @ [(message, encodedBytes)]\<rparr>)))"

definition recorded :: "apply_result \<Rightarrow> router \<Rightarrow> 'g \<Rightarrow> apply_result \<times> router \<times> 'g" where
  "recorded result r g = (result, note_result result r, g)"

definition caught :: "string \<Rightarrow> router \<Rightarrow> 'g \<Rightarrow> apply_result \<times> router \<times> 'g" where
  "caught text r g = (case fail_with text r of (result, r') \<Rightarrow> (result, r', g))"

definition queued :: "text_codec \<Rightarrow> routed \<Rightarrow> router \<Rightarrow> 'g \<Rightarrow> apply_result \<times> router \<times> 'g" where
  "queued tc message r g = (case enqueue tc message r of (result, r') \<Rightarrow> (result, r', g))"

definition malformed :: string where "malformed = ''rejected malformed gameplay message''"

text \<open>The last part of \<open>route_message\<close>: the message is offered to the game.\<close>

definition deliver :: "'g consumer \<Rightarrow> text_codec \<Rightarrow> routed \<Rightarrow> bool \<Rightarrow> router \<Rightarrow> 'g \<Rightarrow> apply_result \<times> router \<times> 'g" where
  "deliver mc tc message allowQueue r g =
     (case mc_consume mc message g of
        (Inl _, g') \<Rightarrow> caught malformed r g'
      | (Inr result, g') \<Rightarrow>
          if result = Deferred \<and> allowQueue then queued tc message r g' else recorded result r g')"

text \<open>The part that looks at the stage.\<close>

definition at_stage :: "'g consumer \<Rightarrow> text_codec \<Rightarrow> routed \<Rightarrow> bool \<Rightarrow> router \<Rightarrow> 'g \<Rightarrow> apply_result \<times> router \<times> 'g" where
  "at_stage mc tc message allowQueue r g =
     (if \<not> ms_stageDependent (rt_spec message) then deliver mc tc message allowQueue r g
      else case mc_discard_stage_message mc message g of
        Inl _ \<Rightarrow> caught malformed r g
      | Inr True \<Rightarrow> recorded IgnoredByPolicy r g
      | Inr False \<Rightarrow>
          (if mc_stage_ready mc g then deliver mc tc message allowQueue r g
           else case mc_allow_stage_unready mc message g of
             Inl _ \<Rightarrow> caught malformed r g
           | Inr True \<Rightarrow> deliver mc tc message allowQueue r g
           | Inr False \<Rightarrow> if \<not> allowQueue then (Deferred, r, g) else queued tc message r g))"

definition route_message :: "'g consumer \<Rightarrow> text_codec \<Rightarrow> routed \<Rightarrow> bool \<Rightarrow> bool \<Rightarrow> router \<Rightarrow> 'g \<Rightarrow> apply_result \<times> router \<times> 'g" where
  "route_message mc tc message syncFlagsEnabled allowQueue r g =
     (if ms_domain (rt_spec message) = UnknownDomain then
        (case value_string ''type'' [] (rt_payload message) of
           Inl _ \<Rightarrow> caught malformed r g
         | Inr type \<Rightarrow> recorded Unsupported (r\<lparr>rr_lastError := ''unsupported protocol message type: '' @ type\<rparr>) g)
      else if ms_syncFlagsControlled (rt_spec message) \<and> \<not> syncFlagsEnabled then recorded IgnoredByPolicy r g
      else if ms_domain (rt_spec message) = Progression then
        (case mc_retain_for_save_recovery mc message g of
           (Inl _, g') \<Rightarrow> caught malformed r g'
         | (Inr True, g') \<Rightarrow> recorded Retained r g'
         | (Inr False, g') \<Rightarrow> at_stage mc tc message allowQueue r g')
      else at_stage mc tc message allowQueue r g)"

definition route_reliable :: "'g consumer \<Rightarrow> text_codec \<Rightarrow> nat \<Rightarrow> net_event \<Rightarrow> router \<Rightarrow> 'g \<Rightarrow> apply_result \<times> router \<times> 'g" where
  "route_reliable mc tc now event r g =
     (if \<not> is_object (ev_message event) then caught ''rejected non-object gameplay message'' r g
      else case j_find ''type'' (ev_message event) of
        Some (JStr (c # type)) \<Rightarrow>
          route_message mc tc \<lparr>rt_peerId = ev_peerId event, rt_payload = ev_message event, rt_spec = classify (c # type),
              rt_ingress = ev_ingress event, rt_receivedAt = now\<rparr>
            (se_syncFlags (ec_settings (ev_ingress event))) True r g
      | _ \<Rightarrow> caught ''rejected gameplay message without a string type'' r g)"

definition route :: "'g consumer \<Rightarrow> text_codec \<Rightarrow> nat \<Rightarrow> net_event \<Rightarrow> router \<Rightarrow> 'g \<Rightarrow> apply_result \<times> router \<times> 'g" where
  "route mc tc now event r g =
     (case ev_kind event of
        PeerJoined \<Rightarrow> recorded Applied r (mc_peer_joined mc (ev_peerId event) (ev_detail event) g)
      | PeerLeft \<Rightarrow> recorded Applied r (mc_peer_left mc (ev_peerId event) g)
      | Message \<Rightarrow> route_reliable mc tc now event r g
      | kind \<Rightarrow>
          if kind = UdpMessage \<or> kind = UdpRemoteObject \<or> kind = UdpAck then
            (case mc_consume_udp mc event g of
               (Inl _, g') \<Rightarrow> caught ''rejected malformed UDP gameplay message'' r g'
             | (Inr result, g') \<Rightarrow> recorded result r g')
          else (IgnoredByPolicy, r, g))"

fun flush_loop :: "'g consumer \<Rightarrow> text_codec \<Rightarrow> bool \<Rightarrow> nat \<Rightarrow> router \<Rightarrow> 'g \<Rightarrow> router \<times> 'g" where
  "flush_loop mc tc sync 0 r g = (r, g)"
| "flush_loop mc tc sync (Suc n) r g =
     (case rr_pending r of
        [] \<Rightarrow> (r, g)
      | (message, encodedBytes) # rest \<Rightarrow>
          (case route_message mc tc message sync False
                  (r\<lparr>rr_pending := rest, rr_pendingBytes := size_sub (rr_pendingBytes r) encodedBytes\<rparr>) g of
             (result, r', g') \<Rightarrow>
               flush_loop mc tc sync n
                 (if result = Deferred
                  then r'\<lparr>rr_pendingBytes := rr_pendingBytes r' + encodedBytes,
                          rr_pending := rr_pending r' @ [(message, encodedBytes)]\<rparr>
                  else r') g'))"

definition note_pending :: "router \<Rightarrow> router" where
  "note_pending r = r\<lparr>rr_stats := (rr_stats r)\<lparr>rs_pendingMessages := length (rr_pending r),
     rs_pendingBytes := rr_pendingBytes r\<rparr>\<rparr>"

definition flush :: "'g consumer \<Rightarrow> text_codec \<Rightarrow> bool \<Rightarrow> router \<Rightarrow> 'g \<Rightarrow> router \<times> 'g" where
  "flush mc tc sync r g =
     (if rr_pending r = [] then (r, g)
      else case flush_loop mc tc sync (length (rr_pending r)) r g of (r', g') \<Rightarrow> (note_pending r', g'))"

definition router_clear :: "router \<Rightarrow> router" where
  "router_clear r = r\<lparr>rr_pending := [], rr_pendingBytes := 0,
     rr_stats := (rr_stats r)\<lparr>rs_pendingMessages := 0, rs_pendingBytes := 0\<rparr>,
     rr_lastError := [], rr_fatalError := False\<rparr>"

definition router_stats_of :: "router \<Rightarrow> router_stats" where
  "router_stats_of r = (rr_stats r)\<lparr>rs_pendingMessages := length (rr_pending r), rs_pendingBytes := rr_pendingBytes r\<rparr>"

end
