(* ===== verification/Router_Queue.thy ===== *)
theory Router_Queue
  imports Protocol_Router
begin

text \<open>
  The waiting queue of the router: it stays within its limits whatever the game answers, a message
  that is reported as deferred is in it, and a flush offers every waiting message once, in order.
\<close>

section \<open>What one message does to the queue\<close>

definition router_ok :: "router \<Rightarrow> bool" where
  "router_ok r \<longleftrightarrow> length (rr_pending r) \<le> kMaxPendingMessages \<and> rr_pendingBytes r \<le> kMaxPendingBytes \<and>
     rr_pendingBytes r = sum_list (map snd (rr_pending r))"

definition same_queue :: "router \<Rightarrow> router \<Rightarrow> bool" where
  "same_queue r r' \<longleftrightarrow> rr_pending r' = rr_pending r \<and> rr_pendingBytes r' = rr_pendingBytes r"

text \<open>The message was put at the end of the queue, within the limits.\<close>

definition put_last :: "text_codec \<Rightarrow> routed \<Rightarrow> router \<Rightarrow> router \<Rightarrow> bool" where
  "put_last tc m r r' \<longleftrightarrow> (\<exists>text. tc_dump tc (rt_payload m) = Inr text \<and>
     (let n = length (rt_peerId m) + length text in
      length (rr_pending r) < kMaxPendingMessages \<and> n \<le> kMaxPendingBytes \<and> rr_pendingBytes r \<le> kMaxPendingBytes - n \<and>
      rr_pending r' = rr_pending r @ [(m, n)] \<and> rr_pendingBytes r' = rr_pendingBytes r + n))"

text \<open>A handled message: the queue is as before, or the message was deferred and is now its last.\<close>

definition handled :: "text_codec \<Rightarrow> routed \<Rightarrow> bool \<Rightarrow> router \<Rightarrow> apply_result \<times> router \<times> 'g \<Rightarrow> bool" where
  "handled tc m allowQueue r out \<longleftrightarrow> (case out of (result, r', g') \<Rightarrow>
     (if allowQueue \<and> result = Deferred then put_last tc m r r' else same_queue r r'))"

named_theorems handled_intros \<open>the ways a message is handled\<close>

lemma note_result_queue [simp]:
  "rr_pending (note_result result r) = rr_pending r" "rr_pendingBytes (note_result result r) = rr_pendingBytes r"
  by (simp_all add: note_result_def)

lemma note_pending_queue [simp]:
  "rr_pending (note_pending r) = rr_pending r" "rr_pendingBytes (note_pending r) = rr_pendingBytes r"
  by (simp_all add: note_pending_def)

lemma handled_recorded [handled_intros]:
  "rr_pending r' = rr_pending r \<Longrightarrow> rr_pendingBytes r' = rr_pendingBytes r \<Longrightarrow>
   \<not> (allowQueue \<and> result = Deferred) \<Longrightarrow> handled tc m allowQueue r (recorded result r' g)"
  by (auto simp: handled_def recorded_def same_queue_def)

lemma handled_caught [handled_intros]: "handled tc m allowQueue r (caught text r g)"
  by (simp add: handled_def caught_def fail_with_def same_queue_def)

lemma handled_queued [handled_intros]: "handled tc m True r (queued tc m r g)"
  by (cases "tc_dump tc (rt_payload m)")
     (auto simp: handled_def queued_def enqueue_def fail_with_def same_queue_def put_last_def Let_def)

lemma handled_deliver [handled_intros]: "handled tc m allowQueue r (deliver mc tc m allowQueue r g)"
  by (auto simp: deliver_def intro!: handled_intros split: prod.splits sum.splits)

lemma handled_at_stage [handled_intros]: "handled tc m allowQueue r (at_stage mc tc m allowQueue r g)"
proof -
  have "handled tc m False r (Deferred, r, g)" by (simp add: handled_def same_queue_def)
  then show ?thesis
    by (auto simp: at_stage_def intro!: handled_intros split: sum.splits bool.splits)
qed

lemma handled_route_message: "handled tc m allowQueue r (route_message mc tc m sync allowQueue r g)"
  by (auto simp: route_message_def intro!: handled_intros split: prod.splits sum.splits bool.splits)

section \<open>A message offered again\<close>

text \<open>
  Without the queue the outcome of a message and the state of the game after it do not depend on the
  router.
\<close>

definition verdict :: "'g consumer \<Rightarrow> text_codec \<Rightarrow> bool \<Rightarrow> routed \<Rightarrow> 'g \<Rightarrow> apply_result \<times> 'g" where
  "verdict mc tc sync m g = (case route_message mc tc m sync False new_router g of (result, r', g') \<Rightarrow> (result, g'))"

fun verdicts :: "'g consumer \<Rightarrow> text_codec \<Rightarrow> bool \<Rightarrow> routed list \<Rightarrow> 'g \<Rightarrow> apply_result list \<times> 'g" where
  "verdicts mc tc sync [] g = ([], g)"
| "verdicts mc tc sync (m # ms) g =
     (case verdict mc tc sync m g of (result, g') \<Rightarrow>
      case verdicts mc tc sync ms g' of (results, g'') \<Rightarrow> (result # results, g''))"

lemma length_verdicts: "length (fst (verdicts mc tc sync ms g)) = length ms"
  by (induction ms arbitrary: g) (auto split: prod.splits, metis fst_conv)

definition outcome :: "apply_result \<times> router \<times> 'g \<Rightarrow> apply_result \<times> 'g" where
  "outcome out = (fst out, snd (snd out))"

lemma outcome_simps [simp]:
  "outcome (recorded result r g) = (result, g)" "outcome (caught text r g) = (Rejected, g)" "outcome (result, r, g) = (result, g)"
  by (simp_all add: outcome_def recorded_def caught_def fail_with_def)

lemma outcome_deliver: "outcome (deliver mc tc m False r g) = outcome (deliver mc tc m False r' g)"
  by (auto simp: deliver_def split: prod.splits sum.splits)

lemma outcome_at_stage: "outcome (at_stage mc tc m False r g) = outcome (at_stage mc tc m False r' g)"
  using outcome_deliver [of mc tc m r g r']
  by (auto simp: at_stage_def split: sum.splits bool.splits)

lemma outcome_verdict: "outcome (route_message mc tc m sync False r g) = verdict mc tc sync m g"
proof -
  have "outcome (route_message mc tc m sync False r g) = outcome (route_message mc tc m sync False r' g)" for r'
    using outcome_at_stage [of mc tc m r _ r']
    by (auto simp: route_message_def split: prod.splits sum.splits bool.splits)
  then have "outcome (route_message mc tc m sync False r g) = outcome (route_message mc tc m sync False new_router g)" .
  then show ?thesis by (auto simp: verdict_def outcome_def split: prod.splits)
qed

lemma offered_again:
  assumes "route_message mc tc m sync False r g = (result, r', g')"
  shows "verdict mc tc sync m g = (result, g')" "rr_pending r' = rr_pending r" "rr_pendingBytes r' = rr_pendingBytes r"
  using outcome_verdict [of mc tc m sync r g] handled_route_message [of tc m False r mc sync g] assms
  by (auto simp: handled_def same_queue_def)

section \<open>A flush\<close>

definition kept :: "(routed \<times> nat) list \<Rightarrow> apply_result list \<Rightarrow> (routed \<times> nat) list" where
  "kept ps results = map fst (filter (\<lambda>p. snd p = Deferred) (zip ps results))"

lemma kept_simps [simp]:
  "kept [] results = []"
  "kept (p # ps) (result # results) = (if result = Deferred then p # kept ps results else kept ps results)"
  by (simp_all add: kept_def)

lemma kept_sum: "sum_list (map snd (kept ps results)) \<le> sum_list (map snd ps)"
proof (induction ps arbitrary: results)
  case (Cons p ps)
  show ?case
  proof (cases results)
    case (Cons result rest)
    then show ?thesis using Cons.IH [of rest] by (simp add: trans_le_add2)
  qed (simp add: kept_def)
qed (simp add: kept_def)

lemma kept_length: "length (kept ps results) \<le> length ps"
  unfolding kept_def using length_filter_le [of "\<lambda>p. snd p = Deferred" "zip ps results"] by simp

lemma flush_loop_spec:
  assumes "rr_pending r = todo @ again" and "rr_pendingBytes r = sum_list (map snd (rr_pending r))"
    and "verdicts mc tc sync (map fst todo) g = (results, g')"
    and "flush_loop mc tc sync (length todo) r g = (r', g'')"
  shows "rr_pending r' = again @ kept todo results \<and> g'' = g' \<and> rr_pendingBytes r' = sum_list (map snd (rr_pending r'))"
  using assms
proof (induction todo arbitrary: again r g results)
  case Nil
  then show ?case by (auto simp: kept_def)
next
  case (Cons p todo)
  obtain m n where p: "p = (m, n)" by fastforce
  let ?r = "r\<lparr>rr_pending := todo @ again, rr_pendingBytes := size_sub (rr_pendingBytes r) n\<rparr>"
  obtain result r1 g1 where one: "route_message mc tc m sync False ?r g = (result, r1, g1)" by (metis prod_cases3)
  note once = offered_again [OF one]
  obtain rest where v: "verdicts mc tc sync (map fst todo) g1 = (rest, g')" "results = result # rest"
    using Cons.prems(3) by (auto simp: p once(1) split: prod.splits)
  have bytes: "rr_pendingBytes r1 = sum_list (map snd (todo @ again))"
    using once(3) Cons.prems(1,2) by (simp add: p)
  show ?case
  proof (cases "result = Deferred")
    case True
    let ?again = "r1\<lparr>rr_pendingBytes := rr_pendingBytes r1 + n, rr_pending := rr_pending r1 @ [(m, n)]\<rparr>"
    have "flush_loop mc tc sync (length todo) ?again g1 = (r', g'')"
      using Cons.prems(1,4) one by (simp add: p True)
    from Cons.IH [OF _ _ v(1) this, of "again @ [(m, n)]"] show ?thesis
      using once(2) bytes by (simp add: p v(2) True)
  next
    case False
    have "flush_loop mc tc sync (length todo) r1 g1 = (r', g'')"
      using Cons.prems(1,4) one False by (simp add: p)
    from Cons.IH [OF _ _ v(1) this, of again] show ?thesis
      using once(2) bytes by (simp add: v(2) False)
  qed
qed

lemma flush_spec:
  assumes "rr_pendingBytes r = sum_list (map snd (rr_pending r))"
  shows "rr_pending (fst (flush mc tc sync r g)) =
      kept (rr_pending r) (fst (verdicts mc tc sync (map fst (rr_pending r)) g)) \<and>
    snd (flush mc tc sync r g) = snd (verdicts mc tc sync (map fst (rr_pending r)) g) \<and>
    rr_pendingBytes (fst (flush mc tc sync r g)) = sum_list (map snd (rr_pending (fst (flush mc tc sync r g))))"
proof -
  obtain results g' where v: "verdicts mc tc sync (map fst (rr_pending r)) g = (results, g')" by fastforce
  obtain r1 g1 where l: "flush_loop mc tc sync (length (rr_pending r)) r g = (r1, g1)" by fastforce
  have spec: "rr_pending r1 = kept (rr_pending r) results \<and> g1 = g' \<and> rr_pendingBytes r1 = sum_list (map snd (rr_pending r1))"
    using flush_loop_spec [of r "rr_pending r" "[]", OF _ assms v l] by simp
  show ?thesis
  proof (cases "rr_pending r = []")
    case True
    then show ?thesis using assms by (simp add: flush_def)
  next
    case False
    then have "flush mc tc sync r g = (note_pending r1, g1)" by (simp add: flush_def l)
    with spec v show ?thesis by simp
  qed
qed

section \<open>Histories\<close>

datatype router_event = Arrives nat net_event | FlushAll bool | ClearAll

fun router_step :: "'g consumer \<Rightarrow> text_codec \<Rightarrow> router_event \<Rightarrow> router \<times> 'g \<Rightarrow> router \<times> 'g" where
  "router_step mc tc (Arrives now event) (r, g) = snd (route mc tc now event r g)"
| "router_step mc tc (FlushAll sync) (r, g) = flush mc tc sync r g"
| "router_step mc tc ClearAll (r, g) = (router_clear r, g)"

lemma same_queue_ok: "same_queue r r' \<Longrightarrow> router_ok r \<Longrightarrow> router_ok r'"
  by (simp add: same_queue_def router_ok_def)

lemma put_last_ok: "put_last tc m r r' \<Longrightarrow> router_ok r \<Longrightarrow> router_ok r'"
  by (auto simp: put_last_def router_ok_def Let_def)

lemma handled_ok: "handled tc m allowQueue r out \<Longrightarrow> router_ok r \<Longrightarrow> router_ok (fst (snd out))"
  by (cases out) (auto simp: handled_def intro: same_queue_ok put_last_ok split: if_splits)

lemma plain_ok:
  assumes "router_ok r"
  shows "router_ok (fst (snd (recorded result r g)))" "router_ok (fst (snd (caught text r g)))"
  using assms by (simp_all add: recorded_def caught_def fail_with_def router_ok_def)

lemma route_message_ok: "router_ok r \<Longrightarrow> router_ok (fst (snd (route_message mc tc m sync allowQueue r g)))"
  by (rule handled_ok [OF handled_route_message])

lemma route_reliable_ok:
  assumes "router_ok r"
  shows "router_ok (fst (snd (route_reliable mc tc now event r g)))"
proof (cases "\<exists>c type. j_find ''type'' (ev_message event) = Some (JStr (c # type))")
  case True
  then show ?thesis by (auto simp: route_reliable_def plain_ok route_message_ok assms)
next
  case False
  then have "\<exists>text. route_reliable mc tc now event r g = caught text r g"
    by (auto simp: route_reliable_def split: option.splits json.splits list.splits)
  then show ?thesis using plain_ok(2) assms by metis
qed

lemma route_ok:
  assumes "router_ok r"
  shows "router_ok (fst (snd (route mc tc now event r g)))"
proof -
  have udp: "router_ok (fst (snd (case out of (Inl e, g') \<Rightarrow> caught t r g' | (Inr result, g') \<Rightarrow> recorded result r g')))"
    for out :: "(json_error + apply_result) \<times> 'a" and t
    by (cases out; cases "fst out") (auto simp: plain_ok assms)
  show ?thesis
    by (cases "ev_kind event") (simp_all add: route_def plain_ok route_reliable_ok udp assms)
qed

lemma flush_ok: "router_ok r \<Longrightarrow> router_ok (fst (flush mc tc sync r g))"
  using flush_spec [of r mc tc sync g] kept_length kept_sum
  unfolding router_ok_def by (metis (no_types, lifting) order_trans)

lemma clear_ok: "router_ok (router_clear r)"
  by (simp add: router_ok_def router_clear_def)

lemma router_step_ok: "router_ok (fst s) \<Longrightarrow> router_ok (fst (router_step mc tc e s))"
  by (cases s; cases e) (auto simp: route_ok flush_ok clear_ok)

interpretation routing: invariant_machine "router_step mc tc" "\<lambda>s. router_ok (fst s)" "(new_router, g)"
  for mc :: "'g consumer" and tc and g :: 'g
proof unfold_locales
  show "router_ok (fst (new_router, g))" by (simp add: router_ok_def new_router_def)
qed (rule router_step_ok)

text \<open>
  C21: whatever arrives and whatever the game answers, at most 512 messages of together at most 2 MiB
  wait, and the byte count of the router is exactly theirs.
\<close>

theorem router_stays_bounded:
  "let r = fst (fold (router_step mc tc) es (new_router, g)) in
   length (rr_pending r) \<le> 512 \<and> rr_pendingBytes r \<le> 2097152 \<and>
   rr_pendingBytes r = sum_list (map snd (rr_pending r))"
  using routing.reachable_inv [of mc tc es g]
  by (simp add: router_ok_def kMaxPendingMessages_def kMaxPendingBytes_def Let_def)

text \<open>
  C22: in any history a flush offers every waiting message to the game exactly once, in the order they
  came in, and afterwards exactly those the game deferred again are waiting, in that order.
\<close>

theorem flush_refines_filter:
  "let s = fold (router_step mc tc) es (new_router, g); r = fst s; out = flush mc tc sync r (snd s);
       answers = verdicts mc tc sync (map fst (rr_pending r)) (snd s)
   in length (fst answers) = length (rr_pending r) \<and> snd out = snd answers \<and>
      rr_pending (fst out) = map fst (filter (\<lambda>p. snd p = Deferred) (zip (rr_pending r) (fst answers)))"
proof -
  define s where "s = fold (router_step mc tc) es (new_router, g)"
  have "router_ok (fst s)" unfolding s_def by (rule routing.reachable_inv)
  then have "rr_pendingBytes (fst s) = sum_list (map snd (rr_pending (fst s)))" by (simp add: router_ok_def)
  from flush_spec [OF this, of mc tc sync "snd s"] length_verdicts [of mc tc sync] show ?thesis
    by (simp add: kept_def Let_def flip: s_def)
qed

end
