(* ===== verification/Chat_Input.thy ===== *)
theory Chat_Input
  imports Json_Value
begin

text \<open>
  Chat text, \<open>include/dusklight_online/game/chat.hpp\<close>: wrapping of the text being typed, its reflow after
  an edit, and the check a message passes before it is sent or shown.  Text is its UTF-8 bytes.
\<close>

section \<open>Limits and code points\<close>

definition kMaxChatLineCodepoints :: nat where "kMaxChatLineCodepoints = 50"
definition kMaxChatLines :: nat where "kMaxChatLines = 4"
definition kMaxChatTextBytes :: nat where
  "kMaxChatTextBytes = kMaxChatLineCodepoints * kMaxChatLines * 4 + (kMaxChatLines - 1)"

definition chat_utf8_codepoint_bytes :: "u8 \<Rightarrow> nat" where
  "chat_utf8_codepoint_bytes b =
     (if b < 0x80 then 1 else if 0xC2 \<le> b \<and> b \<le> 0xDF then 2 else if 0xE0 \<le> b \<and> b \<le> 0xEF then 3
      else if 0xF0 \<le> b \<and> b \<le> 0xF4 then 4 else 1)"

abbreviation lf :: u8 where "lf \<equiv> 10"
abbreviation cr :: u8 where "cr \<equiv> 13"
abbreviation sp :: u8 where "sp \<equiv> 32"

section \<open>Wrapping\<close>

record wrapped_input =
  wi_text :: bytes
  wi_cursorByte :: nat
  wi_autoBreaks :: "(nat \<times> bytes) list"

text \<open>The width of a candidate line; the font may be missing.\<close>

record chat_font =
  cf_maxLineWidth :: fl
  cf_measureWidth :: "(bytes \<Rightarrow> fl) option"

record wrap_state =
  ws_wrapped :: wrapped_input
  ws_index :: nat
  ws_line :: nat
  ws_column :: nat
  ws_lineStart :: nat

definition exceeds_width :: "chat_font \<Rightarrow> wrap_state \<Rightarrow> bytes \<Rightarrow> bool" where
  "exceeds_width f s addition =
     (case cf_measureWidth f of
        None \<Rightarrow> False
      | Some width \<Rightarrow>
          fl_lt (Fin 0) (cf_maxLineWidth f) \<and>
          fl_lt (cf_maxLineWidth f) (width (drop (ws_lineStart s) (wi_text (ws_wrapped s)) @ addition)))"

text \<open>Bytes and code points up to the next space or line break.\<close>

function word_scan :: "bytes \<Rightarrow> nat \<times> nat" where
  "word_scan [] = (0, 0)"
| "word_scan (b # bs) =
     (if b = sp \<or> b = cr \<or> b = lf then (0, 0)
      else let n = min (chat_utf8_codepoint_bytes b) (Suc (length bs)) in
        case word_scan (drop (n - 1) bs) of (count, codepoints) \<Rightarrow> (n + count, Suc codepoints))"
  by pat_completeness auto
termination
  by (relation "measure length") auto

datatype 'a loop = Break 'a | Continue 'a

definition text_size :: "wrap_state \<Rightarrow> nat" where
  "text_size s = length (wi_text (ws_wrapped s))"

text \<open>Moving the cursor along, appending bytes, and starting a new line.\<close>

definition cursor_here :: "bool \<Rightarrow> wrap_state \<Rightarrow> wrap_state" where
  "cursor_here here s = (if here then s\<lparr>ws_wrapped := (ws_wrapped s)\<lparr>wi_cursorByte := text_size s\<rparr>\<rparr> else s)"

definition put_bytes :: "bytes \<Rightarrow> wrap_state \<Rightarrow> wrap_state" where
  "put_bytes bs s = s\<lparr>ws_wrapped := (ws_wrapped s)\<lparr>wi_text := wi_text (ws_wrapped s) @ bs\<rparr>\<rparr>"

definition new_line :: "wrap_state \<Rightarrow> wrap_state" where
  "new_line s = (let s' = put_bytes [lf] s in
     s'\<lparr>ws_line := ws_line s + 1, ws_column := 0, ws_lineStart := text_size s'\<rparr>)"

definition note_break :: "bytes \<Rightarrow> wrap_state \<Rightarrow> wrap_state" where
  "note_break separator s =
     s\<lparr>ws_wrapped := (ws_wrapped s)\<lparr>wi_autoBreaks := wi_autoBreaks (ws_wrapped s) @ [(text_size s - 1, separator)]\<rparr>\<rparr>"

definition entered_break :: "bytes \<Rightarrow> nat \<Rightarrow> wrap_state \<Rightarrow> wrap_state loop" where
  "entered_break input cursorByte s =
     (let consumed = (if input ! ws_index s = cr \<and> ws_index s + 1 < length input \<and> input ! (ws_index s + 1) = lf then 2 else 1);
          s1 = s\<lparr>ws_index := ws_index s + consumed\<rparr>
      in if ws_line s1 + 1 \<ge> kMaxChatLines then Break s1
         else Continue (cursor_here (ws_index s1 \<le> cursorByte) (new_line s1)))"

text \<open>A run of spaces and the word after it; nothing when they still fit the line.\<close>

definition at_space :: "chat_font \<Rightarrow> bytes \<Rightarrow> nat \<Rightarrow> wrap_state \<Rightarrow> wrap_state loop option" where
  "at_space f input cursorByte s =
     (let rest = drop (ws_index s) input;
          spaces = length (takeWhile (\<lambda>b. b = sp) rest);
          spaceEnd = ws_index s + spaces;
          (count, wordCodepoints) = word_scan (drop spaces rest);
          passed = (cursorByte > ws_index s \<and> cursorByte \<le> spaceEnd)
      in if wordCodepoints = 0 \<and> spaceEnd < length input then
           Some (Continue (cursor_here passed (s\<lparr>ws_index := spaceEnd\<rparr>)))
         else if ws_column s > 0 \<and> (ws_column s + spaces + wordCodepoints > kMaxChatLineCodepoints \<or>
                exceeds_width f s (take (spaces + count) rest)) then
           (if ws_line s + 1 \<ge> kMaxChatLines then Some (Break s)
            else Some (Continue (cursor_here passed (note_break (take spaces rest) (new_line s)\<lparr>ws_index := spaceEnd\<rparr>))))
         else None)"

definition one_codepoint :: "chat_font \<Rightarrow> bytes \<Rightarrow> nat \<Rightarrow> wrap_state \<Rightarrow> wrap_state loop" where
  "one_codepoint f input cursorByte s =
     (let n = min (chat_utf8_codepoint_bytes (input ! ws_index s)) (length input - ws_index s);
          chunk = take n (drop (ws_index s) input);
          full = (ws_column s = kMaxChatLineCodepoints \<or> ws_column s > 0 \<and> exceeds_width f s chunk)
      in if full \<and> ws_line s + 1 \<ge> kMaxChatLines then Break s
         else
           let s1 = (if full then cursor_here (ws_index s = cursorByte) (note_break [] (new_line s)) else s)
           in if text_size s1 + n > kMaxChatTextBytes then Break s1
              else let s2 = (put_bytes chunk s1)\<lparr>ws_index := ws_index s1 + n, ws_column := ws_column s1 + 1\<rparr>
                in Continue (cursor_here (ws_index s2 \<le> cursorByte) s2))"

definition wrap_step :: "chat_font \<Rightarrow> bytes \<Rightarrow> nat \<Rightarrow> wrap_state \<Rightarrow> wrap_state loop" where
  "wrap_step f input cursorByte s0 =
     (let s = cursor_here (ws_index s0 = cursorByte) s0; c = input ! ws_index s in
      if c = cr \<or> c = lf then entered_break input cursorByte s
      else if c = sp then
        (case at_space f input cursorByte s of Some out \<Rightarrow> out | None \<Rightarrow> one_codepoint f input cursorByte s)
      else one_codepoint f input cursorByte s)"

text \<open>Every step that goes on has read something, so the loop ends.\<close>

lemma cursor_here_index [simp]: "ws_index (cursor_here here s) = ws_index s"
  by (simp add: cursor_here_def)

lemma new_line_index [simp]: "ws_index (new_line s) = ws_index s" "ws_index (note_break bs s) = ws_index s"
  "ws_index (put_bytes bs s) = ws_index s"
  by (simp_all add: new_line_def note_break_def put_bytes_def Let_def)

lemma codepoint_bytes_pos: "0 < chat_utf8_codepoint_bytes b"
  by (simp add: chat_utf8_codepoint_bytes_def)

lemma wrap_step_reads:
  assumes "wrap_step f input cursorByte s = Continue s'" and "ws_index s < length input"
  shows "ws_index s < ws_index s'"
proof -
  let ?s = "cursor_here (ws_index s = cursorByte) s"
  have one: "ws_index t < ws_index t'" if "one_codepoint f input cursorByte t = Continue t'" "ws_index t < length input" for t t'
    using that codepoint_bytes_pos [of "input ! ws_index t"] by (auto simp: one_codepoint_def Let_def split: if_splits)
  have brk: "ws_index t < ws_index t'" if "entered_break input cursorByte t = Continue t'" for t t'
    using that by (auto simp: entered_break_def Let_def split: if_splits)
  have space: "ws_index t < ws_index t'"
    if "at_space f input cursorByte t = Some (Continue t')" "ws_index t < length input" "input ! ws_index t = sp" for t t'
  proof -
    have "drop (ws_index t) input = sp # drop (Suc (ws_index t)) input"
      using that(2,3) by (metis Cons_nth_drop_Suc)
    then show ?thesis using that(1) by (auto simp: at_space_def Let_def split: if_splits prod.splits)
  qed
  show ?thesis
    using assms one [of ?s s'] brk [of ?s s'] space [of ?s s'] unfolding wrap_step_def Let_def
    by (auto split: if_splits option.splits)
qed

function wrap_loop :: "chat_font \<Rightarrow> bytes \<Rightarrow> nat \<Rightarrow> wrap_state \<Rightarrow> wrap_state" where
  "wrap_loop f input cursorByte s =
     (if ws_index s < length input \<and> ws_line s < kMaxChatLines then
        (case wrap_step f input cursorByte s of Break s' \<Rightarrow> s' | Continue s' \<Rightarrow> wrap_loop f input cursorByte s')
      else s)"
  by pat_completeness auto
termination
  by (relation "measure (\<lambda>(f, input, cursorByte, s). length input - ws_index s)")
     (auto dest: wrap_step_reads intro!: diff_less_mono2)

declare wrap_loop.simps [simp del]

definition wrap_start :: wrap_state where
  "wrap_start = \<lparr>ws_wrapped = \<lparr>wi_text = [], wi_cursorByte = 0, wi_autoBreaks = []\<rparr>, ws_index = 0, ws_line = 0,
     ws_column = 0, ws_lineStart = 0\<rparr>"

definition wrap_chat_input :: "chat_font \<Rightarrow> bytes \<Rightarrow> nat \<Rightarrow> wrapped_input" where
  "wrap_chat_input f input cursor =
     (let cursorByte = min cursor (length input); s = wrap_loop f input cursorByte wrap_start
      in ws_wrapped (cursor_here (cursorByte \<ge> ws_index s) s))"

section \<open>Reflow after an edit\<close>

fun common_prefix :: "bytes \<Rightarrow> bytes \<Rightarrow> nat" where
  "common_prefix (a # as) (b # bs) = (if a = b then Suc (common_prefix as bs) else 0)"
| "common_prefix _ _ = 0"

definition surviving_offset :: "nat \<Rightarrow> nat \<Rightarrow> bytes \<Rightarrow> bytes \<Rightarrow> nat \<Rightarrow> nat option" where
  "surviving_offset prefix suffix previous edited offset =
     (if offset < prefix then Some offset
      else if offset \<ge> length previous - suffix then Some (length edited - suffix + (offset - (length previous - suffix)))
      else None)"

definition surviving_breaks :: "nat \<Rightarrow> nat \<Rightarrow> bytes \<Rightarrow> bytes \<Rightarrow> (nat \<times> bytes) list \<Rightarrow> (nat \<times> bytes) list" where
  "surviving_breaks prefix suffix previous edited breaks =
     List.map_filter (\<lambda>(offset, separator). case surviving_offset prefix suffix previous edited offset of
       Some n \<Rightarrow> if n < length edited \<and> edited ! n = lf then Some (n, separator) else None
     | None \<Rightarrow> None) breaks"

text \<open>The loop over the bytes of the edited text, with the breaks still ahead and the cursor found so far.\<close>

fun unwrap_loop :: "nat \<Rightarrow> nat \<Rightarrow> bytes \<Rightarrow> (nat \<times> bytes) list \<Rightarrow> bytes \<Rightarrow> nat \<Rightarrow> bytes \<times> nat" where
  "unwrap_loop cursorByte index [] breaks out cursor = (out, cursor)"
| "unwrap_loop cursorByte index (b # bs) breaks out cursor =
     (let cursor' = (if index = cursorByte then length out else cursor) in
      case breaks of
        (offset, separator) # rest \<Rightarrow>
          if offset = index then unwrap_loop cursorByte (Suc index) bs rest (out @ separator) cursor'
          else unwrap_loop cursorByte (Suc index) bs breaks (out @ [b]) cursor'
      | [] \<Rightarrow> unwrap_loop cursorByte (Suc index) bs breaks (out @ [b]) cursor')"

definition reflow_chat_input :: "chat_font \<Rightarrow> bytes \<Rightarrow> nat \<Rightarrow> bytes \<Rightarrow> (nat \<times> bytes) list \<Rightarrow> wrapped_input" where
  "reflow_chat_input f edited cursor previous previousBreaks =
     (if previousBreaks = [] then wrap_chat_input f edited cursor
      else
        let prefix = common_prefix previous edited;
            suffix = common_prefix (rev (drop prefix previous)) (rev (drop prefix edited));
            breaks = surviving_breaks prefix suffix previous edited previousBreaks;
            cursorByte = min cursor (length edited);
            (unwrapped, found) = unwrap_loop cursorByte 0 edited breaks [] 0;
            unwrappedCursor = (if cursorByte = length edited then length unwrapped else found)
        in wrap_chat_input f unwrapped unwrappedCursor)"

section \<open>The check of a message\<close>

definition trim_chat :: "bytes \<Rightarrow> bytes" where
  "trim_chat input = (let blank = (\<lambda>b. b = sp \<or> b = lf) in rev (dropWhile blank (rev (dropWhile blank input))))"

text \<open>The length of the code point at the front, zero when it is not allowed.\<close>

definition code_point :: "bytes \<Rightarrow> nat" where
  "code_point bs =
     (let first = hd bs;
          n = (if 0xC2 \<le> first \<and> first \<le> 0xDF then 2 else if 0xE0 \<le> first \<and> first \<le> 0xEF then 3
               else if 0xF0 \<le> first \<and> first \<le> 0xF4 then 4 else 0 :: nat)
      in if first < 0x80 then (if first < 0x20 \<or> first = 0x7F then 0 else 1)
         else if n = 0 \<or> n > length bs \<or> (\<exists>b \<in> set (take (n - 1) (tl bs)). b AND 0xC0 \<noteq> 0x80) \<or>
                 first = 0xE0 \<and> bs ! 1 < 0xA0 \<or> first = 0xED \<and> bs ! 1 \<ge> 0xA0 \<or>
                 first = 0xF0 \<and> bs ! 1 < 0x90 \<or> first = 0xF4 \<and> bs ! 1 \<ge> 0x90 then 0
         else n)"

function check_chat :: "bytes \<Rightarrow> nat \<Rightarrow> nat \<Rightarrow> (nat \<times> nat) option" where
  "check_chat bs line column =
     (if bs = [] then Some (line, column)
      else if hd bs = lf then (if line + 1 \<ge> kMaxChatLines then None else check_chat (tl bs) (line + 1) 0)
      else if code_point bs = 0 \<or> column + 1 > kMaxChatLineCodepoints then None
      else check_chat (drop (code_point bs) bs) line (column + 1))"
  by pat_completeness auto
termination
  by (relation "measure (\<lambda>(bs, line, column). length bs)") auto

declare check_chat.simps [simp del]

definition normalize_chat_text :: "bytes \<Rightarrow> bytes option" where
  "normalize_chat_text input =
     (let text = trim_chat input in
      if text = [] \<or> length text > kMaxChatTextBytes \<or> check_chat text 0 0 = None then None else Some text)"

end
