(* ===== verification/Chat_Text.thy ===== *)
theory Chat_Text
  imports Chat_Input Interfaces
begin

text \<open>
  What the chat check accepts, stated without its loop: at most four lines of at most fifty printable
  Unicode scalar values each, in UTF-8.
\<close>

section \<open>UTF-8\<close>

definition utf8 :: "nat \<Rightarrow> bytes" where
  "utf8 c = map word_of_nat
     (if c < 0x80 then [c]
      else if c < 0x800 then [0xC0 + c div 64, 0x80 + c mod 64]
      else if c < 0x10000 then [0xE0 + c div 4096, 0x80 + c div 64 mod 64, 0x80 + c mod 64]
      else [0xF0 + c div 262144, 0x80 + c div 4096 mod 64, 0x80 + c div 64 mod 64, 0x80 + c mod 64])"

definition chat_scalar :: "nat \<Rightarrow> bool" where
  "chat_scalar c \<longleftrightarrow> 0x20 \<le> c \<and> c \<noteq> 0x7F \<and> c \<le> 0x10FFFF \<and> \<not> (0xD800 \<le> c \<and> c \<le> 0xDFFF)"

lemma continuation: "(b :: u8) AND 0xC0 = 0x80 \<longleftrightarrow> 0x80 \<le> unat b \<and> unat b < 0xC0"
proof -
  have m: "(0xC0 :: u8) = NOT (mask 6)" by (simp add: mask_eq_exp_minus_1)
  have "b AND 0xC0 = push_bit 6 (drop_bit 6 b)"
    unfolding m by (rule bit_word_eqI) (auto simp: bit_simps)
  moreover have "unat (push_bit 6 (drop_bit 6 b)) = 64 * (unat b div 64)"
  proof -
    have d: "unat (drop_bit 6 b) = unat b div 64" by (simp only: unat_drop_bit_eq) (simp add: drop_bit_eq_div)
    have "unat b div 64 < 4" by (rule less_mult_imp_div_less) simp
    then show ?thesis by (simp only: push_bit_eq_mult unat_word_ariths(2) d) simp
  qed
  ultimately have "unat (b AND 0xC0) = 64 * (unat b div 64)" by simp
  then have "b AND 0xC0 = 0x80 \<longleftrightarrow> unat b div 64 = 2" by (simp add: word_unat_eq_iff)
  then show ?thesis by linarith
qed

lemma byte_of_nat: "n < 256 \<Longrightarrow> unat (word_of_nat n :: u8) = n"
  by (simp add: unat_of_nat take_bit_nat_def)

lemma byte_order: "(b :: u8) < c \<longleftrightarrow> unat b < unat c" "(b :: u8) \<le> c \<longleftrightarrow> unat b \<le> unat c"
  by (simp_all add: word_less_nat_alt word_le_nat_alt)

lemma byte_is: "(b :: u8) = 0x7F \<longleftrightarrow> unat b = 0x7F" "b = 0xE0 \<longleftrightarrow> unat b = 0xE0" "b = 0xED \<longleftrightarrow> unat b = 0xED"
  "b = 0xF0 \<longleftrightarrow> unat b = 0xF0" "b = 0xF4 \<longleftrightarrow> unat b = 0xF4" "b = lf \<longleftrightarrow> unat b = 10" "b = cr \<longleftrightarrow> unat b = 13" "b = sp \<longleftrightarrow> unat b = 32"
  by (simp_all add: word_unat_eq_iff)

abbreviation cont :: "u8 \<Rightarrow> bool" where
  "cont b \<equiv> 0x80 \<le> unat b \<and> unat b < 0xC0"

text \<open>The check of one code point by the value of its first byte.\<close>

lemma code_point_1: "unat x < 0x80 \<Longrightarrow> code_point (x # xs) = (if unat x < 0x20 \<or> unat x = 0x7F then 0 else 1)"
  by (simp add: code_point_def byte_order byte_is)

lemma code_point_2: "0xC2 \<le> unat x \<Longrightarrow> unat x \<le> 0xDF \<Longrightarrow>
    code_point (x # xs) = (case xs of y # ys \<Rightarrow> if cont y then 2 else 0 | _ \<Rightarrow> 0)"
  by (cases xs) (simp_all add: code_point_def byte_order byte_is continuation Let_def)

lemma code_point_3: "0xE0 \<le> unat x \<Longrightarrow> unat x \<le> 0xEF \<Longrightarrow>
    code_point (x # xs) = (case xs of y # z # zs \<Rightarrow>
      if cont y \<and> cont z \<and> \<not> (unat x = 0xE0 \<and> unat y < 0xA0) \<and> \<not> (unat x = 0xED \<and> 0xA0 \<le> unat y) then 3 else 0 | _ \<Rightarrow> 0)"
proof -
  assume x: "0xE0 \<le> unat x" "unat x \<le> 0xEF"
  have "code_point (x # xs) =
      (if 3 > Suc (length xs) \<or> (\<exists>b \<in> set (take 2 xs). \<not> cont b) \<or>
         unat x = 0xE0 \<and> unat (xs ! 0) < 0xA0 \<or> unat x = 0xED \<and> 0xA0 \<le> unat (xs ! 0) then 0 else 3)"
    using x by (simp add: code_point_def byte_order byte_is continuation Let_def)
  then show ?thesis
    by (cases xs; cases "tl xs") (auto simp: numeral_2_eq_2)
qed

lemma code_point_4: "0xF0 \<le> unat x \<Longrightarrow> unat x \<le> 0xF4 \<Longrightarrow>
    code_point (x # xs) = (case xs of y # z # w # ws \<Rightarrow>
      if cont y \<and> cont z \<and> cont w \<and> \<not> (unat x = 0xF0 \<and> unat y < 0x90) \<and> \<not> (unat x = 0xF4 \<and> 0x90 \<le> unat y) then 4 else 0 | _ \<Rightarrow> 0)"
  by (cases xs; cases "tl xs"; cases "tl (tl xs)")
     (auto simp: code_point_def byte_order byte_is continuation numeral_3_eq_3 Let_def)

lemma code_point_0: "0x80 \<le> unat x \<Longrightarrow> unat x < 0xC2 \<or> 0xF4 < unat x \<Longrightarrow> code_point (x # xs) = 0"
  by (auto simp: code_point_def byte_order byte_is Let_def)

lemma digits:
  "(c :: nat) = 64 * (c div 64) + c mod 64" "c div 64 = 64 * (c div 4096) + c div 64 mod 64"
  "c div 4096 = 64 * (c div 262144) + c div 4096 mod 64" "c div 64 mod 64 < 64" "c mod 64 < 64" "c div 4096 mod 64 < 64"
  by (simp_all add: div_mult2_eq [of c 64 64, simplified] div_mult2_eq [of c 4096 64, simplified])

lemma low_digit: "(w :: nat) < 64 \<Longrightarrow> (i * 64 + w) div 64 = i" "(w :: nat) < 64 \<Longrightarrow> (i * 64 + w) mod 64 = w"
  "c div 4096 = c div 64 div 64" "c div 262144 = c div 64 div 64 div (64 :: nat)"
  by (simp_all add: div_mult2_eq [of c 64 64, simplified] div_mult2_eq [of c 4096 64, simplified])

lemma code_point_utf8:
  assumes "chat_scalar c"
  shows "code_point (utf8 c @ rest) = length (utf8 c)"
proof -
  note d = digits [of c]
  consider "c < 0x80" | "0x80 \<le> c" "c < 0x800" | "0x800 \<le> c" "c < 0x10000" | "0x10000 \<le> c" by linarith
  then show ?thesis
  proof cases
    case 1
    then show ?thesis using assms by (simp add: utf8_def code_point_1 byte_of_nat chat_scalar_def)
  next
    case 2
    then have "2 \<le> c div 64" "c div 64 \<le> 31" by linarith+
    then show ?thesis using 2 d(4-) by (simp add: utf8_def code_point_2 byte_of_nat del: of_nat_add)
  next
    case 3
    then have "c div 4096 \<le> 15" by linarith
    moreover have "c div 4096 = 0 \<Longrightarrow> 32 \<le> c div 64 mod 64" using 3 d by linarith
    moreover have "c div 4096 = 13 \<Longrightarrow> c div 64 mod 64 < 32" using assms 3 d unfolding chat_scalar_def by linarith
    ultimately show ?thesis using 3 d(4-) by (auto simp: utf8_def code_point_3 byte_of_nat simp del: of_nat_add)
  next
    case 4
    then have "c div 262144 \<le> 4" using assms unfolding chat_scalar_def by linarith
    moreover have "c div 262144 = 0 \<Longrightarrow> 16 \<le> c div 4096 mod 64" using 4 d by linarith
    moreover have "c div 262144 = 4 \<Longrightarrow> c div 4096 mod 64 < 16" using assms d unfolding chat_scalar_def by linarith
    ultimately show ?thesis using 4 d(4-) by (auto simp: utf8_def code_point_4 byte_of_nat simp del: of_nat_add)
  qed
qed

lemma three_bytes:
  fixes u v w :: nat
  assumes "u = 0 \<Longrightarrow> 32 \<le> v" and "u = 13 \<Longrightarrow> v < 32" and "v < 64" and "w < 64" and "u \<le> 15"
  shows "0x800 \<le> (u * 64 + v) * 64 + w" "(u * 64 + v) * 64 + w < 0xD800 \<or> 0xDFFF < (u * 64 + v) * 64 + w"
    "(u * 64 + v) * 64 + w < 0x10000"
proof -
  show "(u * 64 + v) * 64 + w < 0x10000" using assms(3-5) by simp
  show "0x800 \<le> (u * 64 + v) * 64 + w" using assms(1) by (cases u) auto
  consider "u \<le> 12" | "u = 13" | "14 \<le> u" by linarith
  then show "(u * 64 + v) * 64 + w < 0xD800 \<or> 0xDFFF < (u * 64 + v) * 64 + w"
    using assms by cases auto
qed

lemma four_bytes:
  fixes u v w t :: nat
  assumes "u = 0 \<Longrightarrow> 16 \<le> v" and "u = 4 \<Longrightarrow> v < 16" and "u \<le> 4" and "v < 64" and "w < 64" and "t < 64"
  shows "0x10000 \<le> ((u * 64 + v) * 64 + w) * 64 + t" "((u * 64 + v) * 64 + w) * 64 + t \<le> 0x10FFFF"
proof -
  show "0x10000 \<le> ((u * 64 + v) * 64 + w) * 64 + t" using assms(1) by (cases u) auto
  consider "u \<le> 3" | "u = 4" using assms(3) by linarith
  then show "((u * 64 + v) * 64 + w) * 64 + t \<le> 0x10FFFF"
    using assms by cases auto
qed

lemma utf8_code_point:
  assumes "bs \<noteq> []" and "0 < code_point bs"
  shows "\<exists>c. chat_scalar c \<and> take (code_point bs) bs = utf8 c"
proof -
  obtain x xs where bs: "bs = x # xs" using assms(1) by (cases bs) auto
  consider "unat x < 0x80" | "0x80 \<le> unat x" "unat x < 0xC2 \<or> 0xF4 < unat x" | "0xC2 \<le> unat x" "unat x \<le> 0xDF"
    | "0xE0 \<le> unat x" "unat x \<le> 0xEF" | "0xF0 \<le> unat x" "unat x \<le> 0xF4" by linarith
  then show ?thesis
  proof cases
    case 1
    then have "chat_scalar (unat x)" using assms(2) by (auto simp: bs code_point_1 chat_scalar_def split: if_splits)
    then show ?thesis using 1 assms(2) by (intro exI [of _ "unat x"]) (auto simp: bs code_point_1 utf8_def split: if_splits)
  next
    case 2
    then show ?thesis using assms(2) code_point_0 [of x xs] by (simp add: bs)
  next
    case 3
    then obtain y ys where xs: "xs = y # ys" and y: "cont y" and n: "code_point bs = 2"
      using assms(2) by (auto simp: bs code_point_2 split: list.splits if_splits)
    let ?c = "(unat x - 0xC0) * 64 + (unat y - 0x80)"
    have "unat y - 0x80 < 64" using y by linarith
    note low_digit(1,2) [OF this, of "unat x - 0xC0"]
    moreover have "0x80 \<le> ?c" "?c < 0x800" using 3 y by linarith+
    ultimately show ?thesis
      using 3 y by (intro exI [of _ ?c]) (simp add: bs xs n [unfolded bs xs] utf8_def chat_scalar_def)
  next
    case 4
    then obtain y z zs where xs: "xs = y # z # zs" and y: "cont y" "cont z" and n: "code_point bs = 3"
      and lo: "\<not> (unat x = 0xE0 \<and> unat y < 0xA0)" "\<not> (unat x = 0xED \<and> 0xA0 \<le> unat y)"
      using assms(2) by (auto simp: bs code_point_3 split: list.splits if_splits)
    let ?c = "((unat x - 0xE0) * 64 + (unat y - 0x80)) * 64 + (unat z - 0x80)"
    have "unat y - 0x80 < 64" "unat z - 0x80 < 64" using y by linarith+
    then have parts: "?c div 4096 = unat x - 0xE0" "?c div 64 mod 64 = unat y - 0x80" "?c mod 64 = unat z - 0x80"
      by (simp_all only: low_digit)
    have range: "0x800 \<le> ?c" "?c < 0xD800 \<or> 0xDFFF < ?c"
      using three_bytes [of "unat x - 0xE0" "unat y - 0x80" "unat z - 0x80"] 4 y lo by auto
    have small: "?c < 0x10000"
      using three_bytes(3) [of "unat x - 0xE0" "unat y - 0x80" "unat z - 0x80"] 4 y lo by auto
    have "utf8 ?c = [x, y, z]"
      unfolding utf8_def parts using range small 4 y by simp
    then show ?thesis
      using range small by (intro exI [of _ ?c]) (auto simp: bs xs n [unfolded bs xs] chat_scalar_def)
  next
    case 5
    then obtain y z w ws where xs: "xs = y # z # w # ws" and y: "cont y" "cont z" "cont w" and n: "code_point bs = 4"
      and lo: "\<not> (unat x = 0xF0 \<and> unat y < 0x90)" "\<not> (unat x = 0xF4 \<and> 0x90 \<le> unat y)"
      using assms(2) by (auto simp: bs code_point_4 split: list.splits if_splits)
    let ?c = "(((unat x - 0xF0) * 64 + (unat y - 0x80)) * 64 + (unat z - 0x80)) * 64 + (unat w - 0x80)"
    have "unat y - 0x80 < 64" "unat z - 0x80 < 64" "unat w - 0x80 < 64" using y by linarith+
    then have parts: "?c div 262144 = unat x - 0xF0" "?c div 4096 mod 64 = unat y - 0x80" "?c div 64 mod 64 = unat z - 0x80"
      "?c mod 64 = unat w - 0x80"
      by (simp_all only: low_digit)
    have range: "0x10000 \<le> ?c" "?c \<le> 0x10FFFF"
      using four_bytes [of "unat x - 0xF0" "unat y - 0x80" "unat z - 0x80" "unat w - 0x80"] 5 y lo by auto
    have "utf8 ?c = [x, y, z, w]"
      unfolding utf8_def parts using range 5 y by simp
    then show ?thesis
      using range by (intro exI [of _ ?c]) (simp add: bs xs n [unfolded bs xs] chat_scalar_def)
  qed
qed

section \<open>Lines of code points\<close>

fun chat_bytes :: "nat list list \<Rightarrow> bytes" where
  "chat_bytes [] = []"
| "chat_bytes [l] = concat (map utf8 l)"
| "chat_bytes (l # ls) = concat (map utf8 l) @ lf # chat_bytes ls"

definition chat_line :: "nat list \<Rightarrow> bool" where
  "chat_line l \<longleftrightarrow> length l \<le> 50 \<and> (\<forall>c \<in> set l. chat_scalar c)"

lemma utf8_not_lf: "chat_scalar c \<Longrightarrow> hd (utf8 c @ rest) \<noteq> lf" "utf8 c \<noteq> []"
proof -
  assume c: "chat_scalar c"
  have d: "c < 0x800 \<Longrightarrow> c div 64 < 32" "c < 0x10000 \<Longrightarrow> c div 4096 < 16" "c div 262144 < 5"
    using c unfolding chat_scalar_def by linarith+
  show "hd (utf8 c @ rest) \<noteq> lf"
    using c d by (auto simp: utf8_def chat_scalar_def byte_is byte_of_nat simp del: of_nat_add)
qed (simp add: utf8_def)

lemma check_code_point:
  assumes "chat_scalar c"
  shows "check_chat (utf8 c @ rest) line column =
    (if column + 1 > 50 then None else check_chat rest line (column + 1))"
  using utf8_not_lf(1) [OF assms, of rest] utf8_not_lf(2) code_point_utf8 [OF assms, of rest]
  by (subst check_chat.simps) (auto simp: kMaxChatLineCodepoints_def)

lemma check_line:
  "\<forall>c \<in> set l. chat_scalar c \<Longrightarrow> column \<le> 50 \<Longrightarrow> check_chat (concat (map utf8 l) @ rest) line column =
   (if column + length l > 50 then None else check_chat rest line (column + length l))"
  by (induction l arbitrary: column) (auto simp: check_code_point)

lemma check_nil [simp]: "check_chat [] line column = Some (line, column)"
  by (subst check_chat.simps) simp

lemma check_lf [simp]: "check_chat (lf # rest) line column = (if line + 1 \<ge> 4 then None else check_chat rest (line + 1) 0)"
  by (subst check_chat.simps) (simp add: kMaxChatLines_def)

lemma check_lines:
  "ls \<noteq> [] \<Longrightarrow> \<forall>l \<in> set (tl ls). chat_line l \<Longrightarrow> \<forall>c \<in> set (hd ls). chat_scalar c \<Longrightarrow> column + length (hd ls) \<le> 50 \<Longrightarrow>
   line + length ls \<le> 4 \<Longrightarrow> check_chat (chat_bytes ls) line column \<noteq> None"
proof (induction ls arbitrary: line column rule: chat_bytes.induct)
  case 1
  then show ?case by simp
next
  case (2 l)
  then show ?case using check_line [of l column "[]" line] by simp
next
  case (3 l m ms)
  then show ?case by (simp add: check_line chat_line_def)
qed

lemma checked_lines:
  "check_chat bs line column \<noteq> None \<Longrightarrow> line < 4 \<Longrightarrow> column \<le> 50 \<Longrightarrow>
   \<exists>l ls. bs = chat_bytes (l # ls) \<and> (\<forall>m \<in> set ls. chat_line m) \<and> (\<forall>c \<in> set l. chat_scalar c) \<and>
     column + length l \<le> 50 \<and> line + 1 + length ls \<le> 4"
proof (induction bs line column rule: check_chat.induct)
  case (1 bs line column)
  consider "bs = []" | "bs \<noteq> []" "hd bs = lf" | "bs \<noteq> []" "hd bs \<noteq> lf" by blast
  then show ?case
  proof cases
    case 1
    then show ?thesis using \<open>line < 4\<close> \<open>column \<le> 50\<close> by (intro exI [of _ "[]"]) auto
  next
    case 2
    then have bs: "bs = lf # tl bs" by (cases bs) auto
    then have rest: "line + 1 < 4" "check_chat (tl bs) (line + 1) 0 \<noteq> None"
      using \<open>check_chat bs line column \<noteq> None\<close> check_lf [of "tl bs" line column] bs by (auto split: if_splits)
    then obtain l ls where "tl bs = chat_bytes (l # ls)" "\<forall>m \<in> set ls. chat_line m" "\<forall>c \<in> set l. chat_scalar c"
      "length l \<le> 50" "line + 2 + length ls \<le> 4"
      using "1.IH"(1) 2 by (auto simp: kMaxChatLines_def)
    then show ?thesis using bs \<open>column \<le> 50\<close>
      by (intro exI [of _ "[]"] exI [of _ "l # ls"]) (auto simp: chat_line_def)
  next
    case 3
    let ?n = "code_point bs"
    have ok: "0 < ?n" "column + 1 \<le> 50" "check_chat (drop ?n bs) line (column + 1) \<noteq> None"
      using \<open>check_chat bs line column \<noteq> None\<close> 3
      by (subst (asm) check_chat.simps; simp add: kMaxChatLineCodepoints_def split: if_splits)+
    obtain c where c: "chat_scalar c" "take ?n bs = utf8 c" using utf8_code_point 3(1) ok(1) by blast
    obtain l ls where "drop ?n bs = chat_bytes (l # ls)" "\<forall>m \<in> set ls. chat_line m" "\<forall>c \<in> set l. chat_scalar c"
      "column + 1 + length l \<le> 50" "line + 1 + length ls \<le> 4"
      using "1.IH"(2) 3 ok \<open>line < 4\<close> by (auto simp: kMaxChatLineCodepoints_def)
    moreover have "chat_bytes ((c # l) # ls) = utf8 c @ chat_bytes (l # ls)" by (cases ls) auto
    moreover have "bs = take ?n bs @ drop ?n bs" by simp
    ultimately show ?thesis using c by (intro exI [of _ "c # l"] exI [of _ ls]) auto
  qed
qed

lemma length_utf8: "length (utf8 c) \<le> 4"
  by (simp add: utf8_def)

lemma length_line: "length (concat (map utf8 l)) \<le> 4 * length l"
  by (induction l) (use length_utf8 in \<open>auto intro: add_mono\<close>)

lemma length_chat_bytes:
  "ls \<noteq> [] \<Longrightarrow> \<forall>l \<in> set ls. chat_line l \<Longrightarrow> length (chat_bytes ls) \<le> 201 * length ls - 1"
proof (induction ls rule: chat_bytes.induct)
  case (2 l)
  then show ?case using length_line [of l] by (simp add: chat_line_def)
next
  case (3 l m ms)
  then show ?case using length_line [of l] by (simp add: chat_line_def)
qed simp

lemma checked_iff_lines:
  "check_chat t 0 0 \<noteq> None \<longleftrightarrow> (\<exists>ls. t = chat_bytes ls \<and> ls \<noteq> [] \<and> length ls \<le> 4 \<and> list_all chat_line ls)"
proof
  assume "check_chat t 0 0 \<noteq> None"
  then obtain l ls where "t = chat_bytes (l # ls)" "\<forall>m \<in> set ls. chat_line m" "\<forall>c \<in> set l. chat_scalar c"
    "length l \<le> 50" "1 + length ls \<le> 4"
    using checked_lines [of t 0 0] by auto
  then show "\<exists>ls. t = chat_bytes ls \<and> ls \<noteq> [] \<and> length ls \<le> 4 \<and> list_all chat_line ls"
    by (intro exI [of _ "l # ls"]) (auto simp: chat_line_def list_all_iff)
next
  assume "\<exists>ls. t = chat_bytes ls \<and> ls \<noteq> [] \<and> length ls \<le> 4 \<and> list_all chat_line ls"
  then obtain ls where ls: "t = chat_bytes ls" "ls \<noteq> []" "length ls \<le> 4" "\<forall>l \<in> set ls. chat_line l"
    by (auto simp: list_all_iff)
  then have "chat_line (hd ls)" "\<forall>l \<in> set (tl ls). chat_line l" by (auto simp: list.set_sel)
  then show "check_chat t 0 0 \<noteq> None"
    using check_lines [of ls 0 0] ls by (auto simp: chat_line_def)
qed

lemma checked_size: "check_chat t 0 0 \<noteq> None \<Longrightarrow> length t \<le> kMaxChatTextBytes"
proof -
  assume "check_chat t 0 0 \<noteq> None"
  then obtain ls where ls: "t = chat_bytes ls" "ls \<noteq> []" "length ls \<le> 4" "\<forall>l \<in> set ls. chat_line l"
    by (auto simp: checked_iff_lines list_all_iff simp del: not_None_eq)
  then have "length t \<le> 803" using length_chat_bytes [of ls] by auto
  then show ?thesis by (simp add: kMaxChatTextBytes_def kMaxChatLineCodepoints_def kMaxChatLines_def)
qed

lemma normalize_checked:
  "normalize_chat_text input = Some out \<longleftrightarrow> out = trim_chat input \<and> out \<noteq> [] \<and> check_chat out 0 0 \<noteq> None"
  using checked_size [of "trim_chat input"] by (auto simp: normalize_chat_text_def Let_def not_less split: if_splits)

text \<open>
  C23: a message is accepted exactly when what is left of it without blanks at both ends is one to four
  lines of at most fifty code points, each a Unicode scalar value from 32 on other than 127, in
  UTF-8 (the control characters 128 to 159 are let through); the byte limit then holds by itself.
\<close>

theorem chat_accepts_exactly:
  "normalize_chat_text input = Some out \<longleftrightarrow>
   out = trim_chat input \<and> out \<noteq> [] \<and>
   (\<exists>ls. out = chat_bytes ls \<and> ls \<noteq> [] \<and> length ls \<le> 4 \<and> list_all chat_line ls)"
  by (simp add: normalize_checked checked_iff_lines del: not_None_eq)

end
