(* ===== verification/Chat_Wrap.thy ===== *)
theory Chat_Wrap
  imports Chat_Text
begin

text \<open>
  The text the editor shows while a message is typed: it stays within the limits of a message whatever
  is typed, and if what is typed is text, the check accepts what is shown.
\<close>

section \<open>The loop\<close>

lemma wrap_loop_inv:
  assumes "P s" and "\<And>s s'. P s \<Longrightarrow> ws_index s < length input \<Longrightarrow> ws_line s < 4 \<Longrightarrow>
    wrap_step f input cursorByte s = Break s' \<or> wrap_step f input cursorByte s = Continue s' \<Longrightarrow> P s'"
  shows "P (wrap_loop f input cursorByte s)"
  using assms
proof (induction f input cursorByte s rule: wrap_loop.induct)
  case (1 f input cursorByte s)
  show ?case
  proof (cases "ws_index s < length input \<and> ws_line s < kMaxChatLines")
    case False
    then show ?thesis using 1(2) by (subst wrap_loop.simps) auto
  next
    case True
    then show ?thesis using 1
      by (subst wrap_loop.simps) (auto simp: kMaxChatLines_def split: loop.splits)
  qed
qed

section \<open>Limits\<close>

definition wrap_ok :: "wrap_state \<Rightarrow> bool" where
  "wrap_ok s \<longleftrightarrow> ws_line s \<le> 3 \<and> ws_column s \<le> 50 \<and> text_size s \<le> 201 * ws_line s + 4 * ws_column s \<and>
     wi_cursorByte (ws_wrapped s) \<le> text_size s \<and>
     (\<forall>(offset, separator) \<in> set (wi_autoBreaks (ws_wrapped s)).
       offset < text_size s \<and> wi_text (ws_wrapped s) ! offset = lf)"

lemma ok_cursor [inv_intros]: "wrap_ok s \<Longrightarrow> wrap_ok (cursor_here here s)"
  by (simp add: wrap_ok_def cursor_here_def text_size_def)

lemma ok_index [inv_intros]: "wrap_ok s \<Longrightarrow> wrap_ok (s\<lparr>ws_index := i\<rparr>)"
  by (simp add: wrap_ok_def text_size_def)

lemma ok_new_line [inv_intros]: "wrap_ok s \<Longrightarrow> ws_line s + 1 < 4 \<Longrightarrow> wrap_ok (new_line s)"
  by (auto simp: wrap_ok_def new_line_def put_bytes_def text_size_def Let_def nth_append)

lemma ok_break [inv_intros]: "wrap_ok s \<Longrightarrow> ws_line s + 1 < 4 \<Longrightarrow> wrap_ok (note_break separator (new_line s))"
  using ok_new_line [of s]
  by (auto simp: wrap_ok_def note_break_def new_line_def put_bytes_def text_size_def Let_def)

lemma ok_put [inv_intros]: "wrap_ok s \<Longrightarrow> ws_column s < 50 \<Longrightarrow> length bs \<le> 4 \<Longrightarrow>
    wrap_ok ((put_bytes bs s)\<lparr>ws_index := i, ws_column := Suc (ws_column s)\<rparr>)"
  by (auto simp: wrap_ok_def put_bytes_def text_size_def nth_append)

lemma column_simps [simp]:
  "ws_column (cursor_here here s) = ws_column s" "ws_line (cursor_here here s) = ws_line s"
  "ws_column (note_break separator s) = ws_column s" "ws_line (note_break separator s) = ws_line s"
  "ws_column (new_line s) = 0" "ws_line (new_line s) = ws_line s + 1"
  by (simp_all add: cursor_here_def note_break_def new_line_def Let_def)

lemma codepoint_bytes_le: "chat_utf8_codepoint_bytes b \<le> 4"
  by (simp add: chat_utf8_codepoint_bytes_def)

definition both :: "('a \<Rightarrow> bool) \<Rightarrow> 'a loop \<Rightarrow> bool" where
  "both P out \<longleftrightarrow> (case out of Break s \<Rightarrow> P s | Continue s \<Rightarrow> P s)"

lemma both_simps [simp]: "both P (Break s) = P s" "both P (Continue s) = P s"
  by (simp_all add: both_def)

lemma ok_entered_break: "wrap_ok s \<Longrightarrow> both wrap_ok (entered_break input cursorByte s)"
  by (auto simp: entered_break_def Let_def kMaxChatLines_def intro!: inv_intros)

lemma ok_at_space: "wrap_ok s \<Longrightarrow> at_space f input cursorByte s = Some out \<Longrightarrow> both wrap_ok out"
  by (auto simp: at_space_def Let_def kMaxChatLines_def intro!: inv_intros split: prod.splits if_splits)

lemma ok_one_codepoint:
  assumes "wrap_ok s"
  shows "both wrap_ok (one_codepoint f input cursorByte s)"
proof -
  define n where "n = min (chat_utf8_codepoint_bytes (input ! ws_index s)) (length input - ws_index s)"
  define full where "full = (ws_column s = 50 \<or> ws_column s > 0 \<and> exceeds_width f s (take n (drop (ws_index s) input)))"
  define s1 where "s1 = (if full then cursor_here (ws_index s = cursorByte) (note_break [] (new_line s)) else s)"
  have n: "n \<le> 4" using codepoint_bytes_le by (simp add: n_def min.coboundedI1)
  have s1: "wrap_ok s1" if "\<not> (full \<and> ws_line s + 1 \<ge> 4)" using that assms by (auto simp: s1_def intro!: inv_intros)
  have column: "ws_column s1 < 50" using assms by (auto simp: s1_def full_def wrap_ok_def)
  have "one_codepoint f input cursorByte s =
    (if full \<and> ws_line s + 1 \<ge> 4 then Break s
     else if text_size s1 + n > kMaxChatTextBytes then Break s1
     else let s2 = (put_bytes (take n (drop (ws_index s) input)) s1)\<lparr>ws_index := ws_index s1 + n, ws_column := ws_column s1 + 1\<rparr>
       in Continue (cursor_here (ws_index s2 \<le> cursorByte) s2))"
    by (simp add: one_codepoint_def Let_def n_def full_def s1_def kMaxChatLineCodepoints_def kMaxChatLines_def)
  then show ?thesis
    using assms s1 column n by (auto simp: Let_def intro!: ok_cursor ok_put)
qed

lemma ok_wrap_step: "wrap_ok s \<Longrightarrow> both wrap_ok (wrap_step f input cursorByte s)"
  using ok_cursor [of s "ws_index s = cursorByte"]
  by (auto simp: wrap_step_def Let_def ok_entered_break ok_one_codepoint intro: ok_at_space split: option.splits)

lemma ok_wrap_loop: "wrap_ok (wrap_loop f input cursorByte wrap_start)"
proof (rule wrap_loop_inv)
  show "wrap_ok wrap_start" by (simp add: wrap_ok_def wrap_start_def text_size_def)
next
  fix s s'
  assume "wrap_ok s" and "wrap_step f input cursorByte s = Break s' \<or> wrap_step f input cursorByte s = Continue s'"
  then show "wrap_ok s'" using ok_wrap_step [of s f input cursorByte] by auto
qed

text \<open>
  C40: whatever bytes are typed and however wide the font draws them, the wrapped text keeps within the
  limit of a message, its cursor lies in it, and every automatic break is at a line break in it.
\<close>

theorem wrapping_stays_bounded:
  "let w = wrap_chat_input f input cursor in
   length (wi_text w) \<le> 803 \<and> wi_cursorByte w \<le> length (wi_text w) \<and>
   list_all (\<lambda>(offset, separator). offset < length (wi_text w) \<and> wi_text w ! offset = lf) (wi_autoBreaks w)"
proof -
  let ?s = "cursor_here (min cursor (length input) \<ge> ws_index (wrap_loop f input (min cursor (length input)) wrap_start))
    (wrap_loop f input (min cursor (length input)) wrap_start)"
  have "wrap_ok ?s" by (intro ok_cursor ok_wrap_loop)
  then have "text_size ?s \<le> 803 \<and> wi_cursorByte (ws_wrapped ?s) \<le> text_size ?s \<and>
    list_all (\<lambda>(offset, separator). offset < text_size ?s \<and> wi_text (ws_wrapped ?s) ! offset = lf) (wi_autoBreaks (ws_wrapped ?s))"
    by (auto simp: wrap_ok_def list_all_iff)
  then show ?thesis by (simp add: wrap_chat_input_def Let_def text_size_def)
qed

section \<open>What is typed as text is accepted\<close>

text \<open>Typed text: code points the check allows, spaces among them, and line breaks.\<close>

function typed_text :: "bytes \<Rightarrow> bool" where
  "typed_text bs =
     (if bs = [] then True
      else if hd bs = lf \<or> hd bs = cr then typed_text (tl bs)
      else if code_point bs = 0 then False
      else typed_text (drop (code_point bs) bs))"
  by pat_completeness auto
termination
  by (relation "measure length") auto

declare typed_text.simps [simp del]

lemma code_point_length:
  assumes "bs \<noteq> []" and "0 < code_point bs"
  shows "code_point bs = chat_utf8_codepoint_bytes (hd bs)" "code_point bs \<le> length bs"
proof -
  obtain x xs where bs: "bs = x # xs" using assms(1) by (cases bs) auto
  consider "unat x < 0x80" | "0x80 \<le> unat x" "unat x < 0xC2 \<or> 0xF4 < unat x" | "0xC2 \<le> unat x" "unat x \<le> 0xDF"
    | "0xE0 \<le> unat x" "unat x \<le> 0xEF" | "0xF0 \<le> unat x" "unat x \<le> 0xF4" by linarith
  then have "code_point bs = chat_utf8_codepoint_bytes (hd bs) \<and> code_point bs \<le> length bs"
    using assms(2)
    by cases (auto simp: bs chat_utf8_codepoint_bytes_def byte_order code_point_0 code_point_1 code_point_2 code_point_3
        code_point_4 split: list.splits if_splits)
  then show "code_point bs = chat_utf8_codepoint_bytes (hd bs)" "code_point bs \<le> length bs" by simp_all
qed

lemma checked_app:
  "check_chat a line column = Some (l, c) \<Longrightarrow> check_chat (a @ b) line column = check_chat b l c"
proof (induction a line column rule: check_chat.induct)
  case (1 a line column)
  consider "a = []" | t where "a = lf # t" | "a \<noteq> []" "hd a \<noteq> lf" by (cases a) auto
  then show ?case
  proof cases
    case 1
    then show ?thesis using "1.prems" by simp
  next
    case (2 t)
    then show ?thesis using "1.prems" "1.IH"(1) by (auto simp: kMaxChatLines_def split: if_splits)
  next
    case 3
    let ?n = "code_point a"
    have n: "0 < ?n" "column + 1 \<le> 50" "check_chat (drop ?n a) line (column + 1) = Some (l, c)"
      using "1.prems" 3 by (subst (asm) check_chat.simps; simp add: kMaxChatLineCodepoints_def split: if_splits)+
    obtain u where u: "chat_scalar u" "take ?n a = utf8 u" using utf8_code_point 3(1) n(1) by blast
    have a: "a = utf8 u @ drop ?n a" using u(2) by (metis append_take_drop_id)
    have "check_chat (a @ b) line column = check_chat (drop ?n a @ b) line (column + 1)"
      using check_code_point [OF u(1), of "drop ?n a @ b"] n(2) by (subst a) simp
    then show ?thesis using "1.IH"(2) 3 n by (simp add: kMaxChatLineCodepoints_def)
  qed
qed

definition text_ok :: "bytes \<Rightarrow> wrap_state \<Rightarrow> bool" where
  "text_ok input s \<longleftrightarrow> ws_index s \<le> length input \<and> typed_text (drop (ws_index s) input) \<and>
     check_chat (wi_text (ws_wrapped s)) 0 0 = Some (ws_line s, ws_column s)"

lemma text_cursor [simp]: "text_ok input (cursor_here here s) = text_ok input s"
  by (simp add: text_ok_def cursor_here_def)

lemma text_break [simp]: "text_ok input (note_break separator s) = text_ok input s"
  by (simp add: text_ok_def note_break_def)

lemma text_new_line: "text_ok input s \<Longrightarrow> ws_line s + 1 < 4 \<Longrightarrow> text_ok input (new_line s)"
  by (auto simp: text_ok_def new_line_def put_bytes_def Let_def checked_app)

lemma text_index: "text_ok input s \<Longrightarrow> ws_index s \<le> i \<Longrightarrow> i \<le> length input \<Longrightarrow> typed_text (drop i input) \<Longrightarrow>
    text_ok input (s\<lparr>ws_index := i\<rparr>)"
  by (simp add: text_ok_def)

lemma drop_at: "i < length xs \<Longrightarrow> drop i xs = xs ! i # drop (Suc i) xs"
  by (simp add: Cons_nth_drop_Suc)

lemma typed_break: "b = lf \<or> b = cr \<Longrightarrow> typed_text (b # bs) = typed_text bs"
  by (subst typed_text.simps) auto

lemma typed_space: "typed_text (sp # bs) = typed_text bs"
  by (subst typed_text.simps) (simp add: code_point_1)

lemma text_entered_break:
  assumes "text_ok input s" and "ws_index s < length input" and "input ! ws_index s = cr \<or> input ! ws_index s = lf"
  shows "both (text_ok input) (entered_break input cursorByte s)"
proof -
  define consumed where "consumed = (if input ! ws_index s = cr \<and> ws_index s + 1 < length input \<and> input ! (ws_index s + 1) = lf then 2 else 1 :: nat)"
  have "typed_text (drop (Suc (ws_index s)) input)"
    using assms typed_break by (auto simp: text_ok_def drop_at)
  then have "typed_text (drop (ws_index s + consumed) input)"
    by (auto simp: consumed_def drop_at typed_break)
  then have "text_ok input (s\<lparr>ws_index := ws_index s + consumed\<rparr>)"
    using assms(1,2) by (intro text_index) (auto simp: consumed_def)
  moreover have "entered_break input cursorByte s =
    (let s1 = s\<lparr>ws_index := ws_index s + consumed\<rparr>
     in if ws_line s1 + 1 \<ge> kMaxChatLines then Break s1
        else Continue (cursor_here (ws_index s1 \<le> cursorByte) (new_line s1)))"
    by (simp add: entered_break_def consumed_def Let_def)
  ultimately show ?thesis by (auto simp: Let_def kMaxChatLines_def text_new_line)
qed

lemma typed_spaces: "typed_text bs \<Longrightarrow> typed_text (drop (length (takeWhile (\<lambda>b. b = sp) bs)) bs)"
  by (induction bs) (auto simp: typed_space)

lemma text_at_space:
  assumes "text_ok input s" and "at_space f input cursorByte s = Some out"
  shows "both (text_ok input) out"
proof -
  let ?n = "length (takeWhile (\<lambda>b. b = sp) (drop (ws_index s) input))"
  have "typed_text (drop (ws_index s + ?n) input)"
    using assms(1) typed_spaces [of "drop (ws_index s) input"] by (simp add: text_ok_def add.commute)
  moreover have "ws_index s + ?n \<le> length input"
    using assms(1) length_takeWhile_le [of "\<lambda>b. b = sp" "drop (ws_index s) input"]
    unfolding text_ok_def length_drop by linarith
  ultimately show ?thesis
    using assms by (auto simp: at_space_def Let_def kMaxChatLines_def intro!: text_index text_new_line
      split: prod.splits if_splits)
qed

lemma typed_code_point:
  "typed_text bs \<Longrightarrow> bs \<noteq> [] \<Longrightarrow> hd bs \<noteq> lf \<Longrightarrow> hd bs \<noteq> cr \<Longrightarrow> 0 < code_point bs \<and> typed_text (drop (code_point bs) bs)"
  by (subst (asm) typed_text.simps) (simp split: if_splits)

lemma text_one_codepoint:
  assumes good: "text_ok input s" and "wrap_ok s" and "ws_index s < length input"
    and "input ! ws_index s \<noteq> cr" "input ! ws_index s \<noteq> lf"
  shows "both (text_ok input) (one_codepoint f input cursorByte s)"
proof -
  let ?rest = "drop (ws_index s) input"
  have rest: "?rest \<noteq> []" "hd ?rest = input ! ws_index s" using assms(3) by (simp_all add: hd_drop_conv_nth)
  have typed: "typed_text ?rest" using good by (simp add: text_ok_def)
  have cp: "0 < code_point ?rest" "typed_text (drop (code_point ?rest) ?rest)"
    using typed_code_point [OF typed rest(1)] rest(2) assms(4,5) by metis+
  note len = code_point_length [OF rest(1) cp(1)]
  obtain u where u: "chat_scalar u" "take (code_point ?rest) ?rest = utf8 u"
    using utf8_code_point [OF rest(1) cp(1)] by blast
  define n where "n = code_point ?rest"
  have n: "min (chat_utf8_codepoint_bytes (input ! ws_index s)) (length input - ws_index s) = n"
    using len rest by (simp add: n_def)
  define full where "full = (ws_column s = 50 \<or> ws_column s > 0 \<and> exceeds_width f s (take n ?rest))"
  define s1 where "s1 = (if full then cursor_here (ws_index s = cursorByte) (note_break [] (new_line s)) else s)"
  have s1: "text_ok input s1" if "\<not> (full \<and> ws_line s + 1 \<ge> 4)"
    using that good by (auto simp: s1_def intro!: text_new_line)
  have column: "ws_column s1 < 50" using assms(2) by (auto simp: s1_def full_def wrap_ok_def)
  have put: "text_ok input ((put_bytes (take n ?rest) s1)\<lparr>ws_index := ws_index s1 + n, ws_column := Suc (ws_column s1)\<rparr>)"
    if "text_ok input s1"
  proof -
    have i: "ws_index s1 = ws_index s" by (simp add: s1_def)
    have "check_chat (wi_text (ws_wrapped s1) @ utf8 u) 0 0 = check_chat (utf8 u) (ws_line s1) (ws_column s1)"
      using that by (intro checked_app) (simp add: text_ok_def)
    also have "\<dots> = Some (ws_line s1, Suc (ws_column s1))"
      using check_code_point [OF u(1), of "[]"] column by simp
    finally show ?thesis
      using cp(2) len(2) u(2) assms(3) by (simp add: text_ok_def put_bytes_def i n_def add.commute)
  qed
  have "one_codepoint f input cursorByte s =
    (if full \<and> ws_line s + 1 \<ge> 4 then Break s
     else if text_size s1 + n > kMaxChatTextBytes then Break s1
     else let s2 = (put_bytes (take n ?rest) s1)\<lparr>ws_index := ws_index s1 + n, ws_column := ws_column s1 + 1\<rparr>
       in Continue (cursor_here (ws_index s2 \<le> cursorByte) s2))"
    by (simp add: one_codepoint_def Let_def n full_def s1_def kMaxChatLineCodepoints_def kMaxChatLines_def)
  then show ?thesis using good s1 put by (auto simp: Let_def)
qed

lemma text_wrap_step:
  assumes "text_ok input s" and "wrap_ok s" and "ws_index s < length input"
  shows "both (text_ok input) (wrap_step f input cursorByte s)"
proof -
  let ?s = "cursor_here (ws_index s = cursorByte) s"
  have "text_ok input ?s" "wrap_ok ?s" "ws_index ?s < length input" using assms by (auto intro: ok_cursor)
  then show ?thesis
    using text_entered_break [of input ?s] text_at_space [of input ?s] text_one_codepoint [of input ?s]
    by (auto simp: wrap_step_def Let_def split: option.splits)
qed

section \<open>Blanks at the ends\<close>

lemma check_mono:
  "check_chat bs line column \<noteq> None \<Longrightarrow> line' \<le> line \<Longrightarrow> column' \<le> column \<Longrightarrow> check_chat bs line' column' \<noteq> None"
proof (induction bs line column arbitrary: line' column' rule: check_chat.induct)
  case (1 bs line column)
  show ?case
    using "1.prems" "1.IH"(1) [of "line' + 1" 0] "1.IH"(2) [of line' "column' + 1"]
    by (subst check_chat.simps, subst (asm) check_chat.simps)
       (auto simp: kMaxChatLines_def kMaxChatLineCodepoints_def split: if_splits)
qed

lemma check_tail: "check_chat (b # bs) line column \<noteq> None \<Longrightarrow> b = sp \<or> b = lf \<Longrightarrow> check_chat bs 0 0 \<noteq> None"
proof -
  assume a: "check_chat (b # bs) line column \<noteq> None" and b: "b = sp \<or> b = lf"
  have "code_point (sp # bs) = 1" by (simp add: code_point_1)
  then have "\<exists>l c. check_chat bs l c \<noteq> None"
    using a b by (subst (asm) check_chat.simps) (auto split: if_splits)
  then show ?thesis using check_mono by blast
qed

lemma check_dropWhile: "check_chat bs 0 0 \<noteq> None \<Longrightarrow> check_chat (dropWhile (\<lambda>b. b = sp \<or> b = lf) bs) 0 0 \<noteq> None"
proof (induction bs)
  case (Cons b bs)
  show ?case
  proof (cases "b = sp \<or> b = lf")
    case True
    then show ?thesis using Cons.IH check_tail [OF Cons.prems] by simp
  next
    case False
    then show ?thesis using Cons.prems by simp
  qed
qed simp

lemma utf8_last: "chat_scalar u \<Longrightarrow> utf8 u = bs @ [x] \<Longrightarrow> x = sp \<or> x = lf \<Longrightarrow> bs = []"
proof -
  assume u: "chat_scalar u" "utf8 u = bs @ [x]" and x: "x = sp \<or> x = lf"
  have "u < 0x80 \<or> last (utf8 u) = word_of_nat (0x80 + u mod 64)" by (simp add: utf8_def)
  moreover have "(word_of_nat (0x80 + u mod 64) :: u8) \<noteq> x"
    using x by (auto simp: word_unat_eq_iff byte_of_nat simp del: of_nat_add)
  ultimately have "u < 0x80" using u(2) by auto
  then show ?thesis using u(2) by (simp add: utf8_def)
qed

lemma check_butlast:
  "check_chat (bs @ [x]) line column \<noteq> None \<Longrightarrow> x = sp \<or> x = lf \<Longrightarrow> check_chat bs line column \<noteq> None"
proof (induction bs line column rule: check_chat.induct)
  case (1 bs line column)
  consider "bs = []" | t where "bs = lf # t" | "bs \<noteq> []" "hd bs \<noteq> lf" by (cases bs) auto
  then show ?case
  proof cases
    case 1
    then show ?thesis by simp
  next
    case (2 t)
    then show ?thesis using "1.prems" "1.IH"(1) by (auto simp: kMaxChatLines_def split: if_splits)
  next
    case 3
    let ?n = "code_point (bs @ [x])"
    have n: "0 < ?n" "column + 1 \<le> 50" "check_chat (drop ?n (bs @ [x])) line (column + 1) \<noteq> None"
      using "1.prems"(1) 3
      by (subst (asm) check_chat.simps; simp add: kMaxChatLineCodepoints_def split: if_splits)+
    obtain u where u: "chat_scalar u" "take ?n (bs @ [x]) = utf8 u"
      using utf8_code_point [of "bs @ [x]"] n(1) by blast
    have le: "?n \<le> length bs"
    proof (rule ccontr)
      assume "\<not> ?n \<le> length bs"
      then have "utf8 u = bs @ [x]" using u(2) by simp
      then show False using utf8_last [OF u(1) _ "1.prems"(2)] 3(1) by blast
    qed
    then have bs: "bs = utf8 u @ drop ?n bs" using u(2) by (metis append_take_drop_id diff_is_0_eq take0 take_append append_Nil2)
    have "code_point bs = ?n"
      using code_point_utf8 [OF u(1), of "drop ?n bs"] bs u(2) le by (metis length_append_singleton length_take min.absorb2 le_SucI)
    then show ?thesis
      using "1.IH"(2) [OF 3] n le "1.prems"(2) 3
      by (subst check_chat.simps) (auto simp: kMaxChatLineCodepoints_def)
  qed
qed

lemma check_trim: "check_chat bs 0 0 \<noteq> None \<Longrightarrow> check_chat (trim_chat bs) 0 0 \<noteq> None"
proof -
  have tail: "check_chat bs 0 0 \<noteq> None \<Longrightarrow> check_chat (rev (dropWhile (\<lambda>b. b = sp \<or> b = lf) (rev bs))) 0 0 \<noteq> None" for bs
  proof (induction bs rule: rev_induct)
    case (snoc x bs)
    show ?case
    proof (cases "x = sp \<or> x = lf")
      case True
      then show ?thesis using snoc.IH check_butlast [OF snoc.prems] by simp
    next
      case False
      then show ?thesis using snoc.prems by simp
    qed
  qed simp
  assume "check_chat bs 0 0 \<noteq> None"
  then show ?thesis unfolding trim_chat_def Let_def by (intro tail check_dropWhile)
qed

text \<open>
  C24: when what is typed is text, with any line breaks, the check that guards sending accepts what the
  editor shows, however the lines were broken, unless only blanks are shown.
\<close>

theorem wrapped_text_is_accepted:
  assumes "typed_text input"
  shows "trim_chat (wi_text (wrap_chat_input f input cursor)) = [] \<or>
    normalize_chat_text (wi_text (wrap_chat_input f input cursor)) =
      Some (trim_chat (wi_text (wrap_chat_input f input cursor)))"
proof -
  define cursorByte where "cursorByte = min cursor (length input)"
  let ?s = "wrap_loop f input cursorByte wrap_start"
  have "text_ok input ?s \<and> wrap_ok ?s"
  proof (rule wrap_loop_inv)
    show "text_ok input wrap_start \<and> wrap_ok wrap_start"
      using assms by (simp add: text_ok_def wrap_ok_def wrap_start_def text_size_def)
  next
    fix s s'
    assume "text_ok input s \<and> wrap_ok s" and "ws_index s < length input"
      and "wrap_step f input cursorByte s = Break s' \<or> wrap_step f input cursorByte s = Continue s'"
    then show "text_ok input s' \<and> wrap_ok s'"
      using ok_wrap_step [of s f input cursorByte] text_wrap_step [of input s f cursorByte] by auto
  qed
  then have "check_chat (wi_text (ws_wrapped ?s)) 0 0 \<noteq> None" by (simp add: text_ok_def)
  moreover have "wi_text (wrap_chat_input f input cursor) = wi_text (ws_wrapped ?s)"
    by (simp add: wrap_chat_input_def Let_def cursorByte_def cursor_here_def)
  ultimately show ?thesis using check_trim by (auto simp: normalize_checked)
qed

lemma wrapped_text_is_accepted_witness:
  "trim_chat (wi_text (wrap_chat_input \<lparr>cf_maxLineWidth = Fin 0, cf_measureWidth = None\<rparr> (str_bytes ''hello world'') 3)) = [] \<or>
    normalize_chat_text (wi_text (wrap_chat_input \<lparr>cf_maxLineWidth = Fin 0, cf_measureWidth = None\<rparr> (str_bytes ''hello world'') 3)) =
      Some (trim_chat (wi_text (wrap_chat_input \<lparr>cf_maxLineWidth = Fin 0, cf_measureWidth = None\<rparr> (str_bytes ''hello world'') 3)))"
proof (rule wrapped_text_is_accepted)
  have "str_bytes ''hello world'' = [104, 101, 108, 108, 111, 32, 119, 111, 114, 108, 100]"
    by (simp add: byte_of_char_def)
  then show "typed_text (str_bytes ''hello world'')"
    by (simp add: typed_text.simps code_point_1)
qed

end
