(* ===== verification/Pose_Ack.thy ===== *)
theory Pose_Ack
  imports Interfaces
begin

text \<open>
  Acknowledged pose snapshots, \<open>include/dusklight_online/net/pose_ack_history.hpp\<close>: what a sender
  remembers of each receiver, and the snapshot a delta for several receivers may refer to.
\<close>

section \<open>History and common snapshot\<close>

function drop_oldest :: "u32 list \<Rightarrow> u32 list" where
  "drop_oldest history = (if length history > 300 then drop_oldest (tl history) else history)"
  by pat_completeness auto
termination
  by (relation "measure length") auto

declare drop_oldest.simps [simp del]

definition remember_pose_ack :: "u32 \<Rightarrow> u32 list \<Rightarrow> u32 list" where
  "remember_pose_ack sequence history =
     (if sequence = 0 then history else drop_oldest (os_insert sequence history))"

text \<open>The pointer of a receiver without a history is null.\<close>

fun smallest_history :: "u32 list option list \<Rightarrow> u32 list option \<Rightarrow> u32 list option" where
  "smallest_history [] smallest = smallest"
| "smallest_history (h # hs) smallest =
     (case h of
        None \<Rightarrow> None
      | Some history \<Rightarrow>
          if history = [] then None
          else smallest_history hs
            (case smallest of
               None \<Rightarrow> Some history
             | Some s \<Rightarrow> if length history < length s then Some history else Some s))"

definition common_pose_ack :: "u32 list option list \<Rightarrow> u32" where
  "common_pose_ack histories =
     (if histories = [] then 0
      else case smallest_history histories None of
        None \<Rightarrow> 0
      | Some smallest \<Rightarrow>
          (case find (\<lambda>q. \<forall>h \<in> set histories. case h of Some history \<Rightarrow> q \<in> set history | None \<Rightarrow> False) (rev smallest) of
             Some q \<Rightarrow> q
           | None \<Rightarrow> 0))"

section \<open>What they promise\<close>

definition history_ok :: "u32 list \<Rightarrow> bool" where
  "history_ok h \<longleftrightarrow> os_ok h \<and> length h \<le> 300 \<and> 0 \<notin> set h"

lemma os_ok_tl: "os_ok h \<Longrightarrow> os_ok (tl h)"
  by (cases h) (auto simp: os_ok_def)

lemma drop_oldest_drop: "drop_oldest h = drop (length h - 300) h"
proof (induction h rule: drop_oldest.induct)
  case (1 h)
  show ?case
  proof (cases "length h > 300")
    case True
    then obtain x t where h: "h = x # t" by (cases h) auto
    have "length (x # t) - 300 = Suc (length t - 300)" using True h by simp
    then show ?thesis using 1 True by (subst drop_oldest.simps) (simp add: h)
  next
    case False
    then show ?thesis by (subst drop_oldest.simps) simp
  qed
qed

lemma os_ok_drop: "os_ok h \<Longrightarrow> os_ok (drop n h)"
  by (simp add: os_ok_def)

lemma remember_ok: "history_ok h \<Longrightarrow> history_ok (remember_pose_ack q h)"
  by (auto simp: history_ok_def remember_pose_ack_def drop_oldest_drop os_ok_drop dest: in_set_dropD)

interpretation acks: invariant_machine remember_pose_ack history_ok "[]"
  by unfold_locales (simp_all add: remember_ok, simp add: history_ok_def)

section \<open>The newest acknowledgements\<close>

text \<open>The \<open>n\<close> greatest elements of a set: those with fewer than \<open>n\<close> greater ones.\<close>

definition newest :: "nat \<Rightarrow> u32 set \<Rightarrow> u32 set" where
  "newest n S = {x \<in> S. card {y \<in> S. x < y} < n}"

lemma set_drop_newest: "os_ok h \<Longrightarrow> set (drop (length h - n) h) = newest n (set h)"
proof (induction h)
  case Nil
  then show ?case by (simp add: newest_def)
next
  case (Cons a h)
  have ok: "os_ok h" and low: "\<forall>x \<in> set h. a < x" and fresh: "a \<notin> set h"
    using Cons.prems by (auto simp: os_ok_def)
  have len: "card (set h) = length h" using ok by (intro distinct_card os_ok_distinct)
  have at_a: "{y \<in> set (a # h). a < y} = set h" using low by auto
  have at_h: "{y \<in> set (a # h). x < y} = {y \<in> set h. x < y}" if "x \<in> set h" for x
    using low that by (auto dest: less_asym)
  show ?case
  proof (cases "n \<le> length h")
    case True
    then have "drop (length (a # h) - n) (a # h) = drop (length h - n) h" by (simp add: Suc_diff_le)
    moreover have "newest n (set (a # h)) = newest n (set h)"
      using True len at_a at_h fresh by (auto simp: newest_def)
    ultimately show ?thesis using Cons.IH [OF ok] by simp
  next
    case False
    have "card {y \<in> set (a # h). x < y} < n" if "x \<in> set (a # h)" for x
    proof (cases "x = a")
      case True
      then show ?thesis using False len at_a by simp
    next
      case neq: False
      have "card {y \<in> set h. x < y} \<le> card (set h)" by (intro card_mono) auto
      then show ?thesis using False len at_h that neq by simp
    qed
    then have "newest n (set (a # h)) = set (a # h)" unfolding newest_def by blast
    then show ?thesis using False by simp
  qed
qed

lemma card_newest: "finite S \<Longrightarrow> n \<le> card S \<Longrightarrow> n \<le> card (newest n S)"
proof -
  assume S: "finite S" "n \<le> card S"
  let ?l = "sorted_list_of_set S"
  have ok: "os_ok ?l" by (simp add: os_ok_def)
  have "newest n S = set (drop (length ?l - n) ?l)" using set_drop_newest [OF ok, of n] S(1) by simp
  moreover have "distinct (drop (length ?l - n) ?l)" by simp
  ultimately have "card (newest n S) = length (drop (length ?l - n) ?l)" by (metis distinct_card)
  then show ?thesis using S by simp
qed

lemma newest_insert: "finite S \<Longrightarrow> newest n (insert q (newest n S)) = newest n (insert q S)"
proof
  assume S: "finite S"
  have inside: "newest n S \<subseteq> S" by (auto simp: newest_def)
  show "newest n (insert q S) \<subseteq> newest n (insert q (newest n S))"
  proof
    fix x
    assume x: "x \<in> newest n (insert q S)"
    have fewer: "card {y \<in> S. x < y} \<le> card {y \<in> insert q S. x < y}"
      "card {y \<in> insert q (newest n S). x < y} \<le> card {y \<in> insert q S. x < y}"
      using S inside by (intro card_mono; auto)+
    then show "x \<in> newest n (insert q (newest n S))"
      using x by (auto simp: newest_def)
  qed
  show "newest n (insert q (newest n S)) \<subseteq> newest n (insert q S)"
  proof
    fix x
    assume x: "x \<in> newest n (insert q (newest n S))"
    let ?G = "{y \<in> insert q S. x < y}"
    have "card ?G < n"
    proof (rule ccontr)
      assume "\<not> card ?G < n"
      then have many: "n \<le> card (newest n ?G)" using S by (intro card_newest) auto
      have "newest n ?G \<subseteq> {y \<in> insert q (newest n S). x < y}"
      proof
        fix y
        assume y: "y \<in> newest n ?G"
        then have "card {z \<in> S. y < z} \<le> card {z \<in> ?G. y < z}"
          using S by (intro card_mono) (auto simp: newest_def)
        then show "y \<in> {y \<in> insert q (newest n S). x < y}" using y by (auto simp: newest_def)
      qed
      then have "card (newest n ?G) \<le> card {y \<in> insert q (newest n S). x < y}"
        using S inside by (intro card_mono) (auto intro: finite_subset)
      then show False using many x by (simp add: newest_def)
    qed
    then show "x \<in> newest n (insert q S)" using x inside by (auto simp: newest_def)
  qed
qed

text \<open>A number is forgotten once 300 greater ones were acknowledged.\<close>

definition recently_acknowledged :: "u32 list \<Rightarrow> u32 \<Rightarrow> bool" where
  "recently_acknowledged acks q \<longleftrightarrow> q \<in> set acks \<and> q \<noteq> 0 \<and> card {x \<in> set acks. q < x} < 300"

lemma remembered: "set (fold remember_pose_ack acks []) = Collect (recently_acknowledged acks)"
proof -
  have "history_ok (fold remember_pose_ack acks []) \<and> set (fold remember_pose_ack acks []) = newest 300 (set acks - {0})"
  proof (induction acks rule: rev_induct)
    case Nil
    then show ?case by (simp add: newest_def history_ok_def)
  next
    case (snoc q acks)
    let ?h = "fold remember_pose_ack acks []"
    have h: "os_ok ?h" "set ?h = newest 300 (set acks - {0})" using snoc by (simp_all add: history_ok_def)
    have "set (remember_pose_ack q ?h) = newest 300 (set (acks @ [q]) - {0})"
    proof (cases "q = 0")
      case True
      then show ?thesis using h by (simp add: remember_pose_ack_def)
    next
      case False
      have "set (remember_pose_ack q ?h) = newest 300 (insert q (newest 300 (set acks - {0})))"
        using False h set_drop_newest [of "os_insert q ?h" 300] by (simp add: remember_pose_ack_def drop_oldest_drop)
      also have "\<dots> = newest 300 (insert q (set acks - {0}))" by (intro newest_insert) simp
      also have "insert q (set acks - {0}) = set (acks @ [q]) - {0}" using False by auto
      finally show ?thesis .
    qed
    then show ?case using snoc remember_ok by simp
  qed
  moreover have "{y \<in> set acks - {0}. x < y} = {y \<in> set acks. x < y}" for x by auto
  ultimately show ?thesis by (auto simp: newest_def recently_acknowledged_def)
qed

section \<open>The common snapshot\<close>

lemma smallest_none: "smallest_history hs s = None \<longleftrightarrow> None \<in> set hs \<or> Some [] \<in> set hs \<or> hs = [] \<and> s = None"
  by (induction hs arbitrary: s) (auto split: option.splits)

lemma smallest_in: "smallest_history hs s = Some h \<Longrightarrow> Some h \<in> set hs \<or> s = Some h"
  by (induction hs arbitrary: s) (auto split: option.splits if_splits)

definition held_by_all :: "u32 list option list \<Rightarrow> u32 \<Rightarrow> bool" where
  "held_by_all histories q \<longleftrightarrow> (\<forall>h \<in> set histories. case h of Some history \<Rightarrow> q \<in> set history | None \<Rightarrow> False)"

lemma find_first:
  "sorted_wrt (>) (xs :: 'a :: linorder list) \<Longrightarrow> find P xs = Some q \<Longrightarrow> P q \<and> q \<in> set xs \<and> (\<forall>x \<in> set xs. P x \<longrightarrow> x \<le> q)"
  by (induction xs) (auto split: if_splits)

lemma find_greatest:
  "os_ok h \<Longrightarrow> find P (rev h) = Some q \<Longrightarrow> P q \<and> q \<in> set h \<and> (\<forall>x \<in> set h. P x \<longrightarrow> x \<le> q)"
  using find_first [of "rev h" P q] by (simp add: os_ok_def sorted_wrt_rev)

text \<open>What every receiver has recently acknowledged.\<close>

definition common_acks :: "u32 list option list \<Rightarrow> u32 set" where
  "common_acks receivers = {q. \<forall>r \<in> set receivers. case r of Some acks \<Rightarrow> recently_acknowledged acks q | None \<Rightarrow> False}"

text \<open>
  C25: whatever each receiver acknowledged, in whatever order and however often, the snapshot a delta may
  refer to is the greatest number that every receiver acknowledged and that is still among the 300
  greatest it acknowledged; it is zero exactly when there is no receiver or no such number.
\<close>

theorem common_ack_is_greatest:
  "let q = common_pose_ack (map (map_option (\<lambda>acks. fold remember_pose_ack acks [])) receivers) in
   if receivers = [] \<or> common_acks receivers = {} then q = 0
   else q \<noteq> 0 \<and> q \<in> common_acks receivers \<and> common_acks receivers \<subseteq> {..q}"
proof -
  define hs where "hs = map (map_option (\<lambda>acks. fold remember_pose_ack acks [])) receivers"
  have ok: "history_ok h" if "Some h \<in> set hs" for h
    using that acks.reachable_inv by (force simp: hs_def map_option_case split: option.splits)
  have all: "common_acks receivers = Collect (held_by_all hs)"
    by (auto simp: common_acks_def held_by_all_def hs_def remembered split: option.splits)
  have empty: "receivers = [] \<longleftrightarrow> hs = []" by (simp add: hs_def)
  have "if hs = [] \<or> Collect (held_by_all hs) = {} then common_pose_ack hs = 0
    else common_pose_ack hs \<noteq> 0 \<and> common_pose_ack hs \<in> Collect (held_by_all hs) \<and> Collect (held_by_all hs) \<subseteq> {..common_pose_ack hs}"
  proof (cases "smallest_history hs None")
    case None
    then have "hs = [] \<or> (\<forall>x. \<not> held_by_all hs x)" by (force simp: smallest_none held_by_all_def)
    with None show ?thesis by (simp add: common_pose_ack_def)
  next
    case (Some h)
    then have h: "Some h \<in> set hs" using smallest_in by fastforce
    then have nonempty: "hs \<noteq> []" by auto
    have inside: "x \<in> set h" if "held_by_all hs x" for x using that h by (auto simp: held_by_all_def)
    show ?thesis
    proof (cases "find (held_by_all hs) (rev h)")
      case None
      then have "\<not> held_by_all hs x" for x using inside by (auto simp: find_None_iff)
      with None nonempty Some show ?thesis by (simp add: common_pose_ack_def held_by_all_def [abs_def])
    next
      case q: (Some q)
      then have common: "common_pose_ack hs = q" using nonempty Some by (simp add: common_pose_ack_def held_by_all_def [abs_def])
      have "os_ok h" "0 \<notin> set h" using ok [OF h] by (simp_all add: history_ok_def)
      with find_greatest [OF _ q] inside show ?thesis using nonempty common by auto
    qed
  qed
  then show ?thesis unfolding all empty by (simp add: Let_def flip: hs_def)
qed

end
