(* ===== verification/Udp_Connection.thy ===== *)
theory Udp_Connection
  imports Secure_Channel Datagram_Scheduler Reliable_Udp
begin

text \<open>
  The connection layer, \<open>UdpConnection\<close> of \<open>src/net/udp_connection.cpp\<close>: its state, what it puts on the
  socket, the control messages of a session and their receiver.  The protocol state is serialised by
  one mutex; an operation runs to its end at one clock reading.  The socket, the resolver, the random
  source, KCP, the cryptography and the ICE agent of \<open>ice_agent.cpp\<close>, a wrapper of libjuice, are
  parameters; what is handed to the socket is recorded in order.
\<close>

section \<open>Parameters\<close>

type_synonym sock_addr = "u32 \<times> u16"

datatype signal_kind = Description | Candidate | Finished

record ice_signal =
  is_kind :: signal_kind
  is_text :: string
  is_generation :: u32

record 'i ice =
  ic_new :: "string \<Rightarrow> u16 \<Rightarrow> nat \<Rightarrow> 'i"
  ic_connected :: "'i \<Rightarrow> bool"
  ic_send :: "bytes \<Rightarrow> 'i \<Rightarrow> bool \<times> 'i"
  ic_pop :: "'i \<Rightarrow> bytes option \<times> 'i"
  ic_signal :: "ice_signal \<Rightarrow> 'i \<Rightarrow> bool \<times> 'i"
  ic_pop_signal :: "'i \<Rightarrow> ice_signal option \<times> 'i"

text \<open>The environment of an operation; random values are numbered in the order they are drawn, the
  socket's answers in the order of the packets offered to it.\<close>

record ('k, 'i) uenv =
  ue_kcp :: "'k kcp"
  ue_crypto :: crypto
  ue_ice :: "'i ice"
  ue_now :: u32
  ue_nonce :: "nat \<Rightarrow> u64"
  ue_entropy :: "nat \<Rightarrow> entropy"
  ue_taken :: "nat \<Rightarrow> bool"

section \<open>State\<close>

record 'i upeer =
  up_address :: sock_addr
  up_realtimeAddress :: sock_addr
  up_nonce :: u64
  up_session :: u64
  up_started :: u32
  up_lastReceive :: u32
  up_lastControl :: u32
  up_ready :: bool
  up_closed :: bool
  up_accepted :: bool
  up_logical :: u64
  up_meshReliable :: bool
  up_ice :: "'i option"
  up_lastProbe :: u32
  up_lastEcho :: u32
  up_probeRtt :: u32
  up_lastIcePacket :: u32
  up_lastPayloadPacket :: u32
  up_probeSends :: u64
  up_probeSendFailures :: u64
  up_probeRequests :: u64
  up_probeReplies :: u64
  up_payloadPackets :: u64
  up_hasEcho :: bool
  up_secure :: "secure option"
  up_lastSecure :: u32
  up_iceGeneration :: u32
  up_retryAt :: u32
  up_retryDelay :: u32
  up_lastIceChange :: u32
  up_iceSent :: "u32 list"
  up_iceReceived :: "u32 list"
  up_iceRejected :: "u32 list"
  up_rx :: bytes

definition new_upeer :: "'i upeer" where
  "new_upeer = \<lparr>up_address = (0, 0), up_realtimeAddress = (0, 0), up_nonce = 0, up_session = 0, up_started = 0,
     up_lastReceive = 0, up_lastControl = 0, up_ready = False, up_closed = False, up_accepted = False, up_logical = 0,
     up_meshReliable = False, up_ice = None, up_lastProbe = 0, up_lastEcho = 0, up_probeRtt = 250, up_lastIcePacket = 0,
     up_lastPayloadPacket = 0, up_probeSends = 0, up_probeSendFailures = 0, up_probeRequests = 0, up_probeReplies = 0,
     up_payloadPackets = 0, up_hasEcho = False, up_secure = None, up_lastSecure = 0, up_iceGeneration = 0, up_retryAt = 0,
     up_retryDelay = 30000, up_lastIceChange = 0, up_iceSent = [0, 0, 0], up_iceReceived = [0, 0, 0],
     up_iceRejected = [0, 0, 0], up_rx = []\<rparr>"

record raw_packet =
  rw_address :: sock_addr
  rw_bytes :: bytes
  rw_authenticatedPeer :: "u64 option"

record ('k, 'i) uconn =
  uc_open :: bool
  uc_server :: bool
  uc_inviteSecret :: string
  uc_meshSecret :: string
  uc_stun :: bool
  uc_stunWindow :: u32
  uc_stunCount :: u32
  uc_stunRates :: "(u32 \<times> u32) list"
  uc_capacity :: nat
  uc_nextId :: u64
  uc_peers :: "(u64, 'i upeer) omap"
  uc_accepted :: "u64 list"
  uc_realtime :: "raw_packet list"
  uc_meshRealtime :: "(string \<times> bytes) list"
  uc_localLogical :: u64
  uc_relayId :: "u64 option"
  uc_stunHost :: string
  uc_stunPort :: u16
  uc_budget :: scheduler
  uc_reliable :: "'k reliable"
  uc_draws :: nat
  uc_out :: "(sock_addr \<times> bytes) list"

definition set_peer :: "u64 \<Rightarrow> ('i upeer \<Rightarrow> 'i upeer) \<Rightarrow> ('k, 'i) uconn \<Rightarrow> ('k, 'i) uconn" where
  "set_peer i f s = (case map_of (uc_peers s) i of
     None \<Rightarrow> s
   | Some p \<Rightarrow> s\<lparr>uc_peers := om_put i (f p) (uc_peers s)\<rparr>)"

definition peer_at :: "('k, 'i) uconn \<Rightarrow> u64 \<Rightarrow> 'i upeer" where
  "peer_at s i = (case map_of (uc_peers s) i of Some p \<Rightarrow> p | None \<Rightarrow> new_upeer)"

definition drawn :: "('k, 'i) uconn \<Rightarrow> ('k, 'i) uconn" where
  "drawn s = s\<lparr>uc_draws := uc_draws s + 1\<rparr>"

definition draw_nonce :: "('k, 'i) uenv \<Rightarrow> ('k, 'i) uconn \<Rightarrow> u64" where
  "draw_nonce e s = (let n = ue_nonce e (uc_draws s) in if n \<noteq> 0 then n else 1)"

definition find_address :: "sock_addr \<Rightarrow> ('k, 'i) uconn \<Rightarrow> u64 option" where
  "find_address a s = map_option fst
     (find (\<lambda>(i, p). up_logical p = 0 \<and> \<not> up_closed p \<and> up_address p = a) (uc_peers s))"

definition logical_peer :: "u64 \<Rightarrow> ('k, 'i) uconn \<Rightarrow> u64 option" where
  "logical_peer n s = (if n = 0 then None else map_option fst
     (find (\<lambda>(i, p). \<not> up_closed p \<and> up_logical p = n) (uc_peers s)))"

definition peer_established :: "'i upeer \<Rightarrow> bool" where
  "peer_established p \<longleftrightarrow> (case up_secure p of None \<Rightarrow> True | Some sd \<Rightarrow> established sd)"

definition direct_path :: "('k, 'i) uenv \<Rightarrow> 'i upeer \<Rightarrow> bool" where
  "direct_path e p \<longleftrightarrow> (case up_ice p of None \<Rightarrow> False | Some ice \<Rightarrow> ic_connected (ue_ice e) ice) \<and> up_hasEcho p \<and>
     peer_established p \<and> ue_now e - up_lastEcho p < max 750 (min 3000 (up_probeRtt p * 4))"

section \<open>Sending\<close>

definition to_socket :: "('k, 'i) uenv \<Rightarrow> sock_addr \<Rightarrow> bytes \<Rightarrow> ('k, 'i) uconn \<Rightarrow> bool \<times> ('k, 'i) uconn" where
  "to_socket e a bytes s = (ue_taken e (length (uc_out s)), s\<lparr>uc_out := uc_out s @ [(a, bytes)]\<rparr>)"

definition duc :: bytes where "duc = str_bytes ''DUC1''"
definition dsh_magic :: bytes where "dsh_magic = str_bytes ''DSH1''"
definition dse :: bytes where "dse = str_bytes ''DSE1''"

definition seal_for :: "('k, 'i) uenv \<Rightarrow> bytes \<Rightarrow> 'i upeer \<Rightarrow> bytes \<times> 'i upeer" where
  "seal_for e bytes p = (case up_secure p of
     None \<Rightarrow> (bytes, p)
   | Some sd \<Rightarrow> (case seal (ue_crypto e) bytes sd of (sealed, sd') \<Rightarrow> (sealed, p\<lparr>up_secure := Some sd'\<rparr>)))"

definition ice_send :: "('k, 'i) uenv \<Rightarrow> bytes \<Rightarrow> 'i upeer \<Rightarrow> bool \<times> 'i upeer" where
  "ice_send e bytes p = (case up_ice p of
     None \<Rightarrow> (False, p)
   | Some ice \<Rightarrow> (case ic_send (ue_ice e) bytes ice of (good, ice') \<Rightarrow> (good, p\<lparr>up_ice := Some ice'\<rparr>)))"

text \<open>To a native peer: sealed once its key exchange is over, realtime packets to their own address.\<close>

definition native_seal :: "('k, 'i) uenv \<Rightarrow> bytes \<Rightarrow> 'i upeer \<Rightarrow> bytes option \<times> 'i upeer" where
  "native_seal e bytes p =
     (let handshake = (take 4 bytes = duc \<or> take 4 bytes = dsh_magic) in
      if up_secure p \<noteq> None \<and> (\<not> handshake \<or> take 4 bytes = duc \<and> peer_established p) then
        (case seal_for e bytes p of (wire, p') \<Rightarrow> (if wire = [] then None else Some wire, p'))
      else (Some bytes, p))"

definition native_destination :: "bytes \<Rightarrow> 'i upeer \<Rightarrow> sock_addr" where
  "native_destination bytes p =
     (if datagram_kind bytes = datagram_kind.Realtime \<and> snd (up_realtimeAddress p) \<noteq> 0
      then up_realtimeAddress p else up_address p)"

definition send_native :: "('k, 'i) uenv \<Rightarrow> u64 \<Rightarrow> bytes \<Rightarrow> 'i upeer \<Rightarrow> ('k, 'i) uconn \<Rightarrow> bool \<times> ('k, 'i) uconn" where
  "send_native e i bytes p s =
     (case native_seal e bytes p of
        (None, p') \<Rightarrow> (False, set_peer i (\<lambda>_. p') s)
      | (Some wire, p') \<Rightarrow> to_socket e (native_destination bytes p') wire (set_peer i (\<lambda>_. p') s))"

text \<open>Over the ICE path of a peer: whether it went out, or nothing when it could not be sealed.\<close>

definition send_direct :: "('k, 'i) uenv \<Rightarrow> bytes \<Rightarrow> 'i upeer \<Rightarrow> bool option \<times> 'i upeer" where
  "send_direct e bytes p =
     (if \<not> direct_path e p then (Some False, p)
      else case seal_for e bytes p of
        (wire, p') \<Rightarrow>
          if up_secure p \<noteq> None \<and> wire = [] then (None, p')
          else (case ice_send e wire p' of (good, p'') \<Rightarrow> (Some good, p'')))"

definition usable_relay :: "('k, 'i) uconn \<Rightarrow> u64 option" where
  "usable_relay s = (case uc_relayId s of
     None \<Rightarrow> None
   | Some rid \<Rightarrow> (case map_of (uc_peers s) rid of
       None \<Rightarrow> None
     | Some relay \<Rightarrow> if up_closed relay \<or> \<not> up_ready relay then None else Some rid))"

text \<open>
  A peer of the mesh is reached over ICE, else wrapped and through the relay; wrapping stops at the
  size limit of an envelope.
\<close>

function conn_send :: "('k, 'i) uenv \<Rightarrow> u64 \<Rightarrow> bytes \<Rightarrow> ('k, 'i) uconn \<Rightarrow> bool \<times> ('k, 'i) uconn" where
  "conn_send e i bytes s =
     (case map_of (uc_peers s) i of
        None \<Rightarrow> (False, s)
      | Some p \<Rightarrow>
          if up_closed p \<or> \<not> uc_open s then (False, s)
          else if up_logical p = 0 then send_native e i bytes p s
          else (case send_direct e bytes p of
            (outcome, p') \<Rightarrow>
              let s' = set_peer i (\<lambda>_. p') s; wrapped = peer_tunnel (uc_localLogical s) (up_logical p) bytes in
              if outcome = None then (False, s')
              else if outcome = Some True then (True, s')
              else (case usable_relay s' of
                None \<Rightarrow> (False, s')
              | Some rid \<Rightarrow> if wrapped = [] then (False, s') else conn_send e rid wrapped s')))"
  by pat_completeness auto
termination
  by (relation "measure (\<lambda>(e, i, bytes, s). 1221 - length bytes)")
     (auto simp: peer_tunnel_def tunnel_magic_def split: if_splits)

declare conn_send.simps [simp del]

text \<open>What the budget releases goes to the carrier.\<close>

definition budget_update :: "('k, 'i) uenv \<Rightarrow> ('k, 'i) uconn \<Rightarrow> ('k, 'i) uconn" where
  "budget_update e s = (case sched_update (ue_now e) (uc_budget s) of
     (out, sc) \<Rightarrow> fold (\<lambda>(i, bytes) s. snd (conn_send e i bytes s)) out (s\<lparr>uc_budget := sc\<rparr>))"

definition budget_send :: "u64 \<Rightarrow> bytes \<Rightarrow> ('k, 'i) uconn \<Rightarrow> bool \<times> ('k, 'i) uconn" where
  "budget_send i bytes s = (case sched_send i bytes (uc_budget s) of (good, sc) \<Rightarrow> (good, s\<lparr>uc_budget := sc\<rparr>))"

text \<open>KCP's packets go to the budget.\<close>

definition reliable_update :: "('k, 'i) uenv \<Rightarrow> ('k, 'i) uconn \<Rightarrow> ('k, 'i) uconn option" where
  "reliable_update e s =
     map_option (\<lambda>ru. fold (\<lambda>(i, bytes) s. snd (budget_send i bytes s)) (ru_wire ru) (s\<lparr>uc_reliable := ru\<lparr>ru_wire := []\<rparr>\<rparr>))
       (ru_update (ue_kcp e) (ue_now e) (uc_reliable s))"

section \<open>Sessions\<close>

definition control_bytes :: "u8 \<Rightarrow> 'i upeer \<Rightarrow> bytes" where
  "control_bytes type p = duc @ [type] @ put_le (up_nonce p) 8 @ put_le (up_session p) 8"

definition control :: "('k, 'i) uenv \<Rightarrow> u64 \<Rightarrow> u8 \<Rightarrow> ('k, 'i) uconn \<Rightarrow> ('k, 'i) uconn" where
  "control e i type s =
     (if up_logical (peer_at s i) \<noteq> 0 then s
      else set_peer i (\<lambda>p. p\<lparr>up_lastControl := ue_now e\<rparr>) (snd (conn_send e i (control_bytes type (peer_at s i)) s)))"

definition make_ready :: "('k, 'i) uenv \<Rightarrow> u64 \<Rightarrow> ('k, 'i) uconn \<Rightarrow> bool \<times> ('k, 'i) uconn" where
  "make_ready e i s =
     (let p = peer_at s i; mark = set_peer i (\<lambda>p. p\<lparr>up_ready := True\<rparr>) in
      if up_ready p then (True, s)
      else case sched_add_peer i (uc_budget s) of
        (False, sc) \<Rightarrow> (False, s\<lparr>uc_budget := sc\<rparr>)
      | (True, sc) \<Rightarrow>
          if up_logical p \<noteq> 0 \<and> \<not> up_meshReliable p then (True, mark (s\<lparr>uc_budget := sc\<rparr>))
          else (case ru_add_peer (ue_kcp e) i (up_session p) (uc_reliable s) of
            (False, ru) \<Rightarrow> (False, s\<lparr>uc_budget := sched_remove_peer i sc, uc_reliable := ru\<rparr>)
          | (True, ru) \<Rightarrow> (True, mark (s\<lparr>uc_budget := sc, uc_reliable := ru\<rparr>))))"

definition forget_peer :: "u64 \<Rightarrow> ('k, 'i) uconn \<Rightarrow> ('k, 'i) uconn" where
  "forget_peer i s = s\<lparr>uc_reliable := ru_remove_peer i (uc_reliable s), uc_budget := sched_remove_peer i (uc_budget s)\<rparr>"

definition close_peer :: "('k, 'i) uenv \<Rightarrow> u64 \<Rightarrow> bool \<Rightarrow> ('k, 'i) uconn \<Rightarrow> ('k, 'i) uconn" where
  "close_peer e i notify s =
     (case map_of (uc_peers s) i of
        None \<Rightarrow> s
      | Some p \<Rightarrow>
          forget_peer i (set_peer i (\<lambda>p. p\<lparr>up_closed := True\<rparr>)
            (if notify \<and> up_ready p \<and> \<not> up_closed p then control e i 6 s else s)))"

definition conn_close :: "('k, 'i) uenv \<Rightarrow> ('k, 'i) uconn \<Rightarrow> ('k, 'i) uconn" where
  "conn_close e s =
     (let s1 = fold (\<lambda>(i, p) s. forget_peer i (if up_ready p \<and> \<not> up_closed p \<and> uc_open s then control e i 6 s else s))
          (uc_peers s) s
      in s1\<lparr>uc_peers := [], uc_accepted := [], uc_realtime := [], uc_meshRealtime := [], uc_inviteSecret := [],
          uc_meshSecret := [], uc_localLogical := 0, uc_relayId := None, uc_stunHost := [], uc_stunPort := 0,
          uc_stun := False, uc_stunWindow := 0, uc_stunCount := 0, uc_stunRates := replicate 256 (0, 0), uc_open := False\<rparr>)"

definition new_conn :: "('k, 'i) uconn option" where
  "new_conn =
     (case (new_scheduler default_limits, new_reliable 4096 1) of
        (Some budget, Some reliable) \<Rightarrow>
          Some \<lparr>uc_open = False, uc_server = False, uc_inviteSecret = [], uc_meshSecret = [], uc_stun = False,
            uc_stunWindow = 0, uc_stunCount = 0, uc_stunRates = replicate 256 (0, 0), uc_capacity = 0, uc_nextId = 1,
            uc_peers = [], uc_accepted = [], uc_realtime = [], uc_meshRealtime = [], uc_localLogical = 0, uc_relayId = None,
            uc_stunHost = [], uc_stunPort = 0, uc_budget = budget, uc_reliable = reliable, uc_draws = 0, uc_out = []\<rparr>
      | _ \<Rightarrow> None)"

text \<open>\<open>bound\<close> says whether the address was resolved and the socket opened and bound.\<close>

definition conn_open :: "('k, 'i) uenv \<Rightarrow> bool \<Rightarrow> nat \<Rightarrow> bool \<Rightarrow> bool \<Rightarrow> string \<Rightarrow> ('k, 'i) uconn \<Rightarrow> bool \<times> ('k, 'i) uconn" where
  "conn_open e bound capacity server stun inviteSecret s0 =
     (let s = conn_close e s0 in
      if capacity = 0 \<or> capacity > 4096 \<or> inviteSecret \<noteq> [] \<and> length inviteSecret < 16 then (False, s)
      else
        let s1 = s\<lparr>uc_inviteSecret := inviteSecret, uc_meshSecret := inviteSecret\<rparr> in
        if \<not> bound then (False, conn_close e s1)
        else (True, budget_update e (s1\<lparr>uc_open := True, uc_capacity := capacity, uc_server := server, uc_stun := (server \<and> stun)\<rparr>)))"

text \<open>\<open>address\<close> is what the host resolves to.\<close>

definition conn_connect :: "('k, 'i) uenv \<Rightarrow> sock_addr option \<Rightarrow> ('k, 'i) uconn \<Rightarrow> u64 option \<times> ('k, 'i) uconn" where
  "conn_connect e address s =
     (if \<not> uc_open s \<or> uc_server s \<or> length (uc_peers s) \<ge> uc_capacity s then (None, s)
      else case address of
        None \<Rightarrow> (None, s)
      | Some a \<Rightarrow>
          let p = new_upeer\<lparr>up_address := a, up_nonce := draw_nonce e s, up_started := ue_now e, up_lastReceive := ue_now e\<rparr>;
              sd = new_secure (ue_crypto e) (uc_inviteSecret s) True;
              p' = (if uc_inviteSecret s \<noteq> [] then p\<lparr>up_secure := Some sd\<rparr> else p)
          in if uc_inviteSecret s \<noteq> [] \<and> \<not> sd_valid sd then (None, drawn s)
             else (Some (uc_nextId s), control e (uc_nextId s) 1
               ((drawn s)\<lparr>uc_nextId := uc_nextId s + 1, uc_peers := om_put (uc_nextId s) p' (uc_peers s)\<rparr>)))"

section \<open>Control messages\<close>

text \<open>A first message from an address makes a peer, if there is room.\<close>

definition admit_address :: "('k, 'i) uenv \<Rightarrow> sock_addr \<Rightarrow> u64 \<Rightarrow> ('k, 'i) uconn \<Rightarrow> u64 option \<times> ('k, 'i) uconn" where
  "admit_address e from token s =
     (if length (uc_peers s) \<ge> uc_capacity s then (None, s)
      else
        let i = uc_nextId s; session = draw_nonce e s;
            p = new_upeer\<lparr>up_address := from, up_nonce := token, up_session := session, up_started := ue_now e,
                  up_lastReceive := ue_now e\<rparr>;
            sd = set_session session (new_secure (ue_crypto e) (uc_inviteSecret s) False);
            p' = (if uc_inviteSecret s \<noteq> [] then p\<lparr>up_secure := Some sd\<rparr> else p);
            s' = (drawn s)\<lparr>uc_nextId := i + 1\<rparr>
        in if uc_inviteSecret s \<noteq> [] \<and> \<not> sd_valid sd then (None, s')
           else (Some i, s'\<lparr>uc_peers := om_put i p' (uc_peers s')\<rparr>))"

definition receive_hello :: "('k, 'i) uenv \<Rightarrow> sock_addr \<Rightarrow> u64 \<Rightarrow> u64 option \<Rightarrow> ('k, 'i) uconn \<Rightarrow> ('k, 'i) uconn" where
  "receive_hello e from token found s =
     (case (case found of Some i \<Rightarrow> (Some i, s) | None \<Rightarrow> admit_address e from token s) of
        (None, s') \<Rightarrow> s'
      | (Some i, s') \<Rightarrow>
          if up_nonce (peer_at s' i) = token \<and> ue_now e - up_lastControl (peer_at s' i) \<ge> 250
          then control e i 2 s' else s')"

definition receive_challenge :: "('k, 'i) uenv \<Rightarrow> u64 \<Rightarrow> u64 \<Rightarrow> ('k, 'i) uconn \<Rightarrow> ('k, 'i) uconn" where
  "receive_challenge e i session s =
     (let p = peer_at s i; first = (up_session p = 0) in
      if up_session p \<noteq> 0 \<and> up_session p \<noteq> session then s
      else
        let s1 = set_peer i (\<lambda>p. p\<lparr>up_session := session, up_lastReceive := ue_now e,
               up_secure := map_option (set_session session) (up_secure p)\<rparr>) s
        in if first \<or> ue_now e - up_lastControl p \<ge> 100 then control e i 3 s1 else s1)"

definition mark_accepted :: "u64 \<Rightarrow> ('k, 'i) uconn \<Rightarrow> ('k, 'i) uconn" where
  "mark_accepted i s = set_peer i (\<lambda>p. p\<lparr>up_accepted := True\<rparr>) (s\<lparr>uc_accepted := uc_accepted s @ [i]\<rparr>)"

definition receive_confirm :: "('k, 'i) uenv \<Rightarrow> u64 \<Rightarrow> ('k, 'i) uconn \<Rightarrow> ('k, 'i) uconn" where
  "receive_confirm e i s =
     (let first = (\<not> up_ready (peer_at s i)) in
      case make_ready e i s of
        (False, s1) \<Rightarrow> close_peer e i False s1
      | (True, s1) \<Rightarrow>
          let p = peer_at s1 i;
              s2 = (if peer_established p \<and> \<not> up_accepted p then mark_accepted i s1 else s1);
              s3 = set_peer i (\<lambda>p. p\<lparr>up_lastReceive := ue_now e\<rparr>) s2
          in if first \<or> ue_now e - up_lastControl p \<ge> 100 then control e i 4 s3 else s3)"

definition begin_secure :: "('k, 'i) uenv \<Rightarrow> u64 \<Rightarrow> ('k, 'i) uconn \<Rightarrow> bytes \<times> ('k, 'i) uconn" where
  "begin_secure e i s = (case up_secure (peer_at s i) of
     None \<Rightarrow> ([], s)
   | Some sd \<Rightarrow> (case sd_begin (ue_crypto e) (ue_entropy e (uc_draws s)) sd of
       (hello, sd') \<Rightarrow> (hello, drawn (set_peer i (\<lambda>p. p\<lparr>up_secure := Some sd'\<rparr>) s))))"

definition receive_accept :: "('k, 'i) uenv \<Rightarrow> u64 \<Rightarrow> ('k, 'i) uconn \<Rightarrow> ('k, 'i) uconn" where
  "receive_accept e i s =
     (case make_ready e i s of
        (False, s1) \<Rightarrow> close_peer e i False s1
      | (True, s1) \<Rightarrow>
          let s2 = set_peer i (\<lambda>p. p\<lparr>up_lastReceive := ue_now e\<rparr>) s1 in
          (case up_secure (peer_at s2 i) of
            None \<Rightarrow> s2
          | Some sd \<Rightarrow>
              if sd_retry sd \<noteq> [] \<or> established sd then s2
              else case begin_secure e i s2 of
                (hello, s3) \<Rightarrow>
                  if hello = [] then close_peer e i False s3
                  else set_peer i (\<lambda>p. p\<lparr>up_lastSecure := ue_now e\<rparr>) (snd (conn_send e i hello s3))))"

definition receive_control :: "('k, 'i) uenv \<Rightarrow> sock_addr \<Rightarrow> bytes \<Rightarrow> bool \<Rightarrow> ('k, 'i) uconn \<Rightarrow> ('k, 'i) uconn" where
  "receive_control e from bytes encrypted s =
     (if length bytes \<noteq> 21 then s
      else
        let type = bytes ! 4; token = get_le (subspan 5 8 bytes); session = get_le (subspan 13 8 bytes);
            found = find_address from s
        in if (case found of None \<Rightarrow> False
               | Some i \<Rightarrow> up_secure (peer_at s i) \<noteq> None \<and> peer_established (peer_at s i) \<and> \<not> encrypted) then s
           else if type = 1 \<and> uc_server s \<and> token \<noteq> 0 \<and> session = 0 then receive_hello e from token found s
           else case found of
             None \<Rightarrow> s
           | Some i \<Rightarrow>
               let p = peer_at s i in
               if up_nonce p \<noteq> token \<or> up_closed p then s
               else if type = 2 \<and> \<not> uc_server s \<and> \<not> up_ready p \<and> session \<noteq> 0 then receive_challenge e i session s
               else if session = 0 \<or> up_session p \<noteq> session then s
               else if type = 3 \<and> uc_server s then receive_confirm e i s
               else if type = 4 \<and> \<not> uc_server s then receive_accept e i s
               else if type = 5 \<and> up_ready p then set_peer i (\<lambda>p. p\<lparr>up_lastReceive := ue_now e\<rparr>) s
               else if type = 6 \<and> up_ready p then close_peer e i False s
               else s)"

definition receive_secure_handshake :: "('k, 'i) uenv \<Rightarrow> sock_addr \<Rightarrow> bytes \<Rightarrow> ('k, 'i) uconn \<Rightarrow> ('k, 'i) uconn" where
  "receive_secure_handshake e from bytes s =
     (case find_address from s of
        None \<Rightarrow> s
      | Some i \<Rightarrow>
          let p = peer_at s i in
          if up_closed p \<or> \<not> up_ready p then s
          else (case up_secure p of
            None \<Rightarrow> s
          | Some sd \<Rightarrow>
              (case handshake (ue_crypto e) (ue_entropy e (uc_draws s)) bytes sd of
                 (reply, sd') \<Rightarrow>
                   let s1 = drawn (set_peer i (\<lambda>p. p\<lparr>up_secure := Some sd'\<rparr>) s);
                       s2 = (if reply \<noteq> [] then set_peer i (\<lambda>p. p\<lparr>up_lastSecure := ue_now e\<rparr>) (snd (conn_send e i reply s1))
                             else s1)
                   in if \<not> established sd \<and> established sd' then
                        let s3 = set_peer i (\<lambda>p. p\<lparr>up_lastReceive := ue_now e\<rparr>) s2
                        in if uc_server s \<and> \<not> up_accepted p then mark_accepted i s3 else s3
                      else s2)))"

end
