(* ===== verification/Stun_Binding.thy ===== *)
theory Stun_Binding
  imports Interfaces Peer_Tunnel
begin

text \<open>
  The STUN responder of the relay, \<open>include/dusklight_online/net/stun_binding.hpp\<close>: which requests it
  answers and what the answer says.
\<close>

section \<open>The responder\<close>

definition stun_be :: "bytes \<Rightarrow> u32" where
  "stun_be bs = foldl (\<lambda>result b. push_bit 8 result OR ucast b) 0 bs"

definition crc_bit :: "u32 \<Rightarrow> u32" where
  "crc_bit crc = drop_bit 1 crc XOR (if crc AND 1 \<noteq> 0 then 0xEDB88320 else 0)"

definition stun_crc :: "bytes \<Rightarrow> u32" where
  "stun_crc bs = NOT (foldl (\<lambda>crc b. (crc_bit ^^ 8) (crc XOR ucast b)) 0xFFFFFFFF bs) XOR 0x5354554E"

definition is_stun_binding :: "bytes \<Rightarrow> bool" where
  "is_stun_binding bs \<longleftrightarrow> length bs \<ge> 20 \<and> length bs \<le> 512 \<and> bs ! 0 = 0 \<and> bs ! 1 = 1 \<and>
     stun_be (subspan 4 4 bs) = 0x2112A442 \<and> bs ! 3 AND 3 = 0 \<and> unat (stun_be (subspan 2 2 bs)) = length bs - 20"

definition padded_length :: "nat \<Rightarrow> nat" where
  "padded_length n = (n + 3) div 4 * 4"

text \<open>The loop over the attributes from an offset; the answer is refused at the first bad one.\<close>

function attributes_ok :: "bytes \<Rightarrow> nat \<Rightarrow> bool" where
  "attributes_ok request offset =
     (if offset \<ge> length request then True
      else if length request - offset < 4 then False
      else
        let type = stun_be (subspan offset 2 request);
            n = unat (stun_be (subspan (offset + 2) 2 request))
        in if padded_length n > length request - offset - 4 then False
           else if type < 0x8000 then False
           else if type = 0x8028 \<and> (n \<noteq> 4 \<or> offset + 8 \<noteq> length request \<or>
                   stun_be (subspan (offset + 4) 4 request) \<noteq> stun_crc (take offset request)) then False
           else attributes_ok request (offset + (4 + padded_length n)))"
  by pat_completeness auto
termination
  by (relation "measure (\<lambda>(request, offset). length request - offset)") auto

declare attributes_ok.simps [simp del]

definition u32_be :: "u32 \<Rightarrow> bytes" where
  "u32_be w = map (\<lambda>shift. ucast (drop_bit shift w)) [24, 16, 8, 0]"

definition response_head :: "bytes \<Rightarrow> u32 \<Rightarrow> u16 \<Rightarrow> bytes" where
  "response_head request ipv4 port =
     (let xport = port XOR 0x2112; xip = ipv4 XOR 0x2112A442 in
      [1, 1, 0, 20] @ drop 4 (take 20 request) @
      [0, 0x20, 0, 8, 0, 1, ucast (drop_bit 8 xport), ucast xport] @ u32_be xip)"

definition stun_binding_reply :: "bytes \<Rightarrow> u32 \<Rightarrow> u16 \<Rightarrow> bytes" where
  "stun_binding_reply request ipv4 port =
     (if \<not> is_stun_binding request then []
      else if \<not> attributes_ok request 20 then []
      else
        let response = response_head request ipv4 port
        in response @ [0x80, 0x28, 0, 4] @ u32_be (stun_crc response))"

section \<open>What a client reads\<close>

lemma u32_be_read [simp]: "stun_be (u32_be w) = w"
proof (rule bit_word_eqI)
  fix n
  assume "n < LENGTH(32)"
  then consider "n < 8" | "8 \<le> n" "n < 16" | "16 \<le> n" "n < 24" | "24 \<le> n" "n < 32" by fastforce
  then show "bit (stun_be (u32_be w)) n = bit w n"
    by cases (auto simp: stun_be_def u32_be_def bit_simps less_diff_conv2)
qed

lemma length_u32_be [simp]: "length (u32_be w) = 4"
  by (simp add: u32_be_def)

lemma length_response: "20 \<le> length request \<Longrightarrow> length (response_head request ipv4 port) = 32"
  by (simp add: response_head_def Let_def)

lemma read_u16: "ucast (stun_be [ucast (drop_bit 8 w), ucast w]) = (w :: u16)"
  unfolding stun_be_def
  by (rule bit_word_eqI) (auto simp: bit_simps not_less algebra_simps)

lemma reply_reads:
  assumes "stun_binding_reply request ipv4 port = reply" and "reply \<noteq> []"
  shows "is_stun_binding request \<and> length reply = 40 \<and> subspan 4 16 reply = subspan 4 16 request \<and>
    ucast (stun_be (subspan 26 2 reply)) = port XOR 0x2112 \<and> stun_be (subspan 28 4 reply) = ipv4 XOR 0x2112A442 \<and>
    stun_be (subspan 36 4 reply) = stun_crc (take 32 reply) \<and> \<not> is_stun_binding reply"
proof -
  let ?head = "response_head request ipv4 port"
  have ok: "is_stun_binding request" and reply: "reply = ?head @ [0x80, 0x28, 0, 4] @ u32_be (stun_crc ?head)"
    using assms by (auto simp: stun_binding_reply_def Let_def split: if_splits)
  then have "20 \<le> length request" by (simp add: is_stun_binding_def)
  note len = length_response [OF this, of ipv4 port]
  obtain mid where mid: "mid = drop 4 (take 20 request)" "length mid = 16" using \<open>20 \<le> length request\<close> by simp
  define xp where "xp = port XOR 0x2112"
  have head: "?head = [1, 1, 0, 20] @ mid @ [0, 0x20, 0, 8, 0, 1, ucast (drop_bit 8 xp), ucast xp] @
      u32_be (ipv4 XOR 0x2112A442)"
    by (simp add: response_head_def Let_def mid(1) xp_def)
  have span: "subspan 4 16 request = mid" by (simp add: subspan_def mid(1) drop_take)
  have "length reply = 40" using len by (simp add: reply)
  moreover have "subspan 4 16 reply = mid" by (simp add: reply head subspan_def mid(2))
  moreover have "subspan 26 2 reply = [ucast (drop_bit 8 xp), ucast xp]"
    by (simp add: reply head subspan_def mid(2))
  moreover have "subspan 28 4 reply = u32_be (ipv4 XOR 0x2112A442)"
    by (simp add: reply head subspan_def mid(2))
  moreover have "subspan 36 4 reply = u32_be (stun_crc ?head)" "take 32 reply = ?head"
    using len by (simp_all add: reply subspan_def)
  moreover have "\<not> is_stun_binding reply" by (simp add: is_stun_binding_def reply head)
  ultimately show ?thesis
    unfolding xp_def [symmetric] by (simp only: ok span read_u16 u32_be_read simp_thms)
qed

section \<open>The requests that are answered\<close>

text \<open>
  The rest of a request read as attributes: type, length and padded value each.  All must be optional to
  understand; a fingerprint comes last and verifies over everything before it.
\<close>

definition attribute_bytes :: "bytes \<times> bytes \<times> bytes \<Rightarrow> bytes" where
  "attribute_bytes a = (case a of (t, n, v) \<Rightarrow> t @ n @ v)"

lemma attribute_bytes_simp [simp]: "attribute_bytes (t, n, v) = t @ n @ v"
  by (simp add: attribute_bytes_def)

definition attribute_ok :: "bytes \<Rightarrow> bool \<Rightarrow> bytes \<times> bytes \<times> bytes \<Rightarrow> bool" where
  "attribute_ok request last_one a \<longleftrightarrow> (case a of (t, n, v) \<Rightarrow>
     length t = 2 \<and> length n = 2 \<and> length v = padded_length (unat (stun_be n)) \<and> stun_be t \<ge> 0x8000 \<and>
     (stun_be t = 0x8028 \<longrightarrow> unat (stun_be n) = 4 \<and> last_one \<and> stun_be v = stun_crc (take (length request - 8) request)))"

fun attribute_list_ok :: "bytes \<Rightarrow> (bytes \<times> bytes \<times> bytes) list \<Rightarrow> bool" where
  "attribute_list_ok request [] \<longleftrightarrow> True"
| "attribute_list_ok request (a # attributes) \<longleftrightarrow>
     attribute_ok request (attributes = []) a \<and> attribute_list_ok request attributes"

definition optional_attributes :: "bytes \<Rightarrow> nat \<Rightarrow> bool" where
  "optional_attributes request offset \<longleftrightarrow>
     (\<exists>attributes. drop offset request = concat (map attribute_bytes attributes) \<and> attribute_list_ok request attributes)"

lemma subspan_split: "drop offset bs = subspan offset n bs @ drop (offset + n) bs"
  by (simp add: subspan_def add.commute flip: drop_drop)

lemma padded_four: "padded_length 4 = 4"
  by (simp add: padded_length_def)

lemma attribute_nonempty: "attribute_ok request b a \<Longrightarrow> attribute_bytes a \<noteq> []"
  by (auto simp: attribute_ok_def attribute_bytes_def)

lemma attributes_read: "attributes_ok request offset \<Longrightarrow> optional_attributes request offset"
proof (induction request offset rule: attributes_ok.induct)
  case (1 request offset)
  show ?case
  proof (cases "offset \<ge> length request")
    case True
    then show ?thesis by (auto simp: optional_attributes_def intro!: exI [of _ "[]"])
  next
    case False
    define t n where "t = subspan offset 2 request" and "n = subspan (offset + 2) 2 request"
    define v where "v = subspan (offset + 4) (padded_length (unat (stun_be n))) request"
    let ?next = "offset + (4 + padded_length (unat (stun_be n)))"
    have r: "\<not> length request - offset < 4" "\<not> padded_length (unat (stun_be n)) > length request - offset - 4"
      "\<not> stun_be t < 0x8000" "stun_be t = 0x8028 \<longrightarrow> unat (stun_be n) = 4 \<and> offset + 8 = length request \<and>
         stun_be (subspan (offset + 4) 4 request) = stun_crc (take offset request)"
      "attributes_ok request ?next"
      using 1(2) False by (subst (asm) attributes_ok.simps; auto simp: Let_def t_def n_def split: if_splits)+
    have "optional_attributes request ?next"
      using 1(1) [OF False r(1) refl refl] r False by (auto simp: t_def n_def)
    then obtain rest where rest: "drop ?next request = concat (map attribute_bytes rest)" "attribute_list_ok request rest"
      by (auto simp: optional_attributes_def)
    have four: "offset + 2 + 2 = offset + 4" "offset + 4 + k = offset + (4 + k)" for k by simp_all
    have "drop offset request = t @ drop (offset + 2) request" unfolding t_def by (rule subspan_split)
    also have "drop (offset + 2) request = n @ drop (offset + 2 + 2) request" unfolding n_def by (rule subspan_split)
    also have "drop (offset + 2 + 2) request = v @ drop ?next request"
      unfolding v_def four by (subst four(2) [symmetric]) (rule subspan_split)
    finally have split: "drop offset request = t @ n @ v @ drop ?next request" .
    have len: "length t = 2" "length n = 2" "length v = padded_length (unat (stun_be n))"
      using r(1,2) by (simp_all add: t_def n_def v_def)
    have last: "rest = []" if "stun_be t = 0x8028"
    proof (rule ccontr)
      assume "rest \<noteq> []"
      then obtain a as where "rest = a # as" by (cases rest) auto
      then show False
        using rest r(4) that attribute_nonempty [of request "as = []" a] by (simp add: padded_four)
    qed
    have end8: "length request - 8 = offset" if "stun_be t = 0x8028"
      using r(4) that by (metis add_diff_cancel_right')
    have "attribute_ok request (rest = []) (t, n, v)"
      using len r(3,4) last by (auto simp: attribute_ok_def v_def padded_four not_less end8)
    then show ?thesis
      unfolding optional_attributes_def
      using rest split by (intro exI [of _ "(t, n, v) # rest"]) simp
  qed
qed

lemma attributes_accepted:
  "drop offset request = concat (map attribute_bytes attributes) \<Longrightarrow> attribute_list_ok request attributes \<Longrightarrow>
   attributes_ok request offset"
proof (induction attributes arbitrary: offset)
  case Nil
  then show ?case by (subst attributes_ok.simps) simp
next
  case (Cons a attributes)
  obtain t n v where a: "a = (t, n, v)" by (cases a)
  have ok: "length t = 2" "length n = 2" "length v = padded_length (unat (stun_be n))" "stun_be t \<ge> 0x8000"
    "stun_be t = 0x8028 \<longrightarrow> unat (stun_be n) = 4 \<and> attributes = [] \<and> stun_be v = stun_crc (take (length request - 8) request)"
    using Cons.prems(2) by (simp_all add: attribute_ok_def a)
  have d: "drop offset request = t @ n @ v @ concat (map attribute_bytes attributes)"
    using Cons.prems(1) by (simp add: a)
  have d2: "drop (offset + 2) request = n @ v @ concat (map attribute_bytes attributes)"
    using arg_cong [OF d, of "drop 2"] ok(1) by (simp add: add.commute)
  have d4: "drop (offset + 4) request = v @ concat (map attribute_bytes attributes)"
    using arg_cong [OF d, of "drop 4"] ok(1,2) by (simp add: add.commute)
  let ?next = "offset + (4 + padded_length (unat (stun_be n)))"
  have rest: "drop ?next request = concat (map attribute_bytes attributes)"
    using arg_cong [OF d4, of "drop (length v)"] ok(3) by (simp add: ac_simps)
  have read: "subspan offset 2 request = t" "subspan (offset + 2) 2 request = n"
    "subspan (offset + 4) (padded_length (unat (stun_be n))) request = v"
    unfolding subspan_def d d2 d4 using ok(1-3) by simp_all
  have size: "length request - offset = 4 + length v + length (concat (map attribute_bytes attributes))"
    using arg_cong [OF d, of length] ok(1,2) by simp
  have end8: "length request - 8 = offset" if "stun_be t = 0x8028"
    using ok(3,5) size that by (auto simp: padded_four)
  have fp: "stun_be t = 0x8028 \<longrightarrow> unat (stun_be n) = 4 \<and> offset + 8 = length request \<and>
      stun_be (subspan (offset + 4) 4 request) = stun_crc (take offset request)"
    using ok(3,5) read(3) size by (auto simp: padded_four end8)
  have "attributes_ok request ?next" using Cons.IH [OF rest] Cons.prems(2) by simp
  then show ?case
    using size ok(3,4) read(1,2) fp by (subst attributes_ok.simps) (auto simp: Let_def not_less)
qed

lemma attributes_exactly: "attributes_ok request offset \<longleftrightarrow> optional_attributes request offset"
  using attributes_read attributes_accepted by (auto simp: optional_attributes_def)

text \<open>
  C26: a datagram is answered exactly when it is a binding request whose attributes are all optional, cut
  to their lengths, and whose fingerprint, if any, is the last and verifies.  The answer has forty bytes,
  repeats the cookie and the transaction of the request, its mapped address is the address the request
  came from, its fingerprint verifies, and it is no request itself, so two responders never answer each
  other.
\<close>

theorem stun_reply_reflects:
  assumes "stun_binding_reply request ipv4 port = reply"
  shows "(reply \<noteq> [] \<longleftrightarrow> is_stun_binding request \<and> optional_attributes request 20) \<and>
    (reply \<noteq> [] \<longrightarrow> length reply = 40 \<and> subspan 4 16 reply = subspan 4 16 request \<and>
    ucast (stun_be (subspan 26 2 reply)) = port XOR 0x2112 \<and> stun_be (subspan 28 4 reply) = ipv4 XOR 0x2112A442 \<and>
    stun_be (subspan 36 4 reply) = stun_crc (take 32 reply) \<and> \<not> is_stun_binding reply)"
proof (rule conjI)
  show "reply \<noteq> [] \<longleftrightarrow> is_stun_binding request \<and> optional_attributes request 20"
    unfolding assms [symmetric] stun_binding_reply_def attributes_exactly [symmetric] by (simp add: Let_def)
  show "reply \<noteq> [] \<longrightarrow> length reply = 40 \<and> subspan 4 16 reply = subspan 4 16 request \<and>
    ucast (stun_be (subspan 26 2 reply)) = port XOR 0x2112 \<and> stun_be (subspan 28 4 reply) = ipv4 XOR 0x2112A442 \<and>
    stun_be (subspan 36 4 reply) = stun_crc (take 32 reply) \<and> \<not> is_stun_binding reply"
    using reply_reads [OF assms] by simp
qed

definition ex_request :: bytes where
  "ex_request = [0, 1, 0, 8, 0x21, 0x12, 0xA4, 0x42] @ replicate 12 7 @ [0x80, 0x22, 0, 3, 65, 66, 67, 0]"

text \<open>One attribute, a name of the software, of which one byte is padding.\<close>

lemma stun_reply_reflects_witness:
  "length (stun_binding_reply ex_request 0x7F000001 34197) = 40 \<and>
   stun_be (subspan 28 4 (stun_binding_reply ex_request 0x7F000001 34197)) = 0x7F000001 XOR 0x2112A442"
proof -
  have "is_stun_binding ex_request" by (simp add: is_stun_binding_def ex_request_def stun_be_def subspan_def)
  moreover have "optional_attributes ex_request 20"
    unfolding optional_attributes_def
    by (rule exI [of _ "[([0x80, 0x22], [0, 3], [65, 66, 67, 0])]"])
       (simp add: ex_request_def attribute_bytes_def attribute_ok_def stun_be_def padded_length_def)
  ultimately have "stun_binding_reply ex_request 0x7F000001 34197 \<noteq> []"
    using stun_reply_reflects [OF refl, of ex_request "0x7F000001" 34197] by blast
  then show ?thesis using stun_reply_reflects [OF refl, of ex_request "0x7F000001" 34197] by blast
qed

end
