(* ===== verification/Udp_Poll.thy ===== *)
theory Udp_Poll
  imports Udp_Connection Stun_Binding
begin

text \<open>
  One turn of the connection layer, \<open>UdpConnection::poll\<close> of \<open>src/net/udp_connection.cpp\<close>: the datagrams
  the socket holds, the peers reached over ICE, the reliable messages, and the timeouts of sessions.
\<close>

section \<open>Peers over ICE\<close>

definition set_reliable :: "'k reliable \<Rightarrow> ('k, 'i) uconn \<Rightarrow> ('k, 'i) uconn" where
  "set_reliable ru s = s\<lparr>uc_reliable := ru\<rparr>"

text \<open>The sender a realtime packet claims, bound to the peer it came from.\<close>

definition claimed_sender :: "bytes \<Rightarrow> string" where
  "claimed_sender bytes = bytes_str (takeWhile (\<lambda>b. b \<noteq> 0) (subspan 26 32 bytes))"

definition mesh_input :: "('k, 'i) uenv \<Rightarrow> u64 \<Rightarrow> bytes \<Rightarrow> ('k, 'i) uconn \<Rightarrow> ('k, 'i) uconn" where
  "mesh_input e i bytes s =
     (let p = peer_at s i in
      if up_meshReliable p \<and> datagram_kind bytes = datagram_kind.Reliable then
        set_reliable (snd (ru_input (ue_kcp e) i bytes (uc_reliable s))) s
      else if length bytes \<ge> 58 \<and> take 4 bytes = udp_magic then
        (if peer_number (claimed_sender bytes) \<noteq> up_logical p \<or> length (uc_meshRealtime s) \<ge> 512 then s
         else s\<lparr>uc_meshRealtime := uc_meshRealtime s @ [(claimed_sender bytes, bytes)]\<rparr>)
      else s)"

definition ice_connected :: "('k, 'i) uenv \<Rightarrow> 'i upeer \<Rightarrow> bool" where
  "ice_connected e p \<longleftrightarrow> (case up_ice p of None \<Rightarrow> False | Some ice \<Rightarrow> ic_connected (ue_ice e) ice)"

definition new_ice :: "('k, 'i) uenv \<Rightarrow> ('k, 'i) uconn \<Rightarrow> 'i" where
  "new_ice e s = ic_new (ue_ice e) (uc_stunHost s) (uc_stunPort s) (uc_draws s)"

text \<open>The side with the smaller number starts a new agent when the old one has no path for too long.\<close>

definition renew_ice :: "('k, 'i) uenv \<Rightarrow> ('k, 'i) uconn \<Rightarrow> 'i upeer \<Rightarrow> 'i upeer" where
  "renew_ice e s p =
     (if uc_localLogical s < up_logical p \<and> \<not> direct_path e p \<and> sint (ue_now e - up_retryAt p) \<ge> 0 then
        let delay = min 120000 (up_retryDelay p * 2)
        in p\<lparr>up_ice := Some (new_ice e s), up_iceGeneration := up_iceGeneration p + 1, up_hasEcho := False,
             up_lastIceChange := ue_now e, up_retryDelay := delay, up_retryAt := ue_now e + delay\<rparr>
      else p)"

definition rest_retry :: "('k, 'i) uenv \<Rightarrow> 'i upeer \<Rightarrow> 'i upeer" where
  "rest_retry e p = (if direct_path e p then p\<lparr>up_retryDelay := 30000, up_retryAt := ue_now e + 30000\<rparr> else p)"

definition ice_handshake :: "('k, 'i) uenv \<Rightarrow> ('k, 'i) uconn \<Rightarrow> 'i upeer \<Rightarrow> 'i upeer" where
  "ice_handshake e s p =
     (case up_secure p of
        None \<Rightarrow> p
      | Some sd \<Rightarrow>
          if \<not> ice_connected e p \<or> established sd then p
          else if uc_localLogical s < up_logical p \<and> sd_retry sd = [] then
            (case sd_begin (ue_crypto e) (ue_entropy e (uc_draws s)) sd of
               (hello, sd') \<Rightarrow>
                 let p' = p\<lparr>up_secure := Some sd'\<rparr>
                 in (if hello \<noteq> [] then snd (ice_send e hello p') else p')\<lparr>up_lastSecure := ue_now e\<rparr>)
          else if sd_retry sd \<noteq> [] \<and> ue_now e - up_lastSecure p \<ge> 500 then
            (snd (ice_send e (sd_retry sd) p))\<lparr>up_lastSecure := ue_now e\<rparr>
          else p)"

definition dpi :: bytes where "dpi = str_bytes ''DPI1''"

definition ice_probe :: "('k, 'i) uenv \<Rightarrow> 'i upeer \<Rightarrow> 'i upeer" where
  "ice_probe e p =
     (if ice_connected e p \<and> ue_now e - up_lastProbe p \<ge> 250 then
        (case ice_send e (dpi @ [1] @ put_le (ucast (ue_now e)) 8) p of
           (good, p') \<Rightarrow>
             (if good then p'\<lparr>up_probeSends := up_probeSends p' + 1\<rparr>
              else p'\<lparr>up_probeSendFailures := up_probeSendFailures p' + 1\<rparr>)\<lparr>up_lastProbe := ue_now e\<rparr>)
      else p)"

text \<open>A probe is answered; an answer that is recent enough measures the path.\<close>

definition answer_probe :: "('k, 'i) uenv \<Rightarrow> bytes \<Rightarrow> 'i upeer \<Rightarrow> 'i upeer" where
  "answer_probe e bytes p =
     (if bytes ! 4 = 1 then
        snd (ice_send e (bytes[4 := 2]) (p\<lparr>up_probeRequests := up_probeRequests p + 1\<rparr>))
      else if bytes ! 4 = 2 then
        (let echoed = get_le (subspan 5 8 bytes); rtt = ue_now e - ucast echoed in
         if echoed \<le> 0xFFFFFFFF \<and> rtt < 3000
         then p\<lparr>up_probeReplies := up_probeReplies p + 1, up_probeRtt := rtt, up_hasEcho := True, up_lastEcho := ue_now e\<rparr>
         else p)
      else p)"

definition ice_payload :: "('k, 'i) uenv \<Rightarrow> u64 \<Rightarrow> bytes \<Rightarrow> ('k, 'i) uconn \<Rightarrow> ('k, 'i) uconn" where
  "ice_payload e i bytes s =
     mesh_input e i bytes
       (set_peer i (\<lambda>p. p\<lparr>up_lastPayloadPacket := ue_now e, up_payloadPackets := up_payloadPackets p + 1\<rparr>) s)"

definition ice_packet :: "('k, 'i) uenv \<Rightarrow> u64 \<Rightarrow> bytes \<Rightarrow> ('k, 'i) uconn \<Rightarrow> ('k, 'i) uconn" where
  "ice_packet e i bytes s0 =
     (let s = set_peer i (\<lambda>p. p\<lparr>up_lastIcePacket := ue_now e\<rparr>) s0; p = peer_at s i in
      if length bytes = 13 \<and> take 4 bytes = dpi then set_peer i (answer_probe e bytes) s
      else case up_secure p of
        None \<Rightarrow> ice_payload e i bytes s
      | Some sd \<Rightarrow>
          if length bytes \<ge> 5 \<and> take 4 bytes = dsh_magic then
            (case handshake (ue_crypto e) (ue_entropy e (uc_draws s)) bytes sd of
               (reply, sd') \<Rightarrow>
                 drawn (set_peer i (\<lambda>p. let p' = p\<lparr>up_secure := Some sd'\<rparr>
                   in if reply \<noteq> [] then snd (ice_send e reply p') else p') s))
          else (case open_sealed (ue_crypto e) bytes sd of
            (plaintext, sd') \<Rightarrow>
              let s' = set_peer i (\<lambda>p. p\<lparr>up_secure := Some sd'\<rparr>) s
              in (case plaintext of None \<Rightarrow> s' | Some plain \<Rightarrow> ice_payload e i plain s')))"

text \<open>At most 512 packets of one agent in a turn.\<close>

fun ice_packets :: "('k, 'i) uenv \<Rightarrow> u64 \<Rightarrow> nat \<Rightarrow> ('k, 'i) uconn \<Rightarrow> ('k, 'i) uconn" where
  "ice_packets e i 0 s = s"
| "ice_packets e i (Suc n) s =
     (case up_ice (peer_at s i) of
        None \<Rightarrow> s
      | Some ice \<Rightarrow>
          (case ic_pop (ue_ice e) ice of
             (popped, ice') \<Rightarrow>
               let s' = set_peer i (\<lambda>p. p\<lparr>up_ice := Some ice'\<rparr>) s
               in (case popped of None \<Rightarrow> s' | Some bytes \<Rightarrow> ice_packets e i n (ice_packet e i bytes s'))))"

definition pump_peer :: "('k, 'i) uenv \<Rightarrow> u64 \<Rightarrow> ('k, 'i) uconn \<Rightarrow> ('k, 'i) uconn" where
  "pump_peer e i s =
     (let p = peer_at s i in
      if up_logical p = 0 \<or> up_closed p \<or> up_ice p = None then s
      else ice_packets e i 512
        (drawn (set_peer i (\<lambda>p. ice_probe e (ice_handshake e s (rest_retry e (renew_ice e s p)))) s)))"

definition pump_mesh :: "('k, 'i) uenv \<Rightarrow> ('k, 'i) uconn \<Rightarrow> ('k, 'i) uconn" where
  "pump_mesh e s = fold (pump_peer e) (map fst (uc_peers s)) s"

section \<open>Datagrams\<close>

text \<open>Address discovery: a limit for all requests and one for the sources that share a hash.\<close>

definition stun_key :: "u32 \<Rightarrow> nat" where
  "stun_key ipv4 =
     (let k1 = ipv4 XOR drop_bit 16 ipv4; k2 = k1 * 0x7FEB352D; k3 = k2 XOR drop_bit 15 k2 in unat k3 mod 256)"

definition stun_answer :: "('k, 'i) uenv \<Rightarrow> sock_addr \<Rightarrow> bytes \<Rightarrow> ('k, 'i) uconn \<Rightarrow> ('k, 'i) uconn" where
  "stun_answer e from packet s =
     (let now = ue_now e; key = stun_key (fst from);
          s1 = (if now - uc_stunWindow s \<ge> 1000 then s\<lparr>uc_stunWindow := now, uc_stunCount := 0\<rparr> else s);
          (window, count) = (let r = uc_stunRates s1 ! key in if now - fst r \<ge> 1000 then (now, 0) else r);
          s2 = s1\<lparr>uc_stunRates := (uc_stunRates s1)[key := (window, count)]\<rparr>
      in if uc_stunCount s2 \<ge> 1024 \<or> count \<ge> 64 then s2
         else
           let s3 = s2\<lparr>uc_stunCount := uc_stunCount s2 + 1, uc_stunRates := (uc_stunRates s2)[key := (window, count + 1)]\<rparr>;
               reply = stun_binding_reply packet (fst from) (snd from)
           in if reply \<noteq> [] then snd (to_socket e from reply s3) else s3)"

definition push_realtime :: "sock_addr \<Rightarrow> bytes \<Rightarrow> u64 option \<Rightarrow> ('k, 'i) uconn \<Rightarrow> ('k, 'i) uconn" where
  "push_realtime from packet authenticated s =
     (if length (uc_realtime s) < 512
      then s\<lparr>uc_realtime := uc_realtime s @ [\<lparr>rw_address = from, rw_bytes = packet, rw_authenticatedPeer = authenticated\<rparr>]\<rparr>
      else s)"

definition session_owner :: "u64 \<Rightarrow> ('k, 'i) uconn \<Rightarrow> (u64 \<times> 'i upeer) option" where
  "session_owner session s =
     find (\<lambda>(i, p). up_logical p = 0 \<and> \<not> up_closed p \<and> up_session p = session \<and> up_secure p \<noteq> None \<and> peer_established p)
       (uc_peers s)"

text \<open>
  With a secret, what is not the start of a session must open under the key of one.  The result is the
  plain packet, whether it was encrypted, and the peer whose key opened it.
\<close>

definition decrypt :: "('k, 'i) uenv \<Rightarrow> sock_addr \<Rightarrow> bytes \<Rightarrow> ('k, 'i) uconn \<Rightarrow> (bytes \<times> bool \<times> u64 option) option \<times> ('k, 'i) uconn" where
  "decrypt e from packet s =
     (if uc_inviteSecret s = [] then (Some (packet, False, None), s)
      else if length packet \<ge> 36 \<and> take 4 packet = dse then
        (case session_owner (get_le (subspan 4 8 packet)) s of
           None \<Rightarrow> (None, s)
         | Some (i, p) \<Rightarrow>
             (case up_secure p of
                None \<Rightarrow> (None, s)
              | Some sd \<Rightarrow>
                  (case open_sealed (ue_crypto e) packet sd of
                     (plaintext, sd') \<Rightarrow>
                       let s' = set_peer i (\<lambda>p. p\<lparr>up_secure := Some sd'\<rparr>) s
                       in (case plaintext of
                             None \<Rightarrow> (None, s')
                           | Some plain \<Rightarrow>
                               if from \<noteq> up_address p \<and> take 4 plain = reliable_magic then (None, s')
                               else (Some (plain, True, Some i), s')))))
      else if take 4 packet \<noteq> duc \<and> take 4 packet \<noteq> dsh_magic then (None, s)
      else (Some (packet, False, None), s))"

text \<open>An envelope from the relay, for this player and from one it knows.\<close>

definition from_relay :: "('k, 'i) uenv \<Rightarrow> sock_addr \<Rightarrow> bytes \<Rightarrow> ('k, 'i) uconn \<Rightarrow> ('k, 'i) uconn" where
  "from_relay e from packet s =
     (case uc_relayId s of
        None \<Rightarrow> s
      | Some rid \<Rightarrow>
          (case map_of (uc_peers s) rid of
             None \<Rightarrow> s
           | Some relay \<Rightarrow>
               if up_closed relay \<or> from \<noteq> up_address relay \<or> tunnel_read (subspan 12 8 packet) \<noteq> uc_localLogical s then s
               else (case logical_peer (tunnel_read (subspan 4 8 packet)) s of
                 None \<Rightarrow> s
               | Some i \<Rightarrow> mesh_input e i (drop 20 packet) s)))"

definition to_session :: "('k, 'i) uenv \<Rightarrow> sock_addr \<Rightarrow> bytes \<Rightarrow> ('k, 'i) uconn \<Rightarrow> ('k, 'i) uconn" where
  "to_session e from packet s =
     (case find_address from s of
        None \<Rightarrow> s
      | Some i \<Rightarrow>
          if \<not> up_ready (peer_at s i) then s
          else (case dispatch_datagram (ue_kcp e) i packet (\<lambda>_ _ ru. (length (uc_realtime s) < 512, ru)) (uc_reliable s) of
            (taken, ru) \<Rightarrow>
              let s1 = set_reliable ru s;
                  s2 = (if datagram_kind packet = datagram_kind.Realtime then push_realtime from packet (Some i) s1 else s1)
              in if taken then set_peer i (\<lambda>p. p\<lparr>up_lastReceive := ue_now e\<rparr>) s2 else s2))"

definition demultiplex ::
  "('k, 'i) uenv \<Rightarrow> sock_addr \<Rightarrow> bytes \<Rightarrow> bool \<Rightarrow> u64 option \<Rightarrow> ('k, 'i) uconn \<Rightarrow> ('k, 'i) uconn" where
  "demultiplex e from packet encrypted authenticated s =
     (if peer_group_header packet \<noteq> 0 then (if uc_server s then push_realtime from packet authenticated s else s)
      else if is_peer_tunnel packet then
        (if uc_server s then push_realtime from packet authenticated s else from_relay e from packet s)
      else if take 4 packet = duc then receive_control e from packet encrypted s
      else if \<not> encrypted \<and> take 4 packet = dsh_magic then receive_secure_handshake e from packet s
      else if datagram_kind packet = datagram_kind.Realtime then push_realtime from packet authenticated s
      else to_session e from packet s)"

definition receive_one :: "('k, 'i) uenv \<Rightarrow> sock_addr \<times> bytes \<Rightarrow> ('k, 'i) uconn \<Rightarrow> ('k, 'i) uconn" where
  "receive_one e datagram s =
     (case datagram of
        (from, packet) \<Rightarrow>
          if uc_stun s \<and> is_stun_binding packet then stun_answer e from packet s
          else (case decrypt e from packet s of
            (None, s') \<Rightarrow> s'
          | (Some (plain, encrypted, authenticated), s') \<Rightarrow> demultiplex e from plain encrypted authenticated s'))"

section \<open>Messages and timeouts\<close>

definition take_message :: "('k, 'i) uenv \<Rightarrow> rmessage \<Rightarrow> ('k, 'i) uconn \<Rightarrow> ('k, 'i) uconn" where
  "take_message e m s =
     (case map_of (uc_peers s) (rg_peer m) of
        None \<Rightarrow> s
      | Some p \<Rightarrow>
          if up_closed p then s
          else if length (up_rx p) + length (rg_bytes m) > maxBufferedBytes then close_peer e (rg_peer m) True s
          else set_peer (rg_peer m) (\<lambda>p. p\<lparr>up_rx := up_rx p @ rg_bytes m\<rparr>) s)"

text \<open>The fuel is the number of messages waiting; taking one never adds any.\<close>

fun take_messages :: "('k, 'i) uenv \<Rightarrow> nat \<Rightarrow> ('k, 'i) uconn \<Rightarrow> ('k, 'i) uconn" where
  "take_messages e 0 s = s"
| "take_messages e (Suc n) s =
     (case ru_pop (uc_reliable s) of
        (None, _) \<Rightarrow> s
      | (Some m, ru) \<Rightarrow> take_messages e n (take_message e m (set_reliable ru s)))"

definition timed_out :: "('k, 'i) uenv \<Rightarrow> u64 \<Rightarrow> ('k, 'i) uconn \<Rightarrow> bool" where
  "timed_out e i s \<longleftrightarrow>
     (let p = peer_at s i in
      \<not> up_closed p \<and>
      (up_ready p \<and> (peer_failed i (uc_reliable s) \<or> ue_now e - up_lastReceive p \<ge> 15000 \<or>
         \<not> peer_established p \<and> ue_now e - up_started p \<ge> 5000) \<or>
       \<not> up_ready p \<and> ue_now e - up_started p \<ge> 10000))"

definition keep_alive :: "('k, 'i) uenv \<Rightarrow> u64 \<Rightarrow> ('k, 'i) uconn \<Rightarrow> ('k, 'i) uconn" where
  "keep_alive e i s =
     (let p = peer_at s i in
      if \<not> up_closed p \<and> ue_now e - up_lastControl p \<ge> (if up_ready p then 1000 else 500)
      then control e i (if up_ready p then 5 else if uc_server s then 2 else if up_session p \<noteq> 0 then 3 else 1) s
      else s)"

definition repeat_handshake :: "('k, 'i) uenv \<Rightarrow> u64 \<Rightarrow> ('k, 'i) uconn \<Rightarrow> ('k, 'i) uconn" where
  "repeat_handshake e i s =
     (let p = peer_at s i in
      case up_secure p of
        None \<Rightarrow> s
      | Some sd \<Rightarrow>
          if \<not> up_closed p \<and> up_ready p \<and> \<not> established sd \<and> sd_retry sd \<noteq> [] \<and> ue_now e - up_lastSecure p \<ge> 500
          then set_peer i (\<lambda>p. p\<lparr>up_lastSecure := ue_now e\<rparr>) (snd (conn_send e i (sd_retry sd) s))
          else s)"

definition sweep_peer :: "('k, 'i) uenv \<Rightarrow> u64 \<Rightarrow> ('k, 'i) uconn \<Rightarrow> ('k, 'i) uconn" where
  "sweep_peer e i s =
     (let p = peer_at s i in
      if up_logical p \<noteq> 0 then
        (if \<not> up_closed p \<and> up_meshReliable p \<and> peer_failed i (uc_reliable s) then close_peer e i False s else s)
      else
        let s1 = (if timed_out e i s then close_peer e i True s else s); p1 = peer_at s1 i in
        if up_closed p1 \<and> uc_server s1 \<and> \<not> up_accepted p1 then s1\<lparr>uc_peers := om_erase i (uc_peers s1)\<rparr>
        else repeat_handshake e i (keep_alive e i s1))"

definition sweep :: "('k, 'i) uenv \<Rightarrow> ('k, 'i) uconn \<Rightarrow> ('k, 'i) uconn" where
  "sweep e s = fold (sweep_peer e) (map fst (uc_peers s)) s"

text \<open>
  A turn with the datagrams that wait at the socket: at most 512 are read, each cut at 2049 bytes.
  Nothing is returned when the reading of KCP does not end.
\<close>

definition conn_poll :: "('k, 'i) uenv \<Rightarrow> (sock_addr \<times> bytes) list \<Rightarrow> ('k, 'i) uconn \<Rightarrow> ('k, 'i) uconn option" where
  "conn_poll e datagrams s =
     (if \<not> uc_open s then Some s
      else
        let s1 = pump_mesh e (fold (receive_one e) (map (\<lambda>(from, bytes). (from, take 2049 bytes)) (take 512 datagrams)) s)
        in map_option (\<lambda>s2. budget_update e (sweep e
               (take_messages e (length (ib_messages (ru_inbox (uc_reliable s2)))) s2)))
             (reliable_update e s1))"

end
