(* ===== verification/Udp_Mesh.thy ===== *)
theory Udp_Mesh
  imports Udp_Poll
begin

text \<open>
  What the transport calls on the connection layer, the public operations of \<open>UdpConnection\<close> in
  \<open>src/net/udp_connection.cpp\<close>: sessions, realtime packets, and the mesh of players behind a relay
  or in a cloud room.
\<close>

section \<open>Sessions\<close>

fun accept_loop :: "(u64, 'i upeer) omap \<Rightarrow> u64 list \<Rightarrow> (u64 \<times> sock_addr) option \<times> u64 list" where
  "accept_loop peers [] = (None, [])"
| "accept_loop peers (i # queue) =
     (case map_of peers i of
        None \<Rightarrow> accept_loop peers queue
      | Some p \<Rightarrow> if up_closed p then accept_loop peers queue else (Some (i, up_address p), queue))"

definition conn_accept :: "('k, 'i) uconn \<Rightarrow> (u64 \<times> sock_addr) option \<times> ('k, 'i) uconn" where
  "conn_accept s = (case accept_loop (uc_peers s) (uc_accepted s) of
     (found, queue) \<Rightarrow> (found, s\<lparr>uc_accepted := queue\<rparr>))"

definition conn_disconnect :: "('k, 'i) uenv \<Rightarrow> u64 \<Rightarrow> ('k, 'i) uconn \<Rightarrow> ('k, 'i) uconn" where
  "conn_disconnect e i s = (let s' = close_peer e i True s in s'\<lparr>uc_peers := om_erase i (uc_peers s')\<rparr>)"

definition conn_alive :: "u64 \<Rightarrow> ('k, 'i) uconn \<Rightarrow> bool" where
  "conn_alive i s \<longleftrightarrow> (case map_of (uc_peers s) i of None \<Rightarrow> False | Some p \<Rightarrow> \<not> up_closed p)"

definition conn_connected :: "u64 \<Rightarrow> ('k, 'i) uconn \<Rightarrow> bool" where
  "conn_connected i s \<longleftrightarrow> (case map_of (uc_peers s) i of None \<Rightarrow> False
     | Some p \<Rightarrow> up_ready p \<and> \<not> up_closed p \<and> peer_established p)"

definition conn_drained :: "('k, 'i) uenv \<Rightarrow> u64 \<Rightarrow> ('k, 'i) uconn \<Rightarrow> bool" where
  "conn_drained e i s \<longleftrightarrow> drained (ue_kcp e) i (uc_reliable s)"

definition send_message :: "('k, 'i) uenv \<Rightarrow> u64 \<Rightarrow> bytes \<Rightarrow> ('k, 'i) uconn \<Rightarrow> bool \<times> ('k, 'i) uconn" where
  "send_message e i bytes s = (case ru_send (ue_kcp e) i bytes 0 (uc_reliable s) of
     (good, ru) \<Rightarrow> (good, set_reliable ru s))"

text \<open>The number of bytes read, minus one when there are none yet, and the bytes.\<close>

definition receive_bytes :: "u64 \<Rightarrow> nat \<Rightarrow> ('k, 'i) uconn \<Rightarrow> (int \<times> bytes) \<times> ('k, 'i) uconn" where
  "receive_bytes i limit s =
     (case map_of (uc_peers s) i of
        None \<Rightarrow> ((0, []), s)
      | Some p \<Rightarrow>
          if up_rx p = [] then ((if up_closed p then 0 else - 1, []), s)
          else let count = min limit (length (up_rx p)) in
            ((int count, take count (up_rx p)), set_peer i (\<lambda>p. p\<lparr>up_rx := drop count (up_rx p)\<rparr>) s))"

section \<open>Realtime packets\<close>

definition realtime_destination :: "'i upeer \<Rightarrow> sock_addr" where
  "realtime_destination p = (if snd (up_realtimeAddress p) \<noteq> 0 then up_realtimeAddress p else up_address p)"

definition send_realtime :: "('k, 'i) uenv \<Rightarrow> sock_addr \<Rightarrow> bytes \<Rightarrow> ('k, 'i) uconn \<Rightarrow> bool \<times> ('k, 'i) uconn" where
  "send_realtime e address bytes s =
     (case find (\<lambda>(i, p). \<not> up_closed p \<and> address = realtime_destination p) (uc_peers s) of
        None \<Rightarrow> (False, s)
      | Some (i, p) \<Rightarrow>
          if \<not> up_ready p then (False, s)
          else (case budget_send i bytes s of (good, s') \<Rightarrow> (good, budget_update e s')))"

definition bind_realtime :: "u64 \<Rightarrow> sock_addr \<Rightarrow> ('k, 'i) uconn \<Rightarrow> bool \<times> ('k, 'i) uconn" where
  "bind_realtime i address s =
     (case map_of (uc_peers s) i of
        None \<Rightarrow> (False, s)
      | Some p \<Rightarrow>
          if up_closed p \<or> \<not> up_ready p \<or> snd address = 0 then (False, s)
          else (True, set_peer i (\<lambda>p. p\<lparr>up_realtimeAddress := address\<rparr>) s))"

text \<open>When nothing waits, one turn is taken first; the packet is cut to the size of the buffer.\<close>

definition receive_realtime ::
  "('k, 'i) uenv \<Rightarrow> (sock_addr \<times> bytes) list \<Rightarrow> nat \<Rightarrow> ('k, 'i) uconn \<Rightarrow> (raw_packet option \<times> ('k, 'i) uconn) option" where
  "receive_realtime e datagrams limit s =
     map_option (\<lambda>s'. case uc_realtime s' of
         [] \<Rightarrow> (None, s')
       | packet # rest \<Rightarrow> (Some (packet\<lparr>rw_bytes := take limit (rw_bytes packet)\<rparr>), s'\<lparr>uc_realtime := rest\<rparr>))
       (if uc_realtime s = [] then conn_poll e datagrams s else Some s)"

section \<open>The mesh\<close>

definition set_mesh_secret :: "string \<Rightarrow> ('k, 'i) uconn \<Rightarrow> bool \<times> ('k, 'i) uconn" where
  "set_mesh_secret secret s =
     (if length secret < 16 \<or> uc_localLogical s \<noteq> 0 \<or> list_ex (\<lambda>(i, p). up_logical p \<noteq> 0) (uc_peers s) then (False, s)
      else (True, s\<lparr>uc_meshSecret := secret\<rparr>))"

definition mesh_open :: "string \<Rightarrow> u64 option \<Rightarrow> string \<Rightarrow> u16 \<Rightarrow> ('k, 'i) uconn \<Rightarrow> bool \<times> ('k, 'i) uconn" where
  "mesh_open localId relay host port s =
     (if uc_server s \<or> peer_number localId = 0 \<or> (case relay of None \<Rightarrow> False | Some rid \<Rightarrow> \<not> om_has rid (uc_peers s))
      then (False, s)
      else (True, s\<lparr>uc_localLogical := peer_number localId, uc_relayId := relay, uc_stunHost := host, uc_stunPort := port\<rparr>))"

text \<open>Both ends of a link derive one session from their numbers.\<close>

definition link_session :: "u64 \<Rightarrow> u64 \<Rightarrow> u64" where
  "link_session a b =
     (let low = min a b; high = max a b;
          session = low XOR (high + 0x9E3779B97F4A7C15 + push_bit 6 low + drop_bit 2 low)
      in if session = 0 then 1 else session)"

definition mesh_peer :: "('k, 'i) uenv \<Rightarrow> u64 \<Rightarrow> bool \<Rightarrow> ('k, 'i) uconn \<Rightarrow> 'i upeer" where
  "mesh_peer e number reliable s =
     (let session = link_session number (uc_localLogical s);
          sd = set_session session (new_secure (ue_crypto e) (uc_meshSecret s) (uc_localLogical s < number))
      in new_upeer\<lparr>up_logical := number, up_meshReliable := reliable, up_session := session,
           up_secure := (if uc_meshSecret s \<noteq> [] then Some sd else None), up_ice := Some (new_ice e s),
           up_retryAt := ue_now e + 30000, up_lastIceChange := ue_now e\<rparr>)"

definition mesh_admit :: "('k, 'i) uenv \<Rightarrow> string \<Rightarrow> bool \<Rightarrow> ('k, 'i) uconn \<Rightarrow> u64 option \<times> ('k, 'i) uconn" where
  "mesh_admit e peerId reliable s =
     (let number = peer_number peerId in
      if uc_localLogical s = 0 \<or> number = 0 \<or> number = uc_localLogical s then (None, s)
      else case logical_peer number s of
        Some i \<Rightarrow> (Some i, s)
      | None \<Rightarrow>
          if length (uc_peers s) \<ge> 8 then (None, s)
          else if (case up_secure (mesh_peer e number reliable s) of None \<Rightarrow> False | Some sd \<Rightarrow> \<not> sd_valid sd) then (None, s)
          else
            let i = uc_nextId s;
                s1 = (drawn s)\<lparr>uc_nextId := i + 1, uc_peers := om_put i (mesh_peer e number reliable s) (uc_peers s)\<rparr>
            in (case make_ready e i s1 of
                  (True, s2) \<Rightarrow> (Some i, s2)
                | (False, s2) \<Rightarrow> (None, s2\<lparr>uc_peers := om_erase i (uc_peers s2)\<rparr>)))"

definition mesh_remove :: "('k, 'i) uenv \<Rightarrow> string \<Rightarrow> ('k, 'i) uconn \<Rightarrow> ('k, 'i) uconn" where
  "mesh_remove e peerId s =
     (let s1 = (case logical_peer (peer_number peerId) s of
            None \<Rightarrow> s
          | Some i \<Rightarrow> let s' = close_peer e i False s in s'\<lparr>uc_peers := om_erase i (uc_peers s')\<rparr>)
      in s1\<lparr>uc_meshRealtime := filter (\<lambda>(peer, bytes). peer \<noteq> peerId) (uc_meshRealtime s1)\<rparr>)"

fun kind_index :: "signal_kind \<Rightarrow> nat" where
  "kind_index Description = 0"
| "kind_index Candidate = 1"
| "kind_index Finished = 2"

definition counted :: "nat \<Rightarrow> u32 list \<Rightarrow> u32 list" where
  "counted k xs = xs[k := xs ! k + 1]"

text \<open>
  A signal of another generation is taken only from the side that restarts: a description of the next
  generation, at most one a second.
\<close>

definition restarts :: "('k, 'i) uenv \<Rightarrow> ice_signal \<Rightarrow> ('k, 'i) uconn \<Rightarrow> 'i upeer \<Rightarrow> bool" where
  "restarts e sig s p \<longleftrightarrow> up_logical p < uc_localLogical s \<and> is_kind sig = Description \<and>
     is_generation sig = up_iceGeneration p + 1 \<and> ue_now e - up_lastIceChange p \<ge> 1000"

definition restart_ice :: "('k, 'i) uenv \<Rightarrow> u32 \<Rightarrow> ('k, 'i) uconn \<Rightarrow> 'i upeer \<Rightarrow> 'i upeer" where
  "restart_ice e generation s p = p\<lparr>up_ice := Some (new_ice e s), up_iceGeneration := generation, up_hasEcho := False,
     up_lastIceChange := ue_now e\<rparr>"

definition offer_signal :: "('k, 'i) uenv \<Rightarrow> ice_signal \<Rightarrow> 'i upeer \<Rightarrow> bool \<times> 'i upeer" where
  "offer_signal e sig p =
     (let k = kind_index (is_kind sig) in
      case up_ice p of
        None \<Rightarrow> (False, p\<lparr>up_iceRejected := counted k (up_iceRejected p)\<rparr>)
      | Some ice \<Rightarrow>
          (case ic_signal (ue_ice e) sig ice of
             (True, ice') \<Rightarrow> (True, p\<lparr>up_ice := Some ice', up_iceReceived := counted k (up_iceReceived p)\<rparr>)
           | (False, ice') \<Rightarrow> (False, p\<lparr>up_ice := Some ice', up_iceRejected := counted k (up_iceRejected p)\<rparr>)))"

definition mesh_signal :: "('k, 'i) uenv \<Rightarrow> string \<Rightarrow> ice_signal \<Rightarrow> ('k, 'i) uconn \<Rightarrow> bool \<times> ('k, 'i) uconn" where
  "mesh_signal e peerId sig s =
     (case logical_peer (peer_number peerId) s of
        None \<Rightarrow> (False, s)
      | Some i \<Rightarrow>
          let p = peer_at s i; k = kind_index (is_kind sig) in
          if is_generation sig \<noteq> up_iceGeneration p \<and> \<not> restarts e sig s p then
            (False, set_peer i (\<lambda>p. p\<lparr>up_iceRejected := counted k (up_iceRejected p)\<rparr>) s)
          else
            let p1 = (if is_generation sig \<noteq> up_iceGeneration p then restart_ice e (is_generation sig) s p else p)
            in (case offer_signal e sig p1 of (good, p2) \<Rightarrow> (good, drawn (set_peer i (\<lambda>_. p2) s))))"

fun pop_signals :: "('k, 'i) uenv \<Rightarrow> (u64, 'i upeer) omap \<Rightarrow> (string \<times> ice_signal) option \<times> (u64, 'i upeer) omap" where
  "pop_signals e [] = (None, [])"
| "pop_signals e ((i, p) # m) =
     (case (if up_logical p \<noteq> 0 \<and> \<not> up_closed p then up_ice p else None) of
        None \<Rightarrow> (case pop_signals e m of (found, m') \<Rightarrow> (found, (i, p) # m'))
      | Some ice \<Rightarrow>
          (case ic_pop_signal (ue_ice e) ice of
             (None, ice') \<Rightarrow> (case pop_signals e m of (found, m') \<Rightarrow> (found, (i, p\<lparr>up_ice := Some ice'\<rparr>) # m'))
           | (Some sig, ice') \<Rightarrow>
               (Some (client_name (up_logical p), sig\<lparr>is_generation := up_iceGeneration p\<rparr>),
                (i, p\<lparr>up_ice := Some ice', up_iceSent := counted (kind_index (is_kind sig)) (up_iceSent p)\<rparr>) # m)))"

definition mesh_pop_signal :: "('k, 'i) uenv \<Rightarrow> ('k, 'i) uconn \<Rightarrow> (string \<times> ice_signal) option \<times> ('k, 'i) uconn" where
  "mesh_pop_signal e s = (case pop_signals e (uc_peers s) of (found, m) \<Rightarrow> (found, s\<lparr>uc_peers := m\<rparr>))"

definition mesh_send :: "('k, 'i) uenv \<Rightarrow> string \<Rightarrow> bytes \<Rightarrow> ('k, 'i) uconn \<Rightarrow> bool \<times> ('k, 'i) uconn" where
  "mesh_send e peerId bytes s =
     (case logical_peer (peer_number peerId) s of
        None \<Rightarrow> (False, s)
      | Some i \<Rightarrow> (case budget_send i bytes s of (good, s') \<Rightarrow> (good, budget_update e s')))"

text \<open>A packet larger than the buffer is dropped.\<close>

definition mesh_receive ::
  "('k, 'i) uenv \<Rightarrow> (sock_addr \<times> bytes) list \<Rightarrow> nat \<Rightarrow> ('k, 'i) uconn \<Rightarrow> ((string \<times> bytes) option \<times> ('k, 'i) uconn) option" where
  "mesh_receive e datagrams limit s =
     map_option (\<lambda>s'. case uc_meshRealtime s' of
         [] \<Rightarrow> (None, s')
       | packet # rest \<Rightarrow> (if length (snd packet) > limit then None else Some packet, s'\<lparr>uc_meshRealtime := rest\<rparr>))
       (conn_poll e datagrams s)"

text \<open>What was queued: datagrams and their bytes.\<close>

definition enqueue_counted :: "u64 \<Rightarrow> bytes \<Rightarrow> (u32 \<times> u64) \<times> ('k, 'i) uconn \<Rightarrow> bool \<times> (u32 \<times> u64) \<times> ('k, 'i) uconn" where
  "enqueue_counted i packet = (\<lambda>((datagrams, total), s).
     (case budget_send i packet s of
        (True, s') \<Rightarrow> (True, (datagrams + 1, total + word_of_nat (length packet)), s')
      | (False, s') \<Rightarrow> (False, (datagrams, total), s')))"

text \<open>One name: sent at once over a direct path, else the number is noted for one group envelope.\<close>

definition send_one ::
  "('k, 'i) uenv \<Rightarrow> bytes \<Rightarrow> string \<Rightarrow> (bool \<times> u64 list) \<times> (u32 \<times> u64) \<times> ('k, 'i) uconn \<Rightarrow>
   (bool \<times> u64 list) \<times> (u32 \<times> u64) \<times> ('k, 'i) uconn" where
  "send_one e bytes name = (\<lambda>((good, fallback), queued, s).
     (case logical_peer (peer_number name) s of
        None \<Rightarrow> ((False, fallback), queued, s)
      | Some i \<Rightarrow>
          let p = peer_at s i in
          if direct_path e p then
            (case enqueue_counted i bytes (queued, s) of
               (taken, queued', s') \<Rightarrow> ((taken \<and> good, fallback), queued', s'))
          else ((good, if up_logical p \<in> set fallback then fallback else fallback @ [up_logical p]), queued, s)))"

definition mesh_send_many ::
  "('k, 'i) uenv \<Rightarrow> string list \<Rightarrow> bytes \<Rightarrow> u32 \<times> u64 \<Rightarrow> ('k, 'i) uconn \<Rightarrow> bool \<times> (u32 \<times> u64) \<times> ('k, 'i) uconn" where
  "mesh_send_many e names bytes queued s =
     (if length names > 7 \<or> length bytes < 58 \<or> length bytes > 1158 \<or> take 4 bytes \<noteq> udp_magic then (False, queued, s)
      else case fold (send_one e bytes) names ((True, []), queued, s) of
        ((good, fallback), queued1, s1) \<Rightarrow>
          (case (if fallback = [] then None else uc_relayId s1) of
             None \<Rightarrow> (good, queued1, budget_update e s1)
           | Some rid \<Rightarrow>
               (case enqueue_counted rid (peer_group (uc_localLogical s1) fallback bytes) (queued1, s1) of
                  (taken, queued2, s2) \<Rightarrow> (taken \<and> good, queued2, budget_update e s2))))"

definition mesh_direct :: "('k, 'i) uenv \<Rightarrow> string \<Rightarrow> ('k, 'i) uconn \<Rightarrow> bool" where
  "mesh_direct e peerId s \<longleftrightarrow> (case logical_peer (peer_number peerId) s of
     None \<Rightarrow> False | Some i \<Rightarrow> direct_path e (peer_at s i))"

definition mesh_direct_rtt_ms :: "('k, 'i) uenv \<Rightarrow> string \<Rightarrow> ('k, 'i) uconn \<Rightarrow> u32 option" where
  "mesh_direct_rtt_ms e peerId s = (case logical_peer (peer_number peerId) s of
     None \<Rightarrow> None
   | Some i \<Rightarrow> if direct_path e (peer_at s i) then Some (up_probeRtt (peer_at s i)) else None)"

definition mesh_retry :: "('k, 'i) uenv \<Rightarrow> string \<Rightarrow> ('k, 'i) uconn \<Rightarrow> bool \<times> ('k, 'i) uconn" where
  "mesh_retry e peerId s =
     (case logical_peer (peer_number peerId) s of
        None \<Rightarrow> (False, s)
      | Some i \<Rightarrow>
          let p = peer_at s i in
          if uc_localLogical s \<ge> up_logical p then (False, s)
          else (True, drawn (set_peer i (\<lambda>p. (restart_ice e (up_iceGeneration p + 1) s p)\<lparr>up_retryAt := ue_now e + up_retryDelay p\<rparr>) s)))"

end
