(* ===== verification/Connection_Bounds.thy ===== *)
theory Connection_Bounds
  imports Udp_Mesh
begin

text \<open>
  What the connection layer keeps through every operation: its queues and tables are bounded, and a peer
  is handed to the game only when its key exchange is over.
\<close>

section \<open>Operations that only tend to the peers they have\<close>

text \<open>
  A peer keeps its kind, its received bytes, its channel once established, and whether it was accepted;
  what its channel repeats is a message of the key exchange.
\<close>

definition retry_ok :: "secure \<Rightarrow> bool" where
  "retry_ok sd \<longleftrightarrow> sd_retry sd = [] \<or> take 4 (sd_retry sd) = dsh_magic"

definition peer_retry :: "'i upeer \<Rightarrow> bool" where
  "peer_retry p \<longleftrightarrow> (case up_secure p of None \<Rightarrow> True | Some sd \<Rightarrow> retry_ok sd)"

definition grows :: "'i upeer \<Rightarrow> 'i upeer \<Rightarrow> bool" where
  "grows p q \<longleftrightarrow> up_rx q = up_rx p \<and> up_logical q = up_logical p \<and> (up_secure q = None \<longleftrightarrow> up_secure p = None) \<and>
     (peer_established p \<longrightarrow> peer_established q) \<and> (peer_retry p \<longrightarrow> peer_retry q) \<and> up_accepted q = up_accepted p"

definition tended :: "('k, 'i) uconn \<Rightarrow> ('k, 'i) uconn \<Rightarrow> bool" where
  "tended s t \<longleftrightarrow> (om_ok (uc_peers s) \<longrightarrow> om_ok (uc_peers t)) \<and>
     (\<forall>i. rel_option grows (map_of (uc_peers s) i) (map_of (uc_peers t) i)) \<and>
     uc_open t = uc_open s \<and> uc_server t = uc_server s \<and>
     uc_inviteSecret t = uc_inviteSecret s \<and> uc_capacity t = uc_capacity s \<and> uc_nextId t = uc_nextId s \<and>
     uc_accepted t = uc_accepted s \<and> uc_realtime t = uc_realtime s \<and> uc_meshRealtime t = uc_meshRealtime s \<and>
     uc_stunCount t = uc_stunCount s \<and> uc_stunRates t = uc_stunRates s \<and> uc_draws s \<le> uc_draws t"

lemmas peer_channel_defs = peer_established_def peer_retry_def retry_ok_def

named_theorems tend

lemma grows_refl [simp, tend]: "grows p p"
  by (simp add: grows_def)

lemma grows_chain: "grows p q \<Longrightarrow> grows q r \<Longrightarrow> grows p r"
  by (auto simp: grows_def)

lemma tended_refl [simp, tend]: "tended s s"
  by (simp add: tended_def option.rel_refl)

lemma rel_grows_trans: "rel_option grows a b \<Longrightarrow> rel_option grows b c \<Longrightarrow> rel_option grows a c"
  by (cases a; cases b; cases c) (auto intro: grows_chain)

lemma tended_trans:
  assumes "tended s t" and "tended t u"
  shows "tended s u"
proof -
  have "rel_option grows (map_of (uc_peers s) i) (map_of (uc_peers u) i)" for i
    using assms rel_grows_trans unfolding tended_def by blast
  then show ?thesis using assms unfolding tended_def by simp
qed

lemma tended_fields [tend]:
  "tended s t \<Longrightarrow> tended s (t\<lparr>uc_budget := b\<rparr>)"
  "tended s t \<Longrightarrow> tended s (t\<lparr>uc_reliable := ru\<rparr>)"
  "tended s t \<Longrightarrow> tended s (set_reliable ru t)"
  "tended s t \<Longrightarrow> tended s (t\<lparr>uc_out := out\<rparr>)"
  "tended s t \<Longrightarrow> tended s (drawn t)"
  by (simp_all add: tended_def drawn_def set_reliable_def)

lemma tended_put [tend]:
  assumes "tended s t" and "\<And>p. map_of (uc_peers t) i = Some p \<Longrightarrow> grows p (f p)"
  shows "tended s (set_peer i f t)"
proof -
  have "tended t (set_peer i f t)"
    using assms(2) by (auto simp: tended_def set_peer_def option.rel_refl split: option.splits)
  with assms(1) show ?thesis by (rule tended_trans)
qed

lemma tended_socket [tend]: "tended s t \<Longrightarrow> tended s (snd (to_socket e a bytes t))"
  by (simp add: to_socket_def tended_fields)

subsection \<open>Sending\<close>

lemma set_peer_fields [simp]:
  "uc_accepted (set_peer i f s) = uc_accepted s" "uc_nextId (set_peer i f s) = uc_nextId s"
  "uc_draws (set_peer i f s) = uc_draws s" "uc_inviteSecret (set_peer i f s) = uc_inviteSecret s"
  "uc_capacity (set_peer i f s) = uc_capacity s" "uc_realtime (set_peer i f s) = uc_realtime s"
  "uc_meshRealtime (set_peer i f s) = uc_meshRealtime s" "uc_stunCount (set_peer i f s) = uc_stunCount s"
  "uc_stunRates (set_peer i f s) = uc_stunRates s" "uc_server (set_peer i f s) = uc_server s"
  "uc_open (set_peer i f s) = uc_open s" "uc_reliable (set_peer i f s) = uc_reliable s"
  "uc_budget (set_peer i f s) = uc_budget s"
  by (simp_all add: set_peer_def split: option.splits)

lemma grows_sealed: "seal_for e bytes p = (wire, q) \<Longrightarrow> grows p q"
  by (auto simp: seal_for_def seal_def grows_def peer_channel_defs established_def Let_def
      split: option.splits prod.splits if_splits)

lemma grows_ice: "ice_send e bytes p = (good, q) \<Longrightarrow> grows p q"
  by (auto simp: ice_send_def grows_def peer_channel_defs split: option.splits prod.splits)

lemma grows_native: "native_seal e bytes p = (wire, q) \<Longrightarrow> grows p q"
  by (auto simp: native_seal_def Let_def split: prod.splits if_splits dest!: grows_sealed)

text \<open>Sending changes neither the streams nor the budget.\<close>

definition sent :: "('k, 'i) uconn \<Rightarrow> ('k, 'i) uconn \<Rightarrow> bool" where
  "sent s t \<longleftrightarrow> tended s t \<and> uc_reliable t = uc_reliable s \<and> uc_budget t = uc_budget s"

lemma sent_native:
  assumes "map_of (uc_peers s) i = Some p"
  shows "sent s (snd (send_native e i bytes p s))"
proof -
  obtain wire q where q: "native_seal e bytes p = (wire, q)" by fastforce
  then have "tended s (set_peer i (\<lambda>_. q) s)" using assms grows_native by (intro tended_put) auto
  then show ?thesis using q by (cases wire) (auto simp: send_native_def sent_def to_socket_def tended_fields)
qed

lemma grows_direct: "send_direct e bytes p = (outcome, q) \<Longrightarrow> grows p q"
  unfolding send_direct_def
  by (auto split: prod.splits if_splits dest!: grows_sealed grows_ice intro: grows_chain)

lemma sent_refl [simp]: "sent s s"
  by (simp add: sent_def)

lemma sent_trans: "sent s t \<Longrightarrow> sent t u \<Longrightarrow> sent s u"
  unfolding sent_def using tended_trans by metis

lemma sent_send: "sent s (snd (conn_send e i bytes s))"
proof (induction e i bytes s rule: conn_send.induct)
  case (1 e i bytes s)
  show ?case
  proof (cases "map_of (uc_peers s) i")
    case None
    then show ?thesis by (simp add: conn_send.simps [of e i bytes s] sent_def)
  next
    case (Some p)
    obtain outcome q where q: "send_direct e bytes p = (outcome, q)" by fastforce
    have "tended s (set_peer i (\<lambda>_. q) s)" using Some grows_direct [OF q] by (auto intro!: tend)
    then have t: "sent s (set_peer i (\<lambda>_. q) s)" by (simp add: sent_def)
    note native = sent_native [OF Some, of e bytes]
    show ?thesis
    proof (cases "\<not> up_closed p \<and> uc_open s \<and> up_logical p \<noteq> 0 \<and> outcome = Some False")
      case False
      then show ?thesis using Some q t native by (auto simp: conn_send.simps [of e i bytes s] Let_def)
    next
      case True
      show ?thesis
      proof (cases "usable_relay (set_peer i (\<lambda>_. q) s)")
        case None
        then show ?thesis using Some q t True by (simp add: conn_send.simps [of e i bytes s])
      next
        case (Some rid)
        have "sent (set_peer i (\<lambda>_. q) s) (snd (conn_send e rid wrapped (set_peer i (\<lambda>_. q) s)))"
          if "wrapped = peer_tunnel (uc_localLogical s) (up_logical p) bytes" "wrapped \<noteq> []" for wrapped
          using 1 [OF \<open>map_of (uc_peers s) i = Some p\<close> _ _ q [symmetric] refl refl _ _ Some] True that by auto
        then show ?thesis
          using \<open>map_of (uc_peers s) i = Some p\<close> Some q t True sent_trans
          by (auto simp: conn_send.simps [of e i bytes s] Let_def)
      qed
    qed
  qed
qed

lemma tended_send: "tended s (snd (conn_send e i bytes s))"
  using sent_send [of s e i bytes] by (simp add: sent_def)

lemma send_stores [simp]:
  "uc_reliable (snd (conn_send e i bytes s)) = uc_reliable s" "uc_budget (snd (conn_send e i bytes s)) = uc_budget s"
  using sent_send [of s e i bytes] by (simp_all add: sent_def)

lemma tended_fold: "(\<And>x t. tended t (f x t)) \<Longrightarrow> tended s (fold f xs s)"
  by (induction xs arbitrary: s) (auto intro: tended_trans)

lemma tended_budget: "tended s (budget_update e s)"
  unfolding budget_update_def
  by (auto split: prod.splits intro!: tended_trans [OF _ tended_fold] tend tended_send)

lemma tended_budget_send: "budget_send i bytes s = (good, t) \<Longrightarrow> tended s t"
  by (auto simp: budget_send_def split: prod.splits intro: tend)

lemma tended_control: "tended s (control e i type s)"
  unfolding control_def by (auto simp: grows_def peer_channel_defs intro: tend tended_send)

lemma tended_make_ready: "make_ready e i s = (good, t) \<Longrightarrow> tended s t"
  by (auto simp: make_ready_def Let_def grows_def peer_channel_defs split: if_splits prod.splits bool.splits
      intro!: tended_put tended_fields)

lemma tended_forget: "tended s t \<Longrightarrow> tended s (forget_peer i t)"
  unfolding forget_peer_def by (intro tend) auto

lemma grows_closed: "grows p (p\<lparr>up_closed := True\<rparr>)"
  by (simp add: grows_def peer_channel_defs)

lemma tended_close: "tended s (close_peer e i notify s)"
  unfolding close_peer_def
  by (auto split: option.splits intro!: tended_forget tended_put tended_refl tended_control grows_closed)

lemma tended_reliable: "reliable_update e s = Some t \<Longrightarrow> tended s t"
  unfolding reliable_update_def
  by (auto intro!: tended_trans [OF _ tended_fold] tend intro: tended_budget_send prod.collapse [symmetric])

section \<open>The bounds\<close>

definition peer_ok :: "string \<Rightarrow> 'i upeer \<Rightarrow> bool" where
  "peer_ok secret p \<longleftrightarrow> length (up_rx p) \<le> maxBufferedBytes \<and> (up_accepted p \<longrightarrow> up_logical p = 0 \<and> peer_established p) \<and>
     (secret \<noteq> [] \<and> up_logical p = 0 \<longrightarrow> up_secure p \<noteq> None) \<and> peer_retry p"

text \<open>Numbers are fresh as long as fewer than \<open>2\<^sup>6\<^sup>4\<close> random values were drawn; a new peer takes one.\<close>

definition numbers_ok :: "('k, 'i) uconn \<Rightarrow> bool" where
  "numbers_ok s \<longleftrightarrow> unat (uc_nextId s) \<le> uc_draws s + 1 \<and>
     (\<forall>i. om_has i (uc_peers s) \<or> i \<in> set (uc_accepted s) \<longrightarrow> i < uc_nextId s) \<and>
     (\<forall>i \<in> set (uc_accepted s). \<forall>p. map_of (uc_peers s) i = Some p \<longrightarrow> up_accepted p)"

definition conn_ok :: "('k, 'i) uconn \<Rightarrow> bool" where
  "conn_ok s \<longleftrightarrow> om_ok (uc_peers s) \<and> length (uc_peers s) \<le> max (uc_capacity s) 8 \<and> uc_capacity s \<le> 4096 \<and>
     (\<forall>i p. map_of (uc_peers s) i = Some p \<longrightarrow> peer_ok (uc_inviteSecret s) p) \<and>
     (uc_inviteSecret s \<noteq> [] \<longrightarrow> (\<forall>r \<in> set (uc_realtime s). rw_authenticatedPeer r \<noteq> None)) \<and>
     length (uc_realtime s) \<le> 512 \<and> length (uc_meshRealtime s) \<le> 512 \<and>
     (\<forall>(name, bytes) \<in> set (uc_meshRealtime s). name = claimed_sender bytes) \<and>
     uc_stunCount s \<le> 1024 \<and> length (uc_stunRates s) = 256 \<and> (\<forall>r \<in> set (uc_stunRates s). snd r \<le> 64) \<and>
     (uc_draws s < 2 ^ 64 - 1 \<longrightarrow> numbers_ok s)"

lemma grows_ok: "grows p q \<Longrightarrow> peer_ok secret p \<Longrightarrow> peer_ok secret q"
  by (auto simp: grows_def peer_ok_def)

lemma tended_map:
  "tended s t \<Longrightarrow> map_of (uc_peers t) i = Some q \<Longrightarrow> \<exists>p. map_of (uc_peers s) i = Some p \<and> grows p q"
  unfolding tended_def by (metis option.rel_cases option.distinct(1) option.sel)

lemma tended_has: "tended s t \<Longrightarrow> om_has i (uc_peers t) \<longleftrightarrow> om_has i (uc_peers s)"
  unfolding tended_def by (metis option.rel_sel)

lemma om_length: "om_ok m \<Longrightarrow> length m = card {i. om_has i m}"
  by (metis (mono_tags, lifting) Collect_cong distinct_card dom_def dom_map_of_conv_image_fst length_map om_ok_distinct set_map)

lemma tended_length:
  assumes "tended s t" and "om_ok (uc_peers s)"
  shows "length (uc_peers t) = length (uc_peers s)"
proof -
  have "om_ok (uc_peers t)" using assms by (simp add: tended_def)
  then show ?thesis using assms(2) tended_has [OF assms(1)] by (simp add: om_length)
qed

lemma tended_numbers:
  assumes "tended s t" and "numbers_ok s"
  shows "numbers_ok t"
proof -
  have same: "uc_nextId t = uc_nextId s" "uc_accepted t = uc_accepted s" "uc_draws s \<le> uc_draws t"
    using assms(1) by (simp_all add: tended_def)
  have "up_accepted q" if "i \<in> set (uc_accepted s)" and q: "map_of (uc_peers t) i = Some q" for i q
  proof -
    obtain p where "map_of (uc_peers s) i = Some p" "grows p q" using tended_map [OF assms(1) q] by blast
    then show ?thesis using assms(2) that(1) by (auto simp: numbers_ok_def grows_def)
  qed
  then show ?thesis
    using assms(2) tended_has [OF assms(1)] unfolding numbers_ok_def same(1,2) using same(3) by fastforce
qed

lemma conn_peer: "conn_ok s \<Longrightarrow> map_of (uc_peers s) i = Some p \<Longrightarrow> peer_ok (uc_inviteSecret s) p"
  by (simp add: conn_ok_def)

lemma tended_ok:
  assumes "tended s t" and "conn_ok s"
  shows "conn_ok t"
proof -
  have "peer_ok (uc_inviteSecret t) q" if q: "map_of (uc_peers t) i = Some q" for i q
  proof -
    obtain p where "map_of (uc_peers s) i = Some p" "grows p q" using tended_map [OF assms(1) q] by blast
    then have "peer_ok (uc_inviteSecret s) q" using grows_ok conn_peer [OF assms(2)] by blast
    then show ?thesis using assms(1) by (simp add: tended_def)
  qed
  moreover have "numbers_ok t" if "uc_draws t < 2 ^ 64 - 1"
    using that assms tended_numbers [OF assms(1)] by (simp add: conn_ok_def tended_def)
  ultimately show ?thesis
    using assms tended_length [OF assms(1)] unfolding conn_ok_def by (simp add: tended_def)
qed

section \<open>Operations that change the tables\<close>

lemma map_of_set_peer:
  "map_of (uc_peers (set_peer i f s)) = (map_of (uc_peers s))(i := map_option f (map_of (uc_peers s) i))"
  by (auto simp: set_peer_def split: option.splits)

lemma om_ok_set_peer: "om_ok (uc_peers s) \<Longrightarrow> om_ok (uc_peers (set_peer i f s))"
  by (simp add: set_peer_def split: option.splits)

lemma length_set_peer: "om_ok (uc_peers s) \<Longrightarrow> length (uc_peers (set_peer i f s)) = length (uc_peers s)"
  by (simp add: set_peer_def length_om_put split: option.splits)

lemma ok_set_peer:
  assumes "conn_ok s"
    and "\<And>p. map_of (uc_peers s) i = Some p \<Longrightarrow> peer_ok (uc_inviteSecret s) p \<Longrightarrow>
      peer_ok (uc_inviteSecret s) (f p) \<and> (up_accepted p \<longrightarrow> up_accepted (f p))"
  shows "conn_ok (set_peer i f s)"
proof -
  have "numbers_ok s \<Longrightarrow> numbers_ok (set_peer i f s)"
    using assms(2) conn_peer [OF assms(1)]
    by (auto simp: numbers_ok_def map_of_set_peer split: if_splits)
  then show ?thesis
    using assms unfolding conn_ok_def
    by (auto simp: om_ok_set_peer length_set_peer map_of_set_peer split: if_splits)
qed

lemma numbers_fields [simp]:
  "numbers_ok (s\<lparr>uc_realtime := r\<rparr>) = numbers_ok s" "numbers_ok (s\<lparr>uc_meshRealtime := m\<rparr>) = numbers_ok s"
  "numbers_ok (s\<lparr>uc_stunWindow := w\<rparr>) = numbers_ok s" "numbers_ok (s\<lparr>uc_stunCount := c\<rparr>) = numbers_ok s"
  "numbers_ok (s\<lparr>uc_stunRates := rs\<rparr>) = numbers_ok s"
  by (simp_all add: numbers_ok_def)

lemma ok_push_realtime: "conn_ok s \<Longrightarrow> uc_inviteSecret s = [] \<or> a \<noteq> None \<Longrightarrow> conn_ok (push_realtime from packet a s)"
  by (auto simp: push_realtime_def conn_ok_def simp del: not_None_eq)

lemma ok_mesh_push:
  "conn_ok s \<Longrightarrow> length (uc_meshRealtime s) < 512 \<Longrightarrow>
   conn_ok (s\<lparr>uc_meshRealtime := uc_meshRealtime s @ [(claimed_sender bytes, bytes)]\<rparr>)"
  by (simp add: conn_ok_def)

lemma ok_mesh_input: "conn_ok s \<Longrightarrow> conn_ok (mesh_input e i bytes s)"
  by (auto simp: mesh_input_def Let_def not_le intro: tended_ok tend ok_mesh_push)

lemma ok_erase:
  assumes "conn_ok s"
  shows "conn_ok (s\<lparr>uc_peers := om_erase i (uc_peers s)\<rparr>)"
proof -
  have "numbers_ok s \<Longrightarrow> numbers_ok (s\<lparr>uc_peers := om_erase i (uc_peers s)\<rparr>)" by (auto simp: numbers_ok_def)
  then show ?thesis
    using assms le_trans [OF length_om_erase_le, of "uc_peers s"] by (auto simp: conn_ok_def)
qed

lemma ok_accepted:
  assumes "conn_ok s" and "map_of (uc_peers s) i = Some p" and "peer_established p" and "up_logical p = 0"
  shows "conn_ok (mark_accepted i s)"
proof -
  let ?t = "s\<lparr>uc_accepted := uc_accepted s @ [i]\<rparr>"
  have eq: "mark_accepted i s = set_peer i (\<lambda>p. p\<lparr>up_accepted := True\<rparr>) ?t" by (simp add: mark_accepted_def)
  have "numbers_ok s \<Longrightarrow> numbers_ok (mark_accepted i s)"
    using assms(2) by (auto simp: eq numbers_ok_def map_of_set_peer split: if_splits)
  moreover have "peer_ok (uc_inviteSecret s) (p\<lparr>up_accepted := True\<rparr>)"
    using conn_peer [OF assms(1,2)] assms(3,4) by (simp add: peer_ok_def peer_channel_defs)
  ultimately show ?thesis
    using assms unfolding eq conn_ok_def
    by (auto simp: om_ok_set_peer length_set_peer map_of_set_peer split: if_splits)
qed

text \<open>The next number is larger than every other, and a new peer takes it.\<close>

lemma next_number:
  assumes "numbers_ok s" and "uc_draws s + 1 < 2 ^ 64 - 1"
  shows "unat (uc_nextId s + 1) = unat (uc_nextId s) + 1" and "j \<le> uc_nextId s \<Longrightarrow> j < uc_nextId s + 1"
proof -
  have "unat (uc_nextId s) + 1 < 2 ^ 64" using assms by (simp add: numbers_ok_def)
  then show *: "unat (uc_nextId s + 1) = unat (uc_nextId s) + 1" by (simp add: unat_word_ariths)
  then show "j \<le> uc_nextId s \<Longrightarrow> j < uc_nextId s + 1" by (simp add: word_less_nat_alt word_le_nat_alt)
qed

lemma ok_drawn:
  assumes "conn_ok s"
  shows "conn_ok ((drawn s)\<lparr>uc_nextId := uc_nextId s + 1\<rparr>)"
proof -
  let ?t = "(drawn s)\<lparr>uc_nextId := uc_nextId s + 1\<rparr>"
  have "numbers_ok ?t" if d: "uc_draws s + 1 < 2 ^ 64 - 1"
  proof -
    have n: "numbers_ok s" using d assms by (simp add: conn_ok_def)
    then show ?thesis using next_number [OF n d] unfolding numbers_ok_def by (simp add: drawn_def less_imp_le)
  qed
  then show ?thesis using assms unfolding conn_ok_def by (simp add: drawn_def)
qed

lemma ok_new_peer:
  assumes "conn_ok s" and "length (uc_peers s) < max (uc_capacity s) 8" and "peer_ok (uc_inviteSecret s) p"
  shows "conn_ok ((drawn s)\<lparr>uc_nextId := uc_nextId s + 1, uc_peers := om_put (uc_nextId s) p (uc_peers s)\<rparr>)"
proof -
  let ?t = "(drawn s)\<lparr>uc_nextId := uc_nextId s + 1, uc_peers := om_put (uc_nextId s) p (uc_peers s)\<rparr>"
  have "numbers_ok ?t" if d: "uc_draws s + 1 < 2 ^ 64 - 1"
  proof -
    have n: "numbers_ok s" using d assms(1) by (simp add: conn_ok_def)
    have "j \<noteq> uc_nextId s" if "j \<in> set (uc_accepted s)" for j using n that by (force simp: numbers_ok_def)
    then show ?thesis
      using n next_number [OF n d] unfolding numbers_ok_def by (simp add: drawn_def less_imp_le)
  qed
  moreover have "length (om_put (uc_nextId s) p (uc_peers s)) \<le> max (uc_capacity s) 8"
    using assms(2) length_om_put_le [of "uc_nextId s" p "uc_peers s"] by linarith
  moreover have "peer_ok (uc_inviteSecret s) q" if "map_of (om_put (uc_nextId s) p (uc_peers s)) j = Some q" for j q
    using that assms(3) conn_peer [OF assms(1)] by (simp split: if_splits)
  ultimately show ?thesis using assms(1) unfolding conn_ok_def by (simp add: drawn_def)
qed

section \<open>Receiving\<close>

lemma peer_at_Some: "map_of (uc_peers s) i = Some p \<Longrightarrow> peer_at s i = p"
  by (simp add: peer_at_def)

lemma find_in: "find P m = Some x \<Longrightarrow> x \<in> set m"
  by (auto simp: find_Some_iff)

lemma found_in: "find_address a s = Some i \<Longrightarrow> om_has i (uc_peers s)"
  unfolding find_address_def om_has_iff by (force dest: find_in)

lemma found_logical:
  assumes "conn_ok s" and "find_address a s = Some i"
  shows "up_logical (peer_at s i) = 0" and "up_address (peer_at s i) = a" and "\<not> up_closed (peer_at s i)"
proof -
  obtain p where "find (\<lambda>(i, p). up_logical p = 0 \<and> \<not> up_closed p \<and> up_address p = a) (uc_peers s) = Some (i, p)"
    using assms(2) by (auto simp: find_address_def)
  then have "up_logical p = 0" "up_address p = a" "\<not> up_closed p" "(i, p) \<in> set (uc_peers s)"
    by (auto simp: find_Some_iff) (metis nth_mem)
  then show "up_logical (peer_at s i) = 0" and "up_address (peer_at s i) = a" and "\<not> up_closed (peer_at s i)"
    using assms(1) by (simp_all add: conn_ok_def peer_at_def om_find_iff [symmetric])
qed

lemma logical_in: "logical_peer n s = Some i \<Longrightarrow> om_has i (uc_peers s)"
  unfolding logical_peer_def om_has_iff by (force dest: find_in split: if_splits)

lemma established_set [simp]: "established (set_session q sd) = established sd"
  by (simp add: established_def set_session_def)

lemma sd_retry_session [simp]: "sd_retry (set_session q sd) = sd_retry sd" "sd_retry (new_secure cr secret b) = []"
  by (simp_all add: set_session_def new_secure_def)

lemma ok_admit:
  fixes s :: "('k, 'i) uconn"
  assumes "conn_ok s"
  shows "conn_ok (snd (admit_address e from token s))"
proof (cases "length (uc_peers s) < uc_capacity s")
  case True
  define p :: "'i upeer" where "p = new_upeer\<lparr>up_address := from, up_nonce := token, up_session := draw_nonce e s, up_started := ue_now e,
    up_lastReceive := ue_now e\<rparr>"
  define sd where "sd = set_session (draw_nonce e s) (new_secure (ue_crypto e) (uc_inviteSecret s) False)"
  have ok: "peer_ok (uc_inviteSecret s) (if uc_inviteSecret s \<noteq> [] then p\<lparr>up_secure := Some sd\<rparr> else p)"
    by (simp add: p_def peer_ok_def new_upeer_def peer_channel_defs sd_def)
  show ?thesis
    using True ok_drawn [OF assms] ok_new_peer [OF assms _ ok]
    by (cases "uc_inviteSecret s = []") (simp_all add: admit_address_def Let_def p_def [symmetric] sd_def [symmetric] drawn_def)
qed (use assms in \<open>simp add: admit_address_def\<close>)

lemma ok_control: "conn_ok s \<Longrightarrow> conn_ok (control e i type s)"
  by (rule tended_ok [OF tended_control])

lemma ok_close: "conn_ok s \<Longrightarrow> conn_ok (close_peer e i notify s)"
  by (rule tended_ok [OF tended_close])

lemma ok_hello: "conn_ok s \<Longrightarrow> conn_ok (receive_hello e from token found s)"
  using ok_admit [of s e "from" token] ok_control
  by (cases found) (auto simp: receive_hello_def split: option.splits prod.splits)

text \<open>An update of a peer that touches none of what is kept.\<close>

lemma ok_touch:
  "conn_ok s \<Longrightarrow> (\<And>p. map_of (uc_peers s) i = Some p \<Longrightarrow> grows p (f p)) \<Longrightarrow> conn_ok (set_peer i f s)"
  by (rule tended_ok [OF tended_put [OF tended_refl]])

lemma grows_times [simp]:
  "grows p (p\<lparr>up_lastReceive := t\<rparr>)" "grows p (p\<lparr>up_lastSecure := t\<rparr>)" "grows p (p\<lparr>up_lastIcePacket := t\<rparr>)"
  "grows p (p\<lparr>up_lastPayloadPacket := t, up_payloadPackets := n\<rparr>)" "grows p (p\<lparr>up_realtimeAddress := a\<rparr>)"
  "grows p (p\<lparr>up_ice := ice\<rparr>)" "grows p (p\<lparr>up_iceRejected := xs\<rparr>)"
  by (simp_all add: grows_def peer_channel_defs)

lemma grows_secure:
  "up_secure p = Some sd \<Longrightarrow> (established sd \<Longrightarrow> established sd') \<Longrightarrow> (retry_ok sd \<Longrightarrow> retry_ok sd') \<Longrightarrow> grows p (p\<lparr>up_secure := Some sd'\<rparr>)"
  by (simp add: grows_def peer_channel_defs)

lemma ok_challenge: "conn_ok s \<Longrightarrow> conn_ok (receive_challenge e i session s)"
proof -
  assume ok: "conn_ok s"
  have "grows p (p\<lparr>up_session := session, up_lastReceive := t, up_secure := map_option (set_session session) (up_secure p)\<rparr>)" for p :: "'b upeer" and t
    by (cases "up_secure p") (simp_all add: grows_def peer_channel_defs)
  then show ?thesis using ok by (simp add: receive_challenge_def Let_def ok_control ok_touch)
qed

lemma tended_found: "tended s t \<Longrightarrow> om_has i (uc_peers s) \<Longrightarrow> map_of (uc_peers t) i = Some (peer_at t i)"
  using tended_has [of s t i] by (auto simp: peer_at_def)

lemma tended_logical: "tended s t \<Longrightarrow> up_logical (peer_at t i) = up_logical (peer_at s i)"
  by (auto simp: tended_def peer_at_def grows_def split: option.splits dest!: spec [of _ i])

lemma ok_confirm:
  assumes "conn_ok s" and "om_has i (uc_peers s)" and "up_logical (peer_at s i) = 0"
  shows "conn_ok (receive_confirm e i s)"
proof -
  obtain good t where t: "make_ready e i s = (good, t)" by fastforce
  note tt = tended_make_ready [OF t]
  have "conn_ok t" by (rule tended_ok [OF tt assms(1)])
  moreover have "conn_ok (mark_accepted i t)" if "peer_established (peer_at t i)"
    using tended_logical [OF tt] assms(3) by (intro ok_accepted [OF \<open>conn_ok t\<close> tended_found [OF tt assms(2)] that]) simp
  ultimately show ?thesis by (cases good) (auto simp: receive_confirm_def t Let_def ok_close intro!: ok_control ok_touch)
qed

lemma retry_handshake: "retry_ok sd \<Longrightarrow> handshake cr rnd bytes sd = (reply, sd') \<Longrightarrow> retry_ok sd'"
  by (auto simp: handshake_def answer_hello_def answer_server_def answer_finish_def retry_ok_def generate_ephemeral_def
      derive_keys_def take_remote_def dsh_def dsh_magic_def Let_def split: if_splits prod.splits bool.splits option.splits)

lemma retry_begin: "retry_ok sd \<Longrightarrow> sd_begin cr rnd sd = (hello, sd') \<Longrightarrow> retry_ok sd'"
  by (auto simp: sd_begin_def retry_ok_def generate_ephemeral_def dsh_def dsh_magic_def Let_def split: if_splits prod.splits bool.splits option.splits)

lemma retry_opened: "retry_ok sd \<Longrightarrow> open_sealed cr packet sd = (plaintext, sd') \<Longrightarrow> retry_ok sd'"
  by (auto simp: open_sealed_def note_counter_def retry_ok_def Let_def split: if_splits option.splits)

lemma established_stays: "established sd \<Longrightarrow> handshake cr rnd bytes sd = (reply, sd') \<Longrightarrow> sd' = sd"
  by (auto simp: handshake_def answer_hello_def answer_server_def answer_finish_def established_def split: if_splits)

lemma established_begin: "established sd \<Longrightarrow> sd_begin cr rnd sd = (hello, sd') \<Longrightarrow> sd' = sd"
  by (auto simp: sd_begin_def established_def split: if_splits prod.splits)

lemma established_opened: "established sd \<Longrightarrow> open_sealed cr packet sd = (plaintext, sd') \<Longrightarrow> established sd'"
  by (auto simp: open_sealed_def note_counter_def established_def Let_def split: if_splits option.splits)

lemma tended_begin: "begin_secure e i s = (hello, t) \<Longrightarrow> tended s t"
proof -
  assume b: "begin_secure e i s = (hello, t)"
  show ?thesis
  proof (cases "up_secure (peer_at s i)")
    case None
    then show ?thesis using b by (simp add: begin_secure_def)
  next
    case (Some sd)
    then have found: "map_of (uc_peers s) i = Some (peer_at s i)"
      by (auto simp: peer_at_def new_upeer_def split: option.splits)
    obtain h sd' where "sd_begin (ue_crypto e) (ue_entropy e (uc_draws s)) sd = (h, sd')" by fastforce
    then show ?thesis using b Some found
      by (auto simp: begin_secure_def intro!: tend grows_secure dest: established_begin retry_begin)
  qed
qed

lemma tended_accept: "tended s (receive_accept e i s)"
proof -
  obtain good t where t: "make_ready e i s = (good, t)" by fastforce
  let ?t = "set_peer i (\<lambda>p. p\<lparr>up_lastReceive := ue_now e\<rparr>) t"
  obtain hello u where u: "begin_secure e i ?t = (hello, u)" by fastforce
  have st: "tended s t" and stt: "tended s ?t" using tended_make_ready [OF t] by (auto intro!: tended_put)
  have su: "tended s u" using stt tended_begin [OF u] by (rule tended_trans)
  have "tended s (close_peer e i False t)" "tended s (close_peer e i False u)"
    "tended s (set_peer i (\<lambda>p. p\<lparr>up_lastSecure := ue_now e\<rparr>) (snd (conn_send e i hello u)))"
    using tended_trans [OF st tended_close] tended_trans [OF su tended_close] tended_trans [OF su tended_send]
    by (auto intro!: tended_put)
  then show ?thesis using stt by (auto simp: receive_accept_def t u Let_def split: bool.splits option.splits)
qed

lemma ok_receive_control:
  assumes ok: "conn_ok s"
  shows "conn_ok (receive_control e from bytes encrypted s)"
proof (cases "find_address from s")
  case None
  then show ?thesis using ok by (simp add: receive_control_def Let_def ok_hello)
next
  case (Some i)
  have "conn_ok (receive_confirm e i s)" by (rule ok_confirm [OF ok found_in [OF Some] found_logical(1) [OF ok Some]])
  moreover have "conn_ok (receive_accept e i s)" by (rule tended_ok [OF tended_accept ok])
  moreover have "conn_ok (set_peer i (\<lambda>p. p\<lparr>up_lastReceive := ue_now e\<rparr>) s)" by (simp add: ok ok_touch)
  ultimately show ?thesis
    using ok unfolding receive_control_def Let_def Some
    by (simp add: ok_hello ok_challenge ok_close)
qed

lemma ok_secure_handshake: "conn_ok s \<Longrightarrow> conn_ok (receive_secure_handshake e from bytes s)"
proof -
  assume ok: "conn_ok s"
  show ?thesis
  proof (cases "find_address from s")
    case None
    then show ?thesis using ok by (simp add: receive_secure_handshake_def)
  next
    case (Some i)
    obtain p where p: "map_of (uc_peers s) i = Some p" using found_in [OF Some] by auto
    show ?thesis
    proof (cases "up_closed p \<or> \<not> up_ready p \<or> up_secure p = None")
      case True
      then show ?thesis using ok p Some by (auto simp: receive_secure_handshake_def peer_at_def split: option.splits)
    next
      case False
      then obtain sd where sd: "up_secure p = Some sd" by auto
      obtain reply sd' where h: "handshake (ue_crypto e) (ue_entropy e (uc_draws s)) bytes sd = (reply, sd')" by fastforce
      define s1 where "s1 = drawn (set_peer i (\<lambda>p. p\<lparr>up_secure := Some sd'\<rparr>) s)"
      define s2 where "s2 = (if reply \<noteq> [] then set_peer i (\<lambda>p. p\<lparr>up_lastSecure := ue_now e\<rparr>) (snd (conn_send e i reply s1)) else s1)"
      define s3 where "s3 = set_peer i (\<lambda>p. p\<lparr>up_lastReceive := ue_now e\<rparr>) s2"
      have t1: "tended s s1" unfolding s1_def
        using p sd established_stays [OF _ h] retry_handshake [OF _ h] by (intro tend) (auto intro: grows_secure)
      have t2: "tended s1 s2" unfolding s2_def by (auto intro!: tended_put intro: tended_send)
      have t3: "tended s s3" "tended s s2"
        unfolding s3_def using tended_trans [OF t1 t2] by (auto intro!: tended_put)
      have "map_of (uc_peers s1) i = Some (p\<lparr>up_secure := Some sd'\<rparr>)"
        by (simp add: s1_def drawn_def map_of_set_peer p)
      moreover have "tended s1 s3" unfolding s3_def using t2 by (auto intro!: tended_put)
      ultimately have "rel_option grows (Some (p\<lparr>up_secure := Some sd'\<rparr>)) (map_of (uc_peers s3) i)"
        unfolding tended_def by metis
      then obtain q where q: "map_of (uc_peers s3) i = Some q" "grows (p\<lparr>up_secure := Some sd'\<rparr>) q"
        by (auto simp: option_rel_Some1)
      have "conn_ok (mark_accepted i s3)" if "established sd'"
        using ok_accepted [OF tended_ok [OF t3(1) ok] q(1)] q(2) that found_logical(1) [OF ok Some] p
        by (simp add: grows_def peer_channel_defs peer_at_def)
      moreover have "receive_secure_handshake e from bytes s = (if \<not> established sd \<and> established sd'
          then (if uc_server s \<and> \<not> up_accepted p then mark_accepted i s3 else s3) else s2)"
        using False p Some sd by (simp add: receive_secure_handshake_def peer_at_def Let_def h s1_def s2_def s3_def)
      ultimately show ?thesis using tended_ok [OF t3(1) ok] tended_ok [OF t3(2) ok] by simp
    qed
  qed
qed

subsection \<open>Peers over ICE\<close>

lemma grows_renew: "grows p (renew_ice e s p)" "grows p (rest_retry e p)"
  by (simp_all add: renew_ice_def rest_retry_def Let_def grows_def peer_channel_defs)

lemma grows_ice_snd: "grows p (snd (ice_send e bytes p))"
  using grows_ice [of e bytes p] by (metis prod.collapse)

lemma grows_then: "grows p q \<Longrightarrow> grows p (q\<lparr>up_lastSecure := t\<rparr>)" "grows p q \<Longrightarrow> grows p (q\<lparr>up_lastProbe := t\<rparr>)"
  "grows p q \<Longrightarrow> grows p (q\<lparr>up_probeSends := n\<rparr>)" "grows p q \<Longrightarrow> grows p (q\<lparr>up_probeSendFailures := n\<rparr>)"
  "grows p q \<Longrightarrow> grows (p\<lparr>up_probeRequests := n\<rparr>) q"
  by (auto simp: grows_def peer_channel_defs)

lemma grows_ice_handshake: "grows p (ice_handshake e s p)"
proof (cases "up_secure p")
  case None
  then show ?thesis by (simp add: ice_handshake_def)
next
  case (Some sd)
  obtain hello sd' where b: "sd_begin (ue_crypto e) (ue_entropy e (uc_draws s)) sd = (hello, sd')" by fastforce
  have g: "grows p (p\<lparr>up_secure := Some sd'\<rparr>)"
    using Some established_begin [OF _ b] retry_begin [OF _ b] by (auto intro: grows_secure)
  have "grows p (snd (ice_send e hello (p\<lparr>up_secure := Some sd'\<rparr>)))" by (rule grows_chain [OF g grows_ice_snd])
  then show ?thesis using Some g
    by (auto simp: ice_handshake_def Let_def b intro!: grows_then(1) grows_ice_snd)
qed

lemma grows_probe: "grows p (ice_probe e p)"
  by (auto simp: ice_probe_def split: prod.splits intro!: grows_then dest: grows_ice)

lemma grows_answer: "grows p (answer_probe e bytes p)"
proof -
  have "grows p (p\<lparr>up_probeRequests := n\<rparr>)" for n by (simp add: grows_def peer_channel_defs)
  then have "grows p (snd (ice_send e b (p\<lparr>up_probeRequests := n\<rparr>)))" for b n by (rule grows_chain [OF _ grows_ice_snd])
  then show ?thesis by (simp add: answer_probe_def Let_def) (simp add: grows_def peer_channel_defs)
qed

lemma ok_payload: "conn_ok s \<Longrightarrow> conn_ok (ice_payload e i bytes s)"
  by (simp add: ice_payload_def ok_mesh_input ok_touch)

lemma ok_ice_packet: "conn_ok s0 \<Longrightarrow> conn_ok (ice_packet e i bytes s0)"
proof -
  assume ok0: "conn_ok s0"
  define s where "s = set_peer i (\<lambda>p. p\<lparr>up_lastIcePacket := ue_now e\<rparr>) s0"
  have ok: "conn_ok s" unfolding s_def using ok0 by (intro ok_touch) simp_all
  show ?thesis
  proof (cases "up_secure (peer_at s i)")
    case None
    then show ?thesis using ok
      by (auto simp: ice_packet_def s_def [symmetric] Let_def intro: ok_payload ok_touch grows_answer)
  next
    case (Some sd)
    then have found: "map_of (uc_peers s) i = Some (peer_at s i)"
      by (auto simp: peer_at_def new_upeer_def split: option.splits)
    obtain reply sd1 where h: "handshake (ue_crypto e) (ue_entropy e (uc_draws s)) bytes sd = (reply, sd1)" by fastforce
    obtain plaintext sd2 where o2: "open_sealed (ue_crypto e) bytes sd = (plaintext, sd2)" by fastforce
    have g1: "grows p (p\<lparr>up_secure := Some sd1\<rparr>)" and g2: "grows p (p\<lparr>up_secure := Some sd2\<rparr>)"
      if "map_of (uc_peers s) i = Some p" for p
      using that found Some established_stays [OF _ h] established_opened [OF _ o2] retry_handshake [OF _ h] retry_opened [OF _ o2] by (auto intro: grows_secure)
    have "conn_ok (drawn (set_peer i (\<lambda>p. if reply \<noteq> [] then snd (ice_send e reply (p\<lparr>up_secure := Some sd1\<rparr>)) else p\<lparr>up_secure := Some sd1\<rparr>) s))"
      using ok g1 grows_chain [OF g1 grows_ice_snd] by (intro tended_ok [OF tended_fields(5) [OF tended_put]]) auto
    moreover have "conn_ok (set_peer i (\<lambda>p. p\<lparr>up_secure := Some sd2\<rparr>) s)" using ok g2 by (intro ok_touch)
    ultimately show ?thesis using ok Some
      by (auto simp: ice_packet_def s_def [symmetric] Let_def h o2 split: option.splits
          intro: ok_payload ok_touch grows_answer)
  qed
qed

lemma ok_ice_packets: "conn_ok s \<Longrightarrow> conn_ok (ice_packets e i n s)"
proof (induction n arbitrary: s)
  case (Suc n)
  have "conn_ok (set_peer i (\<lambda>p. p\<lparr>up_ice := Some ice'\<rparr>) s)" for ice' by (simp add: Suc.prems ok_touch)
  then show ?case using Suc by (simp add: Let_def ok_ice_packet split: option.splits prod.splits)
qed simp

lemma ok_pump_peer: "conn_ok s \<Longrightarrow> conn_ok (pump_peer e i s)"
proof -
  assume ok: "conn_ok s"
  have "grows p (ice_probe e (ice_handshake e s (rest_retry e (renew_ice e s p))))" for p
    by (meson grows_chain grows_renew grows_ice_handshake grows_probe)
  then have "conn_ok (drawn (set_peer i (\<lambda>p. ice_probe e (ice_handshake e s (rest_retry e (renew_ice e s p)))) s))"
    using ok by (intro tended_ok [OF tended_fields(5) [OF tended_put]]) auto
  then show ?thesis using ok by (simp add: pump_peer_def Let_def ok_ice_packets)
qed

lemma ok_pump: "conn_ok s \<Longrightarrow> conn_ok (pump_mesh e s)"
proof -
  have "conn_ok (fold (pump_peer e) is s)" if "conn_ok s" for "is" s
    using that by (induction "is" arbitrary: s) (auto intro: ok_pump_peer)
  then show "conn_ok s \<Longrightarrow> conn_ok (pump_mesh e s)" by (simp add: pump_mesh_def)
qed

subsection \<open>Datagrams\<close>

lemma ok_socket: "conn_ok s \<Longrightarrow> conn_ok (snd (to_socket e a bytes s))"
  by (rule tended_ok [OF tended_socket [OF tended_refl]])

lemma rate_update:
  assumes "\<forall>r \<in> set xs. snd r \<le> (64 :: u32)" and "snd r \<le> 64"
  shows "\<forall>r \<in> set (xs[k := r]). snd r \<le> 64"
  using assms set_update_subset_insert [of xs k r] by blast

lemma ok_stun: "conn_ok s \<Longrightarrow> conn_ok (stun_answer e from packet s)"
proof -
  assume ok: "conn_ok s"
  define key where "key = stun_key (fst from)"
  define s1 where "s1 = (if ue_now e - uc_stunWindow s \<ge> 1000 then s\<lparr>uc_stunWindow := ue_now e, uc_stunCount := 0\<rparr> else s)"
  have ok1: "conn_ok s1" using ok by (simp add: s1_def conn_ok_def)
  obtain window count where w: "(let r = uc_stunRates s1 ! key in if ue_now e - fst r \<ge> 1000 then (ue_now e, 0) else r) = (window, count)"
    by fastforce
  have "key < 256" by (simp add: key_def stun_key_def Let_def)
  then have "uc_stunRates s1 ! key \<in> set (uc_stunRates s1)" using ok1 by (simp add: conn_ok_def)
  then have "count \<le> 64" using ok1 w by (auto simp: conn_ok_def Let_def split: if_splits)
  define s2 where "s2 = s1\<lparr>uc_stunRates := (uc_stunRates s1)[key := (window, count)]\<rparr>"
  have ok2: "conn_ok s2"
    using ok1 rate_update [of "uc_stunRates s1" "(window, count)" key] \<open>count \<le> 64\<close> by (simp add: s2_def conn_ok_def)
  define s3 where "s3 = s2\<lparr>uc_stunCount := uc_stunCount s2 + 1, uc_stunRates := (uc_stunRates s2)[key := (window, count + 1)]\<rparr>"
  have ok3: "conn_ok s3" if "uc_stunCount s2 < 1024" and "count < 64"
  proof -
    have "uc_stunCount s2 + 1 \<le> 1024" "count + 1 \<le> 64" using that by (simp_all add: inc_le)
    then show ?thesis
      using ok2 rate_update [of "uc_stunRates s2" "(window, count + 1)" key] by (simp add: s3_def conn_ok_def)
  qed
  have "stun_answer e from packet s = (if uc_stunCount s2 \<ge> 1024 \<or> count \<ge> 64 then s2
      else if stun_binding_reply packet (fst from) (snd from) \<noteq> []
        then snd (to_socket e from (stun_binding_reply packet (fst from) (snd from)) s3) else s3)"
    using w by (simp add: stun_answer_def Let_def key_def s1_def s2_def s3_def)
  then show ?thesis using ok2 ok3 by (simp add: not_le ok_socket)
qed

lemma ok_decrypt: "conn_ok s \<Longrightarrow> decrypt e from packet s = (r, t) \<Longrightarrow> conn_ok t"
proof -
  assume ok: "conn_ok s" and d: "decrypt e from packet s = (r, t)"
  have "conn_ok (set_peer i (\<lambda>p. p\<lparr>up_secure := Some sd'\<rparr>) s)"
    if owner: "session_owner q s = Some (i, p)" and sd: "up_secure p = Some sd" and o: "open_sealed (ue_crypto e) packet sd = (plain, sd')" for q i p sd plain sd'
  proof -
    have "(i, p) \<in> set (uc_peers s)" using owner by (auto simp: session_owner_def dest: find_in)
    then have m: "map_of (uc_peers s) i = Some p" using ok by (simp add: conn_ok_def om_find_iff)
    show ?thesis
      using m sd established_opened [OF _ o] retry_opened [OF _ o] by (intro ok_touch [OF ok]) (auto intro: grows_secure)
  qed
  then show ?thesis
    using ok d by (auto simp: decrypt_def Let_def split: if_splits option.splits prod.splits)
qed

lemma ok_from_relay: "conn_ok s \<Longrightarrow> conn_ok (from_relay e from packet s)"
  by (auto simp: from_relay_def ok_mesh_input split: option.splits)

lemma ok_set_reliable: "conn_ok s \<Longrightarrow> conn_ok (set_reliable ru s)"
  by (rule tended_ok [OF tended_fields(3) [OF tended_refl]])

lemma ok_to_session: "conn_ok s \<Longrightarrow> conn_ok (to_session e from packet s)"
  by (auto simp: to_session_def Let_def split: option.splits prod.splits
      intro!: ok_touch ok_push_realtime ok_set_reliable)

text \<open>What the key exchange itself sends is neither an envelope nor a realtime packet.\<close>

lemma handshake_kinds:
  assumes "take 4 packet = duc \<or> take 4 packet = dsh_magic"
  shows "peer_group_header packet = 0" and "\<not> is_peer_tunnel packet" and "datagram_kind packet \<noteq> datagram_kind.Realtime"
proof -
  have ne: "take 4 packet \<noteq> group_magic" "take 4 packet \<noteq> tunnel_magic" "take 4 packet \<noteq> udp_magic"
    using assms by (auto simp: duc_def dsh_magic_def group_magic_def tunnel_magic_def udp_magic_def byte_of_char_def)
  then show "peer_group_header packet = 0" and "\<not> is_peer_tunnel packet"
    by (simp_all add: peer_group_header_def is_peer_tunnel_def)
  then show "datagram_kind packet \<noteq> datagram_kind.Realtime" using ne by (simp add: datagram_kind_def plain_kind_def)
qed

lemma decrypt_authenticates:
  assumes "decrypt e from packet s = (Some (plain, encrypted, a), t)" and "uc_inviteSecret s \<noteq> []"
  shows "encrypted \<and> a \<noteq> None \<or> \<not> encrypted \<and> plain = packet \<and> (take 4 plain = duc \<or> take 4 plain = dsh_magic)"
  using assms by (auto simp: decrypt_def Let_def split: if_splits option.splits prod.splits)

lemma decrypt_secret: "decrypt e from packet s = (r, t) \<Longrightarrow> uc_inviteSecret t = uc_inviteSecret s"
  by (auto simp: decrypt_def Let_def split: if_splits option.splits prod.splits)

lemma ok_demultiplex:
  assumes "conn_ok s" and "uc_inviteSecret s = [] \<or> a \<noteq> None \<or> take 4 packet = duc \<or> take 4 packet = dsh_magic"
  shows "conn_ok (demultiplex e from packet encrypted a s)"
  using assms handshake_kinds [of packet]
  by (auto simp: demultiplex_def ok_push_realtime ok_from_relay ok_receive_control ok_secure_handshake ok_to_session
      simp del: not_None_eq)

lemma ok_receive_one: "conn_ok s \<Longrightarrow> conn_ok (receive_one e d s)"
proof -
  assume ok: "conn_ok s"
  obtain "from" packet where d: "d = ((from), packet)" by fastforce
  obtain r t where r: "decrypt e from packet s = (r, t)" by fastforce
  have "conn_ok t" by (rule ok_decrypt [OF ok r])
  moreover have "conn_ok (demultiplex e from plain encrypted a t)" if "r = Some (plain, encrypted, a)" for plain encrypted a
    using decrypt_authenticates [of e "from" packet s plain encrypted a t] decrypt_secret [OF r] r that
    by (intro ok_demultiplex \<open>conn_ok t\<close>) auto
  ultimately show ?thesis using ok by (auto simp: receive_one_def d r ok_stun split: option.splits)
qed

subsection \<open>Messages and timeouts\<close>

lemma ok_take_message: "conn_ok s \<Longrightarrow> conn_ok (take_message e m s)"
proof -
  assume ok: "conn_ok s"
  have "conn_ok (set_peer i (\<lambda>p. p\<lparr>up_rx := up_rx p @ bs\<rparr>) s)"
    if "map_of (uc_peers s) i = Some p" "length (up_rx p) + length bs \<le> maxBufferedBytes" for i p bs
    using that by (intro ok_set_peer [OF ok]) (auto simp: peer_ok_def peer_channel_defs)
  then show ?thesis using ok by (auto simp: take_message_def not_less ok_close split: option.splits)
qed

lemma ok_take_messages: "conn_ok s \<Longrightarrow> conn_ok (take_messages e n s)"
  by (induction n arbitrary: s) (simp_all add: ok_take_message ok_set_reliable split: prod.splits option.splits)

text \<open>A turn takes every message that waits: the fuel is enough.\<close>

lemma control_reliable [simp]: "uc_reliable (control e i type s) = uc_reliable s"
  by (simp add: control_def)

lemma take_message_inbox:
  "length (ib_messages (ru_inbox (uc_reliable (take_message e m s)))) \<le> length (ib_messages (ru_inbox (uc_reliable s)))"
  by (auto simp: take_message_def close_peer_def forget_peer_def ru_remove_peer_def forget_messages_def split: option.splits)

lemma take_messages_all:
  "length (ib_messages (ru_inbox (uc_reliable s))) \<le> n \<Longrightarrow> ib_messages (ru_inbox (uc_reliable (take_messages e n s))) = []"
proof (induction n arbitrary: s)
  case (Suc n)
  show ?case
  proof (cases "ib_messages (ru_inbox (uc_reliable s))")
    case Nil
    then show ?thesis by (simp add: ru_pop_def)
  next
    case (Cons m ms)
    define ru where "ru = snd (ru_pop (uc_reliable s))"
    have pop: "ru_pop (uc_reliable s) = (Some m, ru)" and ms: "ib_messages (ru_inbox ru) = ms"
      by (simp_all add: ru_def ru_pop_def Cons)
    have "length (ib_messages (ru_inbox (uc_reliable (take_message e m (set_reliable ru s))))) \<le> n"
      using take_message_inbox [of e m "set_reliable ru s"] Suc.prems Cons ms by (simp add: set_reliable_def)
    then show ?thesis using Suc.IH by (simp add: pop)
  qed
qed simp

lemma ok_keep_alive: "conn_ok s \<Longrightarrow> conn_ok (keep_alive e i s)"
  by (simp add: keep_alive_def Let_def ok_control)

lemma ok_repeat: "conn_ok s \<Longrightarrow> conn_ok (repeat_handshake e i s)"
  by (simp add: repeat_handshake_def Let_def tended_ok [OF tended_put [OF tended_send]] split: option.splits)

lemma ok_sweep_peer: "conn_ok s \<Longrightarrow> conn_ok (sweep_peer e i s)"
  by (auto simp: sweep_peer_def Let_def intro!: ok_close ok_erase ok_repeat ok_keep_alive)

lemma ok_fold: "(\<And>x s. conn_ok s \<Longrightarrow> conn_ok (f x s)) \<Longrightarrow> conn_ok s \<Longrightarrow> conn_ok (fold f xs s)"
  by (induction xs arbitrary: s) auto

lemma ok_sweep: "conn_ok s \<Longrightarrow> conn_ok (sweep e s)"
  unfolding sweep_def by (rule ok_fold [OF ok_sweep_peer])

lemma ok_budget: "conn_ok s \<Longrightarrow> conn_ok (budget_update e s)"
  by (rule tended_ok [OF tended_budget])

lemma ok_poll: "conn_ok s \<Longrightarrow> conn_poll e datagrams s = Some t \<Longrightarrow> conn_ok t"
proof -
  assume ok: "conn_ok s" and p: "conn_poll e datagrams s = Some t"
  have "conn_ok (pump_mesh e (fold (receive_one e) ds s))" for ds
    by (intro ok_pump ok_fold [OF ok_receive_one] ok)
  then have "conn_ok s2" if "reliable_update e (pump_mesh e (fold (receive_one e) ds s)) = Some s2" for ds s2
    using tended_ok [OF tended_reliable [OF that]] by simp
  then show ?thesis using ok p
    by (auto simp: conn_poll_def Let_def split: if_splits intro!: ok_budget ok_sweep ok_take_messages)
qed

section \<open>The public operations\<close>

lemma ok_empty:
  assumes "conn_ok s" and "tended s t"
  shows "conn_ok (t\<lparr>uc_peers := [], uc_accepted := [], uc_realtime := [], uc_meshRealtime := [], uc_inviteSecret := [],
      uc_meshSecret := [], uc_localLogical := 0, uc_relayId := None, uc_stunHost := [], uc_stunPort := 0,
      uc_stun := False, uc_stunWindow := 0, uc_stunCount := 0, uc_stunRates := replicate 256 (0, 0), uc_open := False\<rparr>)"
  using tended_ok [OF assms(2,1)] by (simp add: conn_ok_def numbers_ok_def)

lemma ok_conn_close: "conn_ok s \<Longrightarrow> conn_ok (conn_close e s)"
proof -
  assume ok: "conn_ok s"
  have "tended t (forget_peer i (if c then control e i 6 t else t))" for t i c
    by (auto intro: tended_forget tended_control)
  then have "tended s (fold (\<lambda>(i, p) s. forget_peer i (if up_ready p \<and> \<not> up_closed p \<and> uc_open s then control e i 6 s else s)) ps s)"
    for ps :: "(u64 \<times> 'b upeer) list"
    by (intro tended_fold) (auto split: prod.splits)
  then show ?thesis unfolding conn_close_def Let_def by (rule ok_empty [OF ok])
qed

lemma closed_empty: "uc_peers (conn_close e s) = []" "uc_realtime (conn_close e s) = []" "uc_meshRealtime (conn_close e s) = []"
  "uc_accepted (conn_close e s) = []"
  by (simp_all add: conn_close_def Let_def)

lemma ok_open: "conn_ok s \<Longrightarrow> conn_ok (snd (conn_open e bound capacity server stun secret s))"
proof -
  assume "conn_ok s"
  then have ok: "conn_ok (conn_close e s)" by (rule ok_conn_close)
  define s1 where "s1 = (conn_close e s)\<lparr>uc_inviteSecret := secret, uc_meshSecret := secret\<rparr>"
  have n: "numbers_ok (u\<lparr>uc_inviteSecret := a, uc_meshSecret := b\<rparr>) = numbers_ok u"
    "numbers_ok (u\<lparr>uc_open := True, uc_capacity := c, uc_server := v, uc_stun := w\<rparr>) = numbers_ok u" for u :: "('a, 'b) uconn" and a b c v w
    by (simp_all add: numbers_ok_def)
  have ok1: "conn_ok s1" using ok by (simp add: s1_def conn_ok_def closed_empty n)
  then have "conn_ok (s1\<lparr>uc_open := True, uc_capacity := capacity, uc_server := server, uc_stun := st\<rparr>)" if "capacity \<le> 4096" for st
    using that by (simp add: conn_ok_def s1_def closed_empty n)
  then show ?thesis using ok ok_conn_close [OF ok1]
    by (auto simp: conn_open_def Let_def s1_def [symmetric] not_less intro: ok_budget)
qed

lemma ok_connect:
  fixes s :: "('k, 'i) uconn"
  assumes ok: "conn_ok s"
  shows "conn_ok (snd (conn_connect e address s))"
proof (cases "uc_open s \<and> \<not> uc_server s \<and> length (uc_peers s) < uc_capacity s \<and> address \<noteq> None")
  case False
  then show ?thesis using ok by (auto simp: conn_connect_def split: option.splits)
next
  case True
  then obtain a where a: "address = Some a" by auto
  define p :: "'i upeer" where "p = new_upeer\<lparr>up_address := a, up_nonce := draw_nonce e s, up_started := ue_now e, up_lastReceive := ue_now e\<rparr>"
  define sd where "sd = new_secure (ue_crypto e) (uc_inviteSecret s) True"
  have "peer_ok (uc_inviteSecret s) (if uc_inviteSecret s \<noteq> [] then p\<lparr>up_secure := Some sd\<rparr> else p)"
    by (simp add: p_def peer_ok_def new_upeer_def peer_channel_defs sd_def)
  note put = ok_new_peer [OF ok _ this]
  have "length (uc_peers s) < max (uc_capacity s) 8" using True by linarith
  from ok_control [OF put [OF this]] show ?thesis
    using True a tended_ok [OF tended_fields(5) [OF tended_refl] ok]
    by (cases "uc_inviteSecret s = []") (simp_all add: conn_connect_def Let_def p_def [symmetric] sd_def [symmetric])
qed

lemma accept_loop_queue: "accept_loop peers queue = (found, rest) \<Longrightarrow> set rest \<subseteq> set queue"
  by (induction queue) (auto split: option.splits if_splits)

lemma ok_accept: "conn_ok s \<Longrightarrow> conn_ok (snd (conn_accept s))"
proof -
  assume ok: "conn_ok s"
  obtain found rest where r: "accept_loop (uc_peers s) (uc_accepted s) = (found, rest)" by fastforce
  have "numbers_ok s \<Longrightarrow> numbers_ok (s\<lparr>uc_accepted := rest\<rparr>)"
    using accept_loop_queue [OF r] by (auto simp: numbers_ok_def subset_iff)
  then show ?thesis using ok by (simp add: conn_accept_def r conn_ok_def)
qed

lemma ok_disconnect: "conn_ok s \<Longrightarrow> conn_ok (conn_disconnect e i s)"
  by (simp add: conn_disconnect_def Let_def ok_erase ok_close)

lemma ok_send_message: "conn_ok s \<Longrightarrow> conn_ok (snd (send_message e i bytes s))"
  by (simp add: send_message_def ok_set_reliable split: prod.splits)

lemma ok_receive_bytes: "conn_ok s \<Longrightarrow> conn_ok (snd (receive_bytes i limit s))"
  by (auto simp: receive_bytes_def Let_def peer_ok_def peer_channel_defs split: option.splits intro!: ok_set_peer)

lemma ok_budget_send: "conn_ok s \<Longrightarrow> budget_send i bytes s = (good, t) \<Longrightarrow> conn_ok t"
  using tended_ok [OF tended_budget_send] by blast

lemma ok_send_realtime: "conn_ok s \<Longrightarrow> conn_ok (snd (send_realtime e address bytes s))"
  by (auto simp: send_realtime_def split: option.splits prod.splits dest: ok_budget_send intro: ok_budget)

lemma ok_bind: "conn_ok s \<Longrightarrow> conn_ok (snd (bind_realtime i address s))"
  by (auto simp: bind_realtime_def ok_touch split: option.splits)

lemma ok_tl: "conn_ok s \<Longrightarrow> uc_realtime s = packet # rest \<Longrightarrow> conn_ok (s\<lparr>uc_realtime := rest\<rparr>)"
  "conn_ok s \<Longrightarrow> uc_meshRealtime s = p # ps \<Longrightarrow> conn_ok (s\<lparr>uc_meshRealtime := ps\<rparr>)"
  by (simp_all add: conn_ok_def)

lemma ok_receive_realtime:
  assumes "conn_ok s" and "receive_realtime e datagrams limit s = Some (r, t)"
  shows "conn_ok t"
proof -
  have "\<exists>u. (if uc_realtime s = [] then conn_poll e datagrams s else Some s) = Some u \<and>
      (case uc_realtime u of [] \<Rightarrow> (None, u)
       | packet # rest \<Rightarrow> (Some (packet\<lparr>rw_bytes := take limit (rw_bytes packet)\<rparr>), u\<lparr>uc_realtime := rest\<rparr>)) = (r, t)"
    using assms(2) unfolding receive_realtime_def map_option_eq_Some .
  then obtain u where u: "(if uc_realtime s = [] then conn_poll e datagrams s else Some s) = Some u"
    and t: "(case uc_realtime u of [] \<Rightarrow> (None, u)
       | packet # rest \<Rightarrow> (Some (packet\<lparr>rw_bytes := take limit (rw_bytes packet)\<rparr>), u\<lparr>uc_realtime := rest\<rparr>)) = (r, t)"
    by (elim exE conjE)
  have "conn_ok u" using u assms(1) by (cases "uc_realtime s = []") (simp_all add: ok_poll)
  then show ?thesis using t by (cases "uc_realtime u") (auto simp: ok_tl(1))
qed

lemma ok_mesh_receive:
  assumes "conn_ok s" and "mesh_receive e datagrams limit s = Some (r, t)"
  shows "conn_ok t"
proof -
  have "\<exists>u. conn_poll e datagrams s = Some u \<and>
      (case uc_meshRealtime u of [] \<Rightarrow> (None, u)
       | packet # rest \<Rightarrow> (if length (snd packet) > limit then None else Some packet, u\<lparr>uc_meshRealtime := rest\<rparr>)) = (r, t)"
    using assms(2) unfolding mesh_receive_def map_option_eq_Some .
  then obtain u where u: "conn_poll e datagrams s = Some u"
    and t: "(case uc_meshRealtime u of [] \<Rightarrow> (None, u)
       | packet # rest \<Rightarrow> (if length (snd packet) > limit then None else Some packet, u\<lparr>uc_meshRealtime := rest\<rparr>)) = (r, t)"
    by (elim exE conjE)
  have "conn_ok u" by (rule ok_poll [OF assms(1) u])
  then show ?thesis using t by (cases "uc_meshRealtime u") (auto simp: ok_tl(2))
qed

lemma ok_mesh_settings: "conn_ok s \<Longrightarrow> conn_ok (snd (set_mesh_secret secret s))"
  "conn_ok s \<Longrightarrow> conn_ok (snd (mesh_open localId relay host port s))"
  by (auto simp: set_mesh_secret_def mesh_open_def conn_ok_def numbers_ok_def)

lemma ok_mesh_admit: "conn_ok s \<Longrightarrow> conn_ok (snd (mesh_admit e peerId reliable s))"
proof -
  assume ok: "conn_ok s"
  have p: "peer_ok (uc_inviteSecret s) (mesh_peer e number reliable s)" if "number \<noteq> 0" for number
    using that by (simp add: mesh_peer_def peer_ok_def new_upeer_def peer_channel_defs Let_def)
  show ?thesis
    using ok ok_new_peer [OF ok _ p]
    by (auto simp: mesh_admit_def Let_def split: option.splits prod.splits bool.splits
        dest!: tended_make_ready intro!: ok_erase elim!: tended_ok)
qed

lemma ok_mesh_remove: "conn_ok s \<Longrightarrow> conn_ok (mesh_remove e peerId s)"
proof -
  have f: "conn_ok s \<Longrightarrow> conn_ok (s\<lparr>uc_meshRealtime := filter P (uc_meshRealtime s)\<rparr>)" for s :: "('a, 'b) uconn" and P
    by (auto simp: conn_ok_def intro: le_trans [OF length_filter_le])
  show "conn_ok s \<Longrightarrow> ?thesis"
    unfolding mesh_remove_def Let_def by (intro f) (auto simp: ok_erase ok_close split: option.splits)
qed

lemma grows_offer: "offer_signal e sig p = (good, q) \<Longrightarrow> grows p q"
  by (auto simp: offer_signal_def Let_def grows_def peer_channel_defs split: option.splits prod.splits bool.splits)

lemma grows_restart: "grows p (restart_ice e g s p)" "grows p ((restart_ice e g s p)\<lparr>up_retryAt := t\<rparr>)"
  by (simp_all add: restart_ice_def grows_def peer_channel_defs)

lemma ok_signal:
  assumes ok: "conn_ok s"
  shows "conn_ok (snd (mesh_signal e peerId sig s))"
proof (cases "logical_peer (peer_number peerId) s")
  case None
  then show ?thesis using ok by (simp add: mesh_signal_def)
next
  case (Some i)
  define p where "p = (if is_generation sig \<noteq> up_iceGeneration (peer_at s i)
    then restart_ice e (is_generation sig) s (peer_at s i) else peer_at s i)"
  obtain good q where q: "offer_signal e sig p = (good, q)" by fastforce
  have "grows (peer_at s i) p" by (simp add: p_def grows_restart)
  then have "grows (peer_at s i) q" using grows_offer [OF q] by (rule grows_chain)
  then have "conn_ok (drawn (set_peer i (\<lambda>_. q) s))"
    using ok by (intro tended_ok [OF tended_fields(5) [OF tended_put [OF tended_refl]]]) (auto simp: peer_at_def)
  then show ?thesis using ok q
    by (simp add: mesh_signal_def Some Let_def p_def [symmetric] ok_touch)
qed

lemma pop_signals_map:
  "pop_signals e m = (found, m') \<Longrightarrow> map fst m' = map fst m \<and> (\<forall>i. rel_option grows (map_of m i) (map_of m' i))"
proof (induction m arbitrary: found m')
  case (Cons x m)
  obtain i p where x: "x = (i, p)" by fastforce
  have g: "grows p (p\<lparr>up_ice := ice, up_iceSent := xs\<rparr>)" for ice xs by (simp add: grows_def peer_channel_defs)
  show ?case
  proof (cases "up_logical p \<noteq> 0 \<and> \<not> up_closed p \<and> up_ice p \<noteq> None")
    case False
    then have "\<exists>m''. pop_signals e m = (found, m'') \<and> m' = (i, p) # m''"
      using Cons.prems by (auto simp: x split: prod.splits option.splits if_splits)
    then show ?thesis using Cons.IH by (auto simp: x)
  next
    case True
    then obtain ice where ice: "up_ice p = Some ice" by auto
    obtain sig ice' where pop: "ic_pop_signal (ue_ice e) ice = (sig, ice')" by fastforce
    show ?thesis
    proof (cases sig)
      case None
      then have "\<exists>m''. pop_signals e m = (found, m'') \<and> m' = (i, p\<lparr>up_ice := Some ice'\<rparr>) # m''"
        using Cons.prems True ice pop by (auto simp: x split: prod.splits)
      then show ?thesis using Cons.IH by (auto simp: x)
    next
      case (Some v)
      then show ?thesis using Cons.prems True ice pop g by (auto simp: x option.rel_refl)
    qed
  qed
qed simp

lemma ok_pop_signal: "conn_ok s \<Longrightarrow> conn_ok (snd (mesh_pop_signal e s))"
proof -
  assume ok: "conn_ok s"
  obtain found m where m: "pop_signals e (uc_peers s) = (found, m)" by fastforce
  have "tended s (s\<lparr>uc_peers := m\<rparr>)"
    using pop_signals_map [OF m] by (simp add: tended_def om_ok_def)
  then show ?thesis using tended_ok ok by (simp add: mesh_pop_signal_def m) blast
qed

lemma ok_mesh_send: "conn_ok s \<Longrightarrow> conn_ok (snd (mesh_send e peerId bytes s))"
  by (auto simp: mesh_send_def split: option.splits prod.splits dest: ok_budget_send intro: ok_budget)

lemma ok_enqueue: "conn_ok s \<Longrightarrow> enqueue_counted i packet (queued, s) = (taken, queued', t) \<Longrightarrow> conn_ok t"
  by (cases queued) (auto simp: enqueue_counted_def split: prod.splits bool.splits dest: ok_budget_send)

lemma ok_send_one: "conn_ok s \<Longrightarrow> conn_ok (snd (snd (send_one e bytes name (g, queued, s))))"
  by (cases g) (auto simp: send_one_def Let_def split: option.splits prod.splits dest: ok_enqueue)

lemma ok_send_many: "conn_ok s \<Longrightarrow> conn_ok (snd (snd (mesh_send_many e names bytes queued s)))"
proof -
  assume ok: "conn_ok s"
  have f: "conn_ok (snd (snd (fold (send_one e bytes) names (g, q, s))))" if "conn_ok s" for names g q and s :: "('a, 'b) uconn"
    using that
  proof (induction names arbitrary: g q s)
    case (Cons n names)
    obtain g' q' s' where n: "send_one e bytes n (g, q, s) = (g', q', s')" by (metis prod.collapse)
    show ?case using Cons.IH [of s' g' q'] ok_send_one [OF Cons.prems, of e bytes n g q] by (simp add: n)
  qed simp
  obtain good fallback q1 s1 where r: "fold (send_one e bytes) names ((True, []), queued, s) = ((good, fallback), q1, s1)"
    by (metis prod.collapse)
  have "conn_ok s1" using f [OF ok, of names "(True, [])" queued] by (simp add: r)
  then show ?thesis using ok
    by (auto simp: mesh_send_many_def r split: option.splits prod.splits dest: ok_enqueue intro: ok_budget)
qed

lemma ok_retry: "conn_ok s \<Longrightarrow> conn_ok (snd (mesh_retry e peerId s))"
  by (auto simp: mesh_retry_def Let_def grows_restart split: option.splits
      intro!: tended_ok [OF tended_fields(5) [OF tended_put [OF tended_refl]]])

end
