(* ===== verification/Connection_Queues.thy ===== *)
theory Connection_Queues
  imports Connection_Bounds
begin

text \<open>
  What reaches the queues the game reads: every step of the reception of a datagram but two leaves them
  alone, and what those two append was opened under the key of a peer when the connection has a secret.
\<close>

section \<open>Steps that leave the queues alone\<close>

definition quiet :: "('k, 'i) uconn \<Rightarrow> ('k, 'i) uconn \<Rightarrow> bool" where
  "quiet s t \<longleftrightarrow> uc_realtime t = uc_realtime s \<and> uc_meshRealtime t = uc_meshRealtime s \<and>
     uc_inviteSecret t = uc_inviteSecret s"

named_theorems quieting

lemma quiet_refl [simp, quieting]: "quiet s s"
  by (simp add: quiet_def)

lemma quiet_trans: "quiet s t \<Longrightarrow> quiet t u \<Longrightarrow> quiet s u"
  by (simp add: quiet_def)

lemma tended_quiet: "tended s t \<Longrightarrow> quiet s t"
  by (simp add: tended_def quiet_def)

lemma quiet_fields [quieting]:
  "quiet s t \<Longrightarrow> quiet s (set_peer i f t)" "quiet s t \<Longrightarrow> quiet s (drawn t)"
  "quiet s t \<Longrightarrow> quiet s (set_reliable ru t)" "quiet s t \<Longrightarrow> quiet s (mark_accepted i t)"
  "quiet s t \<Longrightarrow> quiet s (t\<lparr>uc_out := out\<rparr>)"
  by (simp_all add: quiet_def drawn_def set_reliable_def mark_accepted_def)

lemma quiet_control [quieting]: "quiet s t \<Longrightarrow> quiet s (control e i type t)"
  by (rule quiet_trans [OF _ tended_quiet [OF tended_control]])

lemma quiet_close [quieting]: "quiet s t \<Longrightarrow> quiet s (close_peer e i notify t)"
  by (rule quiet_trans [OF _ tended_quiet [OF tended_close]])

lemma quiet_send [quieting]: "quiet s t \<Longrightarrow> quiet s (snd (conn_send e i bytes t))"
  by (rule quiet_trans [OF _ tended_quiet [OF tended_send]])

lemma quiet_hello [quieting]: "quiet s (receive_hello e from token found s)"
proof -
  have "quiet s (snd (admit_address e from token s))"
    by (simp add: admit_address_def Let_def quiet_def drawn_def)
  then show ?thesis
    by (auto simp: receive_hello_def split: option.splits prod.splits intro!: quieting)
qed

lemma quiet_confirm [quieting]: "quiet s (receive_confirm e i s)"
proof -
  obtain good t where t: "make_ready e i s = (good, t)" by fastforce
  have "quiet s t" by (rule tended_quiet [OF tended_make_ready [OF t]])
  then show ?thesis by (cases good) (auto simp: receive_confirm_def t Let_def intro!: quieting)
qed

lemma quiet_challenge [quieting]: "quiet s (receive_challenge e i session s)"
  by (auto simp: receive_challenge_def Let_def intro!: quieting)

lemma quiet_receive_control: "quiet s (receive_control e from bytes encrypted s)"
  by (auto simp: receive_control_def Let_def split: option.splits intro!: quieting intro: tended_quiet tended_accept)

lemma quiet_handshake: "quiet s (receive_secure_handshake e from bytes s)"
  by (auto simp: receive_secure_handshake_def Let_def split: option.splits prod.splits intro!: quieting)

lemma quiet_stun: "quiet s (stun_answer e from packet s)"
  by (auto simp: stun_answer_def Let_def quiet_def to_socket_def split: prod.splits)

lemma quiet_decrypt: "decrypt e from packet s = (r, t) \<Longrightarrow> quiet s t"
  by (auto simp: decrypt_def Let_def intro!: quieting split: if_splits option.splits prod.splits)

section \<open>Steps that append\<close>

text \<open>
  A packet for the game that opened under the key of the player it is attributed to, and one a member
  of the mesh sent through the relay: the relayed bytes opened under the key of a session, and the
  name they are queued under is the sender the envelope and the peers know.
\<close>

definition opens_as :: "('k, 'i) uenv \<Rightarrow> bytes \<Rightarrow> ('k, 'i) uconn \<Rightarrow> u64 \<Rightarrow> bytes \<Rightarrow> bool" where
  "opens_as e packet s i plain \<longleftrightarrow> (case map_of (uc_peers s) i of
     None \<Rightarrow> False
   | Some p \<Rightarrow> up_logical p = 0 \<and> \<not> up_closed p \<and> (case up_secure p of
       None \<Rightarrow> False
     | Some sd \<Rightarrow> established sd \<and> fst (open_sealed (ue_crypto e) packet sd) = Some plain))"

definition vouched :: "('k, 'i) uenv \<Rightarrow> sock_addr \<Rightarrow> bytes \<Rightarrow> ('k, 'i) uconn \<Rightarrow> raw_packet set" where
  "vouched e from packet s = {r. \<exists>i. rw_authenticatedPeer r = Some i \<and> rw_address r = from \<and>
     opens_as e packet s i (rw_bytes r)}"

definition relayed :: "('k, 'i) uenv \<Rightarrow> bytes \<Rightarrow> ('k, 'i) uconn \<Rightarrow> (string \<times> bytes) set" where
  "relayed e packet s = {(name, bytes). \<exists>i plain. opens_as e packet s i plain \<and> is_peer_tunnel plain \<and>
     bytes = drop 20 plain \<and> name = claimed_sender bytes \<and> tunnel_read (subspan 4 8 plain) = peer_number name}"

lemma decrypt_opens:
  assumes ok: "conn_ok s" and secret: "uc_inviteSecret s \<noteq> []" and d: "decrypt e from packet s = (Some (plain, encrypted, a), t)"
  shows "(\<exists>i. a = Some i \<and> encrypted \<and> opens_as e packet s i plain) \<or>
    \<not> encrypted \<and> (take 4 plain = duc \<or> take 4 plain = dsh_magic)"
proof (cases "length packet \<ge> 36 \<and> take 4 packet = dse")
  case False
  then show ?thesis using secret d by (auto simp: decrypt_def split: if_splits)
next
  case True
  then obtain i p sd where owner: "session_owner (get_le (subspan 4 8 packet)) s = Some (i, p)" and sd: "up_secure p = Some sd"
    and a: "a = Some i" "encrypted" "fst (open_sealed (ue_crypto e) packet sd) = Some plain"
    using secret d by (auto simp: decrypt_def Let_def split: option.splits prod.splits if_splits)
  have "(i, p) \<in> set (uc_peers s)" and "up_logical p = 0" "\<not> up_closed p" "peer_established p"
    using owner unfolding session_owner_def by (auto simp: find_Some_iff in_set_conv_nth)
  moreover from this have "map_of (uc_peers s) i = Some p" using ok by (simp add: conn_ok_def om_find_iff)
  ultimately show ?thesis using a sd by (simp add: opens_as_def peer_established_def)
qed

lemma logical_is:
  assumes ok: "om_ok (uc_peers s)" and l: "logical_peer n s = Some i"
  shows "up_logical (peer_at s i) = n"
proof -
  obtain p where found: "find (\<lambda>(i, p). \<not> up_closed p \<and> up_logical p = n) (uc_peers s) = Some (i, p)"
    using l by (auto simp: logical_peer_def split: if_splits)
  have "(i, p) \<in> set (uc_peers s)" "up_logical p = n"
    using found find_in [OF found] by (auto simp: find_Some_iff)
  moreover from this have "map_of (uc_peers s) i = Some p" using ok by (simp add: om_find_iff)
  ultimately show ?thesis by (simp add: peer_at_def)
qed

lemma mesh_input_appends:
  "uc_realtime (mesh_input e i bytes s) = uc_realtime s \<and>
   uc_inviteSecret (mesh_input e i bytes s) = uc_inviteSecret s \<and>
   set (uc_meshRealtime (mesh_input e i bytes s)) \<subseteq> set (uc_meshRealtime s) \<union>
     {(name, b). b = bytes \<and> name = claimed_sender bytes \<and> peer_number name = up_logical (peer_at s i)}"
  by (simp add: mesh_input_def Let_def set_reliable_def)

lemma from_relay_appends:
  assumes "om_ok (uc_peers s)"
  shows "uc_realtime (from_relay e from packet s) = uc_realtime s \<and>
   uc_inviteSecret (from_relay e from packet s) = uc_inviteSecret s \<and>
   set (uc_meshRealtime (from_relay e from packet s)) \<subseteq> set (uc_meshRealtime s) \<union>
     {(name, b). b = drop 20 packet \<and> name = claimed_sender b \<and> tunnel_read (subspan 4 8 packet) = peer_number name}"
proof (cases "logical_peer (tunnel_read (subspan 4 8 packet)) s")
  case None
  then show ?thesis by (simp add: from_relay_def split: option.split)
next
  case (Some i)
  show ?thesis
    using mesh_input_appends [of e i "drop 20 packet" s] logical_is [OF assms Some] Some
    by (auto simp: from_relay_def split: option.split)
qed

text \<open>What a packet the session layer takes is appended to is not the queue of the game.\<close>

lemma to_session_quiet: "datagram_kind packet \<noteq> datagram_kind.Realtime \<Longrightarrow> quiet s (to_session e from packet s)"
  by (auto simp: to_session_def Let_def intro!: quieting split: option.splits prod.splits)

lemma demultiplex_appends:
  assumes "om_ok (uc_peers s)"
  shows "uc_inviteSecret (demultiplex e from packet encrypted a s) = uc_inviteSecret s \<and>
   set (uc_realtime (demultiplex e from packet encrypted a s)) \<subseteq> set (uc_realtime s) \<union>
     {r. rw_authenticatedPeer r = a \<and> rw_address r = from \<and> rw_bytes r = packet} \<and>
   set (uc_meshRealtime (demultiplex e from packet encrypted a s)) \<subseteq> set (uc_meshRealtime s) \<union>
     {(name, b). is_peer_tunnel packet \<and> b = drop 20 packet \<and> name = claimed_sender b \<and>
        tunnel_read (subspan 4 8 packet) = peer_number name}"
proof -
  have push: "uc_inviteSecret (push_realtime from packet a s) = uc_inviteSecret s"
    "uc_meshRealtime (push_realtime from packet a s) = uc_meshRealtime s"
    "set (uc_realtime (push_realtime from packet a s)) \<subseteq> set (uc_realtime s) \<union>
      {r. rw_authenticatedPeer r = a \<and> rw_address r = from \<and> rw_bytes r = packet}"
    by (auto simp: push_realtime_def)
  note q = quiet_receive_control [of s e "from" packet encrypted] quiet_handshake [of s e "from" packet]
    to_session_quiet [of packet s e "from"]
  show ?thesis
    using push q from_relay_appends [OF assms, of e "from" packet] unfolding demultiplex_def
    by (auto simp: quiet_def)
qed

lemma demultiplex_plain:
  assumes "take 4 packet = duc \<or> take 4 packet = dsh_magic"
  shows "quiet s (demultiplex e from packet False a s)"
  using assms handshake_kinds [OF assms] quiet_receive_control [of s e "from" packet False] quiet_handshake [of s e "from" packet]
  by (auto simp: demultiplex_def)

text \<open>One datagram.\<close>

lemma receive_appends:
  assumes ok: "conn_ok s" and secret: "uc_inviteSecret s \<noteq> []"
  shows "uc_inviteSecret (receive_one e (from, packet) s) = uc_inviteSecret s \<and>
    set (uc_realtime (receive_one e (from, packet) s)) \<subseteq> set (uc_realtime s) \<union> vouched e from packet s \<and>
    set (uc_meshRealtime (receive_one e (from, packet) s)) \<subseteq> set (uc_meshRealtime s) \<union> relayed e packet s"
proof (cases "uc_stun s \<and> is_stun_binding packet")
  case True
  then show ?thesis using quiet_stun [of s e "from" packet] by (simp add: receive_one_def quiet_def)
next
  case False
  obtain r t where d: "decrypt e from packet s = (r, t)" by fastforce
  have q: "quiet s t" and om: "om_ok (uc_peers t)"
    using quiet_decrypt [OF d] ok_decrypt [OF ok d] by (simp_all add: conn_ok_def)
  show ?thesis
  proof (cases r)
    case None
    then have "receive_one e (from, packet) s = t" using False d by (auto simp: receive_one_def)
    then show ?thesis using q by (simp add: quiet_def)
  next
    case (Some x)
    obtain plain encrypted a where x: "x = (plain, encrypted, a)" by (cases x)
    have one: "receive_one e (from, packet) s = demultiplex e from plain encrypted a t"
      using False d Some x by (auto simp: receive_one_def)
    from decrypt_opens [OF ok secret d [unfolded Some x]] show ?thesis
    proof (elim disjE exE conjE)
      fix i
      assume "a = Some i" "opens_as e packet s i plain"
      then show ?thesis
        using demultiplex_appends [OF om, of e "from" plain encrypted a] q unfolding one
        by (fastforce simp: vouched_def relayed_def quiet_def)
    next
      assume "\<not> encrypted" "take 4 plain = duc"
      then show ?thesis using quiet_trans [OF q demultiplex_plain [of plain t e "from" a]] one by (simp add: quiet_def)
    next
      assume "\<not> encrypted" "take 4 plain = dsh_magic"
      then show ?thesis using quiet_trans [OF q demultiplex_plain [of plain t e "from" a]] one by (simp add: quiet_def)
    qed
  qed
qed

text \<open>The datagrams of one turn, one after the other.\<close>

lemma received_ok:
  "conn_ok s \<Longrightarrow> uc_inviteSecret s \<noteq> [] \<Longrightarrow>
   conn_ok (fold (receive_one e) ds s) \<and> uc_inviteSecret (fold (receive_one e) ds s) \<noteq> []"
proof (induction ds arbitrary: s)
  case (Cons d ds)
  obtain a packet where d: "d = (a, packet)" by fastforce
  show ?case using Cons.IH [of "receive_one e d s"] ok_receive_one [OF Cons.prems(1), of e d]
      receive_appends [OF Cons.prems, of e a packet] Cons.prems(2) by (simp add: d)
qed simp

text \<open>A packet of an agent: with a key, what it delivers opened under that key.\<close>

definition arrived :: "('k, 'i) uenv \<Rightarrow> u64 \<Rightarrow> bytes \<Rightarrow> ('k, 'i) uconn \<Rightarrow> (string \<times> bytes) set" where
  "arrived e i packet s = {(name, bytes). name = claimed_sender bytes \<and> peer_number name = up_logical (peer_at s i) \<and>
     (case up_secure (peer_at s i) of
        None \<Rightarrow> bytes = packet
      | Some sd \<Rightarrow> fst (open_sealed (ue_crypto e) packet sd) = Some bytes)}"

lemma payload_appends:
  assumes "map_of (uc_peers s) i = Some p" and "quiet s0 s"
  shows "uc_realtime (ice_payload e i bytes s) = uc_realtime s0 \<and>
    set (uc_meshRealtime (ice_payload e i bytes s)) \<subseteq> set (uc_meshRealtime s0) \<union>
      {(name, b). b = bytes \<and> name = claimed_sender bytes \<and> peer_number name = up_logical p}"
proof -
  let ?s = "set_peer i (\<lambda>p. p\<lparr>up_lastPayloadPacket := ue_now e, up_payloadPackets := up_payloadPackets p + 1\<rparr>) s"
  have "up_logical (peer_at ?s i) = up_logical p" using assms(1) by (simp add: peer_at_def map_of_set_peer)
  moreover have "quiet s0 ?s" by (intro quieting assms(2))
  ultimately show ?thesis using mesh_input_appends [of e i bytes ?s] by (simp add: ice_payload_def quiet_def)
qed

lemma ice_packet_appends:
  assumes p: "map_of (uc_peers s) i = Some p"
  shows "uc_realtime (ice_packet e i packet s) = uc_realtime s \<and>
    set (uc_meshRealtime (ice_packet e i packet s)) \<subseteq> set (uc_meshRealtime s) \<union> arrived e i packet s"
proof -
  define s1 where "s1 = set_peer i (\<lambda>p. p\<lparr>up_lastIcePacket := ue_now e\<rparr>) s"
  have s1: "map_of (uc_peers s1) i = Some (p\<lparr>up_lastIcePacket := ue_now e\<rparr>)" "quiet s s1"
    using p by (simp_all add: s1_def map_of_set_peer quiet_fields)
  have p1: "peer_at s1 i = p\<lparr>up_lastIcePacket := ue_now e\<rparr>" "peer_at s i = p"
    using s1(1) p by (simp_all add: peer_at_def)
  have quiet_case: ?thesis if "quiet s (ice_packet e i packet s)" using that by (auto simp: quiet_def)
  consider "length packet = 13 \<and> take 4 packet = dpi" | "\<not> (length packet = 13 \<and> take 4 packet = dpi)" "up_secure p = None"
    | sd where "\<not> (length packet = 13 \<and> take 4 packet = dpi)" "up_secure p = Some sd" "length packet \<ge> 5 \<and> take 4 packet = dsh_magic"
    | sd where "\<not> (length packet = 13 \<and> take 4 packet = dpi)" "up_secure p = Some sd" "\<not> (length packet \<ge> 5 \<and> take 4 packet = dsh_magic)"
    by fastforce
  then show ?thesis
  proof cases
    case 1
    then show ?thesis using s1(2) by (intro quiet_case) (simp add: ice_packet_def Let_def s1_def [symmetric] quiet_fields)
  next
    case 2
    then have "ice_packet e i packet s = ice_payload e i packet s1"
      by (auto simp: ice_packet_def Let_def s1_def [symmetric] p1)
    then show ?thesis using payload_appends [OF s1, of e packet] 2 p1 by (fastforce simp: arrived_def)
  next
    case 3
    then show ?thesis using s1(2)
      by (intro quiet_case) (auto simp: ice_packet_def Let_def s1_def [symmetric] p1 intro!: quieting split: prod.split)
  next
    case (4 sd)
    obtain plaintext sd' where o: "open_sealed (ue_crypto e) packet sd = (plaintext, sd')" by fastforce
    define s2 where "s2 = set_peer i (\<lambda>p. p\<lparr>up_secure := Some sd'\<rparr>) s1"
    have s2: "map_of (uc_peers s2) i = Some (p\<lparr>up_lastIcePacket := ue_now e, up_secure := Some sd'\<rparr>)" "quiet s s2"
      using s1 by (simp_all add: s2_def map_of_set_peer quiet_fields)
    have i: "ice_packet e i packet s = (case plaintext of None \<Rightarrow> s2 | Some plain \<Rightarrow> ice_payload e i plain s2)"
      using 4 o by (auto simp: ice_packet_def Let_def s1_def [symmetric] s2_def p1 split: option.split)
    show ?thesis
    proof (cases plaintext)
      case None
      then show ?thesis using i s2(2) by (intro quiet_case) simp
    next
      case (Some plain)
      then show ?thesis using payload_appends [OF s2, of e plain] i 4 o p1 by (fastforce simp: arrived_def)
    qed
  qed
qed

end
