(* ===== verification/Connection_Safety.thy ===== *)
theory Connection_Safety
  imports Connection_Queues Secure_Exchange Reliable_Stream
begin

text \<open>
  What a connection promises its user: bounded tables, players and packets that were authenticated, and
  sessions that nothing without a key can disturb.
\<close>

section \<open>The machine\<close>

datatype conn_op =
    Opens bool nat bool bool string
  | Closes
  | Connects "sock_addr option"
  | Accepts
  | Disconnects u64
  | SendsMessage u64 bytes
  | ReceivesBytes u64 nat
  | SendsRealtime sock_addr bytes
  | BindsRealtime u64 sock_addr
  | ReceivesRealtime "(sock_addr \<times> bytes) list" nat
  | Polls "(sock_addr \<times> bytes) list"
  | SetsMeshSecret string
  | MeshOpens string "u64 option" string u16
  | MeshAdmits string bool
  | MeshRemoves string
  | MeshSignals string ice_signal
  | MeshPopsSignal
  | MeshSends string bytes
  | MeshReceives "(sock_addr \<times> bytes) list" nat
  | MeshSendsMany "string list" bytes
  | MeshRetries string

text \<open>Each operation has the clock, the random values and the libraries of its call; one that hangs changes nothing.\<close>

fun conn_step :: "('k, 'i) uenv \<times> conn_op \<Rightarrow> ('k, 'i) uconn \<Rightarrow> ('k, 'i) uconn" where
  "conn_step (e, Opens bound capacity server stun secret) s = snd (conn_open e bound capacity server stun secret s)"
| "conn_step (e, Closes) s = conn_close e s"
| "conn_step (e, Connects address) s = snd (conn_connect e address s)"
| "conn_step (e, Accepts) s = snd (conn_accept s)"
| "conn_step (e, Disconnects i) s = conn_disconnect e i s"
| "conn_step (e, SendsMessage i bytes) s = snd (send_message e i bytes s)"
| "conn_step (e, ReceivesBytes i limit) s = snd (receive_bytes i limit s)"
| "conn_step (e, SendsRealtime address bytes) s = snd (send_realtime e address bytes s)"
| "conn_step (e, BindsRealtime i address) s = snd (bind_realtime i address s)"
| "conn_step (e, ReceivesRealtime datagrams limit) s = (case receive_realtime e datagrams limit s of Some (_, t) \<Rightarrow> t | None \<Rightarrow> s)"
| "conn_step (e, Polls datagrams) s = (case conn_poll e datagrams s of Some t \<Rightarrow> t | None \<Rightarrow> s)"
| "conn_step (e, SetsMeshSecret secret) s = snd (set_mesh_secret secret s)"
| "conn_step (e, MeshOpens localId relay host port) s = snd (mesh_open localId relay host port s)"
| "conn_step (e, MeshAdmits peerId reliable) s = snd (mesh_admit e peerId reliable s)"
| "conn_step (e, MeshRemoves peerId) s = mesh_remove e peerId s"
| "conn_step (e, MeshSignals peerId sig) s = snd (mesh_signal e peerId sig s)"
| "conn_step (e, MeshPopsSignal) s = snd (mesh_pop_signal e s)"
| "conn_step (e, MeshSends peerId bytes) s = snd (mesh_send e peerId bytes s)"
| "conn_step (e, MeshReceives datagrams limit) s = (case mesh_receive e datagrams limit s of Some (_, t) \<Rightarrow> t | None \<Rightarrow> s)"
| "conn_step (e, MeshSendsMany names bytes) s = snd (snd (mesh_send_many e names bytes (0, 0) s))"
| "conn_step (e, MeshRetries peerId) s = snd (mesh_retry e peerId s)"

lemma conn_step_ok: "conn_ok s \<Longrightarrow> conn_ok (conn_step ev s)"
proof (induction ev s rule: conn_step.induct)
  case (10 e datagrams limit s)
  then show ?case by (auto split: option.splits dest: ok_receive_realtime)
next
  case (11 e datagrams s)
  then show ?case by (auto split: option.splits dest: ok_poll)
next
  case (19 e datagrams limit s)
  then show ?case by (auto split: option.splits dest: ok_mesh_receive)
qed (simp_all add: ok_open ok_conn_close ok_connect ok_accept ok_disconnect ok_send_message ok_receive_bytes
  ok_send_realtime ok_bind ok_mesh_settings ok_mesh_admit ok_mesh_remove ok_signal ok_pop_signal ok_mesh_send ok_send_many ok_retry)

lemma new_conn_ok: "\<exists>s. new_conn = Some s \<and> conn_ok s"
  by (simp add: new_conn_def new_scheduler_def new_reliable_def default_limits_def conn_ok_def numbers_ok_def)

interpretation connection: invariant_machine "\<lambda>ev. map_option (conn_step ev)" "pred_option conn_ok" new_conn
proof
  show "pred_option conn_ok new_conn" by (metis new_conn_ok option.pred_inject(2))
  show "pred_option conn_ok (map_option (conn_step ev) s)" if "pred_option conn_ok s"
    for s :: "('a, 'b) uconn option" and ev
    using that by (cases s) (simp_all add: conn_step_ok)
qed

definition reached :: "(('k, 'i) uenv \<times> conn_op) list \<Rightarrow> ('k, 'i) uconn option" where
  "reached evs = fold (\<lambda>ev. map_option (conn_step ev)) evs new_conn"

lemma fold_steps_some: "fold (\<lambda>ev. map_option (conn_step ev)) evs (Some s) \<noteq> None"
  by (induction evs arbitrary: s) simp_all

lemma reached_some: "reached evs \<noteq> None"
  unfolding reached_def by (metis new_conn_ok fold_steps_some)

lemma reached_ok: "pred_option conn_ok (reached evs)"
  unfolding reached_def by (rule connection.reachable_inv)

text \<open>
  C15: whatever is called and whatever arrives, every table of a connection stays bounded: the peers, the
  queues of realtime packets, the bytes of each peer not yet read, and the answers to address discovery;
  and a packet from the mesh is queued under the name its peer was admitted as.
\<close>

theorem connections_stay_bounded:
  "reached evs \<noteq> None \<and> pred_option (\<lambda>s. length (uc_peers s) \<le> 4096 \<and> length (uc_realtime s) \<le> 512 \<and> length (uc_meshRealtime s) \<le> 512 \<and>
      list_all (\<lambda>(i, p). length (up_rx p) \<le> 8 * 1024 * 1024) (uc_peers s) \<and>
      list_all (\<lambda>(name, bytes). name = claimed_sender bytes) (uc_meshRealtime s) \<and>
      uc_stunCount s \<le> 1024 \<and> list_all (\<lambda>(window, count). count \<le> 64) (uc_stunRates s)) (reached evs)"
proof (intro conjI reached_some option.pred_mono_strong [OF reached_ok])
  fix s :: "('a, 'b) uconn"
  assume ok: "conn_ok s"
  have peers: "length (up_rx p) \<le> 8 * 1024 * 1024" if "(i, p) \<in> set (uc_peers s)" for i p
  proof -
    have "map_of (uc_peers s) i = Some p" using that ok by (simp add: conn_ok_def om_find_iff)
    then show ?thesis using conn_peer [OF ok] by (auto simp: peer_ok_def maxBufferedBytes_def)
  qed
  show "length (uc_peers s) \<le> 4096" "length (uc_realtime s) \<le> 512" "length (uc_meshRealtime s) \<le> 512"
    "list_all (\<lambda>(name, bytes). name = claimed_sender bytes) (uc_meshRealtime s)"
    "uc_stunCount s \<le> 1024" "list_all (\<lambda>(window, count). count \<le> 64) (uc_stunRates s)"
    "list_all (\<lambda>(i, p). length (up_rx p) \<le> 8 * 1024 * 1024) (uc_peers s)"
    using ok peers by (auto simp: conn_ok_def list_all_iff)
qed

section \<open>Authentication\<close>

lemma accept_loop_found:
  "accept_loop peers queue = (Some (i, a), rest) \<Longrightarrow>
   i \<in> set queue \<and> (\<exists>p. map_of peers i = Some p \<and> \<not> up_closed p \<and> up_address p = a)"
  by (induction queue) (auto split: option.splits if_splits)

definition authenticated :: "('k, 'i) uconn \<Rightarrow> u64 \<Rightarrow> sock_addr \<Rightarrow> bool" where
  "authenticated s i a \<longleftrightarrow> (case map_of (uc_peers s) i of
     None \<Rightarrow> False
   | Some p \<Rightarrow> up_address p = a \<and> \<not> up_closed p \<and>
       (case up_secure p of None \<Rightarrow> False | Some sd \<Rightarrow> established sd))"

text \<open>
  C14: with an invite secret, the game is handed only players whose key exchange is complete.  While the
  datagrams of a turn are received, in any number and from anywhere, each one appends to the queue of
  realtime packets only what it is when opened under the established key of the player the packet is
  attributed to, and to the queue of the mesh only the contents of an envelope opened so, whose sender
  is the one the envelope names; and a packet that arrives over a direct path to a member with a key is
  queued only opened under that key and with the name of that member.  The numbers of peers are taken
  to be fresh, as they are until \<open>2\<^sup>6\<^sup>4\<close> random values were drawn.
\<close>

theorem only_authenticated_reach_the_game:
  "pred_option (\<lambda>s. if uc_inviteSecret s \<noteq> [] \<and> uc_draws s < 2 ^ 64 - 1
      then list_all (\<lambda>r. rw_authenticatedPeer r \<noteq> None) (uc_realtime s) \<and>
        (case fst (conn_accept s) of None \<Rightarrow> True | Some (i, a) \<Rightarrow> authenticated s i a) \<and>
        (let u = fold (receive_one e) datagrams s; t = receive_one e (from, packet) u in
          set (uc_realtime t) \<subseteq> set (uc_realtime u) \<union> vouched e from packet u \<and>
          set (uc_meshRealtime t) \<subseteq> set (uc_meshRealtime u) \<union> relayed e packet u) \<and>
        (case map_of (uc_peers s) i of None \<Rightarrow> True | Some p \<Rightarrow>
          set (uc_meshRealtime (ice_packet e i packet s)) \<subseteq> set (uc_meshRealtime s) \<union> arrived e i packet s)
      else True) (reached evs)"
proof (rule option.pred_mono_strong [OF reached_ok])
  fix s :: "('a, 'b) uconn"
  assume ok: "conn_ok s"
  have "authenticated s i a"
    if secret: "uc_inviteSecret s \<noteq> []" "uc_draws s < 2 ^ 64 - 1" and acc: "fst (conn_accept s) = Some (i, a)" for i a
  proof -
    obtain rest where "accept_loop (uc_peers s) (uc_accepted s) = (Some (i, a), rest)"
      using acc by (auto simp: conn_accept_def split: prod.splits)
    then obtain p where p: "i \<in> set (uc_accepted s)" "map_of (uc_peers s) i = Some p" "\<not> up_closed p" "up_address p = a"
      using accept_loop_found by blast
    then have "up_accepted p" using ok secret by (simp add: conn_ok_def numbers_ok_def)
    then show ?thesis using conn_peer [OF ok p(2)] p secret
      by (auto simp: authenticated_def peer_ok_def peer_established_def split: option.splits)
  qed
  moreover have "list_all (\<lambda>r. rw_authenticatedPeer r \<noteq> None) (uc_realtime s)" if "uc_inviteSecret s \<noteq> []"
    using ok that by (auto simp: conn_ok_def list_all_iff)
  moreover have "let u = fold (receive_one e) datagrams s; t = receive_one e (from, packet) u in
      set (uc_realtime t) \<subseteq> set (uc_realtime u) \<union> vouched e from packet u \<and>
      set (uc_meshRealtime t) \<subseteq> set (uc_meshRealtime u) \<union> relayed e packet u" if "uc_inviteSecret s \<noteq> []"
    using received_ok [OF ok that, of e datagrams] receive_appends [of "fold (receive_one e) datagrams s" e "from" packet]
    by (simp add: Let_def)
  moreover have "case map_of (uc_peers s) i of None \<Rightarrow> True | Some p \<Rightarrow>
      set (uc_meshRealtime (ice_packet e i packet s)) \<subseteq> set (uc_meshRealtime s) \<union> arrived e i packet s"
    using ice_packet_appends [of s i _ e packet] by (simp split: option.split)
  ultimately show "if uc_inviteSecret s \<noteq> [] \<and> uc_draws s < 2 ^ 64 - 1
      then list_all (\<lambda>r. rw_authenticatedPeer r \<noteq> None) (uc_realtime s) \<and>
        (case fst (conn_accept s) of None \<Rightarrow> True | Some (i, a) \<Rightarrow> authenticated s i a) \<and>
        (let u = fold (receive_one e) datagrams s; t = receive_one e (from, packet) u in
          set (uc_realtime t) \<subseteq> set (uc_realtime u) \<union> vouched e from packet u \<and>
          set (uc_meshRealtime t) \<subseteq> set (uc_meshRealtime u) \<union> relayed e packet u) \<and>
        (case map_of (uc_peers s) i of None \<Rightarrow> True | Some p \<Rightarrow>
          set (uc_meshRealtime (ice_packet e i packet s)) \<subseteq> set (uc_meshRealtime s) \<union> arrived e i packet s)
      else True"
    by (auto split: option.split)
qed

section \<open>Sessions without their key\<close>

text \<open>Nothing changes for a peer: neither its record, nor its streams, nor its queues.\<close>

definition spares :: "u64 \<Rightarrow> ('k, 'i) uconn \<Rightarrow> ('k, 'i) uconn \<Rightarrow> bool" where
  "spares i s t \<longleftrightarrow> map_of (uc_peers t) i = map_of (uc_peers s) i \<and>
     map_of (ru_peers (uc_reliable t)) i = map_of (ru_peers (uc_reliable s)) i \<and>
     map_of (sc_peers (uc_budget t)) i = map_of (sc_peers (uc_budget s)) i"

named_theorems sparing

lemma spares_refl [simp, sparing]: "spares i s s"
  by (simp add: spares_def)

lemma spares_trans: "spares i s t \<Longrightarrow> spares i t u \<Longrightarrow> spares i s u"
  by (simp add: spares_def)

lemma spares_fields [sparing]:
  "spares i s t \<Longrightarrow> spares i s (drawn t)" "spares i s t \<Longrightarrow> spares i s (t\<lparr>uc_accepted := q\<rparr>)"
  "spares i s t \<Longrightarrow> spares i s (t\<lparr>uc_out := out\<rparr>)"
  by (simp_all add: spares_def drawn_def)

lemma spares_set [sparing]: "spares i s t \<Longrightarrow> j \<noteq> i \<Longrightarrow> spares i s (set_peer j f t)"
  by (simp add: spares_def map_of_set_peer)

lemma spares_send:
  assumes "j \<noteq> i" and "up_logical (peer_at s j) = 0"
  shows "spares i s (snd (conn_send e j bytes s))"
proof (cases "map_of (uc_peers s) j")
  case None
  then show ?thesis by (simp add: conn_send.simps [of e j])
next
  case (Some p)
  obtain wire q where q: "native_seal e bytes p = (wire, q)" by fastforce
  have "spares i s (snd (send_native e j bytes p s))"
    using assms(1) q by (cases wire) (auto simp: send_native_def to_socket_def intro!: sparing)
  then show ?thesis using Some assms(2) by (simp add: conn_send.simps [of e j] peer_at_def)
qed

lemma spares_control [sparing]: "spares i s t \<Longrightarrow> j \<noteq> i \<Longrightarrow> spares i s (control e j type t)"
  unfolding control_def by (auto intro!: spares_set intro: spares_trans spares_send)

lemma spares_ready: "j \<noteq> i \<Longrightarrow> make_ready e j s = (good, t) \<Longrightarrow> spares i s t"
  by (auto simp: make_ready_def Let_def spares_def map_of_set_peer sched_add_peer_def ru_add_peer_def sched_remove_peer_def
      split: if_splits option.splits prod.splits bool.splits)

lemma spares_close [sparing]: "spares i s t \<Longrightarrow> j \<noteq> i \<Longrightarrow> spares i s (close_peer e j notify t)"
proof -
  assume st: "spares i s t" and j: "j \<noteq> i"
  have f: "spares i u (forget_peer j u)" for u :: "('a, 'b) uconn"
    using j by (simp add: spares_def forget_peer_def ru_remove_peer_def sched_remove_peer_def)
  have "spares i s (forget_peer j (set_peer j g u))" if "spares i s u" for u g
    using spares_trans [OF spares_set [OF that j] f] .
  then show ?thesis using st j by (auto simp: close_peer_def split: option.splits intro: spares_control)
qed

lemma spares_begin: "j \<noteq> i \<Longrightarrow> begin_secure e j s = (hello, t) \<Longrightarrow> spares i s t"
  by (auto simp: begin_secure_def split: option.splits prod.splits intro!: sparing)

lemma spares_accept:
  assumes "j \<noteq> i" and "up_logical (peer_at s j) = 0"
  shows "spares i s (receive_accept e j s)"
proof -
  obtain good t where t: "make_ready e j s = (good, t)" by fastforce
  let ?t = "set_peer j (\<lambda>p. p\<lparr>up_lastReceive := ue_now e\<rparr>) t"
  obtain hello u where u: "begin_secure e j ?t = (hello, u)" by fastforce
  have st: "spares i s t" "spares i s ?t" using spares_ready [OF assms(1) t] assms(1) by (auto intro: spares_set)
  have su: "spares i s u" by (rule spares_trans [OF st(2) spares_begin [OF assms(1) u]])
  have "tended s u"
    by (rule tended_trans [OF tended_put [OF tended_make_ready [OF t]] tended_begin [OF u]]) simp
  then have "up_logical (peer_at u j) = 0" using assms(2) tended_logical by metis
  then have "spares i s (snd (conn_send e j hello u))" by (rule spares_trans [OF su spares_send [OF assms(1)]])
  then show ?thesis using st su assms(1)
    by (auto simp: receive_accept_def t u Let_def split: bool.splits option.splits intro!: sparing)
qed

lemma spares_admit:
  assumes "uc_nextId s \<noteq> i"
  shows "spares i s (snd (admit_address e from token s))"
    and "fst (admit_address e from token s) = Some j \<Longrightarrow> j \<noteq> i"
  using assms by (auto simp: admit_address_def Let_def spares_def drawn_def split: if_splits)

lemma spares_hello:
  assumes "uc_nextId s \<noteq> i" and "found \<noteq> Some i"
  shows "spares i s (receive_hello e from token found s)"
proof (cases found)
  case None
  obtain r t where r: "admit_address e from token s = (r, t)" by fastforce
  show ?thesis
    using spares_admit [OF assms(1), of e "from" token] None r by (cases r) (auto simp: receive_hello_def intro: sparing)
next
  case (Some j)
  then show ?thesis using assms(2) by (auto simp: receive_hello_def intro: sparing)
qed

lemma spares_confirm: "j \<noteq> i \<Longrightarrow> spares i s (receive_confirm e j s)"
proof -
  assume j: "j \<noteq> i"
  obtain good t where t: "make_ready e j s = (good, t)" by fastforce
  have "spares i s t" by (rule spares_ready [OF j t])
  then show ?thesis using j
    by (cases good) (auto simp: receive_confirm_def t Let_def mark_accepted_def intro!: sparing)
qed

lemma spares_challenge: "j \<noteq> i \<Longrightarrow> spares i s (receive_challenge e j session s)"
  by (auto simp: receive_challenge_def Let_def intro!: sparing)

text \<open>A plaintext control message spares a peer whose key exchange is over.\<close>

lemma spares_receive_control:
  assumes ok: "conn_ok s" and new: "uc_nextId s \<noteq> i"
    and p: "map_of (uc_peers s) i = Some p" "up_secure p \<noteq> None" "peer_established p"
  shows "spares i s (receive_control e from bytes False s)"
proof (cases "find_address from s")
  case None
  then show ?thesis using new by (simp add: receive_control_def Let_def spares_hello)
next
  case (Some j)
  show ?thesis
  proof (cases "j = i")
    case True
    then show ?thesis using p Some by (simp add: receive_control_def peer_at_def Let_def)
  next
    case False
    then have "spares i s (receive_hello e from token (Some j) s)" for token using new by (simp add: spares_hello)
    moreover have "spares i s (set_peer j f s)" for f using False by (auto intro: sparing)
    ultimately show ?thesis
      using False Some spares_accept [OF False found_logical(1) [OF ok Some]]
      by (simp add: receive_control_def Let_def spares_challenge spares_confirm spares_close)
  qed
qed

text \<open>So does a message of the key exchange, which at most repeats its answer.\<close>

definition repeats :: "u64 \<Rightarrow> ('k, 'i) uconn \<Rightarrow> ('k, 'i) uconn \<Rightarrow> bool" where
  "repeats i s t \<longleftrightarrow> (\<exists>time. spares i (set_peer i (\<lambda>p. p\<lparr>up_lastSecure := time\<rparr>) s) t)"

lemma spares_repeats: "spares i s t \<Longrightarrow> repeats i s t"
proof -
  assume "spares i s t"
  moreover have "map_option (\<lambda>p. p\<lparr>up_lastSecure := (case map_of (uc_peers s) i of Some q \<Rightarrow> up_lastSecure q | None \<Rightarrow> 0)\<rparr>)
      (map_of (uc_peers s) i) = map_of (uc_peers s) i"
    by (cases "map_of (uc_peers s) i") simp_all
  ultimately show ?thesis unfolding repeats_def spares_def map_of_set_peer
    by (intro exI [of _ "case map_of (uc_peers s) i of Some q \<Rightarrow> up_lastSecure q | None \<Rightarrow> 0"]) simp
qed

lemma send_handshake_same:
  assumes "map_of (uc_peers s) i = Some p" and "up_logical p = 0" and "take 4 bytes = dsh_magic"
  shows "spares i s (snd (conn_send e i bytes s))"
proof -
  have "dsh_magic \<noteq> duc" by (simp add: dsh_magic_def duc_def byte_of_char_def)
  then have "native_seal e bytes p = (Some bytes, p)" using assms(3) by (simp add: native_seal_def Let_def)
  then show ?thesis using assms(1,2)
    by (simp add: conn_send.simps [of e i] send_native_def to_socket_def spares_def map_of_set_peer)
qed

lemma repeats_handshake:
  assumes ok: "conn_ok s" and p: "map_of (uc_peers s) i = Some p" "up_logical p = 0" "up_secure p = Some sd" "established sd"
  shows "repeats i s (receive_secure_handshake e from bytes s)"
proof (cases "find_address from s")
  case None
  then show ?thesis by (simp add: receive_secure_handshake_def spares_repeats)
next
  case (Some j)
  note zero = found_logical(1) [OF ok Some]
  define q where "q = peer_at s j"
  have q: "map_of (uc_peers s) j = Some q" using found_in [OF Some] by (auto simp: q_def peer_at_def)
  show ?thesis
  proof (cases "up_closed q \<or> \<not> up_ready q \<or> up_secure q = None")
    case True
    then show ?thesis by (auto simp: receive_secure_handshake_def Some q_def [symmetric] spares_repeats split: option.splits)
  next
    case False
    then obtain sq where sq: "up_secure q = Some sq" by auto
    obtain reply sd' where h: "handshake (ue_crypto e) (ue_entropy e (uc_draws s)) bytes sq = (reply, sd')" by fastforce
    define s1 where "s1 = drawn (set_peer j (\<lambda>p. p\<lparr>up_secure := Some sd'\<rparr>) s)"
    define s2 where "s2 = (if reply \<noteq> [] then set_peer j (\<lambda>p. p\<lparr>up_lastSecure := ue_now e\<rparr>) (snd (conn_send e j reply s1)) else s1)"
    have result: "receive_secure_handshake e from bytes s = (if \<not> established sq \<and> established sd'
        then (let s3 = set_peer j (\<lambda>p. p\<lparr>up_lastReceive := ue_now e\<rparr>) s2 in
          if uc_server s \<and> \<not> up_accepted q then mark_accepted j s3 else s3) else s2)"
      using False sq by (simp add: receive_secure_handshake_def Some q_def [symmetric] Let_def h s1_def s2_def)
    show ?thesis
    proof (cases "j = i")
      case False
      have "spares i s s1" unfolding s1_def using False by (intro sparing)
      moreover have "up_logical (peer_at s1 j) = 0"
        using zero by (simp add: s1_def peer_at_def map_of_set_peer drawn_def q split: option.splits)
      ultimately have "spares i s s2" unfolding s2_def
        using False by (auto intro!: spares_set intro: spares_trans [OF _ spares_send [OF False]])
      then show ?thesis using False
        by (intro spares_repeats) (auto simp: result Let_def mark_accepted_def intro!: sparing)
    next
      case True
      then have same: "q = p" "sq = sd" using p q sq by simp_all
      have "sd' = sd" by (rule established_stays [OF p(4) h [unfolded same]])
      have s1: "spares i s s1" "map_of (uc_peers s1) i = Some p"
        using p True same \<open>sd' = sd\<close> by (simp_all add: s1_def spares_def drawn_def map_of_set_peer)
      have "reply = [] \<or> take 4 reply = dsh_magic"
        using h conn_peer [OF ok p(1)] p(3,4) \<open>sq = sd\<close>
        by (auto simp: peer_ok_def peer_retry_def retry_ok_def handshake_def answer_hello_def answer_server_def
            answer_finish_def established_def split: if_splits)
      then have "repeats i s s2" using s1 True send_handshake_same [OF s1(2) p(2)] spares_repeats [OF s1(1)] p(1)
        by (auto simp: s2_def repeats_def spares_def map_of_set_peer)
      then show ?thesis using p(4) same by (simp add: result)
    qed
  qed
qed

definition opens_under_a_key :: "('k, 'i) uenv \<Rightarrow> bytes \<Rightarrow> ('k, 'i) uconn \<Rightarrow> bool" where
  "opens_under_a_key e packet s \<longleftrightarrow> list_ex (\<lambda>(i, p). case up_secure p of
     None \<Rightarrow> False | Some sd \<Rightarrow> fst (open_sealed (ue_crypto e) packet sd) \<noteq> None) (uc_peers s)"

lemma open_nothing: "fst (open_sealed cr packet sd) = None \<Longrightarrow> open_sealed cr packet sd = (None, sd)"
  by (auto simp: open_sealed_def Let_def split: if_splits option.splits)

lemma decrypt_unopened:
  assumes ok: "conn_ok s" and secret: "uc_inviteSecret s \<noteq> []" and closed: "\<not> opens_under_a_key e packet s"
  shows "(\<exists>t. decrypt e from packet s = (None, t) \<and> spares i s t) \<or>
    decrypt e from packet s = (Some (packet, False, None), s) \<and> (take 4 packet = duc \<or> take 4 packet = dsh_magic)"
proof (cases "length packet \<ge> 36 \<and> take 4 packet = dse")
  case False
  then show ?thesis using secret by (auto simp: decrypt_def)
next
  case True
  show ?thesis
  proof (cases "session_owner (get_le (subspan 4 8 packet)) s")
    case None
    then show ?thesis using secret True by (simp add: decrypt_def)
  next
    case (Some x)
    obtain j q where x: "x = (j, q)" by fastforce
    have mem: "(j, q) \<in> set (uc_peers s)" using Some by (auto simp: x session_owner_def dest: find_in)
    then have q: "map_of (uc_peers s) j = Some q" using ok by (simp add: conn_ok_def om_find_iff)
    show ?thesis
    proof (cases "up_secure q")
      case None
      then show ?thesis using secret True Some x by (simp add: decrypt_def)
    next
      case (Some sq)
      have "fst (open_sealed (ue_crypto e) packet sq) = None"
        using closed mem Some by (force simp: opens_under_a_key_def list_ex_iff)
      then have o: "open_sealed (ue_crypto e) packet sq = (None, sq)" by (rule open_nothing)
      have "spares i s (set_peer j (\<lambda>p. p\<lparr>up_secure := Some sq\<rparr>) s)"
        using q Some by (cases q) (simp add: spares_def map_of_set_peer)
      then show ?thesis
        using secret True \<open>session_owner _ s = Some x\<close> x Some o by (simp add: decrypt_def)
    qed
  qed
qed

text \<open>
  C13: a session with another socket whose key exchange is over is left alone by every datagram that does not open under the
  key of some session, wherever it claims to come from: its state, its streams and its queues stay, up
  to the time at which an answer of the key exchange was last repeated.
\<close>

theorem unauthenticated_datagrams_harmless:
  assumes "conn_ok s" and "uc_draws s < 2 ^ 64 - 1" and "uc_inviteSecret s \<noteq> []"
    and "map_of (uc_peers s) i = Some p" and "up_logical p = 0" and "up_secure p = Some sd" and "established sd"
    and "\<not> opens_under_a_key e packet s"
  shows "let t = receive_one e (from, packet) s in
    (\<exists>time. map_of (uc_peers t) i = Some (p\<lparr>up_lastSecure := time\<rparr>)) \<and>
    map_of (ru_peers (uc_reliable t)) i = map_of (ru_peers (uc_reliable s)) i \<and>
    map_of (sc_peers (uc_budget t)) i = map_of (sc_peers (uc_budget s)) i"
proof -
  have "numbers_ok s" using assms(1,2) by (simp add: conn_ok_def)
  then have new: "uc_nextId s \<noteq> i" using assms(4) by (force simp: numbers_ok_def)
  have est: "up_secure p \<noteq> None" "peer_established p" using assms(6,7) by (simp_all add: peer_established_def)
  have "repeats i s (receive_one e (from, packet) s)"
  proof (cases "uc_stun s \<and> is_stun_binding packet")
    case True
    have "spares i s (stun_answer e from packet s)"
      by (auto simp: stun_answer_def Let_def spares_def to_socket_def split: prod.splits)
    then show ?thesis using True by (simp add: receive_one_def spares_repeats)
  next
    case False
    from decrypt_unopened [OF assms(1,3,8), of "from" i] show ?thesis
    proof (elim disjE exE conjE)
      fix t
      assume "decrypt e from packet s = (None, t)" and "spares i s t"
      then show ?thesis using False spares_repeats by (auto simp: receive_one_def)
    next
      assume d: "decrypt e from packet s = (Some (packet, False, None), s)" and "take 4 packet = duc"
      then show ?thesis
        using False handshake_kinds [of packet] spares_repeats [OF spares_receive_control [OF assms(1) new assms(4) est]]
        by (auto simp: receive_one_def demultiplex_def)
    next
      assume d: "decrypt e from packet s = (Some (packet, False, None), s)" and m: "take 4 packet = dsh_magic"
      have "dsh_magic \<noteq> duc" by (simp add: dsh_magic_def duc_def byte_of_char_def)
      then show ?thesis
        using False d m handshake_kinds [of packet] repeats_handshake [OF assms(1,4,5,6,7)]
        by (auto simp: receive_one_def demultiplex_def)
    qed
  qed
  then show ?thesis using assms(4) by (auto simp: repeats_def spares_def map_of_set_peer Let_def)
qed

section \<open>Control messages of another session\<close>

lemma om_put_map:
  "om_ok m \<Longrightarrow> map_of m k = Some v \<Longrightarrow> om_put k w m = map (\<lambda>(a, b). if a = k then (a, w) else (a, b)) m"
proof (induction m)
  case (Cons x m)
  obtain a b where x: "x = (a, b)" by fastforce
  have "map (\<lambda>(a, b). if a = k then (a, w) else (a, b)) m = m" if "a = k"
    using that Cons.prems(1) by (intro map_idI) (auto simp: x om_ok_Cons)
  moreover have "\<not> k < a" if "a \<noteq> k"
    using that Cons.prems by (force simp: x om_ok_Cons dest: map_of_SomeD)
  ultimately show ?case using Cons by (auto simp: x om_ok_Cons)
qed simp

lemma find_map: "find P (map f m) = map_option f (find (P \<circ> f) m)"
  by (induction m) auto

lemma find_address_secure:
  assumes "om_ok (uc_peers s)" and "map_of (uc_peers s) j = Some q"
  shows "find_address a (set_peer j (\<lambda>p. p\<lparr>up_secure := sd\<rparr>) s) = find_address a s"
proof -
  let ?g = "\<lambda>(i, p). if i = j then (i, q\<lparr>up_secure := sd\<rparr>) else (i, p)"
  let ?P = "\<lambda>(i :: u64, p). up_logical p = 0 \<and> \<not> up_closed p \<and> up_address p = a"
  have "find (?P \<circ> ?g) (uc_peers s) = find ?P (uc_peers s)"
    using assms by (intro find_cong refl) (auto simp: om_find_iff [symmetric] split: if_splits)
  moreover have "map_option fst (map_option ?g x) = map_option fst x" for x by (cases x) auto
  ultimately show ?thesis
    using om_put_map [OF assms] assms(2) by (simp add: find_address_def set_peer_def find_map)
qed

lemma control_fields:
  "length (control_bytes type p) = 21" "take 4 (control_bytes type p) = duc" "control_bytes type p ! 4 = type"
  "get_le (subspan 5 8 (control_bytes type p)) = up_nonce p" "get_le (subspan 13 8 (control_bytes type p)) = up_session p"
  by (simp_all add: control_bytes_def duc_def subspan_def)

text \<open>
  C28: a control message is applied to the session of the address it claims to come from, while any
  session's key opens it.  So a player with a session \<open>a\<close> of its own that forges the address of
  another and knows the two numbers of its session, which travel in the clear, closes session \<open>b\<close>.
\<close>

theorem sealed_control_crosses_sessions:
  assumes ok: "conn_ok s" and secret: "uc_inviteSecret s \<noteq> []"
    and packet: "length packet \<ge> 36" "take 4 packet = dse" "\<not> is_stun_binding packet"
    and owner: "session_owner (get_le (subspan 4 8 packet)) s = Some (a, pa)" "up_secure pa = Some sda"
    and opened: "open_sealed (ue_crypto e) packet sda = (Some (control_bytes 6 pb), sda')"
    and b: "find_address (up_address pb) s = Some b" "map_of (uc_peers s) b = Some pb"
    and "a \<noteq> b" and "up_ready pb" and "up_session pb \<noteq> 0"
  shows "let t = receive_one e (up_address pb, packet) s in
    map_of (uc_peers t) b = Some (pb\<lparr>up_closed := True\<rparr>) \<and> map_of (uc_peers t) a = Some (pa\<lparr>up_secure := Some sda'\<rparr>)"
proof -
  have "(a, pa) \<in> set (uc_peers s)" using owner(1) by (auto simp: session_owner_def dest: find_in)
  then have a: "map_of (uc_peers s) a = Some pa" using ok by (simp add: conn_ok_def om_find_iff)
  define t where "t = set_peer a (\<lambda>p. p\<lparr>up_secure := Some sda'\<rparr>) s"
  have "reliable_magic \<noteq> duc" by (simp add: reliable_magic_def duc_def byte_of_char_def)
  then have d: "decrypt e (up_address pb) packet s = (Some (control_bytes 6 pb, True, Some a), t)"
    using secret packet owner opened by (simp add: decrypt_def control_fields t_def [symmetric] eq_commute [of duc])
  have "receive_one e (up_address pb, packet) s = receive_control e (up_address pb) (control_bytes 6 pb) True t"
    using packet(3) handshake_kinds [of "control_bytes 6 pb"]
    by (simp add: receive_one_def d demultiplex_def control_fields)
  also have "\<dots> = close_peer e b False t"
  proof -
    have "om_ok (uc_peers s)" using ok by (simp add: conn_ok_def)
    then have f: "find_address (up_address pb) t = Some b" unfolding t_def using find_address_secure a b(1) by metis
    have p: "peer_at t b = pb" using b(2) \<open>a \<noteq> b\<close> by (simp add: t_def peer_at_def map_of_set_peer)
    have "\<not> up_closed pb" using found_logical(3) [OF ok b(1)] b(2) by (simp add: peer_at_def)
    then show ?thesis
      using f p assms(12,13) by (simp add: receive_control_def control_fields Let_def)
  qed
  finally show ?thesis
    using a b(2) \<open>a \<noteq> b\<close> by (simp add: close_peer_def forget_peer_def map_of_set_peer t_def Let_def split: option.splits)
qed

section \<open>Examples\<close>

definition ex_channel :: "u64 \<Rightarrow> secure" where
  "ex_channel session = (new_secure ex_crypto ''sixteen-byte-key'' False)\<lparr>sd_state := Established, sd_session := session\<rparr>"

definition ex_upeer :: "u64 \<Rightarrow> unit upeer" where
  "ex_upeer n = new_upeer\<lparr>up_address := (ucast n, 1000), up_nonce := n + 20, up_session := n + 10, up_ready := True,
     up_accepted := True, up_secure := Some (ex_channel (n + 10))\<rparr>"

definition ex_conn :: "((bytes \<times> bytes list), unit) uconn" where
  "ex_conn = (the new_conn)\<lparr>uc_open := True, uc_server := True, uc_inviteSecret := ''sixteen-byte-key'', uc_capacity := 8,
     uc_nextId := 3, uc_draws := 2, uc_peers := [(1, ex_upeer 1), (2, ex_upeer 2)]\<rparr>"

definition ex_uenv :: "((bytes \<times> bytes list), unit) uenv" where
  "ex_uenv = \<lparr>ue_kcp = ex_kcp, ue_crypto = ex_crypto,
     ue_ice = \<lparr>ic_new = (\<lambda>_ _ _. ()), ic_connected = (\<lambda>_. False), ic_send = (\<lambda>_ i. (False, i)), ic_pop = (\<lambda>i. (None, i)),
       ic_signal = (\<lambda>_ i. (False, i)), ic_pop_signal = (\<lambda>i. (None, i))\<rparr>,
     ue_now = 5000, ue_nonce = (\<lambda>_. 7), ue_entropy = (\<lambda>_. (None, None)), ue_taken = (\<lambda>_. True)\<rparr>"

lemma ex_conn_fields:
  "uc_peers ex_conn = [(1, ex_upeer 1), (2, ex_upeer 2)]" "uc_inviteSecret ex_conn = ''sixteen-byte-key''"
  "uc_draws ex_conn = 2"
  by (simp_all add: ex_conn_def)

lemma ex_channel_fields [simp]: "established (ex_channel q)" "retry_ok (ex_channel q)" "sd_session (ex_channel q) = q"
  "sd_rxSeen (ex_channel q) = False"
  by (simp_all add: ex_channel_def new_secure_def established_def retry_ok_def)

lemma ex_upeer_fields [simp]: "up_address (ex_upeer n) = (ucast n, 1000)" "up_nonce (ex_upeer n) = n + 20"
  "up_session (ex_upeer n) = n + 10" "up_ready (ex_upeer n)" "up_secure (ex_upeer n) = Some (ex_channel (n + 10))"
  "up_logical (ex_upeer n) = 0" "\<not> up_closed (ex_upeer n)" "up_rx (ex_upeer n) = []"
  by (simp_all add: ex_upeer_def new_upeer_def)

lemma ex_conn_ok: "conn_ok ex_conn"
proof -
  have "peer_ok ''sixteen-byte-key'' (ex_upeer n)" for n
    by (simp add: peer_ok_def peer_channel_defs(1,2))
  then show ?thesis
    by (auto simp: ex_conn_def new_conn_def new_scheduler_def new_reliable_def default_limits_def conn_ok_def numbers_ok_def
        om_ok_def split: if_splits)
qed

lemma unauthenticated_datagrams_harmless_witness:
  "let t = receive_one ex_uenv ((1, 1000), control_bytes 6 (ex_upeer 1)) ex_conn in
    (\<exists>time. map_of (uc_peers t) 1 = Some (ex_upeer 1\<lparr>up_lastSecure := time\<rparr>)) \<and>
    map_of (ru_peers (uc_reliable t)) 1 = map_of (ru_peers (uc_reliable ex_conn)) 1 \<and>
    map_of (sc_peers (uc_budget t)) 1 = map_of (sc_peers (uc_budget ex_conn)) 1"
proof (rule unauthenticated_datagrams_harmless [OF ex_conn_ok, of 1 "ex_upeer 1" "ex_channel 11"])
  have "str_bytes ''DSE1'' \<noteq> duc" by (simp add: duc_def byte_of_char_def)
  then show "\<not> opens_under_a_key ex_uenv (control_bytes 6 (ex_upeer 1)) ex_conn"
    by (simp add: opens_under_a_key_def ex_conn_fields open_sealed_def control_fields)
qed (simp_all add: ex_conn_fields)

definition ex_forged :: bytes where
  "ex_forged = sealed_head 11 0 @ replicate 16 9 @ control_bytes 6 (ex_upeer 2)"

lemma sealed_control_crosses_sessions_witness:
  "let t = receive_one ex_uenv (up_address (ex_upeer 2), ex_forged) ex_conn in
    map_of (uc_peers t) 2 = Some (ex_upeer 2\<lparr>up_closed := True\<rparr>) \<and>
    map_of (uc_peers t) 1 = Some (ex_upeer 1\<lparr>up_secure := Some (note_counter 0 (ex_channel 11))\<rparr>)"
proof (rule sealed_control_crosses_sessions [OF ex_conn_ok])
  have head: "take 4 ex_forged = dse" "get_le (subspan 4 8 ex_forged) = 11" "packet_counter ex_forged = 0"
    "drop kSealedDatagramOverhead ex_forged = control_bytes 6 (ex_upeer 2)" "length ex_forged = 57"
    by (simp_all add: ex_forged_def sealed_head_def dse_def subspan_def packet_counter_def kSealedDatagramOverhead_def
        control_fields(1))
  then show "length ex_forged \<ge> 36" "take 4 ex_forged = dse" by simp_all
  show "\<not> is_stun_binding ex_forged"
    by (simp add: is_stun_binding_def ex_forged_def sealed_head_def byte_of_char_def)
  show "session_owner (get_le (subspan 4 8 ex_forged)) ex_conn = Some (1, ex_upeer 1)"
    by (simp add: head session_owner_def ex_conn_fields peer_established_def)
  show "open_sealed (ue_crypto ex_uenv) ex_forged (ex_channel 11) = (Some (control_bytes 6 (ex_upeer 2)), note_counter 0 (ex_channel 11))"
    using head by (simp add: open_sealed_def replayed_def ex_uenv_def ex_crypto_def kSealedDatagramOverhead_def dse_def Let_def)
  show "find_address (up_address (ex_upeer 2)) ex_conn = Some 2"
    by (simp add: find_address_def ex_conn_fields)
qed (simp_all add: ex_conn_fields)

end
