(* ===== verification/Transport_State.thy ===== *)
theory Transport_State
  imports Protocol_Router Relay_State Udp_Mesh Cloud_Cipher
begin

text \<open>
  The game's side of a session, \<open>Transport::Impl\<close> of \<open>src/net/transport.cpp\<close>: its state, the bounded
  queue of events it hands to the game, and the ways a reliable message leaves.  The connection layer
  is the model of \<open>udp_connection.cpp\<close>; the web socket to the cloud room service, the virtual class
  \<open>RoomChannel\<close>, is a parameter over a state of its own.  An operation is an action, run at one reading of
  the clock, in milliseconds: an exception of the JSON library leaves the state it reached.
\<close>

section \<open>State\<close>

datatype link_state = StDisconnected | StListening | StConnecting | StConnected

record status =
  st_mode :: net_mode
  st_state :: link_state
  st_enabled :: bool
  st_reconnecting :: bool
  st_welcomed :: bool
  st_udpReady :: bool
  st_isOwner :: bool
  st_voiceSettingsReady :: bool
  st_saveRecoverySettingsReady :: bool
  st_semanticVisualsReady :: bool
  st_snapshotDeltasReady :: bool
  st_name :: string
  st_room :: string
  st_host :: string
  st_bindHost :: string
  st_publicHost :: string
  st_clientId :: string
  st_ownerClientId :: string
  st_udpToken :: string
  st_error :: string
  st_port :: u16
  st_settings :: room_settings

definition default_settings :: room_settings where
  "default_settings = \<lparr>se_dummyModel = True, se_syncFlags = True, se_saveRecovery = True, se_syncWorld = False,
     se_remoteCollision = True, se_pvp = True, se_voiceProximity = True, se_voiceProximityRange = 50\<rparr>"

definition no_status :: status where
  "no_status = \<lparr>st_mode = Disabled, st_state = StDisconnected, st_enabled = False, st_reconnecting = False,
     st_welcomed = False, st_udpReady = False, st_isOwner = False, st_voiceSettingsReady = False,
     st_saveRecoverySettingsReady = False, st_semanticVisualsReady = False, st_snapshotDeltasReady = False,
     st_name = [], st_room = [], st_host = [], st_bindHost = [], st_publicHost = [], st_clientId = [],
     st_ownerClientId = [], st_udpToken = [], st_error = [], st_port = 0, st_settings = default_settings\<rparr>"

text \<open>One peer's journal: what was sent and is not acknowledged, what came early.\<close>

record pending_gameplay =
  pg_value :: json
  pg_bytes :: nat

record peer_delivery =
  pd_nextSend :: u64
  pd_nextReceive :: u64
  pd_ackPending :: u64
  pd_sent :: "(u64, pending_gameplay) omap"
  pd_received :: "(u64, pending_gameplay) omap"

definition new_delivery :: peer_delivery where
  "new_delivery = \<lparr>pd_nextSend = 1, pd_nextReceive = 1, pd_ackPending = 0, pd_sent = [], pd_received = []\<rparr>"

text \<open>The fields of \<open>Impl\<close> that carry gameplay between peers across a change of path or of settings.\<close>

record delivery =
  dl_peers :: "(string, peer_delivery) omap"
  dl_deferred :: "pending_gameplay list"
  dl_future :: "(string, pending_gameplay list) omap"
  dl_expected :: "string list"
  dl_seen :: "string list"
  dl_futureSeen :: "string list"
  dl_generation :: u64
  dl_stage :: string
  dl_requested :: bool
  dl_barrier :: bool
  dl_observer :: bool
  dl_ready :: bool
  dl_started :: int
  dl_bytes :: nat
  dl_failure :: bool

definition no_delivery :: "int \<Rightarrow> delivery" where
  "no_delivery started = \<lparr>dl_peers = [], dl_deferred = [], dl_future = [], dl_expected = [], dl_seen = [],
     dl_futureSeen = [], dl_generation = 0, dl_stage = [], dl_requested = False, dl_barrier = False,
     dl_observer = False, dl_ready = False, dl_started = started, dl_bytes = 0, dl_failure = False\<rparr>"

text \<open>The fields that keep a cloud room.\<close>

record link_attempt =
  la_started :: int
  la_nextLogSecond :: u32
  la_retried :: bool
  la_nextEvictionSecond :: u32

record cloud_room =
  cr_url :: string
  cr_stunHost :: string
  cr_stunPort :: u16
  cr_joinedAt :: "int option"
  cr_disconnectedAt :: "int option"
  cr_resumeToken :: string
  cr_retireToken :: string
  cr_meshKey :: string
  cr_recovering :: bool
  cr_opening :: bool
  cr_recoveryStarted :: int
  cr_retryAt :: int
  cr_linkStarted :: "(string, link_attempt) omap"
  cr_newcomers :: "(string, int) omap"
  cr_departed :: "string list"
  cr_departedOrder :: "string list"

record direct_peer =
  dp_socket :: "u64 option"
  dp_id :: string
  dp_name :: string
  dp_rx :: string
  dp_tx :: string
  dp_welcomed :: bool
  dp_udpAddress :: sock_addr
  dp_udpAddressKnown :: bool
  dp_wantPuppet :: bool
  dp_wantMidna :: bool
  dp_supportsSemanticVisuals :: bool
  dp_supportsSnapshotDeltas :: bool
  dp_kickPending :: bool
  dp_authNonce :: string
  dp_acceptedAt :: int

record ('k, 'i, 'c) transport =
  tr_status :: status
  tr_preferredSaveRecovery :: bool
  tr_socket :: "u64 option"
  tr_conns :: "('k, 'i) uconn"
  tr_channel :: "'c option"
  tr_cipher :: "cloud option"
  tr_cloud :: cloud_room
  tr_listening :: bool
  tr_udpOpen :: bool
  tr_rx :: string
  tr_tx :: string
  tr_directPeers :: "(string, direct_peer) omap"
  tr_peerNames :: "(string, string) omap"
  tr_meshEnabled :: bool
  tr_meshPuppets :: "(string, bool) omap"
  tr_meshRoutes :: "(string, bool) omap"
  tr_meshLinks :: "(string, u64) omap"
  tr_meshRx :: "(string, string) omap"
  tr_delivery :: delivery
  tr_peerStages :: "(string, string \<times> u32) omap"
  tr_peerPoseStages :: "(string, string) omap"
  tr_events :: "net_event list"
  tr_nextDirectPeerId :: u32
  tr_reconnectTicks :: u32
  tr_automaticReconnect :: bool
  tr_sessionEstablished :: bool
  tr_helloSent :: bool
  tr_createRoom :: bool
  tr_mayRecreateRoom :: bool
  tr_handshakeRejected :: bool
  tr_wantPuppet :: bool
  tr_wantMidna :: bool
  tr_supportsSnapshotDeltas :: bool
  tr_lobbyCode :: string
  tr_sessionId :: string
  tr_sessionKey :: string
  tr_authNonce :: string
  tr_authSalt :: string
  tr_challengeStartedAt :: "int option"
  tr_udpRemoteAddressKnown :: bool
  tr_poseAckSequences :: "(string, u32) omap"
  tr_poseAckHistories :: "(string, u32 list) omap"
  tr_poseAckResetFloors :: "(string, u32) omap"
  tr_eventQueueOverflow :: bool
  tr_connectionEpoch :: u64

text \<open>What the room channel reports, and the calls of the virtual class.\<close>

datatype channel_event_kind = ChannelOpen | ChannelMessage | ChannelClosed | ChannelDiagnostic

record channel_event =
  ce_kind :: channel_event_kind
  ce_text :: string
  ce_closeCode :: u16
  ce_closeError :: int

record 'c room_channel =
  rc_open :: "string \<Rightarrow> 'c \<Rightarrow> (bool \<times> string) \<times> 'c"
  rc_send :: "string \<Rightarrow> 'c \<Rightarrow> bool \<times> 'c"
  rc_poll :: "'c \<Rightarrow> channel_event option \<times> 'c"
  rc_close :: "'c \<Rightarrow> 'c"

text \<open>\<open>te_diagnostics\<close> is the text of a log line, which no code reads.\<close>

record ('k, 'i, 'c) tenv =
  te_udp :: "('k, 'i) uenv"
  te_codec :: text_codec
  te_cloud :: cloud_crypto
  te_channel :: "'c room_channel"
  te_diagnostics :: "('k, 'i) uconn \<Rightarrow> string \<Rightarrow> string"
  te_now :: int

section \<open>The event queue\<close>

definition kMaxMaterializedEvents :: nat where "kMaxMaterializedEvents = 1024"

definition no_object :: remote_object where
  "no_object = \<lparr>ro_stageName = replicate 8 0, ro_sequence = 0, ro_objectId = 0, ro_x = 0, ro_y = 0, ro_z = 0,
     ro_angleY = 0, ro_exTime = 0, ro_room = 0, ro_objectKind = 0, ro_kind = 0, ro_flags = 0\<rparr>"

definition no_position :: voice_position where
  "no_position = \<lparr>vp_stageName = replicate 8 0, vp_x = 0, vp_y = 0, vp_z = 0, vp_room = 0\<rparr>"

definition event_context :: "('k, 'i, 'c) transport \<Rightarrow> event_context" where
  "event_context s = (let st = tr_status s in
     \<lparr>ec_epoch = tr_connectionEpoch s, ec_mode = st_mode st, ec_welcomed = st_welcomed st,
      ec_semanticVisualsReady = st_semanticVisualsReady st, ec_snapshotDeltasReady = st_snapshotDeltasReady st,
      ec_settings = st_settings st, ec_clientId = st_clientId st\<rparr>)"

text \<open>The last element that satisfies \<open>P\<close>, replaced; none when there is no such element.\<close>

fun update_first :: "('a \<Rightarrow> bool) \<Rightarrow> ('a \<Rightarrow> 'a) \<Rightarrow> 'a list \<Rightarrow> 'a list option" where
  "update_first P f [] = None"
| "update_first P f (x # xs) = (if P x then Some (f x # xs) else map_option (Cons x) (update_first P f xs))"

definition update_last :: "('a \<Rightarrow> bool) \<Rightarrow> ('a \<Rightarrow> 'a) \<Rightarrow> 'a list \<Rightarrow> 'a list option" where
  "update_last P f xs = map_option rev (update_first P f (rev xs))"

definition remove_first :: "('a \<Rightarrow> bool) \<Rightarrow> 'a list \<Rightarrow> 'a list" where
  "remove_first P xs = takeWhile (\<lambda>x. \<not> P x) xs @ tl (dropWhile (\<lambda>x. \<not> P x) xs)"

text \<open>Two events of one flow: of one peer and packet type, or of one object.\<close>

definition same_flow :: "net_event \<Rightarrow> net_event \<Rightarrow> bool" where
  "same_flow e x \<longleftrightarrow> ev_kind x = ev_kind e \<and> ev_peerId x = ev_peerId e \<and> ev_udpType x = ev_udpType e"

definition same_ack :: "net_event \<Rightarrow> net_event \<Rightarrow> bool" where
  "same_ack e x \<longleftrightarrow> ev_kind x = ev_kind e \<and> ev_peerId x = ev_peerId e \<and> ev_detail x = ev_detail e \<and>
     ev_udpType x = ev_udpType e"

definition same_object :: "net_event \<Rightarrow> net_event \<Rightarrow> bool" where
  "same_object e x \<longleftrightarrow> ev_kind x = ev_kind e \<and> ev_peerId x = ev_peerId e \<and>
     ro_objectId (ev_remoteObject x) = ro_objectId (ev_remoteObject e)"

definition materialize :: "net_event \<Rightarrow> ('k, 'i, 'c) transport \<Rightarrow> bool \<times> ('k, 'i, 'c) transport" where
  "materialize e s =
     (if ev_kind e = Diagnostic \<and> length (tr_events s) \<ge> kMaxMaterializedEvents - 64 then (False, s)
      else if length (tr_events s) \<ge> kMaxMaterializedEvents then (False, s\<lparr>tr_eventQueueOverflow := True\<rparr>)
      else (True, s\<lparr>tr_events := tr_events s @ [e]\<rparr>))"

definition push_event :: "net_event \<Rightarrow> ('k, 'i, 'c) transport \<Rightarrow> bool \<times> ('k, 'i, 'c) transport" where
  "push_event event s =
     (let e = event\<lparr>ev_ingress := event_context s\<rparr>; q = tr_events s in
      if ev_kind e = UdpMessage \<or> ev_kind e = UdpVoice then
        materialize e (if length (filter (same_flow e) q) \<ge> 16
                       then s\<lparr>tr_events := remove_first (same_flow e) q\<rparr> else s)
      else if ev_kind e = UdpAck then
        (case update_last (same_ack e) (\<lambda>x. if ev_udpSequence e > ev_udpSequence x then e else x) q of
           Some q' \<Rightarrow> (True, s\<lparr>tr_events := q'\<rparr>)
         | None \<Rightarrow> materialize e s)
      else if ev_kind e = UdpRemoteObject then
        (case update_last (same_object e)
            (\<lambda>x. if ro_sequence (ev_remoteObject e) > ro_sequence (ev_remoteObject x) then e else x) q of
           Some q' \<Rightarrow> (True, s\<lparr>tr_events := q'\<rparr>)
         | None \<Rightarrow> materialize e s)
      else materialize e s)"

definition new_event :: "event_kind \<Rightarrow> string \<Rightarrow> string \<Rightarrow> json \<Rightarrow> net_event" where
  "new_event kind peerId detail message =
     \<lparr>ev_kind = kind, ev_peerId = peerId, ev_detail = detail, ev_message = message, ev_udpType = PoseMsgpack,
      ev_udpSequence = 0, ev_udpStressFlags = 0, ev_remoteObject = no_object, ev_voice = [],
      ev_voicePosition = no_position,
      ev_ingress = \<lparr>ec_epoch = 0, ec_mode = Disabled, ec_welcomed = False, ec_semanticVisualsReady = False,
        ec_snapshotDeltasReady = False, ec_settings = default_settings, ec_clientId = []\<rparr>\<rparr>"

definition emit :: "event_kind \<Rightarrow> string \<Rightarrow> string \<Rightarrow> json \<Rightarrow> ('k, 'i, 'c) transport \<Rightarrow> bool \<times> ('k, 'i, 'c) transport" where
  "emit kind peerId detail message = push_event (new_event kind peerId detail message)"

abbreviation emits :: "event_kind \<Rightarrow> string \<Rightarrow> string \<Rightarrow> json \<Rightarrow> ('k, 'i, 'c) transport \<Rightarrow> ('k, 'i, 'c) transport" where
  "emits kind peerId detail message s \<equiv> snd (emit kind peerId detail message s)"

section \<open>Actions\<close>

definition act_run :: "('s \<Rightarrow> 'a \<times> 's) \<Rightarrow> ('s, 'a) action" where
  "act_run f s = (case f s of (a, s') \<Rightarrow> (Inr a, s'))"

text \<open>The left operand of a C++ \<open>&&\<close> or the condition of a guard, read in the state reached so far.\<close>

definition act_when :: "bool \<Rightarrow> ('s, unit) action \<Rightarrow> ('s, unit) action" where
  "act_when b m = (if b then m else act_return ())"

definition upd_delivery :: "(delivery \<Rightarrow> delivery) \<Rightarrow> ('k, 'i, 'c) transport \<Rightarrow> ('k, 'i, 'c) transport" where
  "upd_delivery f s = s\<lparr>tr_delivery := f (tr_delivery s)\<rparr>"

definition upd_status :: "(status \<Rightarrow> status) \<Rightarrow> ('k, 'i, 'c) transport \<Rightarrow> ('k, 'i, 'c) transport" where
  "upd_status f s = s\<lparr>tr_status := f (tr_status s)\<rparr>"

definition upd_cloud :: "(cloud_room \<Rightarrow> cloud_room) \<Rightarrow> ('k, 'i, 'c) transport \<Rightarrow> ('k, 'i, 'c) transport" where
  "upd_cloud f s = s\<lparr>tr_cloud := f (tr_cloud s)\<rparr>"

text \<open>\<open>deliveryFailure = true\<close>: the next check of the flag ends the session.\<close>

definition fail_delivery :: "('k, 'i, 'c) transport \<Rightarrow> ('k, 'i, 'c) transport" where
  "fail_delivery = upd_delivery (dl_failure_update (\<lambda>_. True))"

abbreviation act_fail :: "(('k, 'i, 'c) transport, unit) action" where
  "act_fail \<equiv> act_modify fail_delivery"

abbreviation act_emit :: "event_kind \<Rightarrow> string \<Rightarrow> string \<Rightarrow> json \<Rightarrow> (('k, 'i, 'c) transport, unit) action" where
  "act_emit kind peerId detail message \<equiv> act_modify (emits kind peerId detail message)"

section \<open>Room settings\<close>

definition effective_pvp :: "room_settings \<Rightarrow> bool" where
  "effective_pvp st \<longleftrightarrow> se_dummyModel st \<and> se_remoteCollision st \<and> se_pvp st"

definition settings_json :: "room_settings \<Rightarrow> json" where
  "settings_json st = j_obj
     [(''dummy_model'', JBool (se_dummyModel st)), (''sync_flags'', JBool (se_syncFlags st)),
      (''sync_world'', JBool (se_syncWorld st)), (''remote_collision'', JBool (se_remoteCollision st)),
      (''pvp'', JBool (effective_pvp st))]"

definition parse_settings :: "json \<Rightarrow> room_settings \<Rightarrow> room_settings jres" where
  "parse_settings v st =
     (if \<not> is_object v then Inr st
      else try_bind (value_bool ''dummy_model'' (se_dummyModel st) v) (\<lambda>dummy.
        try_bind (value_bool ''sync_flags'' (se_syncFlags st) v) (\<lambda>flags.
        try_bind (value_bool ''sync_world'' (se_syncWorld st) v) (\<lambda>world.
        try_bind (value_bool ''remote_collision'' (se_remoteCollision st) v) (\<lambda>collision.
        try_bind (value_bool ''pvp'' (se_pvp st) v) (\<lambda>pvp.
          Inr (st\<lparr>se_dummyModel := dummy, se_syncFlags := flags, se_syncWorld := world,
                 se_remoteCollision := collision, se_pvp := pvp \<and> collision\<rparr>)))))))"

definition is_room_mode :: "net_mode \<Rightarrow> bool" where
  "is_room_mode m \<longleftrightarrow> m = RelayMode \<or> m = CloudRoom"

definition cloud_control_type :: "string \<Rightarrow> bool" where
  "cloud_control_type type \<longleftrightarrow> type \<in> set [''hello'', ''ice_signal'', ''room_settings'', ''settings_ready'', ''kick'']"

section \<open>Sending\<close>

definition kReliableTxBufferMaxBytes :: nat where "kReliableTxBufferMaxBytes = 256 * 1024"
definition kReliableRxBufferMaxBytes :: nat where "kReliableRxBufferMaxBytes = 2 * 1024 * 1024"
definition deliveryLimit :: nat where "deliveryLimit = 4 * 1024 * 1024"

definition act_conns :: "(('k, 'i) uconn \<Rightarrow> 'a \<times> ('k, 'i) uconn) \<Rightarrow> (('k, 'i, 'c) transport, 'a) action" where
  "act_conns f s = (case f (tr_conns s) of (a, c) \<Rightarrow> (Inr a, s\<lparr>tr_conns := c\<rparr>))"

text \<open>The buffer after it.\<close>

definition flush :: "('k, 'i, 'c) tenv \<Rightarrow> u64 option \<Rightarrow> string \<Rightarrow> (('k, 'i, 'c) transport, bool \<times> string) action" where
  "flush e target buffer =
     (case target of
        None \<Rightarrow> act_return (False, buffer)
      | Some i \<Rightarrow>
          if buffer = [] then act_return (True, buffer)
          else act_bind (act_conns (send_message (te_udp e) i (str_bytes buffer))) (\<lambda>good.
            act_return (good, if good then [] else buffer)))"

definition frame_limit :: "('k, 'i, 'c) transport \<Rightarrow> nat" where
  "frame_limit s = (if tr_meshEnabled s then reliablePeerFrameLimit else reliableJsonLimit)"

definition queue_line ::
  "('k, 'i, 'c) tenv \<Rightarrow> u64 option \<Rightarrow> string \<Rightarrow> json \<Rightarrow> (('k, 'i, 'c) transport, bool \<times> string) action" where
  "queue_line e target buffer message =
     act_read (\<lambda>s. act_bind (act_lift (encode_reliable_json (te_codec e) message (frame_limit s))) (\<lambda>raw.
       let line = raw @ [CHR 0x0A] in
       if length buffer + length line > kReliableTxBufferMaxBytes then act_return (False, buffer)
       else flush e target (buffer @ line)))"

text \<open>A link of the mesh has no buffer of its own: the line is sent or the call fails.\<close>

definition queue_link :: "('k, 'i, 'c) tenv \<Rightarrow> u64 option \<Rightarrow> json \<Rightarrow> (('k, 'i, 'c) transport, bool) action" where
  "queue_link e target message = act_bind (queue_line e target [] message) (\<lambda>(good, unused). act_return good)"

definition queue_socket :: "('k, 'i, 'c) tenv \<Rightarrow> json \<Rightarrow> (('k, 'i, 'c) transport, bool) action" where
  "queue_socket e message = act_read (\<lambda>s.
     act_bind (queue_line e (tr_socket s) (tr_tx s) message) (\<lambda>(good, tx).
       act_bind (act_modify (tr_tx_update (\<lambda>_. tx))) (\<lambda>_. act_return good)))"

text \<open>\<open>message.value("type", "")\<close>.\<close>

definition type_of :: "json \<Rightarrow> (('k, 'i, 'c) transport, string) action" where
  "type_of message = act_json (value_string ''type'' [] message)"

text \<open>
  To the relay or the host over the socket; to the cloud room service sealed, over its web socket, and
  only a message of lobby control.
\<close>

definition seal_cloud :: "('k, 'i, 'c) tenv \<Rightarrow> string \<Rightarrow> cloud \<Rightarrow> (('k, 'i, 'c) transport, string) action" where
  "seal_cloud e text cipher =
     act_run (\<lambda>s. case cc_seal (te_cloud e) (str_bytes text) cipher of (wire, c) \<Rightarrow> (wire, s\<lparr>tr_cipher := Some c\<rparr>))"

definition channel_send :: "('k, 'i, 'c) tenv \<Rightarrow> string \<Rightarrow> 'c \<Rightarrow> (('k, 'i, 'c) transport, bool) action" where
  "channel_send e text channel =
     act_run (\<lambda>s. case rc_send (te_channel e) text channel of (good, ch) \<Rightarrow> (good, s\<lparr>tr_channel := Some ch\<rparr>))"

definition queue_cloud :: "('k, 'i, 'c) tenv \<Rightarrow> json \<Rightarrow> (('k, 'i, 'c) transport, bool) action" where
  "queue_cloud e message = act_read (\<lambda>s.
     case (tr_channel s, tr_cipher s) of
       (Some channel, Some cipher) \<Rightarrow>
         if \<not> cc_established cipher then act_return False
         else act_bind (type_of message) (\<lambda>type.
           if \<not> cloud_control_type type then act_return False
           else act_bind (act_json (tc_dump (te_codec e) message)) (\<lambda>text.
             act_bind (seal_cloud e text cipher) (\<lambda>wire.
               if wire = [] then act_return False
               else act_bind (channel_send e wire channel) (\<lambda>good.
                 if good then act_return True
                 else act_bind (act_emit Diagnostic [] (''room_control_send_failed type='' @ type) JNull) (\<lambda>_.
                   act_bind act_fail (\<lambda>_. act_return False))))))
     | _ \<Rightarrow> act_return False)"

definition queue_primary :: "('k, 'i, 'c) tenv \<Rightarrow> json \<Rightarrow> (('k, 'i, 'c) transport, bool) action" where
  "queue_primary e message = act_read (\<lambda>s.
     if st_mode (tr_status s) \<noteq> CloudRoom then queue_socket e message
     else if cr_recovering (tr_cloud s) then
       act_bind (type_of message) (\<lambda>type. if type \<noteq> ''hello'' then act_return False else queue_cloud e message)
     else queue_cloud e message)"

section \<open>Members of the mesh\<close>

definition admit_mesh :: "('k, 'i, 'c) tenv \<Rightarrow> string \<Rightarrow> ('k, 'i, 'c) transport \<Rightarrow> ('k, 'i, 'c) transport" where
  "admit_mesh e i s =
     (if om_has i (tr_meshRoutes s) then s
      else (case mesh_admit (te_udp e) i True (tr_conns s) of
          (None, c) \<Rightarrow> fail_delivery (s\<lparr>tr_conns := c\<rparr>)
        | (Some link, c) \<Rightarrow>
            let cloud = st_mode (tr_status s) = CloudRoom;
                s1 = upd_delivery (\<lambda>d. if om_has i (dl_peers d) then d
                       else d\<lparr>dl_peers := om_put i new_delivery (dl_peers d)\<rparr>)
                     (s\<lparr>tr_conns := c, tr_meshLinks := om_put i link (tr_meshLinks s),
                        tr_meshRoutes := om_put i False (tr_meshRoutes s)\<rparr>);
                s2 = (if cloud then upd_cloud (\<lambda>r. r\<lparr>cr_linkStarted := om_put i \<lparr>la_started = te_now e,
                        la_nextLogSecond = 3, la_retried = False, la_nextEvictionSecond = 20\<rparr> (cr_linkStarted r)\<rparr>) s1
                      else s1)
            in emits RouteChanged i (if cloud then ''connecting'' else ''relay'') JNull s2))"

text \<open>\<open>find\<close> of a string in a string.\<close>

fun contains_sub :: "string \<Rightarrow> string \<Rightarrow> bool" where
  "contains_sub x [] \<longleftrightarrow> x = []"
| "contains_sub x (c # s) \<longleftrightarrow> take (length x) (c # s) = x \<or> contains_sub x s"

definition forget_pose_ack_history :: "string \<Rightarrow> ('k, 'i, 'c) transport \<Rightarrow> ('k, 'i, 'c) transport" where
  "forget_pose_ack_history i s = s\<lparr>tr_poseAckHistories := filter (\<lambda>(k, h).
     \<not> (take (length i + 1) k = i @ [CHR 0x1F] \<or> contains_sub ([CHR 0x1F] @ i @ [CHR 0x1F]) k)) (tr_poseAckHistories s)\<rparr>"

end
