(* ===== verification/Mesh_Delivery.thy ===== *)
theory Mesh_Delivery
  imports Transport_State
begin

text \<open>
  Gameplay between the members of a room, the middle of \<open>src/net/transport.cpp\<close>: every message to a
  member has a number and is kept until the member acknowledges it, so that it can be sent again when the
  path changes; the receiver applies the numbers in order, once.  Messages of the next generation of
  settings wait until the room commits it.
\<close>

section \<open>Numbers in JSON\<close>

fun get_uint64 :: "json \<Rightarrow> u64 jres" where
  "get_uint64 (JInt i) = Inr (word_of_int i)"
| "get_uint64 (JUInt n) = Inr (word_of_nat n)"
| "get_uint64 (JBool b) = Inr (if b then 1 else 0)"
| "get_uint64 (JFloat (Fin r)) =
     (if 0 \<le> rat_trunc r \<and> rat_trunc r < 2 ^ 64 then Inr (word_of_int (rat_trunc r)) else Inl UndefinedCast)"
| "get_uint64 (JFloat _) = Inl UndefinedCast"
| "get_uint64 _ = Inl TypeError"

fun get_int64 :: "json \<Rightarrow> int jres" where
  "get_int64 (JInt i) = Inr (wrap_int 64 i)"
| "get_int64 (JUInt n) = Inr (wrap_int 64 (int n))"
| "get_int64 (JBool b) = Inr (if b then 1 else 0)"
| "get_int64 (JFloat (Fin r)) =
     (if - (2 ^ 63) \<le> rat_trunc r \<and> rat_trunc r < 2 ^ 63 then Inr (rat_trunc r) else Inl UndefinedCast)"
| "get_int64 (JFloat _) = Inl UndefinedCast"
| "get_int64 _ = Inl TypeError"

abbreviation j_u64 :: "u64 \<Rightarrow> json" where
  "j_u64 n \<equiv> JUInt (unat n)"

section \<open>Retained bytes\<close>

definition retain_delivery :: "nat \<Rightarrow> ('k, 'i, 'c) transport \<Rightarrow> bool \<times> ('k, 'i, 'c) transport" where
  "retain_delivery n s =
     (if dl_bytes (tr_delivery s) + n > deliveryLimit then (False, fail_delivery s)
      else (True, upd_delivery (dl_bytes_update (\<lambda>b. b + n)) s))"

definition release_bytes :: "nat \<Rightarrow> ('k, 'i, 'c) transport \<Rightarrow> ('k, 'i, 'c) transport" where
  "release_bytes n = upd_delivery (dl_bytes_update (\<lambda>b. size_sub b n))"

definition set_journal :: "string \<Rightarrow> (peer_delivery \<Rightarrow> peer_delivery) \<Rightarrow> delivery \<Rightarrow> delivery" where
  "set_journal name f d = (case map_of (dl_peers d) name of
     None \<Rightarrow> d | Some p \<Rightarrow> d\<lparr>dl_peers := om_put name (f p) (dl_peers d)\<rparr>)"

definition set_delivery :: "string \<Rightarrow> (peer_delivery \<Rightarrow> peer_delivery) \<Rightarrow> ('k, 'i, 'c) transport \<Rightarrow> ('k, 'i, 'c) transport" where
  "set_delivery name f = upd_delivery (set_journal name f)"

text \<open>What is taken out again is released.\<close>

definition take_item :: "pending_gameplay \<Rightarrow> (delivery \<Rightarrow> delivery) \<Rightarrow> ('k, 'i, 'c) transport \<Rightarrow> ('k, 'i, 'c) transport" where
  "take_item item remove s = release_bytes (pg_bytes item) (upd_delivery remove s)"

text \<open>\<open>dump\<close>, and \<open>std::map::at\<close>, whose exception no caller handles.\<close>

definition act_dump :: "('k, 'i, 'c) tenv \<Rightarrow> json \<Rightarrow> (('k, 'i, 'c) transport, nat) action" where
  "act_dump e j = act_bind (act_json (tc_dump (te_codec e) j)) (\<lambda>text. act_return (length text))"

definition act_at :: "'a option \<Rightarrow> ('s, 'a) action" where
  "act_at x = act_lift (case x of None \<Rightarrow> Inl FatalError | Some a \<Rightarrow> Inr a)"

text \<open>What is kept is counted, or the limit fails the session.\<close>

definition keep_item ::
  "nat \<Rightarrow> (delivery \<Rightarrow> delivery) \<Rightarrow> ('k, 'i, 'c) transport \<Rightarrow> bool \<times> ('k, 'i, 'c) transport" where
  "keep_item n store s = (case retain_delivery n s of
     (True, s1) \<Rightarrow> (True, upd_delivery store s1)
   | (False, s1) \<Rightarrow> (False, s1))"

definition store_deferred :: "json \<Rightarrow> nat \<Rightarrow> delivery \<Rightarrow> delivery" where
  "store_deferred message n d = d\<lparr>dl_deferred := dl_deferred d @ [\<lparr>pg_value = message, pg_bytes = n\<rparr>]\<rparr>"

definition defer_gameplay :: "('k, 'i, 'c) tenv \<Rightarrow> json \<Rightarrow> (('k, 'i, 'c) transport, bool) action" where
  "defer_gameplay e message = act_bind (act_dump e message) (\<lambda>n. act_read (\<lambda>s.
     if length (dl_deferred (tr_delivery s)) \<ge> 4096 then act_return False
     else act_run (keep_item n (store_deferred message n))))"

definition delivery_direct :: "('k, 'i, 'c) tenv \<Rightarrow> string \<Rightarrow> ('k, 'i, 'c) transport \<Rightarrow> bool" where
  "delivery_direct e name s = mesh_direct (te_udp e) name (tr_conns s)"

section \<open>Sending to members\<close>

definition delivery_frame :: "u64 \<Rightarrow> json \<Rightarrow> json" where
  "delivery_frame sequence body = j_obj [(''sequence'', j_u64 sequence), (''body'', body)]"

definition recipient :: "string \<Rightarrow> u64 \<Rightarrow> json" where
  "recipient name sequence = j_obj [(''id'', JStr name), (''sequence'', j_u64 sequence)]"

definition peer_reliable :: "json list \<Rightarrow> json \<Rightarrow> json" where
  "peer_reliable fallback body =
     j_obj [(''type'', JStr ''peer_reliable''), (''recipients'', JArr fallback), (''body'', body)]"

fun room_for_all :: "string list \<Rightarrow> ('k, 'i, 'c) transport \<Rightarrow> net_error + bool" where
  "room_for_all [] s = Inr True"
| "room_for_all (name # names) s =
     (case map_of (dl_peers (tr_delivery s)) name of
        None \<Rightarrow> Inl FatalError
      | Some p \<Rightarrow> if length (pd_sent p) \<ge> 4096 \<or> pd_nextSend p = - 1 then Inr False else room_for_all names s)"

text \<open>One recipient: the number is taken and the body kept before anything is sent.  No result is the
  early return.\<close>

definition keep_sent :: "u64 \<Rightarrow> json \<Rightarrow> nat \<Rightarrow> peer_delivery \<Rightarrow> peer_delivery" where
  "keep_sent sequence body n p = (if om_has sequence (pd_sent p) then p
     else p\<lparr>pd_sent := om_put sequence \<lparr>pg_value = body, pg_bytes = n\<rparr> (pd_sent p)\<rparr>)"

definition journal_body :: "json \<Rightarrow> nat \<Rightarrow> string \<Rightarrow> u64 \<Rightarrow> ('k, 'i, 'c) transport \<Rightarrow> bool \<times> ('k, 'i, 'c) transport" where
  "journal_body body n name sequence s =
     keep_item n (set_journal name (keep_sent sequence body n)) (set_delivery name (pd_nextSend_update (\<lambda>q. q + 1)) s)"

definition send_one_body ::
  "('k, 'i, 'c) tenv \<Rightarrow> json \<Rightarrow> nat \<Rightarrow> string \<Rightarrow> json list \<Rightarrow> (('k, 'i, 'c) transport, json list option) action" where
  "send_one_body e body n name fallback = act_read (\<lambda>s.
     act_bind (act_at (map_of (dl_peers (tr_delivery s)) name)) (\<lambda>p.
       act_bind (act_run (journal_body body n name (pd_nextSend p))) (\<lambda>kept.
         if \<not> kept then act_return None
         else act_read (\<lambda>s1.
           if delivery_direct e name s1 then
             act_bind (act_at (map_of (tr_meshLinks s1) name)) (\<lambda>link.
               act_bind (queue_link e (Some link) (delivery_frame (pd_nextSend p) body)) (\<lambda>good.
                 act_return (if good then Some fallback else None)))
           else act_return (Some (fallback @ [recipient name (pd_nextSend p)]))))))"

fun send_bodies ::
  "('k, 'i, 'c) tenv \<Rightarrow> json \<Rightarrow> nat \<Rightarrow> string list \<Rightarrow> json list \<Rightarrow> (('k, 'i, 'c) transport, json list option) action" where
  "send_bodies e body n [] fallback = act_return (Some fallback)"
| "send_bodies e body n (name # names) fallback =
     act_bind (send_one_body e body n name fallback) (\<lambda>sent. case sent of
       None \<Rightarrow> act_return None
     | Some fallback' \<Rightarrow> send_bodies e body n names fallback')"

definition send_delivery :: "('k, 'i, 'c) tenv \<Rightarrow> string list \<Rightarrow> json \<Rightarrow> (('k, 'i, 'c) transport, bool) action" where
  "send_delivery e recipients body = act_bind (act_dump e body) (\<lambda>n. act_read (\<lambda>s.
     if n > reliableJsonLimit + 128 \<or> length recipients > 7 \<or>
        n * length recipients > size_sub deliveryLimit (dl_bytes (tr_delivery s)) then act_return False
     else act_bind (act_lift (room_for_all recipients s)) (\<lambda>free.
       if \<not> free then act_return False
       else act_bind (send_bodies e body n recipients []) (\<lambda>sent. case sent of
         None \<Rightarrow> act_return False
       | Some fallback \<Rightarrow>
           if fallback = [] \<or> st_mode (tr_status s) = CloudRoom then act_return True
           else queue_primary e (peer_reliable fallback body)))))"

text \<open>When the path to a member changes, what it has not acknowledged is sent on the new one.\<close>

fun resend_items ::
  "('k, 'i, 'c) tenv \<Rightarrow> string \<Rightarrow> bool \<Rightarrow> (u64 \<times> pending_gameplay) list \<Rightarrow> (('k, 'i, 'c) transport, bool) action" where
  "resend_items e name direct [] = act_return True"
| "resend_items e name direct ((sequence, item) # items) = act_read (\<lambda>s.
     act_bind
       (if direct then
          act_bind (act_at (map_of (tr_meshLinks s) name)) (\<lambda>link.
            queue_link e (Some link) (delivery_frame sequence (pg_value item)))
        else if st_mode (tr_status s) \<noteq> CloudRoom then
          queue_primary e (peer_reliable [recipient name sequence] (pg_value item))
        else act_return True)
       (\<lambda>good. if good then resend_items e name direct items else act_return False))"

definition resend_delivery :: "('k, 'i, 'c) tenv \<Rightarrow> string \<Rightarrow> bool \<Rightarrow> (('k, 'i, 'c) transport, bool) action" where
  "resend_delivery e name direct = act_read (\<lambda>s.
     act_bind (act_at (map_of (dl_peers (tr_delivery s)) name)) (\<lambda>p. resend_items e name direct (pd_sent p)))"

definition gameplay_body :: "u64 \<Rightarrow> json \<Rightarrow> json" where
  "gameplay_body generation message = j_obj [(''generation'', j_u64 generation), (''payload'', message)]"

definition barrier_body :: "u64 \<Rightarrow> json" where
  "barrier_body generation = j_obj [(''barrier'', j_u64 generation)]"

definition send_peer_gameplay :: "('k, 'i, 'c) tenv \<Rightarrow> json \<Rightarrow> (('k, 'i, 'c) transport, bool) action" where
  "send_peer_gameplay e message = act_bind (act_dump e message) (\<lambda>n.
     if n > reliableJsonLimit then act_return False
     else act_bind (act_json (value_string ''target_client_id'' [] message)) (\<lambda>target.
       act_bind (type_of message) (\<lambda>type. act_read (\<lambda>s.
         if type = ''sync_request'' \<and> target = [] then act_return False
         else if target \<noteq> [] \<and> \<not> om_has target (tr_meshLinks s) then act_return False
         else send_delivery e (filter (\<lambda>name. target = [] \<or> name = target) (map fst (tr_meshLinks s)))
                (gameplay_body (dl_generation (tr_delivery s)) message)))))"

text \<open>Relay rooms learn the stage of a member from it, once per stage.\<close>

definition announce_stage :: "('k, 'i, 'c) tenv \<Rightarrow> json \<Rightarrow> (('k, 'i, 'c) transport, bool) action" where
  "announce_stage e message = act_read (\<lambda>s.
     act_bind (type_of message) (\<lambda>type.
       if st_mode (tr_status s) = CloudRoom \<or> type \<noteq> ''progression_state'' then act_return True
       else act_bind (act_json (value_string ''stage'' [] message)) (\<lambda>stage.
         if stage = dl_stage (tr_delivery s) then act_return True
         else act_bind (queue_primary e (j_obj [(''type'', JStr ''peer_stage''), (''stage'', JStr stage)])) (\<lambda>good.
           if \<not> good then act_return False
           else act_bind (act_modify (upd_delivery (dl_stage_update (\<lambda>_. stage)))) (\<lambda>_. act_return True)))))"

definition send_mesh_message :: "('k, 'i, 'c) tenv \<Rightarrow> json \<Rightarrow> (('k, 'i, 'c) transport, bool) action" where
  "send_mesh_message e message = act_bind (type_of message) (\<lambda>type. act_read (\<lambda>s.
     let setting = (type = ''room_settings''); d = tr_delivery s in
     if setting \<and> cr_recovering (tr_cloud s) then
       act_bind (act_emit ErrorEvent [] ''Lobby connection is recovering; retry the settings change shortly'' JNull)
         (\<lambda>_. act_return True)
     else if dl_requested d \<or> dl_barrier d then defer_gameplay e message
     else if \<not> setting then
       act_bind (announce_stage e message) (\<lambda>good.
         if \<not> good then act_return False else send_peer_gameplay e message)
     else act_bind (act_modify (upd_delivery (\<lambda>d. d\<lparr>dl_requested := True, dl_started := te_now e\<rparr>)))
       (\<lambda>_. queue_primary e message)))"

text \<open>The settings of the room's owner that only its members keep.\<close>

definition addressed :: "string \<Rightarrow> (string \<times> json) list \<Rightarrow> json" where
  "addressed target entries =
     (if target = [] then j_obj entries else j_set ''target_client_id'' (JStr target) (j_obj entries))"

definition owns_room :: "('k, 'i, 'c) transport \<Rightarrow> bool" where
  "owns_room s \<longleftrightarrow> is_room_mode (st_mode (tr_status s)) \<and> st_isOwner (tr_status s) \<and> st_welcomed (tr_status s)"

definition send_voice_settings_to :: "('k, 'i, 'c) tenv \<Rightarrow> string \<Rightarrow> (('k, 'i, 'c) transport, bool) action" where
  "send_voice_settings_to e target = act_read (\<lambda>s. let st = st_settings (tr_status s) in
     if \<not> owns_room s then act_return False
     else send_mesh_message e (addressed target
       [(''type'', JStr ''voice_settings''), (''enabled'', JBool (se_voiceProximity st)),
        (''range_percent'', JInt (se_voiceProximityRange st))]))"

definition send_save_recovery_setting_to :: "('k, 'i, 'c) tenv \<Rightarrow> string \<Rightarrow> (('k, 'i, 'c) transport, bool) action" where
  "send_save_recovery_setting_to e target = act_read (\<lambda>s. let st = st_settings (tr_status s) in
     if \<not> owns_room s then act_return False
     else send_mesh_message e (addressed target
       [(''type'', JStr ''save_recovery_setting''), (''enabled'', JBool (se_saveRecovery st))]))"

fun flush_deferred :: "('k, 'i, 'c) tenv \<Rightarrow> nat \<Rightarrow> (('k, 'i, 'c) transport, unit) action" where
  "flush_deferred e 0 = act_return ()"
| "flush_deferred e (Suc fuel) = act_read (\<lambda>s. let d = tr_delivery s in
     if dl_requested d \<or> dl_barrier d \<or> dl_failure d then act_return ()
     else case dl_deferred d of
       [] \<Rightarrow> act_return ()
     | item # rest \<Rightarrow>
         act_bind (act_modify (take_item item (dl_deferred_update (\<lambda>_. rest)))) (\<lambda>_.
           act_bind (send_mesh_message e (pg_value item)) (\<lambda>good.
             act_bind (act_when (\<not> good) act_fail) (\<lambda>_. flush_deferred e fuel))))"

definition flush_deferred_gameplay :: "('k, 'i, 'c) tenv \<Rightarrow> (('k, 'i, 'c) transport, unit) action" where
  "flush_deferred_gameplay e = act_read (\<lambda>s. flush_deferred e (length (dl_deferred (tr_delivery s))))"

section \<open>Messages for the game\<close>

definition or_fail :: "(('k, 'i, 'c) transport, bool) action \<Rightarrow> (('k, 'i, 'c) transport, unit) action" where
  "or_fail m = act_bind m (\<lambda>good. act_when (\<not> good) act_fail)"

text \<open>A request is answered by the owner, to a member it has.\<close>

definition answer_request ::
  "(string \<Rightarrow> (('k, 'i, 'c) transport, bool) action) \<Rightarrow> json \<Rightarrow> (('k, 'i, 'c) transport, unit) action" where
  "answer_request send message = act_bind (act_json (value_string ''client_id'' [] message)) (\<lambda>source. act_read (\<lambda>s.
     act_when (is_room_mode (st_mode (tr_status s)) \<and> st_isOwner (tr_status s) \<and> om_has source (tr_meshLinks s))
       (or_fail (send source))))"

text \<open>The setting of a room comes from its owner, of a direct session from its host.\<close>

definition setting_accepted :: "string \<Rightarrow> ('k, 'i, 'c) transport \<Rightarrow> bool" where
  "setting_accepted source s \<longleftrightarrow> (let st = tr_status s in
     (is_room_mode (st_mode st) \<longrightarrow> source = st_ownerClientId st) \<and>
     (st_mode st = DirectJoin \<or> is_room_mode (st_mode st)))"

definition receive_voice_settings :: "json \<Rightarrow> (('k, 'i, 'c) transport, unit) action" where
  "receive_voice_settings message = act_bind (act_json (value_string ''client_id'' [] message)) (\<lambda>source. act_read (\<lambda>s.
     if \<not> setting_accepted source s then act_return ()
     else case (j_find ''enabled'' message, j_find ''range_percent'' message) of
       (Some (JBool enabled), Some number) \<Rightarrow>
         if \<not> is_number_integer number then act_return ()
         else act_bind (act_json (get_int64 number)) (\<lambda>percent.
           if percent < 0 \<or> percent > 200 then act_return ()
           else act_bind (act_modify (upd_status (\<lambda>st. st\<lparr>st_settings := (st_settings st)\<lparr>se_voiceProximity := enabled,
                  se_voiceProximityRange := percent\<rparr>, st_voiceSettingsReady := True\<rparr>)))
             (\<lambda>_. act_emit Message source [] message))
     | _ \<Rightarrow> act_return ()))"

definition receive_save_recovery_setting :: "json \<Rightarrow> (('k, 'i, 'c) transport, unit) action" where
  "receive_save_recovery_setting message =
     act_bind (act_json (value_string ''client_id'' [] message)) (\<lambda>source. act_read (\<lambda>s.
       if \<not> setting_accepted source s then act_return ()
       else case j_find ''enabled'' message of
         Some (JBool enabled) \<Rightarrow>
           act_bind (act_modify (upd_status (\<lambda>st. st\<lparr>st_settings := (st_settings st)\<lparr>se_saveRecovery := enabled\<rparr>,
               st_saveRecoverySettingsReady := True\<rparr>)))
             (\<lambda>_. act_emit Message source [] message)
       | _ \<Rightarrow> act_return ()))"

definition receive_owner_changed :: "('k, 'i, 'c) tenv \<Rightarrow> json \<Rightarrow> (('k, 'i, 'c) transport, unit) action" where
  "receive_owner_changed e message =
     act_bind (act_json (value_string ''owner_client_id'' [] message)) (\<lambda>owner.
     act_bind (act_modify (upd_status (\<lambda>st. st\<lparr>st_ownerClientId := owner,
         st_isOwner := st_clientId st \<noteq> [] \<and> st_clientId st = owner\<rparr>))) (\<lambda>_. act_read (\<lambda>s.
     let request = (\<lambda>type. act_read (\<lambda>s. act_when (om_has owner (tr_meshLinks s))
           (or_fail (send_mesh_message e (j_obj [(''type'', JStr type), (''target_client_id'', JStr owner)])))))
     in act_bind
       (if st_isOwner (tr_status s) then
          act_seq (act_modify (upd_status (st_voiceSettingsReady_update (\<lambda>_. True))))
          (act_seq (or_fail (send_voice_settings_to e []))
          (act_seq (act_modify (\<lambda>s. upd_status (\<lambda>st. st\<lparr>st_settings := (if st_saveRecoverySettingsReady st then st_settings st
              else (st_settings st)\<lparr>se_saveRecovery := tr_preferredSaveRecovery s\<rparr>), st_saveRecoverySettingsReady := True\<rparr>) s))
            (or_fail (send_save_recovery_setting_to e []))))
        else
          act_seq (act_modify (upd_status (\<lambda>st. st\<lparr>st_voiceSettingsReady := False, st_saveRecoverySettingsReady := False\<rparr>)))
          (act_seq (request ''voice_settings_request'') (request ''save_recovery_setting_request'')))
       (\<lambda>_. act_emit Message [] [] message))))"

definition receive_room_settings :: "json \<Rightarrow> (('k, 'i, 'c) transport, unit) action" where
  "receive_room_settings message = act_read (\<lambda>s.
     act_bind (act_json (value_string ''owner_client_id'' (st_ownerClientId (tr_status s)) message)) (\<lambda>owner.
     act_bind (act_modify (upd_status (\<lambda>st. st\<lparr>st_ownerClientId := owner,
         st_isOwner := st_clientId st \<noteq> [] \<and> st_clientId st = owner\<rparr>))) (\<lambda>_.
     act_bind (act_json (value_json ''settings'' (j_obj []) message)) (\<lambda>v.
     act_bind (act_json (parse_settings v (st_settings (tr_status s)))) (\<lambda>settings.
     act_bind (act_modify (upd_status (st_settings_update (\<lambda>_. settings)))) (\<lambda>_.
     act_bind (act_json (value_bool ''semantic_visuals_ready'' (st_semanticVisualsReady (tr_status s)) message)) (\<lambda>visuals.
     act_bind (act_modify (upd_status (st_semanticVisualsReady_update (\<lambda>_. visuals)))) (\<lambda>_.
     act_bind (act_json (value_bool ''snapshot_deltas_ready'' (st_snapshotDeltasReady (tr_status s)) message)) (\<lambda>deltas.
     act_bind (act_modify (upd_status (st_snapshotDeltasReady_update (\<lambda>_. deltas)))) (\<lambda>_.
       act_emit Message [] [] message))))))))))"

text \<open>A setting of a direct session, sent by the host.\<close>

definition direct_setting :: "string \<Rightarrow> json \<Rightarrow> room_settings \<Rightarrow> room_settings jres" where
  "direct_setting type message st =
     (let enabled = (\<lambda>d. value_bool ''enabled'' d message) in
      if type = ''dummy_model'' then try_bind (enabled (se_dummyModel st)) (\<lambda>b. Inr (st\<lparr>se_dummyModel := b\<rparr>))
      else if type = ''sync_flags'' then try_bind (enabled (se_syncFlags st)) (\<lambda>b. Inr (st\<lparr>se_syncFlags := b\<rparr>))
      else if type = ''sync_world'' then try_bind (enabled (se_syncWorld st)) (\<lambda>b. Inr (st\<lparr>se_syncWorld := b\<rparr>))
      else if type = ''remote_collision'' then
        try_bind (enabled (se_remoteCollision st)) (\<lambda>b. Inr (st\<lparr>se_remoteCollision := b, se_pvp := se_pvp st \<and> b\<rparr>))
      else try_bind (enabled (se_pvp st)) (\<lambda>b. Inr (st\<lparr>se_pvp := b \<and> se_remoteCollision st\<rparr>)))"

definition direct_setting_types :: "string list" where
  "direct_setting_types = [''dummy_model'', ''sync_flags'', ''sync_world'', ''remote_collision'', ''pvp_enabled'']"

definition receive_error :: "json \<Rightarrow> (('k, 'i, 'c) transport, unit) action" where
  "receive_error message = act_bind (act_json (value_string ''error'' ''remote error'' message)) (\<lambda>reason. act_read (\<lambda>s.
     let st = tr_status s; recreate = (reason = ''lobby_not_found'' \<and> tr_mayRecreateRoom s) in
     act_seq
       (act_when (\<not> (st_mode st = CloudRoom \<and> st_reconnecting st \<and> reason = ''room_recovering''))
          (act_emit ErrorEvent [] reason message))
       (act_when ((is_room_mode (st_mode st) \<or> st_mode st = DirectJoin) \<and> \<not> st_welcomed st)
          (act_modify (\<lambda>s. upd_status (st_error_update (\<lambda>_. if recreate then ''Room vanished; recreating it'' else reason))
             (s\<lparr>tr_createRoom := recreate,
                tr_automaticReconnect := recreate \<or> (reason = ''room_recovering'' \<and> tr_sessionEstablished s),
                tr_handshakeRejected := True\<rparr>))))))"

text \<open>Any other message is for the game, attributed to its sender.\<close>

definition note_presence :: "string \<Rightarrow> json \<Rightarrow> (('k, 'i, 'c) transport, unit) action" where
  "note_presence type message =
     (if type = ''presence'' \<or> type = ''progression_state'' then
        act_bind (act_json (value_string ''client_id'' ''direct'' message)) (\<lambda>i.
          act_bind (act_json (value_string ''stage'' [] message)) (\<lambda>stage.
            act_modify (\<lambda>s. s\<lparr>tr_peerStages := om_put i (stage, 0) (tr_peerStages s)\<rparr>)))
      else act_return ())"

definition note_puppet :: "string \<Rightarrow> json \<Rightarrow> (('k, 'i, 'c) transport, unit) action" where
  "note_puppet type message = act_read (\<lambda>s.
     if tr_meshEnabled s \<and> type = ''puppet_preference'' then
       act_bind (act_json (value_bool ''want_puppet'' True message)) (\<lambda>want.
         act_bind (act_json (value_string ''client_id'' [] message)) (\<lambda>i.
           act_modify (\<lambda>s. s\<lparr>tr_meshPuppets := om_put i want (tr_meshPuppets s)\<rparr>)))
     else act_return ())"

definition receive_game_message :: "string \<Rightarrow> json \<Rightarrow> (('k, 'i, 'c) transport, unit) action" where
  "receive_game_message type message =
     act_seq (note_puppet type message) (act_seq (note_presence type message) (act_read (\<lambda>s.
       act_bind (act_json (value_string ''client_id''
           (if st_mode (tr_status s) = DirectJoin then ''direct'' else []) message)) (\<lambda>i. act_emit Message i [] message))))"

text \<open>
  \<open>handle_primary_message\<close> from the branch of \<open>owner_changed\<close> on, which is where every message of a
  member goes; the earlier branches are lobby control and are not modelled.
\<close>

definition handle_member_branch :: "('k, 'i, 'c) tenv \<Rightarrow> string \<Rightarrow> json \<Rightarrow> (('k, 'i, 'c) transport, unit) action" where
  "handle_member_branch e type message = act_read (\<lambda>s.
     let direct = (st_mode (tr_status s) = DirectJoin) in
     if type = ''owner_changed'' then receive_owner_changed e message
     else if type = ''voice_settings_request'' then answer_request (send_voice_settings_to e) message
     else if type = ''voice_settings'' then receive_voice_settings message
     else if type = ''save_recovery_setting_request'' then answer_request (send_save_recovery_setting_to e) message
     else if type = ''save_recovery_setting'' then receive_save_recovery_setting message
     else if type = ''room_settings'' then receive_room_settings message
     else if type = ''udp_ready'' then
       act_seq (act_modify (upd_status (st_udpReady_update (\<lambda>_. True)))) (act_emit Message [] [] message)
     else if direct \<and> type \<in> set direct_setting_types then
       act_bind (act_json (direct_setting type message (st_settings (tr_status s)))) (\<lambda>settings.
         act_seq (act_modify (upd_status (st_settings_update (\<lambda>_. settings)))) (act_emit Message [] [] message))
     else if type = ''ping'' then
       (if st_mode (tr_status s) = CloudRoom then
          act_bind (act_json (value_string ''client_id'' [] message)) (\<lambda>i.
            act_bind (send_peer_gameplay e (j_obj [(''type'', JStr ''pong''), (''target_client_id'', JStr i)]))
              (\<lambda>_. act_return ()))
        else act_bind (queue_primary e (j_obj [(''type'', JStr ''pong'')])) (\<lambda>_. act_return ()))
     else if type = ''error'' then receive_error message
     else receive_game_message type message)"

section \<open>Receiving from members\<close>

text \<open>\<open>peer_delivery.hpp\<close>: what members may send each other, and the few types a cloud room adds.\<close>

definition peer_delivery_types :: "string list" where
  "peer_delivery_types =
    [''progression_state'', ''sync_request'', ''event_bit'', ''tbox_bit'', ''switch_bit'', ''room_switch_bit'', ''web_timer'',
     ''room_actor_action'', ''floor_switch_state'', ''item_bit'', ''dungeon_item_bit'', ''save_snapshot'', ''key_num'',
     ''light_drop_num'', ''light_drop_get_flag'', ''max_life_update'', ''bottle_slots'', ''bomb_bag_slot'', ''rupee_count'',
     ''rupee_delta'', ''poe_count'', ''malo_fundraising'', ''charlo_offering'', ''fish_record'', ''collect_smell'',
     ''item_get'', ''trade_item'', ''rando_item_get'', ''item_first_bit'', ''collect_crystal'', ''collect_mirror'',
     ''dark_clear_lv'', ''transform_lv'', ''region_bit'', ''collect'', ''visited_room'', ''letter_get'', ''pvp_hit'',
     ''ganondorf_owner_claim'', ''ganondorf_owner'', ''ganondorf_hit'', ''ganondorf_reaction'',
     ''ganondorf_player_damage'', ''ganondorf_state'', ''ooccoo_state'', ''chat'', ''voice_settings'',
     ''voice_settings_request'', ''save_recovery_setting'', ''save_recovery_setting_request'', ''speedrun_check'',
     ''speedrun_ready'', ''speedrun_prompt'', ''speedrun_player_ready'', ''speedrun_ready_count'',
     ''speedrun_countdown'', ''speedrun_cancel'', ''speedrun_start'', ''speedrun_reset'']"

definition peer_delivery_type :: "string \<Rightarrow> bool" where
  "peer_delivery_type type \<longleftrightarrow> type \<in> set peer_delivery_types"

definition cloud_peer_control :: "string \<Rightarrow> bool" where
  "cloud_peer_control type \<longleftrightarrow>
     type \<in> set [''ping'', ''pong'', ''presence'', ''puppet_preference'', ''cloud_join_failure'']"

definition apply_peer_gameplay :: "('k, 'i, 'c) tenv \<Rightarrow> string \<Rightarrow> json \<Rightarrow> (('k, 'i, 'c) transport, unit) action" where
  "apply_peer_gameplay e name message = act_bind (type_of message) (\<lambda>type.
     act_bind (act_dump e message) (\<lambda>n. act_read (\<lambda>s.
       if n > reliableJsonLimit \<or>
          \<not> (peer_delivery_type type \<or> st_mode (tr_status s) = CloudRoom \<and> cloud_peer_control type) then act_fail
       else act_bind (act_json (value_string ''target_client_id'' [] message)) (\<lambda>target.
         if target \<noteq> [] \<and> target \<noteq> st_clientId (tr_status s) then act_fail
         else if type = ''cloud_join_failure'' then act_emit Diagnostic name ''ignored_untrusted_newcomer_failure'' JNull
         else handle_member_branch e type (j_set ''client_id'' (JStr name) message)))))"

definition set_future :: "string \<Rightarrow> pending_gameplay list \<Rightarrow> delivery \<Rightarrow> delivery" where
  "set_future name items d = d\<lparr>dl_future := om_put name items (dl_future d)\<rparr>"

text \<open>What waited for the generation that is now committed.\<close>

fun flush_future :: "('k, 'i, 'c) tenv \<Rightarrow> string \<Rightarrow> nat \<Rightarrow> (('k, 'i, 'c) transport, unit) action" where
  "flush_future e name 0 = act_return ()"
| "flush_future e name (Suc fuel) = act_read (\<lambda>s.
     case om_get [] name (dl_future (tr_delivery s)) of
       [] \<Rightarrow> act_return ()
     | item # rest \<Rightarrow>
         act_bind (act_json (try_bind (j_at ''generation'' (pg_value item)) get_uint64)) (\<lambda>generation.
           if generation \<noteq> dl_generation (tr_delivery s) then act_return ()
           else act_bind (act_modify (take_item item (set_future name rest))) (\<lambda>_.
             act_bind (act_json (j_at ''payload'' (pg_value item))) (\<lambda>payload.
               act_bind (apply_peer_gameplay e name payload) (\<lambda>_. flush_future e name fuel)))))"

text \<open>\<open>futureGameplay[name]\<close> makes the entry.\<close>

definition flush_future_gameplay :: "('k, 'i, 'c) tenv \<Rightarrow> string \<Rightarrow> (('k, 'i, 'c) transport, unit) action" where
  "flush_future_gameplay e name = act_seq
     (act_modify (upd_delivery (\<lambda>d. set_future name (om_get [] name (dl_future d)) d)))
     (act_read (\<lambda>s. flush_future e name (length (om_get [] name (dl_future (tr_delivery s))))))"

definition apply_barrier :: "string \<Rightarrow> json \<Rightarrow> delivery \<Rightarrow> delivery" where
  "apply_barrier name marker d =
     (case marker of
        JUInt n \<Rightarrow>
          if word_of_nat n = dl_generation d + 1 then
            (if name \<in> set (dl_seen d) then d\<lparr>dl_failure := True\<rparr> else d\<lparr>dl_seen := os_insert name (dl_seen d)\<rparr>)
          else if word_of_nat n = dl_generation d + 2 \<and> dl_barrier d \<and> (dl_ready d \<or> dl_observer d) then
            (if name \<in> set (dl_futureSeen d) then d\<lparr>dl_failure := True\<rparr>
             else d\<lparr>dl_futureSeen := os_insert name (dl_futureSeen d)\<rparr>)
          else d\<lparr>dl_failure := True\<rparr>
      | _ \<Rightarrow> d\<lparr>dl_failure := True\<rparr>)"

definition keep_future :: "('k, 'i, 'c) tenv \<Rightarrow> string \<Rightarrow> json \<Rightarrow> (('k, 'i, 'c) transport, unit) action" where
  "keep_future e name envelope = act_bind (act_dump e envelope) (\<lambda>n. act_read (\<lambda>s.
     let waiting = om_get [] name (dl_future (tr_delivery s)) in
     if length waiting \<ge> 4096 then act_fail
     else act_bind (act_run (keep_item n (set_future name (waiting @ [\<lparr>pg_value = envelope, pg_bytes = n\<rparr>])))) (\<lambda>kept.
       act_when (\<not> kept) act_fail)))"

definition apply_delivery_body :: "('k, 'i, 'c) tenv \<Rightarrow> string \<Rightarrow> json \<Rightarrow> (('k, 'i, 'c) transport, unit) action" where
  "apply_delivery_body e name envelope = act_seq (flush_future_gameplay e name) (act_read (\<lambda>s.
     let d = tr_delivery s in
     case j_find ''barrier'' envelope of
       Some marker \<Rightarrow> act_modify (upd_delivery (apply_barrier name marker))
     | None \<Rightarrow>
         act_bind (act_json (j_at ''generation'' envelope)) (\<lambda>number.
           if \<not> is_number_unsigned number then act_fail
           else act_bind (act_json (get_uint64 number)) (\<lambda>generation.
             if generation < dl_generation d \<or> generation > dl_generation d + 1 then act_fail
             else if generation = dl_generation d then
               (if name \<in> set (dl_seen d) then act_fail
                else act_bind (act_json (j_at ''payload'' envelope)) (apply_peer_gameplay e name))
             else if \<not> dl_barrier d \<or> (\<not> dl_ready d \<and> \<not> dl_observer d) then act_fail
             else keep_future e name envelope))))"

section \<open>Frames\<close>

text \<open>The acknowledged prefix is released.\<close>

definition acknowledge :: "string \<Rightarrow> u64 \<Rightarrow> ('k, 'i, 'c) transport \<Rightarrow> ('k, 'i, 'c) transport" where
  "acknowledge name ack s =
     (case map_of (dl_peers (tr_delivery s)) name of
        None \<Rightarrow> s
      | Some p \<Rightarrow>
          let gone = takeWhile (\<lambda>(q, item). q \<le> ack) (pd_sent p) in
          set_delivery name (pd_sent_update (\<lambda>_. dropWhile (\<lambda>(q, item). q \<le> ack) (pd_sent p)))
            (foldl (\<lambda>s (q, item). release_bytes (pg_bytes item) s) s gone))"

definition receive_ack :: "string \<Rightarrow> json \<Rightarrow> peer_delivery \<Rightarrow> (('k, 'i, 'c) transport, unit) action" where
  "receive_ack name number p =
     (case number of
        JUInt n \<Rightarrow> if word_of_nat n \<ge> pd_nextSend p then act_fail else act_modify (acknowledge name (word_of_nat n))
      | _ \<Rightarrow> act_fail)"

text \<open>What is next in order is applied, one body after the other; the result lists them.\<close>

fun apply_received ::
  "('k, 'i, 'c) tenv \<Rightarrow> string \<Rightarrow> nat \<Rightarrow> (('k, 'i, 'c) transport, json list) action" where
  "apply_received e name 0 = act_return []"
| "apply_received e name (Suc fuel) = act_read (\<lambda>s.
     case map_of (dl_peers (tr_delivery s)) name of
       None \<Rightarrow> act_return []
     | Some p \<Rightarrow>
         (case pd_received p of
            [] \<Rightarrow> act_return []
          | (sequence, item) # rest \<Rightarrow>
              if dl_failure (tr_delivery s) \<or> sequence \<noteq> pd_nextReceive p then act_return []
              else act_bind (act_modify (take_item item (set_journal name (pd_received_update (\<lambda>_. rest))))) (\<lambda>_.
                act_bind (apply_delivery_body e name (pg_value item)) (\<lambda>_.
                  act_bind (act_modify (set_delivery name (pd_nextReceive_update (\<lambda>q. q + 1)))) (\<lambda>_.
                    act_bind (apply_received e name fuel) (\<lambda>bodies. act_return (pg_value item # bodies)))))))"

definition set_ack :: "string \<Rightarrow> ('k, 'i, 'c) transport \<Rightarrow> ('k, 'i, 'c) transport" where
  "set_ack name = set_delivery name (\<lambda>p. p\<lparr>pd_ackPending := pd_nextReceive p - 1\<rparr>)"

definition store_received :: "string \<Rightarrow> u64 \<Rightarrow> json \<Rightarrow> nat \<Rightarrow> delivery \<Rightarrow> delivery" where
  "store_received name sequence body n =
     set_journal name (pd_received_update (om_put sequence \<lparr>pg_value = body, pg_bytes = n\<rparr>))"

definition receive_body ::
  "('k, 'i, 'c) tenv \<Rightarrow> string \<Rightarrow> u64 \<Rightarrow> json \<Rightarrow> peer_delivery \<Rightarrow> (('k, 'i, 'c) transport, json list) action" where
  "receive_body e name sequence body p =
     (case map_of (pd_received p) sequence of
        Some item \<Rightarrow> act_bind (act_when (\<not> j_eq (pg_value item) body) act_fail) (\<lambda>_. act_return [])
      | None \<Rightarrow> act_bind (act_dump e body) (\<lambda>n.
          if n > reliableJsonLimit + 128 then act_bind act_fail (\<lambda>_. act_return [])
          else act_bind (act_run (keep_item n (store_received name sequence body n))) (\<lambda>kept.
            if \<not> kept then act_bind act_fail (\<lambda>_. act_return [])
            else act_bind (apply_received e name (length (pd_received p) + 1)) (\<lambda>bodies. act_read (\<lambda>s.
              act_bind (act_when (\<not> dl_failure (tr_delivery s)) (act_modify (set_ack name))) (\<lambda>_.
                act_return bodies))))))"

definition receive_sequence :: "('k, 'i, 'c) tenv \<Rightarrow> string \<Rightarrow> json \<Rightarrow> u64 \<Rightarrow> peer_delivery \<Rightarrow> (('k, 'i, 'c) transport, json list) action" where
  "receive_sequence e name packet sequence p =
     (if sequence = 0 \<or> sequence = - 1 then act_bind act_fail (\<lambda>_. act_return [])
      else if sequence < pd_nextReceive p then act_bind (act_modify (set_ack name)) (\<lambda>_. act_return [])
      else if sequence - pd_nextReceive p \<ge> 4096 then act_bind act_fail (\<lambda>_. act_return [])
      else act_bind (act_json (j_at ''body'' packet)) (\<lambda>body. receive_body e name sequence body p))"

text \<open>A frame of a member: an acknowledgement or a numbered body.  The bodies it let apply, in order.\<close>

definition receive_delivery :: "('k, 'i, 'c) tenv \<Rightarrow> string \<Rightarrow> json \<Rightarrow> (('k, 'i, 'c) transport, json list) action" where
  "receive_delivery e name packet = act_read (\<lambda>s.
     case map_of (dl_peers (tr_delivery s)) name of
       None \<Rightarrow> act_return []
     | Some p \<Rightarrow>
         (case j_find ''ack'' packet of
            Some number \<Rightarrow> act_bind (receive_ack name number p) (\<lambda>_. act_return [])
          | None \<Rightarrow> act_bind (act_json (j_at ''sequence'' packet)) (\<lambda>number.
              case number of
                JUInt n \<Rightarrow> receive_sequence e name packet (word_of_nat n) p
              | _ \<Rightarrow> act_bind act_fail (\<lambda>_. act_return []))))"

section \<open>Reading a link\<close>

text \<open>
  \<open>receive\<close>: what has arrived is cut into lines, each handed on in its own \<open>try\<close> block.  The buffer is a
  field of the state, read and written by \<open>rd\<close> and \<open>wr\<close>.
\<close>

type_synonym ('k, 'i, 'c) rx_field =
  "(('k, 'i, 'c) transport \<Rightarrow> string) \<times> (string \<Rightarrow> ('k, 'i, 'c) transport \<Rightarrow> ('k, 'i, 'c) transport)"

definition handle_line ::
  "('k, 'i, 'c) tenv \<Rightarrow> (json \<Rightarrow> (('k, 'i, 'c) transport, unit) action) \<Rightarrow> bool \<Rightarrow> string \<Rightarrow> (('k, 'i, 'c) transport, bool) action" where
  "handle_line e handler peerFrame line s =
     (case act_bind (act_lift (decode_reliable_json (te_codec e) line
              (if peerFrame \<or> tr_meshEnabled s then reliablePeerFrameLimit else reliableJsonLimit))) handler s of
        (Inr _, s') \<Rightarrow> (Inr True, s')
      | (Inl ReliableJsonError, s') \<Rightarrow> (Inr False, emits ErrorEvent [] ''invalid compressed JSON'' JNull s')
      | (Inl (JsonExn _), s') \<Rightarrow> (Inr True, emits ErrorEvent [] ''invalid JSON'' JNull s')
      | (Inl FatalError, s') \<Rightarrow> (Inl FatalError, s'))"

fun handle_lines ::
  "('k, 'i, 'c) tenv \<Rightarrow> ('k, 'i, 'c) rx_field \<Rightarrow> (json \<Rightarrow> (('k, 'i, 'c) transport, unit) action) \<Rightarrow> bool \<Rightarrow> nat \<Rightarrow>
   (('k, 'i, 'c) transport, bool) action" where
  "handle_lines e rx handler peerFrame 0 = act_return True"
| "handle_lines e rx handler peerFrame (Suc fuel) = act_read (\<lambda>s.
     let buffer = fst rx s; line = takeWhile (\<lambda>c. c \<noteq> CHR 0x0A) buffer in
     if length line = length buffer then act_return True
     else act_bind (act_modify (snd rx (drop (length line + 1) buffer))) (\<lambda>_.
       if line = [] then handle_lines e rx handler peerFrame fuel
       else act_bind (handle_line e handler peerFrame line) (\<lambda>good. act_read (\<lambda>s.
         if \<not> good \<or> tr_handshakeRejected s \<or> tr_eventQueueOverflow s then act_return False
         else handle_lines e rx handler peerFrame fuel))))"

fun receive_loop ::
  "('k, 'i, 'c) tenv \<Rightarrow> u64 \<Rightarrow> ('k, 'i, 'c) rx_field \<Rightarrow> (json \<Rightarrow> (('k, 'i, 'c) transport, unit) action) \<Rightarrow> bool \<Rightarrow> nat \<Rightarrow>
   (('k, 'i, 'c) transport, bool) action" where
  "receive_loop e source rx handler peerFrame 0 = act_return True"
| "receive_loop e source rx handler peerFrame (Suc fuel) =
     act_bind (act_conns (receive_bytes source 4096)) (\<lambda>(count, bytes).
       if count > 0 then
         act_bind (act_modify (\<lambda>s. snd rx (fst rx s @ bytes_str bytes) s)) (\<lambda>_. act_read (\<lambda>s.
           if length (fst rx s) > kReliableRxBufferMaxBytes then act_return False
           else act_bind (handle_lines e rx handler peerFrame (length (fst rx s))) (\<lambda>good.
             if \<not> good then act_return False else receive_loop e source rx handler peerFrame fuel)))
       else act_return (count = - 1))"

text \<open>One more turn than there are bytes waiting: the last finds none.\<close>

definition receive_link ::
  "('k, 'i, 'c) tenv \<Rightarrow> u64 \<Rightarrow> ('k, 'i, 'c) rx_field \<Rightarrow> (json \<Rightarrow> (('k, 'i, 'c) transport, unit) action) \<Rightarrow> bool \<Rightarrow>
   (('k, 'i, 'c) transport, bool) action" where
  "receive_link e source rx handler peerFrame = act_read (\<lambda>s.
     receive_loop e source rx handler peerFrame (length (up_rx (peer_at (tr_conns s) source)) + 1))"

definition mesh_rx :: "string \<Rightarrow> ('k, 'i, 'c) rx_field" where
  "mesh_rx name = (\<lambda>s. om_get [] name (tr_meshRx s), \<lambda>v s. s\<lparr>tr_meshRx := om_put name v (tr_meshRx s)\<rparr>)"

definition receive_frame :: "('k, 'i, 'c) tenv \<Rightarrow> string \<Rightarrow> json \<Rightarrow> (('k, 'i, 'c) transport, unit) action" where
  "receive_frame e name packet = act_bind (receive_delivery e name packet) (\<lambda>_. act_return ())"

definition drain_peer_gameplay ::
  "('k, 'i, 'c) tenv \<Rightarrow> string \<Rightarrow> u64 \<Rightarrow> bool \<Rightarrow> (('k, 'i, 'c) transport, unit) action" where
  "drain_peer_gameplay e name link departing =
     act_seq (flush_future_gameplay e name)
     (act_seq (act_modify (\<lambda>s. snd (mesh_rx name) (fst (mesh_rx name) s) s))
     (act_bind (receive_link e link (mesh_rx name) (receive_frame e name) True) (\<lambda>good. act_read (\<lambda>s.
       let cloud = (st_mode (tr_status s) = CloudRoom) in
       if good \<or> departing \<or> cloud \<and> om_has name (cr_newcomers (tr_cloud s)) \<and> \<not> conn_connected link (tr_conns s) then act_return ()
       else act_seq
         (act_when cloud (act_emit Diagnostic name (''peer_reliable_receive_failed '' @ te_diagnostics e (tr_conns s) name) JNull))
         act_fail))))"

section \<open>The turn of the deliveries\<close>

definition receipt :: "u64 \<Rightarrow> json" where
  "receipt ack = j_obj [(''ack'', j_u64 ack)]"

definition send_receipt :: "('k, 'i, 'c) tenv \<Rightarrow> string \<Rightarrow> (('k, 'i, 'c) transport, unit) action" where
  "send_receipt e name = act_read (\<lambda>s.
     case map_of (dl_peers (tr_delivery s)) name of
       None \<Rightarrow> act_return ()
     | Some p \<Rightarrow>
         if pd_ackPending p = 0 then act_return ()
         else if \<not> delivery_direct e name s \<and> st_mode (tr_status s) = CloudRoom then act_return ()
         else act_bind
           (if delivery_direct e name s then
              act_bind (act_at (map_of (tr_meshLinks s) name)) (\<lambda>link. queue_link e (Some link) (receipt (pd_ackPending p)))
            else queue_primary e (j_obj [(''type'', JStr ''peer_receipt''), (''target_client_id'', JStr name),
                   (''frame'', receipt (pd_ackPending p))]))
           (\<lambda>good. act_seq (act_when (\<not> good) act_fail)
             (act_modify (set_delivery name (pd_ackPending_update (\<lambda>_. 0))))))"

definition announce_ready :: "('k, 'i, 'c) tenv \<Rightarrow> (('k, 'i, 'c) transport, unit) action" where
  "announce_ready e = act_read (\<lambda>s. let d = tr_delivery s in
     if dl_barrier d \<and> \<not> dl_observer d \<and> \<not> dl_ready d \<and> list_all (\<lambda>i. i \<in> set (dl_seen d)) (dl_expected d) then
       act_seq (act_modify (upd_delivery (dl_ready_update (\<lambda>_. True))))
         (or_fail (queue_primary e (j_obj [(''type'', JStr ''settings_ready''),
            (''generation'', j_u64 (dl_generation d + 1))])))
     else act_return ())"

definition check_barrier_time :: "('k, 'i, 'c) tenv \<Rightarrow> (('k, 'i, 'c) transport, unit) action" where
  "check_barrier_time e = act_read (\<lambda>s. let d = tr_delivery s in
     act_when ((dl_barrier d \<or> dl_requested d) \<and> te_now e - dl_started d > 30000) act_fail)"

definition pump_deliveries :: "('k, 'i, 'c) tenv \<Rightarrow> (('k, 'i, 'c) transport, unit) action" where
  "pump_deliveries e = act_read (\<lambda>s.
     act_seq (act_each (\<lambda>(name, link). drain_peer_gameplay e name link False) (tr_meshLinks s))
     (act_seq (act_read (\<lambda>s. act_each (send_receipt e) (map fst (dl_peers (tr_delivery s)))))
     (act_seq (announce_ready e) (act_seq (check_barrier_time e) (flush_deferred_gameplay e)))))"

end
