(* ===== verification/Delivery_Relations.thy ===== *)
theory Delivery_Relations
  imports Mesh_Delivery
begin

text \<open>
  What the delivery between members may do to the state, as relations every operation keeps: each layer
  of operations is a locale whose assumptions are the changes the code makes directly, and whose lemmas
  say that the operations of the layer make no other.
\<close>

section \<open>Actions that keep a relation\<close>

definition kept_at :: "('s \<Rightarrow> 's \<Rightarrow> bool) \<Rightarrow> ('s, 'a) action \<Rightarrow> 's \<Rightarrow> bool" where
  "kept_at R m s \<longleftrightarrow> R s (snd (m s))"

definition kept :: "('s \<Rightarrow> 's \<Rightarrow> bool) \<Rightarrow> ('s, 'a) action \<Rightarrow> bool" where
  "kept R m \<longleftrightarrow> (\<forall>s. kept_at R m s)"

named_theorems keeping

lemma keptD [keeping]: "kept R m \<Longrightarrow> kept_at R m s"
  by (simp add: kept_def)

lemma keptI: "(\<And>s. kept_at R m s) \<Longrightarrow> kept R m"
  by (simp add: kept_def)

lemma keeps_read [keeping]: "(\<And>s. kept_at R (f s) s) \<Longrightarrow> kept R (act_read f)"
  by (simp add: kept_def kept_at_def act_read_def)

lemma kept_at_read [keeping]: "kept_at R (f s) s \<Longrightarrow> kept_at R (act_read f) s"
  by (simp add: kept_at_def act_read_def)

lemma kept_at_modify [keeping]: "R s (f s) \<Longrightarrow> kept_at R (act_modify f) s"
  by (simp add: kept_at_def act_modify_def)

lemma kept_at_run [keeping]: "R s (snd (f s)) \<Longrightarrow> kept_at R (act_run f) s"
  by (simp add: kept_at_def act_run_def case_prod_beta)

locale kept_relation =
  fixes R :: "'s \<Rightarrow> 's \<Rightarrow> bool"
  assumes refl: "R s s" and chain: "R s t \<Longrightarrow> R t u \<Longrightarrow> R s u"
begin

lemma return: "kept R (act_return a)"
  by (simp add: kept_def kept_at_def act_return_def refl)

lemma lift: "kept R (act_lift r)"
  by (simp add: kept_def kept_at_def act_lift_def refl)

lemma bind_at:
  assumes "kept_at R m s" and "\<And>a t. m s = (Inr a, t) \<Longrightarrow> kept_at R (f a) t"
  shows "kept_at R (act_bind m f) s"
proof (cases "m s")
  case (Pair r t)
  then show ?thesis using assms chain by (cases r) (fastforce simp: kept_at_def act_bind_def)+
qed

lemma bind:
  assumes "kept R m" and "\<And>a. kept R (f a)"
  shows "kept R (act_bind m f)"
  by (rule keptI) (rule bind_at [OF keptD [OF assms(1)] keptD [OF assms(2)]])

lemma seq: "kept R m \<Longrightarrow> kept R n \<Longrightarrow> kept R (act_seq m n)"
  unfolding act_seq_def by (rule bind)

lemma each: "(\<And>x. kept R (f x)) \<Longrightarrow> kept R (act_each f xs)"
  by (induction xs) (auto intro: return seq)

lemma guarded: "kept R m \<Longrightarrow> kept R (act_when b m)"
  by (simp add: act_when_def return)

lemma modify: "(\<And>s. R s (f s)) \<Longrightarrow> kept R (act_modify f)"
  by (simp add: kept_def kept_at_modify)

lemma run: "(\<And>s. R s (snd (f s))) \<Longrightarrow> kept R (act_run f)"
  by (simp add: kept_def kept_at_run)

lemmas basics = return lift bind seq each guarded

end

lemma om_ok_dropWhile: "om_ok m \<Longrightarrow> om_ok (dropWhile P m)"
  by (induction m) (auto simp: om_ok_Cons)

section \<open>What leaves\<close>

text \<open>The part of the delivery that holds bodies.\<close>

definition holdings ::
  "delivery \<Rightarrow> (string, peer_delivery) omap \<times> pending_gameplay list \<times> (string, pending_gameplay list) omap \<times> nat" where
  "holdings d = (dl_peers d, dl_deferred d, dl_future d, dl_bytes d)"

locale links_relation = kept_relation R
  for R :: "('k, 'i, 'c) transport \<Rightarrow> ('k, 'i, 'c) transport \<Rightarrow> bool" +
  assumes conns: "R s (s\<lparr>tr_conns := c\<rparr>)"
    and event: "R s (snd (push_event ev s))"
    and failing: "R s (fail_delivery s)"
begin

lemma conns_act: "kept R (act_conns f)"
  by (simp add: kept_def kept_at_def act_conns_def conns split: prod.splits)

lemma emits_act: "kept R (act_emit kind i detail message)"
  by (rule modify) (simp add: emit_def event)

lemma fail_act: "kept R act_fail"
  by (intro modify failing)

lemma dump_act: "kept R (act_dump e j)"
  unfolding act_dump_def by (intro bind lift return)

lemma at_act: "kept R (act_at x)"
  unfolding act_at_def by (rule lift)

lemma type_act: "kept R (type_of message)"
  unfolding type_of_def by (rule lift)

lemma flush_act: "kept R (flush e target buffer)"
  unfolding flush_def by (auto split: option.split intro!: basics conns_act)

lemma queue_line_act: "kept R (queue_line e target buffer message)"
  unfolding queue_line_def Let_def by (intro keeps_read keptD bind lift) (auto intro: return flush_act)

lemma queue_link_act: "kept R (queue_link e target message)"
  unfolding queue_link_def by (intro bind queue_line_act) (auto intro: return split: prod.split)

lemmas links = basics emits_act fail_act dump_act at_act type_act queue_link_act

end

text \<open>Over the socket, or sealed over the web socket of the cloud room service.\<close>

locale outputs_relation = links_relation R
  for R :: "('k, 'i, 'c) transport \<Rightarrow> ('k, 'i, 'c) transport \<Rightarrow> bool" +
  assumes tx: "R s (tr_tx_update f s)"
    and cipher: "R s (s\<lparr>tr_cipher := v\<rparr>)"
    and channel: "R s (s\<lparr>tr_channel := w\<rparr>)"
begin

lemma queue_socket_act: "kept R (queue_socket e message)"
  unfolding queue_socket_def
  by (intro keeps_read keptD bind queue_line_act) (auto intro!: bind return modify tx split: prod.split)

lemma seal_act: "kept R (seal_cloud e text c)"
  unfolding seal_cloud_def by (rule run) (simp add: cipher split: prod.split)

lemma channel_act: "kept R (channel_send e text c)"
  unfolding channel_send_def by (rule run) (simp add: channel split: prod.split)

lemma queue_cloud_act: "kept R (queue_cloud e message)"
  unfolding queue_cloud_def
  by (intro keeps_read keptD)
     (auto split: option.split intro!: basics type_act seal_act channel_act emits_act fail_act)

lemma queue_primary_act: "kept R (queue_primary e message)"
  unfolding queue_primary_def
  by (intro keeps_read keptD) (auto intro!: basics type_act queue_cloud_act queue_socket_act)

lemmas outputs = links queue_primary_act

end

section \<open>What is sent to members\<close>

text \<open>A send touches the journals of its recipients only.\<close>

definition others :: "string \<Rightarrow> ('k, 'i, 'c) transport \<Rightarrow> ('k, 'i, 'c) transport \<Rightarrow> bool" where
  "others name s t \<longleftrightarrow>
     (\<forall>m. m \<noteq> name \<longrightarrow> map_of (dl_peers (tr_delivery t)) m = map_of (dl_peers (tr_delivery s)) m)"

lemma push_event_delivery [simp]: "tr_delivery (snd (push_event ev s)) = tr_delivery s"
  by (simp add: push_event_def materialize_def Let_def split: option.split)

lemma push_event_links [simp]: "tr_meshLinks (snd (push_event ev s)) = tr_meshLinks s"
  by (simp add: push_event_def materialize_def Let_def split: option.split)

lemma upd_delivery_fields [simp]:
  "tr_delivery (upd_delivery f s) = f (tr_delivery s)"
  "tr_meshLinks (upd_delivery f s) = tr_meshLinks s"
  by (simp_all add: upd_delivery_def)

text \<open>The changes that concern neither a body nor a journal.\<close>

definition flags_only :: "(delivery \<Rightarrow> delivery) \<Rightarrow> bool" where
  "flags_only g \<longleftrightarrow> (\<forall>d. holdings (g d) = holdings d \<and> (dl_failure d \<longrightarrow> dl_failure (g d)))"

lemma flags_onlys [simp]:
  "flags_only (dl_failure_update (\<lambda>_. True))" "flags_only (dl_stage_update f)" "flags_only (dl_ready_update h)"
  "flags_only (\<lambda>d. d\<lparr>dl_requested := True, dl_started := since\<rparr>)" "flags_only (apply_barrier name marker)"
  by (simp_all add: flags_only_def holdings_def apply_barrier_def split: json.split)

lemma flags_peers: "flags_only g \<Longrightarrow> dl_peers (g d) = dl_peers d"
  by (simp add: flags_only_def holdings_def)

lemma flags_failure: "flags_only g \<Longrightarrow> dl_failure d \<Longrightarrow> dl_failure (g d)"
  by (simp add: flags_only_def)

interpretation others: outputs_relation "others name" for name
  by unfold_locales (auto simp: others_def fail_delivery_def)

lemma map_of_set_journal:
  "map_of (dl_peers (set_journal name f d)) m =
     (if m = name then map_option f (map_of (dl_peers d) name) else map_of (dl_peers d) m)"
  by (simp add: set_journal_def split: option.split)

lemma others_journal: "others name s (snd (journal_body body n name q s))"
  by (simp add: others_def journal_body_def keep_item_def retain_delivery_def set_delivery_def fail_delivery_def
      map_of_set_journal)

lemma others_send_one: "kept (others name) (send_one_body e body n name fallback)"
  unfolding send_one_body_def
  by (intro keeps_read keptD others.bind others.at_act others.run others_journal)
     (auto intro!: others.outputs keeps_read keptD)

definition may_number :: "string \<Rightarrow> ('k, 'i, 'c) transport \<Rightarrow> bool" where
  "may_number name s \<longleftrightarrow> (\<forall>p. map_of (dl_peers (tr_delivery s)) name = Some p \<longrightarrow>
     pd_nextSend p \<noteq> - 1 \<and> length (pd_sent p) < 4096)"

lemma room_for_all_numbers:
  "room_for_all names s = Inr True \<Longrightarrow> name \<in> set names \<Longrightarrow> may_number name s"
  by (induction names s rule: room_for_all.induct) (auto simp: may_number_def split: option.splits if_splits)

locale sends_relation = outputs_relation R
  for R :: "('k, 'i, 'c) transport \<Rightarrow> ('k, 'i, 'c) transport \<Rightarrow> bool" +
  assumes ill: "\<not> om_ok (tr_meshLinks s) \<Longrightarrow> R s t"
    and journal: "map_of (dl_peers (tr_delivery s)) name = Some p \<Longrightarrow> pd_nextSend p \<noteq> - 1 \<Longrightarrow>
      length (pd_sent p) < 4096 \<Longrightarrow> R s (snd (journal_body body n name (pd_nextSend p) s))"
    and postpone: "length (dl_deferred (tr_delivery s)) < 4096 \<Longrightarrow> R s (snd (keep_item n (store_deferred message n) s))"
    and resume: "dl_deferred (tr_delivery s) = item # rest \<Longrightarrow>
      R s (take_item item (dl_deferred_update (\<lambda>_. rest)) s)"
    and staged: "R s (upd_delivery (dl_stage_update f) s)"
    and requested: "R s (upd_delivery (\<lambda>d. d\<lparr>dl_requested := True, dl_started := since\<rparr>) s)"
begin

lemma send_one_act: "may_number name s \<Longrightarrow> kept_at R (send_one_body e body n name fallback) s"
  unfolding send_one_body_def
proof (rule kept_at_read, rule bind_at [OF keptD [OF at_act]])
  fix p t
  assume "may_number name s" and "act_at (map_of (dl_peers (tr_delivery s)) name) s = (Inr p, t)"
  then have p: "map_of (dl_peers (tr_delivery s)) name = Some p" "pd_nextSend p \<noteq> - 1"
    "length (pd_sent p) < 4096" "t = s"
    by (auto simp: may_number_def act_at_def act_lift_def split: option.splits)
  show "kept_at R (act_bind (act_run (journal_body body n name (pd_nextSend p)))
      (\<lambda>kept. if \<not> kept then act_return None
         else act_read (\<lambda>s1. if delivery_direct e name s1 then act_bind (act_at (map_of (tr_meshLinks s1) name))
               (\<lambda>link. act_bind (queue_link e (Some link) (delivery_frame (pd_nextSend p) body))
                  (\<lambda>good. act_return (if good then Some fallback else None)))
             else act_return (Some (fallback @ [recipient name (pd_nextSend p)]))))) t"
    unfolding p(4)
    by (intro bind_at kept_at_run journal [OF p(1,2,3)] keptD)
       (auto intro!: outputs keeps_read keptD)
qed

lemma send_bodies_act:
  "distinct names \<Longrightarrow> (\<And>name. name \<in> set names \<Longrightarrow> may_number name s) \<Longrightarrow>
   kept_at R (send_bodies e body n names fallback) s"
proof (induction names arbitrary: s fallback)
  case Nil
  then show ?case by (simp add: return keptD)
next
  case (Cons name names)
  show ?case
    unfolding send_bodies.simps
  proof (rule bind_at)
    show "kept_at R (send_one_body e body n name fallback) s" using Cons.prems by (intro send_one_act) simp
  next
    fix sent t
    assume "send_one_body e body n name fallback s = (Inr sent, t)"
    then have "others name s t"
      using others_send_one [of name e body n fallback] unfolding kept_def kept_at_def by (metis snd_conv)
    then have "may_number m t" if "m \<in> set names" for m
      using that Cons.prems(1) Cons.prems(2) [of m] by (auto simp: others_def may_number_def)
    then show "kept_at R (case sent of None \<Rightarrow> act_return None
        | Some fallback' \<Rightarrow> send_bodies e body n names fallback') t"
      using Cons.IH Cons.prems by (auto split: option.split intro: keptD return)
  qed
qed

lemma send_delivery_act: "distinct names \<Longrightarrow> kept R (send_delivery e names body)"
  unfolding send_delivery_def
proof (intro bind dump_act keeps_read)
  fix n s
  assume d: "distinct names"
  show "kept_at R (if n > reliableJsonLimit + 128 \<or> length names > 7 \<or>
      n * length names > size_sub deliveryLimit (dl_bytes (tr_delivery s)) then act_return False
    else act_bind (act_lift (room_for_all names s)) (\<lambda>free. if \<not> free then act_return False
      else act_bind (send_bodies e body n names []) (\<lambda>sent. case sent of None \<Rightarrow> act_return False
        | Some fallback \<Rightarrow> if fallback = [] \<or> st_mode (tr_status s) = CloudRoom then act_return True
            else queue_primary e (peer_reliable fallback body)))) s"
    using d
    by (auto intro!: keptD [OF return] keptD [OF queue_primary_act] bind_at keptD [OF lift] send_bodies_act room_for_all_numbers
        split: option.split simp: act_lift_def)
qed

lemma resend_items_act: "kept R (resend_items e name direct items)"
  by (induction items) (auto intro!: outputs keeps_read keptD)

lemma resend_delivery_act: "kept R (resend_delivery e name direct)"
  unfolding resend_delivery_def by (intro keeps_read keptD bind at_act resend_items_act)

lemma distinct_links: "om_ok (tr_meshLinks s) \<Longrightarrow> distinct (filter P (map fst (tr_meshLinks s)))"
  by (intro distinct_filter om_ok_distinct)

lemma send_peer_act: "kept R (send_peer_gameplay e message)"
  unfolding send_peer_gameplay_def
proof (intro bind dump_act)
  fix n
  show "kept R (if n > reliableJsonLimit then act_return False
     else act_bind (act_json (value_string ''target_client_id'' [] message)) (\<lambda>target.
       act_bind (type_of message) (\<lambda>type. act_read (\<lambda>s.
         if type = ''sync_request'' \<and> target = [] then act_return False
         else if target \<noteq> [] \<and> \<not> om_has target (tr_meshLinks s) then act_return False
         else send_delivery e (filter (\<lambda>name. target = [] \<or> name = target) (map fst (tr_meshLinks s)))
                (gameplay_body (dl_generation (tr_delivery s)) message)))))"
  proof (simp only: split: if_split, intro conjI impI return bind lift type_act keeps_read)
    fix target type and s :: "('k, 'i, 'c) transport"
    show "kept_at R (if type = ''sync_request'' \<and> target = [] then act_return False
         else if target \<noteq> [] \<and> \<not> om_has target (tr_meshLinks s) then act_return False
         else send_delivery e (filter (\<lambda>name. target = [] \<or> name = target) (map fst (tr_meshLinks s)))
                (gameplay_body (dl_generation (tr_delivery s)) message)) s"
    proof (cases "om_ok (tr_meshLinks s)")
      case True
      show ?thesis
        by (simp only: split: if_split) (intro conjI impI keptD return send_delivery_act distinct_links True)
    qed (simp add: kept_at_def ill)
  qed
qed

lemma defer_act: "kept R (defer_gameplay e message)"
  unfolding defer_gameplay_def
  by (intro bind dump_act keeps_read) (auto intro!: keptD [OF return] kept_at_run postpone simp: not_le)

lemma stage_act: "kept R (announce_stage e message)"
  unfolding announce_stage_def
  by (intro keeps_read keptD bind type_act) (auto intro!: outputs modify staged)

lemma send_mesh_act: "kept R (send_mesh_message e message)"
  unfolding send_mesh_message_def Let_def
  by (intro bind type_act keeps_read keptD)
     (auto intro!: outputs modify requested defer_act stage_act send_peer_act)

lemma voice_act: "kept R (send_voice_settings_to e target)"
  unfolding send_voice_settings_to_def Let_def by (intro keeps_read keptD) (auto intro: return send_mesh_act)

lemma recovery_act: "kept R (send_save_recovery_setting_to e target)"
  unfolding send_save_recovery_setting_to_def Let_def by (intro keeps_read keptD) (auto intro: return send_mesh_act)

lemma or_fail_act: "kept R m \<Longrightarrow> kept R (or_fail m)"
  unfolding or_fail_def by (intro bind guarded fail_act)

lemma flush_deferred_act: "kept R (flush_deferred e fuel)"
proof (induction fuel)
  case 0
  then show ?case by (simp add: return)
next
  case (Suc fuel)
  show ?case
    unfolding flush_deferred.simps Let_def
    by (rule keeps_read)
       (auto split: list.split intro!: keptD [OF return] bind_at kept_at_modify resume keptD [OF send_mesh_act]
         keptD [OF guarded] keptD [OF Suc.IH] fail_act)
qed

lemma flush_gameplay_act: "kept R (flush_deferred_gameplay e)"
  unfolding flush_deferred_gameplay_def by (intro keeps_read keptD flush_deferred_act)

lemmas sends = outputs send_mesh_act send_peer_act voice_act recovery_act or_fail_act

end

section \<open>What members make of it\<close>

locale applies_relation = sends_relation R
  for R :: "('k, 'i, 'c) transport \<Rightarrow> ('k, 'i, 'c) transport \<Rightarrow> bool" +
  assumes status: "R s (upd_status f s)"
    and stages: "R s (s\<lparr>tr_peerStages := st\<rparr>)"
    and puppets: "R s (s\<lparr>tr_meshPuppets := pu\<rparr>)"
    and refused: "R s (upd_status f (s\<lparr>tr_createRoom := a, tr_automaticReconnect := b, tr_handshakeRejected := c\<rparr>))"
    and barrier: "R s (upd_delivery (apply_barrier name marker) s)"
    and entry: "R s (upd_delivery (\<lambda>d. set_future name (om_get [] name (dl_future d)) d) s)"
    and store_future: "length (om_get [] name (dl_future (tr_delivery s))) < 4096 \<Longrightarrow>
      R s (snd (keep_item n (set_future name (om_get [] name (dl_future (tr_delivery s)) @ [\<lparr>pg_value = body, pg_bytes = n\<rparr>])) s))"
    and take_future: "om_get [] name (dl_future (tr_delivery s)) = item # rest \<Longrightarrow>
      R s (take_item item (set_future name rest) s)"
begin

lemma answer_act: "(\<And>i. kept R (send i)) \<Longrightarrow> kept R (answer_request send message)"
  unfolding answer_request_def by (intro bind lift keeps_read keptD guarded or_fail_act)

lemma status_act: "kept R (act_modify (upd_status f))"
  by (intro modify status)

lemma receive_voice_act: "kept R (receive_voice_settings message)"
  unfolding receive_voice_settings_def
  by (intro bind lift keeps_read keptD)
     (auto intro!: basics status_act emits_act split: option.split json.split)

lemma receive_recovery_act: "kept R (receive_save_recovery_setting message)"
  unfolding receive_save_recovery_setting_def
  by (intro bind lift keeps_read keptD)
     (auto intro!: basics status_act emits_act split: option.split json.split)

lemma receive_owner_act: "kept R (receive_owner_changed e message)"
  unfolding receive_owner_changed_def Let_def
  by (intro bind lift keeps_read keptD status_act)
     (auto intro!: basics status_act modify status emits_act or_fail_act voice_act recovery_act keeps_read keptD send_mesh_act)

lemma receive_settings_act: "kept R (receive_room_settings message)"
  unfolding receive_room_settings_def by (intro keeps_read keptD bind lift status_act emits_act)

lemma receive_error_act: "kept R (receive_error message)"
  unfolding receive_error_def Let_def by (intro bind lift keeps_read keptD seq guarded emits_act modify refused)

lemma receive_game_act: "kept R (receive_game_message type message)"
  unfolding receive_game_message_def note_puppet_def note_presence_def
  by (auto intro!: basics keeps_read keptD modify stages puppets emits_act)

lemma member_branch_act: "kept R (handle_member_branch e type message)"
  unfolding handle_member_branch_def Let_def
  by (intro keeps_read keptD)
     (simp only: split: if_split,
      intro conjI impI receive_owner_act answer_act voice_act recovery_act receive_voice_act receive_recovery_act
        receive_settings_act seq status_act emits_act bind lift send_peer_act queue_primary_act return
        receive_error_act receive_game_act)

lemma apply_gameplay_act: "kept R (apply_peer_gameplay e name message)"
  unfolding apply_peer_gameplay_def
  by (intro bind type_act dump_act keeps_read keptD) (auto intro!: lift bind fail_act emits_act member_branch_act)

lemma flush_future_act: "kept R (flush_future e name fuel)"
proof (induction fuel)
  case 0
  then show ?case by (simp add: return)
next
  case (Suc fuel)
  show ?case
    unfolding flush_future.simps
  proof (rule keeps_read)
    fix s
    show "kept_at R (case om_get [] name (dl_future (tr_delivery s)) of [] \<Rightarrow> act_return ()
        | item # rest \<Rightarrow> act_bind (act_json (try_bind (j_at ''generation'' (pg_value item)) get_uint64))
           (\<lambda>generation. if generation \<noteq> dl_generation (tr_delivery s) then act_return ()
              else act_bind (act_modify (take_item item (set_future name rest)))
                (\<lambda>_. act_bind (act_json (j_at ''payload'' (pg_value item)))
                   (\<lambda>payload. act_bind (apply_peer_gameplay e name payload) (\<lambda>_. flush_future e name fuel))))) s"
    proof (cases "om_get [] name (dl_future (tr_delivery s))")
      case (Cons item rest)
      show ?thesis
        unfolding Cons list.case
        by (rule bind_at [OF keptD [OF lift]])
           (auto intro!: keptD [OF return] bind_at kept_at_modify take_future Cons keptD [OF lift]
             keptD [OF apply_gameplay_act] keptD [OF Suc.IH] simp: act_lift_def)
    qed (simp add: keptD return)
  qed
qed

lemma flush_future_gameplay_act: "kept R (flush_future_gameplay e name)"
  unfolding flush_future_gameplay_def by (intro seq modify entry keeps_read keptD flush_future_act)

lemma keep_future_act: "kept R (keep_future e name envelope)"
  unfolding keep_future_def Let_def
  by (intro bind dump_act keeps_read)
     (auto intro!: keptD [OF fail_act] bind_at kept_at_run store_future keptD [OF guarded] fail_act simp: not_le)

lemma apply_body_act: "kept R (apply_delivery_body e name envelope)"
  unfolding apply_delivery_body_def Let_def
  by (intro seq flush_future_gameplay_act keeps_read keptD)
     (auto intro!: basics modify barrier fail_act apply_gameplay_act keep_future_act split: option.split)

end

section \<open>What arrives from members\<close>

text \<open>The frames of the members \<open>N\<close> are within the relation, and the acknowledgements of the members \<open>M\<close>.\<close>

locale receives_relation = applies_relation R
  for R :: "('k, 'i, 'c) transport \<Rightarrow> ('k, 'i, 'c) transport \<Rightarrow> bool" +
  fixes N :: "string set"
  assumes take_received: "name \<in> N \<Longrightarrow> map_of (dl_peers (tr_delivery s)) name = Some p \<Longrightarrow>
      pd_received p = (q, item) # rest \<Longrightarrow> R s (take_item item (set_journal name (pd_received_update (\<lambda>_. rest))) s)"
    and store: "name \<in> N \<Longrightarrow> map_of (dl_peers (tr_delivery s)) name = Some p \<Longrightarrow> map_of (pd_received p) q = None \<Longrightarrow>
      R s (snd (keep_item n (store_received name q body n) s))"
    and ready: "R s (upd_delivery (dl_ready_update f) s)"
    and counts: "name \<in> N \<Longrightarrow> R s (set_delivery name (pd_nextReceive_update g) s)"
      "name \<in> N \<Longrightarrow> R s (set_delivery name (\<lambda>p. pd_ackPending_update (\<lambda>_. h p) p) s)"
begin

lemma apply_received_act: "name \<in> N \<Longrightarrow> kept R (apply_received e name fuel)"
proof (induction fuel)
  case 0
  then show ?case by (simp add: return)
next
  case (Suc fuel)
  show ?case
    unfolding apply_received.simps
    by (rule keeps_read)
       (auto intro!: keptD [OF return] bind_at kept_at_modify take_received keptD [OF apply_body_act]
         counts keptD [OF Suc.IH] Suc.prems split: option.split list.split)
qed

lemma set_ack_act: "name \<in> N \<Longrightarrow> kept R (act_modify (set_ack name))"
  unfolding set_ack_def by (intro modify counts)

lemma receive_body_act:
  "name \<in> N \<Longrightarrow> map_of (dl_peers (tr_delivery s)) name = Some p \<Longrightarrow> kept_at R (receive_body e name q body p) s"
  unfolding receive_body_def
proof (cases "map_of (pd_received p) q")
  case None
  assume p: "name \<in> N" "map_of (dl_peers (tr_delivery s)) name = Some p"
  have same: "act_dump e body s = (Inr n, t) \<Longrightarrow> t = s" for n t
    by (auto simp: act_dump_def act_bind_def act_lift_def act_return_def split: sum.splits)
  show "kept_at R (case map_of (pd_received p) q of
      Some item \<Rightarrow> act_bind (act_when (\<not> j_eq (pg_value item) body) act_fail) (\<lambda>_. act_return [])
    | None \<Rightarrow> act_bind (act_dump e body) (\<lambda>n.
        if n > reliableJsonLimit + 128 then act_bind act_fail (\<lambda>_. act_return [])
        else act_bind (act_run (keep_item n (store_received name q body n))) (\<lambda>kept.
          if \<not> kept then act_bind act_fail (\<lambda>_. act_return [])
          else act_bind (apply_received e name (length (pd_received p) + 1)) (\<lambda>bodies. act_read (\<lambda>s.
            act_bind (act_when (\<not> dl_failure (tr_delivery s)) (act_modify (set_ack name))) (\<lambda>_.
              act_return bodies)))))) s"
    unfolding None option.case
    by (rule bind_at [OF keptD [OF dump_act]], drule same)
       (auto intro!: bind_at keptD [OF fail_act] keptD [OF return] kept_at_run store [OF p None]
         keptD [OF apply_received_act] kept_at_read keptD [OF guarded] set_ack_act p(1) simp del: apply_received.simps)
qed (auto intro!: keptD bind guarded fail_act return)

lemma receive_sequence_act:
  "name \<in> N \<Longrightarrow> map_of (dl_peers (tr_delivery s)) name = Some p \<Longrightarrow> kept_at R (receive_sequence e name packet q p) s"
  unfolding receive_sequence_def
  by (auto intro!: bind_at keptD [OF fail_act] keptD [OF return] keptD [OF set_ack_act] keptD [OF lift] receive_body_act
     simp: act_lift_def)

lemma send_receipt_act: "name \<in> N \<Longrightarrow> kept R (send_receipt e name)"
  unfolding send_receipt_def
  by (rule keeps_read)
     (auto intro!: keptD basics at_act queue_link_act queue_primary_act fail_act modify counts split: option.split)

lemma announce_ready_act: "kept R (announce_ready e)"
  unfolding announce_ready_def Let_def
  by (intro keeps_read keptD) (auto intro!: basics modify ready or_fail_act queue_primary_act)

lemma check_time_act: "kept R (check_barrier_time e)"
  unfolding check_barrier_time_def Let_def by (intro keeps_read keptD guarded fail_act)

end

section \<open>A whole turn\<close>

locale turns_relation = receives_relation R N
  for R :: "('k, 'i, 'c) transport \<Rightarrow> ('k, 'i, 'c) transport \<Rightarrow> bool" and N +
  fixes M :: "string set"
  assumes acked: "name \<in> M \<Longrightarrow> R s (acknowledge name a s)"
    and rx: "R s (s\<lparr>tr_meshRx := v\<rparr>)"
begin

lemma ack_frame_act:
  "name \<in> M \<Longrightarrow> j_find ''ack'' packet \<noteq> None \<Longrightarrow> kept R (receive_delivery e name packet)"
  unfolding receive_delivery_def receive_ack_def
  by (rule keeps_read)
     (auto intro!: keptD [OF return] bind_at keptD [OF fail_act] kept_at_modify acked split: option.split json.split)

lemma body_frame_act:
  "name \<in> N \<Longrightarrow> j_find ''ack'' packet = None \<Longrightarrow> kept R (receive_delivery e name packet)"
  unfolding receive_delivery_def
  by (rule keeps_read)
     (auto intro!: keptD [OF return] bind_at keptD [OF fail_act] keptD [OF lift] receive_sequence_act
       split: option.split json.split simp: act_lift_def)

lemma receive_delivery_act: "name \<in> N \<Longrightarrow> name \<in> M \<Longrightarrow> kept R (receive_delivery e name packet)"
  using ack_frame_act body_frame_act by blast

lemma frame_act: "name \<in> N \<Longrightarrow> name \<in> M \<Longrightarrow> kept R (receive_frame e name packet)"
  unfolding receive_frame_def by (intro bind receive_delivery_act return)

lemma handle_line_act: "(\<And>m. kept R (h m)) \<Longrightarrow> kept R (handle_line e h peerFrame line)"
proof (rule keptI)
  fix s :: "('k, 'i, 'c) transport"
  assume h: "\<And>m. kept R (h m)"
  define m where "m = act_bind (act_lift (decode_reliable_json (te_codec e) line
    (if peerFrame \<or> tr_meshEnabled s then reliablePeerFrameLimit else reliableJsonLimit))) h"
  have "kept R m" unfolding m_def by (intro bind lift h)
  then have "R s (snd (m s))" by (simp add: kept_def kept_at_def)
  then show "kept_at R (handle_line e h peerFrame line) s"
    by (auto simp: kept_at_def handle_line_def m_def emit_def intro: chain event split: sum.splits net_error.splits prod.splits)
qed

lemma handle_lines_act:
  "(\<And>m. kept R (h m)) \<Longrightarrow> kept R (handle_lines e (mesh_rx name) h peerFrame fuel)"
proof (induction fuel)
  case 0
  then show ?case by (simp add: return)
next
  case (Suc fuel)
  have "kept R (act_modify (snd (mesh_rx name) v))" for v by (rule modify) (simp add: mesh_rx_def rx)
  with Suc show ?case
    unfolding handle_lines.simps Let_def
    by (intro keeps_read keptD) (auto intro!: basics handle_line_act keeps_read keptD)
qed

lemma receive_loop_act:
  "(\<And>m. kept R (h m)) \<Longrightarrow> kept R (receive_loop e source (mesh_rx name) h peerFrame fuel)"
proof (induction fuel)
  case 0
  then show ?case by (simp add: return)
next
  case (Suc fuel)
  have "kept R (act_modify (\<lambda>s. snd (mesh_rx name) (f s) s))" for f by (rule modify) (simp add: mesh_rx_def rx)
  with Suc show ?case
    unfolding receive_loop.simps
    by (intro bind conns_act) (auto intro!: basics handle_lines_act keeps_read keptD split: prod.split)
qed

lemma receive_link_act: "(\<And>m. kept R (h m)) \<Longrightarrow> kept R (receive_link e source (mesh_rx name) h peerFrame)"
  unfolding receive_link_def by (intro keeps_read keptD receive_loop_act)

lemma drain_act: "name \<in> N \<Longrightarrow> name \<in> M \<Longrightarrow> kept R (drain_peer_gameplay e name link departing)"
  unfolding drain_peer_gameplay_def Let_def
  by (intro seq flush_future_gameplay_act modify bind receive_link_act frame_act keeps_read keptD)
     (auto intro!: basics emits_act fail_act simp: mesh_rx_def rx)

lemma pump_act: "N = UNIV \<Longrightarrow> M = UNIV \<Longrightarrow> kept R (pump_deliveries e)"
  unfolding pump_deliveries_def
  by (intro keeps_read keptD seq each send_receipt_act announce_ready_act check_time_act flush_gameplay_act)
     (auto intro: drain_act split: prod.split)

end

end
