(* ===== verification/Delivery_Order.thy ===== *)
theory Delivery_Order
  imports Delivery_Relations
begin

text \<open>
  Two members of a room: whatever path the frames take, repeated, delayed or lost, the receiver applies
  what the sender numbered, in order and once, and what it has not applied the sender still keeps.
\<close>

section \<open>The receiver's journal\<close>

definition inbound :: "string \<Rightarrow> ('k, 'i, 'c) transport \<Rightarrow> (u64 \<times> (u64, pending_gameplay) omap \<times> u64) option" where
  "inbound name s = map_option (\<lambda>p. (pd_nextReceive p, pd_received p, pd_ackPending p)) (map_of (dl_peers (tr_delivery s)) name)"

text \<open>Nothing but the frames of a member changes what it is owed.\<close>

definition inbound_rel :: "string \<Rightarrow> ('k, 'i, 'c) transport \<Rightarrow> ('k, 'i, 'c) transport \<Rightarrow> bool" where
  "inbound_rel name s t \<longleftrightarrow> (om_ok (tr_meshLinks s) \<longrightarrow> tr_meshLinks t = tr_meshLinks s \<and>
     (dl_failure (tr_delivery s) \<longrightarrow> dl_failure (tr_delivery t)) \<and> inbound name t = inbound name s)"

lemma inbound_same:
  "tr_delivery t = tr_delivery s \<Longrightarrow> tr_meshLinks t = tr_meshLinks s \<Longrightarrow> inbound_rel name s t"
  by (simp add: inbound_rel_def inbound_def)

lemma inbound_upd:
  assumes "dl_failure (tr_delivery s) \<Longrightarrow> dl_failure (g (tr_delivery s))"
    and "\<And>m. map_option (\<lambda>p. (pd_nextReceive p, pd_received p, pd_ackPending p)) (map_of (dl_peers (g (tr_delivery s))) m) =
      map_option (\<lambda>p. (pd_nextReceive p, pd_received p, pd_ackPending p)) (map_of (dl_peers (tr_delivery s)) m)"
  shows "inbound_rel name s (upd_delivery g s)"
  using assms by (simp add: inbound_rel_def inbound_def)

lemma journal_failure [simp]: "dl_failure (set_journal name f d) = dl_failure d"
  by (simp add: set_journal_def split: option.split)

lemma keep_item_cases:
  obtains "keep_item n store s = (False, fail_delivery s)"
  | "keep_item n store s = (True, upd_delivery (\<lambda>d. store (dl_bytes_update (\<lambda>b. b + n) d)) s)"
  by (cases "dl_bytes (tr_delivery s) + n > deliveryLimit")
     (simp_all add: keep_item_def retain_delivery_def upd_delivery_def)

lemma fail_peers [simp]:
  "dl_peers (tr_delivery (fail_delivery s)) = dl_peers (tr_delivery s)" "dl_failure (tr_delivery (fail_delivery s))"
  "tr_meshLinks (fail_delivery s) = tr_meshLinks s"
  by (simp_all add: fail_delivery_def)

lemma inbound_keep:
  assumes "\<And>d. dl_peers (store d) = dl_peers d" and "\<And>d. dl_failure (store d) = dl_failure d"
  shows "inbound_rel name s (snd (keep_item n store s))"
  by (cases rule: keep_item_cases [of n store s]) (simp_all add: inbound_rel_def inbound_def assms)

lemma inbound_take:
  assumes "\<And>d. dl_peers (f d) = dl_peers d" and "\<And>d. dl_failure (f d) = dl_failure d"
  shows "inbound_rel name s (take_item item f s)"
  by (simp add: take_item_def release_bytes_def inbound_rel_def inbound_def assms)

lemma inbound_journal: "inbound_rel name s (snd (journal_body body n peer q s))"
proof -
  have same: "map_option (\<lambda>p. (pd_nextReceive p, pd_received p, pd_ackPending p))
      (map_of (dl_peers (set_journal peer f d)) m) =
      map_option (\<lambda>p. (pd_nextReceive p, pd_received p, pd_ackPending p)) (map_of (dl_peers d) m)"
    if "\<And>p. pd_nextReceive (f p) = pd_nextReceive p \<and> pd_received (f p) = pd_received p \<and> pd_ackPending (f p) = pd_ackPending p"
    for f m d
    using that by (simp add: map_of_set_journal option.map_comp comp_def)
  have "inbound_rel name (set_delivery peer (pd_nextSend_update (\<lambda>q. q + 1)) s) (snd (journal_body body n peer q s))"
    unfolding journal_body_def
    by (cases rule: keep_item_cases [of n "set_journal peer (keep_sent q body n)"
          "set_delivery peer (pd_nextSend_update (\<lambda>q. q + 1)) s"])
       (simp_all add: inbound_rel_def inbound_def same keep_sent_def)
  then show ?thesis
    by (simp add: inbound_rel_def inbound_def set_delivery_def same)
qed

lemma set_future_fields [simp]:
  "dl_peers (set_future name items d) = dl_peers d" "dl_failure (set_future name items d) = dl_failure d"
  by (simp_all add: set_future_def)

lemma inbound_flags: "flags_only g \<Longrightarrow> inbound_rel name s (upd_delivery g s)"
  by (rule inbound_upd) (simp_all add: flags_peers flags_failure)

lemma inbound_deferred:
  "inbound_rel name s (snd (keep_item n (store_deferred message n) s))"
  "inbound_rel name s (take_item item (dl_deferred_update (\<lambda>_. rest)) s)"
  "inbound_rel name s (snd (keep_item n (set_future peer items) s))"
  "inbound_rel name s (take_item item (set_future peer items) s)"
  "inbound_rel name s (upd_delivery (\<lambda>d. set_future peer (om_get [] peer (dl_future d)) d) s)"
  by (rule inbound_keep inbound_take inbound_upd, simp_all add: store_deferred_def)+

text \<open>The frames of another member, and every acknowledgement, leave it as well.\<close>

lemma inbound_unchanged:
  assumes "\<And>d. dl_failure d \<Longrightarrow> dl_failure (g d)" and "\<And>d. map_of (dl_peers (g d)) name = map_of (dl_peers d) name"
  shows "inbound_rel name s (upd_delivery g s)"
  using assms by (simp add: inbound_rel_def inbound_def)

lemma inbound_other_keep:
  assumes "name \<noteq> peer"
  shows "inbound_rel name s (snd (keep_item n (store_received peer q body n) s))"
  by (cases rule: keep_item_cases [of n "store_received peer q body n" s])
     (simp_all add: inbound_rel_def inbound_def store_received_def map_of_set_journal assms)

lemma inbound_other:
  assumes "name \<noteq> peer"
  shows "inbound_rel name s (take_item item (set_journal peer f) s)" "inbound_rel name s (set_delivery peer f s)"
  using assms
  by (simp_all add: inbound_rel_def inbound_def take_item_def release_bytes_def set_delivery_def map_of_set_journal)

lemma release_all_fields:
  "dl_peers (tr_delivery (foldl (\<lambda>s (q, item). release_bytes (pg_bytes item) s) s gone)) = dl_peers (tr_delivery s)"
  "dl_failure (tr_delivery (foldl (\<lambda>s (q, item). release_bytes (pg_bytes item) s) s gone)) = dl_failure (tr_delivery s)"
  "tr_meshLinks (foldl (\<lambda>s (q, item). release_bytes (pg_bytes item) s) s gone) = tr_meshLinks s"
  by (induction gone arbitrary: s) (simp_all add: release_bytes_def split_beta)

lemma inbound_acked: "inbound_rel name s (acknowledge peer a s)"
  by (simp add: inbound_rel_def inbound_def acknowledge_def Let_def set_delivery_def map_of_set_journal release_all_fields
      option.map_comp comp_def split: option.split)

interpretation inbound: turns_relation "inbound_rel name" "- {name}" UNIV for name
proof unfold_locales
  fix s t u :: "('k, 'i, 'c) transport"
  show "inbound_rel name s s" by (rule inbound_same) simp_all
  show "inbound_rel name s t \<Longrightarrow> inbound_rel name t u \<Longrightarrow> inbound_rel name s u" by (auto simp: inbound_rel_def)
  show "\<not> om_ok (tr_meshLinks s) \<Longrightarrow> inbound_rel name s t" by (simp add: inbound_rel_def)
qed ((rule inbound_journal inbound_deferred inbound_acked) | (unfold fail_delivery_def; rule inbound_flags; (simp; fail))
     | (rule inbound_flags; (simp; fail)) | (rule inbound_other_keep inbound_other; (simp; fail))
     | (rule inbound_same; (simp add: upd_status_def; fail)))+

lemma body_keeps_inbound:
  assumes "apply_delivery_body e peer envelope s = (r, t)" and "om_ok (tr_meshLinks s)"
  shows "inbound name t = inbound name s" "tr_meshLinks t = tr_meshLinks s"
    "dl_failure (tr_delivery s) \<Longrightarrow> dl_failure (tr_delivery t)"
proof -
  have "inbound_rel name s t"
    using inbound.apply_body_act [of name e peer envelope] assms(1) unfolding kept_def kept_at_def by (metis snd_conv)
  then show "inbound name t = inbound name s" "tr_meshLinks t = tr_meshLinks s"
    "dl_failure (tr_delivery s) \<Longrightarrow> dl_failure (tr_delivery t)"
    using assms(2) by (simp_all add: inbound_rel_def)
qed

section \<open>What the receiver applies\<close>

text \<open>The number of the body at index \<open>k\<close> of all that was ever sent.\<close>

definition seq_no :: "nat \<Rightarrow> u64" where
  "seq_no k = word_of_nat (Suc k)"

lemma unat_seq_no: "k < 2 ^ 64 - 1 \<Longrightarrow> unat (seq_no k) = Suc k"
  by (simp add: seq_no_def unat_of_nat take_bit_nat_def del: of_nat_Suc)

lemma seq_no_order:
  assumes "k < 2 ^ 64 - 1" and "m < 2 ^ 64 - 1"
  shows "seq_no k < seq_no m \<longleftrightarrow> k < m" "seq_no k = seq_no m \<longleftrightarrow> k = m"
  using assms by (simp_all add: word_less_nat_alt word_unat_eq_iff unat_seq_no)

lemma seq_no_Suc: "seq_no k + 1 = seq_no (Suc k)"
  by (simp add: seq_no_def add.commute)

text \<open>After \<open>n\<close> bodies: the next number is due, and what came early is what was numbered so.\<close>

definition early :: "json list \<Rightarrow> nat \<Rightarrow> (u64, pending_gameplay) omap \<Rightarrow> bool" where
  "early numbered n waiting \<longleftrightarrow> om_ok waiting \<and>
     (\<forall>(q, item) \<in> set waiting. \<exists>k. n \<le> k \<and> k < length numbered \<and> q = seq_no k \<and> pg_value item = numbered ! k)"

definition awaits :: "string \<Rightarrow> json list \<Rightarrow> nat \<Rightarrow> ('k, 'i, 'c) transport \<Rightarrow> bool" where
  "awaits name numbered n s \<longleftrightarrow> om_ok (tr_meshLinks s) \<and> n \<le> length numbered \<and>
     (\<exists>waiting ack. inbound name s = Some (seq_no n, waiting, ack) \<and> early numbered n waiting \<and> unat ack \<le> n)"

definition settled :: "string \<Rightarrow> ('k, 'i, 'c) transport \<Rightarrow> bool" where
  "settled name s \<longleftrightarrow> (\<not> dl_failure (tr_delivery s) \<longrightarrow>
     (\<forall>next waiting ack. inbound name s = Some (next, waiting, ack) \<longrightarrow> map_of waiting next = None))"

lemma early_tail: "early numbered n ((q, item) # rest) \<Longrightarrow> early numbered n rest"
  by (auto simp: early_def om_ok_Cons)

lemma early_head:
  assumes big: "length numbered < 2 ^ 64 - 1" and e: "early numbered n ((seq_no n, item) # rest)"
  shows "n < length numbered" "pg_value item = numbered ! n" "early numbered (Suc n) rest"
proof -
  obtain k where k: "n \<le> k" "k < length numbered" "seq_no n = seq_no k" "pg_value item = numbered ! k"
    using e by (auto simp: early_def)
  then have "k = n" using seq_no_order(2) [of n k] big by simp
  with k show n: "n < length numbered" "pg_value item = numbered ! n" by simp_all
  have "Suc n \<le> m" if "(q, i) \<in> set rest" "n \<le> m" "m < length numbered" "q = seq_no m" for q i m
  proof -
    have "seq_no n < q" using e that(1) by (force simp: early_def om_ok_Cons)
    then show ?thesis using seq_no_order(1) [of n m] that big n by simp
  qed
  then show "early numbered (Suc n) rest" using e by (fastforce simp: early_def om_ok_Cons)
qed

lemma early_not_due:
  assumes big: "length numbered < 2 ^ 64 - 1" and e: "early numbered n ((q, item) # rest)" and q: "q \<noteq> seq_no n" and n: "n \<le> length numbered"
  shows "map_of ((q, item) # rest) (seq_no n) = None"
proof -
  obtain k where k: "n \<le> k" "k < length numbered" "q = seq_no k" using e by (auto simp: early_def)
  have "seq_no n \<notin> fst ` set rest"
  proof
    assume "seq_no n \<in> fst ` set rest"
    then have "q < seq_no n" using e by (auto simp: early_def om_ok_Cons)
    then show False using k seq_no_order(1) [of k n] big n by simp
  qed
  then show ?thesis using q by (auto simp: map_of_eq_None_iff)
qed

lemma inbound_of: "inbound name s = Some (next, waiting, ack) \<longleftrightarrow>
   (\<exists>p. map_of (dl_peers (tr_delivery s)) name = Some p \<and> pd_nextReceive p = next \<and> pd_received p = waiting \<and> pd_ackPending p = ack)"
  by (auto simp: inbound_def)

lemma inbound_set:
  "inbound name (set_delivery name f s) =
     map_option (\<lambda>p. (pd_nextReceive (f p), pd_received (f p), pd_ackPending (f p))) (map_of (dl_peers (tr_delivery s)) name)"
  by (simp add: inbound_def set_delivery_def map_of_set_journal option.map_comp comp_def)

lemma take_received_fields:
  "tr_meshLinks (take_item item f s) = tr_meshLinks s"
  "dl_failure (tr_delivery (take_item item f s)) = dl_failure (f (tr_delivery s))"
  "dl_peers (tr_delivery (take_item item f s)) = dl_peers (f (tr_delivery s))"
  by (simp_all add: take_item_def release_bytes_def)

lemma set_delivery_other [simp]:
  "tr_meshLinks (set_delivery name f s) = tr_meshLinks s"
  "dl_failure (tr_delivery (set_delivery name f s)) = dl_failure (tr_delivery s)"
  by (simp_all add: set_delivery_def)

lemma act_bind_Inr:
  "act_bind m f s = (Inr b, u) \<longleftrightarrow> (\<exists>a t. m s = (Inr a, t) \<and> f a t = (Inr b, u))"
  by (auto simp: act_bind_def split: prod.splits sum.splits)

lemma act_bind_done: "m s = (Inr a, t) \<Longrightarrow> act_bind m f s = f a t"
  by (simp add: act_bind_def)

lemma applied_in_order:
  assumes big: "length numbered < 2 ^ 64 - 1"
  shows "awaits name numbered n s \<Longrightarrow> apply_received e name fuel s = (Inr bodies, t) \<Longrightarrow>
    awaits name numbered (n + length bodies) t \<and> bodies = take (length bodies) (drop n numbered) \<and>
    (dl_failure (tr_delivery s) \<longrightarrow> dl_failure (tr_delivery t)) \<and>
    (length (fst (snd (the (inbound name s)))) \<le> fuel \<longrightarrow> settled name t)"
proof (induction fuel arbitrary: n s bodies)
  case 0
  then show ?case by (auto simp: act_return_def settled_def awaits_def)
next
  case (Suc fuel)
  obtain waiting ack where w: "inbound name s = Some (seq_no n, waiting, ack)" "early numbered n waiting" "unat ack \<le> n"
    and links: "om_ok (tr_meshLinks s)" and n: "n \<le> length numbered"
    using Suc.prems(1) by (auto simp: awaits_def)
  obtain p where p: "map_of (dl_peers (tr_delivery s)) name = Some p" "pd_nextReceive p = seq_no n" "pd_received p = waiting"
    "pd_ackPending p = ack"
    using w(1) by (auto simp: inbound_of)
  have stop: ?case if "bodies = []" "t = s" "dl_failure (tr_delivery s) \<or> map_of waiting (seq_no n) = None"
    using Suc.prems(1) that w(1) by (auto simp: settled_def)
  show ?case
  proof (cases waiting)
    case Nil
    then show ?thesis using Suc.prems(2) p by (intro stop) (simp_all add: act_read_def act_return_def)
  next
    case (Cons x rest)
    obtain q item where x: "x = (q, item)" by fastforce
    show ?thesis
    proof (cases "dl_failure (tr_delivery s) \<or> q \<noteq> seq_no n")
      case True
      then show ?thesis
        using Suc.prems(2) p Cons x early_not_due [OF big _ _ n, of q item rest] w(2)
        by (intro stop) (auto simp: act_read_def act_return_def)
    next
      case False
      then have q: "q = seq_no n" and alive: "\<not> dl_failure (tr_delivery s)" by simp_all
      note head = early_head [OF big w(2) [unfolded Cons x q]]
      let ?s1 = "take_item item (set_journal name (pd_received_update (\<lambda>_. rest))) s"
      obtain u bs where u: "apply_delivery_body e name (pg_value item) ?s1 = (Inr (), u)"
        and rec: "apply_received e name fuel (set_delivery name (pd_nextReceive_update (\<lambda>q. q + 1)) u) = (Inr bs, t)"
        and bodies: "bodies = pg_value item # bs"
        using Suc.prems(2) p Cons x q alive
        by (auto simp: act_read_def act_bind_Inr act_modify_def act_return_def)
      have in1: "inbound name ?s1 = Some (seq_no n, rest, ack)"
        using p by (simp add: inbound_def take_received_fields map_of_set_journal)
      have "om_ok (tr_meshLinks ?s1)" using links by (simp add: take_received_fields)
      note after = body_keeps_inbound [OF u this]
      have kept: "inbound name u = Some (seq_no n, rest, ack)" "tr_meshLinks u = tr_meshLinks s"
        using after(1) [of name] after(2) by (simp_all add: in1 take_received_fields)
      let ?s2 = "set_delivery name (pd_nextReceive_update (\<lambda>q. q + 1)) u"
      have in2: "inbound name ?s2 = Some (seq_no (Suc n), rest, ack)"
        using kept(1) by (auto simp: inbound_set inbound_of seq_no_Suc)
      have "awaits name numbered (Suc n) ?s2"
        using in2 head w(3) links kept(2) by (simp add: awaits_def)
      from Suc.IH [OF this rec] show ?thesis
        using bodies head n in2 Cons x alive w(1)
        by (auto simp: take_Suc_conv_app_nth Cons_nth_drop_Suc [symmetric])
    qed
  qed
qed

lemma nothing_applied: "apply_received e name fuel s = (Inr [], t) \<Longrightarrow> t = s"
  by (cases fuel) (auto simp: act_read_def act_return_def act_bind_Inr split: option.splits list.splits if_splits)

lemma act_dump_same: "act_dump e j s = (Inr n, t) \<Longrightarrow> t = s"
  by (auto simp: act_dump_def act_bind_def act_lift_def act_return_def split: sum.splits)

lemma frame_parts [simp]:
  "j_find ''ack'' (delivery_frame q body) = None" "j_at ''sequence'' (delivery_frame q body) = Inr (j_u64 q)"
  "j_at ''body'' (delivery_frame q body) = Inr body"
  by (simp_all add: delivery_frame_def j_at_def j_find_j_obj)

lemma awaits_fail: "awaits name numbered n s \<Longrightarrow> awaits name numbered n (fail_delivery s)"
  by (simp add: awaits_def inbound_def)

lemma awaits_ack:
  assumes a: "awaits name numbered n s" and big: "length numbered < 2 ^ 64 - 1"
  shows "awaits name numbered n (set_ack name s)" "settled name (set_ack name s) \<longleftrightarrow> settled name s"
proof -
  obtain waiting ack where w: "inbound name s = Some (seq_no n, waiting, ack)" "early numbered n waiting"
    using a by (auto simp: awaits_def)
  then have new: "inbound name (set_ack name s) = Some (seq_no n, waiting, seq_no n - 1)"
    by (auto simp: set_ack_def inbound_set inbound_of)
  have "seq_no n - 1 = word_of_nat n" by (simp add: seq_no_def)
  then have "unat (seq_no n - 1) = n" using a big by (simp add: awaits_def unat_of_nat take_bit_nat_def)
  then show "awaits name numbered n (set_ack name s)"
    using a new w(2) by (simp add: awaits_def) (simp add: set_ack_def)
  show "settled name (set_ack name s) \<longleftrightarrow> settled name s"
    using new w(1) by (simp add: settled_def) (simp add: set_ack_def)
qed

lemma early_put:
  assumes "early numbered n waiting" and "n \<le> k" and "k < length numbered" and "pg_value item = numbered ! k"
  shows "early numbered n (om_put (seq_no k) item waiting)"
proof -
  have "\<exists>j. n \<le> j \<and> j < length numbered \<and> q = seq_no j \<and> pg_value i = numbered ! j"
    if "(q, i) \<in> set (om_put (seq_no k) item waiting)" for q i
  proof -
    have "(q, i) = (seq_no k, item) \<or> (q, i) \<in> set waiting"
      using that set_om_put_subset [of "seq_no k" item waiting] by blast
    then show ?thesis using assms by (auto simp: early_def)
  qed
  then show ?thesis using assms(1) by (auto simp: early_def)
qed

text \<open>An exception while a body is applied leaves the journal without it and the number where it was.\<close>

lemma act_bind_Inl:
  "act_bind m f s = (Inl x, u) \<longleftrightarrow> m s = (Inl x, u) \<or> (\<exists>a t. m s = (Inr a, t) \<and> f a t = (Inl x, u))"
  by (auto simp: act_bind_def split: prod.splits sum.splits)

lemma early_item:
  assumes "early numbered n waiting" and "(q, item) \<in> set waiting"
  obtains k where "n \<le> k" "k < length numbered" "q = seq_no k" "pg_value item = numbered ! k"
proof -
  have "\<forall>(q, item) \<in> set waiting. \<exists>k. n \<le> k \<and> k < length numbered \<and> q = seq_no k \<and> pg_value item = numbered ! k"
    using assms(1) by (simp add: early_def)
  from bspec [OF this assms(2)] show ?thesis using that by auto
qed

lemma early_gone: "length numbered < 2 ^ 64 - 1 \<Longrightarrow> n < length numbered \<Longrightarrow> early numbered (Suc n) rest \<Longrightarrow>
  early numbered n rest \<and> map_of rest (seq_no n) = None"
proof
  assume big: "length numbered < 2 ^ 64 - 1" and n: "n < length numbered" and e: "early numbered (Suc n) rest"
  have "\<exists>k. n \<le> k \<and> k < length numbered \<and> q = seq_no k \<and> pg_value item = numbered ! k"
    if "(q, item) \<in> set rest" for q item
  proof -
    from e that obtain k where "Suc n \<le> k" "k < length numbered" "q = seq_no k" "pg_value item = numbered ! k"
      by (rule early_item)
    then show ?thesis by (intro exI [of _ k]) simp
  qed
  then show "early numbered n rest" using e by (auto simp: early_def)
  have "q \<noteq> seq_no n" if "(q, item) \<in> set rest" for q item
  proof -
    from e that obtain k where "Suc n \<le> k" "k < length numbered" "q = seq_no k"
      by (rule early_item)
    then show ?thesis using seq_no_order(2) [of k n] big n by simp
  qed
  then show "map_of rest (seq_no n) = None" by (force simp: map_of_eq_None_iff)
qed

lemma applied_thrown:
  assumes big: "length numbered < 2 ^ 64 - 1"
  shows "awaits name numbered n s \<Longrightarrow> apply_received e name fuel s = (Inl x, t) \<Longrightarrow>
    \<exists>m \<ge> n. awaits name numbered m t \<and> settled name t"
proof (induction fuel arbitrary: n s)
  case 0
  then show ?case by (simp add: act_return_def)
next
  case (Suc fuel)
  obtain waiting ack where w: "inbound name s = Some (seq_no n, waiting, ack)" "early numbered n waiting" "unat ack \<le> n"
    and links: "om_ok (tr_meshLinks s)"
    using Suc.prems(1) by (auto simp: awaits_def)
  obtain p where p: "map_of (dl_peers (tr_delivery s)) name = Some p" "pd_nextReceive p = seq_no n" "pd_received p = waiting"
    "pd_ackPending p = ack"
    using w(1) by (auto simp: inbound_of)
  obtain item rest where wt: "waiting = (seq_no n, item) # rest" and alive: "\<not> dl_failure (tr_delivery s)"
    using Suc.prems(2) p by (auto simp: act_read_def act_return_def split: list.splits if_splits)
  note head = early_head [OF big w(2) [unfolded wt]]
  let ?s1 = "take_item item (set_journal name (pd_received_update (\<lambda>_. rest))) s"
  have in1: "inbound name ?s1 = Some (seq_no n, rest, ack)"
    using p by (simp add: inbound_def take_received_fields map_of_set_journal)
  have links1: "om_ok (tr_meshLinks ?s1)" using links by (simp add: take_received_fields)
  obtain r u where u: "apply_delivery_body e name (pg_value item) ?s1 = (r, u)" by fastforce
  note after = body_keeps_inbound [OF u links1]
  have kept: "inbound name u = Some (seq_no n, rest, ack)" "tr_meshLinks u = tr_meshLinks s"
    using after(1) [of name] after(2) by (simp_all add: in1 take_received_fields)
  let ?s2 = "set_delivery name (pd_nextReceive_update (\<lambda>q. q + 1)) u"
  have run: "r = Inl x \<and> u = t \<or> r = Inr () \<and> apply_received e name fuel ?s2 = (Inl x, t)"
    using Suc.prems(2) p wt alive u by (auto simp: act_read_def act_bind_Inl act_modify_def act_return_def)
  show ?case
  proof (cases r)
    case (Inl y)
    then have "t = u" using run by simp
    then have "awaits name numbered n t \<and> settled name t"
      using kept links w(3) head(1) early_gone [OF big head(1,3)] by (simp add: awaits_def settled_def)
    then show ?thesis by blast
  next
    case (Inr y)
    have in2: "inbound name ?s2 = Some (seq_no (Suc n), rest, ack)"
      using kept(1) by (auto simp: inbound_set inbound_of seq_no_Suc)
    have "awaits name numbered (Suc n) ?s2"
      using in2 head w(3) links kept(2) by (simp add: awaits_def)
    then obtain m where "m \<ge> Suc n" "awaits name numbered m t" "settled name t"
      using Suc.IH run Inr by blast
    then show ?thesis by (intro exI [of _ m]) simp
  qed
qed

lemma act_dump_thrown: "act_dump e j s = (Inl x, t) \<Longrightarrow> t = s"
  by (auto simp: act_dump_def act_bind_def act_lift_def act_return_def split: sum.splits)

lemma awaits_store:
  assumes a: "awaits name numbered n s" and k: "n \<le> k" "k < length numbered"
  shows "awaits name numbered n (upd_delivery (\<lambda>d. store_received name (seq_no k) (numbered ! k) m (dl_bytes_update f d)) s)"
proof -
  obtain waiting ack where w: "inbound name s = Some (seq_no n, waiting, ack)" "early numbered n waiting"
    using a by (auto simp: awaits_def)
  then have "inbound name (upd_delivery (\<lambda>d. store_received name (seq_no k) (numbered ! k) m (dl_bytes_update f d)) s) =
      Some (seq_no n, om_put (seq_no k) \<lparr>pg_value = numbered ! k, pg_bytes = m\<rparr> waiting, ack)"
    by (auto simp: inbound_def store_received_def map_of_set_journal)
  then show ?thesis using a w early_put [OF w(2) k] by (simp add: awaits_def)
qed

lemma frame_thrown:
  assumes big: "length numbered < 2 ^ 64 - 1" and a: "awaits name numbered n s" "settled name s" and k: "k < length numbered"
    and r: "receive_delivery e name (delivery_frame (seq_no k) (numbered ! k)) s = (Inl x, t)"
  shows "\<exists>m \<ge> n. awaits name numbered m t \<and> settled name t"
proof -
  have n: "n \<le> length numbered" using a by (simp add: awaits_def)
  obtain p where p: "map_of (dl_peers (tr_delivery s)) name = Some p" "pd_nextReceive p = seq_no n"
    using a by (auto simp: awaits_def inbound_of)
  have r1: "\<not> seq_no k < seq_no n" "receive_body e name (seq_no k) (numbered ! k) p s = (Inl x, t)"
    using r p by (auto simp: receive_delivery_def act_read_def act_lift_def lift_json_def act_bind_Inl receive_sequence_def
        act_modify_def act_return_def split: if_splits)
  have nk: "n \<le> k" using r1(1) seq_no_order(1) [of k n] k n big by simp
  consider "t = s" | m where "apply_received e name (length (pd_received p) + 1)
      (upd_delivery (\<lambda>d. store_received name (seq_no k) (numbered ! k) m (dl_bytes_update (\<lambda>b. b + m) d)) s) = (Inl x, t)"
  proof (cases "map_of (pd_received p) (seq_no k)")
    case (Some item)
    then show ?thesis using r1(2) by (auto simp: receive_body_def act_bind_Inl act_when_def act_modify_def act_return_def split: if_splits)
  next
    case None
    show ?thesis
    proof (cases "act_dump e (numbered ! k) s")
      case (Pair d u)
      show ?thesis
      proof (cases d)
        case (Inl y)
        then show ?thesis using r1(2) None Pair act_dump_thrown [of e "numbered ! k" s y u]
          by (intro that(1)) (auto simp: receive_body_def act_bind_def)
      next
        case (Inr m)
        then have "u = s" using Pair act_dump_same by blast
        then show ?thesis
          using r1(2) None Pair Inr
          by (cases rule: keep_item_cases [of m "store_received name (seq_no k) (numbered ! k) m" s])
             (auto intro!: that(2) [of m] simp: receive_body_def act_bind_Inl act_run_def act_when_def act_read_def act_modify_def
               act_return_def simp del: apply_received.simps split: if_splits)
      qed
    qed
  qed
  then show ?thesis
  proof cases
    case 1
    then show ?thesis using a by blast
  next
    case 2
    then show ?thesis using applied_thrown [OF big awaits_store [OF a(1) nk k]] by blast
  qed
qed

lemma body_received:
  assumes big: "length numbered < 2 ^ 64 - 1" and a: "awaits name numbered n s" and k: "n \<le> k" "k < length numbered"
    and p: "map_of (dl_peers (tr_delivery s)) name = Some p"
    and r: "receive_body e name (seq_no k) (numbered ! k) p s = (Inr bodies, t)"
  shows "awaits name numbered (n + length bodies) (t :: ('k, 'i, 'c) transport) \<and> bodies = take (length bodies) (drop n numbered) \<and>
    (dl_failure (tr_delivery s) \<longrightarrow> dl_failure (tr_delivery t)) \<and> (settled name s \<longrightarrow> settled name t) \<and>
    (k = n \<longrightarrow> settled name s \<longrightarrow> \<not> dl_failure (tr_delivery t) \<longrightarrow> bodies \<noteq> [])"
proof -
  obtain waiting ack where w: "inbound name s = Some (seq_no n, waiting, ack)" "early numbered n waiting" "unat ack \<le> n"
    and links: "om_ok (tr_meshLinks s)"
    using a by (auto simp: awaits_def)
  have pw: "pd_received p = waiting" "pd_nextReceive p = seq_no n" "pd_ackPending p = ack" using w(1) p by (auto simp: inbound_of)
  have failed: ?thesis if "bodies = []" "t = fail_delivery s"
    using that a awaits_fail [OF a] by (simp add: settled_def)
  show ?thesis
  proof (cases "map_of waiting (seq_no k)")
    case (Some item)
    show ?thesis
    proof (cases "j_eq (pg_value item) (numbered ! k)")
      case True
      then have "bodies = []" "t = s"
        using r Some pw by (simp_all add: receive_body_def act_bind_def act_when_def act_return_def)
      moreover have "k \<noteq> n \<or> \<not> settled name s \<or> dl_failure (tr_delivery s)"
        using Some w(1) by (auto simp: settled_def)
      ultimately show ?thesis using a by auto
    next
      case False
      then show ?thesis
        using r Some pw by (intro failed) (simp_all add: receive_body_def act_bind_def act_when_def act_return_def act_modify_def)
    qed
  next
    case None
    obtain m where m: "act_dump e (numbered ! k) s = (Inr m, s)" and r1:
      "(if m > reliableJsonLimit + 128 then act_bind act_fail (\<lambda>_. act_return [])
        else act_bind (act_run (keep_item m (store_received name (seq_no k) (numbered ! k) m))) (\<lambda>kept.
          if \<not> kept then act_bind act_fail (\<lambda>_. act_return [])
          else act_bind (apply_received e name (length (pd_received p) + 1)) (\<lambda>bodies. act_read (\<lambda>s.
            act_bind (act_when (\<not> dl_failure (tr_delivery s)) (act_modify (set_ack name))) (\<lambda>_.
              act_return bodies))))) s = (Inr bodies, t)"
      using r None pw by (auto simp: receive_body_def act_bind_Inr [of "act_dump e (numbered ! k)"] dest: act_dump_same)
    let ?store = "store_received name (seq_no k) (numbered ! k) m"
    have twice: "fail_delivery (fail_delivery s) = fail_delivery s" by (simp add: fail_delivery_def upd_delivery_def)
    show ?thesis
    proof (cases "m > reliableJsonLimit + 128 \<or> keep_item m ?store s = (False, fail_delivery s)")
      case True
      then show ?thesis
        using r1 by (intro failed) (auto simp: act_bind_def act_run_def act_modify_def act_return_def twice split: if_splits)
    next
      case False
      let ?s1 = "upd_delivery (\<lambda>d. ?store (dl_bytes_update (\<lambda>b. b + m) d)) s"
      have kept: "keep_item m ?store s = (True, ?s1)"
        using False by (cases rule: keep_item_cases [of m ?store s]) simp_all
      let ?tail = "\<lambda>bodies. act_read (\<lambda>s. act_bind (act_when (\<not> dl_failure (tr_delivery s)) (act_modify (set_ack name)))
          (\<lambda>_. act_return bodies))"
      have tail: "?tail bs u = (Inr bs, if dl_failure (tr_delivery u) then u else set_ack name u)"
        for bs :: "json list" and u :: "('k, 'i, 'c) transport"
        by (simp add: act_read_def act_bind_def act_when_def act_modify_def act_return_def)
      have "act_run (keep_item m ?store) s = (Inr True, ?s1)" using kept by (simp add: act_run_def)
      then have "act_bind (apply_received e name (length (pd_received p) + 1)) ?tail ?s1 = (Inr bodies, t)"
        using r1 False by (simp add: act_bind_done del: apply_received.simps)
      then obtain u where u: "apply_received e name (length waiting + 1) ?s1 = (Inr bodies, u)"
        and t: "t = (if dl_failure (tr_delivery u) then u else set_ack name u)"
        using pw unfolding act_bind_Inr tail by auto
      let ?w = "om_put (seq_no k) \<lparr>pg_value = numbered ! k, pg_bytes = m\<rparr> waiting"
      have in1: "inbound name ?s1 = Some (seq_no n, ?w, ack)"
        using p pw by (simp add: inbound_def store_received_def map_of_set_journal)
      have fl: "dl_failure (tr_delivery ?s1) = dl_failure (tr_delivery s)" by (simp add: store_received_def)
      have a1: "awaits name numbered n ?s1"
        using a links in1 early_put [OF w(2) k] w(3) by (simp add: awaits_def)
      have fuel: "length (fst (snd (the (inbound name ?s1)))) \<le> length waiting + 1"
        using length_om_put_le [of "seq_no k" _ waiting] by (simp add: in1)
      note ap = applied_in_order [OF big a1 u]
      have au: "awaits name numbered (n + length bodies) u" "bodies = take (length bodies) (drop n numbered)" "settled name u"
        "dl_failure (tr_delivery s) \<longrightarrow> dl_failure (tr_delivery u)"
        using ap fuel fl by simp_all
      have "bodies \<noteq> []" if "k = n" "\<not> dl_failure (tr_delivery u)"
      proof
        assume "bodies = []"
        then have "u = ?s1" using u nothing_applied by blast
        then show False using au(3) that in1 by (simp add: settled_def)
      qed
      then show ?thesis
        using au awaits_ack [OF au(1) big] by (auto simp: t)
    qed
  qed
qed

lemma frame_received:
  assumes big: "length numbered < 2 ^ 64 - 1" and a: "awaits name numbered n s" and k: "k < length numbered"
    and r: "receive_delivery e name (delivery_frame (seq_no k) (numbered ! k)) s = (Inr bodies, t)"
  shows "awaits name numbered (n + length bodies) t \<and> bodies = take (length bodies) (drop n numbered) \<and>
    (dl_failure (tr_delivery s) \<longrightarrow> dl_failure (tr_delivery t)) \<and> (settled name s \<longrightarrow> settled name t) \<and>
    (k = n \<longrightarrow> settled name s \<longrightarrow> \<not> dl_failure (tr_delivery t) \<longrightarrow> bodies \<noteq> [])"
proof -
  obtain p where p: "map_of (dl_peers (tr_delivery s)) name = Some p" "pd_nextReceive p = seq_no n"
    using a by (auto simp: awaits_def inbound_of)
  have r1: "receive_sequence e name (delivery_frame (seq_no k) (numbered ! k)) (seq_no k) p s = (Inr bodies, t)"
    using r p by (simp add: receive_delivery_def act_read_def act_lift_def lift_json_def act_bind_def)
  have failed: ?thesis if "bodies = []" "t = fail_delivery s"
    using that a awaits_fail [OF a] by (simp add: settled_def)
  consider (refused) "seq_no k = - 1 \<or> (\<not> seq_no k < seq_no n \<and> seq_no k - seq_no n \<ge> 4096)"
    | (old) "seq_no k \<noteq> - 1" "seq_no k < seq_no n"
    | (due) "seq_no k \<noteq> - 1" "\<not> seq_no k < seq_no n" "\<not> seq_no k - seq_no n \<ge> 4096"
    by blast
  then show ?thesis
  proof cases
    case refused
    have "seq_no k \<noteq> 0" using unat_seq_no [of k] k big by (metis Zero_not_Suc less_trans unat_0)
    then show ?thesis
      using refused r1 p by (intro failed) (auto simp: receive_sequence_def act_bind_def act_modify_def act_return_def split: if_splits)
  next
    case old
    have "seq_no k \<noteq> 0" using unat_seq_no [of k] k big by (metis Zero_not_Suc less_trans unat_0)
    then have "bodies = []" "t = set_ack name s"
      using old r1 p by (simp_all add: receive_sequence_def act_bind_def act_modify_def act_return_def)
    moreover have "n \<noteq> k" using old(2) by auto
    ultimately show ?thesis
      using a awaits_ack [OF a big] by (auto simp: set_ack_def)
  next
    case due
    have "seq_no k \<noteq> 0" using unat_seq_no [of k] k big by (metis Zero_not_Suc less_trans unat_0)
    then have r2: "receive_body e name (seq_no k) (numbered ! k) p s = (Inr bodies, t)"
      using due r1 p by (simp add: receive_sequence_def act_bind_def act_lift_def lift_json_def)
    have "n \<le> length numbered" using a by (simp add: awaits_def)
    then have "n \<le> k" using due(2) seq_no_order(1) [of k n] k big by simp
    then show ?thesis by (rule body_received [OF big a _ k p(1) r2])
  qed
qed

section \<open>The sender's journal\<close>

definition outbound :: "string \<Rightarrow> ('k, 'i, 'c) transport \<Rightarrow> (u64 \<times> (u64, pending_gameplay) omap) option" where
  "outbound name s = map_option (\<lambda>p. (pd_nextSend p, pd_sent p)) (map_of (dl_peers (tr_delivery s)) name)"

text \<open>Everything numbered so far is in the list; what is still kept is what the list has there.\<close>

definition numbers :: "string \<Rightarrow> json list \<Rightarrow> ('k, 'i, 'c) transport \<Rightarrow> bool" where
  "numbers name numbered s \<longleftrightarrow> length numbered < 2 ^ 64 - 1 \<and>
     (\<exists>unacked. outbound name s = Some (seq_no (length numbered), unacked) \<and> om_ok unacked \<and>
        (\<forall>(q, item) \<in> set unacked. \<exists>k < length numbered. q = seq_no k \<and> pg_value item = numbered ! k))"

text \<open>What is numbered from \<open>n\<close> on is kept, or the session has failed.\<close>

definition retains :: "string \<Rightarrow> json list \<Rightarrow> nat \<Rightarrow> ('k, 'i, 'c) transport \<Rightarrow> bool" where
  "retains name numbered n s \<longleftrightarrow> (\<not> dl_failure (tr_delivery s) \<longrightarrow>
     (\<forall>k. n \<le> k \<longrightarrow> k < length numbered \<longrightarrow> (\<exists>next unacked item. outbound name s = Some (next, unacked) \<and>
        map_of unacked (seq_no k) = Some item \<and> pg_value item = numbered ! k)))"

definition outbound_step :: "string \<Rightarrow> json list \<Rightarrow> ('k, 'i, 'c) transport \<Rightarrow> ('k, 'i, 'c) transport \<Rightarrow> bool" where
  "outbound_step name bodies s t \<longleftrightarrow> (dl_failure (tr_delivery s) \<longrightarrow> dl_failure (tr_delivery t)) \<and>
     (\<forall>numbered. numbers name numbered s \<longrightarrow> numbers name (numbered @ bodies) t \<and>
        (\<forall>n. retains name numbered n s \<longrightarrow> retains name (numbered @ bodies) n t))"

definition outbound_rel :: "string \<Rightarrow> ('k, 'i, 'c) transport \<Rightarrow> ('k, 'i, 'c) transport \<Rightarrow> bool" where
  "outbound_rel name s t \<longleftrightarrow> (om_ok (tr_meshLinks s) \<longrightarrow> tr_meshLinks t = tr_meshLinks s \<and> (\<exists>bodies. outbound_step name bodies s t))"

lemma outbound_step_same:
  assumes "outbound name t = outbound name s" and "dl_failure (tr_delivery s) \<Longrightarrow> dl_failure (tr_delivery t)"
  shows "outbound_step name [] s t"
  using assms by (auto simp: outbound_step_def numbers_def retains_def)

lemma outbound_rel_same:
  assumes "outbound name t = outbound name s" and "dl_failure (tr_delivery s) \<Longrightarrow> dl_failure (tr_delivery t)"
    and "tr_meshLinks t = tr_meshLinks s"
  shows "outbound_rel name s t"
  using assms outbound_step_same [of name t s] by (auto simp: outbound_rel_def)

lemma outbound_step_trans:
  "outbound_step name b s t \<Longrightarrow> outbound_step name c t u \<Longrightarrow> outbound_step name (b @ c) s u"
  by (simp add: outbound_step_def flip: append_assoc)

lemma outbound_chain: "outbound_rel name s t \<Longrightarrow> outbound_rel name t u \<Longrightarrow> outbound_rel name s u"
  unfolding outbound_rel_def using outbound_step_trans by (metis (no_types))

lemma outbound_keep:
  assumes "\<And>d. dl_peers (store d) = dl_peers d" and "\<And>d. dl_failure (store d) = dl_failure d"
  shows "outbound_rel name s (snd (keep_item n store s))"
  by (rule outbound_rel_same; cases rule: keep_item_cases [of n store s]) (simp_all add: outbound_def assms)

lemma outbound_take:
  assumes "\<And>d. dl_peers (f d) = dl_peers d" and "\<And>d. dl_failure (f d) = dl_failure d"
  shows "outbound_rel name s (take_item item f s)"
  by (rule outbound_rel_same) (simp_all add: take_item_def release_bytes_def outbound_def assms)

lemma outbound_deferred:
  "outbound_rel name s (snd (keep_item n (store_deferred message n) s))"
  "outbound_rel name s (take_item item (dl_deferred_update (\<lambda>_. rest)) s)"
  "outbound_rel name s (snd (keep_item n (set_future peer items) s))"
  "outbound_rel name s (take_item item (set_future peer items) s)"
  "outbound_rel name s (upd_delivery (\<lambda>d. set_future peer (om_get [] peer (dl_future d)) d) s)"
  by (rule outbound_keep outbound_take, simp_all add: store_deferred_def)+
     (rule outbound_rel_same, simp_all add: outbound_def)

lemma outbound_flags: "flags_only g \<Longrightarrow> outbound_rel name s (upd_delivery g s)"
  by (rule outbound_rel_same) (simp_all add: outbound_def flags_peers flags_failure)

lemma numbered_next:
  assumes "numbers name numbered s" and "outbound name s = Some (next, unacked)" and "next \<noteq> - 1"
  shows "length numbered + 1 < 2 ^ 64 - 1" "next = seq_no (length numbered)" "map_of unacked next = None"
proof -
  have n: "length numbered < 2 ^ 64 - 1" "next = seq_no (length numbered)" using assms(1,2) by (auto simp: numbers_def)
  then have "unat next \<noteq> unat (- 1 :: u64)" using assms(3) by (simp add: word_unat_eq_iff)
  then show "length numbered + 1 < 2 ^ 64 - 1" using n by (simp add: unat_seq_no unsigned_minus_1_eq_mask mask_eq_exp_minus_1)
  show "next = seq_no (length numbered)" by (rule n)
  have fresh: "next \<noteq> q" if "(q, item) \<in> set unacked" for q item
  proof -
    have "\<forall>(q, item) \<in> set unacked. \<exists>k < length numbered. q = seq_no k \<and> pg_value item = numbered ! k"
      using assms(1,2) by (auto simp: numbers_def)
    from bspec [OF this that] obtain k where "k < length numbered" "q = seq_no k" by auto
    then show ?thesis using n seq_no_order(2) [of k "length numbered"] by simp
  qed
  show "map_of unacked next = None"
  proof (cases "map_of unacked next")
    case (Some item)
    show ?thesis using fresh [OF map_of_SomeD [OF Some]] by simp
  qed
qed

lemma outbound_number:
  "outbound name (set_delivery peer (pd_nextSend_update (\<lambda>q. q + 1)) s) =
     (if name = peer then map_option (\<lambda>(next, unacked). (next + 1, unacked)) (outbound name s) else outbound name s)"
  by (auto simp: outbound_def set_delivery_def map_of_set_journal option.map_comp comp_def)

lemma numbers_put:
  assumes n: "numbers name numbered s" and o: "outbound name s = Some (next, unacked)" and x: "next \<noteq> - 1"
    and t: "outbound name t = Some (next + 1, w)" and w: "w = unacked \<or> w = om_put next \<lparr>pg_value = body, pg_bytes = m\<rparr> unacked"
  shows "numbers name (numbered @ [body]) t"
proof -
  note due = numbered_next [OF n o x]
  have old: "om_ok unacked" "\<forall>(q, item) \<in> set unacked. \<exists>k < length numbered. q = seq_no k \<and> pg_value item = numbered ! k"
    using n o by (auto simp: numbers_def)
  have "om_ok w" using w old(1) by auto
  moreover have "\<exists>k < length (numbered @ [body]). q = seq_no k \<and> pg_value item = (numbered @ [body]) ! k"
    if "(q, item) \<in> set w" for q item
  proof -
    have "(q, item) \<in> set unacked \<or> q = next \<and> pg_value item = body"
      using that w set_om_put_subset [where k = "next" and m = unacked and v = "\<lparr>pg_value = body, pg_bytes = m\<rparr>"] by auto
    then show ?thesis
    proof
      assume "(q, item) \<in> set unacked"
      from bspec [OF old(2) this] obtain k where "k < length numbered" "q = seq_no k" "pg_value item = numbered ! k" by auto
      then show ?thesis by (intro exI [of _ k]) (simp add: nth_append)
    next
      assume "q = next \<and> pg_value item = body"
      then show ?thesis using due(2) by (intro exI [of _ "length numbered"]) simp
    qed
  qed
  ultimately show ?thesis
    using t due by (auto simp: numbers_def seq_no_Suc)
qed

lemma outbound_journal:
  assumes p: "map_of (dl_peers (tr_delivery s)) peer = Some p" and x: "pd_nextSend p \<noteq> - 1"
  shows "outbound_rel name s (snd (journal_body body m peer (pd_nextSend p) s))"
proof -
  let ?t = "snd (journal_body body m peer (pd_nextSend p) s)"
  let ?s1 = "set_delivery peer (pd_nextSend_update (\<lambda>q. q + 1)) s"
  let ?keep = "keep_sent (pd_nextSend p) body m"
  have cases: "?t = fail_delivery ?s1 \<or>
      ?t = upd_delivery (\<lambda>d. set_journal peer ?keep (dl_bytes_update (\<lambda>b. b + m) d)) ?s1"
    by (cases rule: keep_item_cases [of m "set_journal peer ?keep" ?s1]) (simp_all add: journal_body_def)
  have links: "tr_meshLinks ?t = tr_meshLinks s" using cases by (elim disjE) simp_all
  show ?thesis
  proof (cases "name = peer")
    case False
    have "outbound name ?t = outbound name s \<and> (dl_failure (tr_delivery s) \<longrightarrow> dl_failure (tr_delivery ?t))"
      using cases False by (elim disjE) (simp_all add: outbound_def set_delivery_def map_of_set_journal)
    then show ?thesis using links by (intro outbound_rel_same) simp_all
  next
    case True
    have o: "outbound name s = Some (pd_nextSend p, pd_sent p)" using p True by (simp add: outbound_def)
    have "outbound_step name [body] s ?t"
      unfolding outbound_step_def
    proof (intro conjI allI impI)
      show "dl_failure (tr_delivery s) \<Longrightarrow> dl_failure (tr_delivery ?t)" using cases by (elim disjE) simp_all
      fix numbered
      assume n: "numbers name numbered s"
      note due = numbered_next [OF n o x]
      have t: "outbound name ?t = Some (pd_nextSend p + 1, pd_sent p) \<and> dl_failure (tr_delivery ?t) \<or>
          outbound name ?t = Some (pd_nextSend p + 1, om_put (pd_nextSend p) \<lparr>pg_value = body, pg_bytes = m\<rparr> (pd_sent p))"
        using cases p True due(3)
        by (elim disjE) (simp_all add: outbound_def set_delivery_def map_of_set_journal keep_sent_def)
      then show "numbers name (numbered @ [body]) ?t"
        using numbers_put [OF n o x] by blast
      fix k
      assume r: "retains name numbered k s"
      show "retains name (numbered @ [body]) k ?t"
        unfolding retains_def
      proof (intro impI allI)
        fix j
        assume alive: "\<not> dl_failure (tr_delivery ?t)" and j: "k \<le> j" "j < length (numbered @ [body])"
        have w: "outbound name ?t = Some (pd_nextSend p + 1, om_put (pd_nextSend p) \<lparr>pg_value = body, pg_bytes = m\<rparr> (pd_sent p))"
          using t alive by blast
        have "\<not> dl_failure (tr_delivery s)" using alive cases by (elim disjE) auto
        then have "\<exists>item. map_of (pd_sent p) (seq_no j) = Some item \<and> pg_value item = numbered ! j" if "j < length numbered"
          using r j(1) that o by (auto simp: retains_def)
        then show "\<exists>next unacked item. outbound name ?t = Some (next, unacked) \<and>
            map_of unacked (seq_no j) = Some item \<and> pg_value item = (numbered @ [body]) ! j"
          using w j due seq_no_order(2) [of j "length numbered"]
          by (cases "j = length numbered") (auto simp: nth_append)
      qed
    qed
    then show ?thesis using links by (auto simp: outbound_rel_def)
  qed
qed

text \<open>What a member sends back, but for its acknowledgements, leaves the sender's journal.\<close>

lemma outbound_received:
  "outbound_rel name s (take_item item (set_journal peer (pd_received_update f)) s)"
  "outbound_rel name s (set_delivery peer (pd_nextReceive_update g) s)"
  "outbound_rel name s (set_delivery peer (\<lambda>p. pd_ackPending_update (\<lambda>_. h p) p) s)"
  by (rule outbound_rel_same, simp_all add: outbound_def take_item_def release_bytes_def set_delivery_def map_of_set_journal
      option.map_comp comp_def split: option.split)+

lemma outbound_store: "outbound_rel name s (snd (keep_item n (store_received peer q body n) s))"
  by (rule outbound_rel_same; cases rule: keep_item_cases [of n "store_received peer q body n" s])
     (simp_all add: outbound_def store_received_def map_of_set_journal option.map_comp comp_def split: option.split)

lemma outbound_other_acked: "name \<noteq> peer \<Longrightarrow> outbound_rel name s (acknowledge peer a s)"
  by (rule outbound_rel_same)
     (simp_all add: outbound_def acknowledge_def Let_def set_delivery_def map_of_set_journal release_all_fields split: option.split)

interpretation outbound: turns_relation "outbound_rel name" UNIV "- {name}" for name
proof unfold_locales
  fix s t u :: "('k, 'i, 'c) transport"
  show "outbound_rel name s s" by (rule outbound_rel_same) simp_all
  show "outbound_rel name s t \<Longrightarrow> outbound_rel name t u \<Longrightarrow> outbound_rel name s u" by (rule outbound_chain)
  show "\<not> om_ok (tr_meshLinks s) \<Longrightarrow> outbound_rel name s t" by (simp add: outbound_rel_def)
qed ((rule outbound_deferred outbound_received outbound_store) | (rule outbound_journal; assumption)
     | (unfold fail_delivery_def; rule outbound_flags; (simp; fail)) | (rule outbound_flags; (simp; fail))
     | (rule outbound_other_acked; (simp; fail)) | (rule outbound_rel_same; (simp add: upd_status_def outbound_def; fail)))+

text \<open>Every operation of the transport that sends is such a step.\<close>

lemma sends_step:
  assumes "kept (outbound_rel name) m" and "m s = (r, t)" and "om_ok (tr_meshLinks s)"
  shows "\<exists>bodies. outbound_step name bodies s t" "tr_meshLinks t = tr_meshLinks s"
proof -
  have "outbound_rel name s t" using assms(1,2) unfolding kept_def kept_at_def by (metis snd_conv)
  then show "\<exists>bodies. outbound_step name bodies s t" "tr_meshLinks t = tr_meshLinks s"
    using assms(3) by (simp_all add: outbound_rel_def)
qed

lemma map_of_dropWhile_le:
  "om_ok m \<Longrightarrow> map_of (dropWhile (\<lambda>(q, item). q \<le> a) m) q = (if q \<le> a then None else map_of m q)"
  for m :: "(u64, pending_gameplay) omap"
proof (induction m)
  case (Cons x m)
  obtain k item where x: "x = (k, item)" by fastforce
  have rest: "\<forall>b \<in> fst ` set m. k < b" and m: "om_ok m" using Cons.prems x by (simp_all add: om_ok_Cons)
  show ?case
  proof (cases "k \<le> a")
    case True
    then show ?thesis using Cons.IH [OF m] x by auto
  next
    case False
    have "map_of m q = None" if "q \<le> a" using rest that False by (force simp: map_of_eq_None_iff)
    then show ?thesis using False x by auto
  qed
qed simp

lemma acknowledge_fields:
  assumes "map_of (dl_peers (tr_delivery s)) name = Some p"
  shows "outbound name (acknowledge name a s) = Some (pd_nextSend p, dropWhile (\<lambda>(q, item). q \<le> a) (pd_sent p))"
    "dl_failure (tr_delivery (acknowledge name a s)) = dl_failure (tr_delivery s)"
    "tr_meshLinks (acknowledge name a s) = tr_meshLinks s"
  using assms by (simp_all add: acknowledge_def Let_def release_all_fields outbound_def set_delivery_def map_of_set_journal)

lemma receipt_received:
  assumes n: "numbers name numbered s" and a: "a \<le> m" "m \<le> length numbered" and keep: "retains name numbered m s"
    and r: "receive_delivery e name (receipt (word_of_nat a)) s = (r, t)"
  shows "numbers name numbered t" "retains name numbered m t" "tr_meshLinks t = tr_meshLinks s"
proof -
  have big: "length numbered < 2 ^ 64 - 1" using n by (simp add: numbers_def)
  obtain p where p: "map_of (dl_peers (tr_delivery s)) name = Some p" "pd_nextSend p = seq_no (length numbered)" "om_ok (pd_sent p)"
    and old: "\<forall>(q, item) \<in> set (pd_sent p). \<exists>k < length numbered. q = seq_no k \<and> pg_value item = numbered ! k"
    using n by (auto simp: numbers_def outbound_def)
  have ua: "unat (word_of_nat a :: u64) = a" using a big by (simp add: unat_of_nat take_bit_nat_def)
  have "\<not> word_of_nat a \<ge> pd_nextSend p"
    using a big p(2) by (simp add: word_le_nat_alt ua unat_seq_no)
  then have t: "t = acknowledge name (word_of_nat a) s"
    using r p(1) by (simp add: receive_delivery_def receive_ack_def act_read_def receipt_def j_find_j_obj act_bind_def act_modify_def
        act_return_def)
  note f = acknowledge_fields [OF p(1), of "word_of_nat a", folded t]
  show "tr_meshLinks t = tr_meshLinks s" by (rule f)
  have "om_ok (dropWhile (\<lambda>(q, item). q \<le> word_of_nat a) (pd_sent p))"
    using p(3) by (rule om_ok_dropWhile)
  moreover have "\<forall>(q, item) \<in> set (dropWhile (\<lambda>(q, item). q \<le> word_of_nat a) (pd_sent p)).
      \<exists>k < length numbered. q = seq_no k \<and> pg_value item = numbered ! k"
    using old by (auto dest: set_dropWhileD)
  ultimately show "numbers name numbered t"
    using f p(2) big by (simp add: numbers_def)
  have "\<not> seq_no k \<le> word_of_nat a" if "m \<le> k" "k < length numbered" for k
    using that a big by (simp add: word_le_nat_alt ua unat_seq_no)
  then show "retains name numbered m t"
    using keep p(1,3) f by (auto simp: retains_def map_of_dropWhile_le outbound_def)
qed

section \<open>Receipts\<close>

text \<open>Telling the sender empties what is to be told, and leaves the rest of the journal.\<close>

definition steady_rel :: "string \<Rightarrow> ('k, 'i, 'c) transport \<Rightarrow> ('k, 'i, 'c) transport \<Rightarrow> bool" where
  "steady_rel name s t \<longleftrightarrow> (\<forall>numbered n. awaits name numbered n s \<longrightarrow>
     awaits name numbered n t \<and> tr_meshLinks t = tr_meshLinks s \<and> (settled name s \<longrightarrow> settled name t))"

interpretation steady: kept_relation "steady_rel name" for name
proof
  fix s t u :: "('k, 'i, 'c) transport"
  show "steady_rel name s s" by (simp add: steady_rel_def)
  show "steady_rel name s t \<Longrightarrow> steady_rel name t u \<Longrightarrow> steady_rel name s u"
    unfolding steady_rel_def by metis
qed

lemma inbound_steady: "inbound_rel name s t \<Longrightarrow> steady_rel name s t"
  unfolding steady_rel_def
proof (intro allI impI)
  fix numbered n
  assume r: "inbound_rel name s t" and a: "awaits name numbered n s"
  then have "om_ok (tr_meshLinks s)" by (simp add: awaits_def)
  then show "awaits name numbered n t \<and> tr_meshLinks t = tr_meshLinks s \<and> (settled name s \<longrightarrow> settled name t)"
    using r a by (auto simp: inbound_rel_def awaits_def settled_def)
qed

lemma kept_steady: "kept (inbound_rel name) m \<Longrightarrow> kept (steady_rel name) m"
  by (simp add: kept_def kept_at_def inbound_steady)

lemma report_steady: "steady_rel name s (set_delivery name (pd_ackPending_update (\<lambda>_. 0)) s)"
  unfolding steady_rel_def
proof (intro allI impI)
  fix numbered n
  let ?t = "set_delivery name (pd_ackPending_update (\<lambda>_. 0)) s"
  assume a: "awaits name numbered n s"
  then obtain waiting ack where w: "inbound name s = Some (seq_no n, waiting, ack)" "early numbered n waiting"
    by (auto simp: awaits_def)
  then have "inbound name ?t = Some (seq_no n, waiting, 0)" by (auto simp: inbound_set inbound_of)
  then show "awaits name numbered n ?t \<and> tr_meshLinks ?t = tr_meshLinks s \<and> (settled name s \<longrightarrow> settled name ?t)"
    using a w by (simp add: awaits_def settled_def)
qed

lemma send_receipt_steady: "kept (steady_rel name) (send_receipt e peer)"
proof (cases "name = peer")
  case True
  note parts = kept_steady [OF inbound.at_act] kept_steady [OF inbound.queue_link_act]
    kept_steady [OF inbound.queue_primary_act] kept_steady [OF inbound.fail_act]
  show ?thesis
    unfolding send_receipt_def True
    by (rule keeps_read)
       (auto intro!: keptD steady.basics parts steady.modify report_steady split: option.split)
next
  case False
  then show ?thesis by (intro kept_steady inbound.send_receipt_act) simp
qed

section \<open>The exchange\<close>

text \<open>
  A sender that knows the receiver as \<open>rn\<close>, a receiver that knows the sender as \<open>sn\<close>, what the sender has
  numbered and what the receiver has applied.  Any frame that was ever numbered may arrive at any time,
  over any path, any number of times or never; so may any acknowledgement the receiver could have sent.
  After an exception the receiver has applied what its counter has passed.  The exchange is
  that of one stay of a member in the room, from the journals \<open>admit_mesh\<close> makes to their removal, and a
  frame is the JSON value its receiver reads: how lines become values is \<open>Reliable_Json\<close>.
\<close>

inductive exchange ::
  "string \<Rightarrow> string \<Rightarrow> ('k, 'i, 'c) transport \<Rightarrow> ('k, 'i, 'c) transport \<Rightarrow> json list \<Rightarrow> json list \<Rightarrow> bool" for sn rn where
  begins: "om_ok (tr_meshLinks a) \<Longrightarrow> om_ok (tr_meshLinks b) \<Longrightarrow>
     map_of (dl_peers (tr_delivery a)) rn = Some new_delivery \<Longrightarrow>
     map_of (dl_peers (tr_delivery b)) sn = Some new_delivery \<Longrightarrow> exchange sn rn a b [] []"
| sends: "exchange sn rn a b numbered applied \<Longrightarrow> outbound_step rn bodies a a' \<Longrightarrow> om_ok (tr_meshLinks a') \<Longrightarrow>
     exchange sn rn a' b (numbered @ bodies) applied"
| arrives: "exchange sn rn a b numbered applied \<Longrightarrow> k < length numbered \<Longrightarrow>
     receive_delivery e sn (delivery_frame (seq_no k) (numbered ! k)) b = (Inr bodies, b') \<Longrightarrow>
     exchange sn rn a b' numbered (applied @ bodies)"
| throws: "exchange sn rn a b numbered applied \<Longrightarrow> k < length numbered \<Longrightarrow>
     receive_delivery e sn (delivery_frame (seq_no k) (numbered ! k)) b = (Inl x, b') \<Longrightarrow>
     map_of (dl_peers (tr_delivery b')) sn = Some p \<Longrightarrow> pd_nextReceive p = seq_no m \<Longrightarrow> m \<le> length numbered \<Longrightarrow>
     exchange sn rn a b' numbered (take m numbered)"
| confirms: "exchange sn rn a b numbered applied \<Longrightarrow> m \<le> length applied \<Longrightarrow>
     receive_delivery e rn (receipt (word_of_nat m)) a = (r, a') \<Longrightarrow> exchange sn rn a' b numbered applied"
| turns: "exchange sn rn a b numbered applied \<Longrightarrow> steady_rel sn b b' \<Longrightarrow> exchange sn rn a b' numbered applied"

definition exchange_ok ::
  "string \<Rightarrow> string \<Rightarrow> ('k, 'i, 'c) transport \<Rightarrow> ('k, 'i, 'c) transport \<Rightarrow> json list \<Rightarrow> json list \<Rightarrow> bool" where
  "exchange_ok sn rn a b numbered applied \<longleftrightarrow> om_ok (tr_meshLinks a) \<and> numbers rn numbered a \<and>
     retains rn numbered (length applied) a \<and> awaits sn numbered (length applied) b \<and> settled sn b \<and> applied = take (length applied) numbered"

lemma early_more: "early numbered n waiting \<Longrightarrow> early (numbered @ bodies) n waiting"
  by (fastforce simp: early_def nth_append)

lemma exchange_invariant: "exchange sn rn a b numbered applied \<Longrightarrow> exchange_ok sn rn a b numbered applied"
proof (induction rule: exchange.induct)
  case (begins a b)
  then show ?case
    by (simp add: exchange_ok_def numbers_def retains_def awaits_def settled_def outbound_def inbound_def new_delivery_def
        early_def seq_no_def)
next
  case (sends a b numbered applied bodies a')
  then have n: "numbers rn numbered a" "retains rn numbered (length applied) a" "awaits sn numbered (length applied) b"
    "settled sn b" "applied = take (length applied) numbered"
    by (simp_all add: exchange_ok_def)
  have "awaits sn (numbered @ bodies) (length applied) b"
    using n(3) early_more by (fastforce simp: awaits_def)
  moreover have "length applied \<le> length numbered" using n(3) by (simp add: awaits_def)
  ultimately show ?case
    using n sends.hyps(2,3) by (simp add: exchange_ok_def outbound_step_def)
next
  case (arrives a b numbered applied k e bodies b')
  then have n: "numbers rn numbered a" "retains rn numbered (length applied) a" "awaits sn numbered (length applied) b"
    "settled sn b" "applied = take (length applied) numbered"
    by (simp_all add: exchange_ok_def)
  then have "length numbered < 2 ^ 64 - 1" by (simp add: numbers_def)
  note f = frame_received [OF this n(3) arrives.hyps(2,3)]
  have "applied @ bodies = take (length applied) numbered @ take (length bodies) (drop (length applied) numbered)"
    using f n(5) by simp
  also have "\<dots> = take (length applied + length bodies) numbered" by (simp only: take_add)
  finally have "applied @ bodies = take (length applied + length bodies) numbered" .
  moreover have "retains rn numbered (length applied + length bodies) a"
    using n(2) by (auto simp: retains_def)
  ultimately show ?case
    unfolding exchange_ok_def length_append using n(1,4) f arrives.IH by (simp add: exchange_ok_def)
next
  case (throws a b numbered applied k e x b' p m)
  then have n: "numbers rn numbered a" "retains rn numbered (length applied) a" "awaits sn numbered (length applied) b"
    "settled sn b"
    by (simp_all add: exchange_ok_def)
  then have big: "length numbered < 2 ^ 64 - 1" by (simp add: numbers_def)
  obtain j where j: "j \<ge> length applied" "awaits sn numbered j b'" "settled sn b'"
    using frame_thrown [OF big n(3,4) throws.hyps(2,3)] by blast
  then have "j \<le> length numbered" "seq_no j = seq_no m" using throws.hyps(4,5) by (auto simp: awaits_def inbound_def)
  then have "j = m" using seq_no_order(2) [of j m] big throws.hyps(6) by simp
  moreover have "retains rn numbered j a" using n(2) j(1) by (auto simp: retains_def)
  ultimately show ?case
    using n(1) j throws.IH throws.hyps(6) by (simp add: exchange_ok_def)
next
  case (confirms a b numbered applied m e r a')
  then have n: "numbers rn numbered a" "retains rn numbered (length applied) a" "awaits sn numbered (length applied) b"
    by (simp_all add: exchange_ok_def)
  then have "length applied \<le> length numbered" by (simp add: awaits_def)
  note r = receipt_received [OF n(1) confirms.hyps(2) this n(2) confirms.hyps(3)]
  then show ?case using confirms.IH by (simp add: exchange_ok_def)
next
  case (turns a b numbered applied b')
  then have "awaits sn numbered (length applied) b" by (simp add: exchange_ok_def)
  then have "awaits sn numbered (length applied) b'" "settled sn b \<longrightarrow> settled sn b'"
    using turns.hyps(2) by (simp_all add: steady_rel_def)
  then show ?case using turns.IH by (simp add: exchange_ok_def)
qed

end
