(* ===== verification/Delivery_Bounds.thy ===== *)
theory Delivery_Bounds
  imports Delivery_Relations
begin

text \<open>
  The bodies kept for members: their byte count is exact, and the limits of the code hold whatever is
  sent, received, acknowledged, deferred or refused.
\<close>

section \<open>Sums over ordered maps\<close>

definition om_sum :: "('v \<Rightarrow> nat) \<Rightarrow> ('k :: linorder, 'v) omap \<Rightarrow> nat" where
  "om_sum f m = sum_list (map (\<lambda>(k, v). f v) m)"

lemma om_sum_simps [simp]: "om_sum f [] = 0" "om_sum f ((k, v) # m) = f v + om_sum f m"
  by (simp_all add: om_sum_def)

lemma om_sum_append: "om_sum f (m @ m') = om_sum f m + om_sum f m'"
  by (simp add: om_sum_def)

lemma om_sum_put:
  "om_ok m \<Longrightarrow> om_sum f (om_put k v m) + (case map_of m k of None \<Rightarrow> 0 | Some u \<Rightarrow> f u) = om_sum f m + f v"
proof (induction k v m rule: om_put.induct)
  case (2 k v a b m)
  then have "om_ok m" and rest: "\<forall>x \<in> fst ` set m. a < x" by (auto simp: om_ok_Cons)
  moreover have "map_of m k = None" if "k < a"
    using rest that by (force simp: map_of_eq_None_iff)
  ultimately show ?case using 2 by (auto split: option.splits)
qed simp

lemma om_put_put: "om_put k v (om_put k u m) = om_put k v m"
  by (induction k u m rule: om_put.induct) auto

lemma om_sum_in: "map_of m k = Some v \<Longrightarrow> f v \<le> om_sum f m"
  by (induction m) (auto split: if_splits)

section \<open>What is held\<close>

definition held_peer :: "peer_delivery \<Rightarrow> nat" where
  "held_peer p = om_sum pg_bytes (pd_sent p) + om_sum pg_bytes (pd_received p)"

definition held_items :: "pending_gameplay list \<Rightarrow> nat" where
  "held_items items = sum_list (map pg_bytes items)"

definition held :: "delivery \<Rightarrow> nat" where
  "held d = om_sum held_peer (dl_peers d) + held_items (dl_deferred d) + om_sum held_items (dl_future d)"

definition journal_ok :: "peer_delivery \<Rightarrow> bool" where
  "journal_ok p \<longleftrightarrow> om_ok (pd_sent p) \<and> om_ok (pd_received p) \<and> (\<forall>q \<in> fst ` set (pd_sent p). q < pd_nextSend p) \<and>
     length (pd_sent p) \<le> 4096"

definition delivery_ok :: "delivery \<Rightarrow> bool" where
  "delivery_ok d \<longleftrightarrow> om_ok (dl_peers d) \<and> om_ok (dl_future d) \<and> (\<forall>p \<in> snd ` set (dl_peers d). journal_ok p) \<and>
     (\<forall>items \<in> snd ` set (dl_future d). length items \<le> 4096) \<and> length (dl_deferred d) \<le> 4096 \<and>
     dl_bytes d = held d \<and> dl_bytes d \<le> deliveryLimit"

lemma delivery_ok_holdings: "holdings d = holdings d' \<Longrightarrow> delivery_ok d \<longleftrightarrow> delivery_ok d'"
  by (auto simp: delivery_ok_def held_def holdings_def)

lemma journal_of: "delivery_ok d \<Longrightarrow> map_of (dl_peers d) name = Some p \<Longrightarrow> journal_ok p"
  unfolding delivery_ok_def by (force dest: map_of_SomeD)

lemma set_om_put_snd: "v \<in> snd ` set (om_put k w m) \<Longrightarrow> v = w \<or> v \<in> snd ` set m"
  using set_om_put_subset [of k w m] by force

text \<open>A journal replaced: the count moves by the difference of what it holds.\<close>

lemma ok_set_journal:
  assumes d: "om_ok (dl_peers d)" "om_ok (dl_future d)" "\<forall>p \<in> snd ` set (dl_peers d). journal_ok p"
      "\<forall>items \<in> snd ` set (dl_future d). length items \<le> 4096" "length (dl_deferred d) \<le> 4096"
    and p: "map_of (dl_peers d) name = Some p" "journal_ok (f p)"
    and n: "dl_bytes d + held_peer p = held d + held_peer (f p)" "dl_bytes d \<le> deliveryLimit"
  shows "delivery_ok (set_journal name f d)"
proof -
  have "om_sum held_peer (om_put name (f p) (dl_peers d)) + held_peer p = om_sum held_peer (dl_peers d) + held_peer (f p)"
    using om_sum_put [OF d(1), of held_peer name "f p"] p(1) by simp
  then have "held (set_journal name f d) + held_peer p = held d + held_peer (f p)"
    using p(1) by (simp add: held_def set_journal_def)
  then have "dl_bytes d = held (set_journal name f d)" using n(1) by simp
  moreover have "journal_ok q" if "q \<in> snd ` set (om_put name (f p) (dl_peers d))" for q
    using set_om_put_snd [OF that] d(3) p(2) by auto
  moreover have "set_journal name f d = d\<lparr>dl_peers := om_put name (f p) (dl_peers d)\<rparr>"
    by (simp add: set_journal_def p(1))
  ultimately show ?thesis
    unfolding delivery_ok_def using d(2,4,5) n(2) om_ok_put [OF d(1)] by simp
qed

lemma set_journal_absent: "map_of (dl_peers d) name = None \<Longrightarrow> set_journal name f d = d"
  by (simp add: set_journal_def)

lemma ok_journal_same:
  assumes "delivery_ok d" and "\<And>p. journal_ok p \<Longrightarrow> journal_ok (f p)" and "\<And>p. held_peer (f p) = held_peer p"
  shows "delivery_ok (set_journal name f d)"
proof (cases "map_of (dl_peers d) name")
  case None
  then show ?thesis using assms(1) by (simp add: set_journal_absent)
next
  case (Some p)
  have "journal_ok (f p)" using assms(2) journal_of [OF assms(1) Some] by blast
  then show ?thesis using assms(1,3) by (intro ok_set_journal [OF _ _ _ _ _ Some]) (auto simp: delivery_ok_def)
qed

section \<open>The relation every operation keeps\<close>

definition bounded_rel :: "('k, 'i, 'c) transport \<Rightarrow> ('k, 'i, 'c) transport \<Rightarrow> bool" where
  "bounded_rel s t \<longleftrightarrow> (om_ok (tr_meshLinks s) \<longrightarrow> tr_meshLinks t = tr_meshLinks s \<and>
     (delivery_ok (tr_delivery s) \<longrightarrow> delivery_ok (tr_delivery t)))"

lemma bytes_updated: "dl_bytes_update f d = d\<lparr>dl_bytes := f (dl_bytes d)\<rparr>"
  by (cases d) simp

lemma keep_item_result:
  "keep_item n store s =
     (if dl_bytes (tr_delivery s) + n > deliveryLimit then (False, fail_delivery s)
      else (True, upd_delivery (\<lambda>d. store (d\<lparr>dl_bytes := dl_bytes d + n\<rparr>)) s))"
  by (simp add: keep_item_def retain_delivery_def upd_delivery_def bytes_updated [of "\<lambda>b. b + n"])

lemma fail_fields [simp]:
  "tr_meshLinks (fail_delivery s) = tr_meshLinks s"
  "delivery_ok (tr_delivery (fail_delivery s)) \<longleftrightarrow> delivery_ok (tr_delivery s)"
  by (simp_all add: fail_delivery_def delivery_ok_holdings [of "dl_failure_update f d" d for f d] holdings_def)

lemma bounded_keep:
  assumes "delivery_ok (tr_delivery s) \<Longrightarrow> dl_bytes (tr_delivery s) + n \<le> deliveryLimit \<Longrightarrow>
      delivery_ok (store ((tr_delivery s)\<lparr>dl_bytes := dl_bytes (tr_delivery s) + n\<rparr>))"
  shows "bounded_rel s (snd (keep_item n store s))"
  using assms by (simp add: bounded_rel_def keep_item_result)

lemma bounded_upd: "(delivery_ok (tr_delivery s) \<Longrightarrow> delivery_ok (f (tr_delivery s))) \<Longrightarrow> bounded_rel s (upd_delivery f s)"
  by (simp add: bounded_rel_def)

lemma bounded_take:
  assumes "delivery_ok (tr_delivery s) \<Longrightarrow> pg_bytes item \<le> dl_bytes (tr_delivery s) \<and>
      (let d = f (tr_delivery s) in delivery_ok (d\<lparr>dl_bytes := dl_bytes (tr_delivery s) - pg_bytes item\<rparr>) \<and>
        dl_bytes d = dl_bytes (tr_delivery s))"
  shows "bounded_rel s (take_item item f s)"
  using assms
  by (auto simp: bounded_rel_def take_item_def release_bytes_def Let_def bytes_updated [of "\<lambda>b. size_sub b (pg_bytes item)"])


section \<open>The changes of the code\<close>

lemma journal_fields [simp]:
  "dl_deferred (set_journal name f d) = dl_deferred d" "dl_future (set_journal name f d) = dl_future d"
  "dl_bytes (set_journal name f d) = dl_bytes d"
  by (simp_all add: set_journal_def split: option.split)

lemma held_parts:
  "held (d\<lparr>dl_bytes := b\<rparr>) = held d" "held (dl_bytes_update g d) = held d"
  by (simp_all add: held_def)

lemma ok_parts:
  assumes "delivery_ok d"
  shows "om_ok (dl_peers d)" "om_ok (dl_future d)" "\<forall>p \<in> snd ` set (dl_peers d). journal_ok p"
    "\<forall>items \<in> snd ` set (dl_future d). length items \<le> 4096" "length (dl_deferred d) \<le> 4096"
    "dl_bytes d = held d" "dl_bytes d \<le> deliveryLimit"
  using assms by (simp_all add: delivery_ok_def)

lemma next_fresh:
  assumes "\<forall>q \<in> fst ` set m. q < n" and "n \<noteq> - 1"
  shows "map_of m n = None" "\<forall>q \<in> fst ` set m. q < n + (1 :: u64)" "n < n + 1"
proof -
  have "1 + n \<noteq> 0" using assms(2) by (metis add.commute eq_neg_iff_add_eq_0)
  then have *: "n < n + 1" by (simp add: word_less_nat_alt unatSuc add.commute [of n])
  show "map_of m n = None" using assms(1) by (auto simp: map_of_eq_None_iff)
  show "\<forall>q \<in> fst ` set m. q < n + 1" using assms(1) * by (auto intro: less_trans)
  show "n < n + 1" by (rule *)
qed

lemma bounded_journal:
  assumes p: "map_of (dl_peers (tr_delivery s)) name = Some p" and n: "pd_nextSend p \<noteq> - 1" "length (pd_sent p) < 4096"
  shows "bounded_rel s (snd (journal_body body m name (pd_nextSend p) s))"
proof -
  let ?q = "pd_nextSend p"
  let ?f = "\<lambda>p. keep_sent ?q body m (pd_nextSend_update (\<lambda>q. q + 1) p)"
  let ?t = "set_delivery name (pd_nextSend_update (\<lambda>q. q + 1)) s"
  have twice: "set_journal name g (set_journal name h d) = set_journal name (\<lambda>p. g (h p)) d" for g h d
    by (simp add: set_journal_def om_put_put split: option.split)
  have first: "bounded_rel s ?t"
    unfolding set_delivery_def
  proof (rule bounded_upd)
    assume ok: "delivery_ok (tr_delivery s)"
    then have "journal_ok p" using p by (rule journal_of)
    then have "journal_ok (pd_nextSend_update (\<lambda>q. q + 1) p)"
      using next_fresh [OF _ n(1)] by (auto simp: journal_ok_def)
    then show "delivery_ok (set_journal name (pd_nextSend_update (\<lambda>q. q + 1)) (tr_delivery s))"
      using ok_parts [OF ok] by (intro ok_set_journal [OF _ _ _ _ _ p]) (simp_all add: held_peer_def)
  qed
  show ?thesis
  proof (cases "dl_bytes (tr_delivery s) + m > deliveryLimit")
    case True
    then have "snd (journal_body body m name ?q s) = fail_delivery ?t"
      by (simp add: journal_body_def keep_item_result set_delivery_def)
    then show ?thesis using first by (simp add: bounded_rel_def)
  next
    case False
    have result: "snd (journal_body body m name ?q s) =
        upd_delivery (\<lambda>d. set_journal name (keep_sent ?q body m)
          ((set_journal name (pd_nextSend_update (\<lambda>q. q + 1)) d)\<lparr>dl_bytes := dl_bytes d + m\<rparr>)) s"
      using False by (simp add: journal_body_def keep_item_result set_delivery_def) (simp add: upd_delivery_def)
    show ?thesis
      unfolding result
    proof (rule bounded_upd)
      assume ok: "delivery_ok (tr_delivery s)"
      let ?d = "(tr_delivery s)\<lparr>dl_bytes := dl_bytes (tr_delivery s) + m\<rparr>"
      have jp: "journal_ok p" using ok p by (rule journal_of)
      have fresh: "map_of (pd_sent p) ?q = None" using jp n(1) by (auto simp: journal_ok_def intro: next_fresh(1))
      have f: "?f p = p\<lparr>pd_nextSend := ?q + 1, pd_sent := om_put ?q \<lparr>pg_value = body, pg_bytes = m\<rparr> (pd_sent p)\<rparr>"
        using fresh by (cases p) (simp add: keep_sent_def)
      have "journal_ok (?f p)"
        unfolding f using jp n next_fresh [of "pd_sent p" ?q]
        by (auto simp: journal_ok_def length_om_put fresh)
      moreover have "held_peer (?f p) = held_peer p + m"
        unfolding f using om_sum_put [of "pd_sent p" pg_bytes ?q "\<lparr>pg_value = body, pg_bytes = m\<rparr>"] jp fresh
        by (simp add: held_peer_def journal_ok_def)
      ultimately have "delivery_ok (set_journal name ?f ?d)"
        using ok_parts [OF ok] p False by (intro ok_set_journal [of ?d name p]) (simp_all add: held_parts)
      moreover have "(set_journal name (pd_nextSend_update (\<lambda>q. q + 1)) (tr_delivery s))\<lparr>dl_bytes := dl_bytes (tr_delivery s) + m\<rparr>
          = set_journal name (pd_nextSend_update (\<lambda>q. q + 1)) ?d"
        by (simp add: set_journal_def split: option.split)
      ultimately show "delivery_ok (set_journal name (keep_sent ?q body m)
          ((set_journal name (pd_nextSend_update (\<lambda>q. q + 1)) (tr_delivery s))\<lparr>dl_bytes := dl_bytes (tr_delivery s) + m\<rparr>))"
        by (simp add: twice)
    qed
  qed
qed

lemma held_items_simps [simp]:
  "held_items [] = 0" "held_items (x # xs) = pg_bytes x + held_items xs" "held_items (xs @ ys) = held_items xs + held_items ys"
  by (simp_all add: held_items_def)

lemma bounded_postpone:
  "length (dl_deferred (tr_delivery s)) < 4096 \<Longrightarrow> bounded_rel s (snd (keep_item n (store_deferred message n) s))"
  by (rule bounded_keep) (auto simp: delivery_ok_def store_deferred_def held_def)

lemma bounded_resume:
  assumes "dl_deferred (tr_delivery s) = item # rest"
  shows "bounded_rel s (take_item item (dl_deferred_update (\<lambda>_. rest)) s)"
  by (rule bounded_take) (use assms in \<open>auto simp: delivery_ok_def held_def\<close>)

lemma om_get_sum: "om_sum held_items (om_put k v m) + held_items (om_get [] k m) = om_sum held_items m + held_items v"
  if "om_ok m" for m :: "(string, pending_gameplay list) omap"
  using om_sum_put [OF that, of held_items k v] by (simp add: om_get_def split: option.splits)

lemma om_get_le: "held_items (om_get [] k m) \<le> om_sum held_items m"
  by (auto simp: om_get_def split: option.split intro: om_sum_in)

lemma ok_set_future:
  assumes d: "om_ok (dl_peers d)" "om_ok (dl_future d)" "\<forall>p \<in> snd ` set (dl_peers d). journal_ok p"
      "\<forall>items \<in> snd ` set (dl_future d). length items \<le> 4096" "length (dl_deferred d) \<le> 4096"
    and items: "length items \<le> 4096"
    and n: "dl_bytes d + held_items (om_get [] name (dl_future d)) = held d + held_items items" "dl_bytes d \<le> deliveryLimit"
  shows "delivery_ok (set_future name items d)"
proof -
  have "held (set_future name items d) + held_items (om_get [] name (dl_future d)) = held d + held_items items"
    using om_get_sum [OF d(2), of name items] by (simp add: held_def set_future_def)
  then have "dl_bytes d = held (set_future name items d)" using n(1) by simp
  moreover have "length q \<le> 4096" if "q \<in> snd ` set (om_put name items (dl_future d))" for q
    using set_om_put_snd [OF that] d(4) items by auto
  ultimately show ?thesis
    unfolding delivery_ok_def using d(1,3,5) n(2) om_ok_put [OF d(2)] by (simp add: set_future_def)
qed

lemma future_length: "delivery_ok d \<Longrightarrow> length (om_get [] name (dl_future d)) \<le> 4096"
  unfolding delivery_ok_def by (force simp: om_get_def split: option.split dest: map_of_SomeD)

lemma bounded_entry: "bounded_rel s (upd_delivery (\<lambda>d. set_future name (om_get [] name (dl_future d)) d) s)"
  by (rule bounded_upd) (rule ok_set_future, auto dest: ok_parts future_length)

lemma bounded_store_future:
  assumes "length (om_get [] name (dl_future (tr_delivery s))) < 4096"
  shows "bounded_rel s (snd (keep_item n
    (set_future name (om_get [] name (dl_future (tr_delivery s)) @ [\<lparr>pg_value = body, pg_bytes = n\<rparr>])) s))"
  by (rule bounded_keep, rule ok_set_future) (use assms in \<open>auto dest: ok_parts simp: held_parts\<close>)

lemma future_bytes:
  "(set_future name items d)\<lparr>dl_bytes := b\<rparr> = set_future name items (d\<lparr>dl_bytes := b\<rparr>)"
  "dl_bytes (set_future name items d) = dl_bytes d"
  by (cases d, simp add: set_future_def)+

lemma bounded_take_future:
  assumes "om_get [] name (dl_future (tr_delivery s)) = item # rest"
  shows "bounded_rel s (take_item item (set_future name rest) s)"
proof (rule bounded_take)
  let ?d = "tr_delivery s"
  assume ok: "delivery_ok ?d"
  have le: "pg_bytes item + held_items rest \<le> held ?d"
    using om_get_le [of name "dl_future ?d"] assms by (simp add: held_def)
  have "delivery_ok (set_future name rest (?d\<lparr>dl_bytes := dl_bytes ?d - pg_bytes item\<rparr>))"
    using ok_parts [OF ok] future_length [OF ok, of name] assms le by (intro ok_set_future) (auto simp: held_parts)
  then show "pg_bytes item \<le> dl_bytes ?d \<and> (let d = set_future name rest ?d in
      delivery_ok (d\<lparr>dl_bytes := dl_bytes ?d - pg_bytes item\<rparr>) \<and> dl_bytes d = dl_bytes ?d)"
    using le ok_parts(6) [OF ok] by (simp add: Let_def future_bytes)
qed

lemma journal_bytes: "(set_journal name f d)\<lparr>dl_bytes := b\<rparr> = set_journal name f (d\<lparr>dl_bytes := b\<rparr>)"
  by (simp add: set_journal_def split: option.split)

lemma bounded_take_received:
  assumes p: "map_of (dl_peers (tr_delivery s)) name = Some p" and r: "pd_received p = (q, item) # rest"
  shows "bounded_rel s (take_item item (set_journal name (pd_received_update (\<lambda>_. rest))) s)"
proof (rule bounded_take)
  let ?d = "tr_delivery s"
  assume ok: "delivery_ok ?d"
  have jp: "journal_ok p" using ok p by (rule journal_of)
  have "held_peer p \<le> om_sum held_peer (dl_peers ?d)" using p by (rule om_sum_in)
  then have le: "held_peer p \<le> held ?d" by (simp add: held_def)
  have "journal_ok (pd_received_update (\<lambda>_. rest) p)" using jp r by (simp add: journal_ok_def om_ok_Cons)
  then have "delivery_ok (set_journal name (pd_received_update (\<lambda>_. rest)) (?d\<lparr>dl_bytes := dl_bytes ?d - pg_bytes item\<rparr>))"
    using ok_parts [OF ok] le r p by (intro ok_set_journal [of _ name p]) (auto simp: held_parts held_peer_def)
  then show "pg_bytes item \<le> dl_bytes ?d \<and> (let d = set_journal name (pd_received_update (\<lambda>_. rest)) ?d in
      delivery_ok (d\<lparr>dl_bytes := dl_bytes ?d - pg_bytes item\<rparr>) \<and> dl_bytes d = dl_bytes ?d)"
    using le ok_parts(6) [OF ok] r by (simp add: Let_def journal_bytes held_peer_def)
qed

lemma bounded_store:
  assumes p: "map_of (dl_peers (tr_delivery s)) name = Some p" and q: "map_of (pd_received p) q = None"
  shows "bounded_rel s (snd (keep_item n (store_received name q body n) s))"
proof (rule bounded_keep)
  let ?d = "tr_delivery s"
  assume ok: "delivery_ok ?d" and le: "dl_bytes ?d + n \<le> deliveryLimit"
  have jp: "journal_ok p" using ok p by (rule journal_of)
  have "om_sum pg_bytes (om_put q \<lparr>pg_value = body, pg_bytes = n\<rparr> (pd_received p)) = om_sum pg_bytes (pd_received p) + n"
    using om_sum_put [of "pd_received p" pg_bytes q "\<lparr>pg_value = body, pg_bytes = n\<rparr>"] jp q by (simp add: journal_ok_def)
  then show "delivery_ok (store_received name q body n (?d\<lparr>dl_bytes := dl_bytes ?d + n\<rparr>))"
    unfolding store_received_def using ok_parts [OF ok] le jp p
    by (intro ok_set_journal [of _ name p]) (auto simp: held_parts held_peer_def journal_ok_def)
qed

lemma bounded_counts:
  "bounded_rel s (set_delivery name (pd_nextReceive_update g) s)"
  "bounded_rel s (set_delivery name (\<lambda>p. pd_ackPending_update (\<lambda>_. h p) p) s)"
  unfolding set_delivery_def
  by (rule bounded_upd, rule ok_journal_same, simp_all add: journal_ok_def held_peer_def)+

text \<open>The acknowledged prefix, and what the loop subtracts for it.\<close>

lemma release_all:
  "foldl (\<lambda>s (q, item). release_bytes (pg_bytes item) s) s gone =
     upd_delivery (\<lambda>d. d\<lparr>dl_bytes := foldl (\<lambda>b (q, item). size_sub b (pg_bytes item)) (dl_bytes d) gone\<rparr>) s"
proof (induction gone arbitrary: s)
  case (Cons x gone)
  obtain q item where x: "x = (q, item)" by fastforce
  have "foldl (\<lambda>s (q, item). release_bytes (pg_bytes item) s) s (x # gone) =
      foldl (\<lambda>s (q, item). release_bytes (pg_bytes item) s) (release_bytes (pg_bytes item) s) gone"
    by (simp add: x)
  also note Cons.IH
  finally show ?case
    by (simp add: x release_bytes_def bytes_updated [of "\<lambda>b. size_sub b (pg_bytes item)"]) (simp add: upd_delivery_def)
qed (simp add: upd_delivery_def)

lemma size_sub_all:
  "om_sum pg_bytes gone \<le> b \<Longrightarrow> foldl (\<lambda>b (q, item). size_sub b (pg_bytes item)) b gone = b - om_sum pg_bytes gone"
  for gone :: "(u64, pending_gameplay) omap"
  by (induction gone arbitrary: b) (auto simp: split_beta)

lemma bounded_acked: "bounded_rel s (acknowledge name a s)"
proof (cases "map_of (dl_peers (tr_delivery s)) name")
  case None
  then show ?thesis by (simp add: acknowledge_def bounded_rel_def)
next
  case (Some p)
  let ?P = "\<lambda>(q, item). q \<le> a"
  let ?gone = "takeWhile ?P (pd_sent p)" and ?kept = "dropWhile ?P (pd_sent p)"
  let ?f = "pd_sent_update (\<lambda>_. ?kept)"
  have parts: "om_sum pg_bytes (pd_sent p) = om_sum pg_bytes ?gone + om_sum pg_bytes ?kept"
    by (metis om_sum_append takeWhile_dropWhile_id)
  have result: "acknowledge name a s = upd_delivery (\<lambda>d. set_journal name ?f
      (d\<lparr>dl_bytes := foldl (\<lambda>b (q, item). size_sub b (pg_bytes item)) (dl_bytes d) ?gone\<rparr>)) s"
    by (simp add: acknowledge_def Some Let_def release_all set_delivery_def) (simp add: upd_delivery_def)
  show ?thesis
    unfolding result
  proof (rule bounded_upd)
    let ?d = "tr_delivery s"
    assume ok: "delivery_ok ?d"
    have jp: "journal_ok p" using ok Some by (rule journal_of)
    have "held_peer p \<le> om_sum held_peer (dl_peers ?d)" using Some by (rule om_sum_in)
    then have le: "om_sum pg_bytes (pd_sent p) + om_sum pg_bytes (pd_received p) \<le> held ?d" by (simp add: held_def held_peer_def)
    then have b: "foldl (\<lambda>b (q, item). size_sub b (pg_bytes item)) (dl_bytes ?d) ?gone = dl_bytes ?d - om_sum pg_bytes ?gone"
      using parts ok_parts(6) [OF ok] by (intro size_sub_all) simp
    have "journal_ok (?f p)"
      using jp by (auto simp: journal_ok_def om_ok_dropWhile dest: set_dropWhileD intro: le_trans [OF length_dropWhile_le])
    then show "delivery_ok (set_journal name ?f
        (?d\<lparr>dl_bytes := foldl (\<lambda>b (q, item). size_sub b (pg_bytes item)) (dl_bytes ?d) ?gone\<rparr>))"
      unfolding b using ok_parts [OF ok] Some le parts
      by (intro ok_set_journal [of _ name p]) (auto simp: held_parts held_peer_def)
  qed
qed

lemma bounded_same: "tr_delivery t = tr_delivery s \<Longrightarrow> tr_meshLinks t = tr_meshLinks s \<Longrightarrow> bounded_rel s t"
  by (simp add: bounded_rel_def)

lemma bounded_flags: "flags_only g \<Longrightarrow> bounded_rel s (upd_delivery g s)"
  by (rule bounded_upd) (simp add: flags_only_def delivery_ok_holdings [of "g (tr_delivery s)" "tr_delivery s"])

lemma bounded_failing: "bounded_rel s (fail_delivery s)"
  unfolding fail_delivery_def by (rule bounded_flags) simp

lemmas bounded_changes = bounded_journal bounded_postpone bounded_resume bounded_entry bounded_store_future
  bounded_take_future bounded_take_received bounded_store bounded_counts bounded_acked bounded_failing

interpretation bounded: turns_relation bounded_rel UNIV UNIV
proof unfold_locales
  fix s t u :: "('k, 'i, 'c) transport"
  show "bounded_rel s s" by (rule bounded_same) simp_all
  show "bounded_rel s t \<Longrightarrow> bounded_rel t u \<Longrightarrow> bounded_rel s u" by (auto simp: bounded_rel_def)
  show "\<not> om_ok (tr_meshLinks s) \<Longrightarrow> bounded_rel s t" by (simp add: bounded_rel_def)
qed ((rule bounded_changes; assumption) | (rule bounded_flags; (simp; fail)) | (rule bounded_same; (simp add: upd_status_def; fail)))+

end
