(* ===== verification/Delivery_Safety.thy ===== *)
theory Delivery_Safety
  imports Delivery_Order Delivery_Bounds
begin

text \<open>
  What holds of the delivery between members: bodies arrive in order and once, every operation of the
  transport is a step of that exchange, and what is kept is counted and bounded.
\<close>

section \<open>The operations\<close>

datatype delivery_op = SendMessage json | SendVoice string | SendRecovery string | FlushDeferred
  | Resend string bool | MemberFrame string json | SendReceipt string | AnnounceReady | CheckTime | FlushFuture string

fun run_op :: "('k, 'i, 'c) tenv \<Rightarrow> delivery_op \<Rightarrow> (('k, 'i, 'c) transport, unit) action" where
  "run_op e (SendMessage message) = act_bind (send_mesh_message e message) (\<lambda>_. act_return ())"
| "run_op e (SendVoice target) = act_bind (send_voice_settings_to e target) (\<lambda>_. act_return ())"
| "run_op e (SendRecovery target) = act_bind (send_save_recovery_setting_to e target) (\<lambda>_. act_return ())"
| "run_op e FlushDeferred = flush_deferred_gameplay e"
| "run_op e (Resend name direct) = act_bind (resend_delivery e name direct) (\<lambda>_. act_return ())"
| "run_op e (MemberFrame name packet) = receive_frame e name packet"
| "run_op e (SendReceipt name) = send_receipt e name"
| "run_op e AnnounceReady = announce_ready e"
| "run_op e CheckTime = check_barrier_time e"
| "run_op e (FlushFuture name) = flush_future_gameplay e name"

text \<open>The frames of one exchange: the acknowledgements its sender gets and the bodies its receiver gets.\<close>

definition ack_from :: "string \<Rightarrow> delivery_op \<Rightarrow> bool" where
  "ack_from name op \<longleftrightarrow> (case op of MemberFrame m packet \<Rightarrow> m = name \<and> j_find ''ack'' packet \<noteq> None | _ \<Rightarrow> False)"

definition body_from :: "string \<Rightarrow> delivery_op \<Rightarrow> bool" where
  "body_from name op \<longleftrightarrow> (case op of MemberFrame m packet \<Rightarrow> m = name \<and> j_find ''ack'' packet = None | _ \<Rightarrow> False)"

context turns_relation
begin

lemma body_op_act: "name \<in> N \<Longrightarrow> j_find ''ack'' packet = None \<Longrightarrow> kept R (receive_frame e name packet)"
  unfolding receive_frame_def by (intro bind body_frame_act return)

lemma ack_op_act: "name \<in> M \<Longrightarrow> j_find ''ack'' packet \<noteq> None \<Longrightarrow> kept R (receive_frame e name packet)"
  unfolding receive_frame_def by (intro bind ack_frame_act return)

lemmas ops = send_mesh_act voice_act recovery_act flush_gameplay_act resend_delivery_act announce_ready_act
  check_time_act flush_future_gameplay_act

lemma run_op_act:
  assumes "\<And>name. op = SendReceipt name \<Longrightarrow> name \<in> N"
    and "\<And>name packet. op = MemberFrame name packet \<Longrightarrow> (if j_find ''ack'' packet = None then name \<in> N else name \<in> M)"
  shows "kept R (run_op e op)"
proof (cases op)
  case (MemberFrame name packet)
  then show ?thesis using assms(2) by (cases "j_find ''ack'' packet") (auto intro: body_op_act ack_op_act)
qed (use assms(1) in \<open>auto intro!: bind ops return send_receipt_act\<close>)

end

lemma sender_op: "\<not> ack_from name op \<Longrightarrow> kept (outbound_rel name) (run_op e op)"
  by (rule outbound.run_op_act) (auto simp: ack_from_def)

lemma receiver_op:
  assumes "\<not> body_from name op"
  shows "kept (steady_rel name) (run_op e op)"
proof (cases "\<exists>peer. op = SendReceipt peer")
  case True
  then show ?thesis by (auto intro: send_receipt_steady)
next
  case False
  then show ?thesis using assms by (intro kept_steady inbound.run_op_act) (auto simp: body_from_def)
qed

section \<open>In order and once\<close>

lemma applied_prefix: "exchange sn rn a b numbered applied \<Longrightarrow> \<exists>rest. numbered = applied @ rest"
  by (drule exchange_invariant) (metis exchange_ok_def append_take_drop_id)

lemma still_kept:
  assumes "exchange sn rn a b numbered applied" and "\<not> dl_failure (tr_delivery a)"
    and "length applied \<le> k" "k < length numbered"
  shows "\<exists>p item. map_of (dl_peers (tr_delivery a)) rn = Some p \<and>
    map_of (pd_sent p) (seq_no k) = Some item \<and> pg_value item = numbered ! k"
  using exchange_invariant [OF assms(1)] assms(2-4) by (fastforce simp: exchange_ok_def retains_def outbound_def)

lemma due_frame_applied:
  assumes x: "exchange sn rn a b numbered applied" and due: "length applied < length numbered"
    and r: "receive_delivery e sn (delivery_frame (seq_no (length applied)) (numbered ! length applied)) b = (Inr bodies, b')"
    and alive: "\<not> dl_failure (tr_delivery b')"
  shows "\<exists>more. bodies = numbered ! length applied # more \<and> exchange sn rn a b' numbered (applied @ bodies)"
proof -
  have ok: "exchange_ok sn rn a b numbered applied" using x by (rule exchange_invariant)
  then have "length numbered < 2 ^ 64 - 1" "awaits sn numbered (length applied) b" "settled sn b"
    by (simp_all add: exchange_ok_def numbers_def)
  from frame_received [OF this(1,2) due r] this(3) alive
  have b: "bodies = take (length bodies) (drop (length applied) numbered)" "bodies \<noteq> []" by simp_all
  then have "hd bodies = numbered ! length applied"
    by (metis due hd_drop_conv_nth hd_take length_greater_0_conv)
  then show ?thesis
    using b(2) exchange.arrives [OF x due r] by (cases bodies) auto
qed

lemma operations_refine_exchange:
  assumes "exchange sn rn a b numbered applied"
  shows "(run_op e op a = (r, a') \<longrightarrow> \<not> ack_from rn op \<longrightarrow> (\<exists>bodies. exchange sn rn a' b (numbered @ bodies) applied)) \<and>
    (run_op e op b = (r, b') \<longrightarrow> \<not> body_from sn op \<longrightarrow> exchange sn rn a b' numbered applied)"
proof (intro conjI impI)
  have ok: "exchange_ok sn rn a b numbered applied" using assms by (rule exchange_invariant)
  show "\<exists>bodies. exchange sn rn a' b (numbered @ bodies) applied" if "run_op e op a = (r, a')" "\<not> ack_from rn op"
  proof -
    have "om_ok (tr_meshLinks a)" using ok by (simp add: exchange_ok_def)
    note s = sends_step [OF sender_op [OF that(2)] that(1) this]
    from s(1) obtain bodies where "outbound_step rn bodies a a'" ..
    moreover have "om_ok (tr_meshLinks a')" using s(2) ok by (simp add: exchange_ok_def)
    ultimately show ?thesis using exchange.sends [OF assms] by blast
  qed
  show "exchange sn rn a b' numbered applied" if "run_op e op b = (r, b')" "\<not> body_from sn op"
  proof -
    have "steady_rel sn b b'" using receiver_op [OF that(2), of e] that(1) unfolding kept_def kept_at_def by (metis snd_conv)
    then show ?thesis by (rule exchange.turns [OF assms])
  qed
qed


text \<open>A room of two: the barrier of the next generation is numbered, sent and applied.\<close>

definition ex_tenv :: "('k, 'i, 'c) tenv \<Rightarrow> ('k, 'i, 'c) tenv" where
  "ex_tenv e = e\<lparr>te_codec := toy_codec\<lparr>tc_dump := \<lambda>_. Inr ''body''\<rparr>\<rparr>"

definition ex_member :: "string \<Rightarrow> ('k, 'i, 'c) transport \<Rightarrow> ('k, 'i, 'c) transport" where
  "ex_member other s = s\<lparr>tr_meshLinks := [], tr_delivery := (no_delivery 0)\<lparr>dl_peers := [(other, new_delivery)]\<rparr>\<rparr>"

lemma ex_begins: "exchange ''client_1'' ''client_2'' (ex_member ''client_2'' a) (ex_member ''client_1'' b) [] []"
  by (rule exchange.begins) (simp_all add: ex_member_def no_delivery_def om_ok_def)

lemmas delivery_runs =
  receive_delivery_def act_read_def ex_member_def j_find_j_obj act_lift_def lift_json_def act_bind_def
  receive_sequence_def receive_body_def act_dump_def ex_tenv_def no_delivery_def new_delivery_def
  act_return_def act_run_def keep_item_def retain_delivery_def deliveryLimit_def upd_delivery_def
  store_received_def set_journal_def seq_no_def apply_delivery_body_def flush_future_gameplay_def
  act_modify_def take_item_def release_bytes_def set_future_def act_when_def act_seq_def
  barrier_body_def om_get_def apply_barrier_def set_delivery_def set_ack_def

lemma ex_applies:
  "\<exists>b'. receive_delivery (ex_tenv e) ''client_1'' (delivery_frame (seq_no 0) (barrier_body 1)) (ex_member ''client_1'' b) =
     (Inr [barrier_body 1], b') \<and> \<not> dl_failure (tr_delivery b')"
  by (simp add: delivery_runs)

text \<open>
  A body whose application throws is gone from the journal, but its number is not passed and the session
  does not fail: what comes after it waits for ever.
\<close>

lemma throwing_body_stalls:
  "case receive_delivery (ex_tenv e) ''client_1'' (delivery_frame 1 (j_obj [])) (ex_member ''client_1'' b) of (r, s) \<Rightarrow>
     isl r \<and> \<not> dl_failure (tr_delivery s) \<and>
     fst (receive_delivery (ex_tenv e) ''client_1'' (delivery_frame 2 (barrier_body 1)) s) = Inr []"
proof -
  have "j_at ''generation'' (j_obj []) = Inl OutOfRange" by (simp add: j_at_def j_find_j_obj)
  then show ?thesis by (simp add: delivery_runs Let_def)
qed

text \<open>The sender has numbered the barrier and keeps it.\<close>

definition ex_sent :: "('k, 'i, 'c) transport \<Rightarrow> ('k, 'i, 'c) transport" where
  "ex_sent a = snd (journal_body (barrier_body 1) 4 ''client_2'' 1 (ex_member ''client_2'' a))"

lemma ex_sent_journal:
  "outbound ''client_2'' (ex_sent a) = Some (2, [(1, \<lparr>pg_value = barrier_body 1, pg_bytes = 4\<rparr>)])"
  "\<not> dl_failure (tr_delivery (ex_sent a))" "tr_meshLinks (ex_sent a) = []"
  by (simp_all add: ex_sent_def ex_member_def journal_body_def keep_item_def retain_delivery_def deliveryLimit_def
      upd_delivery_def set_delivery_def set_journal_def no_delivery_def new_delivery_def keep_sent_def outbound_def)

lemma ex_numbered: "exchange ''client_1'' ''client_2'' (ex_sent a) (ex_member ''client_1'' b) [barrier_body 1] []"
proof -
  let ?a = "ex_member ''client_2'' a"
  have j: "map_of (dl_peers (tr_delivery ?a)) ''client_2'' = Some new_delivery" by (simp add: ex_member_def)
  have "outbound_rel ''client_2'' ?a (ex_sent a)"
    using outbound_journal [OF j, of "''client_2''" "barrier_body 1" 4] by (simp add: ex_sent_def new_delivery_def)
  then obtain bodies where s: "outbound_step ''client_2'' bodies ?a (ex_sent a)"
    by (auto simp: outbound_rel_def ex_member_def om_ok_def)
  have "om_ok (tr_meshLinks (ex_sent a))" by (simp add: ex_sent_journal om_ok_def)
  from exchange.sends [OF ex_begins s this]
  have x: "exchange ''client_1'' ''client_2'' (ex_sent a) (ex_member ''client_1'' b) bodies []" by simp
  then have ok: "numbers ''client_2'' bodies (ex_sent a)" "retains ''client_2'' bodies 0 (ex_sent a)"
    by (auto dest!: exchange_invariant simp: exchange_ok_def)
  have "length bodies < 2 ^ 64 - 1" "seq_no (length bodies) = 2"
    using ok(1) by (auto simp: numbers_def ex_sent_journal)
  then have "Suc (length bodies) = unat (2 :: u64)" using unat_seq_no [of "length bodies"] by simp
  then have one: "length bodies = 1" by simp
  then have "bodies ! 0 = barrier_body 1"
    using ok(2) by (auto simp: retains_def ex_sent_journal seq_no_def)
  then have "bodies = [barrier_body 1]" using one by (cases bodies) auto
  then show ?thesis using x by simp
qed


section \<open>What is kept\<close>

text \<open>Whatever is sent, received, acknowledged, deferred, refused or thrown, the count of kept bytes is
  the sum of what is kept and stays within four MiB, no journal has more than 4096 bodies unacknowledged,
  no more than 4096 messages are deferred or wait for the next generation of settings, and no number is
  taken twice.\<close>

lemma delivery_bytes_exact:
  assumes "om_ok (tr_meshLinks s)" and "delivery_ok (tr_delivery s)" and "run_op e op s = (r, t) \<or> pump_deliveries e s = (r, t)"
  shows "delivery_ok (tr_delivery t) \<and> dl_bytes (tr_delivery t) = held (tr_delivery t) \<and>
    dl_bytes (tr_delivery t) \<le> 4 * 1024 * 1024"
proof -
  have "kept bounded_rel (run_op e op)" "kept bounded_rel (pump_deliveries e)"
    by (rule bounded.run_op_act bounded.pump_act, simp_all)+
  then have "bounded_rel s t" using assms(3) unfolding kept_def kept_at_def by (metis snd_conv)
  then have "delivery_ok (tr_delivery t)" using assms(1,2) by (simp add: bounded_rel_def)
  then show ?thesis by (simp add: delivery_ok_def deliveryLimit_def)
qed

end
