(* ===== verification/Spec2Isabelle.thy ===== *)
theory Spec2Isabelle
  imports Floor_Switch_Wire Ooccoo_Wire Save_Recovery Item_Sync Presentation Pose_Playback
    Peer_Tunnel Auth_Code Relay_Admission Relay_Realtime Relay_Settings Udp_Admission Secure_Exchange
    Scheduler_Bounds Reliable_Stream Cloud_Cipher Invite_Roundtrip
    Router_Queue Chat_Wrap Pose_Ack Connection_Safety Delivery_Safety
begin

text \<open>
  The multiplayer mod \<open>dusklight-online-mod\<close>, its network stack, its relay server and the decisions
  that keep the games of several players consistent.

  THE PROGRAM.  The game talks to a transport (\<open>src/net/transport.cpp\<close>), which uses a connection layer
  over one UDP socket (\<open>udp_connection.cpp\<close>).  A peer of that layer has an encrypted channel
  (\<open>secure_datagram.cpp\<close>), a reliable channel over KCP (\<open>reliable_udp.cpp\<close>) and a share of the outgoing
  budget (\<open>datagram_scheduler.cpp\<close>).  Players reach each other directly, through the relay
  (\<open>tools/multiplayer_relay/relay.cpp\<close>) in envelopes it forwards (\<open>peer_tunnel.hpp\<close>), or in a cloud room
  whose service is reached over a sealed web socket (\<open>cloud_cipher.cpp\<close>).  Poses, voice and objects are
  realtime packets (\<open>udp_codec.cpp\<close>); all else is lines of JSON (\<open>reliable_json.hpp\<close>).  The messages for the
  game go through a router (\<open>protocol_router.cpp\<close>) to components that decide what a remote change means.

  THE MODEL, BY LAYER.  Paths are below \<open>src/\<close>, or below \<open>include/dusklight_online/\<close> for a header; each
  theory names its files again.

  Shared: \<open>Prelude\<close> (C++ integers as words, \<open>std::map\<close> and \<open>std::set\<close> as ordered lists, byte runs, lemma
  collections), \<open>Interfaces\<close> (the contracts as locales, each interpreted on the model of the code that
  provides it), \<open>Json_Value\<close> (the JSON values and accessors of the library, their exceptions as left
  values), \<open>Floating\<close> (rounding of \<open>float\<close> and \<open>double\<close> on exact rationals).

  Room codes, proofs and invitations: \<open>Auth_Code\<close> (\<open>net/auth_code.cpp\<close>), \<open>Invite_Code\<close> and
  \<open>Invite_Roundtrip\<close> (\<open>net/invite_code.cpp\<close>).

  Lines and realtime packets: \<open>Reliable_Json\<close>; \<open>Udp_Header\<close>, \<open>Udp_Packet\<close> (encoders), \<open>Udp_Decoder\<close> (the
  class \<open>Decoder\<close>); \<open>Udp_Reassembly\<close>, \<open>Udp_Recovery\<close>, \<open>Udp_Delivery\<close> and \<open>Udp_Admission\<close> show what the
  receiver guarantees: any n of the n + 1 datagrams restore a message, each is committed once and in
  order, and what is stored is bounded.

  One peer: \<open>Secure_Channel\<close> with \<open>Secure_Exchange\<close> (agreement, proof of the secret in every
  run, counters never opened twice, no key and nonce given to the cipher twice), \<open>Reliable_Udp\<close> with \<open>Reliable_Stream\<close> (over any reads a channel refines a queue),
  \<open>Datagram_Scheduler\<close> with \<open>Scheduler_Bounds\<close> (queues and tokens stay within their limits, an update ends),
  \<open>Peer_Tunnel\<close> (envelopes), \<open>Cloud_Cipher\<close>, \<open>Stun_Binding\<close>.

  The connection layer composes them: \<open>Udp_Connection\<close> (state, sessions, control messages), \<open>Udp_Poll\<close> (one
  turn: ICE, demultiplexing, reliable messages, time-outs), \<open>Udp_Mesh\<close> (the public operations).
  \<open>Connection_Bounds\<close> holds the lemmas that each operation keeps the invariant, \<open>Connection_Queues\<close>
  which steps of a reception reach the queues of the game and with what, \<open>Connection_Safety\<close> the
  machine of all operations and what it promises.

  The transport, the part that carries gameplay between members: \<open>Transport_State\<close> (its state, the event
  queue, the ways a message leaves), \<open>Mesh_Delivery\<close> (numbered bodies, journals, receipts, the barrier of a
  change of settings, both paths).  \<open>Delivery_Relations\<close> says, layer by layer, which changes the operations
  make (a chain of locales, interpreted for each relation below), \<open>Delivery_Bounds\<close> that the count of kept
  bytes is exact and bounded, \<open>Delivery_Order\<close> the exchange of two members, \<open>Delivery_Safety\<close> that bodies
  are applied in order and once and that every operation is a step of the exchange.

  The relay: \<open>Relay_State\<close>, \<open>Relay_Routing\<close>, \<open>Relay_Server\<close> are its code; \<open>Relay_Invariant\<close> and
  \<open>Relay_Isolation\<close> show that a message keeps the state well formed and stays in its room, \<open>Relay_Admission\<close>
  that entering a room needs its proof, \<open>Relay_Settings\<close> the two-phase change of settings, \<open>Relay_Realtime\<close>
  the reach of a datagram, \<open>Relay_Loop\<close> the invariant of every state the server reaches.

  The game's side: \<open>Protocol_Router\<close> with \<open>Router_Queue\<close> (the waiting queue), \<open>Chat_Input\<close>, \<open>Chat_Text\<close> and
  \<open>Chat_Wrap\<close> (\<open>game/chat.hpp\<close>), \<open>Pose_Ack\<close>, \<open>Pose_Playback\<close>, \<open>Presentation\<close> (sounds, particles,
  visibility, wetness), \<open>Floor_Switch\<close> and \<open>Floor_Switch_Wire\<close>, \<open>Ooccoo\<close> and \<open>Ooccoo_Wire\<close>, \<open>Save_Recovery\<close>,
  \<open>Item_Sync\<close> (pickups, maps, bottles, bomb bags, poes, trades).

  CONVENTIONS.  A \<open>struct\<close> or class is a record with the fields of the source, an operation a function of
  the state that returns the new one; where exceptions matter it is an action, whose state survives the
  exception as in the code.  Fixed-width integers whose wrap-around is reachable are words, a \<open>size_t\<close>
  that counts elements is a natural number.  An operation runs to its end at one reading of the clock, as
  the mutex of the class makes it; interleavings are sequences of operations.  Times are milliseconds.

  PARAMETERS stand for code that is not part of the repository: KCP, monocypher, zstd, the printer and
  parser of the JSON library, the ICE library, sockets and the resolver, the random source, the font's
  widths, the game behind the router's consumer.  Where a property needs a law of one of them it is a
  named hypothesis (\<open>codec_laws\<close>, \<open>kcp_accepts\<close>, \<open>kcp_delivers\<close>, \<open>crypto_ok\<close>, \<open>cloud_crypto_ok\<close>) and its
  witness has a concrete instance.

  BOUNDS AND FUEL.  A loop over a stream of lines has the length of the buffer as fuel, each turn
  removing a line; the reliable messages of a turn have the number waiting (lemma \<open>take_messages_all\<close>); the
  ICE packets of a turn are limited to 512 by the code; the scheduler's update makes at most 4096 passes,
  and the property \<open>update_within_burst\<close> shows that it ends before, because nothing more may be sent.
  A \<open>double\<close> of the scheduler is its exact value, rounded after each operation by \<open>Floating\<close>.

  DEFECTS FOUND, each with the theorem that shows it, where there is one: the parity recovery of a crafted
  message writes outside its buffer (\<open>recovery_overruns\<close>); a relay client whose \<open>hello\<close> throws half way is in
  a room without being one of its members (\<open>half_entered\<close>); a control message sealed for one session is
  applied to the session of the address it claims to come from (\<open>sealed_control_crosses_sessions\<close>); a
  body of a member whose application throws stops everything that member sends later
  (\<open>throwing_body_stalls\<close>); and two comments that the code does not follow.

  NOT MODELLED.  Of the transport (\<open>net/transport.cpp\<close>): connecting and lobby control, recovery of a cloud
  room, direct sessions, the sending of poses and its pacer thread; the adapter and bridges between the modelled decisions and the engine
  (\<open>game_adapter.cpp\<close>, \<open>visual_bridge.cpp\<close>, poses, actors, sounds, bombs, appearance), which call engine
  headers that are not in the repository; the user interface (\<open>online_app.cpp\<close>, \<open>mod.cpp\<close>), voice chat and
  races; tables of names and emoji; the relay's command line and launcher; the cloud room service, which
  is JavaScript; vendored libraries.  Log lines and diagnostics are left out of the modelled files, and so are
  the switches only tests compile in.
\<close>

end
